(* ===== verification/Prelude.thy ===== *)
theory Prelude
  imports Main "HOL-Library.Word" "HOL-Library.Sublist"
begin

text \<open>
  Shared vocabulary of the development: the Go types the components use, the proof
  collections, generic facts on lists, finite maps and words, bounded channels, and the
  interface of a bounded history (\<open>history_buffer\<close>), which the runner's replay buffer
  and the control plane's event bus both implement.

  Conventions. A Go \<open>string\<close> is its byte sequence (\<open>string\<close>, a \<open>char list\<close>); a
  \<open>[]byte\<close> holding terminal data is a \<open>byte list\<close>; \<open>uint64\<close> and \<open>uint16\<close> are
  words; \<open>time.Time\<close> and \<open>time.Duration\<close> are integers counting nanoseconds; a nil-able
  pointer is an \<open>option\<close>; a Go error is the text its \<open>Error()\<close> method returns. What the
  environment decides (clock readings, random identifiers, the order in which a map is
  ranged over, the outcome of a system call) is an explicit argument of the operation.
\<close>

section \<open>Go types\<close>

type_synonym byte = "8 word"
type_synonym uint16 = "16 word"
type_synonym uint64 = "64 word"
type_synonym time = int
type_synonym duration = int
type_synonym goerror = string
type_synonym 'a result = "goerror + 'a"

named_theorems wf_intros \<open>well-formedness of the results of operations\<close>
named_theorems frame_simps \<open>fields an operation leaves unchanged\<close>
named_theorems err_simps \<open>error paths of operations\<close>

definition is_ok :: "'a result \<Rightarrow> bool" where
  "is_ok r = (case r of Inl _ \<Rightarrow> False | Inr _ \<Rightarrow> True)"

lemma is_ok_simps [simp]: "\<not> is_ok (Inl e)" "is_ok (Inr x)"
  by (simp_all add: is_ok_def)

text \<open>An operation that can also panic (a nil dereference, a slice out of range).\<close>

datatype 'a outcome = Ok 'a | Fail goerror | Panic

section \<open>Lists\<close>

lemma suffix_snoc_iff: "suffix xs (ys @ [y]) \<longleftrightarrow> xs = [] \<or> (\<exists>zs. xs = zs @ [y] \<and> suffix zs ys)"
  by (rule suffix_snoc)

lemma suffix_append_right: "suffix xs ys \<Longrightarrow> suffix (xs @ zs) (ys @ zs)"
  by (auto simp: suffix_def)

lemma suffix_drop_ex: "suffix xs ys \<Longrightarrow> xs = drop (length ys - length xs) ys"
  by (auto simp: suffix_def)

lemma upt_snoc: "a \<le> b \<Longrightarrow> [a..<Suc b] = [a..<b] @ [b]"
  by simp

lemma filter_upt_greater: "filter (\<lambda>i. c < i) [a..<b] = [max a (Suc c)..<b]"
proof (induction b)
  case 0
  then show ?case by simp
next
  case (Suc b)
  then show ?case by (cases "a \<le> b") (auto simp: max_def)
qed

lemma map_eq_upt_nth:
  assumes "map f xs = [a..<b]" and "i < length xs"
  shows "f (xs ! i) = a + i"
proof -
  have "length xs = b - a" using assms(1) by (metis length_map length_upt)
  then have "map f xs ! i = a + i" using assms by simp
  then show ?thesis using assms(2) by simp
qed

section \<open>Words\<close>

lemma unat_Suc_word64: "unat (w :: uint64) + 1 < 2 ^ 64 \<Longrightarrow> unat (w + 1) = unat w + 1"
  by (simp add: unat_word_ariths)

lemma unat_word_of_nat64: "n < 2 ^ 64 \<Longrightarrow> unat (word_of_nat n :: uint64) = n"
  by (simp add: unsigned_of_nat take_bit_nat_eq_self)

section \<open>Bounded channels\<close>

text \<open>
  \<open>select { case ch <- v: default: ... }\<close> on a buffered channel with no waiting receiver:
  the send succeeds while the buffer has room. \<open>None\<close> is the \<open>default\<close> branch.
\<close>

definition try_send :: "nat \<Rightarrow> 'a \<Rightarrow> 'a list \<Rightarrow> 'a list option" where
  "try_send cap v buf = (if length buf < cap then Some (buf @ [v]) else None)"

lemma try_send_Some_iff [simp]:
  "try_send cap v buf = Some buf' \<longleftrightarrow> length buf < cap \<and> buf' = buf @ [v]"
  by (auto simp: try_send_def)

lemma try_send_None_iff [simp]: "try_send cap v buf = None \<longleftrightarrow> cap \<le> length buf"
  by (auto simp: try_send_def)

section \<open>Ranging over a map\<close>

text \<open>
  Go ranges over a map in an unspecified order. An operation that does so takes the
  order as an argument, a list \<open>ord\<close> with \<open>enumerates ord m\<close>.
\<close>

definition enumerates :: "'k list \<Rightarrow> ('k \<rightharpoonup> 'v) \<Rightarrow> bool" where
  "enumerates ord m \<longleftrightarrow> distinct ord \<and> set ord = dom m"

lemma enumeratesD: "enumerates ord m \<Longrightarrow> distinct ord" "enumerates ord m \<Longrightarrow> set ord = dom m"
  by (simp_all add: enumerates_def)

section \<open>Bounded histories\<close>

text \<open>
  A bounded history keeps a suffix of everything pushed into it. \<open>inv n s\<close> says that
  \<open>s\<close> is well formed and that \<open>n\<close> more pushes are possible (the replay buffer numbers
  its entries with a 64-bit counter).
\<close>

locale history_buffer =
  fixes push :: "'a \<Rightarrow> 's \<Rightarrow> 's"
    and held :: "'s \<Rightarrow> 'e list"
    and entry :: "'s \<Rightarrow> 'a \<Rightarrow> 'e"
    and inv :: "nat \<Rightarrow> 's \<Rightarrow> bool"
  assumes push_inv: "inv (Suc n) s \<Longrightarrow> inv n (push a s)"
    and push_held: "inv (Suc n) s \<Longrightarrow> suffix (held (push a s)) (held s @ [entry s a])"
begin

primrec entries :: "'s \<Rightarrow> 'a list \<Rightarrow> 'e list" where
  "entries s [] = []"
| "entries s (a # as) = entry s a # entries (push a s) as"

lemma length_entries: "length (entries s as) = length as"
  by (induction as arbitrary: s) auto

lemma fold_push_inv: "inv (length as + n) s \<Longrightarrow> inv n (fold push as s)"
  by (induction as arbitrary: s) (auto intro: push_inv)

lemma fold_push_held:
  "inv (length as + n) s \<Longrightarrow> suffix (held (fold push as s)) (held s @ entries s as)"
proof (induction as arbitrary: s)
  case Nil
  then show ?case by simp
next
  case (Cons a as)
  then have "inv (length as + n) (push a s)" by (simp add: push_inv)
  then have "suffix (held (fold push as (push a s))) (held (push a s) @ entries (push a s) as)"
    by (rule Cons.IH)
  moreover have "suffix (held (push a s) @ entries (push a s) as)
      ((held s @ [entry s a]) @ entries (push a s) as)"
    using push_held Cons.prems by (intro suffix_append_right) auto
  ultimately show ?case
    by (auto intro: suffix_order.order_trans)
qed

end

end
