(* ===== verification/Frame.thy ===== *)
theory Frame
  imports Prelude
begin

text \<open>
  The terminal envelope of \<^verbatim>\<open>internal/runner/frame.go\<close>: terminal sizes and frames.
  Fields are populated according to the frame's type; the zero frame has every field at
  Go's zero value.
\<close>

definition Protocol :: string where
  "Protocol = ''sandherd.terminal.v1alpha1''"

definition ProtocolVersion :: string where
  "ProtocolVersion = ''v1alpha1''"

record TerminalSize =
  Columns :: uint16
  Rows :: uint16
  PixelWidth :: uint16
  PixelHeight :: uint16

definition validateSize :: "TerminalSize \<Rightarrow> goerror option" where
  "validateSize s =
     (if Columns s = 0 \<or> Rows s = 0 \<or> Columns s > 1000 \<or> Rows s > 1000
      then Some ''terminal columns and rows must be between 1 and 1000'' else None)"

record Frame =
  frType :: string
  frProtocolVersion :: string
  frRole :: string
  frAfterSequence :: "uint64 option"
  frTakeover :: bool
  frTerminalSize :: "TerminalSize option"
  frAttachmentID :: string
  frAgentID :: string
  frLeaseID :: string
  frRunnerGeneration :: string
  frEarliestSequence :: "uint64 option"
  frLatestSequence :: "uint64 option"
  frProcessState :: string
  frSequence :: "uint64 option"
  frData :: "byte list"
  frRequestedAfterSequence :: "uint64 option"
  frReason :: string
  frExitCode :: "int option"
  frSignal :: string
  frFinishedAt :: string
  frCode :: string
  frMessage :: string
  frRequestID :: string
  frRetryable :: bool
  frNonce :: string

definition zeroFrame :: Frame where
  "zeroFrame = \<lparr> frType = [], frProtocolVersion = [], frRole = [], frAfterSequence = None,
     frTakeover = False, frTerminalSize = None, frAttachmentID = [], frAgentID = [],
     frLeaseID = [], frRunnerGeneration = [], frEarliestSequence = None,
     frLatestSequence = None, frProcessState = [], frSequence = None, frData = [],
     frRequestedAfterSequence = None, frReason = [], frExitCode = None, frSignal = [],
     frFinishedAt = [], frCode = [], frMessage = [], frRequestID = [], frRetryable = False,
     frNonce = [] \<rparr>"

definition protocolError :: "string \<Rightarrow> string \<Rightarrow> string \<Rightarrow> bool \<Rightarrow> Frame" where
  "protocolError code message requestID retryable =
     zeroFrame\<lparr>frType := ''error'', frCode := code, frMessage := message,
       frRequestID := requestID, frRetryable := retryable\<rparr>"

lemma protocolError_type [simp]: "frType (protocolError c m r b) = ''error''"
  by (simp add: protocolError_def)

end
