(* ===== verification/Replay.thy ===== *)
theory Replay
  imports Frame
begin

text \<open>
  The runner's replay buffer, \<^verbatim>\<open>internal/runner/replay.go\<close>: the most recent output
  frames, bounded in bytes and in number, numbered consecutively by a 64-bit counter.
\<close>

record replayBuffer =
  maxBytes :: int
  maxFrames :: int
  bytes :: int
  frames :: "Frame list"
  latest :: uint64

definition newReplayBuffer :: "int \<Rightarrow> int \<Rightarrow> replayBuffer" where
  "newReplayBuffer mb mf =
     \<lparr> maxBytes = mb, maxFrames = mf, bytes = 0, frames = [], latest = 0 \<rparr>"

definition outputFrame :: "uint64 \<Rightarrow> byte list \<Rightarrow> Frame" where
  "outputFrame sq data = zeroFrame\<lparr>frType := ''output'', frSequence := Some sq, frData := data\<rparr>"

text \<open>The eviction loop: drop the oldest frame while a bound is exceeded.\<close>

fun evict :: "int \<Rightarrow> int \<Rightarrow> int \<Rightarrow> Frame list \<Rightarrow> int \<times> Frame list" where
  "evict mb mf n [] = (n, [])"
| "evict mb mf n (f # fs) =
     (if n > mb \<or> int (length (f # fs)) > mf
      then evict mb mf (n - int (length (frData f))) fs else (n, f # fs))"

definition appendOutput :: "byte list \<Rightarrow> replayBuffer \<Rightarrow> Frame \<times> replayBuffer" where
  "appendOutput data b =
     (let sq = latest b + 1;
          frame = outputFrame sq data;
          fs = frames b @ [frame];
          n = bytes b + int (length data);
          (n', fs') = evict (maxBytes b) (maxFrames b) n fs
      in (frame, b\<lparr>latest := sq, frames := fs', bytes := n'\<rparr>))"

definition seqOf :: "Frame \<Rightarrow> uint64" where
  "seqOf f = (case frSequence f of Some s \<Rightarrow> s | None \<Rightarrow> 0)"

definition bounds :: "replayBuffer \<Rightarrow> uint64 \<times> uint64" where
  "bounds b = (case frames b of [] \<Rightarrow> (latest b, latest b) | f # _ \<Rightarrow> (seqOf f, latest b))"

text \<open>\<open>after\<close> returns the frames past the cursor, the gap flag and the validity flag.\<close>

definition after :: "uint64 \<Rightarrow> replayBuffer \<Rightarrow> Frame list \<times> bool \<times> bool" where
  "after cursor b =
     (if cursor > latest b then ([], False, False)
      else case frames b of
        [] \<Rightarrow> ([], cursor < latest b, True)
      | f # _ \<Rightarrow> (filter (\<lambda>g. seqOf g > cursor) (frames b), cursor + 1 < seqOf f, True))"


section \<open>The eviction loop\<close>

definition payload :: "Frame list \<Rightarrow> int" where
  "payload fs = sum_list (map (\<lambda>f. int (length (frData f))) fs)"

lemma payload_simps [simp]:
  "payload [] = 0"
  "payload (f # fs) = int (length (frData f)) + payload fs"
  "payload (fs @ gs) = payload fs + payload gs"
  by (simp_all add: payload_def)

lemma payload_nonneg [simp]: "0 \<le> payload fs"
  by (induction fs) auto

definition fits :: "int \<Rightarrow> int \<Rightarrow> Frame list \<Rightarrow> bool" where
  "fits mb mf fs \<longleftrightarrow> payload fs \<le> mb \<and> int (length fs) \<le> mf"

lemma fits_suffix: "suffix ys xs \<Longrightarrow> fits mb mf xs \<Longrightarrow> fits mb mf ys"
proof (unfold suffix_def, elim exE)
  fix zs assume "xs = zs @ ys" and "fits mb mf xs"
  then show "fits mb mf ys" using payload_nonneg [of zs] unfolding fits_def payload_simps
    by (simp del: payload_nonneg)
qed

text \<open>
  The loop keeps the longest suffix that fits, keeps the byte count exact, and ends with
  everything within bounds unless nothing is left.
\<close>

lemma evict_spec:
  assumes "evict mb mf (payload fs) fs = (n', fs')"
  shows "suffix fs' fs \<and> n' = payload fs' \<and> (fs' = [] \<or> fits mb mf fs') \<and>
    (\<forall>ys. suffix ys fs \<longrightarrow> fits mb mf ys \<longrightarrow> suffix ys fs')"
  using assms
proof (induction mb mf "payload fs" fs rule: evict.induct)
  case (1 mb mf)
  then show ?case by simp
next
  case (2 mb mf f fs)
  show ?case
  proof (cases "payload (f # fs) > mb \<or> int (length (f # fs)) > mf")
    case True
    with 2 have IH: "suffix fs' fs \<and> n' = payload fs' \<and> (fs' = [] \<or> fits mb mf fs') \<and>
      (\<forall>ys. suffix ys fs \<longrightarrow> fits mb mf ys \<longrightarrow> suffix ys fs')"
      by simp
    have "suffix ys fs'" if "suffix ys (f # fs)" and "fits mb mf ys" for ys
    proof -
      have "ys \<noteq> f # fs" using that(2) True by (auto simp: fits_def)
      with that(1) have "suffix ys fs" by (simp add: suffix_Cons)
      with IH that(2) show ?thesis by blast
    qed
    with IH show ?thesis by (auto simp: suffix_Cons)
  next
    case False
    with 2 show ?thesis by (auto simp: fits_def)
  qed
qed

section \<open>The history a buffer represents\<close>

text \<open>
  \<open>numbered log\<close> is the output stream as the protocol describes it: chunk \<open>i\<close> of the
  log, counting from 1, carries sequence number \<open>i\<close>. A buffer represents a log when it
  counts the log's chunks and holds a suffix of the numbered stream within its bounds.
\<close>

fun numberedFrom :: "nat \<Rightarrow> byte list list \<Rightarrow> Frame list" where
  "numberedFrom n [] = []"
| "numberedFrom n (d # ds) = outputFrame (word_of_nat n) d # numberedFrom (Suc n) ds"

abbreviation numbered :: "byte list list \<Rightarrow> Frame list" where
  "numbered log \<equiv> numberedFrom (Suc 0) log"

definition seqLimit :: nat where
  "seqLimit = 2 ^ 64 - 1"

definition represents :: "replayBuffer \<Rightarrow> byte list list \<Rightarrow> bool" where
  "represents b log \<longleftrightarrow> length log < seqLimit \<and> unat (latest b) = length log \<and>
     suffix (frames b) (numbered log) \<and> bytes b = payload (frames b) \<and>
     fits (maxBytes b) (maxFrames b) (frames b)"

lemma length_numberedFrom [simp]: "length (numberedFrom n log) = length log"
  by (induction log arbitrary: n) auto

lemma numberedFrom_append:
  "numberedFrom n (xs @ ys) = numberedFrom n xs @ numberedFrom (n + length xs) ys"
  by (induction xs arbitrary: n) auto

lemma numberedFrom_nth:
  "i < length log \<Longrightarrow> numberedFrom n log ! i = outputFrame (word_of_nat (n + i)) (log ! i)"
  by (induction log arbitrary: n i) (auto simp: nth_Cons ac_simps split: nat.splits)

lemma seqOf_outputFrame [simp]: "seqOf (outputFrame s d) = s"
  by (simp add: seqOf_def outputFrame_def)

lemma outputFrame_fields [simp]:
  "frType (outputFrame s d) = ''output''" "frData (outputFrame s d) = d"
  "frSequence (outputFrame s d) = Some s"
  by (simp_all add: outputFrame_def)

lemma unat_seq_numbered:
  "i < length log \<Longrightarrow> length log < 2 ^ 64 \<Longrightarrow> unat (seqOf (numbered log ! i)) = Suc i"
  by (simp add: numberedFrom_nth unat_word_of_nat64 del: of_nat_Suc of_nat_add)

lemma seqs_numbered:
  assumes "length log < 2 ^ 64"
  shows "map (\<lambda>f. unat (seqOf f)) (numbered log) = [1..<Suc (length log)]"
  using assms by (intro nth_equalityI) (auto simp: unat_seq_numbered simp del: upt_Suc)

lemma drop_numbered_seq:
  assumes "length log < 2 ^ 64" and "k \<le> length log" and "f \<in> set (drop k (numbered log))"
  shows "k < unat (seqOf f)" and "unat (seqOf f) \<le> length log"
proof -
  from assms(3) obtain i where i: "i < length log - k" "f = drop k (numbered log) ! i"
    by (auto simp: in_set_conv_nth)
  then have "f = numbered log ! (k + i)" using assms(2) by simp
  with i assms(1,2) show "k < unat (seqOf f)" "unat (seqOf f) \<le> length log"
    using unat_seq_numbered [of "k + i" log] by auto
qed

lemma take_numbered_seq:
  assumes "length log < 2 ^ 64" and "f \<in> set (take k (numbered log))"
  shows "unat (seqOf f) \<le> k"
proof -
  from assms(2) obtain i where i: "i < k" "i < length log" "f = numbered log ! i"
    by (auto simp: in_set_conv_nth)
  with assms(1) show ?thesis using unat_seq_numbered [of i log] by auto
qed

text \<open>Frames past a cursor are a suffix of the numbered stream.\<close>

lemma filter_numbered_cursor:
  assumes L: "length log < 2 ^ 64" and k: "k \<le> length log"
  shows "filter (\<lambda>f. seqOf f > c) (drop k (numbered log)) = drop (max k (unat c)) (numbered log)"
proof (cases "unat c \<le> k")
  case True
  then have "\<forall>f \<in> set (drop k (numbered log)). seqOf f > c"
    using drop_numbered_seq(1) [OF L k] by (auto simp: word_less_nat_alt intro: le_less_trans)
  then show ?thesis using True by (simp add: max_def filter_id_conv)
next
  case False
  define m where "m = unat c - k"
  have split: "drop k (numbered log) = take m (drop k (numbered log)) @ drop (unat c) (numbered log)"
    using False by (metis append_take_drop_id drop_drop add_diff_inverse_nat m_def nat_le_linear not_le add.commute)
  have "\<not> seqOf f > c" if "f \<in> set (take m (drop k (numbered log)))" for f
  proof -
    have "take m (drop k (numbered log)) = drop k (take (unat c) (numbered log))"
      using False by (simp add: take_drop m_def)
    with that have "f \<in> set (take (unat c) (numbered log))" by (metis in_set_dropD)
    then have "unat (seqOf f) \<le> unat c" by (rule take_numbered_seq [OF L])
    then show ?thesis by (simp add: word_less_nat_alt)
  qed
  moreover have "seqOf f > c" if "f \<in> set (drop (unat c) (numbered log))" for f
  proof (cases "unat c \<le> length log")
    case True
    with that drop_numbered_seq(1) [OF L True that] show ?thesis by (simp add: word_less_nat_alt)
  next
    case False
    with that show ?thesis by simp
  qed
  ultimately have "filter (\<lambda>f. seqOf f > c) (take m (drop k (numbered log))) = []"
    and "filter (\<lambda>f. seqOf f > c) (drop (unat c) (numbered log)) = drop (unat c) (numbered log)"
    by (simp_all add: filter_id_conv)
  then show ?thesis using False by (subst split) (simp add: max_def)
qed


section \<open>Appending\<close>

lemma newReplayBuffer_represents:
  "0 \<le> mb \<Longrightarrow> 0 \<le> mf \<Longrightarrow> represents (newReplayBuffer mb mf) []"
  by (simp add: represents_def newReplayBuffer_def fits_def seqLimit_def)

lemma appendOutput_fields [frame_simps]:
  "fst (appendOutput data b) = outputFrame (latest b + 1) data"
  "latest (snd (appendOutput data b)) = latest b + 1"
  "maxBytes (snd (appendOutput data b)) = maxBytes b"
  "maxFrames (snd (appendOutput data b)) = maxFrames b"
  by (simp_all add: appendOutput_def Let_def split: prod.split)

lemma appendOutput_kept:
  fixes b :: replayBuffer and data :: "byte list"
  assumes "bytes b = payload (frames b)" and "0 \<le> maxBytes b" and "0 \<le> maxFrames b"
  defines "b' \<equiv> snd (appendOutput data b)"
    and "fs \<equiv> frames b @ [outputFrame (latest b + 1) data]"
  shows "suffix (frames b') fs" and "bytes b' = payload (frames b')"
    and "fits (maxBytes b) (maxFrames b) (frames b')"
    and "suffix ys fs \<Longrightarrow> fits (maxBytes b) (maxFrames b) ys \<Longrightarrow> suffix ys (frames b')"
proof -
  obtain n' fs' where ev: "evict (maxBytes b) (maxFrames b) (payload fs) fs = (n', fs')"
    by (rule prod.exhaust)
  have "bytes b + int (length data) = payload fs"
    using assms(1) by (simp add: fs_def)
  then have b': "frames b' = fs'" "bytes b' = n'"
    using ev by (simp_all add: b'_def fs_def appendOutput_def Let_def)
  from evict_spec [OF ev] b' assms(2,3)
  show "suffix (frames b') fs" "bytes b' = payload (frames b')"
    "fits (maxBytes b) (maxFrames b) (frames b')"
    "suffix ys fs \<Longrightarrow> fits (maxBytes b) (maxFrames b) ys \<Longrightarrow> suffix ys (frames b')"
    by (auto simp: fits_def)
qed

lemma represents_bounds:
  assumes "represents b log"
  shows "0 \<le> maxBytes b" and "0 \<le> maxFrames b" and "bytes b = payload (frames b)"
    and "fits (maxBytes b) (maxFrames b) (frames b)"
  using assms payload_nonneg [of "frames b"] unfolding represents_def fits_def
  by (auto simp del: payload_nonneg)

lemma numbered_snoc: "numbered (log @ [d]) = numbered log @ [outputFrame (word_of_nat (length log) + 1) d]"
  by (simp add: numberedFrom_append ac_simps)

lemma represents_latest: "represents b log \<Longrightarrow> latest b = word_of_nat (length log)"
  by (auto simp: represents_def seqLimit_def word_unat_eq_iff unat_word_of_nat64)

lemma appendOutput_represents [wf_intros]:
  assumes R: "represents b log" and room: "length log + 1 < seqLimit"
  shows "represents (snd (appendOutput data b)) (log @ [data])"
proof -
  note rb = represents_bounds [OF R]
  note kept = appendOutput_kept [OF rb(3,1,2), where data = data]
  have num: "numbered (log @ [data]) = numbered log @ [outputFrame (latest b + 1) data]"
    by (simp add: numbered_snoc represents_latest [OF R])
  have "suffix (frames b) (numbered log)" using R by (simp add: represents_def)
  then have "suffix (frames b @ [outputFrame (latest b + 1) data]) (numbered (log @ [data]))"
    unfolding num by (rule suffix_append_right)
  with kept(1) have "suffix (frames (snd (appendOutput data b))) (numbered (log @ [data]))"
    by (rule suffix_order.trans)
  moreover have "unat (latest b + 1) = length (log @ [data])"
    using R room by (simp add: represents_def seqLimit_def unat_Suc_word64)
  ultimately show ?thesis
    using kept(2,3) room unfolding represents_def by (simp add: frame_simps)
qed

section \<open>Reading back\<close>

lemma represents_held:
  assumes "represents b log"
  shows "frames b = drop (length log - length (frames b)) (numbered log)"
    and "length (frames b) \<le> length log"
  using assms suffix_drop_ex [of "frames b" "numbered log"] suffix_length_le [of "frames b" "numbered log"]
  by (auto simp: represents_def)

text \<open>The sequence number of the first frame held.\<close>

lemma represents_first_seq:
  assumes R: "represents b log" and ne: "frames b = f # fs"
  shows "unat (seqOf f) = length log - length (frames b) + 1"
proof -
  define k where "k = length log - length (frames b)"
  have k: "k < length log" using represents_held(2) [OF R] ne by (simp add: k_def)
  have "f # fs = drop k (numbered log)"
    using represents_held(1) [OF R] ne by (simp add: k_def)
  then have "f = drop k (numbered log) ! 0" by (metis nth_Cons_0)
  then have "f = numbered log ! k" using k by simp
  then show ?thesis using unat_seq_numbered [OF k] R by (simp add: k_def represents_def seqLimit_def)
qed

lemma after_frames:
  assumes R: "represents b log" and c: "unat c \<le> length log"
  shows "after c b = (drop (max (length log - length (frames b)) (unat c)) (numbered log),
    unat c < length log - length (frames b), True)"
proof -
  have L: "length log < 2 ^ 64" and lat: "unat (latest b) = length log"
    and c1: "unat c + 1 < 2 ^ 64"
    using R c by (simp_all add: represents_def seqLimit_def)
  have notgt: "\<not> c > latest b" using c lat by (simp add: word_less_nat_alt)
  have k: "length log - length (frames b) \<le> length log" by simp
  have fs: "filter (\<lambda>f. seqOf f > c) (frames b) =
      drop (max (length log - length (frames b)) (unat c)) (numbered log)"
    using filter_numbered_cursor [OF L k, of c] represents_held(1) [OF R] by simp
  show ?thesis
  proof (cases "frames b")
    case Nil
    with notgt c lat show ?thesis by (simp add: after_def word_less_nat_alt)
  next
    case (Cons f rest)
    have "(c + 1 < seqOf f) = (unat c < length log - length (frames b))"
      using represents_first_seq [OF R Cons] c1 by (simp add: word_less_nat_alt unat_Suc_word64)
    with notgt fs Cons show ?thesis by (simp add: after_def)
  qed
qed

lemma after_ahead: "c > latest b \<Longrightarrow> after c b = ([], False, False)"
  by (simp add: after_def)

section \<open>The buffer as a bounded history\<close>

definition replay_room :: "nat \<Rightarrow> replayBuffer \<Rightarrow> bool" where
  "replay_room n b \<longleftrightarrow> (\<exists>log. represents b log \<and> length log + n < seqLimit)"

interpretation replay: history_buffer "\<lambda>d b. snd (appendOutput d b)" frames
  "\<lambda>b d. outputFrame (latest b + 1) d" replay_room
proof
  fix n b d assume "replay_room (Suc n) b"
  then obtain log where log: "represents b log" "length log + Suc n < seqLimit"
    by (auto simp: replay_room_def)
  then have "represents (snd (appendOutput d b)) (log @ [d])" by (intro appendOutput_represents) simp_all
  with log(2) show "replay_room n (snd (appendOutput d b))"
    unfolding replay_room_def by (intro exI [of _ "log @ [d]"]) simp
  note rb = represents_bounds [OF log(1)]
  show "suffix (frames (snd (appendOutput d b))) (frames b @ [outputFrame (latest b + 1) d])"
    by (rule appendOutput_kept(1) [OF rb(3,1,2)])
qed

text \<open>The buffer after a sequence of chunks.\<close>

definition appendAll :: "byte list list \<Rightarrow> replayBuffer \<Rightarrow> replayBuffer" where
  "appendAll ds b = fold (\<lambda>d b. snd (appendOutput d b)) ds b"

lemma appendAll_represents:
  "represents b log \<Longrightarrow> length log + length ds < seqLimit \<Longrightarrow> represents (appendAll ds b) (log @ ds)"
proof (induction ds arbitrary: b log)
  case Nil
  then show ?case by (simp add: appendAll_def)
next
  case (Cons d ds)
  then have "represents (snd (appendOutput d b)) (log @ [d])" by (intro appendOutput_represents) simp_all
  from Cons.IH [OF this] Cons.prems(2) show ?case by (simp add: appendAll_def)
qed

text \<open>
  C13. However many chunks are appended, the buffer holds a suffix of the output numbered from 1,
  within both bounds, with an exact byte count; and it keeps as much as it can: any suffix of
  what it held plus the new chunk that fits the bounds is still held after an append.
\<close>

theorem replay_refines_log:
  assumes "0 \<le> mb" "0 \<le> mf" "length ds < seqLimit"
  shows "suffix (frames (appendAll ds (newReplayBuffer mb mf))) (numbered ds) \<and>
    unat (latest (appendAll ds (newReplayBuffer mb mf))) = length ds \<and>
    bytes (appendAll ds (newReplayBuffer mb mf)) = payload (frames (appendAll ds (newReplayBuffer mb mf))) \<and>
    payload (frames (appendAll ds (newReplayBuffer mb mf))) \<le> mb \<and>
    int (length (frames (appendAll ds (newReplayBuffer mb mf)))) \<le> mf \<and>
    (\<forall>d ys. suffix ys (frames (appendAll ds (newReplayBuffer mb mf)) @
         [outputFrame (latest (appendAll ds (newReplayBuffer mb mf)) + 1) d]) \<longrightarrow>
       payload ys \<le> mb \<longrightarrow> int (length ys) \<le> mf \<longrightarrow>
       suffix ys (frames (snd (appendOutput d (appendAll ds (newReplayBuffer mb mf))))))"
proof -
  let ?b = "appendAll ds (newReplayBuffer mb mf)"
  have R: "represents ?b ds"
    using appendAll_represents [OF newReplayBuffer_represents [OF assms(1,2)], of ds] assms(3) by simp
  have "maxBytes (fold (\<lambda>d b. snd (appendOutput d b)) ds b) = maxBytes b \<and>
      maxFrames (fold (\<lambda>d b. snd (appendOutput d b)) ds b) = maxFrames b" for b
    by (induction ds arbitrary: b) (simp_all add: frame_simps)
  then have m: "maxBytes ?b = mb" "maxFrames ?b = mf" by (simp_all add: appendAll_def newReplayBuffer_def)
  note rb = represents_bounds [OF R]
  have "suffix ys (frames (snd (appendOutput d ?b)))"
    if "suffix ys (frames ?b @ [outputFrame (latest ?b + 1) d])" "payload ys \<le> mb" "int (length ys) \<le> mf" for d ys
    using appendOutput_kept(4) [OF rb(3,1,2) that(1)] that(2,3) m by (simp add: fits_def)
  then show ?thesis using R m by (auto simp: represents_def fits_def)
qed

theorem replay_refines_log_witness:
  "suffix (frames (appendAll [[1, 2], [3]] (newReplayBuffer 2 1))) (numbered [[1, 2], [3]]) \<and>
   frames (appendAll [[1, 2], [3]] (newReplayBuffer 2 1)) = [outputFrame 2 [3]]"
  using replay_refines_log [of 2 1 "[[1, 2], [3]]"]
  by (simp add: seqLimit_def appendAll_def appendOutput_def newReplayBuffer_def Let_def)

text \<open>
  Reading from a cursor, against the whole output: with \<open>e\<close> chunks evicted, the frames
  returned are those numbered from \<open>max e c + 1\<close> to the last, a gap is reported exactly when
  \<open>c < e\<close>, and a cursor past the last number is refused.
\<close>

theorem after_exact:
  assumes "represents b log"
  shows "after c b =
    (if unat c \<le> length log
     then (drop (max (length log - length (frames b)) (unat c)) (numbered log),
           unat c < length log - length (frames b), True)
     else ([], False, False))"
proof (cases "unat c \<le> length log")
  case True
  then show ?thesis using after_frames [OF assms] by simp
next
  case False
  then have "c > latest b" using assms by (simp add: represents_def word_less_nat_alt)
  with False show ?thesis by (simp add: after_ahead)
qed

theorem after_exact_witness:
  "after 1 (appendAll [[1, 2], [3]] (newReplayBuffer 8 8)) = ([outputFrame 2 [3]], False, True)"
proof -
  have "represents (appendAll [[1, 2], [3]] (newReplayBuffer 8 8)) [[1, 2], [3]]"
    using appendAll_represents [OF newReplayBuffer_represents, of 8 8 "[[1, 2], [3]]"] by (simp add: seqLimit_def)
  moreover have "length (frames (appendAll [[1, 2], [3]] (newReplayBuffer 8 8))) = 2"
    by (simp add: appendAll_def appendOutput_def newReplayBuffer_def Let_def)
  ultimately show ?thesis using after_exact [of _ "[[1, 2], [3]]" 1] by (simp add: numeral_2_eq_2)
qed

text \<open>
  After a chunk larger than the byte bound the buffer is empty although output exists: the
  reported earliest sequence is then the latest one, whose frame is not retained and cannot be
  replayed.
\<close>

theorem oversized_chunk_earliest:
  assumes "0 \<le> maxBytes b" "0 \<le> maxFrames b" "bytes b = payload (frames b)"
    and big: "int (length d) > maxBytes b"
  shows "frames (snd (appendOutput d b)) = [] \<and>
    bounds (snd (appendOutput d b)) = (latest b + 1, latest b + 1) \<and>
    (cursor < latest b + 1 \<longrightarrow> after cursor (snd (appendOutput d b)) = ([], True, True))"
proof -
  let ?b = "snd (appendOutput d b)"
  note kept = appendOutput_kept [OF assms(3,1,2), where data = d]
  have "frames ?b = []"
  proof (rule ccontr)
    assume "frames ?b \<noteq> []"
    then obtain zs where "frames ?b = zs @ [outputFrame (latest b + 1) d]"
      using kept(1) by (auto simp: suffix_snoc_iff)
    then have "payload (frames ?b) \<ge> int (length d)" by simp
    with kept(3) big show False by (simp add: fits_def)
  qed
  then show ?thesis by (auto simp: bounds_def after_def frame_simps)
qed

theorem oversized_chunk_earliest_witness:
  "bounds (snd (appendOutput [1, 2, 3] (newReplayBuffer 2 4))) = (1, 1) \<and>
   after 0 (snd (appendOutput [1, 2, 3] (newReplayBuffer 2 4))) = ([], True, True)"
  using oversized_chunk_earliest [of "newReplayBuffer 2 4" "[1, 2, 3]" 0]
  by (simp add: newReplayBuffer_def)

end
