(* ===== verification/GoText.thy ===== *)
theory GoText
  imports Prelude "HOL-Library.Char_ord" "HOL-Library.List_Lexorder"
begin

text \<open>
  What the sources use of Go's \<^verbatim>\<open>strings\<close>, \<^verbatim>\<open>unicode/utf8\<close>, \<^verbatim>\<open>strconv\<close> and
  \<^verbatim>\<open>regexp\<close> packages, on byte strings. Functions that look at characters decode UTF-8
  the way \<^verbatim>\<open>utf8.DecodeRuneInString\<close> does: an invalid byte is the rune U+FFFD of width 1.
  The order on strings is the byte-wise lexicographic order of Go's \<open><\<close>.
\<close>

section \<open>Prefixes, suffixes, splitting\<close>

definition hasPrefix :: "string \<Rightarrow> string \<Rightarrow> bool" where
  "hasPrefix s p = prefix p s"

definition trimPrefix :: "string \<Rightarrow> string \<Rightarrow> string" where
  "trimPrefix s p = (if hasPrefix s p then drop (length p) s else s)"

definition hasSuffix :: "string \<Rightarrow> string \<Rightarrow> bool" where
  "hasSuffix s p = suffix p s"

definition trimSuffix :: "string \<Rightarrow> string \<Rightarrow> string" where
  "trimSuffix s p = (if hasSuffix s p then take (length s - length p) s else s)"

lemma hasPrefix_append [simp]: "hasPrefix (p @ s) p"
  by (simp add: hasPrefix_def)

lemma trimPrefix_append [simp]: "trimPrefix (p @ s) p = s"
  by (simp add: trimPrefix_def)

lemma trimSuffix_append [simp]: "trimSuffix (s @ p) p = s"
  by (simp add: trimSuffix_def hasSuffix_def suffix_def)

text \<open>\<open>strings.Cut\<close> at a one-byte separator: the parts around its first occurrence.\<close>

fun cutAt :: "char \<Rightarrow> string \<Rightarrow> (string \<times> string) option" where
  "cutAt c [] = None"
| "cutAt c (x # xs) =
     (if x = c then Some ([], xs)
      else case cutAt c xs of None \<Rightarrow> None | Some (a, b) \<Rightarrow> Some (x # a, b))"

lemma cutAt_append: "c \<notin> set a \<Longrightarrow> cutAt c (a @ c # b) = Some (a, b)"
  by (induction a) auto

lemma cutAt_Some: "cutAt c s = Some (a, b) \<Longrightarrow> s = a @ c # b \<and> c \<notin> set a"
  by (induction s arbitrary: a) (auto split: if_splits option.splits)

lemma cutAt_None: "cutAt c s = None \<longleftrightarrow> c \<notin> set s"
  by (induction s) (auto split: option.splits)

text \<open>\<open>strings.Split\<close> with a one-byte separator; never empty.\<close>

fun splitOn :: "char \<Rightarrow> string \<Rightarrow> string list" where
  "splitOn c [] = [[]]"
| "splitOn c (x # xs) =
     (if x = c then [] # splitOn c xs
      else case splitOn c xs of [] \<Rightarrow> [[x]] | p # ps \<Rightarrow> (x # p) # ps)"

lemma splitOn_nonempty [simp]: "splitOn c s \<noteq> []"
  by (cases s) (auto split: list.splits)

lemma splitOn_none: "c \<notin> set s \<Longrightarrow> splitOn c s = [s]"
  by (induction s) auto

lemma splitOn_append: "c \<notin> set a \<Longrightarrow> splitOn c (a @ c # b) = a # splitOn c b"
  by (induction a) auto

section \<open>Runes\<close>

type_synonym rune = nat

definition isCont :: "nat \<Rightarrow> bool" where
  "isCont b = (128 \<le> b \<and> b < 192)"

text \<open>
  Two-, three- and four-byte encodings: when the lead byte and the bytes after it form
  one, and the rune it encodes.
\<close>

fun enc2 :: "nat \<Rightarrow> nat list \<Rightarrow> rune option" where
  "enc2 b0 (b1 # _) =
     (if 194 \<le> b0 \<and> b0 < 224 \<and> isCont b1 then Some ((b0 - 192) * 64 + (b1 - 128)) else None)"
| "enc2 _ _ = None"

fun enc3 :: "nat \<Rightarrow> nat list \<Rightarrow> rune option" where
  "enc3 b0 (b1 # b2 # _) =
     (if 224 \<le> b0 \<and> b0 < 240 \<and> isCont b1 \<and> isCont b2 \<and>
         (b0 = 224 \<longrightarrow> 160 \<le> b1) \<and> (b0 = 237 \<longrightarrow> b1 < 160)
      then Some ((b0 - 224) * 4096 + (b1 - 128) * 64 + (b2 - 128)) else None)"
| "enc3 _ _ = None"

fun enc4 :: "nat \<Rightarrow> nat list \<Rightarrow> rune option" where
  "enc4 b0 (b1 # b2 # b3 # _) =
     (if 240 \<le> b0 \<and> b0 < 245 \<and> isCont b1 \<and> isCont b2 \<and> isCont b3 \<and>
         (b0 = 240 \<longrightarrow> 144 \<le> b1) \<and> (b0 = 244 \<longrightarrow> b1 < 144)
      then Some ((b0 - 240) * 262144 + (b1 - 128) * 4096 + (b2 - 128) * 64 + (b3 - 128)) else None)"
| "enc4 _ _ = None"

text \<open>
  The value and width of the first rune of a byte sequence. \<open>decodeRune\<close> is only
  applied to non-empty input.
\<close>

fun decodeRune :: "nat list \<Rightarrow> rune \<times> nat" where
  "decodeRune [] = (65533, 0)"
| "decodeRune (b0 # bs) =
     (if b0 < 128 then (b0, 1)
      else case enc2 b0 bs of Some r \<Rightarrow> (r, 2)
      | None \<Rightarrow> (case enc3 b0 bs of Some r \<Rightarrow> (r, 3)
      | None \<Rightarrow> (case enc4 b0 bs of Some r \<Rightarrow> (r, 4)
      | None \<Rightarrow> (65533, 1))))"

lemma enc2_Some:
  assumes "enc2 b0 bs = Some r"
  shows "128 \<le> r" and "\<forall>x \<in> set (take 1 bs). 128 \<le> x"
  using assms by (cases "(b0, bs)" rule: enc2.cases; force simp: isCont_def split: if_splits)+

lemma enc3_Some:
  assumes "enc3 b0 bs = Some r"
  shows "128 \<le> r" and "\<forall>x \<in> set (take 2 bs). 128 \<le> x"
  using assms by (cases "(b0, bs)" rule: enc3.cases; force simp: isCont_def split: if_splits)+

lemma enc4_Some:
  assumes "enc4 b0 bs = Some r"
  shows "128 \<le> r" and "\<forall>x \<in> set (take 3 bs). 128 \<le> x"
  using assms by (cases "(b0, bs)" rule: enc4.cases; force simp: isCont_def split: if_splits)+

lemma decodeRune_width: "0 < snd (decodeRune (b # bs))"
  by (auto split: option.splits)

lemma decodeRune_ascii: "b < 128 \<Longrightarrow> decodeRune (b # bs) = (b, 1)"
  by simp

lemma decodeRune_nonascii:
  "128 \<le> b \<Longrightarrow> decodeRune (b # bs) = (r, n) \<Longrightarrow>
     128 \<le> r \<and> (\<forall>x \<in> set (take n (b # bs)). 128 \<le> x)"
  using enc2_Some [of b bs] enc3_Some [of b bs] enc4_Some [of b bs]
  by (auto simp: take_Cons' split: option.splits)

declare decodeRune.simps [simp del]
declare decodeRune_ascii [simp]

text \<open>The runes of a string with the bytes that encode each.\<close>

function runeList :: "string \<Rightarrow> (rune \<times> string) list" where
  "runeList [] = []"
| "runeList (c # cs) =
     (let (r, n) = decodeRune (map of_char (c # cs))
      in (r, take n (c # cs)) # runeList (drop n (c # cs)))"
  by pat_completeness auto
termination
proof (relation "measure length", simp)
  fix c :: char and cs x r n
  assume "x = decodeRune (map of_char (c # cs))" and "(r, n) = x"
  then have "0 < n" using decodeRune_width [of "of_char c" "map of_char cs"] by (metis list.simps(9) snd_conv)
  then show "(drop n (c # cs), c # cs) \<in> measure length" by simp
qed

lemma concat_runeList: "concat (map snd (runeList s)) = s"
proof (induction s rule: runeList.induct)
  case 1
  then show ?case by simp
next
  case (2 c cs)
  obtain r n where rn: "decodeRune (map of_char (c # cs)) = (r, n)" by (rule prod.exhaust)
  then have "concat (map snd (runeList (drop n (c # cs)))) = drop n (c # cs)"
    by (intro "2"(1)) auto
  with rn show ?case by (simp add: Let_def)
qed

lemma runeList_ascii: "\<forall>c \<in> set s. (of_char c :: nat) < 128 \<Longrightarrow> runeList s = map (\<lambda>c. (of_char c, [c])) s"
  by (induction s) (simp_all add: Let_def)

text \<open>\<open>strings.IndexFunc(s, p) >= 0\<close>.\<close>

definition anyRune :: "(rune \<Rightarrow> bool) \<Rightarrow> string \<Rightarrow> bool" where
  "anyRune p s = list_ex (\<lambda>(r, _). p r) (runeList s)"

text \<open>A test that rejects every rune from U+0080 on sees exactly the ASCII bytes.\<close>

lemma anyRune_bytes:
  assumes "\<And>r. 128 \<le> r \<Longrightarrow> \<not> p r"
  shows "anyRune p s \<longleftrightarrow> (\<exists>c \<in> set s. p (of_char c))"
  unfolding anyRune_def
proof (induction s rule: runeList.induct)
  case 1
  then show ?case by simp
next
  case (2 c cs)
  obtain r n where rn: "decodeRune (map of_char (c # cs)) = (r, n)" by (rule prod.exhaust)
  have split: "set (c # cs) = set (take n (c # cs)) \<union> set (drop n (c # cs))"
    by (metis append_take_drop_id set_append)
  have head: "p r \<longleftrightarrow> (\<exists>x \<in> set (take n (c # cs)). p (of_char x))"
  proof (cases "(of_char c :: nat) < 128")
    case True
    then have "r = of_char c \<and> n = 1" using rn by (simp add: decodeRune_ascii)
    then show ?thesis by simp
  next
    case False
    then have *: "128 \<le> r \<and> (\<forall>x :: nat \<in> set (take n (map of_char (c # cs))). 128 \<le> x)"
      using decodeRune_nonascii [of "of_char c" "map of_char cs" r n] rn by simp
    then have "\<forall>x \<in> set (take n (c # cs)). 128 \<le> (of_char x :: nat)"
      by (auto simp only: take_map list.set_map)
    with * assms show ?thesis by blast
  qed
  have IH: "list_ex (\<lambda>(r, _). p r) (runeList (drop n (c # cs))) \<longleftrightarrow>
      (\<exists>x \<in> set (drop n (c # cs)). p (of_char x))"
    by (rule "2" [OF refl rn [symmetric]])
  have "list_ex (\<lambda>(r, _). p r) (runeList (c # cs)) \<longleftrightarrow>
      p r \<or> list_ex (\<lambda>(r, _). p r) (runeList (drop n (c # cs)))"
    using rn by (simp add: Let_def)
  also have "\<dots> \<longleftrightarrow> (\<exists>x \<in> set (c # cs). p (of_char x))"
    unfolding head IH by (subst split) blast
  finally show ?case .
qed

section \<open>Trimming white space\<close>

definition isSpace :: "rune \<Rightarrow> bool" where
  "isSpace r = (r \<in> {9, 10, 11, 12, 13, 32, 133, 160, 5760, 8232, 8233, 8239, 8287, 12288}
     \<or> (8192 \<le> r \<and> r \<le> 8202))"

definition trimSpace :: "string \<Rightarrow> string" where
  "trimSpace s = concat (map snd
     (rev (dropWhile (isSpace \<circ> fst) (rev (dropWhile (isSpace \<circ> fst) (runeList s))))))"

lemma trimSpace_id:
  assumes "\<not> anyRune isSpace s"
  shows "trimSpace s = s"
proof -
  have "dropWhile (isSpace \<circ> fst) (runeList s) = runeList s"
    using assms by (cases "runeList s") (auto simp: anyRune_def)
  moreover have "dropWhile (isSpace \<circ> fst) (rev (runeList s)) = rev (runeList s)"
  proof (rule dropWhile_eq_self_iff [THEN iffD2], rule disjCI)
    assume "\<not> \<not> (isSpace \<circ> fst) (hd (rev (runeList s)))"
    then show "rev (runeList s) = []"
      using assms hd_in_set [of "rev (runeList s)"] by (auto simp: anyRune_def list_ex_iff case_prod_beta)
  qed
  ultimately show ?thesis by (simp add: trimSpace_def concat_runeList)
qed

section \<open>Character classes\<close>

definition isLower :: "char \<Rightarrow> bool" where
  "isLower c = (97 \<le> (of_char c :: nat) \<and> (of_char c :: nat) \<le> 122)"

definition isUpper :: "char \<Rightarrow> bool" where
  "isUpper c = (65 \<le> (of_char c :: nat) \<and> (of_char c :: nat) \<le> 90)"

definition isDigit :: "char \<Rightarrow> bool" where
  "isDigit c = (48 \<le> (of_char c :: nat) \<and> (of_char c :: nat) \<le> 57)"

definition isHexDigit :: "char \<Rightarrow> bool" where
  "isHexDigit c = (c \<in> set ''0123456789abcdefABCDEF'')"

text \<open>
  \<open>strings.ToUpper\<close>, as far as a comparison with ASCII text can tell: besides the ASCII
  letters only U+0131 and U+017F have an ASCII upper case; every other rune keeps an
  encoding without ASCII letters.
\<close>

definition upperRune :: "rune \<times> string \<Rightarrow> string" where
  "upperRune rs =
     (let r = fst rs in
      if 97 \<le> r \<and> r \<le> 122 then [char_of (r - 32)]
      else if r = 305 then ''I'' else if r = 383 then ''S'' else snd rs)"

definition toUpper :: "string \<Rightarrow> string" where
  "toUpper s = concat (map upperRune (runeList s))"

text \<open>\<open>strings.ToLower\<close>; outside ASCII only U+0130 and U+212A have an ASCII lower case.\<close>

definition lowerRune :: "rune \<times> string \<Rightarrow> string" where
  "lowerRune rs =
     (let r = fst rs in
      if 65 \<le> r \<and> r \<le> 90 then [char_of (r + 32)]
      else if r = 304 then ''i'' else if r = 8490 then ''k'' else snd rs)"

definition toLower :: "string \<Rightarrow> string" where
  "toLower s = concat (map lowerRune (runeList s))"

text \<open>\<open>looksLikeUUID\<close>, written identically in \<^verbatim>\<open>runner/run.go\<close>,
  \<^verbatim>\<open>controlplane/server.go\<close> and (as \<open>validAgentID\<close>) \<^verbatim>\<open>herdrbridge/state.go\<close>. The loop
  ranges over runes; \<open>i\<close> is the byte index at which a rune starts.\<close>

fun uuidRunes :: "nat \<Rightarrow> (rune \<times> string) list \<Rightarrow> bool" where
  "uuidRunes i [] = True"
| "uuidRunes i ((r, bs) # rest) =
     ((if i = 8 \<or> i = 13 \<or> i = 18 \<or> i = 23 then r = 45
       else r \<in> of_char ` set ''0123456789abcdefABCDEF'') \<and> uuidRunes (i + length bs) rest)"

definition looksLikeUUID :: "string \<Rightarrow> bool" where
  "looksLikeUUID value = (length value = 36 \<and> uuidRunes 0 (runeList value))"

section \<open>Formatting verbs\<close>

text \<open>\<open>%0kx\<close>: the low \<open>k\<close> hexadecimal digits, lower case.\<close>

definition hexDigit :: "nat \<Rightarrow> char" where
  "hexDigit n = ''0123456789abcdef'' ! (n mod 16)"

fun hexFixed :: "nat \<Rightarrow> nat \<Rightarrow> string" where
  "hexFixed 0 n = []"
| "hexFixed (Suc k) n = hexFixed k (n div 16) @ [hexDigit n]"

lemma length_hexFixed [simp]: "length (hexFixed k n) = k"
  by (induction k arbitrary: n) auto

lemma hexDigit_in: "hexDigit n \<in> set ''0123456789abcdef''"
proof -
  have "n mod 16 < length ''0123456789abcdef''" by simp
  then show ?thesis unfolding hexDigit_def by (rule nth_mem)
qed

lemma hexFixed_in: "(\<And>m. hexDigit m \<in> S) \<Longrightarrow> set (hexFixed k n) \<subseteq> S"
  by (induction k arbitrary: n) auto

lemmas hexFixed_digits = hexFixed_in [OF hexDigit_in]

text \<open>
  \<open>%q\<close> on a string (\<^verbatim>\<open>strconv.Quote\<close>). \<open>pr\<close> is \<^verbatim>\<open>unicode.IsPrint\<close> on the runes from
  U+0080 on, a table of the Unicode standard.
\<close>

definition backslash :: char where
  "backslash = CHR 0x5C"

definition quoteRune :: "(rune \<Rightarrow> bool) \<Rightarrow> rune \<times> string \<Rightarrow> string" where
  "quoteRune pr rs =
     (let (r, bs) = rs in
      if r = 65533 \<and> length bs = 1 then backslash # CHR ''x'' # hexFixed 2 (of_char (hd bs))
      else if r = 34 \<or> r = 92 then backslash # bs
      else if (32 \<le> r \<and> r < 127) \<or> (128 \<le> r \<and> pr r) then bs
      else if r = 7 then [backslash, CHR ''a'']
      else if r = 8 then [backslash, CHR ''b'']
      else if r = 12 then [backslash, CHR ''f'']
      else if r = 10 then [backslash, CHR ''n'']
      else if r = 13 then [backslash, CHR ''r'']
      else if r = 9 then [backslash, CHR ''t'']
      else if r = 11 then [backslash, CHR ''v'']
      else if r < 32 \<or> r = 127 then backslash # CHR ''x'' # hexFixed 2 r
      else if r < 65536 then backslash # CHR ''u'' # hexFixed 4 r
      else backslash # CHR ''U'' # hexFixed 8 r)"

definition goQuote :: "(rune \<Rightarrow> bool) \<Rightarrow> string \<Rightarrow> string" where
  "goQuote pr s = [CHR 0x22] @ concat (map (quoteRune pr) (runeList s)) @ [CHR 0x22]"

text \<open>\<open>%d\<close>.\<close>

fun digits :: "nat \<Rightarrow> string" where
  "digits n = (if n < 10 then [char_of (48 + n)] else digits (n div 10) @ [char_of (48 + n mod 10)])"

declare digits.simps [simp del]

definition formatInt :: "int \<Rightarrow> string" where
  "formatInt i = (if i < 0 then ''-'' @ digits (nat (- i)) else digits (nat i))"

end
