(* ===== verification/Process.thy ===== *)
theory Process
  imports Frame GoText
begin

text \<open>
  The agent process the runner owns, \<^verbatim>\<open>internal/runner/process.go\<close>. The PTY master is a
  \<open>tty\<close>: the bytes written to the agent's input and the current window size. The results
  of system calls (starting the process, writing to the PTY, setting its size, \<open>kill\<close>)
  are arguments; \<open>killLog\<close> records the signals sent to the process group.
\<close>

section \<open>State\<close>

record processExit =
  ExitCode :: "int option"
  Signal :: string
  FinishedAt :: time

record tty =
  ttyInput :: "byte list"
  ttySize :: TerminalSize
  ttyClosed :: bool

datatype stopPhase = StopIdle | StopWaiting | StopDone

record agentProcess =
  command :: "string list"
  directory :: string
  environ :: "string list"
  cmdPid :: "int option"
  terminal :: "tty option"
  startedAt :: time
  procExit :: "processExit option"
  procDone :: bool
  stopOnce :: stopPhase
  killLog :: "(int \<times> int) list"

definition newAgentProcess :: "string list \<Rightarrow> string \<Rightarrow> string list \<Rightarrow> agentProcess" where
  "newAgentProcess cmd dir env =
     \<lparr> command = cmd, directory = dir, environ = env, cmdPid = None, terminal = None,
       startedAt = 0, procExit = None, procDone = False, stopOnce = StopIdle, killLog = [] \<rparr>"

section \<open>Starting\<close>

definition withTerminalEnvironment :: "string list \<Rightarrow> string list" where
  "withTerminalEnvironment env =
     (let result = map (\<lambda>item. if hasPrefix item ''TERM='' then ''TERM=xterm-256color'' else item) env
      in if list_ex (\<lambda>item. hasPrefix item ''TERM='') env then result
         else result @ [''TERM=xterm-256color''])"

text \<open>
  \<open>start\<close>: \<open>outcome\<close> is what \<open>pty.StartWithSize\<close> returns for the command, directory and
  environment: an error or the pid of the child.
\<close>

definition start ::
  "(string list \<Rightarrow> string \<Rightarrow> string list \<Rightarrow> int result) \<Rightarrow> time \<Rightarrow> TerminalSize \<Rightarrow> agentProcess
     \<Rightarrow> agentProcess result" where
  "start outcome now sz p =
     (if command p = [] then Inl ''agent command is required''
      else case outcome (command p) (directory p) (withTerminalEnvironment (environ p)) of
        Inl e \<Rightarrow> Inl (''start agent PTY: '' @ e)
      | Inr pid \<Rightarrow> Inr (p\<lparr>cmdPid := Some pid,
          terminal := Some \<lparr>ttyInput = [], ttySize = sz, ttyClosed = False\<rparr>,
          startedAt := now\<rparr>))"

section \<open>Output and exit\<close>

text \<open>
  \<open>readOutput\<close>: each read returns some bytes and possibly an error; a non-empty read is
  published, an error ends the loop. The argument lists the reads that have returned, the
  result the chunks handed to \<open>output\<close> (the hub copies each before it returns).
\<close>

fun readOutput :: "(byte list \<times> bool) list \<Rightarrow> byte list list" where
  "readOutput [] = []"
| "readOutput ((d, err) # rs) =
     (if d \<noteq> [] then [d] else []) @ (if err then [] else readOutput rs)"

text \<open>What \<open>cmd.Wait\<close> reports: success, death by a signal, an exit status, another error.\<close>

datatype waitResult = WaitOk | WaitSignaled int | WaitExited int | WaitOther

definition SIGHUP :: int where "SIGHUP = 1"
definition SIGINT :: int where "SIGINT = 2"
definition SIGQUIT :: int where "SIGQUIT = 3"
definition SIGKILL :: int where "SIGKILL = 9"
definition SIGUSR1 :: int where "SIGUSR1 = 10"
definition SIGUSR2 :: int where "SIGUSR2 = 12"
definition SIGTERM :: int where "SIGTERM = 15"

lemmas signal_defs = SIGHUP_def SIGINT_def SIGQUIT_def SIGKILL_def SIGUSR1_def SIGUSR2_def SIGTERM_def

definition signalNames :: "(int \<times> string) list" where
  "signalNames = [(SIGHUP, ''SIGHUP''), (SIGINT, ''SIGINT''), (SIGQUIT, ''SIGQUIT''),
     (SIGKILL, ''SIGKILL''), (SIGTERM, ''SIGTERM''), (SIGUSR1, ''SIGUSR1''), (SIGUSR2, ''SIGUSR2'')]"

definition signalName :: "int \<Rightarrow> string" where
  "signalName sig = (case map_of signalNames sig of Some n \<Rightarrow> n | None \<Rightarrow> ''SIG'' @ formatInt sig)"

definition parseSignal :: "(rune \<Rightarrow> bool) \<Rightarrow> string \<Rightarrow> int result" where
  "parseSignal pr name =
     (case map_of [(''SIGHUP'', SIGHUP), (''SIGINT'', SIGINT), (''SIGQUIT'', SIGQUIT),
        (''SIGTERM'', SIGTERM), (''SIGUSR1'', SIGUSR1), (''SIGUSR2'', SIGUSR2)] (toUpper name) of
        Some s \<Rightarrow> Inr s
      | None \<Rightarrow> Inl (''unsupported signal '' @ goQuote pr name))"

definition exitFromWait :: "time \<Rightarrow> waitResult \<Rightarrow> processExit" where
  "exitFromWait now w =
     (case w of
        WaitOk \<Rightarrow> \<lparr>ExitCode = Some 0, Signal = [], FinishedAt = now\<rparr>
      | WaitSignaled s \<Rightarrow> \<lparr>ExitCode = None, Signal = signalName s, FinishedAt = now\<rparr>
      | WaitExited c \<Rightarrow> \<lparr>ExitCode = Some (if c < 0 then 255 else c), Signal = [], FinishedAt = now\<rparr>
      | WaitOther \<Rightarrow> \<lparr>ExitCode = Some 255, Signal = [], FinishedAt = now\<rparr>)"

text \<open>
  \<open>wait\<close> once the child is reaped and \<open>readOutput\<close> has ended: the PTY is closed and the
  exit recorded; the exit is handed to \<open>exited\<close> (the hub's \<open>publishExit\<close>), and then
  \<open>done\<close> is closed. Other goroutines can run between the three.
\<close>

definition waitRecord :: "time \<Rightarrow> waitResult \<Rightarrow> agentProcess \<Rightarrow> processExit \<times> agentProcess" where
  "waitRecord now w p =
     (let e = exitFromWait now w in
      (e, p\<lparr>terminal := map_option (\<lambda>t. t\<lparr>ttyClosed := True\<rparr>) (terminal p), procExit := Some e\<rparr>))"

definition waitDone :: "agentProcess \<Rightarrow> agentProcess" where
  "waitDone p = p\<lparr>procDone := True\<rparr>"

section \<open>Input, size, signals\<close>

text \<open>
  \<open>terminal.Write\<close> writes a prefix of the data and reports an error unless it wrote all
  of it; \<open>wr\<close> gives the number of bytes and the error.
\<close>

definition procWrite :: "(byte list \<Rightarrow> nat \<times> goerror option) \<Rightarrow> byte list \<Rightarrow> agentProcess
     \<Rightarrow> goerror option \<times> agentProcess" where
  "procWrite wr data p =
     (case terminal p of
        None \<Rightarrow> (Some ''agent is not running'', p)
      | Some t \<Rightarrow>
          if procExit p \<noteq> None then (Some ''agent is not running'', p)
          else let (n, err) = wr data in
            (err, p\<lparr>terminal := Some (t\<lparr>ttyInput := ttyInput t @ take n data\<rparr>)\<rparr>))"

definition procResize :: "(TerminalSize \<Rightarrow> goerror option) \<Rightarrow> TerminalSize \<Rightarrow> agentProcess
     \<Rightarrow> goerror option \<times> agentProcess" where
  "procResize setsize sz p =
     (case validateSize sz of
        Some e \<Rightarrow> (Some e, p)
      | None \<Rightarrow>
         (case terminal p of
            None \<Rightarrow> (Some ''agent is not running'', p)
          | Some t \<Rightarrow>
              if procExit p \<noteq> None then (Some ''agent is not running'', p)
              else (case setsize sz of
                  Some e \<Rightarrow> (Some e, p)
                | None \<Rightarrow> (None, p\<lparr>terminal := Some (t\<lparr>ttySize := sz\<rparr>)\<rparr>))))"

definition procSignal :: "(int \<Rightarrow> int \<Rightarrow> goerror option) \<Rightarrow> int \<Rightarrow> agentProcess
     \<Rightarrow> goerror option \<times> agentProcess" where
  "procSignal kill sig p =
     (case cmdPid p of
        None \<Rightarrow> (Some ''agent is not running'', p)
      | Some pid \<Rightarrow>
          if procExit p \<noteq> None then (Some ''agent is not running'', p)
          else (kill (- pid) sig, p\<lparr>killLog := killLog p @ [(- pid, sig)]\<rparr>))"

text \<open>
  \<open>terminate\<close> runs once (\<open>stopOnce\<close>): it sends \<open>SIGTERM\<close> and waits for the exit or for
  the grace timer, whichever comes first; when the timer fires it sends \<open>SIGKILL\<close> and
  waits for the exit. Its three points are three operations.
\<close>

definition terminateStart :: "(int \<Rightarrow> int \<Rightarrow> goerror option) \<Rightarrow> agentProcess \<Rightarrow> agentProcess" where
  "terminateStart kill p =
     (if stopOnce p \<noteq> StopIdle then p
      else case procSignal kill SIGTERM p of
        (Some _, p') \<Rightarrow> p'\<lparr>stopOnce := StopDone\<rparr>
      | (None, p') \<Rightarrow> p'\<lparr>stopOnce := StopWaiting\<rparr>)"

definition terminateTimeout :: "(int \<Rightarrow> int \<Rightarrow> goerror option) \<Rightarrow> agentProcess \<Rightarrow> agentProcess" where
  "terminateTimeout kill p =
     (if stopOnce p = StopWaiting then (snd (procSignal kill SIGKILL p))\<lparr>stopOnce := StopDone\<rparr> else p)"

definition terminateExited :: "agentProcess \<Rightarrow> agentProcess" where
  "terminateExited p = (if stopOnce p = StopWaiting \<and> procDone p then p\<lparr>stopOnce := StopDone\<rparr> else p)"

definition snapshot :: "agentProcess \<Rightarrow> int \<times> time \<times> processExit option" where
  "snapshot p = ((case cmdPid p of None \<Rightarrow> 0 | Some pid \<Rightarrow> pid), startedAt p, procExit p)"

end
