(* ===== verification/Hub.thy ===== *)
theory Hub
  imports Replay Process
begin

text \<open>
  The runner's hub, \<^verbatim>\<open>internal/runner/hub.go\<close> (and \<open>hub.send\<close> of \<^verbatim>\<open>server.go\<close>): the
  replay buffer, the attachments with their bounded queues, and the controller lease.
  Attachments are shared between the hub and the connection that serves them, so they
  live in a store of subscription objects; the hub's map and the connections hold
  addresses. Each operation is what the code does while it holds the hub's mutexes;
  \<open>writeInput\<close> and \<open>resize\<close> release \<open>mu\<close> around the call into the process, so they come
  in three parts. Clock readings, identifiers from \<open>newID\<close>, the order of a map range
  and the outcome of system calls are arguments.
\<close>

section \<open>State\<close>

record Permissions =
  Observe :: bool
  Control :: bool
  TerminalOnly :: bool
  PermRequestID :: string

record attachRequest =
  arRole :: string
  arAfterSequence :: "uint64 option"
  arTakeover :: bool
  arTerminalSize :: TerminalSize
  arPermissions :: Permissions

record subscription =
  subID :: string
  subRole :: string
  subLease :: string
  subPerms :: Permissions
  subInitial :: "Frame list"
  subQueue :: "Frame list"
  subCap :: nat
  subDone :: bool
  subReason :: Frame

type_synonym addr = nat

definition subClose :: "Frame \<Rightarrow> subscription \<Rightarrow> subscription" where
  "subClose reason s = (if subDone s then s else s\<lparr>subReason := reason, subDone := True\<rparr>)"

definition closeReason :: "subscription \<Rightarrow> Frame" where
  "closeReason s = subReason s"

record controllerLease =
  clAttachmentID :: string
  clLeaseID :: string
  clExpiresAt :: time

record hub =
  hAgentID :: string
  hGeneration :: string
  hReplay :: replayBuffer
  hSubscribers :: "string \<rightharpoonup> addr"
  hStore :: "addr \<rightharpoonup> subscription"
  hNext :: addr
  hController :: "controllerLease option"
  hControllerTTL :: duration
  hSubscriberBuffer :: nat
  hState :: string
  hExit :: "Frame option"
  hProcess :: "agentProcess option"
  hClosed :: bool

definition newHub :: "string \<Rightarrow> string \<Rightarrow> int \<Rightarrow> int \<Rightarrow> nat \<Rightarrow> duration \<Rightarrow> hub" where
  "newHub agentID generation replayBytes replayFrames subscriberBuffer ttl =
     \<lparr> hAgentID = agentID, hGeneration = generation,
       hReplay = newReplayBuffer replayBytes replayFrames,
       hSubscribers = Map.empty, hStore = Map.empty, hNext = 0, hController = None,
       hControllerTTL = ttl, hSubscriberBuffer = subscriberBuffer, hState = ''starting'',
       hExit = None, hProcess = None, hClosed = False \<rparr>"

definition setProcess :: "agentProcess \<Rightarrow> hub \<Rightarrow> hub" where
  "setProcess p h =
     h\<lparr>hProcess := Some p, hState := (if hState h = ''starting'' then ''running'' else hState h)\<rparr>"

section \<open>Sending\<close>

text \<open>
  \<open>sendLocked\<close>: a full queue removes the attachment, frees its lease and closes it with
  \<open>slow_consumer\<close>; \<open>rid\<close> is the fresh request identifier of that error.
\<close>

definition slowConsumer :: "string \<Rightarrow> Frame" where
  "slowConsumer rid = protocolError ''slow_consumer'' ''terminal output backlog exceeded'' rid True"

definition sendLocked :: "string \<Rightarrow> addr \<Rightarrow> Frame \<Rightarrow> hub \<Rightarrow> hub" where
  "sendLocked rid a frame h =
     (case hStore h a of
        None \<Rightarrow> h
      | Some s \<Rightarrow>
         (case try_send (subCap s) frame (subQueue s) of
            Some q \<Rightarrow> h\<lparr>hStore := (hStore h)(a \<mapsto> s\<lparr>subQueue := q\<rparr>)\<rparr>
          | None \<Rightarrow>
              h\<lparr>hSubscribers := (hSubscribers h)(subID s := None),
                hController := (case hController h of
                    Some c \<Rightarrow> if clAttachmentID c = subID s then None else Some c
                  | None \<Rightarrow> None),
                hStore := (hStore h)(a \<mapsto> subClose (slowConsumer rid) s)\<rparr>))"

definition broadcastLocked :: "(string \<Rightarrow> string) \<Rightarrow> string list \<Rightarrow> Frame \<Rightarrow> hub \<Rightarrow> hub" where
  "broadcastLocked rid ord frame h =
     fold (\<lambda>i h. case hSubscribers h i of None \<Rightarrow> h | Some a \<Rightarrow> sendLocked (rid i) a frame h) ord h"

definition hubSend :: "string \<Rightarrow> addr \<Rightarrow> Frame \<Rightarrow> hub \<Rightarrow> hub" where
  "hubSend rid a frame h =
     (case hStore h a of
        None \<Rightarrow> h
      | Some s \<Rightarrow> if hSubscribers h (subID s) = Some a then sendLocked rid a frame h else h)"

section \<open>The controller lease\<close>

definition revokedFrame :: "string \<Rightarrow> Frame" where
  "revokedFrame reason = zeroFrame\<lparr>frType := ''controller_revoked'', frReason := reason\<rparr>"

definition revokeControllerLocked :: "string \<Rightarrow> string \<Rightarrow> hub \<Rightarrow> hub" where
  "revokeControllerLocked rid reason h =
     (case hController h of
        None \<Rightarrow> h
      | Some c \<Rightarrow>
         (case hSubscribers h (clAttachmentID c) of
            None \<Rightarrow> h
          | Some a \<Rightarrow>
             (case hStore h a of
                None \<Rightarrow> h
              | Some s \<Rightarrow> sendLocked rid a (revokedFrame reason)
                  (h\<lparr>hStore := (hStore h)(a \<mapsto> s\<lparr>subRole := ''observe'', subLease := []\<rparr>)\<rparr>)))
         \<lparr>hController := None\<rparr>)"

definition expireControllerLocked :: "string \<Rightarrow> time \<Rightarrow> hub \<Rightarrow> hub" where
  "expireControllerLocked rid now h =
     (case hController h of
        None \<Rightarrow> h
      | Some c \<Rightarrow> if \<not> now < clExpiresAt c then revokeControllerLocked rid ''lease_expired'' h else h)"

definition grantControllerLocked :: "string \<Rightarrow> time \<Rightarrow> addr \<Rightarrow> hub \<Rightarrow> hub" where
  "grantControllerLocked lease now a h =
     (case hStore h a of
        None \<Rightarrow> h
      | Some s \<Rightarrow>
          h\<lparr>hStore := (hStore h)(a \<mapsto> s\<lparr>subRole := ''control'', subLease := lease\<rparr>),
            hController := Some \<lparr>clAttachmentID = subID s, clLeaseID = lease,
              clExpiresAt = now + hControllerTTL h\<rparr>\<rparr>)"

text \<open>Extending the lease of an attachment (\<open>touch\<close>, and the tail of other operations).\<close>

definition extendLease :: "time \<Rightarrow> (controllerLease \<Rightarrow> bool) \<Rightarrow> hub \<Rightarrow> hub" where
  "extendLease now holds h =
     (case hController h of
        None \<Rightarrow> h
      | Some c \<Rightarrow>
          if holds c then h\<lparr>hController := Some (c\<lparr>clExpiresAt := now + hControllerTTL h\<rparr>)\<rparr> else h)"

section \<open>Publishing\<close>

definition publishOutput :: "(string \<Rightarrow> string) \<Rightarrow> string list \<Rightarrow> byte list \<Rightarrow> hub \<Rightarrow> hub" where
  "publishOutput rid ord data h =
     (let (frame, b) = appendOutput data (hReplay h)
      in broadcastLocked rid ord frame (h\<lparr>hReplay := b\<rparr>))"

definition exitFrame :: "(time \<Rightarrow> string) \<Rightarrow> string \<Rightarrow> processExit \<Rightarrow> Frame" where
  "exitFrame fmt generation e =
     zeroFrame\<lparr>frType := ''exit'', frRunnerGeneration := generation, frExitCode := ExitCode e,
       frSignal := Signal e, frFinishedAt := fmt (FinishedAt e)\<rparr>"

definition publishExit ::
  "(time \<Rightarrow> string) \<Rightarrow> string \<Rightarrow> (string \<Rightarrow> string) \<Rightarrow> string list \<Rightarrow> processExit \<Rightarrow> hub \<Rightarrow> hub" where
  "publishExit fmt rid0 rid ord e h =
     (if hExit h \<noteq> None then h
      else let frame = exitFrame fmt (hGeneration h) e;
               h1 = h\<lparr>hState := ''exited'', hExit := Some frame\<rparr>;
               h2 = revokeControllerLocked rid0 ''agent_stopped'' h1
           in broadcastLocked rid ord frame h2)"

section \<open>Attaching and detaching\<close>

text \<open>The environment's part of an attach: two clock readings, the new identifiers, the
  request identifier of a slow consumer, and the outcome of resizing the PTY.\<close>

record attachEnv =
  aeNow :: time
  aeNow2 :: time
  aeID :: string
  aeLease :: string
  aeRid :: string
  aeSetsize :: "TerminalSize \<Rightarrow> goerror option"

definition attachedFrame :: "hub \<Rightarrow> subscription \<Rightarrow> Frame" where
  "attachedFrame h s =
     zeroFrame\<lparr>frType := ''attached'', frAttachmentID := subID s, frAgentID := hAgentID h,
       frRole := subRole s, frLeaseID := subLease s, frRunnerGeneration := hGeneration h,
       frEarliestSequence := Some (fst (bounds (hReplay h))),
       frLatestSequence := Some (snd (bounds (hReplay h))),
       frProcessState := hState h\<rparr>"

definition replayGapFrame :: "hub \<Rightarrow> uint64 \<Rightarrow> Frame" where
  "replayGapFrame h requested =
     zeroFrame\<lparr>frType := ''replay_gap'', frRequestedAfterSequence := Some requested,
       frEarliestSequence := Some (fst (bounds (hReplay h))),
       frLatestSequence := Some (snd (bounds (hReplay h)))\<rparr>"

text \<open>The replay part of the initial frames, for an optional cursor.\<close>

definition replayFrames :: "hub \<Rightarrow> uint64 option \<Rightarrow> Frame list" where
  "replayFrames h cursor =
     (case cursor of
        None \<Rightarrow> []
      | Some c \<Rightarrow>
         (let (fs, gap, _) = after c (hReplay h)
          in (if gap then [replayGapFrame h c] else []) @ fs))"

definition initialFrames :: "hub \<Rightarrow> subscription \<Rightarrow> uint64 option \<Rightarrow> Frame list" where
  "initialFrames h s cursor =
     [attachedFrame h s] @ replayFrames h cursor @ (case hExit h of None \<Rightarrow> [] | Some f \<Rightarrow> [f])"

text \<open>The PTY is resized before the attachment is created; a nil process would panic.\<close>

definition attachResize :: "attachEnv \<Rightarrow> attachRequest \<Rightarrow> hub \<Rightarrow> unit outcome \<times> hub" where
  "attachResize env req h =
     (if arRole req = ''control'' \<and> hState h = ''running'' then
        (case hProcess h of
           None \<Rightarrow> (Panic, h)
         | Some p \<Rightarrow>
            (case procResize (aeSetsize env) (arTerminalSize req) p of
               (Some e, _) \<Rightarrow> (Fail (''invalid_resize: '' @ e), h)
             | (None, p') \<Rightarrow> (Ok (), h\<lparr>hProcess := Some p'\<rparr>)))
      else (Ok (), h))"

definition newSubscription :: "attachEnv \<Rightarrow> attachRequest \<Rightarrow> hub \<Rightarrow> subscription" where
  "newSubscription env req h =
     \<lparr> subID = aeID env, subRole = arRole req, subLease = [], subPerms = arPermissions req,
       subInitial = [], subQueue = [], subCap = hSubscriberBuffer h, subDone = False,
       subReason = zeroFrame \<rparr>"

text \<open>Allocation, lease, initial frames and registration.\<close>

definition attachCommit :: "attachEnv \<Rightarrow> attachRequest \<Rightarrow> hub \<Rightarrow> addr \<times> hub" where
  "attachCommit env req h =
     (let a = hNext h;
          h1 = h\<lparr>hStore := (hStore h)(a \<mapsto> newSubscription env req h), hNext := Suc a\<rparr>;
          h2 = (if arRole req = ''control'' then
                  grantControllerLocked (aeLease env) (aeNow2 env) a
                    (if arTakeover req then revokeControllerLocked (aeRid env) ''takeover'' h1 else h1)
                else h1)
      in (case hStore h2 a of
            None \<Rightarrow> (a, h2)
          | Some s \<Rightarrow>
              (a, h2\<lparr>hStore := (hStore h2)(a \<mapsto> s\<lparr>subInitial := initialFrames h2 s (arAfterSequence req)\<rparr>),
                     hSubscribers := (hSubscribers h2)(subID s \<mapsto> a)\<rparr>)))"

definition cursorValid :: "hub \<Rightarrow> uint64 option \<Rightarrow> bool" where
  "cursorValid h cursor = (case cursor of None \<Rightarrow> True | Some c \<Rightarrow> snd (snd (after c (hReplay h))))"

definition attachLocked :: "attachEnv \<Rightarrow> attachRequest \<Rightarrow> hub \<Rightarrow> addr outcome \<times> hub" where
  "attachLocked env req h =
     (if \<not> cursorValid h (arAfterSequence req)
      then (Fail ''replay_cursor_invalid: cursor is ahead of the runner'', h)
      else if arRole req = ''control'' \<and> hController h \<noteq> None \<and> \<not> arTakeover req
      then (Fail ''controller_busy: another controller holds the lease'', h)
      else case attachResize env req h of
        (Fail e, h') \<Rightarrow> (Fail e, h')
      | (Panic, h') \<Rightarrow> (Panic, h')
      | (Ok _, h') \<Rightarrow> (let (a, h'') = attachCommit env req h' in (Ok a, h'')))"

definition attach :: "attachEnv \<Rightarrow> attachRequest \<Rightarrow> hub \<Rightarrow> addr outcome \<times> hub" where
  "attach env req h =
     (if arRole req \<noteq> ''control'' \<and> arRole req \<noteq> ''observe''
      then (Fail ''forbidden_role: role must be control or observe'', h)
      else case validateSize (arTerminalSize req) of
        Some e \<Rightarrow> (Fail (''invalid_terminal_size: '' @ e), h)
      | None \<Rightarrow>
         if \<not> Observe (arPermissions req)
         then (Fail ''forbidden_role: observe permission is required'', h)
         else if arRole req = ''control'' \<and> \<not> Control (arPermissions req)
         then (Fail ''forbidden_role: control permission is required'', h)
         else attachLocked env req (expireControllerLocked (aeRid env) (aeNow env) h))"

definition detach :: "addr \<Rightarrow> hub \<Rightarrow> hub" where
  "detach a h =
     (case hStore h a of
        None \<Rightarrow> h
      | Some s \<Rightarrow>
          if hSubscribers h (subID s) \<noteq> Some a then h
          else h\<lparr>hSubscribers := (hSubscribers h)(subID s := None),
                 hController := (case hController h of
                     Some c \<Rightarrow> if clAttachmentID c = subID s then None else Some c
                   | None \<Rightarrow> None)\<rparr>)"

definition takeover :: "attachEnv \<Rightarrow> addr \<Rightarrow> hub \<Rightarrow> Frame outcome \<times> hub" where
  "takeover env a h =
     (case hStore h a of
        None \<Rightarrow> (Panic, h)
      | Some s \<Rightarrow>
         if \<not> Control (subPerms s)
         then (Fail ''forbidden_role: control permission is required'', h)
         else if hSubscribers h (subID s) = None
         then (Fail ''attachment_closed: attachment is closed'', h)
         else
           let h1 = expireControllerLocked (aeRid env) (aeNow env) h;
               h2 = (case hController h1 of
                       Some c \<Rightarrow> if clAttachmentID c = subID s then h1
                                 else revokeControllerLocked (aeRid env) ''takeover'' h1
                     | None \<Rightarrow> h1);
               h3 = grantControllerLocked (aeLease env) (aeNow2 env) a h2
           in (case hStore h3 a of
                 None \<Rightarrow> (Panic, h3)
               | Some s' \<Rightarrow> (Ok (attachedFrame h3 (s'\<lparr>subRole := ''control''\<rparr>)), h3)))"

section \<open>Liveness and acknowledgements\<close>

definition touch :: "time \<Rightarrow> addr \<Rightarrow> hub \<Rightarrow> hub" where
  "touch now a h =
     (case hStore h a of
        None \<Rightarrow> h
      | Some s \<Rightarrow> extendLease now (\<lambda>c. clAttachmentID c = subID s) h)"

definition acknowledge :: "time \<Rightarrow> addr \<Rightarrow> uint64 \<Rightarrow> hub \<Rightarrow> goerror option \<times> hub" where
  "acknowledge now a sq h =
     (case hStore h a of
        None \<Rightarrow> (None, h)
      | Some s \<Rightarrow>
         if hSubscribers h (subID s) = None
         then (Some ''attachment_closed: attachment is closed'', h)
         else if sq > latest (hReplay h)
         then (Some ''replay_cursor_invalid: acknowledgement is ahead of the runner'', h)
         else (None, extendLease now (\<lambda>c. clAttachmentID c = subID s) h))"

section \<open>Input and resizing\<close>

definition authorizeControllerLocked ::
  "string \<Rightarrow> time \<Rightarrow> addr \<Rightarrow> string \<Rightarrow> hub \<Rightarrow> goerror option \<times> hub" where
  "authorizeControllerLocked rid now a lease h =
     (let h' = expireControllerLocked rid now h in
      case (hController h', hStore h' a) of
        (Some c, Some s) \<Rightarrow>
          if clAttachmentID c \<noteq> subID s \<or> clLeaseID c \<noteq> lease
          then (Some ''invalid_controller_lease: current controller lease is required'', h')
          else (None, h')
      | _ \<Rightarrow> (Some ''invalid_controller_lease: current controller lease is required'', h'))"

definition maxInput :: nat where
  "maxInput = 1024 * 1024"

definition writeInputBegin ::
  "string \<Rightarrow> time \<Rightarrow> addr \<Rightarrow> string \<Rightarrow> byte list \<Rightarrow> hub \<Rightarrow> goerror option \<times> hub" where
  "writeInputBegin rid now a lease data h =
     (if length data > maxInput then (Some ''invalid_input: input exceeds 1 MiB'', h)
      else authorizeControllerLocked rid now a lease h)"

definition writeInputWrite ::
  "(byte list \<Rightarrow> nat \<times> goerror option) \<Rightarrow> byte list \<Rightarrow> hub \<Rightarrow> unit outcome \<times> hub" where
  "writeInputWrite wr data h =
     (case hProcess h of
        None \<Rightarrow> (Panic, h)
      | Some p \<Rightarrow>
         (case procWrite wr data p of
            (Some e, p') \<Rightarrow> (Fail (''agent_not_running: '' @ e), h\<lparr>hProcess := Some p'\<rparr>)
          | (None, p') \<Rightarrow> (Ok (), h\<lparr>hProcess := Some p'\<rparr>)))"

definition controlEnd :: "time \<Rightarrow> addr \<Rightarrow> string \<Rightarrow> hub \<Rightarrow> hub" where
  "controlEnd now a lease h =
     (case hStore h a of
        None \<Rightarrow> h
      | Some s \<Rightarrow> extendLease now (\<lambda>c. clAttachmentID c = subID s \<and> clLeaseID c = lease) h)"

definition resizeCall ::
  "(TerminalSize \<Rightarrow> goerror option) \<Rightarrow> TerminalSize \<Rightarrow> hub \<Rightarrow> unit outcome \<times> hub" where
  "resizeCall setsize sz h =
     (case hProcess h of
        None \<Rightarrow> (Panic, h)
      | Some p \<Rightarrow>
         (case procResize setsize sz p of
            (Some e, p') \<Rightarrow> (Fail (''invalid_resize: '' @ e), h\<lparr>hProcess := Some p'\<rparr>)
          | (None, p') \<Rightarrow> (Ok (), h\<lparr>hProcess := Some p'\<rparr>)))"

text \<open>The three parts in sequence, when nothing runs between them.\<close>

definition writeInput ::
  "string \<Rightarrow> time \<Rightarrow> time \<Rightarrow> (byte list \<Rightarrow> nat \<times> goerror option) \<Rightarrow> addr \<Rightarrow> string \<Rightarrow> byte list
     \<Rightarrow> hub \<Rightarrow> unit outcome \<times> hub" where
  "writeInput rid now now2 wr a lease data h =
     (case writeInputBegin rid now a lease data h of
        (Some e, h1) \<Rightarrow> (Fail e, h1)
      | (None, h1) \<Rightarrow>
         (case writeInputWrite wr data h1 of
            (Ok _, h2) \<Rightarrow> (Ok (), controlEnd now2 a lease h2)
          | r \<Rightarrow> r))"

definition resize ::
  "string \<Rightarrow> time \<Rightarrow> time \<Rightarrow> (TerminalSize \<Rightarrow> goerror option) \<Rightarrow> addr \<Rightarrow> string \<Rightarrow> TerminalSize
     \<Rightarrow> hub \<Rightarrow> unit outcome \<times> hub" where
  "resize rid now now2 setsize a lease sz h =
     (case authorizeControllerLocked rid now a lease h of
        (Some e, h1) \<Rightarrow> (Fail e, h1)
      | (None, h1) \<Rightarrow>
         (case resizeCall setsize sz h1 of
            (Ok _, h2) \<Rightarrow> (Ok (), controlEnd now2 a lease h2)
          | r \<Rightarrow> r))"

section \<open>The lease reaper and metadata\<close>

definition second :: duration where "second = 1000000000"
definition millisecond :: duration where "millisecond = 1000000"

text \<open>The reaper's tick interval; Go's integer division truncates towards zero.\<close>

definition reaperInterval :: "duration \<Rightarrow> duration" where
  "reaperInterval ttl =
     (let i0 = sgn ttl * (\<bar>ttl\<bar> div 4);
          i1 = (if i0 > second then second else i0)
      in if i1 < 10 * millisecond then 10 * millisecond else i1)"

definition reaperTick :: "string \<Rightarrow> time \<Rightarrow> hub \<Rightarrow> hub" where
  "reaperTick rid now h = (if hClosed h then h else expireControllerLocked rid now h)"

definition hubClose :: "hub \<Rightarrow> hub outcome" where
  "hubClose h = (if hClosed h then Panic else Ok (h\<lparr>hClosed := True\<rparr>))"

record Metadata =
  mdAgentID :: string
  mdRunnerGeneration :: string
  mdState :: string
  mdPID :: int
  mdStartedAt :: time
  mdEarliestSequence :: uint64
  mdLatestSequence :: uint64
  mdExitCode :: "int option"
  mdSignal :: string
  mdFinishedAt :: "time option"

definition metadata :: "hub \<Rightarrow> Metadata" where
  "metadata h =
     (let (earliest, lat) = bounds (hReplay h);
          (pid, started, ex) = (case hProcess h of None \<Rightarrow> (0, 0, None) | Some p \<Rightarrow> snapshot p)
      in \<lparr> mdAgentID = hAgentID h, mdRunnerGeneration = hGeneration h, mdState = hState h,
           mdPID = pid, mdStartedAt = started, mdEarliestSequence = earliest,
           mdLatestSequence = lat,
           mdExitCode = (case ex of None \<Rightarrow> None | Some e \<Rightarrow> ExitCode e),
           mdSignal = (case ex of None \<Rightarrow> [] | Some e \<Rightarrow> Signal e),
           mdFinishedAt = (case ex of None \<Rightarrow> None | Some e \<Rightarrow> Some (FinishedAt e)) \<rparr>)"

end
