(* ===== verification/Hub_Inv.thy ===== *)
theory Hub_Inv
  imports Hub
begin

text \<open>
  The hub's invariant: registered attachments exist and are the only objects with their
  identifier; queues are bounded; the attachment whose role is \<open>control\<close> is the one the
  lease names, carries that lease and has the control permission; every other registered
  attachment is an observer without a lease. Every operation preserves it.
\<close>

section \<open>The invariant\<close>

definition hub_reg :: "hub \<Rightarrow> bool" where
  "hub_reg h \<longleftrightarrow>
     (\<forall>i a. hSubscribers h i = Some a \<longrightarrow> (\<exists>s. hStore h a = Some s \<and> subID s = i)) \<and>
     (\<forall>a. hNext h \<le> a \<longrightarrow> hStore h a = None) \<and>
     (\<forall>a b s t. hStore h a = Some s \<longrightarrow> hStore h b = Some t \<longrightarrow> subID s = subID t \<longrightarrow> a = b)"

text \<open>Output and exit frames make up the agent's stream; everything else is a notice.\<close>

definition streamFrame :: "Frame \<Rightarrow> bool" where
  "streamFrame f \<longleftrightarrow> frType f = ''output'' \<or> frType f = ''exit''"

definition sub_ok :: "subscription \<Rightarrow> bool" where
  "sub_ok s \<longleftrightarrow> length (subQueue s) \<le> subCap s \<and> Observe (subPerms s) \<and>
     (subRole s = ''control'' \<longrightarrow> Control (subPerms s)) \<and> \<not> streamFrame (subReason s)"

definition hub_sub :: "hub \<Rightarrow> bool" where
  "hub_sub h \<longleftrightarrow> (\<forall>a s. hStore h a = Some s \<longrightarrow> sub_ok s \<and> subCap s = hSubscriberBuffer h)"

definition registered :: "hub \<Rightarrow> addr \<Rightarrow> subscription \<Rightarrow> bool" where
  "registered h a s \<longleftrightarrow> hStore h a = Some s \<and> hSubscribers h (subID s) = Some a"

text \<open>What a registered attachment's role and lease must be, given the hub's lease.\<close>

definition lease_ok :: "controllerLease option \<Rightarrow> subscription \<Rightarrow> bool" where
  "lease_ok c s \<longleftrightarrow>
     (if subRole s = ''control'' then (\<exists>x. c = Some x \<and> clAttachmentID x = subID s)
      else subRole s = ''observe'' \<and> subLease s = [])"

definition holds_lease :: "controllerLease \<Rightarrow> subscription \<Rightarrow> bool" where
  "holds_lease c s \<longleftrightarrow> subID s = clAttachmentID c \<and> subRole s = ''control'' \<and> subLease s = clLeaseID c"

definition hub_lease :: "hub \<Rightarrow> bool" where
  "hub_lease h \<longleftrightarrow>
     (\<forall>a s. registered h a s \<longrightarrow> lease_ok (hController h) s) \<and>
     (\<forall>c. hController h = Some c \<longrightarrow> (\<exists>a s. hStore h a = Some s \<and> holds_lease c s))"

lemma lease_ok_cong:
  "subID s' = subID s \<Longrightarrow> subRole s' = subRole s \<Longrightarrow> subLease s' = subLease s \<Longrightarrow>
     lease_ok c s' = lease_ok c s"
  by (simp add: lease_ok_def)

lemma holds_lease_cong:
  "subID s' = subID s \<Longrightarrow> subRole s' = subRole s \<Longrightarrow> subLease s' = subLease s \<Longrightarrow>
     holds_lease c s' = holds_lease c s"
  by (simp add: holds_lease_def)

lemma lease_ok_drop: "lease_ok (Some c) s \<Longrightarrow> clAttachmentID c \<noteq> subID s \<Longrightarrow> lease_ok None s"
  by (auto simp: lease_ok_def split: if_splits)

lemma lease_ok_same: "clAttachmentID c' = clAttachmentID c \<Longrightarrow> lease_ok (Some c') s = lease_ok (Some c) s"
  by (simp add: lease_ok_def)

lemma holds_lease_same:
  "clAttachmentID c' = clAttachmentID c \<Longrightarrow> clLeaseID c' = clLeaseID c \<Longrightarrow>
     holds_lease c' s = holds_lease c s"
  by (simp add: holds_lease_def)

definition hub_inv :: "hub \<Rightarrow> bool" where
  "hub_inv h \<longleftrightarrow> hub_reg h \<and> hub_sub h \<and> hub_lease h"

lemmas hub_inv_defs = hub_inv_def hub_reg_def hub_sub_def hub_lease_def registered_def lease_ok_def
  holds_lease_def

lemma hub_inv_newHub: "hub_inv (newHub ag g rb rf n ttl)"
  by (simp add: hub_inv_defs newHub_def)

text \<open>The invariant reads five fields only.\<close>

lemma hub_inv_cong:
  assumes "hSubscribers h' = hSubscribers h" "hStore h' = hStore h" "hNext h' = hNext h"
    "hController h' = hController h" "hSubscriberBuffer h' = hSubscriberBuffer h"
  shows "hub_inv h' = hub_inv h"
  using assms by (simp add: hub_inv_defs)

lemma hub_inv_updates [simp]:
  "hub_inv (h\<lparr>hReplay := b\<rparr>) = hub_inv h"
  "hub_inv (h\<lparr>hProcess := p\<rparr>) = hub_inv h"
  "hub_inv (h\<lparr>hState := st\<rparr>) = hub_inv h"
  "hub_inv (h\<lparr>hExit := e\<rparr>) = hub_inv h"
  "hub_inv (h\<lparr>hClosed := cl\<rparr>) = hub_inv h"
  by (rule hub_inv_cong; simp)+

lemma setProcess_inv [wf_intros]: "hub_inv h \<Longrightarrow> hub_inv (setProcess p h)"
  by (simp add: setProcess_def)

lemma hub_reg_controller [simp]: "hub_reg (h\<lparr>hController := c\<rparr>) = hub_reg h"
  unfolding hub_reg_def by simp

lemma hub_sub_controller [simp]: "hub_sub (h\<lparr>hController := c\<rparr>) = hub_sub h"
  unfolding hub_sub_def by simp

lemma registered_controller [simp]: "registered (h\<lparr>hController := c\<rparr>) a s = registered h a s"
  by (simp add: registered_def)

section \<open>Replacing one stored object\<close>

lemma hub_reg_store:
  assumes "hub_reg h" "hStore h a = Some s" "subID s' = subID s"
  shows "hub_reg (h\<lparr>hStore := (hStore h)(a \<mapsto> s')\<rparr>)"
  using assms unfolding hub_reg_def by (fastforce split: if_splits)

lemma hub_sub_store:
  assumes "hub_sub h" "sub_ok s'" "subCap s' = hSubscriberBuffer h"
  shows "hub_sub (h\<lparr>hStore := (hStore h)(a \<mapsto> s')\<rparr>)"
  using assms unfolding hub_sub_def by auto

lemma registered_store:
  assumes "hStore h a = Some s" "subID s' = subID s"
  shows "registered (h\<lparr>hStore := (hStore h)(a \<mapsto> s')\<rparr>) b t \<longleftrightarrow>
    (if b = a then t = s' \<and> registered h a s else registered h b t)"
  using assms by (auto simp: registered_def)

lemma hub_lease_store:
  assumes L: "hub_lease h" and s: "hStore h a = Some s"
    and same: "subID s' = subID s" "subRole s' = subRole s" "subLease s' = subLease s"
  shows "hub_lease (h\<lparr>hStore := (hStore h)(a \<mapsto> s')\<rparr>)"
  unfolding hub_lease_def registered_store [OF s same(1)]
proof (intro conjI allI impI)
  fix b t assume "if b = a then t = s' \<and> registered h a s else registered h b t"
  then show "lease_ok (hController (h\<lparr>hStore := (hStore h)(a \<mapsto> s')\<rparr>)) t"
    using L lease_ok_cong [OF same] by (auto simp: hub_lease_def split: if_splits)
next
  fix c assume "hController (h\<lparr>hStore := (hStore h)(a \<mapsto> s')\<rparr>) = Some c"
  then obtain b t where bt: "hStore h b = Some t" "holds_lease c t"
    using L unfolding hub_lease_def by auto
  show "\<exists>b t. hStore (h\<lparr>hStore := (hStore h)(a \<mapsto> s')\<rparr>) b = Some t \<and> holds_lease c t"
  proof (cases "b = a")
    case True
    with bt s holds_lease_cong [OF same] show ?thesis by (intro exI [of _ a] exI [of _ s']) simp
  next
    case False
    with bt show ?thesis by (intro exI [of _ b] exI [of _ t]) simp
  qed
qed

lemma hub_inv_store:
  assumes "hub_inv h" "hStore h a = Some s" "subID s' = subID s" "subRole s' = subRole s"
    "subLease s' = subLease s" "sub_ok s'" "subCap s' = subCap s"
  shows "hub_inv (h\<lparr>hStore := (hStore h)(a \<mapsto> s')\<rparr>)"
  using assms hub_reg_store hub_sub_store hub_lease_store
  unfolding hub_inv_def hub_sub_def by (metis (no_types, lifting))

lemma hub_reg_get:
  "hub_inv h \<Longrightarrow> hSubscribers h i = Some a \<Longrightarrow> \<exists>s. hStore h a = Some s \<and> subID s = i"
  by (simp add: hub_inv_def hub_reg_def)

lemma hub_sub_get: "hub_inv h \<Longrightarrow> hStore h a = Some s \<Longrightarrow> sub_ok s"
  by (auto simp: hub_inv_def hub_sub_def)

section \<open>Unregistering\<close>

definition unregister :: "string \<Rightarrow> hub \<Rightarrow> hub" where
  "unregister i h =
     h\<lparr>hSubscribers := (hSubscribers h)(i := None),
       hController := (case hController h of
           Some c \<Rightarrow> if clAttachmentID c = i then None else Some c
         | None \<Rightarrow> None)\<rparr>"

lemma unregister_inv: "hub_inv h \<Longrightarrow> hub_inv (unregister i h)"
  unfolding hub_inv_def
proof (intro conjI; elim conjE)
  assume "hub_reg h" then show "hub_reg (unregister i h)"
    by (auto simp: hub_reg_def unregister_def)
next
  assume "hub_sub h" then show "hub_sub (unregister i h)"
    by (auto simp: hub_sub_def unregister_def)
next
  assume L: "hub_lease h"
  show "hub_lease (unregister i h)"
  proof (cases "hController h")
    case None
    with L show ?thesis by (auto simp: hub_lease_def registered_def unregister_def split: if_splits)
  next
    case (Some c)
    with L have R: "\<And>a s. registered h a s \<Longrightarrow> lease_ok (Some c) s"
      and H: "\<exists>a s. hStore h a = Some s \<and> holds_lease c s"
      by (auto simp: hub_lease_def)
    have reg: "registered h a s \<and> subID s \<noteq> i" if "registered (unregister i h) a s" for a s
      using that by (auto simp: registered_def unregister_def split: if_splits)
    show ?thesis
    proof (cases "clAttachmentID c = i")
      case True
      then have "hController (unregister i h) = None" using Some by (simp add: unregister_def)
      then show ?thesis using reg R True lease_ok_drop unfolding hub_lease_def by fastforce
    next
      case False
      then have "hController (unregister i h) = Some c" "hStore (unregister i h) = hStore h"
        using Some by (simp_all add: unregister_def)
      then show ?thesis using reg R H unfolding hub_lease_def by auto
    qed
  qed
qed


section \<open>Sending preserves the invariant\<close>

lemma subClose_fields [simp]:
  "subID (subClose f s) = subID s" "subRole (subClose f s) = subRole s"
  "subLease (subClose f s) = subLease s" "subQueue (subClose f s) = subQueue s"
  "subCap (subClose f s) = subCap s" "subPerms (subClose f s) = subPerms s"
  "subInitial (subClose f s) = subInitial s" "subDone (subClose f s)"
  by (simp_all add: subClose_def)

lemma sub_ok_close: "sub_ok s \<Longrightarrow> \<not> streamFrame f \<Longrightarrow> sub_ok (subClose f s)"
  by (simp add: sub_ok_def subClose_def)

lemma slowConsumer_notice [simp]: "\<not> streamFrame (slowConsumer rid)"
  by (simp add: slowConsumer_def streamFrame_def)

text \<open>The two outcomes of a send: the frame is queued, or the attachment is dropped.\<close>

lemma sendLocked_queued:
  "hStore h a = Some s \<Longrightarrow> length (subQueue s) < subCap s \<Longrightarrow>
     sendLocked rid a f h = h\<lparr>hStore := (hStore h)(a \<mapsto> s\<lparr>subQueue := subQueue s @ [f]\<rparr>)\<rparr>"
  by (simp add: sendLocked_def try_send_def)

lemma sendLocked_dropped:
  "hStore h a = Some s \<Longrightarrow> \<not> length (subQueue s) < subCap s \<Longrightarrow>
     sendLocked rid a f h =
       unregister (subID s) (h\<lparr>hStore := (hStore h)(a \<mapsto> subClose (slowConsumer rid) s)\<rparr>)"
  by (simp add: sendLocked_def try_send_def unregister_def)

lemma sendLocked_None: "hStore h a = None \<Longrightarrow> sendLocked rid a f h = h"
  by (simp add: sendLocked_def)

lemma sendLocked_inv [wf_intros]:
  assumes I: "hub_inv h"
  shows "hub_inv (sendLocked rid a f h)"
proof (cases "hStore h a")
  case None
  with I show ?thesis by (simp add: sendLocked_None)
next
  case (Some s)
  have ok: "sub_ok s" using I Some by (rule hub_sub_get)
  show ?thesis
  proof (cases "length (subQueue s) < subCap s")
    case True
    with ok I Some show ?thesis
      by (simp add: sendLocked_queued hub_inv_store sub_ok_def)
  next
    case False
    have "hub_inv (h\<lparr>hStore := (hStore h)(a \<mapsto> subClose (slowConsumer rid) s)\<rparr>)"
      by (rule hub_inv_store [OF I Some]) (simp_all add: ok sub_ok_close)
    with False Some show ?thesis by (simp add: sendLocked_dropped unregister_inv)
  qed
qed

lemma broadcastLocked_inv [wf_intros]: "hub_inv h \<Longrightarrow> hub_inv (broadcastLocked rid ord f h)"
  unfolding broadcastLocked_def
  by (induction ord arbitrary: h) (auto split: option.splits intro: sendLocked_inv)

lemma hubSend_inv [wf_intros]: "hub_inv h \<Longrightarrow> hub_inv (hubSend rid a f h)"
  by (auto simp: hubSend_def split: option.splits intro: sendLocked_inv)

section \<open>The lease operations preserve the invariant\<close>

text \<open>Taking the lease from its holder: the object becomes an observer, the lease is gone.\<close>

definition demote :: "subscription \<Rightarrow> subscription" where
  "demote s = s\<lparr>subRole := ''observe'', subLease := []\<rparr>"

lemma demote_fields [simp]:
  "subID (demote s) = subID s" "subRole (demote s) = ''observe''" "subLease (demote s) = []"
  "subQueue (demote s) = subQueue s" "subCap (demote s) = subCap s" "subPerms (demote s) = subPerms s"
  "subInitial (demote s) = subInitial s" "subDone (demote s) = subDone s"
  "subReason (demote s) = subReason s"
  by (simp_all add: demote_def)

lemma sub_ok_demote: "sub_ok s \<Longrightarrow> sub_ok (demote s)"
  by (simp add: sub_ok_def)

lemma demote_inv:
  assumes I: "hub_inv h" and c: "hController h = Some c" and r: "hSubscribers h (clAttachmentID c) = Some a"
    and s: "hStore h a = Some s"
  shows "hub_inv (h\<lparr>hStore := (hStore h)(a \<mapsto> demote s), hController := None\<rparr>)"
proof -
  let ?h' = "h\<lparr>hStore := (hStore h)(a \<mapsto> demote s), hController := None\<rparr>"
  have ok: "sub_ok (demote s)" "subCap s = hSubscriberBuffer h"
    using I s sub_ok_demote by (auto simp: hub_inv_def hub_sub_def)
  have "hub_reg (h\<lparr>hStore := (hStore h)(a \<mapsto> demote s)\<rparr>)"
    using I by (intro hub_reg_store [OF _ s]) (simp_all add: hub_inv_def)
  moreover have "hub_sub (h\<lparr>hStore := (hStore h)(a \<mapsto> demote s)\<rparr>)"
    using I ok by (intro hub_sub_store) (simp_all add: hub_inv_def)
  ultimately have "hub_reg ?h'" "hub_sub ?h'" by simp_all
  moreover have "hub_lease ?h'"
  proof -
    have "lease_ok None t" if t: "registered ?h' b t" for b t
    proof (cases "b = a")
      case True
      with t show ?thesis by (auto simp: registered_def lease_ok_def)
    next
      case False
      with t have R: "registered h b t" by (simp add: registered_def)
      then have "lease_ok (Some c) t" using I c by (auto simp: hub_inv_def hub_lease_def)
      moreover have "clAttachmentID c \<noteq> subID t" using R r False by (auto simp: registered_def)
      ultimately show ?thesis by (auto simp: lease_ok_def split: if_splits)
    qed
    then show ?thesis by (simp add: hub_lease_def)
  qed
  ultimately show ?thesis by (simp add: hub_inv_def)
qed

lemma drop_lease_inv:
  assumes I: "hub_inv h" and c: "hController h = Some c" and r: "hSubscribers h (clAttachmentID c) = None"
  shows "hub_inv (h\<lparr>hController := None\<rparr>)"
proof -
  have "unregister (clAttachmentID c) h = h\<lparr>hController := None\<rparr>"
    using c r by (simp add: unregister_def fun_upd_idem)
  with unregister_inv [OF I, of "clAttachmentID c"] show ?thesis by simp
qed

lemma sendLocked_controller_commute:
  "hController h = None \<Longrightarrow>
     (sendLocked rid a f (h\<lparr>hController := c\<rparr>))\<lparr>hController := None\<rparr> = sendLocked rid a f h"
  by (auto simp: sendLocked_def split: option.splits)

lemma revokeControllerLocked_eq:
  assumes "hController h = Some c" "hSubscribers h (clAttachmentID c) = Some a" "hStore h a = Some s"
  shows "revokeControllerLocked rid reason h =
    sendLocked rid a (revokedFrame reason) (h\<lparr>hStore := (hStore h)(a \<mapsto> demote s), hController := None\<rparr>)"
proof -
  let ?h' = "h\<lparr>hStore := (hStore h)(a \<mapsto> demote s), hController := None\<rparr>"
  have "?h'\<lparr>hController := Some c\<rparr> = h\<lparr>hStore := (hStore h)(a \<mapsto> demote s)\<rparr>"
    using assms(1) by (cases h) simp
  from sendLocked_controller_commute [of ?h' rid a "revokedFrame reason" "Some c", unfolded this]
  have "(sendLocked rid a (revokedFrame reason) (h\<lparr>hStore := (hStore h)(a \<mapsto> demote s)\<rparr>))
      \<lparr>hController := None\<rparr> = sendLocked rid a (revokedFrame reason) ?h'" by simp
  then show ?thesis using assms by (simp add: revokeControllerLocked_def demote_def)
qed

lemma revokeControllerLocked_inv [wf_intros]:
  assumes I: "hub_inv h"
  shows "hub_inv (revokeControllerLocked rid reason h)"
proof (cases "hController h")
  case None
  with I show ?thesis by (simp add: revokeControllerLocked_def)
next
  case c: (Some c)
  show ?thesis
  proof (cases "hSubscribers h (clAttachmentID c)")
    case None
    with c drop_lease_inv [OF I c None] show ?thesis by (simp add: revokeControllerLocked_def)
  next
    case r: (Some a)
    obtain s where s: "hStore h a = Some s" using hub_reg_get [OF I r] by blast
    show ?thesis
      unfolding revokeControllerLocked_eq [OF c r s]
      by (intro sendLocked_inv demote_inv [OF I c r s])
  qed
qed

lemma revokeControllerLocked_controller [simp]:
  "hController (revokeControllerLocked rid reason h) = None"
  by (simp add: revokeControllerLocked_def split: option.splits)

lemma expireControllerLocked_inv [wf_intros]:
  "hub_inv h \<Longrightarrow> hub_inv (expireControllerLocked rid now h)"
  by (auto simp: expireControllerLocked_def split: option.splits intro: revokeControllerLocked_inv)

lemma same_lease_inv:
  assumes "hub_inv h" "hController h = Some c" "clAttachmentID c' = clAttachmentID c"
    "clLeaseID c' = clLeaseID c"
  shows "hub_inv (h\<lparr>hController := Some c'\<rparr>)"
proof -
  have "hub_lease (h\<lparr>hController := Some c'\<rparr>)"
    unfolding hub_lease_def registered_controller
  proof (intro conjI allI impI)
    fix a s assume "registered h a s"
    then have "lease_ok (Some c) s" using assms(1,2) by (auto simp: hub_inv_def hub_lease_def)
    then show "lease_ok (hController (h\<lparr>hController := Some c'\<rparr>)) s"
      by (simp add: lease_ok_same [OF assms(3)])
  next
    fix d assume "hController (h\<lparr>hController := Some c'\<rparr>) = Some d"
    moreover obtain a s where "hStore h a = Some s" "holds_lease c s"
      using assms(1,2) unfolding hub_inv_def hub_lease_def by auto
    ultimately show "\<exists>a s. hStore (h\<lparr>hController := Some c'\<rparr>) a = Some s \<and> holds_lease d s"
      using holds_lease_same [OF assms(3,4)] by auto
  qed
  then show ?thesis using assms(1) by (simp add: hub_inv_def)
qed

lemma extendLease_inv [wf_intros]: "hub_inv h \<Longrightarrow> hub_inv (extendLease now holds h)"
  by (auto simp: extendLease_def split: option.splits intro: same_lease_inv)

section \<open>Granting the lease\<close>

definition promote :: "string \<Rightarrow> subscription \<Rightarrow> subscription" where
  "promote lease s = s\<lparr>subRole := ''control'', subLease := lease\<rparr>"

lemma promote_fields [simp]:
  "subID (promote l s) = subID s" "subRole (promote l s) = ''control''" "subLease (promote l s) = l"
  "subQueue (promote l s) = subQueue s" "subCap (promote l s) = subCap s"
  "subPerms (promote l s) = subPerms s" "subInitial (promote l s) = subInitial s"
  "subDone (promote l s) = subDone s" "subReason (promote l s) = subReason s"
  by (simp_all add: promote_def)

lemma sub_ok_promote: "sub_ok s \<Longrightarrow> Control (subPerms s) \<Longrightarrow> sub_ok (promote l s)"
  by (simp add: sub_ok_def)

lemma grantControllerLocked_eq:
  "hStore h a = Some s \<Longrightarrow> grantControllerLocked lease now a h =
     h\<lparr>hStore := (hStore h)(a \<mapsto> promote lease s),
       hController := Some \<lparr>clAttachmentID = subID s, clLeaseID = lease, clExpiresAt = now + hControllerTTL h\<rparr>\<rparr>"
  by (simp add: grantControllerLocked_def promote_def)

lemma grantControllerLocked_inv:
  assumes I: "hub_inv h" and s: "hStore h a = Some s" and perm: "Control (subPerms s)"
    and free: "\<And>c. hController h = Some c \<Longrightarrow> clAttachmentID c = subID s"
  shows "hub_inv (grantControllerLocked lease now a h)"
proof -
  let ?c = "\<lparr>clAttachmentID = subID s, clLeaseID = lease, clExpiresAt = now + hControllerTTL h\<rparr>"
  let ?h1 = "h\<lparr>hStore := (hStore h)(a \<mapsto> promote lease s)\<rparr>"
  have reg: "hub_reg ?h1" using I by (intro hub_reg_store [OF _ s]) (simp_all add: hub_inv_def)
  have sub: "hub_sub ?h1"
    using I s perm sub_ok_promote by (intro hub_sub_store) (auto simp: hub_inv_def hub_sub_def)
  have "lease_ok (Some ?c) t" if t: "registered ?h1 b t" for b t
  proof (cases "b = a")
    case True
    with t show ?thesis by (auto simp: registered_def lease_ok_def)
  next
    case False
    with t have R: "registered h b t" by (simp add: registered_def)
    then have ok: "lease_ok (hController h) t" using I by (auto simp: hub_inv_def hub_lease_def)
    have "subID t \<noteq> subID s" using I R s False unfolding hub_inv_def hub_reg_def registered_def by blast
    with ok free show ?thesis by (cases "hController h") (auto simp: lease_ok_def split: if_splits)
  qed
  then have "hub_lease (?h1\<lparr>hController := Some ?c\<rparr>)"
    unfolding hub_lease_def registered_controller by (auto simp: holds_lease_def)
  with reg sub show ?thesis by (simp add: grantControllerLocked_eq [OF s] hub_inv_def)
qed

section \<open>Allocating and registering an attachment\<close>

definition fresh_id :: "string \<Rightarrow> hub \<Rightarrow> bool" where
  "fresh_id i h \<longleftrightarrow> (\<forall>a s. hStore h a = Some s \<longrightarrow> subID s \<noteq> i)"

lemma hub_next_free: "hub_inv h \<Longrightarrow> hStore h (hNext h) = None"
  by (simp add: hub_inv_def hub_reg_def)

lemma hub_next_unregistered: "hub_inv h \<Longrightarrow> hSubscribers h i \<noteq> Some (hNext h)"
  using hub_next_free hub_reg_get by fastforce

lemma alloc_inv:
  assumes I: "hub_inv h" and f: "fresh_id (subID s) h" and ok: "sub_ok s" "subCap s = hSubscriberBuffer h"
  shows "hub_inv (h\<lparr>hStore := (hStore h)(hNext h \<mapsto> s), hNext := Suc (hNext h)\<rparr>)"
proof -
  let ?h = "h\<lparr>hStore := (hStore h)(hNext h \<mapsto> s), hNext := Suc (hNext h)\<rparr>"
  note nf = hub_next_free [OF I] and nu = hub_next_unregistered [OF I]
  have "hub_reg ?h"
    using I f nf nu unfolding hub_inv_def hub_reg_def fresh_id_def
    by (simp; intro conjI allI impI; metis)
  moreover have "hub_sub ?h" using I ok by (auto simp: hub_inv_def hub_sub_def)
  moreover have "registered h b t" if "registered ?h b t" for b t
    using that nu by (auto simp: registered_def split: if_splits)
  then have "hub_lease ?h"
    using I nf unfolding hub_inv_def hub_lease_def by (auto, metis option.distinct(1))
  ultimately show ?thesis by (simp add: hub_inv_def)
qed

lemma register_inv:
  assumes I: "hub_inv h" and s: "hStore h a = Some s" and ok: "lease_ok (hController h) s"
  shows "hub_inv (h\<lparr>hSubscribers := (hSubscribers h)(subID s \<mapsto> a)\<rparr>)"
proof -
  let ?h = "h\<lparr>hSubscribers := (hSubscribers h)(subID s \<mapsto> a)\<rparr>"
  have "hub_reg ?h" using I s unfolding hub_inv_def hub_reg_def by auto
  moreover have "hub_sub ?h" using I by (simp add: hub_inv_def hub_sub_def)
  moreover have "registered h b t \<or> b = a \<and> t = s" if "registered ?h b t" for b t
    using that s by (auto simp: registered_def split: if_splits)
  then have "hub_lease ?h" using I ok unfolding hub_inv_def hub_lease_def by auto
  ultimately show ?thesis by (simp add: hub_inv_def)
qed

text \<open>Sends and revocations leave objects that are not registered alone.\<close>

lemma sendLocked_other [simp]: "b \<noteq> a \<Longrightarrow> hStore (sendLocked rid a f h) b = hStore h b"
  by (auto simp: sendLocked_def split: option.splits)

lemma revokeControllerLocked_other:
  "(\<And>i. hSubscribers h i \<noteq> Some a) \<Longrightarrow> hStore (revokeControllerLocked rid reason h) a = hStore h a"
  by (auto simp: revokeControllerLocked_def split: option.splits)
   (metis fun_upd_other hub.select_convs(5) hub.surjective hub.update_convs(5) sendLocked_other)

lemma sendLocked_static [frame_simps]:
  "hNext (sendLocked rid a f h) = hNext h" "hReplay (sendLocked rid a f h) = hReplay h"
  "hProcess (sendLocked rid a f h) = hProcess h" "hState (sendLocked rid a f h) = hState h"
  "hExit (sendLocked rid a f h) = hExit h" "hClosed (sendLocked rid a f h) = hClosed h"
  "hSubscriberBuffer (sendLocked rid a f h) = hSubscriberBuffer h"
  "hControllerTTL (sendLocked rid a f h) = hControllerTTL h"
  "hAgentID (sendLocked rid a f h) = hAgentID h" "hGeneration (sendLocked rid a f h) = hGeneration h"
  by (auto simp: sendLocked_def split: option.splits)

lemma revokeControllerLocked_static [frame_simps]:
  "hNext (revokeControllerLocked rid r h) = hNext h" "hReplay (revokeControllerLocked rid r h) = hReplay h"
  "hProcess (revokeControllerLocked rid r h) = hProcess h" "hState (revokeControllerLocked rid r h) = hState h"
  "hExit (revokeControllerLocked rid r h) = hExit h" "hClosed (revokeControllerLocked rid r h) = hClosed h"
  "hSubscriberBuffer (revokeControllerLocked rid r h) = hSubscriberBuffer h"
  "hControllerTTL (revokeControllerLocked rid r h) = hControllerTTL h"
  "hAgentID (revokeControllerLocked rid r h) = hAgentID h"
  "hGeneration (revokeControllerLocked rid r h) = hGeneration h"
  by (auto simp: revokeControllerLocked_def frame_simps split: option.splits)

lemma expireControllerLocked_static [frame_simps]:
  "hNext (expireControllerLocked rid n h) = hNext h" "hReplay (expireControllerLocked rid n h) = hReplay h"
  "hProcess (expireControllerLocked rid n h) = hProcess h" "hState (expireControllerLocked rid n h) = hState h"
  "hExit (expireControllerLocked rid n h) = hExit h" "hClosed (expireControllerLocked rid n h) = hClosed h"
  "hSubscriberBuffer (expireControllerLocked rid n h) = hSubscriberBuffer h"
  "hControllerTTL (expireControllerLocked rid n h) = hControllerTTL h"
  "hAgentID (expireControllerLocked rid n h) = hAgentID h"
  "hGeneration (expireControllerLocked rid n h) = hGeneration h"
  by (auto simp: expireControllerLocked_def frame_simps split: option.splits)

section \<open>Every operation preserves the invariant\<close>

lemma attachResize_frame:
  assumes "attachResize env req h = (r, h')"
  shows "hub_inv h' = hub_inv h" and "hController h' = hController h"
    and "hStore h' = hStore h" and "hSubscribers h' = hSubscribers h" and "hNext h' = hNext h"
    and "hReplay h' = hReplay h" and "hExit h' = hExit h" and "hState h' = hState h"
    and "hAgentID h' = hAgentID h" and "hGeneration h' = hGeneration h"
    and "hSubscriberBuffer h' = hSubscriberBuffer h"
  using assms by (auto simp: attachResize_def split: if_splits option.splits prod.splits)

lemma newSubscription_fields [simp]:
  "subID (newSubscription env req h) = aeID env" "subRole (newSubscription env req h) = arRole req"
  "subLease (newSubscription env req h) = []" "subQueue (newSubscription env req h) = []"
  "subCap (newSubscription env req h) = hSubscriberBuffer h"
  "subPerms (newSubscription env req h) = arPermissions req"
  "subInitial (newSubscription env req h) = []" "\<not> subDone (newSubscription env req h)"
  "\<not> streamFrame (subReason (newSubscription env req h))"
  by (simp_all add: newSubscription_def streamFrame_def zeroFrame_def)

text \<open>What an accepted request satisfies, once the checks before the lock have passed.\<close>

definition attach_allowed :: "attachRequest \<Rightarrow> bool" where
  "attach_allowed req \<longleftrightarrow> (arRole req = ''control'' \<or> arRole req = ''observe'') \<and>
     validateSize (arTerminalSize req) = None \<and> Observe (arPermissions req) \<and>
     (arRole req = ''control'' \<longrightarrow> Control (arPermissions req))"

lemma sub_ok_new: "attach_allowed req \<Longrightarrow> sub_ok (newSubscription env req h)"
  by (simp add: attach_allowed_def sub_ok_def)

text \<open>
  The state just before registration: the new object is stored with its role and lease,
  the lease (if requested) is granted to it, and nothing refers to it yet.
\<close>

definition attachLease :: "attachEnv \<Rightarrow> attachRequest \<Rightarrow> hub \<Rightarrow> hub" where
  "attachLease env req h =
     (let a = hNext h;
          h1 = h\<lparr>hStore := (hStore h)(a \<mapsto> newSubscription env req h), hNext := Suc a\<rparr>
      in if arRole req = ''control'' then
           grantControllerLocked (aeLease env) (aeNow2 env) a
             (if arTakeover req then revokeControllerLocked (aeRid env) ''takeover'' h1 else h1)
         else h1)"

definition attachedSub :: "attachEnv \<Rightarrow> attachRequest \<Rightarrow> hub \<Rightarrow> subscription" where
  "attachedSub env req h =
     (if arRole req = ''control'' then promote (aeLease env) (newSubscription env req h)
      else newSubscription env req h)"

lemma attachedSub_fields [simp]:
  "subID (attachedSub env req h) = aeID env" "subQueue (attachedSub env req h) = []"
  "subCap (attachedSub env req h) = hSubscriberBuffer h" "subInitial (attachedSub env req h) = []"
  "subPerms (attachedSub env req h) = arPermissions req" "subRole (attachedSub env req h) = arRole req"
  by (auto simp: attachedSub_def)

lemma attachLease_spec:
  assumes I: "hub_inv h" and req: "attach_allowed req" and f: "fresh_id (aeID env) h"
    and free: "arRole req = ''control'' \<Longrightarrow> \<not> arTakeover req \<Longrightarrow> hController h = None"
  shows "hub_inv (attachLease env req h)"
    and "hStore (attachLease env req h) (hNext h) = Some (attachedSub env req h)"
    and "lease_ok (hController (attachLease env req h)) (attachedSub env req h)"
proof -
  let ?s = "newSubscription env req h"
  let ?h1 = "h\<lparr>hStore := (hStore h)(hNext h \<mapsto> ?s), hNext := Suc (hNext h)\<rparr>"
  let ?h2 = "if arTakeover req then revokeControllerLocked (aeRid env) ''takeover'' ?h1 else ?h1"
  have I1: "hub_inv ?h1" using I f sub_ok_new [OF req] by (intro alloc_inv) simp_all
  then have I2: "hub_inv ?h2" by (simp add: revokeControllerLocked_inv)
  have "hStore (revokeControllerLocked (aeRid env) ''takeover'' ?h1) (hNext h) = Some ?s"
    using hub_next_unregistered [OF I] by (subst revokeControllerLocked_other) simp_all
  then have s2: "hStore ?h2 (hNext h) = Some ?s" by simp
  have c2: "hController ?h2 = None" if "arRole req = ''control''" using free [OF that] by simp
  have "hub_inv (grantControllerLocked l n (hNext h) ?h2)" if "arRole req = ''control''" for l n
    using req that c2 by (intro grantControllerLocked_inv [OF I2 s2]) (simp_all add: attach_allowed_def)
  with I1 show "hub_inv (attachLease env req h)" by (simp add: attachLease_def Let_def)
  show "hStore (attachLease env req h) (hNext h) = Some (attachedSub env req h)"
    using grantControllerLocked_eq [OF s2] by (simp add: attachLease_def attachedSub_def Let_def)
  show "lease_ok (hController (attachLease env req h)) (attachedSub env req h)"
    using grantControllerLocked_eq [OF s2] req
    by (auto simp: attachLease_def attachedSub_def Let_def lease_ok_def attach_allowed_def)
qed

lemma attachCommit_eq:
  assumes "hub_inv h" "attach_allowed req" "fresh_id (aeID env) h"
    "arRole req = ''control'' \<Longrightarrow> \<not> arTakeover req \<Longrightarrow> hController h = None"
  shows "attachCommit env req h = (hNext h,
    let h2 = attachLease env req h;
        s = (attachedSub env req h)\<lparr>subInitial :=
               initialFrames h2 (attachedSub env req h) (arAfterSequence req)\<rparr>
    in h2\<lparr>hStore := (hStore h2)(hNext h \<mapsto> s), hSubscribers := (hSubscribers h2)(aeID env \<mapsto> hNext h)\<rparr>)"
  using attachLease_spec(2) [OF assms] by (simp add: attachCommit_def attachLease_def Let_def)

lemma attachCommit_inv:
  assumes "hub_inv h" "attach_allowed req" "fresh_id (aeID env) h"
    "arRole req = ''control'' \<Longrightarrow> \<not> arTakeover req \<Longrightarrow> hController h = None"
  shows "hub_inv (snd (attachCommit env req h))"
proof -
  note L = attachLease_spec [OF assms]
  let ?h2 = "attachLease env req h"
  let ?s = "(attachedSub env req h)\<lparr>subInitial :=
               initialFrames ?h2 (attachedSub env req h) (arAfterSequence req)\<rparr>"
  let ?h3 = "?h2\<lparr>hStore := (hStore ?h2)(hNext h \<mapsto> ?s)\<rparr>"
  have ok: "sub_ok ?s" using hub_sub_get [OF L(1,2)] by (simp add: sub_ok_def)
  have "hub_inv ?h3" using ok by (intro hub_inv_store [OF L(1,2)]) simp_all
  moreover have "lease_ok (hController ?h3) ?s" using L(3) lease_ok_cong [of ?s "attachedSub env req h"] by simp
  ultimately have "hub_inv (?h3\<lparr>hSubscribers := (hSubscribers ?h3)(subID ?s \<mapsto> hNext h)\<rparr>)"
    by (intro register_inv) simp_all
  then show ?thesis by (simp add: attachCommit_eq [OF assms] Let_def)
qed

text \<open>The branches of \<open>attach\<close>.\<close>

lemma attach_rejected:
  "\<not> attach_allowed req \<Longrightarrow> snd (attach env req h) = h \<and> (\<exists>e. fst (attach env req h) = Fail e)"
  by (auto simp: attach_def attach_allowed_def split: option.splits)

lemma attach_accepted:
  "attach_allowed req \<Longrightarrow>
     attach env req h = attachLocked env req (expireControllerLocked (aeRid env) (aeNow env) h)"
  by (auto simp: attach_def attach_allowed_def split: option.splits)

lemma attachLocked_cases:
  assumes "attachLocked env req h = (r, h')"
  obtains (Rejected) e where "r = Fail e" "h' = h"
  | (ResizeFailed) r0 where "attachResize env req h = (r0, h')" "\<not> (\<exists>u. r0 = Ok u)"
      "r = (case r0 of Fail e \<Rightarrow> Fail e | _ \<Rightarrow> Panic)"
  | (Committed) h1 where "attachResize env req h = (Ok (), h1)" "cursorValid h (arAfterSequence req)"
      "arRole req = ''control'' \<longrightarrow> \<not> arTakeover req \<longrightarrow> hController h = None"
      "r = Ok (fst (attachCommit env req h1))" "h' = snd (attachCommit env req h1)"
  using assms by (auto simp: attachLocked_def split: if_splits outcome.splits prod.splits)

lemma attachLocked_inv:
  assumes I: "hub_inv h" and req: "attach_allowed req" and f: "fresh_id (aeID env) h"
    and at: "attachLocked env req h = (r, h')"
  shows "hub_inv h'"
  using at
proof (cases rule: attachLocked_cases)
  case (Rejected e)
  with I show ?thesis by simp
next
  case (ResizeFailed r0)
  with I attachResize_frame(1) show ?thesis by blast
next
  case (Committed h1)
  note fr = attachResize_frame [OF Committed(1)]
  have "hub_inv (snd (attachCommit env req h1))"
    using I f req Committed(3) fr by (intro attachCommit_inv) (simp_all add: fresh_id_def)
  with Committed show ?thesis by simp
qed

text \<open>Objects keep their identity and permissions; only \<open>attach\<close> adds one.\<close>

definition same_objects :: "hub \<Rightarrow> hub \<Rightarrow> bool" where
  "same_objects h h' \<longleftrightarrow> (\<forall>a. map_option (\<lambda>s. (subID s, subPerms s, subCap s, subInitial s)) (hStore h' a) =
     map_option (\<lambda>s. (subID s, subPerms s, subCap s, subInitial s)) (hStore h a))"

lemma same_objects_refl [simp]: "same_objects h h"
  by (simp add: same_objects_def)

lemma same_objects_trans: "same_objects h1 h2 \<Longrightarrow> same_objects h2 h3 \<Longrightarrow> same_objects h1 h3"
  by (simp add: same_objects_def)

lemma same_objects_update [simp]:
  "same_objects h (h'\<lparr>hController := c\<rparr>) = same_objects h h'"
  by (simp add: same_objects_def)

lemma same_objects_get:
  assumes "same_objects h h'" "hStore h a = Some s"
  shows "\<exists>s'. hStore h' a = Some s' \<and> subID s' = subID s \<and> subPerms s' = subPerms s \<and>
    subCap s' = subCap s \<and> subInitial s' = subInitial s"
  using assms(2) spec [OF assms(1) [unfolded same_objects_def], of a]
  by (auto simp: map_option_case split: option.splits)

lemma same_objects_get':
  assumes "same_objects h h'" "hStore h' a = Some s'"
  shows "\<exists>s. hStore h a = Some s \<and> subID s' = subID s \<and> subPerms s' = subPerms s \<and>
    subCap s' = subCap s \<and> subInitial s' = subInitial s"
  using assms(2) spec [OF assms(1) [unfolded same_objects_def], of a]
  by (auto simp: map_option_case split: option.splits)

lemma same_objects_fresh: "same_objects h h' \<Longrightarrow> fresh_id i h \<Longrightarrow> fresh_id i h'"
  unfolding fresh_id_def using same_objects_get' by metis

lemma sendLocked_same [frame_simps]: "same_objects h (sendLocked rid a f h)"
  by (auto simp: same_objects_def sendLocked_def split: option.splits)

lemma revokeControllerLocked_same [frame_simps]: "same_objects h (revokeControllerLocked rid r h)"
proof (cases "hController h")
  case None
  then show ?thesis by (simp add: revokeControllerLocked_def)
next
  case (Some c)
  have "same_objects h (h\<lparr>hStore := (hStore h)(a \<mapsto> s\<lparr>subRole := ''observe'', subLease := []\<rparr>)\<rparr>)"
    if "hStore h a = Some s" for a s
    using that by (simp add: same_objects_def)
  then show ?thesis using Some
    by (auto simp: revokeControllerLocked_def split: option.splits
        intro: same_objects_trans [OF _ sendLocked_same])
qed

lemma expireControllerLocked_same [frame_simps]: "same_objects h (expireControllerLocked rid n h)"
  by (auto simp: expireControllerLocked_def frame_simps split: option.splits)

lemma attach_inv [wf_intros]:
  assumes I: "hub_inv h" and f: "fresh_id (aeID env) h"
  shows "hub_inv (snd (attach env req h))"
proof (cases "attach_allowed req")
  case False
  then show ?thesis using I attach_rejected by simp
next
  case True
  let ?h1 = "expireControllerLocked (aeRid env) (aeNow env) h"
  have "hub_inv ?h1" using I by (rule expireControllerLocked_inv)
  moreover have "fresh_id (aeID env) ?h1"
    using f by (rule same_objects_fresh [OF expireControllerLocked_same])
  ultimately show ?thesis
    using True attachLocked_inv [of ?h1 req env] by (metis attach_accepted prod.collapse)
qed

lemma detach_eq: "detach a h = (case hStore h a of None \<Rightarrow> h
    | Some s \<Rightarrow> if hSubscribers h (subID s) = Some a then unregister (subID s) h else h)"
  by (auto simp: detach_def unregister_def split: option.splits)

lemma detach_inv [wf_intros]: "hub_inv h \<Longrightarrow> hub_inv (detach a h)"
  by (auto simp: detach_eq unregister_inv split: option.splits)

text \<open>\<open>takeover\<close>: the state in which the lease is granted, and what the grant finds.\<close>

definition takeoverReady :: "attachEnv \<Rightarrow> subscription \<Rightarrow> hub \<Rightarrow> hub" where
  "takeoverReady env s h =
     (let h1 = expireControllerLocked (aeRid env) (aeNow env) h
      in case hController h1 of
           Some c \<Rightarrow> if clAttachmentID c = subID s then h1
                     else revokeControllerLocked (aeRid env) ''takeover'' h1
         | None \<Rightarrow> h1)"

lemma takeoverReady_same: "same_objects h (takeoverReady env s h)"
  using same_objects_trans [OF expireControllerLocked_same revokeControllerLocked_same]
  by (auto simp: takeoverReady_def Let_def expireControllerLocked_same split: option.splits)

lemma takeoverReady_inv: "hub_inv h \<Longrightarrow> hub_inv (takeoverReady env s h)"
  by (auto simp: takeoverReady_def Let_def split: option.splits
      intro: expireControllerLocked_inv revokeControllerLocked_inv)

lemma takeoverReady_free: "hController (takeoverReady env s h) = Some c \<Longrightarrow> clAttachmentID c = subID s"
  by (auto simp: takeoverReady_def Let_def split: option.splits if_splits)

lemma takeover_ok:
  assumes "hStore h a = Some s" "Control (subPerms s)" "hSubscribers h (subID s) \<noteq> None"
  shows "\<exists>s'. hStore (takeoverReady env s h) a = Some s' \<and> subID s' = subID s \<and> Control (subPerms s') \<and>
    takeover env a h =
      (let h3 = grantControllerLocked (aeLease env) (aeNow2 env) a (takeoverReady env s h)
       in (Ok (attachedFrame h3 (promote (aeLease env) s')), h3))"
proof -
  obtain s' where s': "hStore (takeoverReady env s h) a = Some s'" "subID s' = subID s"
    "subPerms s' = subPerms s"
    using same_objects_get [OF takeoverReady_same assms(1)] by blast
  have upd: "(promote l s')\<lparr>subRole := ''control''\<rparr> = promote l s'" for l
    by (simp add: promote_def)
  show ?thesis
    using s' assms grantControllerLocked_eq [OF s'(1)]
    by (auto simp: takeover_def takeoverReady_def [symmetric] Let_def upd
        cong: option.case_cong) (simp add: takeoverReady_def Let_def upd)
qed

lemma takeover_refused:
  assumes "hStore h a = Some s" "\<not> (Control (subPerms s) \<and> hSubscribers h (subID s) \<noteq> None)"
  shows "\<exists>e. takeover env a h = (Fail e, h)"
  using assms by (auto simp: takeover_def)

lemma takeover_inv [wf_intros]:
  assumes I: "hub_inv h"
  shows "hub_inv (snd (takeover env a h))"
proof (cases "hStore h a")
  case None
  with I show ?thesis by (simp add: takeover_def)
next
  case (Some s)
  show ?thesis
  proof (cases "Control (subPerms s) \<and> hSubscribers h (subID s) \<noteq> None")
    case False
    with takeover_refused [OF Some False, of env] I show ?thesis by auto
  next
    case True
    then obtain s' where s': "hStore (takeoverReady env s h) a = Some s'" "subID s' = subID s"
      "Control (subPerms s')" and eq: "snd (takeover env a h) =
          grantControllerLocked (aeLease env) (aeNow2 env) a (takeoverReady env s h)"
      using takeover_ok [OF Some, of env] by (auto simp: Let_def)
    show ?thesis unfolding eq
      by (rule grantControllerLocked_inv [OF takeoverReady_inv [OF I] s'(1,3)])
        (simp add: s'(2) takeoverReady_free)
  qed
qed

lemma touch_inv [wf_intros]: "hub_inv h \<Longrightarrow> hub_inv (touch now a h)"
  by (auto simp: touch_def split: option.splits intro: extendLease_inv)

lemma acknowledge_inv [wf_intros]: "hub_inv h \<Longrightarrow> hub_inv (snd (acknowledge now a sq h))"
  by (auto simp: acknowledge_def split: option.splits intro: extendLease_inv)

lemma authorizeControllerLocked_inv [wf_intros]:
  "hub_inv h \<Longrightarrow> hub_inv (snd (authorizeControllerLocked rid now a lease h))"
  by (auto simp: authorizeControllerLocked_def Let_def expireControllerLocked_inv split: option.splits)

lemma writeInputBegin_inv [wf_intros]:
  "hub_inv h \<Longrightarrow> hub_inv (snd (writeInputBegin rid now a lease d h))"
  by (auto simp: writeInputBegin_def intro: authorizeControllerLocked_inv)

lemma writeInputWrite_inv [wf_intros]: "hub_inv h \<Longrightarrow> hub_inv (snd (writeInputWrite wr d h))"
  by (auto simp: writeInputWrite_def split: option.splits prod.splits)

lemma resizeCall_inv [wf_intros]: "hub_inv h \<Longrightarrow> hub_inv (snd (resizeCall ss sz h))"
  by (auto simp: resizeCall_def split: option.splits prod.splits)

lemma controlEnd_inv [wf_intros]: "hub_inv h \<Longrightarrow> hub_inv (controlEnd now a lease h)"
  by (auto simp: controlEnd_def split: option.splits intro: extendLease_inv)

lemma publishOutput_inv [wf_intros]: "hub_inv h \<Longrightarrow> hub_inv (publishOutput rid ord d h)"
  by (auto simp: publishOutput_def broadcastLocked_inv split: prod.splits)

lemma publishExit_inv [wf_intros]: "hub_inv h \<Longrightarrow> hub_inv (publishExit fmt rid0 rid ord e h)"
  by (simp add: publishExit_def Let_def broadcastLocked_inv revokeControllerLocked_inv)

lemma reaperTick_inv [wf_intros]: "hub_inv h \<Longrightarrow> hub_inv (reaperTick rid now h)"
  by (simp add: reaperTick_def expireControllerLocked_inv)

end
