(* ===== verification/Hub_Stream.thy ===== *)
theory Hub_Stream
  imports Hub_Inv
begin

text \<open>
  What the hub's operations put into the attachments' queues. \<open>emits F h h'\<close> says that
  between \<open>h\<close> and \<open>h'\<close> every attachment that is still registered received exactly the
  stream frames \<open>F\<close> assigns to its identifier, that one dropped on the way received a
  prefix of them, and that nothing else was enqueued or lost. Stream frames are the output
  and exit frames; notices (\<open>attached\<close>, \<open>controller_revoked\<close>, \<open>pong\<close>, errors) may come
  in between.
\<close>

abbreviation stream :: "Frame list \<Rightarrow> Frame list" where
  "stream fs \<equiv> filter streamFrame fs"

definition sub_emits :: "Frame list \<Rightarrow> bool \<Rightarrow> subscription \<Rightarrow> bool \<Rightarrow> subscription \<Rightarrow> bool" where
  "sub_emits F reg s reg' s' \<longleftrightarrow>
     subID s' = subID s \<and> subPerms s' = subPerms s \<and> subInitial s' = subInitial s \<and> (subDone s \<longrightarrow> subDone s') \<and>
     (\<exists>ext. subQueue s' = subQueue s @ ext \<and>
        (reg' \<longrightarrow> reg \<and> stream ext = F) \<and> prefix (stream ext) F \<and> (\<not> reg \<longrightarrow> stream ext = []))"

definition emits :: "(string \<Rightarrow> Frame list) \<Rightarrow> hub \<Rightarrow> hub \<Rightarrow> bool" where
  "emits F h h' \<longleftrightarrow>
     (\<forall>a. hStore h a = None \<longrightarrow> hStore h' a = None) \<and>
     (\<forall>a s. hStore h a = Some s \<longrightarrow>
        (\<exists>s'. hStore h' a = Some s' \<and>
           sub_emits (F (subID s)) (registered h a s) s (registered h' a s') s'))"

abbreviation silent :: "hub \<Rightarrow> hub \<Rightarrow> bool" where
  "silent \<equiv> emits (\<lambda>_. [])"

section \<open>Composition\<close>

lemma emits_get:
  assumes "emits F h h'" "hStore h a = Some s"
  obtains s' where "hStore h' a = Some s'"
    "sub_emits (F (subID s)) (registered h a s) s (registered h' a s') s'"
  using assms unfolding emits_def by blast

lemma emits_none: "emits F h h' \<Longrightarrow> hStore h a = None \<Longrightarrow> hStore h' a = None"
  unfolding emits_def by blast

lemma emitsI:
  assumes "\<And>a. hStore h a = None \<Longrightarrow> hStore h' a = None"
    and "\<And>a s. hStore h a = Some s \<Longrightarrow> \<exists>s'. hStore h' a = Some s' \<and>
           sub_emits (F (subID s)) (registered h a s) s (registered h' a s') s'"
  shows "emits F h h'"
  using assms unfolding emits_def by blast

text \<open>Weakening: an attachment that is dropped may be promised more than it received.\<close>

lemma sub_emits_weaken:
  "sub_emits F r s r' s' \<Longrightarrow> prefix F G \<Longrightarrow> (r' \<Longrightarrow> F = G) \<Longrightarrow> sub_emits G r s r' s'"
  unfolding sub_emits_def by (metis prefix_order.trans)

lemma sub_emits_same:
  "subID s' = subID s \<Longrightarrow> subPerms s' = subPerms s \<Longrightarrow> subInitial s' = subInitial s \<Longrightarrow> subQueue s' = subQueue s \<Longrightarrow>
     (subDone s \<longrightarrow> subDone s') \<Longrightarrow> (reg' \<longrightarrow> reg) \<Longrightarrow> sub_emits [] reg s reg' s'"
  by (simp add: sub_emits_def)

lemma sub_emits_trans:
  assumes "sub_emits F r1 s1 r2 s2" "sub_emits G r2 s2 r3 s3"
  shows "sub_emits (F @ G) r1 s1 r3 s3"
proof -
  obtain e1 where e1: "subQueue s2 = subQueue s1 @ e1" "r2 \<longrightarrow> r1 \<and> stream e1 = F"
      "prefix (stream e1) F" "\<not> r1 \<longrightarrow> stream e1 = []"
    using assms(1) by (auto simp: sub_emits_def)
  obtain e2 where e2: "subQueue s3 = subQueue s2 @ e2" "r3 \<longrightarrow> r2 \<and> stream e2 = G"
      "prefix (stream e2) G" "\<not> r2 \<longrightarrow> stream e2 = []"
    using assms(2) by (auto simp: sub_emits_def)
  have "prefix (stream (e1 @ e2)) (F @ G)"
    using e1 e2 by (cases r2) (auto simp: prefix_def)
  then show ?thesis
    using assms e1 e2 unfolding sub_emits_def by (intro conjI exI [of _ "e1 @ e2"]) auto
qed

lemma emits_refl [simp]: "silent h h"
  by (auto simp: emits_def sub_emits_same)

lemma emits_trans:
  assumes "emits F h1 h2" "emits G h2 h3"
  shows "emits (\<lambda>i. F i @ G i) h1 h3"
proof (rule emitsI)
  fix a assume "hStore h1 a = None"
  then show "hStore h3 a = None" by (intro emits_none [OF assms(2)] emits_none [OF assms(1)])
next
  fix a s assume "hStore h1 a = Some s"
  from emits_get [OF assms(1) this] obtain s2 where s2: "hStore h2 a = Some s2"
    and e1: "sub_emits (F (subID s)) (registered h1 a s) s (registered h2 a s2) s2" .
  from emits_get [OF assms(2) s2] obtain s3 where s3: "hStore h3 a = Some s3"
    and e2: "sub_emits (G (subID s2)) (registered h2 a s2) s2 (registered h3 a s3) s3" .
  have "subID s2 = subID s" using e1 by (simp add: sub_emits_def)
  with s3 sub_emits_trans [OF e1 e2] show "\<exists>s'. hStore h3 a = Some s' \<and>
      sub_emits (F (subID s) @ G (subID s)) (registered h1 a s) s (registered h3 a s') s'"
    by auto
qed

lemma silent_trans: "silent h1 h2 \<Longrightarrow> silent h2 h3 \<Longrightarrow> silent h1 h3"
  using emits_trans [of "\<lambda>_. []" h1 h2 "\<lambda>_. []" h3] by simp

text \<open>Changes that leave store and registration alone are silent.\<close>

lemma emits_cong:
  assumes "hStore h2 = hStore h1" "hSubscribers h2 = hSubscribers h1"
  shows "emits F h h2 = emits F h h1" and "emits F h2 h = emits F h1 h"
  using assms by (simp_all add: emits_def registered_def)

lemma emits_updates [simp]:
  "emits F h (h'\<lparr>hController := c\<rparr>) = emits F h h'"
  "emits F h (h'\<lparr>hReplay := b\<rparr>) = emits F h h'"
  "emits F h (h'\<lparr>hProcess := p\<rparr>) = emits F h h'"
  "emits F (h'\<lparr>hReplay := b\<rparr>) h = emits F h' h"
  "emits F (h'\<lparr>hState := st, hExit := e\<rparr>) h = emits F h' h"
  by (rule emits_cong; simp)+

section \<open>Sending\<close>

lemma unregister_silent: "silent h (unregister i h)"
  unfolding emits_def unregister_def
  by (auto simp: registered_def intro!: sub_emits_same split: if_splits)

text \<open>Replacing one object without touching its queue.\<close>

lemma store_silent:
  assumes "hStore h a = Some s" "subID s' = subID s" "subPerms s' = subPerms s" "subInitial s' = subInitial s"
    "subQueue s' = subQueue s" "subDone s \<longrightarrow> subDone s'"
  shows "silent h (h\<lparr>hStore := (hStore h)(a \<mapsto> s')\<rparr>)"
  using assms unfolding emits_def
  by (auto simp: registered_def intro!: sub_emits_same)

lemma sendLocked_emits:
  assumes "hStore h a = Some s" and reg: "registered h a s"
    and uniq: "\<And>b t. hStore h b = Some t \<Longrightarrow> subID t = subID s \<Longrightarrow> b = a"
  shows "emits (\<lambda>i. if i = subID s then stream [f] else []) h (sendLocked rid a f h)"
proof (cases "length (subQueue s) < subCap s")
  case True
  let ?s' = "s\<lparr>subQueue := subQueue s @ [f]\<rparr>"
  let ?h' = "h\<lparr>hStore := (hStore h)(a \<mapsto> ?s')\<rparr>"
  have "sub_emits (stream [f]) True s True ?s'" unfolding sub_emits_def by auto
  then have self: "sub_emits (stream [f]) (registered h a s) s (registered ?h' a ?s') ?s'"
    using reg by (simp add: registered_def)
  have "emits (\<lambda>i. if i = subID s then stream [f] else []) h ?h'"
    unfolding emits_def
  proof (intro conjI allI impI)
    fix b assume "hStore h b = None"
    then show "hStore ?h' b = None" using assms(1) by auto
  next
    fix b t assume t: "hStore h b = Some t"
    show "\<exists>s'. hStore ?h' b = Some s' \<and>
      sub_emits (if subID t = subID s then stream [f] else []) (registered h b t) t (registered ?h' b s') s'"
    proof (cases "b = a")
      case True
      then show ?thesis using t assms(1) self by auto
    next
      case False
      then have "subID t \<noteq> subID s" using uniq t by blast
      then show ?thesis using False t by (auto simp: registered_def intro!: sub_emits_same)
    qed
  qed
  then show ?thesis using sendLocked_queued [OF assms(1) True] by simp
next
  case False
  let ?s' = "subClose (slowConsumer rid) s"
  let ?h1 = "h\<lparr>hStore := (hStore h)(a \<mapsto> ?s')\<rparr>"
  let ?h' = "unregister (subID s) ?h1"
  have "silent h ?h1" using assms(1) by (intro store_silent) simp_all
  then have q: "silent h ?h'" using unregister_silent silent_trans by blast
  have st: "hStore ?h' a = Some ?s'" "\<not> registered ?h' a ?s'"
    by (simp_all add: registered_def unregister_def)
  have "emits (\<lambda>i. if i = subID s then stream [f] else []) h ?h'"
  proof (rule emitsI)
    fix b assume "hStore h b = None"
    then show "hStore ?h' b = None" by (rule emits_none [OF q])
  next
    fix b t assume t: "hStore h b = Some t"
    from emits_get [OF q t] obtain t' where t': "hStore ?h' b = Some t'"
      and e: "sub_emits [] (registered h b t) t (registered ?h' b t') t'" .
    have "registered ?h' b t' \<Longrightarrow> subID t \<noteq> subID s" using uniq [OF t] t' st by auto
    with t' e show "\<exists>t'. hStore ?h' b = Some t' \<and> sub_emits (if subID t = subID s then stream [f] else [])
        (registered h b t) t (registered ?h' b t') t'"
      by (intro exI [of _ t'] conjI sub_emits_weaken [OF e]) auto
  qed
  then show ?thesis using sendLocked_dropped [OF assms(1) False] by simp
qed

lemma sendLocked_notice_silent:
  assumes "hStore h a = Some s" "registered h a s" "\<not> streamFrame f"
    "\<And>b t. hStore h b = Some t \<Longrightarrow> subID t = subID s \<Longrightarrow> b = a"
  shows "silent h (sendLocked rid a f h)"
  using sendLocked_emits [OF assms(1,2,4), where f = f and rid = rid] assms(3) by (simp cong: if_cong)

lemma hub_inv_uniq:
  "hub_inv h \<Longrightarrow> hStore h a = Some s \<Longrightarrow> hStore h b = Some t \<Longrightarrow> subID t = subID s \<Longrightarrow> b = a"
  unfolding hub_inv_def hub_reg_def by blast

lemma hubSend_silent:
  assumes "hub_inv h" "\<not> streamFrame f"
  shows "silent h (hubSend rid a f h)"
proof (cases "\<exists>s. hStore h a = Some s \<and> hSubscribers h (subID s) = Some a")
  case True
  then obtain s where s: "hStore h a = Some s" "hSubscribers h (subID s) = Some a" by blast
  then have "registered h a s" by (simp add: registered_def)
  then have "silent h (sendLocked rid a f h)"
    by (rule sendLocked_notice_silent [OF s(1) _ assms(2)]) (rule hub_inv_uniq [OF assms(1) s(1)])
  with s show ?thesis by (simp add: hubSend_def)
next
  case False
  then show ?thesis by (auto simp: hubSend_def split: option.splits)
qed

section \<open>Broadcasting\<close>

lemma broadcastLocked_emits:
  assumes "hub_inv h" "distinct ord"
  shows "emits (\<lambda>i. if i \<in> set ord then stream [f] else []) h (broadcastLocked rid ord f h)"
  using assms
proof (induction ord arbitrary: h)
  case Nil
  then show ?case by (simp add: broadcastLocked_def)
next
  case (Cons i ord)
  define h1 where "h1 = (case hSubscribers h i of None \<Rightarrow> h | Some a \<Rightarrow> sendLocked (rid i) a f h)"
  have bc: "broadcastLocked rid (i # ord) f h = broadcastLocked rid ord f h1"
    by (simp add: broadcastLocked_def h1_def)
  have I1: "hub_inv h1" using Cons.prems by (auto simp: h1_def sendLocked_inv split: option.splits)
  have first: "emits (\<lambda>j. if j = i then stream [f] else []) h h1"
  proof (cases "hSubscribers h i")
    case None
    then have h1: "h1 = h" by (simp add: h1_def)
    have "\<not> registered h a s" if "subID s = i" for a s using that None by (simp add: registered_def)
    then show ?thesis unfolding h1
      by (intro emitsI) (auto intro!: sub_emits_weaken [OF sub_emits_same])
  next
    case (Some a)
    then obtain s where s: "hStore h a = Some s" "subID s = i"
      using hub_reg_get Cons.prems(1) by blast
    with Some have "registered h a s" by (simp add: registered_def)
    then have "emits (\<lambda>j. if j = subID s then stream [f] else []) h (sendLocked (rid i) a f h)"
      by (rule sendLocked_emits [OF s(1)]) (rule hub_inv_uniq [OF Cons.prems(1) s(1)])
    with s Some show ?thesis by (simp add: h1_def)
  qed
  have "emits (\<lambda>j. (if j = i then stream [f] else []) @ (if j \<in> set ord then stream [f] else []))
      h (broadcastLocked rid ord f h1)"
    using first Cons.IH [OF I1] Cons.prems(2) by (intro emits_trans) auto
  moreover have "(\<lambda>j. (if j = i then stream [f] else []) @ (if j \<in> set ord then stream [f] else [])) =
      (\<lambda>j. if j \<in> set (i # ord) then stream [f] else [])"
    using Cons.prems(2) by (auto simp: fun_eq_iff)
  ultimately show ?case using bc by simp
qed

text \<open>With an order that enumerates the map, every registered attachment is served.\<close>

lemma emits_on_registered:
  assumes "emits F h h'" and "\<And>a s. registered h a s \<Longrightarrow> F (subID s) = G"
    and "\<And>i. prefix (F i) G"
  shows "emits (\<lambda>_. G) h h'"
proof (rule emitsI)
  fix a assume "hStore h a = None"
  then show "hStore h' a = None" by (rule emits_none [OF assms(1)])
next
  fix a s assume "hStore h a = Some s"
  from emits_get [OF assms(1) this] obtain s' where s': "hStore h' a = Some s'"
    and e: "sub_emits (F (subID s)) (registered h a s) s (registered h' a s') s'" .
  have "F (subID s) = G" if "registered h' a s'"
    using e that assms(2) by (auto simp: sub_emits_def)
  with s' show "\<exists>s'. hStore h' a = Some s' \<and> sub_emits G (registered h a s) s (registered h' a s') s'"
    using sub_emits_weaken [OF e assms(3)] by blast
qed

lemma broadcastLocked_all:
  assumes "hub_inv h" "enumerates ord (hSubscribers h)"
  shows "emits (\<lambda>_. stream [f]) h (broadcastLocked rid ord f h)"
proof (rule emits_on_registered [OF broadcastLocked_emits [OF assms(1)]])
  show "distinct ord" using assms(2) by (simp add: enumerates_def)
qed (use assms(2) in \<open>auto simp: enumerates_def registered_def\<close>)

section \<open>The lease operations are silent\<close>

lemma revokedFrame_notice [simp]: "\<not> streamFrame (revokedFrame r)"
  by (simp add: streamFrame_def revokedFrame_def)

lemma revokeControllerLocked_silent:
  assumes I: "hub_inv h"
  shows "silent h (revokeControllerLocked rid r h)"
proof (cases "hController h")
  case None
  then show ?thesis by (simp add: revokeControllerLocked_def)
next
  case c: (Some c)
  show ?thesis
  proof (cases "hSubscribers h (clAttachmentID c)")
    case None
    with c show ?thesis by (simp add: revokeControllerLocked_def)
  next
    case r: (Some a)
    then obtain s where s: "hStore h a = Some s" "subID s = clAttachmentID c"
      using hub_reg_get [OF I] by blast
    let ?h1 = "h\<lparr>hStore := (hStore h)(a \<mapsto> demote s), hController := None\<rparr>"
    have I1: "hub_inv ?h1" using I c r s(1) by (rule demote_inv)
    have s1: "hStore ?h1 a = Some (demote s)" "registered ?h1 a (demote s)"
      using r s by (simp_all add: registered_def)
    have "silent h ?h1" using s(1) by (simp add: store_silent)
    moreover have "silent ?h1 (sendLocked rid a (revokedFrame r) ?h1)" for r
      by (rule sendLocked_notice_silent [OF s1(1,2)], simp) (rule hub_inv_uniq [OF I1 s1(1)])
    ultimately show ?thesis
      unfolding revokeControllerLocked_eq [OF c r s(1)] using silent_trans by blast
  qed
qed

lemma expireControllerLocked_silent: "hub_inv h \<Longrightarrow> silent h (expireControllerLocked rid n h)"
  by (auto simp: expireControllerLocked_def revokeControllerLocked_silent split: option.splits)

lemma extendLease_silent: "silent h (extendLease now P h)"
  by (auto simp: extendLease_def split: option.splits)

lemma grantControllerLocked_silent: "silent h (grantControllerLocked l n a h)"
proof (cases "hStore h a")
  case None
  then show ?thesis by (simp add: grantControllerLocked_def)
next
  case (Some s)
  then show ?thesis by (simp add: grantControllerLocked_eq store_silent)
qed

section \<open>The operations\<close>

lemma publishOutput_emits:
  assumes "hub_inv h" "enumerates ord (hSubscribers h)"
  shows "emits (\<lambda>_. [outputFrame (latest (hReplay h) + 1) d]) h (publishOutput rid ord d h)"
proof -
  obtain b where ap: "appendOutput d (hReplay h) = (outputFrame (latest (hReplay h) + 1) d, b)"
    using appendOutput_fields(1) [of d "hReplay h"] by (metis prod.collapse)
  have "stream [outputFrame (latest (hReplay h) + 1) d] = [outputFrame (latest (hReplay h) + 1) d]"
    by (simp add: streamFrame_def)
  then show ?thesis
    using broadcastLocked_all [of "h\<lparr>hReplay := b\<rparr>" ord "outputFrame (latest (hReplay h) + 1) d" rid] assms ap
    by (simp add: publishOutput_def)
qed

lemma exitFrame_type [simp]: "frType (exitFrame fmt g e) = ''exit''"
  by (simp add: exitFrame_def)

lemma publishExit_emits:
  assumes I: "hub_inv h" and none: "hExit h = None"
    and ord: "enumerates ord (hSubscribers (revokeControllerLocked rid0 ''agent_stopped'' h))"
  shows "emits (\<lambda>_. [exitFrame fmt (hGeneration h) e]) h (publishExit fmt rid0 rid ord e h)"
proof -
  let ?f = "exitFrame fmt (hGeneration h) e"
  let ?h1 = "h\<lparr>hState := ''exited'', hExit := Some ?f\<rparr>"
  let ?h2 = "revokeControllerLocked rid0 ''agent_stopped'' ?h1"
  have I1: "hub_inv ?h1" using I by simp
  have "silent ?h1 ?h2" by (rule revokeControllerLocked_silent [OF I1])
  then have q: "silent h ?h2" by simp
  have "hSubscribers ?h2 = hSubscribers (revokeControllerLocked rid0 ''agent_stopped'' h)"
    by (auto simp: revokeControllerLocked_def sendLocked_def split: option.splits)
  then have "emits (\<lambda>_. stream [?f]) ?h2 (broadcastLocked rid ord ?f ?h2)"
    using ord by (intro broadcastLocked_all revokeControllerLocked_inv I1) simp
  from emits_trans [OF q this] show ?thesis
    using none by (simp add: publishExit_def Let_def streamFrame_def)
qed

lemma detach_silent: "silent h (detach a h)"
  by (auto simp: detach_eq unregister_silent split: option.splits)

lemma takeover_silent:
  assumes I: "hub_inv h"
  shows "silent h (snd (takeover env a h))"
proof (cases "\<exists>s. hStore h a = Some s \<and> Control (subPerms s) \<and> hSubscribers h (subID s) \<noteq> None")
  case False
  then show ?thesis
    by (cases "hStore h a") (auto simp: takeover_def dest!: takeover_refused [where env = env])
next
  case True
  then obtain s where s: "hStore h a = Some s" "Control (subPerms s)" "hSubscribers h (subID s) \<noteq> None"
    by blast
  let ?h1 = "expireControllerLocked (aeRid env) (aeNow env) h"
  have "silent h ?h1" using I by (rule expireControllerLocked_silent)
  moreover have "silent ?h1 (revokeControllerLocked (aeRid env) r ?h1)" for r
    by (rule revokeControllerLocked_silent [OF expireControllerLocked_inv [OF I]])
  ultimately have "silent h (takeoverReady env s h)"
    by (auto simp: takeoverReady_def Let_def split: option.splits intro: silent_trans)
  with grantControllerLocked_silent silent_trans have
    "silent h (grantControllerLocked (aeLease env) (aeNow2 env) a (takeoverReady env s h))" by blast
  then show ?thesis using takeover_ok [OF s, of env] by (auto simp: Let_def)
qed

lemma touch_silent: "silent h (touch now a h)"
  by (auto simp: touch_def extendLease_silent split: option.splits)

lemma acknowledge_silent: "silent h (snd (acknowledge now a sq h))"
  by (auto simp: acknowledge_def extendLease_silent split: option.splits)

lemma writeInputBegin_silent: "hub_inv h \<Longrightarrow> silent h (snd (writeInputBegin rid now a l d h))"
  by (auto simp: writeInputBegin_def authorizeControllerLocked_def Let_def
      expireControllerLocked_silent split: option.splits)

lemma authorizeControllerLocked_silent:
  "hub_inv h \<Longrightarrow> silent h (snd (authorizeControllerLocked rid now a l h))"
  by (auto simp: authorizeControllerLocked_def Let_def expireControllerLocked_silent split: option.splits)

lemma writeInputWrite_silent: "silent h (snd (writeInputWrite wr d h))"
  by (auto simp: writeInputWrite_def split: option.splits prod.splits)

lemma resizeCall_silent: "silent h (snd (resizeCall ss sz h))"
  by (auto simp: resizeCall_def split: option.splits prod.splits)

lemma controlEnd_silent: "silent h (controlEnd now a l h)"
  by (auto simp: controlEnd_def extendLease_silent split: option.splits)

lemma reaperTick_silent: "hub_inv h \<Longrightarrow> silent h (reaperTick rid now h)"
  by (simp add: reaperTick_def expireControllerLocked_silent)

end
