(* ===== verification/Hub_Steps.thy ===== *)
theory Hub_Steps
  imports Hub_Stream
begin

text \<open>
  The runner as a transition system: the goroutines of \<^verbatim>\<open>run.go\<close>, \<^verbatim>\<open>process.go\<close> and
  \<^verbatim>\<open>server.go\<close> interleave at the points where they release the hub's mutexes. A state holds
  the hub, the process object while only \<open>run\<close> knows it, everything the agent printed, what
  each connection's writer has written, the writers that have returned, the call that holds
  \<open>controlMu\<close> across a system call, the identifiers drawn for leases, and whether the PTY
  reader is still running.
\<close>

section \<open>States\<close>

text \<open>\<open>writeInput\<close> and \<open>resize\<close> between authorisation and return.\<close>

datatype control =
    InputAuthorized addr string "byte list"
  | ResizeAuthorized addr string TerminalSize
  | CallDone addr string

fun ctlAddr :: "control \<Rightarrow> addr" where
  "ctlAddr (InputAuthorized a l d) = a"
| "ctlAddr (ResizeAuthorized a l sz) = a"
| "ctlAddr (CallDone a l) = a"

fun ctlLease :: "control \<Rightarrow> string" where
  "ctlLease (InputAuthorized a l d) = l"
| "ctlLease (ResizeAuthorized a l sz) = l"
| "ctlLease (CallDone a l) = l"

record sys =
  sHub :: hub
  sProc :: agentProcess
  sLog :: "byte list list"
  sWire :: "addr \<Rightarrow> Frame list"
  sWriterDone :: "addr \<Rightarrow> bool"
  sHolder :: "control option"
  sLeases :: "string list"
  sReading :: bool

definition theProc :: "sys \<Rightarrow> agentProcess" where
  "theProc y = (case hProcess (sHub y) of Some p \<Rightarrow> p | None \<Rightarrow> sProc y)"

definition setProc :: "agentProcess \<Rightarrow> sys \<Rightarrow> sys" where
  "setProc p y = (case hProcess (sHub y) of
     Some _ \<Rightarrow> y\<lparr>sHub := (sHub y)\<lparr>hProcess := Some p\<rparr>\<rparr> | None \<Rightarrow> y\<lparr>sProc := p\<rparr>)"

definition sysInit :: "hub \<Rightarrow> agentProcess \<Rightarrow> sys" where
  "sysInit h p = \<lparr> sHub = h, sProc = p, sLog = [], sWire = (\<lambda>_. []), sWriterDone = (\<lambda>_. False),
     sHolder = None, sLeases = [], sReading = True \<rparr>"

text \<open>The runner once \<open>process.start\<close> has returned (\<^verbatim>\<open>run.go\<close> 223-234).\<close>

definition started :: "sys \<Rightarrow> bool" where
  "started y \<longleftrightarrow> (\<exists>ag gen rb rf n ttl p. 0 \<le> rb \<and> 0 \<le> rf \<and> terminal p \<noteq> None \<and> procExit p = None \<and>
     y = sysInit (newHub ag gen rb rf n ttl) p)"

section \<open>Steps\<close>

abbreviation serving :: "sys \<Rightarrow> bool" where
  "serving y \<equiv> hProcess (sHub y) \<noteq> None"

abbreviation controlFree :: "sys \<Rightarrow> bool" where
  "controlFree y \<equiv> sHolder y = None"

inductive step :: "(time \<Rightarrow> string) \<Rightarrow> sys \<Rightarrow> sys \<Rightarrow> bool" for fmt :: "time \<Rightarrow> string" where
  SetProcess: "hProcess (sHub y) = None \<Longrightarrow> step fmt y (y\<lparr>sHub := setProcess (sProc y) (sHub y)\<rparr>)"
| Output: "sReading y \<Longrightarrow> Suc (length (sLog y)) < seqLimit \<Longrightarrow> enumerates ord (hSubscribers (sHub y)) \<Longrightarrow>
    step fmt y (y\<lparr>sHub := publishOutput rid ord d (sHub y), sLog := sLog y @ [d]\<rparr>)"
| ReadEnd: "step fmt y (y\<lparr>sReading := False\<rparr>)"
| Reaped: "\<not> sReading y \<Longrightarrow> procExit (theProc y) = None \<Longrightarrow>
    step fmt y (setProc (snd (waitRecord now w (theProc y))) y)"
| Exited: "controlFree y \<Longrightarrow> procExit (theProc y) = Some e \<Longrightarrow>
    enumerates ord (hSubscribers (revokeControllerLocked rid0 ''agent_stopped'' (sHub y))) \<Longrightarrow>
    step fmt y (y\<lparr>sHub := publishExit fmt rid0 rid ord e (sHub y)\<rparr>)"
| ExitDone: "hExit (sHub y) \<noteq> None \<Longrightarrow> step fmt y (setProc (waitDone (theProc y)) y)"
| Signal: "serving y \<Longrightarrow> step fmt y (setProc (snd (procSignal kill sig (theProc y))) y)"
| StopStart: "serving y \<Longrightarrow> step fmt y (setProc (terminateStart kill (theProc y)) y)"
| StopTimeout: "serving y \<Longrightarrow> step fmt y (setProc (terminateTimeout kill (theProc y)) y)"
| StopExited: "serving y \<Longrightarrow> step fmt y (setProc (terminateExited (theProc y)) y)"
| Attach: "serving y \<Longrightarrow> controlFree y \<Longrightarrow> fresh_id (aeID env) (sHub y) \<Longrightarrow> aeLease env \<notin> set (sLeases y) \<Longrightarrow>
    step fmt y (y\<lparr>sHub := snd (attach env req (sHub y)), sLeases := sLeases y @ [aeLease env]\<rparr>)"
| Detach: "controlFree y \<Longrightarrow> step fmt y (y\<lparr>sHub := detach a (sHub y)\<rparr>)"
| Takeover: "controlFree y \<Longrightarrow> hStore (sHub y) a \<noteq> None \<Longrightarrow> aeLease env \<notin> set (sLeases y) \<Longrightarrow>
    step fmt y (y\<lparr>sHub := snd (takeover env a (sHub y)), sLeases := sLeases y @ [aeLease env]\<rparr>)"
| InputBegin: "controlFree y \<Longrightarrow> writeInputBegin rid now a l d (sHub y) = (r, h') \<Longrightarrow>
    step fmt y (y\<lparr>sHub := h', sHolder := (if r = None then Some (InputAuthorized a l d) else None)\<rparr>)"
| ResizeBegin: "controlFree y \<Longrightarrow> authorizeControllerLocked rid now a l (sHub y) = (r, h') \<Longrightarrow>
    step fmt y (y\<lparr>sHub := h', sHolder := (if r = None then Some (ResizeAuthorized a l sz) else None)\<rparr>)"
| InputWrite: "sHolder y = Some (InputAuthorized a l d) \<Longrightarrow> writeInputWrite wr d (sHub y) = (r, h') \<Longrightarrow>
    step fmt y (y\<lparr>sHub := h', sHolder := (if r = Ok () then Some (CallDone a l) else None)\<rparr>)"
| ResizeCall: "sHolder y = Some (ResizeAuthorized a l sz) \<Longrightarrow> resizeCall ss sz (sHub y) = (r, h') \<Longrightarrow>
    step fmt y (y\<lparr>sHub := h', sHolder := (if r = Ok () then Some (CallDone a l) else None)\<rparr>)"
| ControlEnd: "sHolder y = Some (CallDone a l) \<Longrightarrow>
    step fmt y (y\<lparr>sHub := controlEnd now a l (sHub y), sHolder := None\<rparr>)"
| Touch: "step fmt y (y\<lparr>sHub := touch now a (sHub y)\<rparr>)"
| Acknowledge: "step fmt y (y\<lparr>sHub := snd (acknowledge now a sq (sHub y))\<rparr>)"
| Send: "\<not> streamFrame f \<Longrightarrow> step fmt y (y\<lparr>sHub := hubSend rid a f (sHub y)\<rparr>)"
| CloseSub: "hStore (sHub y) a = Some s \<Longrightarrow> \<not> streamFrame f \<Longrightarrow>
    step fmt y (y\<lparr>sHub := (sHub y)\<lparr>hStore := (hStore (sHub y))(a \<mapsto> subClose f s)\<rparr>\<rparr>)"
| Reaper: "controlFree y \<Longrightarrow> step fmt y (y\<lparr>sHub := reaperTick rid now (sHub y)\<rparr>)"
| HubClose: "hubClose (sHub y) = Ok h' \<Longrightarrow> step fmt y (y\<lparr>sHub := h'\<rparr>)"
| WriteInitial: "hStore (sHub y) a = Some s \<Longrightarrow> \<not> sWriterDone y a \<Longrightarrow>
    length (sWire y a) < length (subInitial s) \<Longrightarrow>
    step fmt y (y\<lparr>sWire := (sWire y)(a := sWire y a @ [subInitial s ! length (sWire y a)])\<rparr>)"
| WriteQueued: "hStore (sHub y) a = Some s \<Longrightarrow> \<not> sWriterDone y a \<Longrightarrow>
    length (subInitial s) \<le> length (sWire y a) \<Longrightarrow> subQueue s = f # q \<Longrightarrow>
    step fmt y (y\<lparr>sHub := (sHub y)\<lparr>hStore := (hStore (sHub y))(a \<mapsto> s\<lparr>subQueue := q\<rparr>)\<rparr>,
      sWire := (sWire y)(a := sWire y a @ [f])\<rparr>)"
| WriteReason: "hStore (sHub y) a = Some s \<Longrightarrow> \<not> sWriterDone y a \<Longrightarrow>
    length (subInitial s) \<le> length (sWire y a) \<Longrightarrow> subDone s \<Longrightarrow>
    step fmt y (y\<lparr>sWire := (sWire y)(a := sWire y a @
        (if frType (closeReason s) = [] then [] else [closeReason s])),
      sWriterDone := (sWriterDone y)(a := True)\<rparr>)"
| WriterStops: "step fmt y (y\<lparr>sWriterDone := (sWriterDone y)(a := True)\<rparr>)"

inductive reachable :: "(time \<Rightarrow> string) \<Rightarrow> sys \<Rightarrow> bool" for fmt :: "time \<Rightarrow> string" where
  reachable_init: "started y \<Longrightarrow> reachable fmt y"
| reachable_step: "reachable fmt y \<Longrightarrow> step fmt y y' \<Longrightarrow> reachable fmt y'"

text \<open>Zero or more steps from a given state.\<close>

inductive steps :: "(time \<Rightarrow> string) \<Rightarrow> sys \<Rightarrow> sys \<Rightarrow> bool" for fmt :: "time \<Rightarrow> string" where
  steps_refl: "steps fmt y y"
| steps_step: "steps fmt y y' \<Longrightarrow> step fmt y' y'' \<Longrightarrow> steps fmt y y''"

lemma steps_reachable: "steps fmt y y' \<Longrightarrow> reachable fmt y \<Longrightarrow> reachable fmt y'"
  by (induction rule: steps.induct) (auto intro: reachable_step)

end
