(* ===== verification/Hub_Safety.thy ===== *)
theory Hub_Safety
  imports Hub_Steps
begin

text \<open>
  Invariants of every reachable state of the runner: the hub's invariant, the replay buffer
  against the whole output, each connection's stream against the whole output and the exit,
  the lease held by the call in progress, and the lease identifiers.
\<close>

section \<open>The hub's invariant\<close>

lemma setProc_fields [simp]:
  "sLog (setProc p y) = sLog y" "sWire (setProc p y) = sWire y" "sWriterDone (setProc p y) = sWriterDone y"
  "sHolder (setProc p y) = sHolder y" "sLeases (setProc p y) = sLeases y" "sReading (setProc p y) = sReading y"
  "hub_inv (sHub (setProc p y)) = hub_inv (sHub y)"
  "hStore (sHub (setProc p y)) = hStore (sHub y)"
  "hSubscribers (sHub (setProc p y)) = hSubscribers (sHub y)"
  "hController (sHub (setProc p y)) = hController (sHub y)"
  "hReplay (sHub (setProc p y)) = hReplay (sHub y)" "hExit (sHub (setProc p y)) = hExit (sHub y)"
  "hState (sHub (setProc p y)) = hState (sHub y)" "hNext (sHub (setProc p y)) = hNext (sHub y)"
  by (auto simp: setProc_def split: option.splits)

lemma theProc_setProc [simp]: "theProc (setProc p y) = p"
  by (simp add: theProc_def setProc_def split: option.splits)

lemma dequeue_inv:
  assumes "hub_inv h" "hStore h a = Some s" "subQueue s = f # q"
  shows "hub_inv (h\<lparr>hStore := (hStore h)(a \<mapsto> s\<lparr>subQueue := q\<rparr>)\<rparr>)"
  using hub_sub_get [OF assms(1,2)] assms(3)
  by (intro hub_inv_store [OF assms(1,2)]) (simp_all add: sub_ok_def)

lemma close_inv:
  assumes "hub_inv h" "hStore h a = Some s" "\<not> streamFrame f"
  shows "hub_inv (h\<lparr>hStore := (hStore h)(a \<mapsto> subClose f s)\<rparr>)"
  using hub_sub_get [OF assms(1,2)] assms(3)
  by (intro hub_inv_store [OF assms(1,2)]) (simp_all add: sub_ok_close)

lemma hubClose_inv: "hubClose h = Ok h' \<Longrightarrow> hub_inv h \<Longrightarrow> hub_inv h'"
  by (auto simp: hubClose_def split: if_splits)

lemma step_hub_inv: "step fmt y y' \<Longrightarrow> hub_inv (sHub y) \<Longrightarrow> hub_inv (sHub y')"
proof (induction rule: step.induct)
  case (InputBegin y rid now a l d r h')
  then show ?case using writeInputBegin_inv [of "sHub y" rid now a l d] by simp
next
  case (ResizeBegin y rid now a l r h' sz)
  then show ?case using authorizeControllerLocked_inv [of "sHub y" rid now a l] by simp
next
  case (InputWrite y a l d wr r h')
  then show ?case using writeInputWrite_inv [of "sHub y" wr d] by simp
next
  case (ResizeCall y a l sz ss r h')
  then show ?case using resizeCall_inv [of "sHub y" ss sz] by simp
next
  case (HubClose y h')
  then show ?case using hubClose_inv by simp
qed (simp_all add: wf_intros dequeue_inv close_inv)

lemma started_hub_inv: "started y \<Longrightarrow> hub_inv (sHub y)"
  by (auto simp: started_def sysInit_def hub_inv_newHub)

lemma reachable_hub_inv: "reachable fmt y \<Longrightarrow> hub_inv (sHub y)"
  by (induction rule: reachable.induct) (auto intro: started_hub_inv step_hub_inv)

section \<open>Leases\<close>

text \<open>No operation but \<open>attach\<close> and \<open>takeover\<close> creates a lease.\<close>

definition no_grant :: "hub \<Rightarrow> hub \<Rightarrow> bool" where
  "no_grant h h' \<longleftrightarrow> (\<forall>c'. hController h' = Some c' \<longrightarrow> (\<exists>c. hController h = Some c \<and>
     clAttachmentID c' = clAttachmentID c \<and> clLeaseID c' = clLeaseID c))"

lemma no_grant_refl [simp]: "no_grant h h"
  by (simp add: no_grant_def)

lemma no_grant_same: "hController h' = hController h \<Longrightarrow> no_grant h h'"
  by (simp add: no_grant_def)

lemma no_grant_None [simp]: "hController h' = None \<Longrightarrow> no_grant h h'"
  by (simp add: no_grant_def)

lemma no_grant_trans: "no_grant h1 h2 \<Longrightarrow> no_grant h2 h3 \<Longrightarrow> no_grant h1 h3"
  by (auto simp: no_grant_def)

lemma sendLocked_no_grant: "no_grant h (sendLocked rid a f h)"
  by (auto simp: no_grant_def sendLocked_def split: option.splits if_splits)

lemma broadcastLocked_no_grant: "no_grant h (broadcastLocked rid ord f h)"
  unfolding broadcastLocked_def
proof (induction ord arbitrary: h)
  case Nil
  then show ?case by simp
next
  case (Cons i ord)
  have "no_grant h (case hSubscribers h i of None \<Rightarrow> h | Some a \<Rightarrow> sendLocked (rid i) a f h)"
    by (auto simp: sendLocked_no_grant split: option.splits)
  with Cons.IH no_grant_trans show ?case by fastforce
qed

lemma revokeControllerLocked_no_grant [simp]: "no_grant h (revokeControllerLocked rid r h)"
  by simp

lemma expireControllerLocked_no_grant: "no_grant h (expireControllerLocked rid now h)"
  by (auto simp: expireControllerLocked_def split: option.splits)

lemma extendLease_no_grant: "no_grant h (extendLease now P h)"
  by (auto simp: no_grant_def extendLease_def split: option.splits)

lemmas no_grant_intros = sendLocked_no_grant broadcastLocked_no_grant expireControllerLocked_no_grant
  extendLease_no_grant

lemma hubSend_no_grant: "no_grant h (hubSend rid a f h)"
  by (auto simp: hubSend_def no_grant_intros split: option.splits)

lemma publishOutput_no_grant: "no_grant h (publishOutput rid ord d h)"
  by (auto simp: publishOutput_def split: prod.split
      intro: no_grant_trans [OF no_grant_same broadcastLocked_no_grant])

lemma publishExit_no_grant: "no_grant h (publishExit fmt rid0 rid ord e h)"
proof -
  have "no_grant h2 h3 \<Longrightarrow> hController h2 = None \<Longrightarrow> no_grant h h3" for h2 h3 :: hub
    by (auto simp: no_grant_def)
  from this [OF broadcastLocked_no_grant] show ?thesis by (simp add: publishExit_def Let_def)
qed

lemma detach_no_grant: "no_grant h (detach a h)"
  by (auto simp: no_grant_def detach_def split: option.splits if_splits)

lemma touch_no_grant: "no_grant h (touch now a h)"
  by (auto simp: touch_def no_grant_intros split: option.splits)

lemma acknowledge_no_grant: "no_grant h (snd (acknowledge now a sq h))"
  by (auto simp: acknowledge_def no_grant_intros split: option.splits)

lemma authorize_no_grant: "no_grant h (snd (authorizeControllerLocked rid now a l h))"
  by (auto simp: authorizeControllerLocked_def Let_def no_grant_intros split: option.splits)

lemma writeInputBegin_no_grant: "no_grant h (snd (writeInputBegin rid now a l d h))"
  by (auto simp: writeInputBegin_def authorize_no_grant)

lemma writeInputWrite_no_grant: "no_grant h (snd (writeInputWrite wr d h))"
  by (auto simp: writeInputWrite_def no_grant_same split: option.splits prod.splits)

lemma resizeCall_no_grant: "no_grant h (snd (resizeCall ss sz h))"
  by (auto simp: resizeCall_def no_grant_same split: option.splits prod.splits)

lemma controlEnd_no_grant: "no_grant h (controlEnd now a l h)"
  by (auto simp: controlEnd_def no_grant_intros split: option.splits)

lemma reaperTick_no_grant: "no_grant h (reaperTick rid now h)"
  by (simp add: reaperTick_def no_grant_intros)

lemma hubClose_no_grant: "hubClose h = Ok h' \<Longrightarrow> no_grant h h'"
  by (auto simp: hubClose_def no_grant_same split: if_splits)

lemma setProcess_no_grant: "no_grant h (setProcess p h)"
  by (simp add: setProcess_def no_grant_same)

lemmas op_no_grant = hubSend_no_grant publishOutput_no_grant publishExit_no_grant detach_no_grant
  touch_no_grant acknowledge_no_grant writeInputBegin_no_grant authorize_no_grant
  writeInputWrite_no_grant resizeCall_no_grant controlEnd_no_grant reaperTick_no_grant
  hubClose_no_grant setProcess_no_grant no_grant_same

text \<open>\<open>attach\<close> and \<open>takeover\<close> create at most the lease they draw.\<close>

definition grants_only :: "string \<Rightarrow> hub \<Rightarrow> hub \<Rightarrow> bool" where
  "grants_only l h h' \<longleftrightarrow> (\<forall>c'. hController h' = Some c' \<longrightarrow> clLeaseID c' = l \<or> (\<exists>c. hController h = Some c \<and>
     clAttachmentID c' = clAttachmentID c \<and> clLeaseID c' = clLeaseID c))"

lemma grants_only_no_grant: "no_grant h h' \<Longrightarrow> grants_only l h h'"
  by (auto simp: grants_only_def no_grant_def)

lemma grants_only_trans: "no_grant h1 h2 \<Longrightarrow> grants_only l h2 h3 \<Longrightarrow> grants_only l h1 h3"
  by (auto simp: grants_only_def no_grant_def)

lemma grantControllerLocked_only: "grants_only l h (grantControllerLocked l n a h)"
  by (auto simp: grants_only_def grantControllerLocked_def split: option.splits)

lemma attachLease_only: "grants_only (aeLease env) h (attachLease env req h)"
proof -
  let ?h1 = "h\<lparr>hStore := (hStore h)(hNext h \<mapsto> newSubscription env req h), hNext := Suc (hNext h)\<rparr>"
  have same: "no_grant h ?h1" by (simp add: no_grant_same)
  then have "no_grant h (if arTakeover req then revokeControllerLocked (aeRid env) ''takeover'' ?h1 else ?h1)"
    by simp
  from grants_only_trans [OF this grantControllerLocked_only] grants_only_no_grant [OF same]
  show ?thesis by (simp add: attachLease_def Let_def)
qed

lemma attachCommit_only: "grants_only (aeLease env) h (snd (attachCommit env req h))"
  using attachLease_only [of env h req]
  by (auto simp: attachCommit_def attachLease_def Let_def grants_only_def split: option.splits)

lemma attach_only: "grants_only (aeLease env) h (snd (attach env req h))"
proof (cases "attach_allowed req")
  case False
  then show ?thesis by (simp add: attach_rejected grants_only_no_grant)
next
  case True
  let ?h = "expireControllerLocked (aeRid env) (aeNow env) h"
  obtain r h' where at: "attachLocked env req ?h = (r, h')" by (rule prod.exhaust)
  then have "grants_only (aeLease env) ?h h'"
  proof (cases rule: attachLocked_cases)
    case (Rejected e)
    then show ?thesis by (simp add: grants_only_no_grant)
  next
    case (ResizeFailed r0)
    then show ?thesis using attachResize_frame(2) grants_only_no_grant no_grant_same by metis
  next
    case (Committed h1)
    then show ?thesis
      using attachCommit_only [of env h1 req] attachResize_frame(2) [OF Committed(1)]
      by (auto simp: grants_only_def)
  qed
  then show ?thesis using at True grants_only_trans [OF expireControllerLocked_no_grant]
    by (simp add: attach_accepted)
qed

lemma takeoverReady_no_grant: "no_grant h (takeoverReady env s h)"
  by (auto simp: takeoverReady_def Let_def no_grant_intros split: option.splits)

lemma takeover_only: "grants_only (aeLease env) h (snd (takeover env a h))"
proof (cases "\<exists>s. hStore h a = Some s \<and> Control (subPerms s) \<and> hSubscribers h (subID s) \<noteq> None")
  case False
  then have "snd (takeover env a h) = h"
    by (cases "hStore h a") (auto simp: takeover_def dest!: takeover_refused [where env = env])
  then show ?thesis by (simp add: grants_only_no_grant)
next
  case True
  then obtain s where s: "hStore h a = Some s" "Control (subPerms s)" "hSubscribers h (subID s) \<noteq> None"
    by blast
  then have "snd (takeover env a h) = grantControllerLocked (aeLease env) (aeNow2 env) a (takeoverReady env s h)"
    using takeover_ok [OF s, of env] by (auto simp: Let_def)
  then show ?thesis using grants_only_trans [OF takeoverReady_no_grant grantControllerLocked_only] by simp
qed

text \<open>The steps, by what they do to the lease.\<close>

lemma step_lease:
  "step fmt y y' \<Longrightarrow> (no_grant (sHub y) (sHub y') \<and> sLeases y' = sLeases y) \<or>
     (controlFree y \<and> controlFree y' \<and> (\<exists>l. l \<notin> set (sLeases y) \<and> sLeases y' = sLeases y @ [l] \<and>
        grants_only l (sHub y) (sHub y')))"
proof (induction rule: step.induct)
  case (Attach y env req)
  then show ?case using attach_only by auto
next
  case (Takeover y a env)
  then show ?case using takeover_only by auto
next
  case (InputBegin y rid now a l d r h')
  then show ?case using writeInputBegin_no_grant [of "sHub y" rid now a l d] by simp
next
  case (ResizeBegin y rid now a l r h' sz)
  then show ?case using authorize_no_grant [of "sHub y" rid now a l] by simp
next
  case (InputWrite y a l d wr r h')
  then show ?case using writeInputWrite_no_grant [of "sHub y" wr d] by simp
next
  case (ResizeCall y a l sz ss r h')
  then show ?case using resizeCall_no_grant [of "sHub y" ss sz] by simp
next
  case (HubClose y h')
  then show ?case using hubClose_no_grant by simp
qed (simp_all add: op_no_grant)

section \<open>What operations leave alone\<close>

definition procKeeps :: "agentProcess \<Rightarrow> agentProcess \<Rightarrow> bool" where
  "procKeeps p p' \<longleftrightarrow> procExit p' = procExit p \<and> (terminal p' = None \<longleftrightarrow> terminal p = None) \<and>
     procDone p' = procDone p"

text \<open>The bytes the agent was sent on its terminal.\<close>

definition ptyInput :: "agentProcess \<Rightarrow> byte list option" where
  "ptyInput p = map_option ttyInput (terminal p)"

definition procQuiet :: "agentProcess \<Rightarrow> agentProcess \<Rightarrow> bool" where
  "procQuiet p p' \<longleftrightarrow> procKeeps p p' \<and> ptyInput p' = ptyInput p"

lemma procKeeps_refl [simp]: "procKeeps p p" "procQuiet p p"
  by (simp_all add: procKeeps_def procQuiet_def)

lemma procWrite_keeps:
  assumes "procWrite wr d p = (r, p')"
  shows "procKeeps p p'" and "ptyInput p' = map_option (\<lambda>i. i @ (if procExit p = None then take (fst (wr d)) d else [])) (ptyInput p)"
  using assms by (auto simp: procWrite_def procKeeps_def ptyInput_def split: option.splits prod.splits if_splits)

lemma procResize_keeps: "procResize ss sz p = (r, p') \<Longrightarrow> procQuiet p p'"
  by (auto simp: procResize_def procQuiet_def procKeeps_def ptyInput_def split: option.splits prod.splits if_splits)

lemma procSignal_keeps: "procQuiet p (snd (procSignal kill sig p))"
  by (auto simp: procSignal_def procQuiet_def procKeeps_def ptyInput_def split: option.splits)

lemma terminate_keeps:
  "procQuiet p (terminateStart kill p)" "procQuiet p (terminateTimeout kill p)"
  "procQuiet p (terminateExited p)"
  by (auto simp: terminateStart_def terminateTimeout_def terminateExited_def procSignal_def
      procQuiet_def procKeeps_def ptyInput_def
      split: option.splits prod.splits)

definition keeps :: "hub \<Rightarrow> hub \<Rightarrow> bool" where
  "keeps h h' \<longleftrightarrow> hReplay h' = hReplay h \<and> hExit h' = hExit h \<and> hState h' = hState h \<and>
     hGeneration h' = hGeneration h \<and> hAgentID h' = hAgentID h \<and>
     rel_option procQuiet (hProcess h) (hProcess h')"

text \<open>The same, but for what was written to the terminal.\<close>

definition wkeeps :: "hub \<Rightarrow> hub \<Rightarrow> bool" where
  "wkeeps h h' \<longleftrightarrow> hReplay h' = hReplay h \<and> hExit h' = hExit h \<and> hState h' = hState h \<and>
     hGeneration h' = hGeneration h \<and> hAgentID h' = hAgentID h \<and>
     rel_option procKeeps (hProcess h) (hProcess h')"

lemma keeps_weak: "keeps h h' \<Longrightarrow> wkeeps h h'"
  by (cases "hProcess h"; cases "hProcess h'") (auto simp: keeps_def wkeeps_def procQuiet_def)

lemma keeps_same:
  "hReplay h' = hReplay h \<Longrightarrow> hExit h' = hExit h \<Longrightarrow> hState h' = hState h \<Longrightarrow>
   hGeneration h' = hGeneration h \<Longrightarrow> hAgentID h' = hAgentID h \<Longrightarrow> hProcess h' = hProcess h \<Longrightarrow> keeps h h'"
  by (simp add: keeps_def option.rel_refl)

lemma keeps_refl [simp]: "keeps h h"
  by (rule keeps_same) simp_all

lemma keeps_trans: "keeps h1 h2 \<Longrightarrow> keeps h2 h3 \<Longrightarrow> keeps h1 h3"
  unfolding keeps_def by (cases "hProcess h1"; cases "hProcess h2"; cases "hProcess h3") (auto simp: procQuiet_def procKeeps_def)

lemma sendLocked_keeps: "keeps h (sendLocked rid a f h)"
  by (simp add: keeps_same frame_simps)

lemma broadcastLocked_keeps: "keeps h (broadcastLocked rid ord f h)"
  unfolding broadcastLocked_def
proof (induction ord arbitrary: h)
  case Nil
  then show ?case by simp
next
  case (Cons i ord)
  have "keeps h (case hSubscribers h i of None \<Rightarrow> h | Some a \<Rightarrow> sendLocked (rid i) a f h)"
    by (auto simp: sendLocked_keeps split: option.splits)
  with Cons.IH keeps_trans show ?case by fastforce
qed

lemma revokeControllerLocked_keeps: "keeps h (revokeControllerLocked rid r h)"
  by (simp add: keeps_same frame_simps)

lemma expireControllerLocked_keeps: "keeps h (expireControllerLocked rid now h)"
  by (simp add: keeps_same frame_simps)

lemma extendLease_keeps: "keeps h (extendLease now P h)"
  by (auto simp: extendLease_def keeps_same split: option.splits)

lemma grantControllerLocked_keeps: "keeps h (grantControllerLocked l n a h)"
  by (auto simp: grantControllerLocked_def keeps_same split: option.splits)

lemma hubSend_keeps: "keeps h (hubSend rid a f h)"
  by (auto simp: hubSend_def sendLocked_keeps split: option.splits)

lemma detach_keeps: "keeps h (detach a h)"
  by (auto simp: detach_def keeps_same split: option.splits)

lemma takeover_keeps: "keeps h (snd (takeover env a h))"
proof -
  have "keeps h (takeoverReady env s h)" for s
    using keeps_trans [OF expireControllerLocked_keeps revokeControllerLocked_keeps]
    by (auto simp: takeoverReady_def Let_def expireControllerLocked_keeps split: option.splits)
  then have *: "keeps h (grantControllerLocked (aeLease env) (aeNow2 env) a (takeoverReady env s h))" for s
    using keeps_trans grantControllerLocked_keeps by blast
  show ?thesis
  proof (cases "\<exists>s. hStore h a = Some s \<and> Control (subPerms s) \<and> hSubscribers h (subID s) \<noteq> None")
    case True
    then show ?thesis using * takeover_ok [of h a _ env] by (auto simp: Let_def)
  next
    case False
    then show ?thesis
      by (cases "hStore h a") (auto simp: takeover_def dest!: takeover_refused [where env = env])
  qed
qed

lemma touch_keeps: "keeps h (touch now a h)"
  by (auto simp: touch_def extendLease_keeps split: option.splits)

lemma acknowledge_keeps: "keeps h (snd (acknowledge now a sq h))"
  by (auto simp: acknowledge_def extendLease_keeps split: option.splits)

lemma authorize_keeps: "keeps h (snd (authorizeControllerLocked rid now a l h))"
  by (auto simp: authorizeControllerLocked_def Let_def expireControllerLocked_keeps split: option.splits)

lemma writeInputBegin_keeps: "keeps h (snd (writeInputBegin rid now a l d h))"
  by (auto simp: writeInputBegin_def authorize_keeps)

lemma hProcess_keeps:
  "hProcess h = Some p \<Longrightarrow> procQuiet p p' \<Longrightarrow> keeps h (h\<lparr>hProcess := Some p'\<rparr>)"
  by (simp add: keeps_def)

lemma writeInputWrite_keeps: "wkeeps h (snd (writeInputWrite wr d h))"
proof (cases "hProcess h")
  case None
  then show ?thesis by (simp add: writeInputWrite_def keeps_weak)
next
  case (Some p)
  obtain r p' where w: "procWrite wr d p = (r, p')" by (rule prod.exhaust)
  with procWrite_keeps(1) [OF this] Some show ?thesis
    by (auto simp: writeInputWrite_def wkeeps_def split: option.splits)
qed

lemma resizeCall_keeps: "keeps h (snd (resizeCall ss sz h))"
  by (auto simp: resizeCall_def split: option.splits prod.splits intro!: hProcess_keeps procResize_keeps)

lemma controlEnd_keeps: "keeps h (controlEnd now a l h)"
  by (auto simp: controlEnd_def extendLease_keeps split: option.splits)

lemma reaperTick_keeps: "keeps h (reaperTick rid now h)"
  by (simp add: reaperTick_def expireControllerLocked_keeps)

lemma hubClose_keeps: "hubClose h = Ok h' \<Longrightarrow> keeps h h'"
  by (auto simp: hubClose_def keeps_same split: if_splits)

lemma attachResize_keeps: "attachResize env req h = (r, h') \<Longrightarrow> keeps h h'"
  by (auto simp: attachResize_def split: if_splits option.splits prod.splits
      intro!: hProcess_keeps procResize_keeps)

lemma attachLease_keeps: "keeps h (attachLease env req h)"
proof -
  let ?h1 = "h\<lparr>hStore := (hStore h)(hNext h \<mapsto> newSubscription env req h), hNext := Suc (hNext h)\<rparr>"
  have "keeps h ?h1" by (simp add: keeps_same)
  moreover from this have "keeps h (revokeControllerLocked (aeRid env) ''takeover'' ?h1)"
    using keeps_trans revokeControllerLocked_keeps by blast
  ultimately show ?thesis
    unfolding attachLease_def Let_def using keeps_trans grantControllerLocked_keeps by simp
qed

lemma attachCommit_keeps: "keeps h (snd (attachCommit env req h))"
  using attachLease_keeps [of h env req]
  by (auto simp: attachCommit_def attachLease_def Let_def keeps_def split: option.splits)

lemma attach_keeps: "keeps h (snd (attach env req h))"
proof (cases "attach_allowed req")
  case False
  then show ?thesis by (simp add: attach_rejected)
next
  case True
  let ?h = "expireControllerLocked (aeRid env) (aeNow env) h"
  obtain r h' where at: "attachLocked env req ?h = (r, h')" by (rule prod.exhaust)
  then have "keeps ?h h'"
    by (cases rule: attachLocked_cases)
      (auto intro: attachResize_keeps keeps_trans [OF attachResize_keeps attachCommit_keeps])
  then show ?thesis using at True keeps_trans [OF expireControllerLocked_keeps]
    by (simp add: attach_accepted)
qed

lemmas op_keeps = hubSend_keeps detach_keeps takeover_keeps touch_keeps acknowledge_keeps
  authorize_keeps writeInputBegin_keeps resizeCall_keeps controlEnd_keeps
  reaperTick_keeps hubClose_keeps attach_keeps

end
