(* ===== verification/Hub_Delivery.thy ===== *)
theory Hub_Delivery
  imports Hub_Safety
begin

text \<open>
  Delivery: in every reachable state the frames a connection has written, together with the
  initial frames and the queue it still has to write, are a contiguous part of the numbered
  output, followed by the exit frame once the agent has exited; for a registered attachment
  nothing is missing at the end.
\<close>

section \<open>Streams\<close>

definition exits :: "hub \<Rightarrow> Frame list" where
  "exits h = (case hExit h of None \<Rightarrow> [] | Some f \<Rightarrow> [f])"

definition fullStream :: "nat \<Rightarrow> sys \<Rightarrow> Frame list" where
  "fullStream k y = drop k (numbered (sLog y)) @ exits (sHub y)"

definition pending :: "sys \<Rightarrow> addr \<Rightarrow> subscription \<Rightarrow> Frame list" where
  "pending y a s = drop (length (sWire y a)) (subInitial s) @ subQueue s"

definition delivered :: "sys \<Rightarrow> addr \<Rightarrow> subscription \<Rightarrow> Frame list" where
  "delivered y a s = stream (sWire y a @ pending y a s)"

text \<open>
  \<open>stream_ok k y a s\<close>: the attachment's stream starts after the first \<open>k\<close> chunks of the
  output and has no hole; \<open>K\<close> gives this position for every attachment.
\<close>

definition stream_ok :: "nat \<Rightarrow> sys \<Rightarrow> addr \<Rightarrow> subscription \<Rightarrow> bool" where
  "stream_ok k y a s \<longleftrightarrow> k \<le> length (sLog y) \<and> prefix (delivered y a s) (fullStream k y) \<and>
     (registered (sHub y) a s \<longrightarrow> delivered y a s = fullStream k y)"

definition streams_inv :: "(addr \<Rightarrow> nat) \<Rightarrow> sys \<Rightarrow> bool" where
  "streams_inv K y \<longleftrightarrow>
     (\<forall>a. case hStore (sHub y) a of None \<Rightarrow> sWire y a = [] | Some s \<Rightarrow> stream_ok (K a) y a s)"

lemma streams_invI:
  assumes "\<And>a. hStore (sHub y) a = None \<Longrightarrow> sWire y a = []"
    and "\<And>a s. hStore (sHub y) a = Some s \<Longrightarrow> stream_ok (K a) y a s"
  shows "streams_inv K y"
  using assms unfolding streams_inv_def by (auto split: option.splits)

lemma streams_invD:
  assumes "streams_inv K y"
  shows "hStore (sHub y) a = None \<Longrightarrow> sWire y a = []"
    and "hStore (sHub y) a = Some s \<Longrightarrow> stream_ok (K a) y a s"
  using spec [OF assms [unfolded streams_inv_def], of a] by simp_all

lemma stream_ok_emits:
  assumes ok: "stream_ok k y a s"
    and e: "sub_emits G (registered (sHub y) a s) s (registered (sHub y') a s') s'"
    and w: "sWire y' a = sWire y a" and len: "length (sLog y) \<le> length (sLog y')"
    and full: "\<And>k. k \<le> length (sLog y) \<Longrightarrow> fullStream k y' = fullStream k y @ G"
  shows "stream_ok k y' a s'"
proof -
  have k: "k \<le> length (sLog y)" "prefix (delivered y a s) (fullStream k y)"
      "registered (sHub y) a s \<longrightarrow> delivered y a s = fullStream k y"
    using ok by (simp_all add: stream_ok_def)
  obtain ext where ext: "subQueue s' = subQueue s @ ext" "subInitial s' = subInitial s"
      "registered (sHub y') a s' \<longrightarrow> registered (sHub y) a s \<and> stream ext = G" "prefix (stream ext) G"
      "\<not> registered (sHub y) a s \<longrightarrow> stream ext = []"
    using e by (auto simp: sub_emits_def)
  have d: "delivered y' a s' = delivered y a s @ stream ext"
    using ext(1,2) w by (simp add: delivered_def pending_def)
  have "prefix (delivered y' a s') (fullStream k y')"
    using k ext(4,5) d full [OF k(1)] by (cases "registered (sHub y) a s") (auto simp: prefix_def)
  moreover have "registered (sHub y') a s' \<longrightarrow> delivered y' a s' = fullStream k y'"
    using k ext(3) d full [OF k(1)] by auto
  ultimately show ?thesis using k(1) len unfolding stream_ok_def by simp
qed

lemma streams_emits:
  assumes inv: "streams_inv K y" and e: "emits (\<lambda>_. G) (sHub y) (sHub y')"
    and w: "sWire y' = sWire y" and len: "length (sLog y) \<le> length (sLog y')"
    and full: "\<And>k. k \<le> length (sLog y) \<Longrightarrow> fullStream k y' = fullStream k y @ G"
  shows "streams_inv K y'"
proof (rule streams_invI)
  fix a assume "hStore (sHub y') a = None"
  then have "hStore (sHub y) a = None" by (cases "hStore (sHub y) a") (auto elim: emits_get [OF e])
  then show "sWire y' a = []" using streams_invD(1) [OF inv] w by simp
next
  fix a s' assume s': "hStore (sHub y') a = Some s'"
  then obtain s where s: "hStore (sHub y) a = Some s"
    using emits_none [OF e] by (cases "hStore (sHub y) a") auto
  from emits_get [OF e this] s' have em: "sub_emits G (registered (sHub y) a s) s (registered (sHub y') a s') s'"
    by (metis option.inject)
  show "stream_ok (K a) y' a s'"
    by (rule stream_ok_emits [OF streams_invD(2) [OF inv s] em _ len full]) (simp_all add: w)
qed

lemma streams_silent:
  assumes "streams_inv K y" "silent (sHub y) (sHub y')" "hExit (sHub y') = hExit (sHub y)"
    "sWire y' = sWire y" "sLog y' = sLog y"
  shows "streams_inv K y'"
  using assms by (intro streams_emits [OF assms(1,2)]) (simp_all add: fullStream_def exits_def)

section \<open>The writers\<close>

lemma delivered_initial:
  assumes "length (sWire y a) < length (subInitial s)"
  shows "delivered (y\<lparr>sWire := (sWire y)(a := sWire y a @ [subInitial s ! length (sWire y a)])\<rparr>) a s =
    delivered y a s"
proof -
  have "drop (length (sWire y a)) (subInitial s) =
      subInitial s ! length (sWire y a) # drop (Suc (length (sWire y a))) (subInitial s)"
    using assms by (simp add: Cons_nth_drop_Suc)
  then have "stream (drop (length (sWire y a)) (subInitial s)) =
      stream [subInitial s ! length (sWire y a)] @ stream (drop (Suc (length (sWire y a))) (subInitial s))"
    by simp
  then show ?thesis by (simp add: delivered_def pending_def)
qed

lemma stream_ok_same:
  assumes "stream_ok k y a s" "delivered y' a s' = delivered y a s" "sLog y' = sLog y"
    "hExit (sHub y') = hExit (sHub y)" "registered (sHub y') a s' \<longrightarrow> registered (sHub y) a s"
  shows "stream_ok k y' a s'"
  using assms by (auto simp: stream_ok_def fullStream_def exits_def)

text \<open>A step of one connection's writer changes that connection only.\<close>

lemma streams_writer:
  assumes inv: "streams_inv K y" and s: "hStore (sHub y) a = Some s"
    and h: "sHub y' = (sHub y)\<lparr>hStore := (hStore (sHub y))(a \<mapsto> s')\<rparr>" "subID s' = subID s"
    and w: "\<And>b. b \<noteq> a \<Longrightarrow> sWire y' b = sWire y b" and l: "sLog y' = sLog y"
    and d: "delivered y' a s' = delivered y a s"
  shows "streams_inv K y'"
proof (rule streams_invI)
  fix b assume "hStore (sHub y') b = None"
  then show "sWire y' b = []" using h w streams_invD(1) [OF inv, of b] by (auto split: if_splits)
next
  fix b t assume t: "hStore (sHub y') b = Some t"
  show "stream_ok (K b) y' b t"
  proof (cases "b = a")
    case True
    with t h have "t = s'" by simp
    with True show ?thesis
      using stream_ok_same [OF streams_invD(2) [OF inv s] d l] h s by (simp add: registered_def)
  next
    case False
    with t h have "stream_ok (K b) y b t" using streams_invD(2) [OF inv] by simp
    then show ?thesis
    proof (rule stream_ok_same)
      show "delivered y' b t = delivered y b t" using w [OF False] by (simp add: delivered_def pending_def)
    qed (use l h False t in \<open>auto simp: registered_def\<close>)
  qed
qed

section \<open>Attaching\<close>

lemma attachLease_silent:
  assumes I: "hub_inv (h\<lparr>hStore := (hStore h)(hNext h \<mapsto> newSubscription env req h), hNext := Suc (hNext h)\<rparr>)"
  shows "silent (h\<lparr>hStore := (hStore h)(hNext h \<mapsto> newSubscription env req h), hNext := Suc (hNext h)\<rparr>)
    (attachLease env req h)"
  using silent_trans [OF revokeControllerLocked_silent [OF I] grantControllerLocked_silent]
    grantControllerLocked_silent
  by (simp add: attachLease_def Let_def)

lemma initialFrames_cong:
  assumes "hReplay h' = hReplay h" "hExit h' = hExit h" "hState h' = hState h"
    "hAgentID h' = hAgentID h" "hGeneration h' = hGeneration h"
  shows "initialFrames h' s c = initialFrames h s c"
proof -
  have "attachedFrame h' s = attachedFrame h s" "replayGapFrame h' = replayGapFrame h"
    using assms by (simp_all add: attachedFrame_def replayGapFrame_def fun_eq_iff)
  then show ?thesis using assms by (cases c) (simp_all add: initialFrames_def replayFrames_def case_prod_beta)
qed

text \<open>What a successful attach leaves: the new object, and the others as they were.\<close>

lemma attachCommit_stores:
  assumes pre: "hub_inv h" "attach_allowed req" "fresh_id (aeID env) h"
    "arRole req = ''control'' \<longrightarrow> \<not> arTakeover req \<longrightarrow> hController h = None"
  defines "h' \<equiv> snd (attachCommit env req h)"
  shows "hStore h' (hNext h) = Some ((attachedSub env req h)\<lparr>subInitial :=
      initialFrames h' (attachedSub env req h) (arAfterSequence req)\<rparr>)"
    and "hSubscribers h' (aeID env) = Some (hNext h)"
    and "a \<noteq> hNext h \<Longrightarrow> hStore h a = None \<Longrightarrow> hStore h' a = None"
    and "hStore h a = Some s \<Longrightarrow> \<exists>s'. hStore h' a = Some s' \<and>
      sub_emits [] (registered h a s) s (registered h' a s') s'"
proof -
  let ?h1 = "h\<lparr>hStore := (hStore h)(hNext h \<mapsto> newSubscription env req h), hNext := Suc (hNext h)\<rparr>"
  let ?h2 = "attachLease env req h"
  have I1: "hub_inv ?h1" using pre(1,3) sub_ok_new [OF pre(2)] by (intro alloc_inv) simp_all
  note q = attachLease_silent [OF I1]
  have h': "h' = ?h2\<lparr>hStore := (hStore ?h2)(hNext h \<mapsto> (attachedSub env req h)\<lparr>subInitial :=
        initialFrames ?h2 (attachedSub env req h) (arAfterSequence req)\<rparr>),
      hSubscribers := (hSubscribers ?h2)(aeID env \<mapsto> hNext h)\<rparr>"
    by (simp add: h'_def attachCommit_eq [OF pre(1-3) pre(4) [rule_format]] Let_def)
  have "initialFrames h' s c = initialFrames ?h2 s c" for s c
    by (rule initialFrames_cong) (simp_all add: h')
  then show "hStore h' (hNext h) = Some ((attachedSub env req h)\<lparr>subInitial :=
      initialFrames h' (attachedSub env req h) (arAfterSequence req)\<rparr>)"
    by (simp add: h')
  show "hSubscribers h' (aeID env) = Some (hNext h)" by (simp add: h')
  show "hStore h' a = None" if "a \<noteq> hNext h" "hStore h a = None"
    using that emits_none [OF q, of a] by (simp add: h')
  show "\<exists>s'. hStore h' a = Some s' \<and> sub_emits [] (registered h a s) s (registered h' a s') s'"
    if s: "hStore h a = Some s"
  proof -
    have an: "a \<noteq> hNext h" using s hub_next_free [OF pre(1)] by auto
    then have s1: "hStore ?h1 a = Some s" "registered ?h1 a s = registered h a s"
      using s by (simp_all add: registered_def)
    from emits_get [OF q s1(1)] obtain s' where s': "hStore ?h2 a = Some s'"
      and e: "sub_emits [] (registered ?h1 a s) s (registered ?h2 a s') s'" .
    have "registered h' a s' \<longrightarrow> registered ?h2 a s'"
      using an s' by (auto simp: registered_def h' split: if_splits)
    with e s1 have "sub_emits [] (registered h a s) s (registered h' a s') s'"
      by (auto simp: sub_emits_def)
    then show ?thesis using an s' by (auto simp: h')
  qed
qed

text \<open>The initial frames carry the retained output past the cursor, and the exit.\<close>

lemma stream_initialFrames:
  assumes R: "represents (hReplay h) log" and c: "cursorValid h cursor"
    and ex: "\<And>f. hExit h = Some f \<Longrightarrow> frType f = ''exit''"
  shows "\<exists>k \<le> length log. stream (initialFrames h s cursor) = drop k (numbered log) @ exits h"
proof -
  have notices: "\<not> streamFrame (attachedFrame h s)" "\<not> streamFrame (replayGapFrame h c)" for c
    by (simp_all add: streamFrame_def attachedFrame_def replayGapFrame_def)
  have x: "stream (case hExit h of None \<Rightarrow> [] | Some f \<Rightarrow> [f]) = exits h"
    using ex by (auto simp: exits_def streamFrame_def split: option.splits)
  have out: "stream (drop k (numbered log)) = drop k (numbered log)" for k
  proof -
    have "\<forall>f \<in> set (numberedFrom n l). streamFrame f" for n l
      by (induction n l rule: numberedFrom.induct) (auto simp: streamFrame_def)
    then show ?thesis by (meson filter_True in_set_dropD)
  qed
  show ?thesis
  proof (cases cursor)
    case None
    then have "stream (initialFrames h s cursor) = drop (length log) (numbered log) @ exits h"
      using notices x by (simp add: initialFrames_def replayFrames_def)
    then show ?thesis by blast
  next
    case (Some cu)
    have le: "unat cu \<le> length log"
    proof (rule ccontr)
      assume "\<not> unat cu \<le> length log"
      then have "cu > latest (hReplay h)" using R by (simp add: represents_def word_less_nat_alt)
      then show False using c Some by (simp add: cursorValid_def after_ahead)
    qed
    let ?k = "max (length log - length (frames (hReplay h))) (unat cu)"
    have "stream (initialFrames h s cursor) = drop ?k (numbered log) @ exits h"
      using notices x out Some after_frames [OF R le] by (simp add: initialFrames_def replayFrames_def)
    moreover have "?k \<le> length log" using le by simp
    ultimately show ?thesis by blast
  qed
qed

lemma cursorValid_keeps: "keeps h h' \<Longrightarrow> cursorValid h' c = cursorValid h c"
  by (simp add: cursorValid_def keeps_def cong: option.case_cong)

lemma streams_attachCommit:
  assumes pre: "hub_inv (sHub y)" "attach_allowed req" "fresh_id (aeID env) (sHub y)"
    "arRole req = ''control'' \<longrightarrow> \<not> arTakeover req \<longrightarrow> hController (sHub y) = None"
    and inv: "streams_inv K y" and R: "represents (hReplay (sHub y)) (sLog y)"
    and cv: "cursorValid (sHub y) (arAfterSequence req)"
    and ex: "\<And>f. hExit (sHub y) = Some f \<Longrightarrow> frType f = ''exit''"
    and y': "sHub y' = snd (attachCommit env req (sHub y))" "sWire y' = sWire y" "sLog y' = sLog y"
  shows "\<exists>k. streams_inv (K(hNext (sHub y) := k)) y'"
proof -
  note st = attachCommit_stores [OF pre]
  have keep: "keeps (sHub y) (sHub y')" unfolding y' by (rule attachCommit_keeps)
  then have core: "hReplay (sHub y') = hReplay (sHub y)" "hExit (sHub y') = hExit (sHub y)"
    by (simp_all add: keeps_def)
  have full: "fullStream k y' = fullStream k y @ []" for k
    using y' core by (simp add: fullStream_def exits_def)
  obtain k where k: "k \<le> length (sLog y)"
      "stream (initialFrames (sHub y') (attachedSub env req (sHub y)) (arAfterSequence req)) =
        drop k (numbered (sLog y)) @ exits (sHub y')"
    using stream_initialFrames [of "sHub y'" "sLog y" "arAfterSequence req" "attachedSub env req (sHub y)"]
      R core ex cv cursorValid_keeps [OF keep] by auto
  have "streams_inv (K(hNext (sHub y) := k)) y'"
  proof (rule streams_invI)
    show "sWire y' a = []" if "hStore (sHub y') a = None" for a
    proof (cases "hStore (sHub y) a")
      case None
      then show ?thesis using streams_invD(1) [OF inv] y' by simp
    next
      case (Some s)
      then show ?thesis using st(4) that y' by fastforce
    qed
    show "stream_ok ((K(hNext (sHub y) := k)) a) y' a s'" if s': "hStore (sHub y') a = Some s'" for a s'
    proof (cases "hStore (sHub y) a")
      case (Some s)
      from st(4) [OF this] s' y'(1) have "sub_emits [] (registered (sHub y) a s) s (registered (sHub y') a s') s'"
        by auto
      from stream_ok_emits [OF streams_invD(2) [OF inv Some] this _ _ full]
      show ?thesis using y' Some hub_next_free [OF pre(1)] by auto
    next
      case None
      with s' y' st(3) have a: "a = hNext (sHub y)" by force
      have wire: "sWire y' a = []" using streams_invD(1) [OF inv None] y' by simp
      have "delivered y' a s' = fullStream k y'"
        using s' st(1) k y' wire unfolding a by (auto simp: delivered_def pending_def fullStream_def)
      then show ?thesis using k(1) y' a by (simp add: stream_ok_def)
    qed
  qed
  then show ?thesis by blast
qed

lemma streams_same_pos: "streams_inv K y \<Longrightarrow> \<exists>k. streams_inv (K(n := k)) y"
  by (metis fun_upd_triv)

lemma streams_attach:
  assumes I: "hub_inv (sHub y)" and f: "fresh_id (aeID env) (sHub y)"
    and inv: "streams_inv K y" and R: "represents (hReplay (sHub y)) (sLog y)"
    and ex: "\<And>f. hExit (sHub y) = Some f \<Longrightarrow> frType f = ''exit''"
    and y': "sHub y' = snd (attach env req (sHub y))" "sWire y' = sWire y" "sLog y' = sLog y"
  shows "\<exists>k. streams_inv (K(hNext (sHub y) := k)) y'"
proof (cases "attach_allowed req")
  case False
  with y' have "sHub y' = sHub y" by (simp add: attach_rejected)
  with y' have "streams_inv K y'" by (intro streams_silent [OF inv]) simp_all
  then show ?thesis by (rule streams_same_pos)
next
  case True
  let ?h = "expireControllerLocked (aeRid env) (aeNow env) (sHub y)"
  have q: "silent (sHub y) ?h" using I by (rule expireControllerLocked_silent)
  have k: "keeps (sHub y) ?h" by (rule expireControllerLocked_keeps)
  obtain r h' where at: "attachLocked env req ?h = (r, h')" by (rule prod.exhaust)
  have yh: "sHub y' = h'" using y' True at by (simp add: attach_accepted)
  have step: "streams_inv K (y\<lparr>sHub := h1\<rparr>) \<and> keeps (sHub y) h1" if "attachResize env req ?h = (r0, h1)" for r0 h1
  proof -
    note fr = attachResize_frame [OF that]
    have "keeps (sHub y) h1" using keeps_trans [OF k attachResize_keeps [OF that]] .
    moreover have "silent (sHub y) h1" using q emits_cong(1) [OF fr(3,4)] by simp
    ultimately show ?thesis by (auto intro!: streams_silent [OF inv] simp: keeps_def)
  qed
  from at show ?thesis
  proof (cases rule: attachLocked_cases)
    case (Rejected e)
    then have "streams_inv K y'" using y' yh q k by (intro streams_silent [OF inv]) (simp_all add: keeps_def)
    then show ?thesis by (rule streams_same_pos)
  next
    case (ResizeFailed r0)
    with step [OF this(1)] y' yh have "streams_inv K y'"
      by (intro streams_silent [of K "y\<lparr>sHub := h'\<rparr>" y']) simp_all
    then show ?thesis by (rule streams_same_pos)
  next
    case (Committed h1)
    note fr = attachResize_frame [OF Committed(1)]
    from step [OF Committed(1)] have s1: "streams_inv K (y\<lparr>sHub := h1\<rparr>)" and k1: "keeps (sHub y) h1" by blast+
    have "hub_inv h1" using fr(1) expireControllerLocked_inv [OF I] by simp
    moreover have "fresh_id (aeID env) h1"
      using same_objects_fresh [OF expireControllerLocked_same f] fr(3) by (simp add: fresh_id_def)
    moreover have "cursorValid h1 (arAfterSequence req)"
      using Committed(2) cursorValid_keeps [OF attachResize_keeps [OF Committed(1)]] by simp
    ultimately have "\<exists>k. streams_inv (K(hNext (sHub (y\<lparr>sHub := h1\<rparr>)) := k)) y'"
      using s1 True Committed(3,5) fr(2) R k1 ex y' yh
      by (intro streams_attachCommit [of "y\<lparr>sHub := h1\<rparr>" req env K y']) (simp_all add: keeps_def)
    moreover have "hNext h1 = hNext (sHub y)" using fr(5) by (simp add: frame_simps)
    ultimately show ?thesis by simp
  qed
qed

section \<open>Attachments persist\<close>

definition objects_kept :: "hub \<Rightarrow> hub \<Rightarrow> bool" where
  "objects_kept h h' \<longleftrightarrow> (\<forall>a s. hStore h a = Some s \<longrightarrow> (\<exists>s'. hStore h' a = Some s' \<and> subID s' = subID s \<and>
     subPerms s' = subPerms s))"

lemma emits_objects: "emits F h h' \<Longrightarrow> objects_kept h h'"
  unfolding objects_kept_def using emits_get by (metis sub_emits_def)

lemma objects_same: "hStore h' = hStore h \<Longrightarrow> objects_kept h h'"
  by (simp add: objects_kept_def)

lemma objects_store: "hStore h a = Some s \<Longrightarrow> subID s' = subID s \<Longrightarrow> subPerms s' = subPerms s \<Longrightarrow>
    objects_kept h (h\<lparr>hStore := (hStore h)(a \<mapsto> s')\<rparr>)"
  by (auto simp: objects_kept_def)

lemma objects_kept_trans: "objects_kept h1 h2 \<Longrightarrow> objects_kept h2 h3 \<Longrightarrow> objects_kept h1 h3"
  unfolding objects_kept_def by metis

lemma attach_objects:
  assumes I: "hub_inv h" and f: "fresh_id (aeID env) h"
  shows "objects_kept h (snd (attach env req h))"
proof (cases "attach_allowed req")
  case False
  then show ?thesis by (simp add: attach_rejected objects_same)
next
  case True
  let ?h = "expireControllerLocked (aeRid env) (aeNow env) h"
  have o: "objects_kept h ?h" using emits_objects [OF expireControllerLocked_silent [OF I]] .
  obtain r h' where at: "attachLocked env req ?h = (r, h')" by (rule prod.exhaust)
  then have "objects_kept ?h h'"
  proof (cases rule: attachLocked_cases)
    case (Rejected e)
    then show ?thesis by (simp add: objects_same)
  next
    case (ResizeFailed r0)
    then show ?thesis by (simp add: objects_same attachResize_frame(3))
  next
    case (Committed h1)
    note fr = attachResize_frame [OF Committed(1)]
    have "hub_inv h1" "fresh_id (aeID env) h1"
      using fr(1,3) expireControllerLocked_inv [OF I] same_objects_fresh [OF expireControllerLocked_same f]
      by (simp_all add: fresh_id_def)
    from attachCommit_stores(4) [OF this(1) True this(2), of _ _] Committed(3,5) fr(2,3)
    show ?thesis unfolding objects_kept_def sub_emits_def by metis
  qed
  then show ?thesis using at True objects_kept_trans [OF o] by (simp add: attach_accepted)
qed

lemma step_objects:
  assumes st: "step fmt y y'" and I: "hub_inv (sHub y)"
  shows "objects_kept (sHub y) (sHub y')"
  using st
proof (cases rule: step.cases)
  case (Output ord rid d)
  then show ?thesis using emits_objects [OF publishOutput_emits [OF I]] by simp
next
  case (Exited e ord rid0 rid)
  show ?thesis
  proof (cases "hExit (sHub y)")
    case None
    then show ?thesis using Exited emits_objects [OF publishExit_emits [OF I]] by simp
  next
    case (Some f)
    then show ?thesis using Exited by (simp add: publishExit_def objects_same)
  qed
next
  case (InputBegin rid now a l d r h')
  then show ?thesis using emits_objects [OF writeInputBegin_silent [OF I], of rid now a l d] by simp
next
  case (ResizeBegin rid now a l r h' sz)
  then show ?thesis using emits_objects [OF authorizeControllerLocked_silent [OF I], of rid now a l] by simp
next
  case (InputWrite a l d wr r h')
  then show ?thesis using emits_objects [OF writeInputWrite_silent, of "sHub y" wr d] by simp
next
  case (ResizeCall a l sz ss r h')
  then show ?thesis using emits_objects [OF resizeCall_silent, of "sHub y" ss sz] by simp
next
  case (CloseSub a s f)
  then show ?thesis by (simp add: objects_store)
next
  case (WriteQueued a s f q)
  then show ?thesis by (simp add: objects_store)
next
  case (HubClose h')
  then show ?thesis by (auto simp: hubClose_def intro!: objects_same split: if_splits)
qed (auto intro!: objects_same attach_objects [OF I] emits_objects [OF controlEnd_silent]
    emits_objects [OF touch_silent] emits_objects [OF acknowledge_silent] emits_objects [OF detach_silent]
    emits_objects [OF takeover_silent [OF I]] emits_objects [OF reaperTick_silent [OF I]]
    emits_objects [OF hubSend_silent [OF I]] simp: setProcess_def)

section \<open>The invariant of the system\<close>

definition exit_inv :: "sys \<Rightarrow> bool" where
  "exit_inv y \<longleftrightarrow>
     (\<forall>f. hExit (sHub y) = Some f \<longrightarrow> frType f = ''exit'' \<and> hState (sHub y) = ''exited'' \<and>
        procExit (theProc y) \<noteq> None) \<and>
     (hExit (sHub y) = None \<longrightarrow> hState (sHub y) = (if serving y then ''running'' else ''starting'')) \<and>
     (procExit (theProc y) \<noteq> None \<longrightarrow> \<not> sReading y) \<and> terminal (theProc y) \<noteq> None"

definition sys_inv :: "(addr \<Rightarrow> nat) \<Rightarrow> sys \<Rightarrow> bool" where
  "sys_inv K y \<longleftrightarrow> hub_inv (sHub y) \<and> represents (hReplay (sHub y)) (sLog y) \<and> exit_inv y \<and> streams_inv K y"

lemma exit_inv_keeps:
  assumes "exit_inv y" "wkeeps (sHub y) (sHub y')" "sProc y' = sProc y" "sReading y' = sReading y"
  shows "exit_inv y'"
  using assms unfolding exit_inv_def wkeeps_def theProc_def procKeeps_def
  by (cases "hProcess (sHub y)"; cases "hProcess (sHub y')") auto

lemma theProc_cong: "hProcess (sHub y') = hProcess (sHub y) \<Longrightarrow> sProc y' = sProc y \<Longrightarrow> theProc y' = theProc y"
  by (cases "hProcess (sHub y)") (simp_all add: theProc_def)

lemma exit_inv_cong:
  assumes "hExit (sHub y') = hExit (sHub y)" "hState (sHub y') = hState (sHub y)"
    "hProcess (sHub y') = hProcess (sHub y)" "sProc y' = sProc y" "sReading y' = sReading y"
  shows "exit_inv y' = exit_inv y"
  using assms theProc_cong [of y' y] by (simp add: exit_inv_def)

lemma sys_inv_write:
  assumes "sys_inv K y" "hub_inv (sHub y')" "wkeeps (sHub y) (sHub y')" "silent (sHub y) (sHub y')"
    "sProc y' = sProc y" "sReading y' = sReading y" "sLog y' = sLog y" "sWire y' = sWire y"
  shows "sys_inv K y'"
  using assms exit_inv_keeps [of y y'] streams_silent [of K y y'] by (simp add: sys_inv_def wkeeps_def)

lemma sys_inv_quiet:
  assumes "sys_inv K y" "hub_inv (sHub y')" "keeps (sHub y) (sHub y')" "silent (sHub y) (sHub y')"
    "sProc y' = sProc y" "sReading y' = sReading y" "sLog y' = sLog y" "sWire y' = sWire y"
  shows "sys_inv K y'"
  using assms keeps_weak by (intro sys_inv_write [of K y y']) simp_all

lemma sys_inv_proc:
  assumes "sys_inv K y" "procQuiet (theProc y) p"
  shows "sys_inv K (setProc p y)"
proof -
  have "silent (sHub y) (sHub (setProc p y))"
    by (auto simp: setProc_def split: option.splits)
  moreover have "serving (setProc p y) = serving y" by (simp add: setProc_def split: option.splits)
  ultimately show ?thesis
    using assms streams_silent [of K y "setProc p y"]
    by (auto simp: sys_inv_def exit_inv_def procQuiet_def procKeeps_def)
qed

lemma sys_inv_cong:
  assumes "sys_inv K y" "sHub y' = sHub y" "sProc y' = sProc y" "sLog y' = sLog y" "sWire y' = sWire y"
    "sReading y' \<longrightarrow> sReading y"
  shows "sys_inv K y'"
  using assms streams_silent [of K y y'] theProc_cong [of y' y] by (auto simp: sys_inv_def exit_inv_def)

lemma started_sys_inv: "started y \<Longrightarrow> sys_inv K y"
  using started_hub_inv [of y]
  by (auto simp: started_def sys_inv_def sysInit_def exit_inv_def theProc_def
      streams_inv_def newHub_def newReplayBuffer_represents)

lemma publishOutput_sys_inv:
  assumes inv: "sys_inv K y" and rd: "sReading y" "Suc (length (sLog y)) < seqLimit"
    and ord: "enumerates ord (hSubscribers (sHub y))"
  shows "sys_inv K (y\<lparr>sHub := publishOutput rid ord d (sHub y), sLog := sLog y @ [d]\<rparr>)"
proof -
  let ?h' = "publishOutput rid ord d (sHub y)" and ?b = "snd (appendOutput d (hReplay (sHub y)))"
  have I: "hub_inv (sHub y)" and R: "represents (hReplay (sHub y)) (sLog y)"
    and X: "exit_inv y" and S: "streams_inv K y"
    using inv by (simp_all add: sys_inv_def)
  have "keeps ((sHub y)\<lparr>hReplay := ?b\<rparr>) ?h'"
    by (simp add: publishOutput_def broadcastLocked_keeps case_prod_beta)
  then have kp: "hReplay ?h' = ?b" "keeps (sHub y) (?h'\<lparr>hReplay := hReplay (sHub y)\<rparr>)"
    by (simp_all add: keeps_def)
  have "hExit (sHub y) = None" using X rd(1) by (cases "hExit (sHub y)") (auto simp: exit_inv_def)
  then have full: "fullStream k (y\<lparr>sHub := ?h', sLog := sLog y @ [d]\<rparr>) =
      fullStream k y @ [outputFrame (latest (hReplay (sHub y)) + 1) d]" if "k \<le> length (sLog y)" for k
    using that kp(2) by (simp add: fullStream_def exits_def keeps_def numbered_snoc represents_latest [OF R])
  have "streams_inv K (y\<lparr>sHub := ?h', sLog := sLog y @ [d]\<rparr>)"
    by (rule streams_emits [OF S _ _ _ full]) (simp_all add: publishOutput_emits [OF I ord])
  moreover have "exit_inv (y\<lparr>sHub := ?h'\<lparr>hReplay := hReplay (sHub y)\<rparr>\<rparr>)"
    by (rule exit_inv_keeps [OF X]) (simp_all add: keeps_weak [OF kp(2)])
  then have "exit_inv (y\<lparr>sHub := ?h', sLog := sLog y @ [d]\<rparr>)"
    by (rule exit_inv_cong [THEN iffD1, rotated 5]) simp_all
  moreover have "represents ?b (sLog y @ [d])" using R rd(2) by (intro appendOutput_represents) simp_all
  ultimately show ?thesis using kp(1) publishOutput_inv [OF I] by (simp add: sys_inv_def)
qed

lemma publishExit_keeps:
  assumes "hExit h = None"
  shows "keeps (h\<lparr>hState := ''exited'', hExit := Some (exitFrame fmt (hGeneration h) e)\<rparr>)
    (publishExit fmt rid0 rid ord e h)"
  using assms keeps_trans [OF revokeControllerLocked_keeps broadcastLocked_keeps]
  by (simp add: publishExit_def Let_def)

lemma publishExit_sys_inv:
  assumes inv: "sys_inv K y" and e: "procExit (theProc y) = Some e"
    and ord: "enumerates ord (hSubscribers (revokeControllerLocked rid0 ''agent_stopped'' (sHub y)))"
  shows "sys_inv K (y\<lparr>sHub := publishExit fmt rid0 rid ord e (sHub y)\<rparr>)"
proof (cases "hExit (sHub y)")
  case (Some f)
  then show ?thesis using inv by (simp add: publishExit_def)
next
  case None
  let ?f = "exitFrame fmt (hGeneration (sHub y)) e" and ?h' = "publishExit fmt rid0 rid ord e (sHub y)"
  have I: "hub_inv (sHub y)" and R: "represents (hReplay (sHub y)) (sLog y)"
    and X: "exit_inv y" and S: "streams_inv K y"
    using inv by (simp_all add: sys_inv_def)
  note kp = publishExit_keeps [OF None, of fmt e rid0 rid ord]
  have full: "fullStream k (y\<lparr>sHub := ?h'\<rparr>) = fullStream k y @ [?f]" for k
    using kp None by (simp add: fullStream_def exits_def keeps_def)
  have "streams_inv K (y\<lparr>sHub := ?h'\<rparr>)"
    by (rule streams_emits [OF S _ _ _ full]) (simp_all add: publishExit_emits [OF I None ord])
  moreover have "exit_inv (y\<lparr>sHub := ?h'\<rparr>)"
    using kp X e unfolding exit_inv_def keeps_def theProc_def procQuiet_def procKeeps_def
    by (cases "hProcess (sHub y)"; cases "hProcess ?h'") auto
  ultimately show ?thesis using kp R publishExit_inv [OF I] by (simp add: sys_inv_def keeps_def)
qed

lemma writer_sys_inv:
  assumes "sys_inv K y" "hStore (sHub y) a = Some s" "hub_inv (sHub y')"
    "sHub y' = (sHub y)\<lparr>hStore := (hStore (sHub y))(a \<mapsto> s')\<rparr>" "subID s' = subID s"
    "\<And>b. b \<noteq> a \<Longrightarrow> sWire y' b = sWire y b" "sLog y' = sLog y"
    "delivered y' a s' = delivered y a s" "sProc y' = sProc y" "sReading y' = sReading y"
  shows "sys_inv K y'"
proof -
  have "streams_inv K y'" using assms by (intro streams_writer [of K y a s y' s']) (simp_all add: sys_inv_def)
  moreover have "exit_inv y' = exit_inv y" using assms by (intro exit_inv_cong) simp_all
  ultimately show ?thesis using assms by (simp add: sys_inv_def)
qed

lemma step_sys_inv:
  assumes st: "step fmt y y'" and inv: "sys_inv K y"
  shows "\<exists>k. sys_inv (K(hNext (sHub y) := k)) y'"
proof -
  have I: "hub_inv (sHub y)" using inv by (simp add: sys_inv_def)
  have I': "hub_inv (sHub y')" using step_hub_inv [OF st I] .
  note quiet = sys_inv_quiet [OF inv]
  have "sys_inv K y' \<or> ?thesis" using st
  proof (cases rule: step.cases)
    case SetProcess
    have "silent (sHub y) (sHub y')" using SetProcess by (simp add: setProcess_def emits_cong)
    then show ?thesis
      using SetProcess inv I' streams_silent [of K y y']
      by (auto simp: sys_inv_def setProcess_def exit_inv_def theProc_def)
  next
    case (Output ord rid d)
    then show ?thesis using publishOutput_sys_inv [OF inv] by (intro disjI1) simp
  next
    case ReadEnd
    then show ?thesis by (intro disjI1 sys_inv_cong [OF inv]) simp_all
  next
    case (Reaped now w)
    have "silent (sHub y) (sHub y')" using Reaped by (auto simp: setProc_def split: option.splits)
    moreover have "serving y' = serving y" using Reaped by (simp add: setProc_def split: option.splits)
    ultimately show ?thesis
      using Reaped inv I' streams_silent [of K y y']
      by (auto simp: sys_inv_def exit_inv_def waitRecord_def Let_def)
  next
    case (Exited e ord rid0 rid)
    then show ?thesis using publishExit_sys_inv [OF inv] by (intro disjI1) simp
  next
    case ExitDone
    have "silent (sHub y) (sHub y')" using ExitDone by (auto simp: setProc_def split: option.splits)
    moreover have "serving y' = serving y" using ExitDone by (simp add: setProc_def split: option.splits)
    ultimately show ?thesis
      using ExitDone inv I' streams_silent [of K y y']
      by (auto simp: sys_inv_def exit_inv_def waitDone_def)
  next
    case (Attach env req)
    have "\<exists>k. streams_inv (K(hNext (sHub y) := k)) y'"
      using Attach inv by (intro streams_attach [of y env K y' req]) (auto simp: sys_inv_def exit_inv_def)
    moreover have k: "keeps (sHub y) (sHub y')" using Attach attach_keeps by simp
    moreover have "exit_inv y'" using Attach inv keeps_weak [OF k] by (intro exit_inv_keeps [of y y']) (simp_all add: sys_inv_def)
    ultimately show ?thesis using Attach inv I' by (simp add: sys_inv_def keeps_def)
  next
    case (InputBegin rid now a l d r h')
    then show ?thesis using I' writeInputBegin_keeps [of "sHub y" rid now a l d]
      writeInputBegin_silent [OF I, of rid now a l d] by (intro disjI1 quiet) simp_all
  next
    case (ResizeBegin rid now a l r h' sz)
    then show ?thesis using I' authorize_keeps [of "sHub y" rid now a l]
      authorizeControllerLocked_silent [OF I, of rid now a l] by (intro disjI1 quiet) simp_all
  next
    case (InputWrite a l d wr r h')
    then show ?thesis using I' writeInputWrite_keeps [of "sHub y" wr d]
      writeInputWrite_silent [of "sHub y" wr d] by (intro disjI1 sys_inv_write [OF inv]) simp_all
  next
    case (ResizeCall a l sz ss r h')
    then show ?thesis using I' resizeCall_keeps [of "sHub y" ss sz]
      resizeCall_silent [of "sHub y" ss sz] by (intro disjI1 quiet) simp_all
  next
    case (CloseSub a s f)
    then show ?thesis using I'
      by (intro disjI1 quiet) (auto simp: keeps_same intro!: store_silent)
  next
    case (HubClose h')
    then have "hStore h' = hStore (sHub y)" "hSubscribers h' = hSubscribers (sHub y)"
      by (auto simp: hubClose_def split: if_splits)
    then have "silent (sHub y) h'" using emits_cong(1) emits_refl by blast
    then show ?thesis using HubClose I' hubClose_keeps by (intro disjI1 quiet) simp_all
  next
    case (WriteInitial a s)
    then show ?thesis using I'
      by (intro disjI1 writer_sys_inv [OF inv, of a s y' s]) (simp_all add: delivered_initial fun_upd_idem)
  next
    case (WriteQueued a s f q)
    then show ?thesis using I'
      by (intro disjI1 writer_sys_inv [OF inv, of a s y' "s\<lparr>subQueue := q\<rparr>"])
        (simp_all add: delivered_def pending_def)
  next
    case (WriteReason a s)
    then have "\<not> streamFrame (closeReason s)"
      using hub_sub_get [OF I] by (simp add: sub_ok_def closeReason_def)
    with WriteReason show ?thesis using I'
      by (intro disjI1 writer_sys_inv [OF inv, of a s y' s])
        (simp_all add: delivered_def pending_def fun_upd_idem)
  next
    case (WriterStops a)
    then show ?thesis by (intro disjI1 sys_inv_cong [OF inv]) simp_all
  qed (use inv I' in \<open>auto intro!: disjI1 quiet sys_inv_proc simp: op_keeps procSignal_keeps terminate_keeps
      detach_silent takeover_silent [OF I] touch_silent acknowledge_silent controlEnd_silent
      hubSend_silent [OF I] reaperTick_silent [OF I]\<close>)
  then show ?thesis by (metis fun_upd_triv)
qed

lemma reachable_sys_inv: "reachable fmt y \<Longrightarrow> \<exists>K. sys_inv K y"
proof (induction rule: reachable.induct)
  case (reachable_init y)
  then show ?case using started_sys_inv by blast
next
  case (reachable_step y y')
  then show ?case using step_sys_inv by blast
qed

text \<open>Along a run, the position of an attachment that exists does not change.\<close>

lemma steps_sys_inv:
  "steps fmt y y' \<Longrightarrow> sys_inv K y \<Longrightarrow> hStore (sHub y) a \<noteq> None \<Longrightarrow>
     \<exists>K'. sys_inv K' y' \<and> K' a = K a \<and> hStore (sHub y') a \<noteq> None"
proof (induction rule: steps.induct)
  case (steps_refl y)
  then show ?case by blast
next
  case (steps_step y y' y'')
  then obtain K' where K': "sys_inv K' y'" "K' a = K a" "hStore (sHub y') a \<noteq> None" by blast
  from step_sys_inv [OF steps_step.hyps(2) K'(1)]
  obtain k where k: "sys_inv (K'(hNext (sHub y') := k)) y''" by blast
  have "a \<noteq> hNext (sHub y')" using K' hub_next_free by (auto simp: sys_inv_def)
  moreover have "hStore (sHub y'') a \<noteq> None"
    using K' step_objects [OF steps_step.hyps(2)] by (auto simp: sys_inv_def objects_kept_def)
  moreover have "(K'(hNext (sHub y') := k)) a = K a" using K' calculation by simp
  ultimately show ?case using k by blast
qed

end
