(* ===== verification/Hub_Control.thy ===== *)
theory Hub_Control
  imports Hub_Delivery
begin

text \<open>
  Who may write to the agent: lease identifiers are used once, a lease that is no longer
  current stays so, and while a call authorised by a lease is in progress no other lease
  exists.
\<close>

section \<open>The invariant\<close>

definition holder_inv :: "sys \<Rightarrow> bool" where
  "holder_inv y \<longleftrightarrow> (\<forall>k. sHolder y = Some k \<longrightarrow> (\<exists>s. hStore (sHub y) (ctlAddr k) = Some s \<and>
     Control (subPerms s) \<and> ctlLease k \<in> set (sLeases y) \<and> (\<forall>c. hController (sHub y) = Some c \<longrightarrow> clAttachmentID c = subID s \<and> clLeaseID c = ctlLease k)))"

definition lease_inv :: "sys \<Rightarrow> bool" where
  "lease_inv y \<longleftrightarrow> distinct (sLeases y) \<and>
     (\<forall>c. hController (sHub y) = Some c \<longrightarrow> clLeaseID c \<in> set (sLeases y))"

lemma step_lease_inv: "step fmt y y' \<Longrightarrow> lease_inv y \<Longrightarrow> lease_inv y'"
  using step_lease [of fmt y y']
  by (auto simp: lease_inv_def no_grant_def grants_only_def)

lemma authorize_ok:
  assumes "authorizeControllerLocked rid now a l h = (None, h')"
  shows "\<exists>c s. hController h' = Some c \<and> hStore h' a = Some s \<and> clAttachmentID c = subID s \<and> clLeaseID c = l \<and>
    h' = expireControllerLocked rid now h"
  using assms by (auto simp: authorizeControllerLocked_def Let_def split: option.splits if_splits)

lemma lease_holder:
  assumes I: "hub_inv h" and c: "hController h = Some c" and s: "hStore h a = Some s" "clAttachmentID c = subID s"
  shows "holds_lease c s" and "Control (subPerms s)"
proof -
  obtain a' s' where s': "hStore h a' = Some s'" "holds_lease c s'"
    using I c by (auto simp: hub_inv_def hub_lease_def)
  have "a' = a" using hub_inv_uniq [OF I s(1) s'(1)] s'(2) s(2) by (simp add: holds_lease_def)
  with s' s show "holds_lease c s" by simp
  with hub_sub_get [OF I s(1)] show "Control (subPerms s)" by (simp add: holds_lease_def sub_ok_def)
qed

lemma holder_inv_begin:
  assumes "authorizeControllerLocked rid now a l h = (None, h')" "ctlAddr k = a" "ctlLease k = l"
    "sHub y' = h'" "sHolder y' = Some k" "hub_inv h'" "lease_inv y'"
  shows "holder_inv y'"
proof -
  obtain c s where cs: "hController h' = Some c" "hStore h' a = Some s" "clAttachmentID c = subID s" "clLeaseID c = l"
    using authorize_ok [OF assms(1)] by blast
  then have "Control (subPerms s)" using lease_holder(2) assms(6) by blast
  moreover have "l \<in> set (sLeases y')" using assms(4,7) cs by (auto simp: lease_inv_def)
  ultimately show ?thesis using cs assms(2-5) by (simp add: holder_inv_def)
qed

lemma holder_inv_kept:
  assumes inv: "holder_inv y" and k: "sHolder y = Some k" "sHolder y' = Some k'" "ctlAddr k' = ctlAddr k"
    "ctlLease k' = ctlLease k" and ob: "objects_kept (sHub y) (sHub y')" and ng: "no_grant (sHub y) (sHub y')"
    and ls: "sLeases y' = sLeases y"
  shows "holder_inv y'"
proof -
  obtain s where s: "hStore (sHub y) (ctlAddr k) = Some s" "Control (subPerms s)" "ctlLease k \<in> set (sLeases y)"
      "\<forall>c. hController (sHub y) = Some c \<longrightarrow> clAttachmentID c = subID s \<and> clLeaseID c = ctlLease k"
    using inv k(1) by (auto simp: holder_inv_def)
  then obtain s' where "hStore (sHub y') (ctlAddr k) = Some s'" "subID s' = subID s" "subPerms s' = subPerms s"
    using ob unfolding objects_kept_def by blast
  then show ?thesis using s k ng ls by (auto simp: holder_inv_def no_grant_def)
qed

text \<open>How a step changes the call that holds \<open>controlMu\<close>.\<close>

lemma step_holder:
  assumes st: "step fmt y y'" and k': "sHolder y' = Some k'"
  shows "(\<exists>k. sHolder y = Some k \<and> ctlAddr k' = ctlAddr k \<and> ctlLease k' = ctlLease k) \<or>
    (\<exists>rid now. authorizeControllerLocked rid now (ctlAddr k') (ctlLease k') (sHub y) = (None, sHub y'))"
  using st k'
proof (cases rule: step.cases)
  case (InputBegin rid now a l d r h')
  then show ?thesis using k' by (auto simp: writeInputBegin_def split: if_splits) blast
next
  case (ResizeBegin rid now a l r h' sz)
  then show ?thesis using k' by (auto split: if_splits) blast
qed (auto split: if_splits)

lemma step_holder_inv:
  assumes st: "step fmt y y'" and I: "hub_inv (sHub y)" and inv: "holder_inv y" "lease_inv y"
  shows "holder_inv y'"
proof (cases "sHolder y'")
  case None
  then show ?thesis by (simp add: holder_inv_def)
next
  case (Some k')
  from step_holder [OF st Some] show ?thesis
  proof (elim disjE exE conjE)
    fix k assume k: "sHolder y = Some k" "ctlAddr k' = ctlAddr k" "ctlLease k' = ctlLease k"
    have "objects_kept (sHub y) (sHub y')" by (rule step_objects [OF st I])
    moreover have "no_grant (sHub y) (sHub y')" "sLeases y' = sLeases y" using step_lease [OF st] k(1) by auto
    ultimately show ?thesis using holder_inv_kept [OF inv(1) k(1) Some k(2,3)] by blast
  next
    fix rid now assume "authorizeControllerLocked rid now (ctlAddr k') (ctlLease k') (sHub y) = (None, sHub y')"
    from holder_inv_begin [OF this refl refl refl Some step_hub_inv [OF st I] step_lease_inv [OF st inv(2)]]
    show ?thesis .
  qed
qed

lemma reachable_control: "reachable fmt y \<Longrightarrow> lease_inv y \<and> holder_inv y"
proof (induction rule: reachable.induct)
  case (reachable_init y)
  then show ?case by (auto simp: started_def sysInit_def lease_inv_def holder_inv_def newHub_def)
next
  case (reachable_step y y')
  then show ?case using step_lease_inv step_holder_inv reachable_hub_inv by blast
qed

section \<open>Leases end for good\<close>

definition retired :: "string \<Rightarrow> sys \<Rightarrow> bool" where
  "retired l y \<longleftrightarrow> l \<in> set (sLeases y) \<and> (\<forall>c. hController (sHub y) = Some c \<longrightarrow> clLeaseID c \<noteq> l)"

lemma step_retired: "step fmt y y' \<Longrightarrow> retired l y \<Longrightarrow> retired l y'"
  using step_lease [of fmt y y']
  by (auto simp: retired_def no_grant_def grants_only_def)

lemma steps_retired: "steps fmt y y' \<Longrightarrow> retired l y \<Longrightarrow> retired l y'"
  by (induction rule: steps.induct) (auto intro: step_retired)

lemma expireControllerLocked_retired:
  "retired l y \<Longrightarrow> hController (expireControllerLocked rid now (sHub y)) = Some c \<Longrightarrow> clLeaseID c \<noteq> l"
  using expireControllerLocked_no_grant [of "sHub y" rid now]
  by (auto simp: retired_def no_grant_def)

end
