(* ===== verification/Base64.thy ===== *)
theory Base64
  imports GoText
begin

text \<open>
  Go's \<^verbatim>\<open>encoding/base64\<close> as the sources use it: \<open>RawURLEncoding\<close> (capabilities) and
  \<open>StdEncoding\<close> (JSON \<open>[]byte\<close> fields). The decoder skips line breaks, rejects characters
  outside the alphabet and wrong padding, and ignores the unused low bits of the last digit.
\<close>

section \<open>Alphabets\<close>

definition stdAlphabet :: string where
  "stdAlphabet = ''ABCDEFGHIJKLMNOPQRSTUVWXYZabcdefghijklmnopqrstuvwxyz0123456789+/''"

definition urlAlphabet :: string where
  "urlAlphabet = ''ABCDEFGHIJKLMNOPQRSTUVWXYZabcdefghijklmnopqrstuvwxyz0123456789-_''"

fun indexIn :: "char \<Rightarrow> string \<Rightarrow> nat option" where
  "indexIn c [] = None"
| "indexIn c (x # xs) = (if x = c then Some 0 else map_option Suc (indexIn c xs))"

lemma indexIn_nth: "distinct al \<Longrightarrow> i < length al \<Longrightarrow> indexIn (al ! i) al = Some i"
  by (induction al arbitrary: i) (auto simp: nth_Cons split: nat.splits)

lemma indexIn_bound: "indexIn c al = Some i \<Longrightarrow> i < length al"
  by (induction al arbitrary: i) (auto split: if_splits)

section \<open>Encoding without padding\<close>

text \<open>Bytes are natural numbers below 256.\<close>

fun encodeDigits :: "nat list \<Rightarrow> nat list" where
  "encodeDigits [] = []"
| "encodeDigits [x] = [x div 4, (x mod 4) * 16]"
| "encodeDigits [x, y] = [x div 4, (x mod 4) * 16 + y div 16, (y mod 16) * 4]"
| "encodeDigits (x # y # z # rest) =
     [x div 4, (x mod 4) * 16 + y div 16, (y mod 16) * 4 + z div 64, z mod 64] @ encodeDigits rest"

fun decodeDigits :: "nat list \<Rightarrow> nat list option" where
  "decodeDigits [] = Some []"
| "decodeDigits [a] = None"
| "decodeDigits [a, b] = Some [a * 4 + b div 16]"
| "decodeDigits [a, b, c] = Some [a * 4 + b div 16, (b mod 16) * 16 + c div 4]"
| "decodeDigits (a # b # c # d # rest) =
     map_option (\<lambda>ns. [a * 4 + b div 16, (b mod 16) * 16 + c div 4, (c mod 4) * 64 + d] @ ns) (decodeDigits rest)"

lemma encodeDigits_bound: "\<forall>x \<in> set ns. x < 256 \<Longrightarrow> \<forall>d \<in> set (encodeDigits ns). d < 64"
  by (induction ns rule: encodeDigits.induct) auto

text \<open>Gluing digits together and taking them apart again.\<close>

lemma digit_glue:
  fixes q r m :: nat
  assumes "r < m"
  shows "(q * m + r) div m = q" and "(q * m + r) mod m = r"
  using assms by simp_all

lemma quantum_first:
  assumes "y < 256"
  shows "(x div 4) * 4 + ((x mod 4) * 16 + y div 16) div 16 = (x :: nat)"
proof -
  have "y div 16 < 16" using assms by (simp add: div_less_iff_less_mult)
  from digit_glue(1) [OF this, of "x mod 4"] show ?thesis by simp
qed

lemma quantum_second:
  assumes "y < 256" "z < 256"
  shows "(((x mod 4) * 16 + y div 16) mod 16) * 16 + ((y mod 16) * 4 + z div 64) div 4 = (y :: nat)"
proof -
  have "y div 16 < 16" "z div 64 < 4" using assms by (simp_all add: div_less_iff_less_mult)
  from digit_glue(2) [OF this(1), of "x mod 4"] digit_glue(1) [OF this(2), of "y mod 16"]
  show ?thesis by simp
qed

lemma quantum_third:
  assumes "z < 256"
  shows "(((y mod 16) * 4 + z div 64) mod 4) * 64 + z mod 64 = (z :: nat)"
proof -
  have "z div 64 < 4" using assms by (simp add: div_less_iff_less_mult)
  from digit_glue(2) [OF this, of "y mod 16"] show ?thesis by simp
qed

lemma decode_encodeDigits: "\<forall>x \<in> set ns. x < 256 \<Longrightarrow> decodeDigits (encodeDigits ns) = Some ns"
proof (induction ns rule: encodeDigits.induct)
  case (2 x)
  then show ?case by simp
next
  case (3 x y)
  then show ?case using quantum_first [of y x] quantum_second [of y 0 x] by simp
next
  case (4 x y z rest)
  then show ?case using quantum_first [of y x] quantum_second [of y z x] quantum_third [of z y] by simp
qed simp

definition bytesOf :: "string \<Rightarrow> nat list" where
  "bytesOf s = map of_char s"

lemma bytesOf_bound: "\<forall>x \<in> set (bytesOf s). x < 256"
  by (auto simp: bytesOf_def)

lemma char_of_bytesOf [simp]: "map char_of (bytesOf s) = s"
  by (simp add: bytesOf_def comp_def)

definition encodeRaw :: "string \<Rightarrow> string \<Rightarrow> string" where
  "encodeRaw al s = map ((!) al) (encodeDigits (bytesOf s))"

text \<open>All characters read as digits, or nothing.\<close>

fun readDigits :: "string \<Rightarrow> string \<Rightarrow> nat list option" where
  "readDigits al [] = Some []"
| "readDigits al (c # cs) =
     (case indexIn c al of None \<Rightarrow> None | Some d \<Rightarrow> map_option ((#) d) (readDigits al cs))"

definition lineBreak :: "char \<Rightarrow> bool" where
  "lineBreak c = (c = CHR 0x0A \<or> c = CHR 0x0D)"

definition decodeRaw :: "string \<Rightarrow> string \<Rightarrow> string option" where
  "decodeRaw al s =
     (case readDigits al (filter (\<lambda>c. \<not> lineBreak c) s) of
        None \<Rightarrow> None
      | Some ds \<Rightarrow> map_option (map char_of) (decodeDigits ds))"

lemma readDigits_nth:
  "distinct al \<Longrightarrow> \<forall>d \<in> set ds. d < length al \<Longrightarrow> readDigits al (map ((!) al) ds) = Some ds"
  by (induction ds) (simp_all add: indexIn_nth)

lemma decode_encodeRaw:
  assumes "distinct al" "length al = 64" "\<forall>c \<in> set al. \<not> lineBreak c"
  shows "decodeRaw al (encodeRaw al s) = Some s"
proof -
  have ds: "\<forall>d \<in> set (encodeDigits (bytesOf s)). d < length al"
    using encodeDigits_bound [OF bytesOf_bound [of s]] assms(2) by simp
  then have "\<forall>c \<in> set (encodeRaw al s). \<not> lineBreak c"
    using assms(3) by (auto simp: encodeRaw_def)
  then have "filter (\<lambda>c. \<not> lineBreak c) (encodeRaw al s) = encodeRaw al s" by (simp add: filter_id_conv)
  then show ?thesis
    using readDigits_nth [OF assms(1) ds] decode_encodeDigits [OF bytesOf_bound [of s]]
    by (simp add: decodeRaw_def encodeRaw_def)
qed

lemma encodeRaw_chars:
  assumes "length al = 64"
  shows "set (encodeRaw al s) \<subseteq> set al"
  using encodeDigits_bound [OF bytesOf_bound [of s]] assms by (auto simp: encodeRaw_def)

section \<open>Padding\<close>

definition padChar :: char where
  "padChar = CHR ''=''"

definition encodeStd :: "string \<Rightarrow> string" where
  "encodeStd s = (let e = encodeRaw stdAlphabet s in e @ replicate ((4 - length e mod 4) mod 4) padChar)"

text \<open>
  With padding, the last quantum of four must end in the right number of padding characters
  and nothing may follow it.
\<close>

definition decodeStd :: "string \<Rightarrow> string option" where
  "decodeStd s =
     (let t = filter (\<lambda>c. \<not> lineBreak c) s;
          body = takeWhile (\<lambda>c. c \<noteq> padChar) t;
          pad = dropWhile (\<lambda>c. c \<noteq> padChar) t
      in if length t mod 4 \<noteq> 0 \<or> length pad > 2 \<or> set pad \<subseteq> {padChar} = False then None
         else decodeRaw stdAlphabet body)"

section \<open>The URL alphabet\<close>

lemma urlAlphabet_ok: "distinct urlAlphabet" "length urlAlphabet = 64" "\<forall>c \<in> set urlAlphabet. \<not> lineBreak c"
  by (simp_all add: urlAlphabet_def lineBreak_def)

lemma stdAlphabet_ok: "distinct stdAlphabet" "length stdAlphabet = 64" "\<forall>c \<in> set stdAlphabet. \<not> lineBreak c"
  "padChar \<notin> set stdAlphabet"
  by (simp_all add: stdAlphabet_def lineBreak_def padChar_def)

definition encodeURL :: "string \<Rightarrow> string" where
  "encodeURL = encodeRaw urlAlphabet"

definition decodeURL :: "string \<Rightarrow> string option" where
  "decodeURL = decodeRaw urlAlphabet"

lemma decode_encodeURL [simp]: "decodeURL (encodeURL s) = Some s"
  unfolding decodeURL_def encodeURL_def by (rule decode_encodeRaw [OF urlAlphabet_ok])

lemma encodeURL_no_dot: "CHR ''.'' \<notin> set (encodeURL s)"
  using encodeRaw_chars [OF urlAlphabet_ok(2), of s] by (auto simp: encodeURL_def urlAlphabet_def)

lemma length_encodeDigits: "length (encodeDigits ns) mod 4 \<noteq> 1"
  by (induction ns rule: encodeDigits.induct) auto

lemma pad_length: "(n + (4 - n mod 4) mod 4) mod (4 :: nat) = 0"
proof -
  have "(n + (4 - n mod 4) mod 4) mod 4 = (n mod 4 + (4 - n mod 4) mod 4) mod 4" by (simp add: mod_add_left_eq)
  also have "\<dots> = (n mod 4 + (4 - n mod 4)) mod 4" by (simp add: mod_add_right_eq)
  also have "n mod 4 + (4 - n mod 4) = 4" by (simp add: le_less)
  finally show ?thesis by simp
qed

lemma decode_encodeStd: "decodeStd (encodeStd s) = Some s"
proof -
  let ?e = "encodeRaw stdAlphabet s" and ?n = "(4 - length (encodeRaw stdAlphabet s) mod 4) mod 4"
  have chars: "set ?e \<subseteq> set stdAlphabet" by (rule encodeRaw_chars [OF stdAlphabet_ok(2)])
  have nb: "\<forall>c \<in> set ?e. \<not> lineBreak c" and np: "\<forall>c \<in> set ?e. c \<noteq> padChar"
    using chars stdAlphabet_ok(3,4) by blast+
  have "\<not> lineBreak padChar" by (simp add: lineBreak_def padChar_def)
  then have t: "filter (\<lambda>c. \<not> lineBreak c) (encodeStd s) = ?e @ replicate ?n padChar"
    using nb by (simp add: encodeStd_def Let_def filter_id_conv)
  have body: "takeWhile (\<lambda>c. c \<noteq> padChar) (?e @ replicate ?n padChar) = ?e"
    "dropWhile (\<lambda>c. c \<noteq> padChar) (?e @ replicate ?n padChar) = replicate ?n padChar"
    using np by (cases ?n; simp)+
  have "length ?e mod 4 \<noteq> 1" using length_encodeDigits by (simp add: encodeRaw_def)
  moreover have "length ?e mod 4 < 4" by simp
  ultimately consider "length ?e mod 4 = 0" | "length ?e mod 4 = 2" | "length ?e mod 4 = 3" by linarith
  then have n: "?n \<le> 2" "(length ?e + ?n) mod 4 = 0"
    using pad_length [of "length ?e"] by (cases; simp)+
  show ?thesis
    unfolding decodeStd_def Let_def t body
    using n decode_encodeRaw [OF stdAlphabet_ok(1-3), of s] by (auto simp: mod_eq_0_iff_dvd)
qed

end
