(* ===== verification/Json.thy ===== *)
theory Json
  imports Base64
begin

text \<open>
  What the sources use of Go's \<^verbatim>\<open>encoding/json\<close>. JSON values are a datatype; the scanner that
  reads a value from text is an argument \<open>parse\<close> of the definitions that decode text (it
  returns the first value and the rest of the text). The rules by which a value is stored
  into Go data are modelled: field names match exactly or else case-insensitively, members
  are stored in order, so that a repeated name overwrites, \<open>null\<close> leaves a non-pointer field
  alone, numbers must be literals of the field's type.
\<close>

datatype json =
    JNull
  | JBool bool
  | JNum string
  | JStr string
  | JArr "json list"
  | JObj "(string \<times> json) list"

type_synonym scanner = "string \<Rightarrow> (json \<times> string) option"

definition jsonSpace :: "char \<Rightarrow> bool" where
  "jsonSpace c = (c = CHR 0x20 \<or> c = CHR 0x09 \<or> c = CHR 0x0A \<or> c = CHR 0x0D)"

text \<open>\<open>json.Unmarshal\<close>: the text is one value; \<open>Decoder.Decode\<close> reports \<open>io.EOF\<close> at its end.\<close>

definition atEOF :: "string \<Rightarrow> bool" where
  "atEOF rest = list_all jsonSpace rest"

definition unmarshalText :: "scanner \<Rightarrow> string \<Rightarrow> json option" where
  "unmarshalText parse s =
     (case parse s of None \<Rightarrow> None | Some (v, rest) \<Rightarrow> if atEOF rest then Some v else None)"

section \<open>Fields\<close>

text \<open>Two ASCII letters fold with a rune outside ASCII: K with U+212A, S with U+017F.\<close>

definition foldRune :: "rune \<times> string \<Rightarrow> string" where
  "foldRune rs =
     (let r = fst rs in
      if 97 \<le> r \<and> r \<le> 122 then [char_of (r - 32)]
      else if r = 8490 then ''K'' else if r = 383 then ''S'' else snd rs)"

definition foldKey :: "string \<Rightarrow> string" where
  "foldKey s = concat (map foldRune (runeList s))"

type_synonym 'a setter = "json \<Rightarrow> 'a \<Rightarrow> 'a option"
type_synonym 'a fields = "(string \<times> 'a setter) list"

definition findField :: "'a fields \<Rightarrow> string \<Rightarrow> 'a setter option" where
  "findField fs k =
     (case map_of fs k of
        Some f \<Rightarrow> Some f
      | None \<Rightarrow> map_option snd (find (\<lambda>f. foldKey (fst f) = foldKey k) fs))"

text \<open>\<open>strict\<close> is \<open>DisallowUnknownFields\<close>.\<close>

fun decodeMembers :: "bool \<Rightarrow> 'a fields \<Rightarrow> (string \<times> json) list \<Rightarrow> 'a \<Rightarrow> 'a option" where
  "decodeMembers strict fs [] r = Some r"
| "decodeMembers strict fs ((k, v) # ms) r =
     (case findField fs k of
        None \<Rightarrow> if strict then None else decodeMembers strict fs ms r
      | Some f \<Rightarrow> (case f v r of None \<Rightarrow> None | Some r' \<Rightarrow> decodeMembers strict fs ms r'))"

fun decodeStruct :: "bool \<Rightarrow> 'a fields \<Rightarrow> 'a setter" where
  "decodeStruct strict fs (JObj ms) r = decodeMembers strict fs ms r"
| "decodeStruct strict fs JNull r = Some r"
| "decodeStruct strict fs _ r = None"

section \<open>Scalars\<close>

fun decString :: "json \<Rightarrow> string option option" where
  "decString (JStr s) = Some (Some s)"
| "decString JNull = Some None"
| "decString _ = None"

fun decBool :: "json \<Rightarrow> bool option option" where
  "decBool (JBool b) = Some (Some b)"
| "decBool JNull = Some None"
| "decBool _ = None"

definition decimalValue :: "string \<Rightarrow> nat" where
  "decimalValue ds = foldl (\<lambda>n c. 10 * n + (of_char c - 48)) 0 ds"

definition allDigits :: "string \<Rightarrow> bool" where
  "allDigits ds = (ds \<noteq> [] \<and> list_all isDigit ds)"

text \<open>Integer literals (\<open>strconv.ParseInt\<close>, \<open>ParseUint\<close>) within a range.\<close>

definition parseIntLit :: "int \<Rightarrow> int \<Rightarrow> string \<Rightarrow> int option" where
  "parseIntLit lo hi lit =
     (let v = (if allDigits lit then Some (int (decimalValue lit))
               else case lit of
                   c # ds \<Rightarrow> if c = CHR ''-'' \<and> allDigits ds then Some (- int (decimalValue ds)) else None
                 | [] \<Rightarrow> None)
      in case v of Some i \<Rightarrow> if lo \<le> i \<and> i \<le> hi then Some i else None | None \<Rightarrow> None)"

definition parseUintLit :: "nat \<Rightarrow> string \<Rightarrow> nat option" where
  "parseUintLit bits lit =
     (if allDigits lit \<and> decimalValue lit < 2 ^ bits then Some (decimalValue lit) else None)"

fun decInt64 :: "json \<Rightarrow> int option option" where
  "decInt64 (JNum lit) = map_option Some (parseIntLit (- (2 ^ 63)) (2 ^ 63 - 1) lit)"
| "decInt64 JNull = Some None"
| "decInt64 _ = None"

fun decUint :: "nat \<Rightarrow> json \<Rightarrow> nat option option" where
  "decUint bits (JNum lit) = map_option Some (parseUintLit bits lit)"
| "decUint bits JNull = Some None"
| "decUint bits _ = None"

text \<open>A field that keeps its value on \<open>null\<close>, and a pointer, which becomes nil.\<close>

definition setField :: "(json \<Rightarrow> 'b option option) \<Rightarrow> ('b \<Rightarrow> 'a \<Rightarrow> 'a) \<Rightarrow> 'a setter" where
  "setField dec upd v r =
     (case dec v of None \<Rightarrow> None | Some None \<Rightarrow> Some r | Some (Some x) \<Rightarrow> Some (upd x r))"

definition setPointer :: "(json \<Rightarrow> 'b option option) \<Rightarrow> ('b option \<Rightarrow> 'a \<Rightarrow> 'a) \<Rightarrow> 'a setter" where
  "setPointer dec upd v r = (case dec v of None \<Rightarrow> None | Some x \<Rightarrow> Some (upd x r))"

section \<open>Slices\<close>

text \<open>\<open>[]string\<close>: an element that is \<open>null\<close> is the empty string; \<open>null\<close> is the nil slice.\<close>

fun decStrings :: "json \<Rightarrow> string list option" where
  "decStrings JNull = Some []"
| "decStrings (JArr vs) =
     those (map (\<lambda>v. case decString v of None \<Rightarrow> None | Some None \<Rightarrow> Some [] | Some (Some s) \<Rightarrow> Some s) vs)"
| "decStrings _ = None"

definition setStrings :: "(string list \<Rightarrow> 'a \<Rightarrow> 'a) \<Rightarrow> 'a setter" where
  "setStrings upd v r = map_option (\<lambda>ss. upd ss r) (decStrings v)"

text \<open>\<open>[]byte\<close>: base64 text, or an array of numbers below 256.\<close>

fun decBytes :: "json \<Rightarrow> byte list option" where
  "decBytes JNull = Some []"
| "decBytes (JStr s) = map_option (\<lambda>t. map (\<lambda>c. word_of_nat (of_char c)) t) (decodeStd s)"
| "decBytes (JArr vs) =
     those (map (\<lambda>v. case decUint 8 v of None \<Rightarrow> None | Some None \<Rightarrow> Some 0
       | Some (Some n) \<Rightarrow> Some (word_of_nat n)) vs)"
| "decBytes _ = None"

definition setBytes :: "(byte list \<Rightarrow> 'a \<Rightarrow> 'a) \<Rightarrow> 'a setter" where
  "setBytes upd v r = map_option (\<lambda>bs. upd bs r) (decBytes v)"

section \<open>Facts\<close>

lemma decodeMembers_append:
  "decodeMembers strict fs (xs @ ys) r =
     (case decodeMembers strict fs xs r of None \<Rightarrow> None | Some r' \<Rightarrow> decodeMembers strict fs ys r')"
  by (induction xs arbitrary: r) (auto split: option.splits)

lemma findField_exact: "map_of fs k = Some f \<Longrightarrow> findField fs k = Some f"
  by (simp add: findField_def)

lemma allDigits_snoc: "list_all isDigit ds \<Longrightarrow> decimalValue (ds @ [c]) = 10 * decimalValue ds + (of_char c - 48)"
  by (simp add: decimalValue_def)

lemma digit_char: "(n :: nat) < 10 \<Longrightarrow> isDigit (char_of (48 + n)) \<and> (of_char (char_of (48 + n) :: char) :: nat) - 48 = n"
  by (simp add: isDigit_def)

text \<open>Printing a number and reading it back.\<close>

lemma digits_read: "allDigits (digits n) \<and> decimalValue (digits n) = n"
proof (induction n rule: digits.induct)
  case (1 n)
  show ?case
  proof (cases "n < 10")
    case True
    then show ?thesis using digit_char [of n]
      by (subst (1 2) digits.simps) (simp add: allDigits_def decimalValue_def)
  next
    case False
    with 1 have IH: "allDigits (digits (n div 10))" "decimalValue (digits (n div 10)) = n div 10" by blast+
    have d: "digits n = digits (n div 10) @ [char_of (48 + n mod 10)]"
      using False by (subst digits.simps) simp
    have c: "isDigit (char_of (48 + n mod 10))" "(of_char (char_of (48 + n mod 10) :: char) :: nat) - 48 = n mod 10"
      using digit_char [of "n mod 10"] by simp_all
    have "list_all isDigit (digits (n div 10))" using IH(1) by (simp add: allDigits_def)
    then have "decimalValue (digits n) = 10 * (n div 10) + n mod 10"
      unfolding d using allDigits_snoc IH(2) c(2) by simp
    then show ?thesis using IH(1) c(1) d by (simp add: allDigits_def)
  qed
qed

lemma parseIntLit_formatInt:
  assumes "lo \<le> i" "i \<le> hi"
  shows "parseIntLit lo hi (formatInt i) = Some i"
proof (cases "i < 0")
  case True
  have "\<not> allDigits (CHR ''-'' # ds)" for ds by (simp add: allDigits_def isDigit_def)
  then show ?thesis using True assms digits_read [of "nat (- i)"]
    by (simp add: parseIntLit_def formatInt_def Let_def)
next
  case False
  then show ?thesis using assms digits_read [of "nat i"]
    by (simp add: parseIntLit_def formatInt_def Let_def)
qed

end
