(* ===== verification/FrameCodec.thy ===== *)
theory FrameCodec
  imports Frame Json
begin

text \<open>
  Decoding client frames, \<open>decodeFrame\<close> of \<^verbatim>\<open>internal/runner/frame.go\<close>: the message is read
  twice, once as a map of raw members to check the shape of the frame type, once into the
  frame. The order in which Go ranges over the two maps is an argument, as is the text of a
  JSON error.
\<close>

section \<open>Shapes\<close>

record frameShape =
  allowed :: "string set"
  required :: "string list"

definition shape :: "string list \<Rightarrow> string list \<Rightarrow> frameShape" where
  "shape req opt = \<lparr>allowed = set req \<union> set opt, required = req\<rparr>"

definition clientFrameShapes :: "(string \<times> frameShape) list" where
  "clientFrameShapes =
     [(''attach'', shape [''type'', ''protocolVersion'', ''role'', ''terminalSize''] [''afterSequence'', ''takeover'']),
      (''input'', shape [''type'', ''leaseId'', ''data''] []),
      (''resize'', shape [''type'', ''leaseId'', ''terminalSize''] []),
      (''ack'', shape [''type'', ''sequence''] []),
      (''takeover'', shape [''type''] []),
      (''ping'', shape [''type'', ''nonce''] []),
      (''pong'', shape [''type'', ''nonce''] [])]"

section \<open>The frame's fields\<close>

definition zeroSize :: TerminalSize where
  "zeroSize = \<lparr>Columns = 0, Rows = 0, PixelWidth = 0, PixelHeight = 0\<rparr>"

definition sizeFields :: "TerminalSize fields" where
  "sizeFields =
     [(''columns'', setField (decUint 16) (\<lambda>n r. r\<lparr>Columns := word_of_nat n\<rparr>)),
      (''rows'', setField (decUint 16) (\<lambda>n r. r\<lparr>Rows := word_of_nat n\<rparr>)),
      (''pixelWidth'', setField (decUint 16) (\<lambda>n r. r\<lparr>PixelWidth := word_of_nat n\<rparr>)),
      (''pixelHeight'', setField (decUint 16) (\<lambda>n r. r\<lparr>PixelHeight := word_of_nat n\<rparr>))]"

text \<open>A pointer to a struct: \<open>null\<close> is nil, an object is stored into what is there already.\<close>

fun setSize :: "Frame setter" where
  "setSize JNull r = Some (r\<lparr>frTerminalSize := None\<rparr>)"
| "setSize v r =
     map_option (\<lambda>s. r\<lparr>frTerminalSize := Some s\<rparr>)
       (decodeStruct True sizeFields v (case frTerminalSize r of None \<Rightarrow> zeroSize | Some s \<Rightarrow> s))"

abbreviation setStr :: "(string \<Rightarrow> Frame \<Rightarrow> Frame) \<Rightarrow> Frame setter" where
  "setStr \<equiv> setField decString"

abbreviation setSeq :: "(uint64 option \<Rightarrow> Frame \<Rightarrow> Frame) \<Rightarrow> Frame setter" where
  "setSeq upd \<equiv> setPointer (decUint 64) (\<lambda>n. upd (map_option word_of_nat n))"

definition frameFields :: "Frame fields" where
  "frameFields =
     [(''type'', setStr (\<lambda>x r. r\<lparr>frType := x\<rparr>)),
      (''protocolVersion'', setStr (\<lambda>x r. r\<lparr>frProtocolVersion := x\<rparr>)),
      (''role'', setStr (\<lambda>x r. r\<lparr>frRole := x\<rparr>)),
      (''afterSequence'', setSeq (\<lambda>x r. r\<lparr>frAfterSequence := x\<rparr>)),
      (''takeover'', setField decBool (\<lambda>x r. r\<lparr>frTakeover := x\<rparr>)),
      (''terminalSize'', setSize),
      (''attachmentId'', setStr (\<lambda>x r. r\<lparr>frAttachmentID := x\<rparr>)),
      (''agentId'', setStr (\<lambda>x r. r\<lparr>frAgentID := x\<rparr>)),
      (''leaseId'', setStr (\<lambda>x r. r\<lparr>frLeaseID := x\<rparr>)),
      (''runnerGeneration'', setStr (\<lambda>x r. r\<lparr>frRunnerGeneration := x\<rparr>)),
      (''earliestSequence'', setSeq (\<lambda>x r. r\<lparr>frEarliestSequence := x\<rparr>)),
      (''latestSequence'', setSeq (\<lambda>x r. r\<lparr>frLatestSequence := x\<rparr>)),
      (''processState'', setStr (\<lambda>x r. r\<lparr>frProcessState := x\<rparr>)),
      (''sequence'', setSeq (\<lambda>x r. r\<lparr>frSequence := x\<rparr>)),
      (''data'', setBytes (\<lambda>x r. r\<lparr>frData := x\<rparr>)),
      (''requestedAfterSequence'', setSeq (\<lambda>x r. r\<lparr>frRequestedAfterSequence := x\<rparr>)),
      (''reason'', setStr (\<lambda>x r. r\<lparr>frReason := x\<rparr>)),
      (''exitCode'', setPointer decInt64 (\<lambda>x r. r\<lparr>frExitCode := x\<rparr>)),
      (''signal'', setStr (\<lambda>x r. r\<lparr>frSignal := x\<rparr>)),
      (''finishedAt'', setStr (\<lambda>x r. r\<lparr>frFinishedAt := x\<rparr>)),
      (''code'', setStr (\<lambda>x r. r\<lparr>frCode := x\<rparr>)),
      (''message'', setStr (\<lambda>x r. r\<lparr>frMessage := x\<rparr>)),
      (''requestId'', setStr (\<lambda>x r. r\<lparr>frRequestID := x\<rparr>)),
      (''retryable'', setField decBool (\<lambda>x r. r\<lparr>frRetryable := x\<rparr>)),
      (''nonce'', setStr (\<lambda>x r. r\<lparr>frNonce := x\<rparr>))]"

section \<open>Decoding\<close>

text \<open>A map of raw members: the last member of a name counts; \<open>null\<close> is the nil map.\<close>

fun rawMembers :: "json \<Rightarrow> (string \<times> json) list option" where
  "rawMembers (JObj ms) = Some ms"
| "rawMembers JNull = Some []"
| "rawMembers _ = None"

definition rawLookup :: "(string \<times> json) list \<Rightarrow> string \<Rightarrow> json option" where
  "rawLookup ms k = map_of (rev ms) k"

text \<open>\<open>ordAllowed\<close> and \<open>ordRequired\<close> are the orders in which the two maps are ranged over.\<close>

definition decodeFrame ::
  "scanner \<Rightarrow> (rune \<Rightarrow> bool) \<Rightarrow> (string \<Rightarrow> string) \<Rightarrow> (string list \<Rightarrow> string list) \<Rightarrow> string \<Rightarrow> Frame result" where
  "decodeFrame parse pr jsonError order data =
     (case unmarshalText parse data of
        None \<Rightarrow> Inl (''decode terminal frame: '' @ jsonError data)
      | Some v \<Rightarrow>
       (case rawMembers v of
          None \<Rightarrow> Inl (''decode terminal frame: '' @ jsonError data)
        | Some ms \<Rightarrow>
         (case (case rawLookup ms ''type'' of None \<Rightarrow> Some None | Some t \<Rightarrow> decString t) of
            None \<Rightarrow> Inl (''decode terminal frame type: '' @ jsonError data)
          | Some ty \<Rightarrow>
           (let frameType = (case ty of None \<Rightarrow> [] | Some s \<Rightarrow> s) in
            case map_of clientFrameShapes frameType of
              None \<Rightarrow> Inl (''decode terminal frame: unsupported client frame type '' @ goQuote pr frameType)
            | Some sh \<Rightarrow>
             (case find (\<lambda>n. n \<notin> allowed sh) (order (map fst ms)) of
                Some n \<Rightarrow> Inl (''decode terminal frame: field '' @ goQuote pr n @ '' is not allowed on '' @ frameType)
              | None \<Rightarrow>
               (case find (\<lambda>n. n \<notin> set (map fst ms)) (order (required sh)) of
                  Some n \<Rightarrow> Inl (''decode terminal frame: '' @ frameType @ '' requires field '' @ goQuote pr n)
                | None \<Rightarrow>
                 (case parse data of
                    None \<Rightarrow> Inl (''decode terminal frame: '' @ jsonError data)
                  | Some (w, rest) \<Rightarrow>
                   (case decodeStruct True frameFields w zeroFrame of
                      None \<Rightarrow> Inl (''decode terminal frame: '' @ jsonError data)
                    | Some f \<Rightarrow>
                        if \<not> atEOF rest then Inl ''decode terminal frame: trailing JSON value''
                        else Inr f))))))))"

section \<open>Facts\<close>

text \<open>An order only permutes.\<close>

definition permutes :: "(string list \<Rightarrow> string list) \<Rightarrow> bool" where
  "permutes order \<longleftrightarrow> (\<forall>xs. set (order xs) = set xs)"

lemma decodeFrame_ok:
  assumes "decodeFrame parse pr je order data = Inr f" "permutes order"
  obtains v ms ty sh where "unmarshalText parse data = Some v" "rawMembers v = Some ms"
    "rawLookup ms ''type'' = Some (JStr ty)" "map_of clientFrameShapes ty = Some sh"
    "set (map fst ms) \<subseteq> allowed sh" "set (required sh) \<subseteq> set (map fst ms)"
    "decodeStruct True frameFields v zeroFrame = Some f"
proof -
  from assms(1) obtain v where v: "unmarshalText parse data = Some v"
    by (auto simp: decodeFrame_def split: option.splits)
  from assms(1) v obtain ms where ms: "rawMembers v = Some ms"
    by (auto simp: decodeFrame_def split: option.splits)
  have empty: "map_of clientFrameShapes [] = None" by (simp add: clientFrameShapes_def)
  from assms(1) v ms empty obtain t ty where t: "rawLookup ms ''type'' = Some t" "decString t = Some (Some ty)"
    by (auto simp: decodeFrame_def Let_def split: option.splits)
  from t(2) have "t = JStr ty" by (cases t) auto
  note t = t(1) [unfolded this]
  from assms(1) v ms t obtain sh where sh: "map_of clientFrameShapes ty = Some sh"
    by (auto simp: decodeFrame_def Let_def split: option.splits)
  from assms(1) v ms t sh have fs: "find (\<lambda>n. n \<notin> allowed sh) (order (map fst ms)) = None"
      "find (\<lambda>n. n \<notin> set (map fst ms)) (order (required sh)) = None"
    by (auto simp: decodeFrame_def Let_def simp del: set_map split: option.splits)
  obtain rest where p: "parse data = Some (v, rest)" "atEOF rest"
    using v by (auto simp: unmarshalText_def split: option.splits if_splits)
  from assms(1) v ms t sh fs p have d: "decodeStruct True frameFields v zeroFrame = Some f"
    by (auto simp: decodeFrame_def Let_def simp del: set_map split: option.splits if_splits)
  from fs assms(2) have "set (map fst ms) \<subseteq> allowed sh" "set (required sh) \<subseteq> set (map fst ms)"
    unfolding find_None_iff permutes_def by (auto simp del: set_map)
  with v ms t sh d that show ?thesis by blast
qed

text \<open>An invariant of the members is one of the frame.\<close>

lemma decodeMembers_inv:
  assumes "decodeMembers strict fs ms r = Some r'" "P r"
    and "\<forall>k v f. (k, v) \<in> set ms \<longrightarrow> findField fs k = Some f \<longrightarrow> (\<forall>r r'. f v r = Some r' \<longrightarrow> P r \<longrightarrow> P r')"
  shows "P r'"
  using assms
proof (induction ms arbitrary: r)
  case Nil
  then show ?case by simp
next
  case (Cons m ms)
  obtain k v where m: "m = (k, v)" by (cases m)
  have rest: "\<forall>k v f. (k, v) \<in> set ms \<longrightarrow> findField fs k = Some f \<longrightarrow> (\<forall>r r'. f v r = Some r' \<longrightarrow> P r \<longrightarrow> P r')"
    using Cons.prems(3) by (meson list.set_intros(2))
  show ?case
  proof (cases "findField fs k")
    case None
    with Cons.prems(1) m have "decodeMembers strict fs ms r = Some r'" by (auto split: if_splits)
    from Cons.IH [OF this Cons.prems(2) rest] show ?thesis .
  next
    case (Some f)
    with Cons.prems(1) m obtain r1 where r1: "f v r = Some r1" "decodeMembers strict fs ms r1 = Some r'"
      by (auto split: option.splits)
    have "P r1" using Cons.prems(2,3) m Some r1(1) by (meson list.set_intros(1))
    from Cons.IH [OF r1(2) this rest] show ?thesis .
  qed
qed

lemma setField_Some: "setField dec upd v r = Some r' \<Longrightarrow> r' = r \<or> (\<exists>x. r' = upd x r)"
  by (auto simp: setField_def split: option.splits)

lemma setPointer_Some: "setPointer dec upd v r = Some r' \<Longrightarrow> \<exists>x. r' = upd x r"
  by (auto simp: setPointer_def split: option.splits)

lemma setBytes_Some: "setBytes upd v r = Some r' \<Longrightarrow> \<exists>x. r' = upd x r"
  by (auto simp: setBytes_def)

lemma setSize_Some: "setSize v r = Some r' \<Longrightarrow> \<exists>x. r' = r\<lparr>frTerminalSize := x\<rparr>"
  by (cases v) auto

definition clientFields :: "string set" where
  "clientFields = {''type'', ''protocolVersion'', ''role'', ''afterSequence'', ''takeover'', ''terminalSize'',
     ''leaseId'', ''data'', ''sequence'', ''nonce''}"

lemma shapes_clientFields: "map_of clientFrameShapes ty = Some sh \<Longrightarrow> allowed sh \<subseteq> clientFields"
  by (auto simp: clientFrameShapes_def shape_def clientFields_def split: if_splits)

text \<open>The fields only the server fills in.\<close>

definition noServerFields :: "Frame \<Rightarrow> bool" where
  "noServerFields f \<longleftrightarrow> frAttachmentID f = [] \<and> frAgentID f = [] \<and> frRunnerGeneration f = [] \<and>
     frEarliestSequence f = None \<and> frLatestSequence f = None \<and> frProcessState f = [] \<and>
     frRequestedAfterSequence f = None \<and> frReason f = [] \<and> frExitCode f = None \<and> frSignal f = [] \<and>
     frFinishedAt f = [] \<and> frCode f = [] \<and> frMessage f = [] \<and> frRequestID f = [] \<and> \<not> frRetryable f"

lemma clientField_setters:
  "findField frameFields ''type'' = Some (setStr (\<lambda>x r. r\<lparr>frType := x\<rparr>))"
  "findField frameFields ''protocolVersion'' = Some (setStr (\<lambda>x r. r\<lparr>frProtocolVersion := x\<rparr>))"
  "findField frameFields ''role'' = Some (setStr (\<lambda>x r. r\<lparr>frRole := x\<rparr>))"
  "findField frameFields ''afterSequence'' = Some (setSeq (\<lambda>x r. r\<lparr>frAfterSequence := x\<rparr>))"
  "findField frameFields ''takeover'' = Some (setField decBool (\<lambda>x r. r\<lparr>frTakeover := x\<rparr>))"
  "findField frameFields ''terminalSize'' = Some setSize"
  "findField frameFields ''leaseId'' = Some (setStr (\<lambda>x r. r\<lparr>frLeaseID := x\<rparr>))"
  "findField frameFields ''data'' = Some (setBytes (\<lambda>x r. r\<lparr>frData := x\<rparr>))"
  "findField frameFields ''sequence'' = Some (setSeq (\<lambda>x r. r\<lparr>frSequence := x\<rparr>))"
  "findField frameFields ''nonce'' = Some (setStr (\<lambda>x r. r\<lparr>frNonce := x\<rparr>))"
  by (simp_all add: findField_def frameFields_def)

text \<open>What storing one client member does: the field changes, the others do not.\<close>

lemma clientField_effect:
  assumes "k \<in> clientFields" "findField frameFields k = Some f" "f v r = Some r'"
  shows "k = ''type'' \<and> (\<exists>x. r' = r\<lparr>frType := x\<rparr>) \<or> (\<exists>x. r' = r\<lparr>frProtocolVersion := x\<rparr>) \<or> (\<exists>x. r' = r\<lparr>frRole := x\<rparr>) \<or>
    (\<exists>x. r' = r\<lparr>frAfterSequence := x\<rparr>) \<or> (\<exists>x. r' = r\<lparr>frTakeover := x\<rparr>) \<or> (\<exists>x. r' = r\<lparr>frTerminalSize := x\<rparr>) \<or>
    (\<exists>x. r' = r\<lparr>frLeaseID := x\<rparr>) \<or> (\<exists>x. r' = r\<lparr>frData := x\<rparr>) \<or> (\<exists>x. r' = r\<lparr>frSequence := x\<rparr>) \<or>
    (\<exists>x. r' = r\<lparr>frNonce := x\<rparr>) \<or> r' = r"
  using assms(1) unfolding clientFields_def
proof (elim insertE emptyE)
  assume *: "k = ''afterSequence''"
  from assms(2) have "f = the (findField frameFields k)" by simp
  with *  assms(3) show ?thesis
    by (simp only: clientField_setters option.sel) (drule setPointer_Some, blast)
next
  assume *: "k = ''sequence''"
  from assms(2) have "f = the (findField frameFields k)" by simp
  with *  assms(3) show ?thesis
    by (simp only: clientField_setters option.sel) (drule setPointer_Some, blast)
next
  assume *: "k = ''data''"
  from assms(2) have "f = the (findField frameFields k)" by simp
  with *  assms(3) show ?thesis
    by (simp only: clientField_setters option.sel) (drule setBytes_Some, blast)
next
  assume *: "k = ''terminalSize''"
  from assms(2) have "f = the (findField frameFields k)" by simp
  with *  assms(3) show ?thesis
    by (simp only: clientField_setters option.sel) (drule setSize_Some, blast)
next
  assume *: "k = ''takeover''"
  from assms(2) have "f = the (findField frameFields k)" by simp
  with *  assms(3) show ?thesis
    by (simp only: clientField_setters option.sel) (drule setField_Some, blast)
next
  assume *: "k = ''type''"
  from assms(2) have "f = the (findField frameFields k)" by simp
  with *  assms(3) show ?thesis
    by (simp only: clientField_setters option.sel) (drule setField_Some, blast)
next
  assume *: "k = ''protocolVersion''"
  from assms(2) have "f = the (findField frameFields k)" by simp
  with *  assms(3) show ?thesis
    by (simp only: clientField_setters option.sel) (drule setField_Some, blast)
next
  assume *: "k = ''role''"
  from assms(2) have "f = the (findField frameFields k)" by simp
  with *  assms(3) show ?thesis
    by (simp only: clientField_setters option.sel) (drule setField_Some, blast)
next
  assume *: "k = ''leaseId''"
  from assms(2) have "f = the (findField frameFields k)" by simp
  with *  assms(3) show ?thesis
    by (simp only: clientField_setters option.sel) (drule setField_Some, blast)
next
  assume *: "k = ''nonce''"
  from assms(2) have "f = the (findField frameFields k)" by simp
  with *  assms(3) show ?thesis
    by (simp only: clientField_setters option.sel) (drule setField_Some, blast)
qed

lemma clientField_keeps:
  assumes "k \<in> clientFields" "findField frameFields k = Some f" "f v r = Some r'" "noServerFields r"
  shows "noServerFields r'"
  using clientField_effect [OF assms(1-3)] assms(4)
  by (elim disjE exE conjE) (simp_all add: noServerFields_def)

lemma clientField_type:
  assumes "k \<in> clientFields" "k \<noteq> ''type''" "findField frameFields k = Some f" "f v r = Some r'"
  shows "frType r' = frType r"
  using clientField_effect [OF assms(1,3,4)] assms(2) by (elim disjE exE conjE) simp_all

lemma rawLookup_split:
  "rawLookup ms k = Some v \<Longrightarrow> \<exists>pre post. ms = pre @ (k, v) # post \<and> k \<notin> fst ` set post"
proof (induction ms rule: rev_induct)
  case Nil
  then show ?case by (simp add: rawLookup_def)
next
  case (snoc m ms)
  obtain k' v' where m: "m = (k', v')" by (cases m)
  show ?case
  proof (cases "k' = k")
    case True
    with snoc.prems m have "v' = v" by (simp add: rawLookup_def)
    with True m show ?thesis by (intro exI [of _ ms] exI [of _ "[]"]) simp
  next
    case False
    with snoc m obtain pre post where "ms = pre @ (k, v) # post" "k \<notin> fst ` set post"
      by (auto simp: rawLookup_def)
    with False m show ?thesis by (intro exI [of _ pre] exI [of _ "post @ [m]"]) auto
  qed
qed

lemma decoded_type:
  assumes "decodeMembers True frameFields ms r = Some f" "rawLookup ms ''type'' = Some (JStr ty)"
    "set (map fst ms) \<subseteq> clientFields"
  shows "frType f = ty"
proof -
  obtain pre post where ms: "ms = pre @ (''type'', JStr ty) # post" "''type'' \<notin> fst ` set post"
    using rawLookup_split [OF assms(2)] by blast
  then obtain r1 where post: "decodeMembers True frameFields post (r1\<lparr>frType := ty\<rparr>) = Some f"
    using assms(1) by (auto simp: decodeMembers_append clientField_setters(1) setField_def split: option.splits)
  show ?thesis
  proof (rule decodeMembers_inv [OF post], simp, intro allI impI)
    fix k v g r0 r2
    assume kv: "(k, v) \<in> set post" and g: "findField frameFields k = Some g" "g v r0 = Some r2" and "frType r0 = ty"
    have "k \<in> clientFields" using kv assms(3) ms(1) by force
    moreover have "k \<noteq> ''type''" using kv ms(2) by force
    ultimately show "frType r2 = ty" using clientField_type g \<open>frType r0 = ty\<close> by metis
  qed
qed

text \<open>
  C18. A client message that decodes is one of the seven client frames and has exactly the shape
  of its type: every member is allowed for it, every required member is present, repeated
  members included; and no field that only the server fills in is set.
\<close>

theorem client_frame_shape:
  assumes "decodeFrame parse pr je order data = Inr f" "permutes order"
  shows "\<exists>v ms sh. unmarshalText parse data = Some v \<and> rawMembers v = Some ms \<and>
    map_of clientFrameShapes (frType f) = Some sh \<and>
    set (map fst ms) \<subseteq> allowed sh \<and> set (required sh) \<subseteq> set (map fst ms) \<and> noServerFields f"
  using assms
proof (cases rule: decodeFrame_ok)
  case (1 v ms ty sh)
  have ms: "v = JObj ms" using 1(2,3) by (cases v) (auto simp: rawLookup_def)
  have d: "decodeMembers True frameFields ms zeroFrame = Some f" using 1(7) ms by simp
  have keys: "set (map fst ms) \<subseteq> clientFields" using 1(5) shapes_clientFields [OF 1(4)] by blast
  have "frType f = ty" by (rule decoded_type [OF d 1(3) keys])
  moreover have "noServerFields f"
  proof (rule decodeMembers_inv [OF d])
    show "noServerFields zeroFrame" by (simp add: noServerFields_def zeroFrame_def)
    show "\<forall>k v g. (k, v) \<in> set ms \<longrightarrow> findField frameFields k = Some g \<longrightarrow>
        (\<forall>r r'. g v r = Some r' \<longrightarrow> noServerFields r \<longrightarrow> noServerFields r')"
      using keys clientField_keeps by force
  qed
  ultimately show ?thesis using 1 by auto
qed

definition demoPing :: json where
  "demoPing = JObj [(''type'', JStr ''ping''), (''nonce'', JStr ''n'')]"

lemma demoPing_decodes:
  "decodeFrame (\<lambda>_. Some (demoPing, [])) (\<lambda>_. False) (\<lambda>_. []) (\<lambda>xs. xs) ''m'' =
     Inr (zeroFrame\<lparr>frType := ''ping'', frNonce := ''n''\<rparr>)"
  by (simp add: decodeFrame_def unmarshalText_def demoPing_def atEOF_def rawLookup_def clientFrameShapes_def
      shape_def clientField_setters setField_def)

theorem client_frame_shape_witness:
  "noServerFields (zeroFrame\<lparr>frType := ''ping'', frNonce := ''n''\<rparr>) \<and>
   (\<exists>sh. map_of clientFrameShapes (frType (zeroFrame\<lparr>frType := ''ping'', frNonce := ''n''\<rparr>)) = Some sh)"
  using client_frame_shape [OF demoPing_decodes] by (auto simp: permutes_def)

end
