(* ===== verification/Capability.thy ===== *)
theory Capability
  imports Json
begin

text \<open>
  Signed terminal capabilities, \<^verbatim>\<open>internal/auth/capability.go\<close>. Ed25519 is the pair of
  arguments \<open>sign\<close> and \<open>verify\<close>; the text of JSON is \<open>print\<close> and \<open>parse\<close>; \<open>ident\<close> is what
  the random source returns. The verifier's state is the map of used token identifiers.
\<close>

section \<open>Claims\<close>

definition CapabilityHeader :: string where "CapabilityHeader = ''X-Sandherd-Capability''"
definition capabilityIssuer :: string where "capabilityIssuer = ''sandherd-control-plane''"
definition capabilityAudience :: string where "capabilityAudience = ''sandherd-runner''"

record Claims =
  Issuer :: string
  Audience :: string
  Subject :: string
  ClaimRole :: string
  Scope :: string
  ClaimRequestID :: string
  TokenID :: string
  IssuedAt :: int
  ExpiresAt :: int

definition zeroClaims :: Claims where
  "zeroClaims = \<lparr>Issuer = [], Audience = [], Subject = [], ClaimRole = [], Scope = [], ClaimRequestID = [],
     TokenID = [], IssuedAt = 0, ExpiresAt = 0\<rparr>"

definition claimsFields :: "Claims fields" where
  "claimsFields =
     [(''iss'', setField decString (\<lambda>x r. r\<lparr>Issuer := x\<rparr>)),
      (''aud'', setField decString (\<lambda>x r. r\<lparr>Audience := x\<rparr>)),
      (''sub'', setField decString (\<lambda>x r. r\<lparr>Subject := x\<rparr>)),
      (''role'', setField decString (\<lambda>x r. r\<lparr>ClaimRole := x\<rparr>)),
      (''scope'', setField decString (\<lambda>x r. r\<lparr>Scope := x\<rparr>)),
      (''requestId'', setField decString (\<lambda>x r. r\<lparr>ClaimRequestID := x\<rparr>)),
      (''jti'', setField decString (\<lambda>x r. r\<lparr>TokenID := x\<rparr>)),
      (''iat'', setField decInt64 (\<lambda>x r. r\<lparr>IssuedAt := x\<rparr>)),
      (''exp'', setField decInt64 (\<lambda>x r. r\<lparr>ExpiresAt := x\<rparr>))]"

definition claimsJson :: "Claims \<Rightarrow> json" where
  "claimsJson c = JObj
     [(''iss'', JStr (Issuer c)), (''aud'', JStr (Audience c)), (''sub'', JStr (Subject c)),
      (''role'', JStr (ClaimRole c)), (''scope'', JStr (Scope c)), (''requestId'', JStr (ClaimRequestID c)),
      (''jti'', JStr (TokenID c)), (''iat'', JNum (formatInt (IssuedAt c))), (''exp'', JNum (formatInt (ExpiresAt c)))]"

record capHeader =
  Algorithm :: string
  HeaderType :: string
  Version :: int

definition headerFields :: "capHeader fields" where
  "headerFields =
     [(''alg'', setField decString (\<lambda>x r. r\<lparr>Algorithm := x\<rparr>)),
      (''typ'', setField decString (\<lambda>x r. r\<lparr>HeaderType := x\<rparr>)),
      (''v'', setField decInt64 (\<lambda>x r. r\<lparr>Version := x\<rparr>))]"

definition headerJson :: json where
  "headerJson = JObj [(''alg'', JStr ''EdDSA''), (''typ'', JStr ''SHCAP''), (''v'', JNum ''1'')]"

section \<open>Signer\<close>

record Signer =
  privateKey :: string
  sgTTL :: duration

definition NewSigner :: "string \<Rightarrow> duration \<Rightarrow> Signer result" where
  "NewSigner key ttl =
     (if length key \<noteq> 64 then Inl ''invalid Ed25519 private key''
      else if ttl \<le> 0 then Inl ''capability TTL must be positive''
      else Inr \<lparr>privateKey = key, sgTTL = ttl\<rparr>)"

text \<open>\<open>time.Time.Unix\<close>: whole seconds.\<close>

definition unix :: "time \<Rightarrow> int" where
  "unix t = t div 1000000000"

definition mintClaims :: "Signer \<Rightarrow> time \<Rightarrow> string \<Rightarrow> string \<Rightarrow> string \<Rightarrow> string \<Rightarrow> Claims" where
  "mintClaims s now ident agentID role requestID =
     \<lparr>Issuer = capabilityIssuer, Audience = capabilityAudience, Subject = agentID, ClaimRole = role,
      Scope = ''terminal'', ClaimRequestID = requestID, TokenID = encodeURL ident,
      IssuedAt = unix now, ExpiresAt = unix (now + sgTTL s)\<rparr>"

definition Mint ::
  "(string \<Rightarrow> string \<Rightarrow> string) \<Rightarrow> (json \<Rightarrow> string) \<Rightarrow> Signer \<Rightarrow> time \<Rightarrow> string result
     \<Rightarrow> string \<Rightarrow> string \<Rightarrow> string \<Rightarrow> string result" where
  "Mint sign print s now ident agentID role requestID =
     (if agentID = [] \<or> requestID = [] \<or> (role \<noteq> ''control'' \<and> role \<noteq> ''observe'')
      then Inl ''agent ID, request ID, and a valid role are required''
      else case ident of
        Inl e \<Rightarrow> Inl (''create capability identifier: '' @ e)
      | Inr idb \<Rightarrow>
          let claims = mintClaims s now idb agentID role requestID;
              unsigned = encodeURL (print headerJson) @ ''.'' @ encodeURL (print (claimsJson claims));
              signature = sign (privateKey s) unsigned
          in Inr (unsigned @ ''.'' @ encodeURL signature))"

section \<open>Verifier\<close>

record Verifier =
  publicKey :: string
  used :: "string \<rightharpoonup> int"

definition NewVerifier :: "string \<Rightarrow> Verifier result" where
  "NewVerifier key =
     (if length key \<noteq> 32 then Inl ''invalid Ed25519 public key''
      else Inr \<lparr>publicKey = key, used = Map.empty\<rparr>)"

text \<open>The checks before the lock is taken: from the token text to valid claims.\<close>

definition checkHeader :: "scanner \<Rightarrow> string \<Rightarrow> bool" where
  "checkHeader parse hb =
     (case unmarshalText parse hb of
        None \<Rightarrow> False
      | Some v \<Rightarrow>
         (case decodeStruct False headerFields v \<lparr>Algorithm = [], HeaderType = [], Version = 0\<rparr> of
            None \<Rightarrow> False
          | Some h \<Rightarrow> Algorithm h = ''EdDSA'' \<and> HeaderType h = ''SHCAP'' \<and> Version h = 1))"

definition checkClaims :: "int \<Rightarrow> string \<Rightarrow> string \<Rightarrow> Claims \<Rightarrow> goerror option" where
  "checkClaims now agent scope c =
     (if Issuer c \<noteq> capabilityIssuer \<or> Audience c \<noteq> capabilityAudience \<or> Subject c \<noteq> agent \<or>
         ClaimRequestID c = [] \<or> TokenID c = []
      then Some ''capability scope is invalid''
      else if (ClaimRole c \<noteq> ''control'' \<and> ClaimRole c \<noteq> ''observe'') \<or> Scope c \<noteq> scope
      then Some ''capability role or scope is invalid''
      else if IssuedAt c > now + 30 \<or> ExpiresAt c \<le> now \<or> ExpiresAt c \<le> IssuedAt c
      then Some ''capability is expired or not yet valid''
      else None)"

definition parseToken ::
  "(string \<Rightarrow> string \<Rightarrow> string \<Rightarrow> bool) \<Rightarrow> scanner \<Rightarrow> string \<Rightarrow> string \<Rightarrow> Claims result" where
  "parseToken verify parse key token =
     (case splitOn (CHR ''.'') token of
        [p0, p1, p2] \<Rightarrow>
          (case decodeURL p0 of
             None \<Rightarrow> Inl ''capability header is malformed''
           | Some hb \<Rightarrow>
               if \<not> checkHeader parse hb then Inl ''capability header is invalid''
               else case decodeURL p2 of
                 None \<Rightarrow> Inl ''capability signature is invalid''
               | Some signature \<Rightarrow>
                   if \<not> verify key (p0 @ ''.'' @ p1) signature then Inl ''capability signature is invalid''
                   else case decodeURL p1 of
                     None \<Rightarrow> Inl ''capability payload is malformed''
                   | Some payload \<Rightarrow>
                      (case unmarshalText parse payload of
                         None \<Rightarrow> Inl ''capability claims are malformed''
                       | Some v \<Rightarrow>
                          (case decodeStruct False claimsFields v zeroClaims of
                             None \<Rightarrow> Inl ''capability claims are malformed''
                           | Some c \<Rightarrow> Inr c)))
      | _ \<Rightarrow> Inl ''capability is malformed'')"

text \<open>Forgetting the identifiers of expired tokens.\<close>

definition purgeUsed :: "int \<Rightarrow> (string \<rightharpoonup> int) \<Rightarrow> (string \<rightharpoonup> int)" where
  "purgeUsed now u = (\<lambda>k. case u k of Some e \<Rightarrow> if e \<le> now then None else Some e | None \<Rightarrow> None)"

definition VerifyFor ::
  "(string \<Rightarrow> string \<Rightarrow> string \<Rightarrow> bool) \<Rightarrow> scanner \<Rightarrow> time \<Rightarrow> string \<Rightarrow> string \<Rightarrow> string
     \<Rightarrow> Verifier \<Rightarrow> Claims result \<times> Verifier" where
  "VerifyFor verify parse t token agent scope v =
     (if agent = [] \<or> scope = [] then (Inl ''capability verification scope is required'', v)
      else case parseToken verify parse (publicKey v) token of
        Inl e \<Rightarrow> (Inl e, v)
      | Inr c \<Rightarrow>
         (case checkClaims (unix t) agent scope c of
            Some e \<Rightarrow> (Inl e, v)
          | None \<Rightarrow>
              let u = purgeUsed (unix t) (used v) in
              if u (TokenID c) \<noteq> None then (Inl ''capability has already been used'', v\<lparr>used := u\<rparr>)
              else (Inr c, v\<lparr>used := u(TokenID c \<mapsto> ExpiresAt c)\<rparr>)))"

definition Verify ::
  "(string \<Rightarrow> string \<Rightarrow> string \<Rightarrow> bool) \<Rightarrow> scanner \<Rightarrow> time \<Rightarrow> string \<Rightarrow> string
     \<Rightarrow> Verifier \<Rightarrow> Claims result \<times> Verifier" where
  "Verify verify parse t token agent v = VerifyFor verify parse t token agent ''terminal'' v"

section \<open>PEM keys\<close>

text \<open>
  \<open>ParsePrivateKeyPEM\<close> and \<open>ParsePublicKeyPEM\<close>: \<open>pem\<close> is \<^verbatim>\<open>pem.Decode\<close> (the block's bytes),
  \<open>x509\<close> the PKCS#8 or PKIX parser, whose result is an Ed25519 key or a key of another kind.
\<close>

datatype parsedKey = Ed25519Key string | OtherKey

definition ParsePrivateKeyPEM :: "(string \<Rightarrow> string option) \<Rightarrow> (string \<Rightarrow> parsedKey result) \<Rightarrow> string \<Rightarrow> string result" where
  "ParsePrivateKeyPEM pem x509 contents =
     (case pem contents of
        None \<Rightarrow> Inl ''private key is not PEM''
      | Some b \<Rightarrow>
         (case x509 b of
            Inl e \<Rightarrow> Inl (''parse PKCS#8 private key: '' @ e)
          | Inr (Ed25519Key k) \<Rightarrow> Inr k
          | Inr OtherKey \<Rightarrow> Inl ''private key is not Ed25519''))"

definition ParsePublicKeyPEM :: "(string \<Rightarrow> string option) \<Rightarrow> (string \<Rightarrow> parsedKey result) \<Rightarrow> string \<Rightarrow> string result" where
  "ParsePublicKeyPEM pem x509 contents =
     (case pem contents of
        None \<Rightarrow> Inl ''public key is not PEM''
      | Some b \<Rightarrow>
         (case x509 b of
            Inl e \<Rightarrow> Inl (''parse public key: '' @ e)
          | Inr (Ed25519Key k) \<Rightarrow> Inr k
          | Inr OtherKey \<Rightarrow> Inl ''public key is not Ed25519''))"

section \<open>Claims survive encoding\<close>

definition int64 :: "int \<Rightarrow> bool" where
  "int64 i \<longleftrightarrow> - (2 ^ 63) \<le> i \<and> i \<le> 2 ^ 63 - 1"

lemma decInt64_formatInt: "int64 i \<Longrightarrow> decInt64 (JNum (formatInt i)) = Some (Some i)"
  by (simp add: int64_def parseIntLit_formatInt)

lemma claims_decode:
  assumes "int64 (IssuedAt c)" "int64 (ExpiresAt c)"
  shows "decodeStruct False claimsFields (claimsJson c) zeroClaims = Some c"
  using assms
  by (simp add: claimsJson_def claimsFields_def findField_exact setField_def decInt64_formatInt
      zeroClaims_def del: decInt64.simps)

lemma header_ok: "decodeStruct False headerFields headerJson \<lparr>Algorithm = [], HeaderType = [], Version = 0\<rparr> =
    Some \<lparr>Algorithm = ''EdDSA'', HeaderType = ''SHCAP'', Version = 1\<rparr>"
  by (simp add: headerJson_def headerFields_def findField_exact setField_def parseIntLit_def allDigits_def
      isDigit_def decimalValue_def)

section \<open>Soundness of verification\<close>

lemma VerifyFor_ok:
  assumes "VerifyFor verify parse t token agent scope v = (Inr c, v')"
  shows "parseToken verify parse (publicKey v) token = Inr c" and "checkClaims (unix t) agent scope c = None"
    and "purgeUsed (unix t) (used v) (TokenID c) = None"
    and "v' = v\<lparr>used := (purgeUsed (unix t) (used v))(TokenID c \<mapsto> ExpiresAt c)\<rparr>"
  using assms by (auto simp: VerifyFor_def Let_def split: if_splits sum.splits option.splits)

lemma VerifyFor_key [frame_simps]: "publicKey (snd (VerifyFor verify parse t token agent scope v)) = publicKey v"
  by (auto simp: VerifyFor_def Let_def split: sum.splits option.splits)

lemma checkClaims_None:
  "checkClaims now agent scope c = None \<longleftrightarrow>
     Issuer c = capabilityIssuer \<and> Audience c = capabilityAudience \<and> Subject c = agent \<and>
     ClaimRequestID c \<noteq> [] \<and> TokenID c \<noteq> [] \<and> (ClaimRole c = ''control'' \<or> ClaimRole c = ''observe'') \<and>
     Scope c = scope \<and> IssuedAt c \<le> now + 30 \<and> now < ExpiresAt c \<and> IssuedAt c < ExpiresAt c"
  by (auto simp: checkClaims_def)

text \<open>
  A capability is accepted only if its signature verifies over its first two parts and its
  claims name this issuer, audience, agent and scope, a known role, and a validity period that
  contains the present (with 30 seconds of clock skew at its start).
\<close>

theorem verify_sound:
  assumes "VerifyFor verify parse t token agent scope v = (Inr c, v')"
  shows "\<exists>p0 p1 p2 sig. splitOn (CHR ''.'') token = [p0, p1, p2] \<and> decodeURL p2 = Some sig \<and>
    verify (publicKey v) (p0 @ ''.'' @ p1) sig \<and>
    Issuer c = capabilityIssuer \<and> Audience c = capabilityAudience \<and> Subject c = agent \<and> Scope c = scope \<and>
    (ClaimRole c = ''control'' \<or> ClaimRole c = ''observe'') \<and>
    IssuedAt c \<le> unix t + 30 \<and> unix t < ExpiresAt c \<and> TokenID c \<noteq> []"
proof -
  have "\<exists>p0 p1 p2 sig. splitOn (CHR ''.'') token = [p0, p1, p2] \<and> decodeURL p2 = Some sig \<and>
      verify (publicKey v) (p0 @ ''.'' @ p1) sig"
    using VerifyFor_ok(1) [OF assms]
    by (auto simp: parseToken_def split: list.splits option.splits if_splits)
  then show ?thesis using VerifyFor_ok(2) [OF assms] by (simp add: checkClaims_None)
qed

text \<open>A concrete verifier: signatures repeat the message, two texts stand for the two values.\<close>

definition demoClaims :: Claims where
  "demoClaims = mintClaims \<lparr>privateKey = ''k'', sgTTL = 60000000000\<rparr> 0 ''id'' ''agent'' ''control'' ''req''"

definition demoSign :: "string \<Rightarrow> string \<Rightarrow> string" where
  "demoSign k m = m"

definition demoVerify :: "string \<Rightarrow> string \<Rightarrow> string \<Rightarrow> bool" where
  "demoVerify k m sg = (sg = m)"

definition demoPrint :: "json \<Rightarrow> string" where
  "demoPrint v = (if v = headerJson then ''h'' else ''c'')"

definition demoParse :: scanner where
  "demoParse s = (if s = ''h'' then Some (headerJson, []) else if s = ''c'' then Some (claimsJson demoClaims, []) else None)"

definition demoVerifier :: Verifier where
  "demoVerifier = \<lparr>publicKey = ''p'', used = Map.empty\<rparr>"

definition demoToken :: string where
  "demoToken = encodeURL ''h'' @ ''.'' @ encodeURL ''c'' @ ''.'' @ encodeURL (encodeURL ''h'' @ ''.'' @ encodeURL ''c'')"

lemma splitOn_token:
  "splitOn (CHR ''.'') (encodeURL a @ ''.'' @ encodeURL b @ ''.'' @ encodeURL c) = [encodeURL a, encodeURL b, encodeURL c]"
  using encodeURL_no_dot by (simp add: splitOn_append splitOn_none)

lemma encodeURL_nonempty: "s \<noteq> [] \<Longrightarrow> encodeURL s \<noteq> []"
  by (cases s) (auto simp: encodeURL_def encodeRaw_def bytesOf_def elim: encodeDigits.elims)

lemma demo_accepted:
  "VerifyFor demoVerify demoParse 0 demoToken ''agent'' ''terminal'' demoVerifier =
     (Inr demoClaims, demoVerifier\<lparr>used := [encodeURL ''id'' \<mapsto> 60]\<rparr>)"
proof -
  have "decodeStruct False claimsFields (claimsJson demoClaims) zeroClaims = Some demoClaims"
    by (rule claims_decode) (simp_all add: demoClaims_def mintClaims_def int64_def unix_def)
  then have "parseToken demoVerify demoParse (publicKey demoVerifier) demoToken = Inr demoClaims"
    unfolding parseToken_def demoToken_def splitOn_token
    by (simp add: checkHeader_def unmarshalText_def demoParse_def atEOF_def header_ok demoVerify_def)
  moreover have "checkClaims (unix 0) ''agent'' ''terminal'' demoClaims = None"
    using encodeURL_nonempty [of "''id''"] by (simp add: checkClaims_None demoClaims_def mintClaims_def unix_def)
  ultimately show ?thesis
    by (simp add: VerifyFor_def demoVerifier_def purgeUsed_def demoClaims_def mintClaims_def unix_def)
qed

theorem verify_sound_witness:
  "\<exists>p0 p1 p2 sig. splitOn (CHR ''.'') demoToken = [p0, p1, p2] \<and> decodeURL p2 = Some sig \<and>
    demoVerify (publicKey demoVerifier) (p0 @ ''.'' @ p1) sig \<and> Subject demoClaims = ''agent''"
  using verify_sound [OF demo_accepted] by blast

section \<open>Single use\<close>

text \<open>A run of the verifier: each call at its time, with its token, agent and scope.\<close>

type_synonym call = "time \<times> string \<times> string \<times> string"

definition verifyCall :: "(string \<Rightarrow> string \<Rightarrow> string \<Rightarrow> bool) \<Rightarrow> scanner \<Rightarrow> call \<Rightarrow> Verifier \<Rightarrow> Verifier" where
  "verifyCall verify parse k v = (case k of (t, token, agent, scope) \<Rightarrow> snd (VerifyFor verify parse t token agent scope v))"

abbreviation verifyRun :: "(string \<Rightarrow> string \<Rightarrow> string \<Rightarrow> bool) \<Rightarrow> scanner \<Rightarrow> call list \<Rightarrow> Verifier \<Rightarrow> Verifier" where
  "verifyRun verify parse ks v \<equiv> fold (verifyCall verify parse) ks v"

text \<open>A used identifier stays recorded until its token has expired.\<close>

lemma VerifyFor_used:
  assumes "used v i = Some e" "unix t < e"
  shows "used (snd (VerifyFor verify parse t token agent scope v)) i = Some e"
proof -
  have "purgeUsed (unix t) (used v) i = Some e" using assms by (simp add: purgeUsed_def)
  then show ?thesis using assms
    by (auto simp: VerifyFor_def Let_def split: sum.splits option.splits)
qed

lemma unix_mono: "s \<le> t \<Longrightarrow> unix s \<le> unix t"
  by (simp add: unix_def zdiv_mono1)

lemma verifyRun_used:
  "used v i = Some e \<Longrightarrow> \<forall>k \<in> set ks. fst k \<le> t \<Longrightarrow> unix t < e \<Longrightarrow> used (verifyRun verify parse ks v) i = Some e"
proof (induction ks arbitrary: v)
  case Nil
  then show ?case by simp
next
  case (Cons k ks)
  obtain s token agent scope where k: "k = (s, token, agent, scope)" by (cases k) auto
  have "unix s < e" using Cons.prems(2,3) k unix_mono [of s t] by simp
  then have "used (verifyCall verify parse k v) i = Some e"
    using VerifyFor_used Cons.prems(1) k by (simp add: verifyCall_def)
  with Cons.IH Cons.prems(2,3) show ?case by simp
qed

lemma verifyRun_key: "publicKey (verifyRun verify parse ks v) = publicKey v"
  by (induction ks arbitrary: v) (auto simp: verifyCall_def frame_simps split: prod.splits)



section \<open>Round trip\<close>

text \<open>
  C15. A minted capability verifies: for a key pair whose signatures verify and a JSON printer
  whose output the scanner reads back, a token minted for an agent and role is accepted by the
  verifier of that agent, with exactly the minted claims, from its issue until its expiry,
  unless its identifier has been used.
\<close>

theorem mint_verify:
  assumes sig: "\<And>m. verify (publicKey v) m (sign (privateKey s) m)"
    and json: "parse (print headerJson) = Some (headerJson, [])"
      "parse (print (claimsJson (mintClaims s now ident agent role rid))) =
         Some (claimsJson (mintClaims s now ident agent role rid), [])"
    and mint: "Mint sign print s now (Inr ident) agent role rid = Inr token"
    and i64: "int64 (unix now)" "int64 (unix (now + sgTTL s))"
    and time: "unix now \<le> unix t + 30" "unix t < unix (now + sgTTL s)" "unix now < unix (now + sgTTL s)"
    and ident: "ident \<noteq> []" "purgeUsed (unix t) (used v) (encodeURL ident) = None"
  shows "fst (VerifyFor verify parse t token agent ''terminal'' v) =
    Inr (mintClaims s now ident agent role rid)"
proof -
  let ?c = "mintClaims s now ident agent role rid"
  let ?p = "encodeURL (print (claimsJson ?c))"
  have ok: "agent \<noteq> []" "rid \<noteq> []" "role = ''control'' \<or> role = ''observe''"
    using mint by (auto simp: Mint_def split: if_splits)
  let ?u = "encodeURL (print headerJson) @ ''.'' @ ?p"
  have token: "token = encodeURL (print headerJson) @ ''.'' @ ?p @ ''.'' @ encodeURL (sign (privateKey s) ?u)"
    using mint by (auto simp: Mint_def Let_def split: if_splits)
  have un: "unmarshalText parse (print headerJson) = Some headerJson"
    "unmarshalText parse (print (claimsJson ?c)) = Some (claimsJson ?c)"
    by (simp_all add: unmarshalText_def json atEOF_def)
  have "checkHeader parse (print headerJson)" by (simp add: checkHeader_def un header_ok)
  moreover have "decodeStruct False claimsFields (claimsJson ?c) zeroClaims = Some ?c"
    using i64 by (intro claims_decode) (simp_all add: mintClaims_def)
  ultimately have "parseToken verify parse (publicKey v) token = Inr ?c"
    unfolding parseToken_def token splitOn_token using sig un by simp
  moreover have "encodeURL ident \<noteq> []" using ident(1) by (rule encodeURL_nonempty)
  then have "checkClaims (unix t) agent ''terminal'' ?c = None"
    using ok time by (simp add: checkClaims_None mintClaims_def)
  ultimately show ?thesis using ok(1) ident(2) by (simp add: VerifyFor_def Let_def mintClaims_def)
qed

theorem mint_verify_witness:
  "fst (VerifyFor demoVerify demoParse 0 demoToken ''agent'' ''terminal'' demoVerifier) =
    Inr (mintClaims \<lparr>privateKey = ''k'', sgTTL = 60000000000\<rparr> 0 ''id'' ''agent'' ''control'' ''req'')"
proof -
  let ?s = "\<lparr>privateKey = ''k'', sgTTL = 60000000000\<rparr>"
  have "claimsJson demoClaims \<noteq> headerJson" by (simp add: claimsJson_def headerJson_def)
  then have p: "demoPrint (claimsJson (mintClaims ?s 0 ''id'' ''agent'' ''control'' ''req'')) = ''c''"
      "demoPrint headerJson = ''h''"
    by (simp_all add: demoPrint_def demoClaims_def)
  have "Mint demoSign demoPrint ?s 0 (Inr ''id'') ''agent'' ''control'' ''req'' = Inr demoToken"
    by (simp add: Mint_def Let_def p demoSign_def demoToken_def)
  then show ?thesis
    by (intro mint_verify [where sign = demoSign and print = demoPrint])
      (simp_all add: demoVerify_def demoSign_def p demoParse_def demoClaims_def int64_def unix_def
        demoVerifier_def purgeUsed_def)
qed

end
