(* ===== verification/Server.thy ===== *)
theory Server
  imports Hub_Control FrameCodec Capability
begin

text \<open>
  The runner's API, \<^verbatim>\<open>internal/runner/server.go\<close>: authentication, the HTTP handlers, the first
  frame of a terminal connection and the client frames after it. A response is a status and a
  body; \<open>rid\<close> arguments are fresh request identifiers.
\<close>

section \<open>Requests and responses\<close>

record httpRequest =
  reqMethod :: string
  reqPath :: string
  reqHeader :: "string \<Rightarrow> string"
  reqBody :: string

datatype respBody =
    RespError string string string
  | RespStatus "(string \<times> string) list"
  | RespMetadata Metadata

type_synonym response = "nat \<times> respBody"

definition writeHTTPError :: "string \<Rightarrow> nat \<Rightarrow> string \<Rightarrow> string \<Rightarrow> response" where
  "writeHTTPError rid status code message = (status, RespError code message rid)"

section \<open>Authentication\<close>

definition noPermissions :: Permissions where
  "noPermissions = \<lparr>Observe = False, Control = False, TerminalOnly = False, PermRequestID = []\<rparr>"

definition constantTimeEqual :: "string \<Rightarrow> string \<Rightarrow> bool" where
  "constantTimeEqual l r = (length l = length r \<and> l = r)"

definition staticAuthenticate :: "string \<Rightarrow> string \<Rightarrow> httpRequest \<Rightarrow> Permissions option" where
  "staticAuthenticate controlToken observeToken req =
     (let value = reqHeader req ''Authorization'' in
      if \<not> hasPrefix value ''Bearer '' then None
      else let token = trimPrefix value ''Bearer '' in
        if constantTimeEqual token controlToken then Some (noPermissions\<lparr>Observe := True, Control := True\<rparr>)
        else if length observeToken > 0 \<and> constantTimeEqual token observeToken
        then Some (noPermissions\<lparr>Observe := True\<rparr>)
        else None)"

definition capabilityAuthenticate ::
  "(string \<Rightarrow> string \<Rightarrow> string \<Rightarrow> bool) \<Rightarrow> scanner \<Rightarrow> time \<Rightarrow> string \<Rightarrow> httpRequest \<Rightarrow> Verifier
     \<Rightarrow> Permissions option \<times> Verifier" where
  "capabilityAuthenticate verify parse t agentID req v =
     (if reqMethod req \<noteq> ''GET'' \<or> reqPath req \<noteq> ''/v1alpha1/terminal'' then (None, v)
      else case VerifyFor verify parse t (reqHeader req CapabilityHeader) agentID ''terminal'' v of
        (Inl _, v') \<Rightarrow> (None, v')
      | (Inr c, v') \<Rightarrow>
          (Some (noPermissions\<lparr>Observe := True, TerminalOnly := True, PermRequestID := ClaimRequestID c,
             Control := (ClaimRole c = ''control'')\<rparr>), v'))"

datatype authenticator =
    StaticAuth string string
  | CapabilityAuth string Verifier

fun authenticateOne ::
  "(string \<Rightarrow> string \<Rightarrow> string \<Rightarrow> bool) \<Rightarrow> scanner \<Rightarrow> time \<Rightarrow> httpRequest \<Rightarrow> authenticator
     \<Rightarrow> Permissions option \<times> authenticator" where
  "authenticateOne verify parse t req (StaticAuth c o') = (staticAuthenticate c o' req, StaticAuth c o')"
| "authenticateOne verify parse t req (CapabilityAuth agent v) =
     (let (p, v') = capabilityAuthenticate verify parse t agent req v in (p, CapabilityAuth agent v'))"

text \<open>\<open>multipleAuthenticators\<close>: the first that accepts.\<close>

fun authenticate ::
  "(string \<Rightarrow> string \<Rightarrow> string \<Rightarrow> bool) \<Rightarrow> scanner \<Rightarrow> time \<Rightarrow> httpRequest \<Rightarrow> authenticator list
     \<Rightarrow> Permissions option \<times> authenticator list" where
  "authenticate verify parse t req [] = (None, [])"
| "authenticate verify parse t req (a # as) =
     (case authenticateOne verify parse t req a of
        (Some p, a') \<Rightarrow> (Some p, a' # as)
      | (None, a') \<Rightarrow> (let (p, as') = authenticate verify parse t req as in (p, a' # as')))"

section \<open>Handlers\<close>

definition handleHealth :: response where
  "handleHealth = (200, RespStatus [(''status'', ''ok'')])"

definition handleReadiness :: "hub \<Rightarrow> response" where
  "handleReadiness h =
     (if mdState (metadata h) = ''starting'' then (503, RespStatus [(''status'', ''starting'')])
      else (200, RespStatus [(''status'', ''ready'')]))"

definition handleMetadata :: "string \<Rightarrow> hub \<Rightarrow> Permissions \<Rightarrow> response" where
  "handleMetadata rid h perms =
     (if TerminalOnly perms
      then writeHTTPError rid 403 ''forbidden_scope'' ''the credential is scoped to terminal streaming''
      else (200, RespMetadata (metadata h)))"

text \<open>The second result of \<open>handleStop\<close> says whether \<open>terminate\<close> was started.\<close>

definition handleStop :: "string \<Rightarrow> Permissions \<Rightarrow> response \<times> bool" where
  "handleStop rid perms =
     (if \<not> Control perms \<or> TerminalOnly perms
      then (writeHTTPError rid 403 ''forbidden_role'' ''control permission is required'', False)
      else ((202, RespStatus [(''status'', ''stopping'')]), True))"

definition signalFields :: "string fields" where
  "signalFields = [(''signal'', setField decString (\<lambda>x r. x))]"

definition handleSignal ::
  "scanner \<Rightarrow> (rune \<Rightarrow> bool) \<Rightarrow> (int \<Rightarrow> int \<Rightarrow> goerror option) \<Rightarrow> string \<Rightarrow> string \<Rightarrow> Permissions \<Rightarrow> agentProcess
     \<Rightarrow> response \<times> agentProcess" where
  "handleSignal parse pr kill rid body perms p =
     (if \<not> Control perms \<or> TerminalOnly perms
      then (writeHTTPError rid 403 ''forbidden_role'' ''control permission is required'', p)
      else case (case parse (take 4096 body) of None \<Rightarrow> None | Some (v, _) \<Rightarrow> decodeStruct True signalFields v []) of
        None \<Rightarrow> (writeHTTPError rid 400 ''invalid_signal'' ''request body must contain a supported signal'', p)
      | Some name \<Rightarrow>
         (case parseSignal pr name of
            Inl e \<Rightarrow> (writeHTTPError rid 400 ''invalid_signal'' e, p)
          | Inr sig \<Rightarrow>
             (case procSignal kill sig p of
                (Some e, p') \<Rightarrow> (writeHTTPError rid 409 ''agent_not_running'' e, p')
              | (None, p') \<Rightarrow> ((202, RespStatus [(''status'', ''signaled''), (''signal'', signalName sig)]), p'))))"

datatype route = RHealth | RReady | RMetadata | RTerminal | RSignal | RStop

text \<open>The patterns registered with the mux; a \<open>GET\<close> pattern also matches \<open>HEAD\<close>.\<close>

definition handler :: "string \<Rightarrow> string \<Rightarrow> route option" where
  "handler meth path =
     (if meth = ''GET'' \<or> meth = ''HEAD'' then
        map_of [(''/healthz'', RHealth), (''/readyz'', RReady), (''/v1alpha1/metadata'', RMetadata),
          (''/v1alpha1/terminal'', RTerminal)] path
      else if meth = ''POST'' then map_of [(''/v1alpha1/signal'', RSignal), (''/v1alpha1/stop'', RStop)] path
      else None)"

definition authenticated :: "string \<Rightarrow> Permissions option \<Rightarrow> (Permissions \<Rightarrow> 'a) \<Rightarrow> (response \<Rightarrow> 'a) \<Rightarrow> 'a" where
  "authenticated rid perms next refuse =
     (case perms of
        None \<Rightarrow> refuse (writeHTTPError rid 401 ''unauthenticated'' ''a valid bearer token is required'')
      | Some p \<Rightarrow> next p)"

section \<open>The terminal connection\<close>

definition offersProtocol :: "string \<Rightarrow> string \<Rightarrow> bool" where
  "offersProtocol header protocol = list_ex (\<lambda>o'. trimSpace o' = protocol) (splitOn (CHR '','') header)"

definition errorCode :: "goerror \<Rightarrow> string" where
  "errorCode e =
     (case cutAt (CHR '':'') e of
        Some (before, _) \<Rightarrow> if before \<noteq> [] then before else ''internal_error''
      | None \<Rightarrow> ''internal_error'')"

text \<open>The first message: an error frame that ends the connection, or an attach request.\<close>

definition firstFrame ::
  "(string \<Rightarrow> Frame result) \<Rightarrow> string \<Rightarrow> Permissions \<Rightarrow> bool \<Rightarrow> string \<Rightarrow> Frame + attachRequest" where
  "firstFrame decode requestID perms isText msg =
     (if \<not> isText
      then Inl (protocolError ''unsupported_protocol'' ''terminal frames must be JSON text messages'' requestID False)
      else let bad = protocolError ''unsupported_protocol'' ''the first frame must be a valid v1alpha1 attach'' requestID False in
        case decode msg of
          Inl _ \<Rightarrow> Inl bad
        | Inr f \<Rightarrow>
            if frType f \<noteq> ''attach'' \<or> frProtocolVersion f \<noteq> ProtocolVersion then Inl bad
            else case frTerminalSize f of
              None \<Rightarrow> Inl bad
            | Some sz \<Rightarrow> Inr \<lparr>arRole = frRole f, arAfterSequence = frAfterSequence f, arTakeover = frTakeover f,
                arTerminalSize = sz, arPermissions = perms\<rparr>)"

definition attachErrorFrame :: "string \<Rightarrow> goerror \<Rightarrow> Frame" where
  "attachErrorFrame requestID e =
     (let code = errorCode e in protocolError code e requestID (code = ''controller_busy''))"

text \<open>
  What the environment decides while a client frame is handled: request identifiers (of an
  error frame, and of a slow-consumer error), clock readings, outcomes of system calls, and
  the identifiers of a takeover.
\<close>

record clientEnv =
  ceRid :: string
  ceSlow :: string
  ceNow :: time
  ceNow2 :: time
  ceWrite :: "byte list \<Rightarrow> nat \<times> goerror option"
  ceSetsize :: "TerminalSize \<Rightarrow> goerror option"
  ceAttach :: attachEnv

definition sendProtocolError :: "clientEnv \<Rightarrow> addr \<Rightarrow> string \<Rightarrow> string \<Rightarrow> bool \<Rightarrow> hub \<Rightarrow> hub" where
  "sendProtocolError env a code message retryable h =
     hubSend (ceSlow env) a (protocolError code message (ceRid env) retryable) h"

text \<open>A call's error goes to the client as an error frame.\<close>

definition reportError :: "clientEnv \<Rightarrow> addr \<Rightarrow> unit outcome \<times> hub \<Rightarrow> (bool \<times> hub) outcome" where
  "reportError env a r =
     (case r of
        (Ok _, h) \<Rightarrow> Ok (True, h)
      | (Fail e, h) \<Rightarrow> Ok (True, sendProtocolError env a (errorCode e) e False h)
      | (Panic, h) \<Rightarrow> Panic)"

definition pongFrame :: "string \<Rightarrow> Frame" where
  "pongFrame nonce = zeroFrame\<lparr>frType := ''pong'', frNonce := nonce\<rparr>"

definition unsupportedClient :: "clientEnv \<Rightarrow> Frame" where
  "unsupportedClient env = protocolError ''unsupported_protocol'' ''client frame type is not supported'' (ceRid env) False"

definition closeSubscription :: "addr \<Rightarrow> Frame \<Rightarrow> hub \<Rightarrow> hub" where
  "closeSubscription a f h =
     (case hStore h a of None \<Rightarrow> h | Some s \<Rightarrow> h\<lparr>hStore := (hStore h)(a \<mapsto> subClose f s)\<rparr>)"

definition handleClientFrame :: "clientEnv \<Rightarrow> addr \<Rightarrow> Frame \<Rightarrow> hub \<Rightarrow> (bool \<times> hub) outcome" where
  "handleClientFrame env a frame h =
     (if frType frame = ''input'' then
        (if frLeaseID frame = []
         then Ok (True, sendProtocolError env a ''invalid_controller_lease'' ''input requires the current lease'' False h)
         else reportError env a
           (writeInput (ceSlow env) (ceNow env) (ceNow2 env) (ceWrite env) a (frLeaseID frame) (frData frame) h))
      else if frType frame = ''resize'' then
        (case frTerminalSize frame of
           Some sz \<Rightarrow>
             if frLeaseID frame = []
             then Ok (True, sendProtocolError env a ''invalid_controller_lease''
                    ''resize requires the current lease and terminal size'' False h)
             else reportError env a
               (resize (ceSlow env) (ceNow env) (ceNow2 env) (ceSetsize env) a (frLeaseID frame) sz h)
         | None \<Rightarrow> Ok (True, sendProtocolError env a ''invalid_controller_lease''
                    ''resize requires the current lease and terminal size'' False h))
      else if frType frame = ''takeover'' then
        (case takeover (ceAttach env) a h of
           (Fail e, h') \<Rightarrow> Ok (True, sendProtocolError env a (errorCode e) e False h')
         | (Ok attached, h') \<Rightarrow> Ok (True, hubSend (ceSlow env) a attached h')
         | (Panic, h') \<Rightarrow> Panic)
      else if frType frame = ''ack'' then
        (case frSequence frame of
           None \<Rightarrow> Ok (True, sendProtocolError env a ''unsupported_protocol'' ''ack requires a sequence'' False h)
         | Some sq \<Rightarrow>
            (case acknowledge (ceNow env) a sq h of
               (Some e, h') \<Rightarrow> Ok (True, sendProtocolError env a (errorCode e) e False h')
             | (None, h') \<Rightarrow> Ok (True, h')))
      else if frType frame = ''pong'' then Ok (True, touch (ceNow env) a h)
      else if frType frame = ''ping'' then
        (if frNonce frame = [] \<or> length (frNonce frame) > 128
         then Ok (True, sendProtocolError env a ''unsupported_protocol'' ''ping nonce is invalid'' False h)
         else Ok (True, hubSend (ceSlow env) a (pongFrame (frNonce frame)) (touch (ceNow env) a h)))
      else Ok (False, closeSubscription a (unsupportedClient env) h))"

text \<open>One message of an attached client, as the read loop of \<open>handleTerminal\<close> treats it.\<close>

definition handleMessage ::
  "(string \<Rightarrow> Frame result) \<Rightarrow> clientEnv \<Rightarrow> addr \<Rightarrow> bool \<Rightarrow> string \<Rightarrow> hub \<Rightarrow> (bool \<times> hub) outcome" where
  "handleMessage decode env a isText msg h =
     (if \<not> isText then Ok (False, closeSubscription a
        (protocolError ''unsupported_protocol'' ''terminal frames must be JSON text messages'' (ceRid env) False) h)
      else case decode msg of
        Inl _ \<Rightarrow> Ok (False, closeSubscription a
          (protocolError ''unsupported_protocol'' ''terminal frame is invalid'' (ceRid env) False) h)
      | Inr f \<Rightarrow> handleClientFrame env a f h)"

text \<open>What \<open>handleTerminal\<close> answers before the connection is upgraded, and with which identifier.\<close>

definition handleTerminalRefuses :: "string \<Rightarrow> httpRequest \<Rightarrow> response option" where
  "handleTerminalRefuses rid req =
     (if \<not> offersProtocol (reqHeader req ''Sec-WebSocket-Protocol'') Protocol
      then Some (writeHTTPError rid 400 ''unsupported_protocol'' ''the Sandherd terminal subprotocol is required'')
      else None)"

definition connectionRequestID :: "string \<Rightarrow> Permissions \<Rightarrow> string" where
  "connectionRequestID fresh perms = (if PermRequestID perms = [] then fresh else PermRequestID perms)"

section \<open>Credentials\<close>

text \<open>
  A capability opens the terminal and nothing else: it is accepted only on
  \<open>GET /v1alpha1/terminal\<close>, grants control only if its role is \<open>control\<close>, and the permissions it
  yields are refused by the metadata, stop and signal handlers, which then do nothing.
\<close>

theorem capability_confined:
  assumes "authenticateOne verify parse t req (CapabilityAuth agent v) = (Some p, au)"
  shows "reqMethod req = ''GET'' \<and> reqPath req = ''/v1alpha1/terminal'' \<and>
    (\<exists>c v'. VerifyFor verify parse t (reqHeader req CapabilityHeader) agent ''terminal'' v = (Inr c, v') \<and>
       (Control p \<longleftrightarrow> ClaimRole c = ''control'')) \<and>
    fst (handleMetadata rid h p) = 403 \<and> fst (fst (handleStop rid p)) = 403 \<and> \<not> snd (handleStop rid p) \<and>
    fst (fst (handleSignal parse pr kill rid body p proc)) = 403 \<and> snd (handleSignal parse pr kill rid body p proc) = proc"
  using assms
  by (auto simp: capabilityAuthenticate_def handleMetadata_def handleStop_def handleSignal_def writeHTTPError_def
      split: if_splits prod.splits sum.splits)

theorem capability_confined_witness:
  "fst (handleMetadata ''r'' (newHub ''a'' ''g'' 1 1 1 1)
     (noPermissions\<lparr>Observe := True, TerminalOnly := True, PermRequestID := ''req'', Control := True\<rparr>)) = 403"
proof -
  let ?req = "\<lparr>reqMethod = ''GET'', reqPath = ''/v1alpha1/terminal'', reqHeader = (\<lambda>_. demoToken), reqBody = []\<rparr>"
  let ?p = "noPermissions\<lparr>Observe := True, TerminalOnly := True, PermRequestID := ''req'', Control := True\<rparr>"
  have "ClaimRequestID demoClaims = ''req''" "ClaimRole demoClaims = ''control''"
    by (simp_all add: demoClaims_def mintClaims_def)
  then have "authenticateOne demoVerify demoParse 0 ?req (CapabilityAuth ''agent'' demoVerifier) =
      (Some ?p, CapabilityAuth ''agent'' (demoVerifier\<lparr>used := [encodeURL ''id'' \<mapsto> 60]\<rparr>))"
    by (simp add: capabilityAuthenticate_def demo_accepted)
  from capability_confined [OF this, of "''r''" "newHub ''a'' ''g'' 1 1 1 1"] show ?thesis by blast
qed

text \<open>
  The static control token is the only bearer that gives control: a request is authenticated
  with control exactly when its \<open>Authorization\<close> header is \<open>Bearer\<close> followed by that token, and as
  an observer only with the configured observe token.
\<close>

theorem static_token_exact:
  "((\<exists>p. staticAuthenticate c ob req = Some p \<and> Control p) \<longleftrightarrow> reqHeader req ''Authorization'' = ''Bearer '' @ c) \<and>
   ((\<exists>p. staticAuthenticate c ob req = Some p \<and> \<not> Control p) \<longleftrightarrow>
      ob \<noteq> [] \<and> ob \<noteq> c \<and> reqHeader req ''Authorization'' = ''Bearer '' @ ob)"
proof -
  define B where "B = ''Bearer ''"
  have eq: "hasPrefix v B \<and> trimPrefix v B = x \<longleftrightarrow> v = B @ x" for v x
    by (auto simp: hasPrefix_def trimPrefix_def prefix_def)
  let ?v = "reqHeader req ''Authorization''"
  have "staticAuthenticate c ob req =
      (if ?v = B @ c then Some (noPermissions\<lparr>Observe := True, Control := True\<rparr>)
       else if ob \<noteq> [] \<and> ?v = B @ ob then Some (noPermissions\<lparr>Observe := True\<rparr>) else None)"
    unfolding staticAuthenticate_def Let_def constantTimeEqual_def B_def [symmetric] using eq [of ?v] by auto
  then show ?thesis unfolding B_def [symmetric] by (auto simp: noPermissions_def)
qed

section \<open>Error codes\<close>

lemma errorCode_prefix: "CHR '':'' \<notin> set code \<Longrightarrow> code \<noteq> [] \<Longrightarrow> errorCode (code @ '':'' @ rest) = code"
  by (simp add: errorCode_def cutAt_append)

lemma errorCode_text:
  "errorCode ''forbidden_role: role must be control or observe'' = ''forbidden_role''"
  "errorCode ''forbidden_role: observe permission is required'' = ''forbidden_role''"
  "errorCode ''forbidden_role: control permission is required'' = ''forbidden_role''"
  "errorCode ''replay_cursor_invalid: cursor is ahead of the runner'' = ''replay_cursor_invalid''"
  "errorCode ''controller_busy: another controller holds the lease'' = ''controller_busy''"
  "errorCode (''invalid_terminal_size: '' @ e) = ''invalid_terminal_size''"
  "errorCode (''invalid_resize: '' @ e) = ''invalid_resize''"
  "errorCode ''attachment_closed: attachment is closed'' = ''attachment_closed''"
  "errorCode ''replay_cursor_invalid: acknowledgement is ahead of the runner'' = ''replay_cursor_invalid''"
  "errorCode ''invalid_input: input exceeds 1 MiB'' = ''invalid_input''"
  "errorCode ''invalid_controller_lease: current controller lease is required'' = ''invalid_controller_lease''"
  "errorCode (''agent_not_running: '' @ e) = ''agent_not_running''"
  by (simp_all add: errorCode_def)

text \<open>
  Which code a refused attach reports, in every case: the role, the terminal size and the
  permissions are checked first, then the cursor, then the lease, and the resize of the terminal
  comes last.
\<close>

theorem attach_error_codes:
  assumes "fst (attach env req h) = Fail e"
  shows "errorCode e =
    (if arRole req \<noteq> ''control'' \<and> arRole req \<noteq> ''observe'' then ''forbidden_role''
     else if validateSize (arTerminalSize req) \<noteq> None then ''invalid_terminal_size''
     else if \<not> Observe (arPermissions req) \<or> (arRole req = ''control'' \<and> \<not> Control (arPermissions req)) then ''forbidden_role''
     else if \<not> cursorValid h (arAfterSequence req) then ''replay_cursor_invalid''
     else if arRole req = ''control'' \<and> \<not> arTakeover req \<and>
       hController (expireControllerLocked (aeRid env) (aeNow env) h) \<noteq> None then ''controller_busy''
     else ''invalid_resize'')"
proof -
  let ?h = "expireControllerLocked (aeRid env) (aeNow env) h"
  have cv: "cursorValid ?h c = cursorValid h c" for c
    using cursorValid_keeps [OF expireControllerLocked_keeps] .
  have rs: "errorCode e' = ''invalid_resize''" if "attachResize env req ?h = (Fail e', h')" for e' h'
    using that errorCode_text(7) by (auto simp: attachResize_def split: if_splits option.splits prod.splits)
  have lk: "errorCode e = (if \<not> cursorValid h (arAfterSequence req) then ''replay_cursor_invalid''
     else if arRole req = ''control'' \<and> \<not> arTakeover req \<and> hController ?h \<noteq> None then ''controller_busy''
     else ''invalid_resize'')" if "fst (attachLocked env req ?h) = Fail e"
    using that cv rs errorCode_text(4,5)
    by (auto simp: attachLocked_def Let_def split: if_splits outcome.splits prod.splits)
  show ?thesis
  proof (cases "attach_allowed req")
    case True
    then have "fst (attachLocked env req ?h) = Fail e" using assms by (simp add: attach_accepted)
    from lk [OF this] True show ?thesis by (auto simp: attach_allowed_def)
  next
    case False
    then show ?thesis using assms errorCode_text(1-3) errorCode_text(6)
      by (auto simp: attach_def attach_allowed_def split: if_splits option.splits)
  qed
qed

theorem attach_error_codes_witness:
  "\<exists>e. fst (attach \<lparr>aeNow = 0, aeNow2 = 0, aeID = ''i'', aeLease = ''l'', aeRid = ''r'', aeSetsize = (\<lambda>_. None)\<rparr>
      \<lparr>arRole = ''admin'', arAfterSequence = None, arTakeover = False, arTerminalSize = zeroSize, arPermissions = noPermissions\<rparr>
      (newHub ''a'' ''g'' 1 1 1 1)) = Fail e \<and> errorCode e = ''forbidden_role''"
proof -
  let ?env = "\<lparr>aeNow = 0, aeNow2 = 0, aeID = ''i'', aeLease = ''l'', aeRid = ''r'', aeSetsize = (\<lambda>_. None)\<rparr>"
  let ?req = "\<lparr>arRole = ''admin'', arAfterSequence = None, arTakeover = False, arTerminalSize = zeroSize, arPermissions = noPermissions\<rparr>"
  have "fst (attach ?env ?req (newHub ''a'' ''g'' 1 1 1 1)) = Fail ''forbidden_role: role must be control or observe''"
    by (simp add: attach_def)
  with attach_error_codes [OF this] show ?thesis by simp
qed

end
