(* ===== verification/Hub_Props.thy ===== *)
theory Hub_Props
  imports Hub_Control
begin

text \<open>
  The properties of the runner's hub, over every interleaving of its goroutines: one
  controller, bounded queues, gap-free delivery, a single exit frame, and input only under
  the current lease. The sample run \<open>demo0\<close> ... \<open>demo4\<close> instantiates them.
\<close>

section \<open>A sample run\<close>

definition demoSize :: TerminalSize where
  "demoSize = \<lparr>Columns = 80, Rows = 24, PixelWidth = 0, PixelHeight = 0\<rparr>"

definition demoProc :: agentProcess where
  "demoProc = (newAgentProcess [''sh''] ''/'' [])\<lparr>cmdPid := Some 7,
     terminal := Some \<lparr>ttyInput = [], ttySize = demoSize, ttyClosed = False\<rparr>\<rparr>"

definition demo0 :: sys where
  "demo0 = sysInit (newHub ''agent'' ''gen'' 4 2 1 1000) demoProc"

definition demo1 :: sys where
  "demo1 = demo0\<lparr>sHub := setProcess (sProc demo0) (sHub demo0)\<rparr>"

definition demoEnv :: attachEnv where
  "demoEnv = \<lparr>aeNow = 0, aeNow2 = 1, aeID = ''att1'', aeLease = ''lease1'', aeRid = ''r'', aeSetsize = (\<lambda>_. None)\<rparr>"

definition demoReq :: attachRequest where
  "demoReq = \<lparr>arRole = ''control'', arAfterSequence = Some 0, arTakeover = False, arTerminalSize = demoSize,
     arPermissions = \<lparr>Observe = True, Control = True, TerminalOnly = False, PermRequestID = []\<rparr>\<rparr>"

definition demo2 :: sys where
  "demo2 = demo1\<lparr>sHub := snd (attach demoEnv demoReq (sHub demo1)), sLeases := sLeases demo1 @ [aeLease demoEnv]\<rparr>"

definition demo3 :: sys where
  "demo3 = demo2\<lparr>sHub := publishOutput (\<lambda>_. ''r'') [''att1''] [1, 2] (sHub demo2), sLog := sLog demo2 @ [[1, 2]]\<rparr>"

definition demo4 :: sys where
  "demo4 = demo3\<lparr>sHub := snd (writeInputBegin ''r'' 2 0 ''lease1'' [9] (sHub demo3)),
     sHolder := Some (InputAuthorized 0 ''lease1'' [9])\<rparr>"

lemmas demo_defs = demo0_def demo1_def demo2_def demo3_def demo4_def demoEnv_def demoReq_def demoProc_def
  demoSize_def sysInit_def newHub_def setProcess_def newAgentProcess_def

lemma demo2_hub:
  "sHub demo2 = (sHub demo1)\<lparr>hStore := [0 \<mapsto> (attachedSub demoEnv demoReq (sHub demo1))
       \<lparr>subInitial := subInitial (the (hStore (sHub demo2) 0))\<rparr>],
     hNext := 1, hSubscribers := [''att1'' \<mapsto> 0],
     hController := Some \<lparr>clAttachmentID = ''att1'', clLeaseID = ''lease1'', clExpiresAt = 1001\<rparr>,
     hProcess := Some demoProc\<rparr>"
  by (simp add: demo_defs attach_def validateSize_def expireControllerLocked_def attachLocked_def
      cursorValid_def after_def newReplayBuffer_def attachResize_def procResize_def attachCommit_def
      newSubscription_def attachedSub_def promote_def grantControllerLocked_def Let_def)

lemma demo1_reachable: "reachable fmt demo1"
proof -
  have "started demo0"
    unfolding started_def demo0_def
    by (intro exI [of _ "''agent''"] exI [of _ "''gen''"] exI [of _ 4] exI [of _ 2] exI [of _ 1] exI [of _ 1000]
        exI [of _ demoProc]) (simp add: demoProc_def newAgentProcess_def)
  then have "reachable fmt demo0" by (rule reachable_init)
  moreover have "step fmt demo0 demo1"
    unfolding demo1_def by (rule step.SetProcess) (simp add: demo0_def sysInit_def newHub_def)
  ultimately show ?thesis by (rule reachable_step)
qed

lemma demo2_step: "step fmt demo1 demo2"
  unfolding demo2_def
  by (rule step.Attach) (simp_all add: demo_defs fresh_id_def)

lemma demo3_step: "step fmt demo2 demo3"
proof -
  have "enumerates [''att1''] (hSubscribers (sHub demo2))"
    by (subst demo2_hub) (auto simp: enumerates_def)
  moreover have "sReading demo2" "sLog demo2 = []" by (simp_all add: demo_defs)
  ultimately show ?thesis
    unfolding demo3_def by (intro step.Output) (simp_all add: seqLimit_def)
qed

lemma demo3_reachable: "reachable fmt demo3"
  using demo1_reachable demo2_step demo3_step by (meson reachable_step)

text \<open>The one attachment after the first chunk of output.\<close>

definition demoSub :: subscription where
  "demoSub = (attachedSub demoEnv demoReq (sHub demo1))\<lparr>subInitial := subInitial (the (hStore (sHub demo2) 0)),
     subQueue := [outputFrame 1 [1, 2]]\<rparr>"

lemma demo2_store:
  "hSubscribers (sHub demo2) = [''att1'' \<mapsto> 0]" "hStore (sHub demo2) = [0 \<mapsto> demoSub\<lparr>subQueue := []\<rparr>]"
  by (subst demo2_hub, simp add: demoSub_def attachedSub_def promote_def newSubscription_def)+

lemma demo3_hub:
  "sHub demo3 = (sHub demo2)\<lparr>hStore := [0 \<mapsto> demoSub],
     hReplay := snd (appendOutput [1, 2] (hReplay (sHub demo2)))\<rparr>"
proof -
  have lat: "latest (hReplay (sHub demo2)) = 0"
    by (subst demo2_hub) (simp add: demo_defs newReplayBuffer_def)
  have cap: "hSubscriberBuffer (sHub demo1) = 1" by (simp add: demo_defs)
  have q: "subQueue (attachedSub demoEnv demoReq (sHub demo1)) = []" by simp
  obtain b where ap: "appendOutput [1, 2] (hReplay (sHub demo2)) = (outputFrame 1 [1, 2], b)"
    using appendOutput_fields(1) [of "[1, 2]" "hReplay (sHub demo2)"] lat by (metis add_0 prod.collapse)
  have "subCap demoSub = 1" by (simp add: demoSub_def cap)
  moreover have "demoSub\<lparr>subQueue := [outputFrame 1 [1, 2]]\<rparr> = demoSub" by (simp add: demoSub_def)
  ultimately show ?thesis
    unfolding demo3_def
    by (simp add: publishOutput_def ap broadcastLocked_def sendLocked_def try_send_def demo2_store)
qed


lemma demo3_registered: "registered (sHub demo3) 0 demoSub"
proof -
  have "subID demoSub = ''att1''" by (simp add: demoSub_def demoEnv_def)
  then show ?thesis
    unfolding registered_def demo3_hub by (simp add: demo2_store)
qed

lemma demo3_controller:
  "hController (sHub demo3) = Some \<lparr>clAttachmentID = ''att1'', clLeaseID = ''lease1'', clExpiresAt = 1001\<rparr>"
  unfolding demo3_hub by (simp, subst demo2_hub) simp

lemma demoSub_fields:
  "subID demoSub = ''att1''" "subRole demoSub = ''control''" "subLease demoSub = ''lease1''"
  by (simp_all add: demoSub_def demoEnv_def demoReq_def attachedSub_def promote_def newSubscription_def)

lemma demo4_step: "step fmt demo3 demo4"
proof -
  have "hStore (sHub demo3) 0 = Some demoSub" using demo3_registered by (simp add: registered_def)
  then have "writeInputBegin ''r'' 2 0 ''lease1'' [9] (sHub demo3) = (None, sHub demo3)"
    by (simp add: writeInputBegin_def maxInput_def authorizeControllerLocked_def
        expireControllerLocked_def demo3_controller demoSub_fields)
  moreover have "controlFree demo3" by (simp add: demo_defs)
  ultimately show ?thesis
    using step.InputBegin [of demo3 "''r''" 2 0 "''lease1''" "[9]" None "sHub demo3" fmt]
    by (simp add: demo4_def)
qed

lemma demo4_reachable: "reachable fmt demo4"
  using demo3_reachable demo4_step by (rule reachable_step)

section \<open>One controller\<close>

text \<open>
  C1. In every reachable state of the runner at most one registered attachment has the role
  \<open>control\<close>; it is the one the hub's lease names, it carries that lease's identifier and was
  given the control permission.
\<close>

theorem single_controller:
  assumes "reachable fmt y" "registered (sHub y) a s" "subRole s = ''control''"
  shows "(\<exists>c. hController (sHub y) = Some c \<and> clAttachmentID c = subID s \<and> clLeaseID c = subLease s) \<and>
    Control (subPerms s) \<and>
    (\<forall>b t. registered (sHub y) b t \<and> subRole t = ''control'' \<longrightarrow> b = a \<and> t = s)"
proof -
  have I: "hub_inv (sHub y)" using assms(1) by (rule reachable_hub_inv)
  have st: "hStore (sHub y) a = Some s" using assms(2) by (simp add: registered_def)
  have named: "\<exists>c. hController (sHub y) = Some c \<and> clAttachmentID c = subID t"
    if "registered (sHub y) b t" "subRole t = ''control''" for b t
    using I that by (auto simp: hub_inv_def hub_lease_def lease_ok_def split: if_splits)
  obtain c where c: "hController (sHub y) = Some c" "clAttachmentID c = subID s"
    using named [OF assms(2,3)] by blast
  have lease: "clLeaseID c = subLease s" "Control (subPerms s)"
    using lease_holder [OF I c(1) st c(2)] by (simp_all add: holds_lease_def)
  have "b = a \<and> t = s" if t: "registered (sHub y) b t" "subRole t = ''control''" for b t
  proof -
    have "subID t = subID s" using named [OF t] c by auto
    then have "b = a" using hub_inv_uniq [OF I st] t(1) by (auto simp: registered_def)
    with t st show ?thesis by (simp add: registered_def)
  qed
  then show ?thesis using c lease by blast
qed

theorem single_controller_witness:
  "(\<exists>c. hController (sHub demo3) = Some c \<and> clAttachmentID c = ''att1'' \<and> clLeaseID c = ''lease1'') \<and>
    Control (subPerms demoSub)"
  using single_controller [OF demo3_reachable [of "\<lambda>_. []"] demo3_registered demoSub_fields(2)]
  by (simp add: demoSub_fields)

section \<open>Delivery\<close>

lemma step_log:
  assumes "step fmt y y'" "sys_inv K y"
  shows "prefix (sLog y) (sLog y') \<and> (hExit (sHub y) \<noteq> None \<longrightarrow> sLog y' = sLog y \<and> hExit (sHub y') = hExit (sHub y))"
  using assms(1)
proof (cases rule: step.cases)
  case (Output ord rid d)
  have "hExit (sHub y) = None"
    using Output assms(2) by (cases "hExit (sHub y)") (auto simp: sys_inv_def exit_inv_def)
  then show ?thesis using Output by simp
next
  case (Exited e ord rid0 rid)
  then show ?thesis by (auto simp: publishExit_def)
next
  case (InputBegin rid now a l d r h')
  then show ?thesis using writeInputBegin_keeps [of "sHub y" rid now a l d] by (simp add: keeps_def)
next
  case (ResizeBegin rid now a l r h' sz)
  then show ?thesis using authorize_keeps [of "sHub y" rid now a l] by (simp add: keeps_def)
next
  case (InputWrite a l d wr r h')
  then show ?thesis using writeInputWrite_keeps [of "sHub y" wr d] by (simp add: wkeeps_def)
next
  case (ResizeCall a l sz ss r h')
  then show ?thesis using resizeCall_keeps [of "sHub y" ss sz] by (simp add: keeps_def)
next
  case (HubClose h')
  then show ?thesis using hubClose_keeps by (simp add: keeps_def)
qed (simp_all add: op_keeps [unfolded keeps_def] setProcess_def)

lemma steps_log:
  "steps fmt y y' \<Longrightarrow> reachable fmt y \<Longrightarrow>
     prefix (sLog y) (sLog y') \<and> (hExit (sHub y) \<noteq> None \<longrightarrow> sLog y' = sLog y \<and> hExit (sHub y') = hExit (sHub y))"
proof (induction rule: steps.induct)
  case (steps_refl y)
  then show ?case by simp
next
  case (steps_step y y' y'')
  then obtain K where "sys_inv K y'" using steps_reachable reachable_sys_inv by blast
  from step_log [OF steps_step.hyps(2) this] steps_step show ?case
    using prefix_order.trans by fastforce
qed

text \<open>
  C2. Between any two points of a run at which a client's attachment is live, its stream (what
  its connection has written plus what is queued for it) grows by exactly the output frames
  published in between, in order and with consecutive numbers, followed by the exit frame if
  the agent exited in between: no interleaving loses, duplicates or reorders a frame.
\<close>

theorem live_stream_extends:
  assumes "reachable fmt y" "steps fmt y y'" "registered (sHub y) a s" "registered (sHub y') a s'"
  shows "delivered y' a s' = delivered y a s @
    (if hExit (sHub y) = None then drop (length (sLog y)) (numbered (sLog y')) @ exits (sHub y') else [])"
proof -
  obtain K where K: "sys_inv K y" using reachable_sys_inv [OF assms(1)] by blast
  have "hStore (sHub y) a = Some s" "hStore (sHub y') a = Some s'" using assms(3,4) by (simp_all add: registered_def)
  from steps_sys_inv [OF assms(2) K, of a] this(1)
  obtain K' where K': "sys_inv K' y'" "K' a = K a" by auto
  have d: "delivered y a s = fullStream (K a) y" "K a \<le> length (sLog y)" "delivered y' a s' = fullStream (K a) y'"
    using streams_invD(2) [of K y a s] streams_invD(2) [of K' y' a s'] K K' assms(3,4)
    by (auto simp: sys_inv_def stream_ok_def registered_def)
  obtain ds where ds: "sLog y' = sLog y @ ds"
    using steps_log [OF assms(2,1)] by (auto simp: prefix_def)
  show ?thesis
  proof (cases "hExit (sHub y)")
    case None
    have "drop (length (sLog y)) (numbered (sLog y @ ds)) = numberedFrom (Suc (length (sLog y))) ds"
      by (simp add: numberedFrom_append)
    then show ?thesis using d ds None by (simp add: fullStream_def exits_def numberedFrom_append)
  next
    case (Some f)
    with steps_log [OF assms(2,1)] d show ?thesis by (simp add: fullStream_def exits_def)
  qed
qed

theorem live_stream_extends_witness:
  "delivered demo3 0 demoSub = delivered demo2 0 (demoSub\<lparr>subQueue := []\<rparr>) @ [outputFrame 1 [1, 2]]"
proof -
  have "reachable (\<lambda>_. []) demo2" using demo1_reachable demo2_step by (rule reachable_step)
  moreover have "steps (\<lambda>_. []) demo2 demo3" using steps_refl demo3_step by (rule steps_step)
  moreover have "registered (sHub demo2) 0 (demoSub\<lparr>subQueue := []\<rparr>)"
    by (simp add: registered_def demo2_store demoSub_fields)
  ultimately have "delivered demo3 0 demoSub = delivered demo2 0 (demoSub\<lparr>subQueue := []\<rparr>) @
      (if hExit (sHub demo2) = None then drop (length (sLog demo2)) (numbered (sLog demo3)) @ exits (sHub demo3) else [])"
    using demo3_registered by (rule live_stream_extends)
  moreover have "hExit (sHub demo2) = None" by (subst demo2_hub) (simp add: demo_defs)
  moreover have "sLog demo2 = []" "sLog demo3 = [[1, 2]]" by (simp_all add: demo_defs)
  moreover have "exits (sHub demo3) = []" using calculation(2) by (simp add: exits_def demo3_hub)
  ultimately show ?thesis by simp
qed

text \<open>
  Whatever a connection has written, whether its attachment is live, detached or was dropped
  as a slow consumer, is a contiguous run of the agent's numbered output, with the exit frame
  (one at most) only after the last output frame of the run.
\<close>

theorem written_stream_contiguous:
  assumes "reachable fmt y" "hStore (sHub y) a = Some s"
  shows "\<exists>k \<le> length (sLog y). prefix (stream (sWire y a)) (drop k (numbered (sLog y)) @ exits (sHub y))"
proof -
  obtain K where "sys_inv K y" using reachable_sys_inv [OF assms(1)] by blast
  then have "stream_ok (K a) y a s" using streams_invD(2) assms(2) by (auto simp: sys_inv_def)
  then have k: "K a \<le> length (sLog y)" "prefix (delivered y a s) (drop (K a) (numbered (sLog y)) @ exits (sHub y))"
    by (simp_all add: stream_ok_def fullStream_def)
  have "prefix (stream (sWire y a)) (delivered y a s)" by (simp add: delivered_def)
  then show ?thesis using k prefix_order.trans by blast
qed

theorem written_stream_contiguous_witness:
  "\<exists>k \<le> length (sLog demo3). prefix (stream (sWire demo3 0)) (drop k (numbered (sLog demo3)) @ exits (sHub demo3))"
  using written_stream_contiguous [OF demo3_reachable [of "\<lambda>_. []"], of 0 demoSub] demo3_registered
  by (simp add: registered_def)

lemma attachedFrame_initial [simp]: "attachedFrame h (s\<lparr>subInitial := fs\<rparr>) = attachedFrame h s"
  by (simp add: attachedFrame_def)

text \<open>The resynchronisation point of an attach, as the replay buffer holds it.\<close>

lemma attach_ok_commit:
  assumes "attach env req h = (Ok a, h')"
  obtains h1 where "attach_allowed req" "cursorValid h (arAfterSequence req)"
    "attachResize env req (expireControllerLocked (aeRid env) (aeNow env) h) = (Ok (), h1)"
    "arRole req = ''control'' \<longrightarrow> \<not> arTakeover req \<longrightarrow> hController h1 = None"
    "a = fst (attachCommit env req h1)" "h' = snd (attachCommit env req h1)" "hReplay h1 = hReplay h"
    "hExit h1 = hExit h" "hNext h1 = hNext h"
proof -
  let ?h = "expireControllerLocked (aeRid env) (aeNow env) h"
  have ok: "attach_allowed req" using assms attach_rejected by (metis fst_conv outcome.distinct(1))
  then have at: "attachLocked env req ?h = (Ok a, h')" using assms by (simp add: attach_accepted)
  then show ?thesis
  proof (cases rule: attachLocked_cases)
    case (Committed h1)
    note fr = attachResize_frame [OF Committed(1)]
    show ?thesis
      by (rule that [OF ok _ Committed(1)]) (use Committed fr cursorValid_keeps [OF expireControllerLocked_keeps]
          in \<open>simp_all add: frame_simps\<close>)
  qed (auto split: outcome.splits)
qed

text \<open>
  C14. A successful attach with a cursor sends, after the \<open>attached\<close> frame, exactly the retained
  output after the cursor: a \<open>replay_gap\<close> frame precedes it if and only if chunks the cursor has
  not seen are no longer retained, and the exit frame follows it if the agent has exited. Without
  a cursor no output is replayed.
\<close>

theorem attach_replays_exactly:
  assumes I: "hub_inv h" and f: "fresh_id (aeID env) h" and R: "represents (hReplay h) log"
    and at: "attach env req h = (Ok a, h')"
  shows "\<exists>s. hStore h' a = Some s \<and> hSubscribers h' (subID s) = Some a \<and> subQueue s = [] \<and>
    subInitial s = attachedFrame h' s #
      (case arAfterSequence req of None \<Rightarrow> []
       | Some c \<Rightarrow> (if unat c < length log - length (frames (hReplay h)) then [replayGapFrame h' c] else []) @
           drop (max (length log - length (frames (hReplay h))) (unat c)) (numbered log)) @
      exits h'"
  using at
proof (cases rule: attach_ok_commit)
  case (1 h1)
  let ?h = "expireControllerLocked (aeRid env) (aeNow env) h"
  note fr = attachResize_frame [OF 1(3)]
  have I1: "hub_inv h1" "fresh_id (aeID env) h1"
    using fr(1,3) expireControllerLocked_inv [OF I] same_objects_fresh [OF expireControllerLocked_same f]
    by (simp_all add: fresh_id_def)
  note st = attachCommit_stores [OF I1(1) 1(1) I1(2) 1(4)]
  let ?s0 = "attachedSub env req h1"
  let ?s = "?s0\<lparr>subInitial := initialFrames h' ?s0 (arAfterSequence req)\<rparr>"
  have a: "a = hNext h1" using 1(5) attachCommit_eq [OF I1(1) 1(1) I1(2) 1(4) [rule_format]] by (simp add: Let_def)
  have rep: "hReplay h' = hReplay h"
    using attachCommit_keeps [of h1 env req] 1(6,7) by (simp add: keeps_def)
  have "replayFrames h' (arAfterSequence req) = (case arAfterSequence req of None \<Rightarrow> []
       | Some c \<Rightarrow> (if unat c < length log - length (frames (hReplay h)) then [replayGapFrame h' c] else []) @
           drop (max (length log - length (frames (hReplay h))) (unat c)) (numbered log))"
  proof (cases "arAfterSequence req")
    case (Some c)
    then have "unat c \<le> length log"
      using 1(2) R after_ahead [of "hReplay h" c] by (fastforce simp: cursorValid_def represents_def word_less_nat_alt)
    then show ?thesis using Some after_frames [OF R] rep by (simp add: replayFrames_def)
  qed (simp add: replayFrames_def)
  then have "subInitial ?s = attachedFrame h' ?s #
      (case arAfterSequence req of None \<Rightarrow> []
       | Some c \<Rightarrow> (if unat c < length log - length (frames (hReplay h)) then [replayGapFrame h' c] else []) @
           drop (max (length log - length (frames (hReplay h))) (unat c)) (numbered log)) @ exits h'"
    by (simp add: initialFrames_def exits_def)
  moreover have "hStore h' a = Some ?s" "hSubscribers h' (subID ?s) = Some a" "subQueue ?s = []"
    using st(1,2) 1(6) a by simp_all
  ultimately show ?thesis by blast
qed

theorem attach_replays_exactly_witness:
  "\<exists>s. hStore (sHub demo2) 0 = Some s \<and> hSubscribers (sHub demo2) (subID s) = Some 0 \<and> subQueue s = [] \<and>
     subInitial s = [attachedFrame (sHub demo2) s]"
proof -
  have at: "attach demoEnv demoReq (sHub demo1) = (Ok 0, sHub demo2)"
    unfolding demo2_def
    by (simp add: demo_defs attach_def validateSize_def expireControllerLocked_def attachLocked_def
        cursorValid_def after_def newReplayBuffer_def attachResize_def procResize_def attachCommit_def
        newSubscription_def grantControllerLocked_def Let_def)
  have "represents (hReplay (sHub demo1)) []"
    by (simp add: demo_defs newReplayBuffer_represents)
  moreover have "fresh_id (aeID demoEnv) (sHub demo1)" by (simp add: demo_defs fresh_id_def)
  moreover have "frames (hReplay (sHub demo1)) = []" by (simp add: demo_defs newReplayBuffer_def)
  moreover have "exits (sHub demo2) = []" by (subst demo2_hub) (simp add: exits_def demo_defs)
  moreover have "arAfterSequence demoReq = Some 0" by (simp add: demo_defs)
  ultimately show ?thesis
    using attach_replays_exactly [OF reachable_hub_inv [OF demo1_reachable [of "\<lambda>_. []"]] _ _ at, of "[]"] by simp
qed

section \<open>Control\<close>

lemma input_quiet:
  assumes "rel_option procQuiet (hProcess (sHub y)) (hProcess (sHub y'))" "sProc y' = sProc y"
  shows "ptyInput (theProc y') = ptyInput (theProc y)"
  using assms unfolding theProc_def procQuiet_def
  by (cases "hProcess (sHub y)"; cases "hProcess (sHub y')") auto

lemma input_keeps: "keeps (sHub y) (sHub y') \<Longrightarrow> sProc y' = sProc y \<Longrightarrow> ptyInput (theProc y') = ptyInput (theProc y)"
  by (rule input_quiet) (simp add: keeps_def)

lemma publish_quiet:
  "rel_option procQuiet (hProcess h) (hProcess (publishOutput rid ord d h))"
  "rel_option procQuiet (hProcess h) (hProcess (publishExit fmt rid0 rid ord e h))"
proof -
  have "keeps (h\<lparr>hReplay := snd (appendOutput d (hReplay h))\<rparr>) (publishOutput rid ord d h)"
    by (simp add: publishOutput_def broadcastLocked_keeps case_prod_beta)
  then show "rel_option procQuiet (hProcess h) (hProcess (publishOutput rid ord d h))" by (simp add: keeps_def)
  show "rel_option procQuiet (hProcess h) (hProcess (publishExit fmt rid0 rid ord e h))"
    using publishExit_keeps [of h fmt e rid0 rid ord]
    by (cases "hExit h") (auto simp: publishExit_def keeps_def option.rel_refl)
qed

text \<open>Only the write of an input call changes what has been written to the terminal.\<close>

lemma step_input:
  assumes "step fmt y y'"
  shows "ptyInput (theProc y') = ptyInput (theProc y) \<or>
    (\<exists>a l d wr r. sHolder y = Some (InputAuthorized a l d) \<and> writeInputWrite wr d (sHub y) = (r, sHub y') \<and> sProc y' = sProc y)"
proof -
  have same: "keeps (sHub y) (sHub y') \<Longrightarrow> sProc y' = sProc y \<Longrightarrow> ?thesis"
    and quiet: "rel_option procQuiet (hProcess (sHub y)) (hProcess (sHub y')) \<Longrightarrow> sProc y' = sProc y \<Longrightarrow> ?thesis"
    and proc: "procQuiet (theProc y) (theProc y') \<Longrightarrow> ?thesis"
    using input_keeps input_quiet by (blast, blast, simp add: procQuiet_def)
  from assms show ?thesis
  proof (cases rule: step.cases)
    case (InputWrite a l d wr r h')
    then show ?thesis by auto
  next
    case SetProcess
    then show ?thesis by (simp add: theProc_def setProcess_def)
  next
    case (Output ord d rid)
    then show ?thesis by (intro quiet) (simp_all add: publish_quiet)
  next
    case (Reaped now w)
    then show ?thesis by (cases "terminal (theProc y)") (simp_all add: waitRecord_def Let_def ptyInput_def)
  next
    case (Exited e ord rid0 rid)
    then show ?thesis by (intro quiet) (simp_all add: publish_quiet)
  next
    case ExitDone
    then show ?thesis by (simp add: waitDone_def ptyInput_def)
  next
    case (InputBegin rid now a l d r h')
    with writeInputBegin_keeps [of "sHub y" rid now a l d] show ?thesis by (intro same) simp_all
  next
    case (ResizeBegin rid now a l r h' sz)
    with authorize_keeps [of "sHub y" rid now a l] show ?thesis by (intro same) simp_all
  next
    case (ResizeCall a l sz ss r h')
    with resizeCall_keeps [of "sHub y" ss sz] show ?thesis by (intro same) simp_all
  next
    case (HubClose h')
    with hubClose_keeps show ?thesis by (intro same) simp_all
  next
    case (Signal kill sig)
    then show ?thesis by (intro proc) (simp add: procSignal_keeps)
  next
    case (StopStart kill)
    then show ?thesis by (intro proc) (simp add: terminate_keeps)
  next
    case (StopTimeout kill)
    then show ?thesis by (intro proc) (simp add: terminate_keeps)
  next
    case StopExited
    then show ?thesis by (intro proc) (simp add: terminate_keeps)
  qed (rule same, simp add: op_keeps keeps_same, simp)+
qed

lemma write_input:
  assumes "writeInputWrite wr d (sHub y) = (r, sHub y')" "sProc y' = sProc y" "ptyInput (theProc y') \<noteq> ptyInput (theProc y)"
  shows "\<exists>n i. ptyInput (theProc y) = Some i \<and> ptyInput (theProc y') = Some (i @ take n d)"
proof (cases "hProcess (sHub y)")
  case None
  then show ?thesis using assms by (simp add: writeInputWrite_def theProc_def)
next
  case (Some p)
  obtain e p' where w: "procWrite wr d p = (e, p')" by (rule prod.exhaust)
  have "sHub y' = snd (writeInputWrite wr d (sHub y))" using assms(1) by simp
  then have "hProcess (sHub y') = Some p'"
    using Some w by (simp add: writeInputWrite_def split: option.splits)
  then have th: "theProc y = p" "theProc y' = p'" using Some by (simp_all add: theProc_def)
  from procWrite_keeps(2) [OF w] assms(3) th show ?thesis
    by (cases "ptyInput p") (auto split: if_splits)
qed

text \<open>
  C3. Bytes reach the agent's terminal only in the write of an input call that was authorised by
  a lease: that call's attachment has the control permission, its lease was issued by this
  runner, the bytes are a prefix of that call's data, and while the call is in progress the hub
  has either that lease or none: no other attachment can have been given control.
\<close>

theorem input_only_under_lease:
  assumes "reachable fmt y" "step fmt y y'" "ptyInput (theProc y') \<noteq> ptyInput (theProc y)"
  shows "\<exists>a l d n s i. sHolder y = Some (InputAuthorized a l d) \<and>
    ptyInput (theProc y) = Some i \<and> ptyInput (theProc y') = Some (i @ take n d) \<and>
    hStore (sHub y) a = Some s \<and> Control (subPerms s) \<and> l \<in> set (sLeases y) \<and>
    (\<forall>c. hController (sHub y) = Some c \<longrightarrow> clAttachmentID c = subID s \<and> clLeaseID c = l)"
proof -
  from step_input [OF assms(2)] assms(3) obtain a l d wr r where
    w: "sHolder y = Some (InputAuthorized a l d)" "writeInputWrite wr d (sHub y) = (r, sHub y')" "sProc y' = sProc y" by blast
  have "holder_inv y" using reachable_control [OF assms(1)] by simp
  then obtain s where "hStore (sHub y) a = Some s" "Control (subPerms s)" "l \<in> set (sLeases y)"
      "\<forall>c. hController (sHub y) = Some c \<longrightarrow> clAttachmentID c = subID s \<and> clLeaseID c = l"
    using w(1) by (auto simp: holder_inv_def)
  then show ?thesis using w(1) write_input [OF w(2,3) assms(3)] by blast
qed

text \<open>A state in which an input call is in progress, and its write.\<close>

definition demo5 :: sys where
  "demo5 = demo4\<lparr>sHub := snd (writeInputWrite (\<lambda>d. (length d, None)) [9] (sHub demo4)),
     sHolder := Some (CallDone 0 ''lease1'')\<rparr>"

lemma demo4_hub: "sHub demo4 = sHub demo3" and demo4_process: "hProcess (sHub demo4) = Some demoProc"
proof -
  have "hStore (sHub demo3) 0 = Some demoSub" using demo3_registered by (simp add: registered_def)
  then show "sHub demo4 = sHub demo3"
    by (simp add: demo4_def writeInputBegin_def maxInput_def authorizeControllerLocked_def
        expireControllerLocked_def demo3_controller demoSub_fields)
  then show "hProcess (sHub demo4) = Some demoProc"
    by (simp add: demo3_hub) (subst demo2_hub, simp)
qed

lemma demo5_step: "step fmt demo4 demo5"
proof -
  have "writeInputWrite (\<lambda>d. (length d, None)) [9] (sHub demo4) =
      (Ok (), snd (writeInputWrite (\<lambda>d. (length d, None)) [9] (sHub demo4)))"
    by (simp add: writeInputWrite_def demo4_process procWrite_def demoProc_def newAgentProcess_def)
  moreover have "sHolder demo4 = Some (InputAuthorized 0 ''lease1'' [9])" by (simp add: demo4_def)
  ultimately show ?thesis
    using step.InputWrite [of demo4 0 "''lease1''" "[9]" _ "Ok ()" _ fmt] by (simp add: demo5_def)
qed

theorem input_only_under_lease_witness:
  "\<exists>a l d n s i. sHolder demo4 = Some (InputAuthorized a l d) \<and>
    ptyInput (theProc demo4) = Some i \<and> ptyInput (theProc demo5) = Some (i @ take n d) \<and>
    hStore (sHub demo4) a = Some s \<and> Control (subPerms s)"
proof -
  have "hProcess (sHub demo5) = Some (demoProc\<lparr>terminal := Some \<lparr>ttyInput = [9], ttySize = demoSize, ttyClosed = False\<rparr>\<rparr>)"
    by (simp add: demo5_def writeInputWrite_def demo4_process procWrite_def demoProc_def newAgentProcess_def)
  then have "ptyInput (theProc demo5) \<noteq> ptyInput (theProc demo4)"
    by (simp add: theProc_def demo4_process ptyInput_def demoProc_def)
  from input_only_under_lease [OF demo4_reachable [of "\<lambda>_. []"] demo5_step this] show ?thesis
    by (elim exE conjE) (intro exI conjI; assumption)
qed

text \<open>
  C4. A lease that is no longer the hub's current one (expired, taken over, detached or dropped)
  never authorises a call again, whatever happens afterwards.
\<close>

theorem retired_lease_never_authorises:
  assumes "l \<in> set (sLeases y)" "\<forall>c. hController (sHub y) = Some c \<longrightarrow> clLeaseID c \<noteq> l" "steps fmt y y'"
  shows "\<exists>e. fst (authorizeControllerLocked rid now a l (sHub y')) = Some e"
proof -
  have "retired l y" unfolding retired_def using assms(1,2) by blast
  then have "retired l y'" by (rule steps_retired [OF assms(3)])
  then show ?thesis
    using expireControllerLocked_retired [of l y' rid now]
    by (auto simp: authorizeControllerLocked_def Let_def split: option.splits)
qed

theorem retired_lease_never_authorises_witness:
  "\<exists>e. fst (authorizeControllerLocked ''r'' 5 0 ''lease1'' (detach 0 (sHub demo3))) = Some e"
proof -
  let ?y = "demo3\<lparr>sHub := detach 0 (sHub demo3)\<rparr>"
  have "hController (sHub ?y) = None"
    using demo3_registered by (simp add: detach_def registered_def demo3_controller demoSub_fields)
  moreover have "''lease1'' \<in> set (sLeases ?y)" by (simp add: demo_defs)
  ultimately show ?thesis
    using retired_lease_never_authorises [of "''lease1''" ?y "\<lambda>_. []" ?y "''r''" 5 0] steps_refl by simp
qed

text \<open>
  Exactly when input is accepted: the data is at most 1 MiB, the hub has a lease that has not
  expired at this instant, and attachment and lease identifier are the ones it names. A refusal
  has no effect on the agent's process.
\<close>

theorem input_accepted_iff:
  "(fst (writeInputBegin rid now a l d h) = None \<longleftrightarrow>
     length d \<le> 1048576 \<and>
     (\<exists>c s. hController h = Some c \<and> now < clExpiresAt c \<and> hStore h a = Some s \<and>
        clAttachmentID c = subID s \<and> clLeaseID c = l)) \<and>
   hProcess (snd (writeInputBegin rid now a l d h)) = hProcess h"
  by (auto simp: writeInputBegin_def maxInput_def authorizeControllerLocked_def expireControllerLocked_def
      Let_def frame_simps split: option.splits if_splits)

text \<open>
  Detaching never touches the agent: the process, the replayed output, the exit and every
  other attachment are unchanged; the attachment is gone and, if it held the lease, so is the
  lease.
\<close>

theorem detach_isolated:
  assumes "registered h a s"
  shows "hProcess (detach a h) = hProcess h \<and> hReplay (detach a h) = hReplay h \<and> hExit (detach a h) = hExit h \<and>
    hStore (detach a h) = hStore h \<and> hSubscribers (detach a h) = (hSubscribers h)(subID s := None) \<and>
    hController (detach a h) =
      (case hController h of Some c \<Rightarrow> if clAttachmentID c = subID s then None else Some c | None \<Rightarrow> None)"
  using assms by (simp add: registered_def detach_def)

theorem detach_isolated_witness:
  "hProcess (detach 0 (sHub demo3)) = hProcess (sHub demo3) \<and> hController (detach 0 (sHub demo3)) = None"
  using detach_isolated [OF demo3_registered] by (simp add: demo3_controller demoSub_fields)

text \<open>
  While the runner serves clients, neither an attach nor an input or resize call panics on a
  missing process, in any reachable state.
\<close>

theorem no_panic:
  assumes "reachable fmt y" "serving y"
  shows "fst (attach env req (sHub y)) \<noteq> Panic \<and> fst (writeInputWrite wr d (sHub y)) \<noteq> Panic \<and>
    fst (resizeCall ss sz (sHub y)) \<noteq> Panic"
proof -
  have "fst (attachResize env req (expireControllerLocked r n (sHub y))) \<noteq> Panic" for r n
    using assms(2) by (auto simp: attachResize_def frame_simps split: option.splits prod.splits)
  then have "fst (attachLocked env req (expireControllerLocked r n (sHub y))) \<noteq> Panic" for r n
    unfolding attachLocked_def by (auto simp: Let_def split: outcome.splits prod.splits) (metis fst_conv)+
  then have "fst (attach env req (sHub y)) \<noteq> Panic"
    by (auto simp: attach_def split: option.splits)
  then show ?thesis
    using assms(2) by (auto simp: writeInputWrite_def resizeCall_def split: option.splits prod.splits)
qed

theorem no_panic_witness:
  "fst (attach demoEnv demoReq (sHub demo1)) \<noteq> Panic"
  using no_panic [OF demo1_reachable [of "\<lambda>_. []"]] by (simp add: demo_defs)

definition demoTakeover :: attachEnv where
  "demoTakeover = demoEnv\<lparr>aeNow := 5000, aeNow2 := 5001, aeLease := ''lease2''\<rparr>"

text \<open>
  The hub can hand the lease to an attachment it has just dropped: when an attachment asks
  for control again after its own lease expired and its queue is full, the expiry notice drops
  it as a slow consumer, and the lease is granted to it all the same. The lease then names an
  attachment that is no longer registered, so detaching it does not free the lease.
\<close>

theorem takeover_grants_to_dropped:
  "reachable (\<lambda>_. []) demo3 \<and>
   (case takeover demoTakeover 0 (sHub demo3) of (r, h') \<Rightarrow>
      (\<exists>f. r = Ok f \<and> frType f = ''attached'') \<and> hSubscribers h' ''att1'' = None \<and>
      map_option clLeaseID (hController h') = Some ''lease2'' \<and>
      hController (detach 0 h') = hController h')"
proof -
  let ?h = "sHub demo3"
  have st: "hStore ?h 0 = Some demoSub" "hSubscribers ?h ''att1'' = Some 0"
    using demo3_registered demoSub_fields(1) by (simp_all add: registered_def)
  have perm: "Control (subPerms demoSub)" by (simp add: demoSub_def demoReq_def)
  have full: "subCap demoSub = 1" "subQueue demoSub = [outputFrame 1 [1, 2]]"
    by (simp_all add: demoSub_def) (simp add: demo_defs)
  let ?h1 = "unregister ''att1'' (?h\<lparr>hStore := (hStore ?h)(0 \<mapsto> subClose (slowConsumer ''r'') (demote demoSub)),
      hController := None\<rparr>)"
  have "revokeControllerLocked ''r'' ''lease_expired'' ?h = ?h1"
    using full by (subst revokeControllerLocked_eq [OF demo3_controller _ st(1)])
      (simp_all add: st demoSub_fields sendLocked_def try_send_def unregister_def)
  then have ex: "expireControllerLocked ''r'' 5000 ?h = ?h1"
    by (simp add: expireControllerLocked_def demo3_controller)
  have ready: "takeoverReady demoTakeover demoSub ?h = ?h1"
    using ex by (simp add: takeoverReady_def demoTakeover_def demoEnv_def unregister_def)
  have lease: "aeLease demoTakeover = ''lease2''" by (simp add: demoTakeover_def)
  from takeover_ok [OF st(1) perm, of demoTakeover] ready st(2) demoSub_fields(1) lease
  obtain s' where s': "hStore ?h1 0 = Some s'" "subID s' = ''att1''"
    "takeover demoTakeover 0 ?h = (let h3 = grantControllerLocked ''lease2'' (aeNow2 demoTakeover) 0 ?h1
       in (Ok (attachedFrame h3 (promote ''lease2'' s')), h3))"
    by auto
  have "hSubscribers ?h1 ''att1'' = None" by (simp add: unregister_def)
  with s'(1,2) show ?thesis
    unfolding s'(3) using demo3_reachable [of "\<lambda>_. []"]
    by (simp add: grantControllerLocked_eq Let_def attachedFrame_def detach_def)
qed

text \<open>
  No attachment's queue grows past the configured size, every attachment was made with the
  observe permission, and every identifier registered with the hub denotes an attachment that
  exists and has this identifier.
\<close>

theorem queues_bounded:
  assumes "reachable fmt y" "hStore (sHub y) a = Some s"
  shows "length (subQueue s) \<le> hSubscriberBuffer (sHub y) \<and> Observe (subPerms s) \<and>
    (\<forall>i b. hSubscribers (sHub y) i = Some b \<longrightarrow> (\<exists>t. hStore (sHub y) b = Some t \<and> subID t = i))"
proof -
  have I: "hub_inv (sHub y)" by (rule reachable_hub_inv [OF assms(1)])
  have "sub_ok s" "subCap s = hSubscriberBuffer (sHub y)"
    using I assms(2) unfolding hub_inv_def hub_sub_def by blast+
  then show ?thesis using hub_reg_get [OF I] by (simp add: sub_ok_def)
qed

theorem queues_bounded_witness:
  "length (subQueue demoSub) \<le> hSubscriberBuffer (sHub demo3) \<and> Observe (subPerms demoSub)"
  using queues_bounded [OF demo3_reachable [of "\<lambda>_. []"], of 0 demoSub] demo3_registered
  by (simp add: registered_def)

end
