(* ===== verification/Server_Run.thy ===== *)
theory Server_Run
  imports Server Hub_Props
begin

text \<open>
  The terminal connection of \<^verbatim>\<open>server.go\<close> against the transition system of
  \<open>Hub_Steps\<close>: every frame of a client that \<open>handleClientFrame\<close> treats is a run of that
  system, so that what holds of all reachable states holds after every client frame.
\<close>

section \<open>Client frames as runs of the system\<close>

lemma notices [simp]:
  "\<not> streamFrame (protocolError c m r b)" "\<not> streamFrame (pongFrame n)" "\<not> streamFrame (attachedFrame h s)"
  by (simp_all add: streamFrame_def protocolError_def pongFrame_def attachedFrame_def)

lemma steps_one: "step fmt y y' \<Longrightarrow> steps fmt y y'"
  by (rule steps_step [OF steps_refl])

text \<open>
  \<open>runs fmt y h ls\<close>: the system can go from \<open>y\<close> to a state with hub \<open>h\<close> and lease identifiers
  \<open>ls\<close> in which nothing else has changed.
\<close>

definition runs :: "(time \<Rightarrow> string) \<Rightarrow> sys \<Rightarrow> hub \<Rightarrow> string list \<Rightarrow> bool" where
  "runs fmt y h ls \<longleftrightarrow> steps fmt y (y\<lparr>sHub := h, sLeases := ls\<rparr>)"

lemma sys_same [simp]: "y\<lparr>sHub := sHub y, sLeases := sLeases y\<rparr> = y"
  by simp

lemma sys_comm: "y\<lparr>sLeases := ls, sHub := h\<rparr> = y\<lparr>sHub := h, sLeases := ls\<rparr>"
  by simp

lemma runs_refl: "runs fmt y (sHub y) (sLeases y)"
  by (simp add: runs_def steps_refl)

lemma runs_step:
  assumes "runs fmt y h ls" "step fmt (y\<lparr>sHub := h, sLeases := ls\<rparr>) (y\<lparr>sHub := h', sLeases := ls'\<rparr>)"
  shows "runs fmt y h' ls'"
  using assms unfolding runs_def by (rule steps_step)

lemma runs_hub:
  assumes "runs fmt y h ls" "\<And>z. sHub z = h \<Longrightarrow> sLeases z = ls \<Longrightarrow> step fmt z (z\<lparr>sHub := h'\<rparr>)"
  shows "runs fmt y h' ls"
  by (rule runs_step [OF assms(1)]) (use assms(2) [of "y\<lparr>sHub := h, sLeases := ls\<rparr>"] in \<open>simp add: sys_comm\<close>)

lemma runs_send: "runs fmt y h ls \<Longrightarrow> \<not> streamFrame f \<Longrightarrow> runs fmt y (hubSend rid a f h) ls"
  by (erule runs_hub) (use step.Send in blast)

lemma runs_touch: "runs fmt y h ls \<Longrightarrow> runs fmt y (touch now a h) ls"
  by (erule runs_hub) (use step.Touch in blast)

lemma runs_acknowledge: "runs fmt y h ls \<Longrightarrow> runs fmt y (snd (acknowledge now a sq h)) ls"
  by (erule runs_hub) (use step.Acknowledge in blast)

lemma runs_takeover:
  assumes "controlFree y" "hStore (sHub y) a \<noteq> None" "aeLease env \<notin> set (sLeases y)"
  shows "runs fmt y (snd (takeover env a (sHub y))) (sLeases y @ [aeLease env])"
  unfolding runs_def by (rule steps_one [OF step.Takeover [OF assms]])

lemma runs_close:
  assumes r: "runs fmt y h ls" and f: "\<not> streamFrame f"
  shows "runs fmt y (closeSubscription a f h) ls"
proof (cases "hStore h a")
  case None
  with r show ?thesis by (simp add: closeSubscription_def)
next
  case (Some s)
  have "runs fmt y (h\<lparr>hStore := (hStore h)(a \<mapsto> subClose f s)\<rparr>) ls"
    by (rule runs_hub [OF r]) (use step.CloseSub [OF _ f] Some in blast)
  then show ?thesis using Some by (simp add: closeSubscription_def)
qed

text \<open>A whole input or resize call, from the lock to its release.\<close>

lemma holder_free [simp]: "controlFree y \<Longrightarrow> y\<lparr>sHub := h, sHolder := None\<rparr> = y\<lparr>sHub := h\<rparr>"
  by simp

lemma writeInput_run:
  assumes free: "controlFree y" and w: "writeInput rid now now2 wr a l d (sHub y) = (r, h')"
  shows "steps fmt y (y\<lparr>sHub := h'\<rparr>)"
proof -
  obtain e h1 where b: "writeInputBegin rid now a l d (sHub y) = (e, h1)" by (rule prod.exhaust)
  note s1 = step.InputBegin [OF free b, of fmt]
  show ?thesis
  proof (cases e)
    case (Some x)
    then have "h' = h1" using w b by (simp add: writeInput_def)
    then show ?thesis using s1 Some free by (intro steps_one) simp
  next
    case None
    let ?y1 = "y\<lparr>sHub := h1, sHolder := Some (InputAuthorized a l d)\<rparr>"
    obtain r2 h2 where c: "writeInputWrite wr d h1 = (r2, h2)" by (rule prod.exhaust)
    have s2: "step fmt ?y1 (y\<lparr>sHub := h2, sHolder := (if r2 = Ok () then Some (CallDone a l) else None)\<rparr>)"
      using step.InputWrite [of ?y1 a l d wr r2 h2 fmt] c by simp
    have y1: "steps fmt y ?y1" using s1 None by (intro steps_one) simp
    show ?thesis
    proof (cases "r2 = Ok ()")
      case False
      then have "h' = h2" using w b c None by (cases r2) (auto simp: writeInput_def)
      then show ?thesis using steps_step [OF y1 s2] False free by simp
    next
      case True
      then have "h' = controlEnd now2 a l h2" using w b c None by (simp add: writeInput_def)
      then show ?thesis
        using steps_step [OF steps_step [OF y1 s2]]
          step.ControlEnd [of "y\<lparr>sHub := h2, sHolder := Some (CallDone a l)\<rparr>" a l fmt now2] True free by simp
    qed
  qed
qed

lemma resize_run:
  assumes free: "controlFree y" and w: "resize rid now now2 ss a l sz (sHub y) = (r, h')"
  shows "steps fmt y (y\<lparr>sHub := h'\<rparr>)"
proof -
  obtain e h1 where b: "authorizeControllerLocked rid now a l (sHub y) = (e, h1)" by (rule prod.exhaust)
  note s1 = step.ResizeBegin [OF free b, of fmt sz]
  show ?thesis
  proof (cases e)
    case (Some x)
    then have "h' = h1" using w b by (simp add: resize_def)
    then show ?thesis using s1 Some free by (intro steps_one) simp
  next
    case None
    let ?y1 = "y\<lparr>sHub := h1, sHolder := Some (ResizeAuthorized a l sz)\<rparr>"
    obtain r2 h2 where c: "resizeCall ss sz h1 = (r2, h2)" by (rule prod.exhaust)
    have s2: "step fmt ?y1 (y\<lparr>sHub := h2, sHolder := (if r2 = Ok () then Some (CallDone a l) else None)\<rparr>)"
      using step.ResizeCall [of ?y1 a l sz ss r2 h2 fmt] c by simp
    have y1: "steps fmt y ?y1" using s1 None by (intro steps_one) simp
    show ?thesis
    proof (cases "r2 = Ok ()")
      case False
      then have "h' = h2" using w b c None by (cases r2) (auto simp: resize_def)
      then show ?thesis using steps_step [OF y1 s2] False free by simp
    next
      case True
      then have "h' = controlEnd now2 a l h2" using w b c None by (simp add: resize_def)
      then show ?thesis
        using steps_step [OF steps_step [OF y1 s2]]
          step.ControlEnd [of "y\<lparr>sHub := h2, sHolder := Some (CallDone a l)\<rparr>" a l fmt now2] True free by simp
    qed
  qed
qed

text \<open>No call of a client panics while the runner serves it.\<close>

lemma authorize_process: "authorizeControllerLocked rid now a l h = (e, h') \<Longrightarrow> hProcess h' = hProcess h"
  by (auto simp: authorizeControllerLocked_def Let_def frame_simps split: option.splits if_splits)

lemma writeInput_no_panic:
  "hProcess h \<noteq> None \<Longrightarrow> fst (writeInput rid now now2 wr a l d h) \<noteq> Panic"
  by (auto simp: writeInput_def writeInputBegin_def writeInputWrite_def dest: authorize_process
      split: prod.splits option.splits outcome.splits if_splits)

lemma resize_no_panic:
  "hProcess h \<noteq> None \<Longrightarrow> fst (resize rid now now2 ss a l sz h) \<noteq> Panic"
  by (auto simp: resize_def resizeCall_def dest: authorize_process
      split: prod.splits option.splits outcome.splits if_splits)

lemma takeover_answer:
  assumes "hStore h a \<noteq> None"
  shows "(\<exists>e. fst (takeover env a h) = Fail e) \<or> (\<exists>h3 s. fst (takeover env a h) = Ok (attachedFrame h3 s))"
proof -
  obtain s where s: "hStore h a = Some s" using assms by blast
  show ?thesis
  proof (cases "Control (subPerms s) \<and> hSubscribers h (subID s) \<noteq> None")
    case True
    then show ?thesis using takeover_ok [OF s, of env] unfolding Let_def by (metis fst_conv)
  next
    case False
    then show ?thesis using takeover_refused [OF s False, of env] by auto
  qed
qed

lemma runs_protocolError:
  "runs fmt y h ls \<Longrightarrow> runs fmt y (sendProtocolError env a c m b h) ls"
  by (simp add: sendProtocolError_def runs_send)

lemma runs_report:
  assumes "fst r \<noteq> Panic" "runs fmt y (snd r) ls"
  shows "\<exists>h'. reportError env a r = Ok (True, h') \<and> runs fmt y h' ls"
  using assms by (cases r; cases "fst r") (auto simp: reportError_def runs_protocolError)

definition clientTypes :: "string list" where
  "clientTypes = [''input'', ''resize'', ''takeover'', ''ack'', ''pong'', ''ping'']"

lemma handleClientFrame_run:
  assumes y: "serving y" "controlFree y" "hStore (sHub y) a \<noteq> None"
    and fresh: "aeLease (ceAttach env) \<notin> set (sLeases y)"
  shows "\<exists>h' ls. handleClientFrame env a f (sHub y) = Ok (frType f \<in> set clientTypes, h') \<and> runs fmt y h' ls"
proof -
  let ?t = "frType f" and ?h = "sHub y" and ?ls = "sLeases y"
  note start = runs_refl [of fmt y]
  have sub: "runs fmt y (snd (writeInput rid n n2 wr a l d ?h)) ?ls" for rid n n2 wr l d
    using writeInput_run [OF y(2), of rid n n2 wr a l d] by (cases "writeInput rid n n2 wr a l d ?h") (simp add: runs_def)
  have sub2: "runs fmt y (snd (resize rid n n2 ss a l sz ?h)) ?ls" for rid n n2 ss l sz
    using resize_run [OF y(2), of rid n n2 ss a l sz] by (cases "resize rid n n2 ss a l sz ?h") (simp add: runs_def)
  have ack: "runs fmt y (snd (acknowledge n a sq ?h)) ?ls" for n sq by (rule runs_acknowledge [OF start])
  note tk = runs_takeover [OF y(2,3) fresh, of fmt]
  consider "?t = ''input''" | "?t = ''resize''" | "?t = ''takeover''" | "?t = ''ack''" | "?t = ''pong''"
    | "?t = ''ping''" | "?t \<notin> set clientTypes"
    by (auto simp: clientTypes_def)
  then show ?thesis
  proof cases
    case 1
    have "\<exists>h'. reportError env a (writeInput rid n n2 wr a l d ?h) = Ok (True, h') \<and> runs fmt y h' ?ls" for rid n n2 wr l d
      by (rule runs_report [OF writeInput_no_panic [OF y(1)] sub])
    with 1 show ?thesis
      by (simp add: handleClientFrame_def clientTypes_def) (metis runs_protocolError [OF start])
  next
    case 2
    have "\<exists>h'. reportError env a (resize rid n n2 ss a l sz ?h) = Ok (True, h') \<and> runs fmt y h' ?ls" for rid n n2 ss l sz
      by (rule runs_report [OF resize_no_panic [OF y(1)] sub2])
    with 2 show ?thesis
      by (cases "frTerminalSize f"; simp add: handleClientFrame_def clientTypes_def)
        (metis runs_protocolError [OF start])+
  next
    case 3
    then show ?thesis
      using takeover_answer [OF y(3), of "ceAttach env"] tk
      by (auto simp: handleClientFrame_def clientTypes_def split: prod.splits)
        (metis runs_protocolError runs_send notices(3))+
  next
    case 4
    then show ?thesis
      using ack [of "ceNow env"]
      by (auto simp: handleClientFrame_def clientTypes_def intro: runs_protocolError start
          split: option.splits prod.splits) (metis snd_conv runs_protocolError)+
  next
    case 5
    then show ?thesis
      by (auto simp: handleClientFrame_def clientTypes_def intro: runs_touch [OF start])
  next
    case 6
    then show ?thesis
      by (auto simp: handleClientFrame_def clientTypes_def intro: runs_protocolError [OF start])
        (metis runs_send runs_touch start notices(2))
  next
    case 7
    then show ?thesis
      by (auto simp: handleClientFrame_def clientTypes_def unsupportedClient_def)
        (metis runs_close start notices(1))
  qed
qed

text \<open>
  C7. Whatever an attached client sends is a run of the runner's transition system: one message,
  decoded or not, of any type, is answered without a panic, leads to a state the steps reach in
  which only the hub and the identifiers drawn for leases have changed, and ends the connection
  exactly when it is not text, does not decode or has a type clients may not send.
\<close>

theorem client_message_is_run:
  assumes "serving y" "controlFree y" "hStore (sHub y) a \<noteq> None" "aeLease (ceAttach env) \<notin> set (sLeases y)"
  shows "\<exists>go h' ls. handleMessage decode env a isText msg (sHub y) = Ok (go, h') \<and>
    steps fmt y (y\<lparr>sHub := h', sLeases := ls\<rparr>) \<and>
    (go \<longleftrightarrow> isText \<and> (\<exists>f. decode msg = Inr f \<and> frType f \<in> set clientTypes))"
proof -
  have "\<exists>h' ls. handleClientFrame env a f (sHub y) = Ok (frType f \<in> set clientTypes, h') \<and>
      steps fmt y (y\<lparr>sHub := h', sLeases := ls\<rparr>)" for f
    using handleClientFrame_run [OF assms, of f fmt] by (simp add: runs_def)
  moreover have "\<exists>ls. steps fmt y (y\<lparr>sHub := closeSubscription a (protocolError c m r b) (sHub y), sLeases := ls\<rparr>)" for c m r b
    using runs_close [OF runs_refl [of fmt y], of "protocolError c m r b" a] notices(1) unfolding runs_def by blast
  ultimately show ?thesis
    by (cases "decode msg") (auto simp: handleMessage_def)
qed

theorem client_message_is_run_witness:
  "\<exists>go h' ls. handleMessage (\<lambda>_. Inr (zeroFrame\<lparr>frType := ''takeover''\<rparr>))
      \<lparr>ceRid = ''r'', ceSlow = ''s'', ceNow = 2, ceNow2 = 3, ceWrite = (\<lambda>d. (length d, None)), ceSetsize = (\<lambda>_. None),
        ceAttach = demoTakeover\<rparr> 0 True ''{}'' (sHub demo3) = Ok (go, h') \<and>
    steps (\<lambda>_. []) demo3 (demo3\<lparr>sHub := h', sLeases := ls\<rparr>) \<and> go"
  (is "\<exists>go h' ls. handleMessage ?dec ?env 0 True ''{}'' _ = Ok (go, h') \<and> _ \<and> go")
proof -
  have "serving demo3" by (simp add: demo3_hub, subst demo2_hub) (simp add: demo_defs)
  moreover have "controlFree demo3" by (simp add: demo_defs)
  moreover have "hStore (sHub demo3) 0 \<noteq> None" using demo3_registered by (simp add: registered_def)
  moreover have "aeLease (ceAttach ?env) \<notin> set (sLeases demo3)" by (simp add: demo_defs demoTakeover_def)
  ultimately show ?thesis
    using client_message_is_run [of demo3 0 ?env ?dec True "''{}''" "\<lambda>_. []"] by (simp add: clientTypes_def)
qed

end
