(* ===== verification/Lifecycle.thy ===== *)
theory Lifecycle
  imports Json "HOL-Library.List_Lexorder" "HOL-Library.Char_ord"
begin

text \<open>
  The transport-neutral agent model of the control plane, \<^verbatim>\<open>internal/lifecycle/model.go\<close> and
  \<^verbatim>\<open>errors.go\<close>: agents, their states, the validation of requests, and time-ordered
  identifiers. \<open>State\<close> and \<open>DesiredState\<close> are Go string types, so that a stored object can hold
  any text there. \<open>url.Parse\<close> is an argument that yields the parts the sources read.
\<close>

section \<open>States\<close>

type_synonym State = string
type_synonym DesiredState = string

definition StateRequested :: State where "StateRequested = ''requested''"
definition StateProvisioning :: State where "StateProvisioning = ''provisioning''"
definition StateStarting :: State where "StateStarting = ''starting''"
definition StateRunning :: State where "StateRunning = ''running''"
definition StateReconfiguring :: State where "StateReconfiguring = ''reconfiguring''"
definition StateStopping :: State where "StateStopping = ''stopping''"
definition StateStopped :: State where "StateStopped = ''stopped''"
definition StateFailed :: State where "StateFailed = ''failed''"
definition StateDeleting :: State where "StateDeleting = ''deleting''"

definition DesiredRunning :: DesiredState where "DesiredRunning = ''running''"
definition DesiredStopped :: DesiredState where "DesiredStopped = ''stopped''"
definition DesiredDeleted :: DesiredState where "DesiredDeleted = ''deleted''"

lemmas state_defs = StateRequested_def StateProvisioning_def StateStarting_def StateRunning_def
  StateReconfiguring_def StateStopping_def StateStopped_def StateFailed_def StateDeleting_def

lemmas desired_defs = DesiredRunning_def DesiredStopped_def DesiredDeleted_def

section \<open>Agents\<close>

record RepositorySpec =
  repURL :: string
  repRevision :: string

record ResourceSpec =
  resCPU :: string
  resMemory :: string

record WorkspaceSpec =
  wsSize :: string
  wsStorageProfile :: string
  wsRetentionPolicy :: string

record AgentSpec =
  spKind :: string
  spSandboxProfile :: string
  spCredentialProfile :: string
  spRepository :: "RepositorySpec option"
  spResources :: ResourceSpec
  spWorkspace :: WorkspaceSpec
  spSecretProfile :: string
  spIdleTimeoutSeconds :: int

record RuntimeStatus =
  rtGeneration :: int
  rtKind :: string
  rtAdapterVersion :: string

record AgentStatus =
  stState :: State
  stObservedGeneration :: int
  stReason :: string
  stMessage :: string
  stReadyAt :: "time option"
  stStoppedAt :: "time option"
  stLastTransitionAt :: "time option"
  stRuntime :: "RuntimeStatus option"

record Agent =
  agAPIVersion :: string
  agID :: string
  agName :: string
  agOwner :: string
  agGeneration :: int
  agRuntimeGeneration :: int
  agResourceVersion :: string
  agSpec :: AgentSpec
  agStatus :: AgentStatus
  agDesiredState :: DesiredState
  agCreatedAt :: time
  agUpdatedAt :: time

record CreateRequest =
  crName :: string
  crSpec :: AgentSpec

record ChangeAdapterRequest =
  chKind :: string
  chCredentialProfile :: string

record AgentList =
  alItems :: "Agent list"
  alNextCursor :: string

record Event =
  evID :: string
  evType :: string
  evAgentID :: string
  evPreviousState :: State
  evState :: State
  evOccurredAt :: time
  evRequestID :: string
  evOwner :: string

section \<open>Errors\<close>

text \<open>\<^verbatim>\<open>lifecycle.Error\<close>; \<open>Details\<close> is empty in every error the sources build.\<close>

record LifecycleError =
  leStatus :: int
  leCode :: string
  leMessage :: string
  leRetryable :: bool
  leCause :: "goerror option"

definition errorText :: "LifecycleError \<Rightarrow> goerror" where
  "errorText e = (case leCause e of Some c \<Rightarrow> leMessage e @ '': '' @ c | None \<Rightarrow> leMessage e)"

definition NewError :: "int \<Rightarrow> string \<Rightarrow> string \<Rightarrow> LifecycleError" where
  "NewError status code message =
     \<lparr>leStatus = status, leCode = code, leMessage = message, leRetryable = False, leCause = None\<rparr>"

section \<open>Requests\<close>

fun lastIs :: "(char \<Rightarrow> bool) \<Rightarrow> string \<Rightarrow> bool" where
  "lastIs p [] = True"
| "lastIs p [c] = p c"
| "lastIs p (_ # c # cs) = lastIs p (c # cs)"

text \<open>The regular expressions \<^verbatim>\<open>^[a-z0-9](?:[a-z0-9-]*[a-z0-9])?$\<close> and \<^verbatim>\<open>^[a-z][a-z0-9_-]*$\<close>.\<close>

fun namePattern :: "string \<Rightarrow> bool" where
  "namePattern [] = False"
| "namePattern (c # cs) =
     ((isLower c \<or> isDigit c) \<and> list_all (\<lambda>d. isLower d \<or> isDigit d \<or> d = CHR ''-'') cs \<and>
      lastIs (\<lambda>d. isLower d \<or> isDigit d) cs)"

fun profilePattern :: "string \<Rightarrow> bool" where
  "profilePattern [] = False"
| "profilePattern (c # cs) = (isLower c \<and> list_all (\<lambda>d. isLower d \<or> isDigit d \<or> d \<in> set ''_-'') cs)"

definition ValidName :: "string \<Rightarrow> bool" where
  "ValidName name = (1 \<le> length name \<and> length name \<le> 63 \<and> namePattern name)"

text \<open>A parsed URL: \<open>urlUser\<close> is the user information, with the password if there is one.\<close>

record parsedURL =
  urlScheme :: string
  urlHost :: string
  urlRawQuery :: string
  urlFragment :: string
  urlUser :: "(string \<times> string option) option"

type_synonym urlParser = "string \<Rightarrow> parsedURL option"

definition profileInvalid :: "string \<Rightarrow> bool" where
  "profileInvalid p = (length p > 64 \<or> \<not> profilePattern p)"

definition revisionRune :: "rune \<Rightarrow> bool" where
  "revisionRune r = (r < 33 \<or> r = 127)"

definition validateRepository :: "urlParser \<Rightarrow> RepositorySpec \<Rightarrow> goerror option" where
  "validateRepository urlParse rep =
     (case urlParse (repURL rep) of
        None \<Rightarrow> Some ''spec.repository.url must be an HTTPS or SSH URL''
      | Some u \<Rightarrow>
         if (urlScheme u \<noteq> ''https'' \<and> urlScheme u \<noteq> ''ssh'') \<or> urlHost u = [] \<or> urlRawQuery u \<noteq> [] \<or> urlFragment u \<noteq> []
         then Some ''spec.repository.url must be an HTTPS or SSH URL''
         else if urlScheme u = ''https'' \<and> urlUser u \<noteq> None
         then Some ''spec.repository.url must not contain HTTPS credentials''
         else if urlScheme u = ''ssh'' \<and> (\<exists>n pw. urlUser u = Some (n, Some pw))
         then Some ''spec.repository.url must not contain an SSH password''
         else if hasPrefix (repRevision rep) ''-'' \<or> length (repRevision rep) > 256 \<or> anyRune revisionRune (repRevision rep)
         then Some ''spec.repository.revision is invalid''
         else None)"

definition validateCreate :: "urlParser \<Rightarrow> CreateRequest \<Rightarrow> goerror option" where
  "validateCreate urlParse r =
     (let s = crSpec r; w = spWorkspace s in
      if \<not> ValidName (crName r) then Some ''name must be a DNS label between 1 and 63 characters''
      else if length (spKind s) < 1 \<or> profileInvalid (spKind s) then Some ''spec.kind is invalid''
      else if length (spSandboxProfile s) < 1 \<or> profileInvalid (spSandboxProfile s) then Some ''spec.sandboxProfile is invalid''
      else if spCredentialProfile s \<noteq> [] \<and> profileInvalid (spCredentialProfile s) then Some ''spec.credentialProfile is invalid''
      else if resCPU (spResources s) = [] \<or> resMemory (spResources s) = [] then Some ''spec.resources.cpu and memory are required''
      else if wsSize w = [] then Some ''spec.workspace.size is required''
      else if wsRetentionPolicy w \<noteq> ''delete'' \<and> wsRetentionPolicy w \<noteq> ''retain''
      then Some ''spec.workspace.retentionPolicy must be delete or retain''
      else case (case spRepository s of None \<Rightarrow> None | Some rep \<Rightarrow> validateRepository urlParse rep) of
        Some e \<Rightarrow> Some e
      | None \<Rightarrow>
         if wsStorageProfile w \<noteq> [] \<and> profileInvalid (wsStorageProfile w) then Some ''spec.workspace.storageProfile is invalid''
         else if spSecretProfile s \<noteq> [] \<and> profileInvalid (spSecretProfile s) then Some ''spec.secretProfile is invalid''
         else if spSecretProfile s \<noteq> [] \<and> spRepository s = None then Some ''spec.secretProfile requires spec.repository''
         else if spIdleTimeoutSeconds s < 0 \<or> spIdleTimeoutSeconds s > 604800
         then Some ''spec.lifecycle.idleTimeoutSeconds must be between 0 and 604800''
         else None)"

definition validateChange :: "ChangeAdapterRequest \<Rightarrow> goerror option" where
  "validateChange r =
     (if length (chKind r) < 1 \<or> profileInvalid (chKind r) then Some ''kind is invalid''
      else if chCredentialProfile r \<noteq> [] \<and> profileInvalid (chCredentialProfile r) then Some ''credentialProfile is invalid''
      else None)"

definition ApplyDefaults :: "CreateRequest \<Rightarrow> CreateRequest" where
  "ApplyDefaults r =
     (let s = crSpec r;
          s1 = s\<lparr>spRepository := map_option (\<lambda>rep. if repRevision rep = [] then rep\<lparr>repRevision := ''HEAD''\<rparr> else rep) (spRepository s)\<rparr>;
          w = spWorkspace s1;
          s2 = s1\<lparr>spWorkspace := if wsStorageProfile w = [] then w\<lparr>wsStorageProfile := ''default''\<rparr> else w\<rparr>
      in r\<lparr>crSpec := s2\<rparr>)"

section \<open>Which operations a state admits\<close>

definition CanStop :: "State \<Rightarrow> bool" where
  "CanStop s = (s = StateRunning \<or> s = StateStopping \<or> s = StateStopped)"

definition CanResume :: "State \<Rightarrow> bool" where
  "CanResume s = (s = StateStopped \<or> s = StateProvisioning \<or> s = StateStarting \<or> s = StateRunning)"

definition CanChangeAdapter :: "State \<Rightarrow> bool" where
  "CanChangeAdapter s = (s \<in> set [StateRequested, StateProvisioning, StateStarting, StateRunning, StateStopped, StateFailed])"

section \<open>Identifiers\<close>

text \<open>
  \<open>NewID\<close>: 16 random bytes of which the first six are overwritten with the milliseconds since the
  epoch, big endian, and the version and variant bits are set. \<open>%0kx\<close> of a byte slice prints two
  digits per byte.
\<close>

definition hexBytes :: "byte list \<Rightarrow> string" where
  "hexBytes bs = concat (map (\<lambda>b. hexFixed 2 (unat b)) bs)"

definition idTime :: "uint64 \<Rightarrow> byte list" where
  "idTime ms = map (\<lambda>k. ucast (drop_bit k ms)) [40, 32, 24, 16, 8, 0]"

unbundle bit_operations_syntax

definition NewID :: "uint64 \<Rightarrow> byte list \<Rightarrow> string" where
  "NewID ms rnd =
     (let v = idTime ms @ drop 6 rnd;
          v1 = v[6 := (v ! 6 AND 0x0f) OR 0x70];
          v2 = v1[8 := (v1 ! 8 AND 0x3f) OR 0x80]
      in hexBytes (take 4 v2) @ ''-'' @ hexBytes (take 2 (drop 4 v2)) @ ''-'' @ hexBytes (take 2 (drop 6 v2)) @ ''-'' @
         hexBytes (take 2 (drop 8 v2)) @ ''-'' @ hexBytes (take 6 (drop 10 v2)))"

text \<open>Fixed-width hexadecimal is ordered like the numbers it prints, and byte slices print as numbers.\<close>

lemma hexDigit_code: "(of_char (hexDigit n) :: nat) = (if n mod 16 < 10 then 48 + n mod 16 else 87 + n mod 16)"
proof -
  have "\<forall>m < 16. (of_char (''0123456789abcdef'' ! m) :: nat) = (if m < 10 then 48 + m else 87 + m)"
    by (simp add: All_less_Suc eval_nat_numeral)
  then show ?thesis by (simp add: hexDigit_def)
qed

lemma hexDigit_less: "m mod 16 < n mod 16 \<Longrightarrow> hexDigit m < hexDigit n"
  by (auto simp: less_char_def hexDigit_code)

lemma less_appendI: "xs < ys \<Longrightarrow> length xs = length ys \<Longrightarrow> xs @ us < ys @ (vs :: string)"
  unfolding list_less_def by (rule lexord_sufI) simp_all

lemma less_append_same: "us < vs \<Longrightarrow> xs @ us < xs @ (vs :: string)"
  unfolding list_less_def by (rule lexord_append_leftI)

lemma hexFixed_less: "m < n \<Longrightarrow> n < 16 ^ k \<Longrightarrow> hexFixed k m < hexFixed k n"
proof (induction k arbitrary: m n)
  case 0
  then show ?case by simp
next
  case (Suc k)
  show ?case
  proof (cases "m div 16 < n div 16")
    case True
    moreover have "n div 16 < 16 ^ k" using Suc.prems(2) by (simp add: less_mult_imp_div_less)
    ultimately show ?thesis using Suc.IH by (auto intro: less_appendI)
  next
    case False
    then have eq: "m div 16 = n div 16" using Suc.prems(1) by (meson div_le_mono le_antisym less_imp_le not_less)
    then have "m mod 16 < n mod 16" using Suc.prems(1) by (metis div_mult_mod_eq nat_add_left_cancel_less)
    then have "[hexDigit m] < [hexDigit n]" by (simp add: hexDigit_less)
    then show ?thesis using eq less_append_same by simp
  qed
qed

lemma hexFixed_append: "n < 16 ^ k \<Longrightarrow> hexFixed j m @ hexFixed k n = hexFixed (j + k) (m * 16 ^ k + n)"
proof (induction k arbitrary: n)
  case 0
  then show ?case by simp
next
  case (Suc k)
  have "n div 16 < 16 ^ k" using Suc.prems by (simp add: less_mult_imp_div_less)
  then have IH: "hexFixed j m @ hexFixed k (n div 16) = hexFixed (j + k) (m * 16 ^ k + n div 16)" by (rule Suc.IH)
  have d: "(m * 16 ^ Suc k + n) div 16 = m * 16 ^ k + n div 16"
  proof -
    have "m * 16 ^ Suc k + n = n + (m * 16 ^ k) * 16" by simp
    then show ?thesis by (simp only: div_mult_self1)
  qed
  have m: "hexDigit (m * 16 ^ Suc k + n) = hexDigit n"
  proof -
    have "m * 16 ^ Suc k + n = n + (m * 16 ^ k) * 16" by simp
    then have "(m * 16 ^ Suc k + n) mod 16 = n mod 16" by (simp only: mod_mult_self1)
    then show ?thesis by (simp add: hexDigit_def)
  qed
  show ?case using IH by (simp only: hexFixed.simps add_Suc_right append_assoc [symmetric] d m)
qed

lemma hexBytes_number: "hexBytes bs = hexFixed (2 * length bs) (foldl (\<lambda>n b. n * 256 + unat b) 0 bs)"
proof (induction bs rule: rev_induct)
  case Nil
  then show ?case by (simp add: hexBytes_def)
next
  case (snoc b bs)
  have "unat b < 16 ^ 2" using unsigned_less [of b] by simp
  then have "hexFixed (2 * length bs) m @ hexFixed 2 (unat b) = hexFixed (2 * length bs + 2) (m * 256 + unat b)" for m
    using hexFixed_append [of "unat b" 2 "2 * length bs" m] by simp
  then show ?case using snoc by (simp add: hexBytes_def)
qed

lemma unat_time_byte: "unat (ucast (drop_bit k ms) :: byte) = unat (ms :: uint64) div 2 ^ k mod 256"
proof -
  have "unat (ucast (drop_bit k ms) :: byte) = take_bit 8 (drop_bit k (unat ms))"
    using take_bit_nat_eq_self [OF unsigned_less [of ms]] by (simp add: unsigned_ucast_eq unsigned_drop_bit_eq)
  then show ?thesis by (simp add: take_bit_eq_mod drop_bit_eq_div)
qed

text \<open>The first two groups of digits are the upper and the lower part of the time.\<close>

lemma hexBytes_idTime:
  assumes "unat ms < 2 ^ 48"
  shows "hexBytes (take 4 (idTime ms)) = hexFixed 8 (unat ms div 65536)"
    "hexBytes (take 2 (drop 4 (idTime ms))) = hexFixed 4 (unat ms mod 65536)"
proof -
  define n where "n = unat ms"
  define m where "m = n div 65536"
  have n: "n < 281474976710656" using assms by (simp add: n_def)
  then have m: "m < 4294967296" by (simp add: m_def)
  have up: "n div 1099511627776 = m div 16777216" "n div 4294967296 = m div 65536" "n div 16777216 = m div 256"
    by (simp_all add: m_def div_mult2_eq [symmetric])
  have cat: "x div b mod 256 * b + x mod b = x mod (b * 256)" for x b :: nat
    by (simp add: mod_mult2_eq mult.commute)
  have top: "m div 16777216 mod 256 = m div 16777216" using m by (intro mod_less) simp
  have sum: "r * 256 + s = x \<Longrightarrow> q * 65536 + x = y \<Longrightarrow> p * 16777216 + y = m \<Longrightarrow> ((p * 256 + q) * 256 + r) * 256 + s = m"
    for p q r s x y :: nat by (auto simp: algebra_simps)
  have hi: "((m div 16777216 mod 256 * 256 + m div 65536 mod 256) * 256 + m div 256 mod 256) * 256 + m mod 256 = m"
    unfolding top by (rule sum [OF cat [of m 256] _ div_mult_mod_eq]) (use cat [of m 65536] in simp)
  have lo: "n div 256 mod 256 * 256 + n mod 256 = n mod 65536" using cat [of n 256] by simp
  show "hexBytes (take 4 (idTime ms)) = hexFixed 8 (unat ms div 65536)"
    unfolding hexBytes_number using hi top
    by (simp add: idTime_def unat_time_byte n_def [symmetric] up m_def [symmetric])
  show "hexBytes (take 2 (drop 4 (idTime ms))) = hexFixed 4 (unat ms mod 65536)"
    unfolding hexBytes_number using lo
    by (simp add: idTime_def unat_time_byte unat_time_byte [of 0 ms, simplified] n_def [symmetric])
qed

text \<open>\<open>looksLikeUUID\<close> group by group.\<close>

abbreviation asciiRunes :: "string \<Rightarrow> (rune \<times> string) list" where
  "asciiRunes s \<equiv> map (\<lambda>c. (of_char c, [c])) s"

lemma uuidRunes_digit:
  assumes "c \<in> set ''0123456789abcdefABCDEF''" "i \<notin> {8, 13, 18, 23}"
  shows "uuidRunes i ((of_char c, [c]) # rest) = uuidRunes (Suc i) rest"
proof -
  have "(of_char c :: nat) \<in> of_char ` set ''0123456789abcdefABCDEF''" by (rule imageI [OF assms(1)])
  moreover have "\<not> (i = 8 \<or> i = 13 \<or> i = 18 \<or> i = 23)" using assms(2) by simp
  ultimately show ?thesis
    by (simp only: uuidRunes.simps(2) simp_thms if_False list.size(3,4) add_Suc_right add_0_right add_0)
qed

lemma uuidRunes_hex:
  assumes "set s \<subseteq> set ''0123456789abcdefABCDEF''" "\<forall>j \<in> {8, 13, 18, 23}. j < i \<or> i + length s \<le> j"
  shows "uuidRunes i (asciiRunes s @ rest) = uuidRunes (i + length s) rest"
  using assms
proof (induction s arbitrary: i)
  case Nil
  then show ?case by simp
next
  case (Cons c s)
  have "i \<notin> {8, 13, 18, 23}" using Cons.prems(2) by fastforce
  then have "uuidRunes i (asciiRunes (c # s) @ rest) = uuidRunes (Suc i) (asciiRunes s @ rest)"
    using Cons.prems(1) unfolding list.map append_Cons
    by (intro uuidRunes_digit) (rule subsetD, assumption, rule list.set_intros(1))
  moreover have "uuidRunes (Suc i) (asciiRunes s @ rest) = uuidRunes (Suc i + length s) rest"
  proof (rule Cons.IH)
    show "set s \<subseteq> set ''0123456789abcdefABCDEF''" using set_subset_Cons Cons.prems(1) by (rule subset_trans)
    show "\<forall>j \<in> {8, 13, 18, 23}. j < Suc i \<or> Suc i + length s \<le> j" using Cons.prems(2) by auto
  qed
  ultimately show ?case by (simp only: list.size add_Suc add_Suc_right add_0_right)
qed

lemma uuidRunes_dash: "i \<in> {8, 13, 18, 23} \<Longrightarrow> uuidRunes i (asciiRunes ''-'' @ rest) = uuidRunes (Suc i) rest"
  by auto

lemma hexBytes_digits: "set (hexBytes bs) \<subseteq> set ''0123456789abcdefABCDEF''"
  and length_hexBytes: "length (hexBytes bs) = 2 * length bs"
proof -
  show "set (hexBytes bs) \<subseteq> set ''0123456789abcdefABCDEF''"
    unfolding hexBytes_number using hexFixed_digits by (rule order_trans) auto
qed (simp add: hexBytes_number)

lemma looksLikeUUID_groups:
  assumes "length a = 4" "length b = 2" "length c = 2" "length d = 2" "length e = 6"
  shows "looksLikeUUID (hexBytes a @ ''-'' @ hexBytes b @ ''-'' @ hexBytes c @ ''-'' @ hexBytes d @ ''-'' @ hexBytes e)"
    (is "looksLikeUUID ?s")
proof -
  have "(of_char x :: nat) < 128" if "x \<in> set ''0123456789abcdefABCDEF''" for x :: char
    using that by auto
  then have "\<forall>x \<in> set (hexBytes bs). (of_char x :: nat) < 128" for bs using hexBytes_digits by blast
  then have "\<forall>x \<in> set ?s. (of_char x :: nat) < 128" by auto
  then have "runeList ?s = asciiRunes ?s" by (rule runeList_ascii)
  moreover have "uuidRunes 0 (asciiRunes ?s @ []) = True"
    unfolding map_append append_assoc
    by (simp add: uuidRunes_hex [OF hexBytes_digits] uuidRunes_dash length_hexBytes assms del: append_Nil2 list.simps(9))
  ultimately show ?thesis using assms by (simp add: looksLikeUUID_def length_hexBytes)
qed

lemma NewID_groups:
  assumes "length r = 16"
  obtains c d e where "NewID x r = hexBytes (take 4 (idTime x)) @ ''-'' @ hexBytes (take 2 (drop 4 (idTime x))) @ ''-'' @
      hexBytes c @ ''-'' @ hexBytes d @ ''-'' @ hexBytes e" "length c = 2" "length d = 2" "length e = 6"
proof -
  define v2 where "v2 = (let v = idTime x @ drop 6 r; v1 = v[6 := (v ! 6 AND 0x0f) OR 0x70]
    in v1[8 := (v1 ! 8 AND 0x3f) OR 0x80])"
  have len: "length (idTime x) = 6" by (simp add: idTime_def)
  have "length v2 = 16" using assms len by (simp add: v2_def Let_def)
  moreover have t: "take 6 v2 = idTime x" using len by (simp add: v2_def Let_def)
  have "take 4 v2 = take 4 (idTime x)" "take 2 (drop 4 v2) = take 2 (drop 4 (idTime x))"
    unfolding t [symmetric] by (simp_all add: drop_take)
  moreover have "NewID x r = hexBytes (take 4 v2) @ ''-'' @ hexBytes (take 2 (drop 4 v2)) @ ''-'' @ hexBytes (take 2 (drop 6 v2)) @ ''-'' @
      hexBytes (take 2 (drop 8 v2)) @ ''-'' @ hexBytes (take 6 (drop 10 v2))"
    by (simp only: NewID_def v2_def Let_def)
  ultimately show thesis
    using that [of "take 2 (drop 6 v2)" "take 2 (drop 8 v2)" "take 6 (drop 10 v2)"] by simp
qed

text \<open>
  Identifiers are well formed and ordered by time: whatever random bytes are drawn, an
  identifier passes the test that the API and the runner make of agent identifiers, and one
  drawn in a later millisecond (before the year 10889, when 48 bits overflow) is greater in the
  byte order by which agents are listed and pages continue.
\<close>

theorem newid_uuid_ordered:
  assumes "length rnd = 16" "length rnd' = 16" "unat ms < unat ms'" "unat ms' < 2 ^ 48"
  shows "looksLikeUUID (NewID ms rnd) \<and> NewID ms rnd < NewID ms' rnd'"
proof -
  have len: "length (idTime x) = 6" for x by (simp add: idTime_def)
  obtain c d e where 1: "NewID ms rnd = hexBytes (take 4 (idTime ms)) @ ''-'' @ hexBytes (take 2 (drop 4 (idTime ms))) @ ''-'' @
      hexBytes c @ ''-'' @ hexBytes d @ ''-'' @ hexBytes e" "length c = 2" "length d = 2" "length e = 6"
    by (rule NewID_groups [OF assms(1)])
  obtain c' d' e' where 2: "NewID ms' rnd' = hexBytes (take 4 (idTime ms')) @ ''-'' @ hexBytes (take 2 (drop 4 (idTime ms'))) @ ''-'' @
      hexBytes c' @ ''-'' @ hexBytes d' @ ''-'' @ hexBytes e'"
    by (rule NewID_groups [OF assms(2)])
  have "looksLikeUUID (NewID ms rnd)"
    unfolding 1(1) using 1 len [of ms] by (intro looksLikeUUID_groups) simp_all
  moreover have "NewID ms rnd < NewID ms' rnd'"
  proof (cases "unat ms div 65536 < unat ms' div 65536")
    case True
    then have "hexFixed 8 (unat ms div 65536) < hexFixed 8 (unat ms' div 65536)"
      using assms(4) by (intro hexFixed_less) auto
    then show ?thesis
      using assms(3,4) unfolding 1 2 by (simp only: hexBytes_idTime) (intro less_appendI, simp_all)
  next
    case False
    then have eq: "unat ms div 65536 = unat ms' div 65536"
      using assms(3) by (meson div_le_mono le_antisym less_imp_le not_less)
    then have "unat ms mod 65536 < unat ms' mod 65536"
      using assms(3) by (metis div_mult_mod_eq nat_add_left_cancel_less)
    then have "hexFixed 4 (unat ms mod 65536) < hexFixed 4 (unat ms' mod 65536)"
      by (intro hexFixed_less) auto
    then have "hexFixed 4 (unat ms mod 65536) @ us < hexFixed 4 (unat ms' mod 65536) @ vs" for us vs
      by (intro less_appendI) simp_all
    then show ?thesis
      using assms(3,4) eq unfolding 1 2 by (simp add: hexBytes_idTime less_append_same)
  qed
  ultimately show ?thesis by blast
qed

theorem newid_uuid_ordered_witness:
  "NewID 1700000000000 (replicate 16 255) < NewID 1700000000001 (replicate 16 0)"
  using newid_uuid_ordered [of "replicate 16 255" "replicate 16 0" 1700000000000 1700000000001] by simp

end
