(* ===== verification/Effects.thy ===== *)
theory Effects
  imports Prelude "HOL-Library.State_Monad"
begin

text \<open>
  Programs with effects. The environment of a program, an API server or a file system, is a
  parameter: functions on a state \<open>'w\<close> of the world that others may change as well, so that
  nothing is assumed about what two calls in a row answer. Every call is recorded in a log of
  actions \<open>'e\<close>; code that makes calls is a state monad over the world and the log. \<open>yields\<close> is
  the contract of a program: what it may do and what it may return, whatever it is answered.
\<close>

record ('w, 'e) est =
  world :: 'w
  actions :: "'e list"

type_synonym ('w, 'e, 'a) prog = "(('w, 'e) est, 'a) state"

definition effect :: "'e \<Rightarrow> ('w \<Rightarrow> 'a \<times> 'w) \<Rightarrow> ('w, 'e, 'a) prog" where
  "effect act f = State (\<lambda>s. let (r, w) = f (world s) in (r, s\<lparr>world := w, actions := actions s @ [act]\<rparr>))"

definition ask :: "('w \<Rightarrow> 'a \<times> 'w) \<Rightarrow> ('w, 'e, 'a) prog" where
  "ask f = State (\<lambda>s. let (r, w) = f (world s) in (r, s\<lparr>world := w\<rparr>))"

abbreviation ret :: "'a \<Rightarrow> ('w, 'e, 'a) prog" where
  "ret \<equiv> State_Monad.return"

section \<open>What a program may do\<close>

text \<open>
  \<open>does P m\<close>: whatever the environment answers, every action of \<open>m\<close> satisfies \<open>P\<close>;
  \<open>yields P Q m\<close>: moreover the result satisfies \<open>Q\<close>.
\<close>

definition yields :: "('e \<Rightarrow> bool) \<Rightarrow> ('a \<Rightarrow> bool) \<Rightarrow> ('w, 'e, 'a) prog \<Rightarrow> bool" where
  "yields P Q m \<longleftrightarrow> (\<forall>s. \<exists>as. actions (snd (run_state m s)) = actions s @ as \<and> list_all P as \<and> Q (fst (run_state m s)))"

abbreviation does :: "('e \<Rightarrow> bool) \<Rightarrow> ('w, 'e, 'a) prog \<Rightarrow> bool" where
  "does P \<equiv> yields P (\<lambda>_. True)"

named_theorems does_intros \<open>what programs may do, by their form\<close>

lemma run_bind: "run_state (State_Monad.bind f g) s = (let (a, s') = run_state f s in run_state (g a) s')"
  by (simp add: State_Monad.bind_def case_prod_beta)

lemma yields_return: "Q x \<Longrightarrow> yields P Q (State_Monad.return x)"
  by (simp add: yields_def)

lemma yields_bind:
  assumes "yields P R f" "\<And>a. R a \<Longrightarrow> yields P Q (g a)"
  shows "yields P Q (State_Monad.bind f g)"
  unfolding yields_def run_bind
proof
  fix s
  obtain a s' where f: "run_state f s = (a, s')" by (rule prod.exhaust)
  with assms(1) obtain as where 1: "actions s' = actions s @ as" "list_all P as" "R a"
    unfolding yields_def by (metis fst_conv snd_conv)
  with assms(2) obtain bs where "actions (snd (run_state (g a) s')) = actions s' @ bs" "list_all P bs" "Q (fst (run_state (g a) s'))"
    unfolding yields_def by blast
  with f 1 show "\<exists>as. actions (snd (let (a, s') = run_state f s in run_state (g a) s')) = actions s @ as \<and> list_all P as \<and>
      Q (fst (let (a, s') = run_state f s in run_state (g a) s'))"
    by (intro exI [of _ "as @ bs"]) simp
qed

lemma yields_effect: "P act \<Longrightarrow> does P (effect act f)"
  by (auto simp: yields_def effect_def case_prod_beta)

lemma yields_ask: "does P (ask f)"
  by (auto simp: yields_def ask_def case_prod_beta)

lemma yields_weaken: "yields P Q m \<Longrightarrow> (\<And>x. Q x \<Longrightarrow> Q' x) \<Longrightarrow> yields P Q' m"
  unfolding yields_def by blast

lemma does_return: "does P (State_Monad.return x)"
  by (rule yields_return) simp

lemma does_bind: "does P f \<Longrightarrow> (\<And>a. does P (g a)) \<Longrightarrow> does P (State_Monad.bind f g)"
  by (rule yields_bind) simp_all

lemma does_option:
  "(x = None \<Longrightarrow> does P a) \<Longrightarrow> (\<And>y. x = Some y \<Longrightarrow> does P (b y)) \<Longrightarrow> does P (case x of None \<Rightarrow> a | Some y \<Rightarrow> b y)"
  by (cases x) auto

lemma does_sum:
  "(\<And>e. x = Inl e \<Longrightarrow> does P (a e)) \<Longrightarrow> (\<And>y. x = Inr y \<Longrightarrow> does P (b y)) \<Longrightarrow> does P (case x of Inl e \<Rightarrow> a e | Inr y \<Rightarrow> b y)"
  by (cases x) auto

lemma does_if: "(c \<Longrightarrow> does P a) \<Longrightarrow> (\<not> c \<Longrightarrow> does P b) \<Longrightarrow> does P (if c then a else b)"
  by simp

lemma does_let: "(\<And>x. x = e \<Longrightarrow> does P (f x)) \<Longrightarrow> does P (let x = e in f x)"
  by simp

lemmas does_forms [does_intros] = does_return does_bind does_option does_sum does_if does_let

section \<open>What must have happened before\<close>

text \<open>
  A contract over the history of actions: started after a history that satisfies \<open>H\<close>, every action
  of \<open>m\<close> satisfies \<open>P\<close> together with all that happened before it, and the result satisfies \<open>Q\<close>
  together with the history at the end.
\<close>

definition ordered ::
  "('e list \<Rightarrow> bool) \<Rightarrow> ('e list \<Rightarrow> 'e \<Rightarrow> bool) \<Rightarrow> ('w, 'e, 'a) prog \<Rightarrow> ('a \<Rightarrow> 'e list \<Rightarrow> bool) \<Rightarrow> bool" where
  "ordered H P m Q \<longleftrightarrow>
     (\<forall>s. H (actions s) \<longrightarrow>
       (\<exists>as. actions (snd (run_state m s)) = actions s @ as \<and>
          (\<forall>pre ev post. as = pre @ ev # post \<longrightarrow> P (actions s @ pre) ev) \<and>
          Q (fst (run_state m s)) (actions s @ as)))"

lemma ordered_return: "(\<And>h. H h \<Longrightarrow> Q x h) \<Longrightarrow> ordered H P (State_Monad.return x) Q"
  by (simp add: ordered_def)

lemma ordered_bind:
  fixes m :: "('w, 'e, 'a) prog"
  assumes "ordered H P m R" "\<And>a. ordered (R a) P (f a) Q"
  shows "ordered H P (State_Monad.bind m f) Q"
  unfolding ordered_def run_bind
proof (intro allI impI)
  fix s :: "('w, 'e) est"
  assume "H (actions s)"
  obtain a s' where m: "run_state m s = (a, s')" by (rule prod.exhaust)
  obtain as where as: "actions s' = actions s @ as" "\<forall>pre ev post. as = pre @ ev # post \<longrightarrow> P (actions s @ pre) ev" "R a (actions s')"
    using assms(1) \<open>H (actions s)\<close> m unfolding ordered_def by (metis fst_conv snd_conv)
  obtain bs where bs: "actions (snd (run_state (f a) s')) = actions s' @ bs"
      "\<forall>pre ev post. bs = pre @ ev # post \<longrightarrow> P (actions s' @ pre) ev" "Q (fst (run_state (f a) s')) (actions s' @ bs)"
    using assms(2) [of a] as(3) unfolding ordered_def by blast
  have "\<forall>pre ev post. as @ bs = pre @ ev # post \<longrightarrow> P (actions s @ pre) ev"
  proof (intro allI impI)
    fix pre ev post
    assume "as @ bs = pre @ ev # post"
    then consider us where "as = pre @ ev # us" | us where "pre = as @ us" "bs = us @ ev # post"
      by (auto simp: append_eq_append_conv2 append_eq_Cons_conv)
    then show "P (actions s @ pre) ev"
    proof cases
      case 1
      with as(2) show ?thesis by blast
    next
      case 2
      with bs(2) as(1) show ?thesis by (metis append.assoc)
    qed
  qed
  then show "\<exists>cs. actions (snd (let (a, s') = run_state m s in run_state (f a) s')) = actions s @ cs \<and>
      (\<forall>pre ev post. cs = pre @ ev # post \<longrightarrow> P (actions s @ pre) ev) \<and>
      Q (fst (let (a, s') = run_state m s in run_state (f a) s')) (actions s @ cs)"
    using m as(1) bs(1,3) by (intro exI [of _ "as @ bs"]) simp
qed

lemma ordered_conseq:
  assumes "ordered H P m Q" "\<And>h. H' h \<Longrightarrow> H h" "\<And>x h. Q x h \<Longrightarrow> Q' x h"
  shows "ordered H' P m Q'"
  using assms unfolding ordered_def by blast

text \<open>A program that keeps what is known: the facts in \<open>H\<close> survive more actions.\<close>

lemma ordered_frame:
  fixes m :: "('w, 'e, 'a) prog"
  assumes "does A m" "\<And>h ev. A ev \<Longrightarrow> P h ev" "\<And>h as. H h \<Longrightarrow> H (h @ as)"
  shows "ordered H P m (\<lambda>_. H)"
  unfolding ordered_def
proof (intro allI impI)
  fix s :: "('w, 'e) est"
  assume "H (actions s)"
  obtain as where as: "actions (snd (run_state m s)) = actions s @ as" "list_all A as"
    using assms(1) unfolding yields_def by blast
  then have "\<forall>pre ev post. as = pre @ ev # post \<longrightarrow> P (actions s @ pre) ev"
    using assms(2) by auto
  with as(1) assms(3) \<open>H (actions s)\<close>
  show "\<exists>as. actions (snd (run_state m s)) = actions s @ as \<and> (\<forall>pre ev post. as = pre @ ev # post \<longrightarrow> P (actions s @ pre) ev) \<and> H (actions s @ as)"
    by blast
qed

lemma ordered_if: "(c \<Longrightarrow> ordered H P m Q) \<Longrightarrow> (\<not> c \<Longrightarrow> ordered H P n Q) \<Longrightarrow> ordered H P (if c then m else n) Q"
  by simp

lemma ordered_sum:
  "(\<And>e. x = Inl e \<Longrightarrow> ordered H P (a e) Q) \<Longrightarrow> (\<And>y. x = Inr y \<Longrightarrow> ordered H P (b y) Q) \<Longrightarrow>
     ordered H P (case x of Inl e \<Rightarrow> a e | Inr y \<Rightarrow> b y) Q"
  by (cases x) auto

lemma ordered_option:
  "(x = None \<Longrightarrow> ordered H P a Q) \<Longrightarrow> (\<And>y. x = Some y \<Longrightarrow> ordered H P (b y) Q) \<Longrightarrow>
     ordered H P (case x of None \<Rightarrow> a | Some y \<Rightarrow> b y) Q"
  by (cases x) auto

lemma ordered_ask: "ordered H P (ask f) (\<lambda>_. H)"
  by (simp add: ordered_def ask_def case_prod_beta)

section \<open>Programs that fail\<close>

text \<open>
  A function of the source that returns a value and an error is a program with a result in the sum
  of errors and values; \<open>attempt\<close> is \<^verbatim>\<open>if err != nil { return err }\<close>. \<open>okWith\<close> and \<open>okAfter\<close> are
  contracts on success, \<open>lasting\<close> facts survive more actions.
\<close>

definition isOK :: "'e + 'a \<Rightarrow> bool" where
  "isOK r = (case r of Inl _ \<Rightarrow> False | Inr _ \<Rightarrow> True)"

definition attempt :: "('w, 'e, 'x + 'a) prog \<Rightarrow> ('a \<Rightarrow> ('w, 'e, 'x + 'b) prog) \<Rightarrow> ('w, 'e, 'x + 'b) prog" where
  "attempt m f = State_Monad.bind m (\<lambda>r. case r of Inl e \<Rightarrow> ret (Inl e) | Inr x \<Rightarrow> f x)"

definition okWith :: "('a \<Rightarrow> bool) \<Rightarrow> 'e + 'a \<Rightarrow> bool" where
  "okWith Q r = (case r of Inl _ \<Rightarrow> True | Inr x \<Rightarrow> Q x)"

lemma okWith_simps [simp]: "okWith Q (Inl e)" "okWith Q (Inr x) = Q x"
  by (simp_all add: okWith_def)

lemma yields_attempt:
  assumes "yields P (okWith R) m" "\<And>x. R x \<Longrightarrow> yields P (okWith Q) (f x)"
  shows "yields P (okWith Q) (attempt m f)"
  unfolding attempt_def
proof (rule yields_bind [OF assms(1)])
  fix r :: "'b + 'c"
  assume "okWith R r"
  then show "yields P (okWith Q) (case r of Inl e \<Rightarrow> ret (Inl e) | Inr x \<Rightarrow> f x)"
    using assms(2) by (cases r) (auto intro: yields_return)
qed

lemma does_attempt: "does P m \<Longrightarrow> (\<And>x. does P (f x)) \<Longrightarrow> does P (attempt m f)"
  unfolding attempt_def by (intro does_intros)

definition okAfter :: "('a \<Rightarrow> 'e list \<Rightarrow> bool) \<Rightarrow> 'x + 'a \<Rightarrow> 'e list \<Rightarrow> bool" where
  "okAfter Q r h = (case r of Inl _ \<Rightarrow> True | Inr x \<Rightarrow> Q x h)"

lemma okAfter_simps [simp]: "okAfter Q (Inl e) h" "okAfter Q (Inr x) = Q x"
  by (simp_all add: okAfter_def fun_eq_iff)

definition lasting :: "('e list \<Rightarrow> bool) \<Rightarrow> bool" where
  "lasting H \<longleftrightarrow> (\<forall>h as. H h \<longrightarrow> H (h @ as))"

lemma lasting_conj: "lasting H \<Longrightarrow> lasting K \<Longrightarrow> lasting (\<lambda>h. H h \<and> K h)"
  by (simp add: lasting_def)

lemma lasting_disj: "lasting H \<Longrightarrow> lasting K \<Longrightarrow> lasting (\<lambda>h. H h \<or> K h)"
  by (auto simp: lasting_def)

lemma lasting_ex: "(\<And>x. lasting (H x)) \<Longrightarrow> lasting (\<lambda>h. \<exists>x. H x h)"
  by (auto simp: lasting_def)

lemma lasting_known: "lasting (\<lambda>h. ev \<in> set h)" "lasting (\<lambda>h. c)"
  by (simp_all add: lasting_def)

lemma lasting_if: "lasting H \<Longrightarrow> lasting K \<Longrightarrow> lasting (\<lambda>h. if c then H h else K h)"
  by (cases c) simp_all

lemmas lasting_intros = lasting_conj lasting_disj lasting_ex lasting_known

lemma ordered_attempt:
  assumes "ordered H P m (okAfter R)" "\<And>x. ordered (R x) P (f x) (okAfter Q)"
  shows "ordered H P (attempt m f) (okAfter Q)"
  unfolding attempt_def
proof (rule ordered_bind [OF assms(1)])
  fix r :: "'c + 'd"
  show "ordered (okAfter R r) P (case r of Inl e \<Rightarrow> ret (Inl e) | Inr x \<Rightarrow> f x) (okAfter Q)"
    using assms(2) by (cases r) (auto intro: ordered_return)
qed

lemma ordered_effect:
  assumes "\<And>h. H h \<Longrightarrow> P h act" "\<And>h r. H h \<Longrightarrow> Q r (h @ [act])"
  shows "ordered H P (effect act f) Q"
  using assms by (auto simp: ordered_def effect_def case_prod_beta Cons_eq_append_conv)

lemma run_attempt: "run_state (attempt m f) s =
  (case run_state m s of (Inl e, s') \<Rightarrow> (Inl e, s') | (Inr x, s') \<Rightarrow> run_state (f x) s')"
  by (auto simp: attempt_def run_bind State_Monad.return_def split: prod.splits sum.splits)

lemma run_effect: "run_state (effect e f) s = (let (r, w) = f (world s) in (r, s\<lparr>world := w, actions := actions s @ [e]\<rparr>))"
  by (simp add: effect_def)

lemma run_asked: "run_state (ask f) s = (let (r, w) = f (world s) in (r, s\<lparr>world := w\<rparr>))"
  by (simp add: ask_def)

section \<open>Calls logged with their outcome\<close>

text \<open>A call that is logged with a record of its outcome.\<close>

definition withOutcome :: "('r \<Rightarrow> 'e) \<Rightarrow> ('w \<Rightarrow> 'r \<times> 'w) \<Rightarrow> ('w, 'e, 'r) prog" where
  "withOutcome ev f = State (\<lambda>s. let (r, w) = f (world s) in (r, s\<lparr>world := w, actions := actions s @ [ev r]\<rparr>))"

definition noted :: "'e \<Rightarrow> ('w, 'e, unit) prog" where
  "noted ev = effect ev (\<lambda>w. ((), w))"

lemma ordered_invariant:
  fixes m :: "('w, 'e, 'a) prog"
  assumes "yields A Q m" "\<And>h ev. A ev \<Longrightarrow> P h ev" "\<And>h as. H h \<Longrightarrow> list_all A as \<Longrightarrow> H (h @ as)"
  shows "ordered H P m (\<lambda>r h. H h \<and> Q r)"
  unfolding ordered_def
proof (intro allI impI)
  fix s :: "('w, 'e) est"
  assume "H (actions s)"
  obtain as where as: "actions (snd (run_state m s)) = actions s @ as" "list_all A as" "Q (fst (run_state m s))"
    using assms(1) unfolding yields_def by blast
  then have "\<forall>pre ev post. as = pre @ ev # post \<longrightarrow> P (actions s @ pre) ev" using assms(2) by auto
  with as assms(3) [OF \<open>H (actions s)\<close>]
  show "\<exists>as. actions (snd (run_state m s)) = actions s @ as \<and>
      (\<forall>pre ev post. as = pre @ ev # post \<longrightarrow> P (actions s @ pre) ev) \<and>
      H (actions s @ as) \<and> Q (fst (run_state m s))"
    by blast
qed

lemma ordered_withOutcome:
  assumes "\<And>h r. H h \<Longrightarrow> P h (ev r)" "\<And>h r. H h \<Longrightarrow> Q r (h @ [ev r])"
  shows "ordered H P (withOutcome ev f) Q"
  using assms by (auto simp: ordered_def withOutcome_def case_prod_beta Cons_eq_append_conv)

lemma ordered_noted:
  assumes "\<And>h. H h \<Longrightarrow> P h ev" "\<And>h. H h \<Longrightarrow> Q (h @ [ev])"
  shows "ordered H P (noted ev) (\<lambda>_. Q)"
  unfolding noted_def by (rule ordered_effect) (use assms in auto)

lemma yields_withOutcome: "(\<And>r. P (ev r)) \<Longrightarrow> does P (withOutcome ev f)"
  by (auto simp: yields_def withOutcome_def case_prod_beta)

lemma okAfter_any: "ordered H P m Q \<Longrightarrow> ordered H P m (okAfter (\<lambda>_ _. True))"
  by (erule ordered_conseq) (auto simp: okAfter_def split: sum.splits)

lemma ordered_from_start:
  assumes "ordered (\<lambda>h. h = []) P m (\<lambda>_ _. True)" "actions s = []" "run_state m s = (r, s')" "actions s' = pre @ ev # post"
  shows "P pre ev"
  using assms unfolding ordered_def by (metis append_Nil snd_conv)

lemma run_withOutcome: "run_state (withOutcome ev f) s = (let (r, w) = f (world s) in (r, s\<lparr>world := w, actions := actions s @ [ev r]\<rparr>))"
  by (simp add: withOutcome_def)

end
