(* ===== verification/Kube.thy ===== *)
theory Kube
  imports Lifecycle Effects
begin

text \<open>
  Kubernetes objects and the dynamic client, as far as \<^verbatim>\<open>internal/kubernetes\<close> uses them. An
  unstructured object is a JSON value. The API server is a parameter: a record of functions on a
  state \<open>'w\<close> of the world that other clients may change as well, so that nothing is assumed about
  what two calls in a row answer. Every call is recorded in a log, and so are published events;
  code that makes calls is a state monad over the world and the log.
\<close>

section \<open>Unstructured objects\<close>

fun member :: "string \<Rightarrow> json \<Rightarrow> json option" where
  "member k (JObj ms) = map_of ms k"
| "member k _ = None"

fun nested :: "string list \<Rightarrow> json \<Rightarrow> json option" where
  "nested [] v = Some v"
| "nested (k # ks) v = (case member k v of None \<Rightarrow> None | Some u \<Rightarrow> nested ks u)"

text \<open>\<open>NestedString\<close>, \<open>NestedInt64\<close>, \<open>NestedSlice\<close>, \<open>NestedMap\<close> with the found flag and the error ignored.\<close>

definition nestedString :: "string list \<Rightarrow> json \<Rightarrow> string" where
  "nestedString ks v = (case nested ks v of Some (JStr s) \<Rightarrow> s | _ \<Rightarrow> [])"

definition nestedInt64 :: "string list \<Rightarrow> json \<Rightarrow> int option" where
  "nestedInt64 ks v =
     (case nested ks v of Some (JNum lit) \<Rightarrow> parseIntLit (- (2 ^ 63)) (2 ^ 63 - 1) lit | _ \<Rightarrow> None)"

definition nestedSlice :: "string list \<Rightarrow> json \<Rightarrow> json list" where
  "nestedSlice ks v = (case nested ks v of Some (JArr vs) \<Rightarrow> vs | _ \<Rightarrow> [])"

definition nestedMap :: "string list \<Rightarrow> json \<Rightarrow> (string \<times> json) list option" where
  "nestedMap ks v = (case nested ks v of Some (JObj ms) \<Rightarrow> Some ms | _ \<Rightarrow> None)"

fun stringValue :: "json \<Rightarrow> string option" where
  "stringValue (JStr s) = Some s"
| "stringValue _ = None"

text \<open>\<open>NestedStringMap\<close>: one value that is not a string makes the whole map unreadable.\<close>

definition stringMap :: "string list \<Rightarrow> json \<Rightarrow> string \<Rightarrow> string" where
  "stringMap ks v k =
     (case nestedMap ks v of
        None \<Rightarrow> []
      | Some ms \<Rightarrow>
         if list_all (\<lambda>(_, u). stringValue u \<noteq> None) ms
         then (case map_of ms k of Some (JStr s) \<Rightarrow> s | _ \<Rightarrow> [])
         else [])"

fun putMember :: "string \<Rightarrow> json \<Rightarrow> (string \<times> json) list \<Rightarrow> (string \<times> json) list" where
  "putMember k v [] = [(k, v)]"
| "putMember k v ((k', v') # ms) = (if k' = k then (k, v) # ms else (k', v') # putMember k v ms)"

text \<open>\<open>SetNestedField\<close> fails when something on the way is not an object; missing objects are made.\<close>

fun setNested :: "string list \<Rightarrow> json \<Rightarrow> json \<Rightarrow> json option" where
  "setNested [k] v (JObj ms) = Some (JObj (putMember k v ms))"
| "setNested (k # ks) v (JObj ms) =
     map_option (\<lambda>u. JObj (putMember k u ms))
       (setNested ks v (case map_of ms k of None \<Rightarrow> JObj [] | Some u \<Rightarrow> u))"
| "setNested _ _ _ = None"

fun removeNested :: "string list \<Rightarrow> json \<Rightarrow> json" where
  "removeNested [k] (JObj ms) = JObj (filter (\<lambda>m. fst m \<noteq> k) ms)"
| "removeNested (k # ks) (JObj ms) =
     (case map_of ms k of None \<Rightarrow> JObj ms | Some u \<Rightarrow> JObj (putMember k (removeNested ks u) ms))"
| "removeNested _ v = v"

abbreviation objName :: "json \<Rightarrow> string" where
  "objName \<equiv> nestedString [''metadata'', ''name'']"

abbreviation objLabel :: "json \<Rightarrow> string \<Rightarrow> string" where
  "objLabel \<equiv> stringMap [''metadata'', ''labels'']"

abbreviation objAnnotation :: "json \<Rightarrow> string \<Rightarrow> string" where
  "objAnnotation \<equiv> stringMap [''metadata'', ''annotations'']"

text \<open>\<open>GetFinalizers\<close> and \<open>SetFinalizers\<close>, which drops the field for an empty list.\<close>

definition finalizers :: "json \<Rightarrow> string list" where
  "finalizers obj = (case those (map stringValue (nestedSlice [''metadata'', ''finalizers''] obj)) of Some fs \<Rightarrow> fs | None \<Rightarrow> [])"

definition setFinalizers :: "string list \<Rightarrow> json \<Rightarrow> json" where
  "setFinalizers fs obj =
     (if fs = [] then removeNested [''metadata'', ''finalizers''] obj
      else case setNested [''metadata'', ''finalizers''] (JArr (map JStr fs)) obj of Some o' \<Rightarrow> o' | None \<Rightarrow> obj)"

lemma map_of_putMember [simp]: "map_of (putMember k v ms) = (map_of ms)(k \<mapsto> v)"
  by (induction ms) (auto simp: fun_eq_iff)

lemma member_setNested1: "setNested [k] v obj = Some obj' \<Longrightarrow> member j obj' = (if j = k then Some v else member j obj)"
  by (cases obj) auto

lemma nested_setNested:
  "setNested ks v obj = Some obj' \<Longrightarrow> nested ks obj' = Some v"
  by (induction ks v obj arbitrary: obj' rule: setNested.induct) auto

text \<open>Setting a path leaves alone what does not start with its first name.\<close>

lemma member_setNested_other:
  "setNested (k # ks) v obj = Some obj' \<Longrightarrow> j \<noteq> k \<Longrightarrow> member j obj' = member j obj"
  by (cases obj; cases ks) auto

lemma member_setNested_same:
  "setNested (k # l # ls) v obj = Some obj' \<Longrightarrow>
     \<exists>u. setNested (l # ls) v (case member k obj of None \<Rightarrow> JObj [] | Some u \<Rightarrow> u) = Some u \<and> member k obj' = Some u"
  by (cases obj) auto

section \<open>The client\<close>

datatype gvr = AgentGVR | SandboxClaimGVR | SandboxGVR | PodGVR | PVCGVR

datatype propagation = DefaultPropagation | Foreground | Orphan

datatype apiError =
    NotFoundError goerror
  | ConflictError goerror
  | ForbiddenError goerror
  | AlreadyExistsError goerror
  | OtherError goerror

fun apiText :: "apiError \<Rightarrow> goerror" where
  "apiText (NotFoundError t) = t"
| "apiText (ConflictError t) = t"
| "apiText (ForbiddenError t) = t"
| "apiText (AlreadyExistsError t) = t"
| "apiText (OtherError t) = t"

fun isNotFound :: "apiError \<Rightarrow> bool" where
  "isNotFound (NotFoundError _) = True"
| "isNotFound _ = False"

fun isAlreadyExists :: "apiError \<Rightarrow> bool" where
  "isAlreadyExists (AlreadyExistsError _) = True"
| "isAlreadyExists _ = False"

record 'w kube =
  apiGet :: "gvr \<Rightarrow> string \<Rightarrow> 'w \<Rightarrow> (apiError + json) \<times> 'w"
  apiList :: "gvr \<Rightarrow> string \<Rightarrow> 'w \<Rightarrow> (apiError + json list) \<times> 'w"
  apiCreate :: "gvr \<Rightarrow> json \<Rightarrow> 'w \<Rightarrow> (apiError + json) \<times> 'w"
  apiUpdate :: "gvr \<Rightarrow> json \<Rightarrow> 'w \<Rightarrow> (apiError + json) \<times> 'w"
  apiUpdateStatus :: "gvr \<Rightarrow> json \<Rightarrow> 'w \<Rightarrow> (apiError + json) \<times> 'w"
  apiPatch :: "gvr \<Rightarrow> string \<Rightarrow> json \<Rightarrow> 'w \<Rightarrow> (apiError + json) \<times> 'w"
  apiDelete :: "gvr \<Rightarrow> string \<Rightarrow> propagation \<Rightarrow> 'w \<Rightarrow> apiError option \<times> 'w"
  clock :: "'w \<Rightarrow> time \<times> 'w"
  freshID :: "'w \<Rightarrow> string \<times> 'w"

datatype apiCall =
    CGet gvr string
  | CList gvr string
  | CCreate gvr json
  | CUpdate gvr json
  | CUpdateStatus gvr json
  | CPatch gvr string json
  | CDelete gvr string propagation

text \<open>
  What the terminal gateway does with its connections (a slot of the connection limit, the
  client's and the runner's WebSocket), and the counters it adds to.
\<close>

datatype socketAction =
    SlotTaken string
  | SlotFreed string
  | Upgraded
  | FromClient string
  | FromRunner string
  | ToClient string
  | ClosedClient string
  | DroppedClient
  | Dialed string "(string \<times> string list) list"
  | ToRunner string
  | DroppedRunner

datatype counter =
    ActiveConnections | Connections | DurationNanos | DurationCount | BytesFromClient | BytesToClient
  | ReplayGaps | Takeovers | Failures

text \<open>
  What the control plane did, in order: calls to the API server, published events, identifiers
  handed to the controller, audit records, terminal connections, and metrics.
\<close>

datatype action =
    Call apiCall
  | Published Event
  | Enqueued string
  | Audited "(string \<times> string) list"
  | Socket socketAction
  | Counted counter uint64

type_synonym 'w kst = "('w, action) est"
type_synonym ('w, 'a) kprog = "('w, action, 'a) prog"

definition kGet :: "'w kube \<Rightarrow> gvr \<Rightarrow> string \<Rightarrow> ('w, apiError + json) kprog" where
  "kGet K g n = effect (Call (CGet g n)) (apiGet K g n)"

definition kList :: "'w kube \<Rightarrow> gvr \<Rightarrow> string \<Rightarrow> ('w, apiError + json list) kprog" where
  "kList K g sel = effect (Call (CList g sel)) (apiList K g sel)"

definition kCreate :: "'w kube \<Rightarrow> gvr \<Rightarrow> json \<Rightarrow> ('w, apiError + json) kprog" where
  "kCreate K g obj = effect (Call (CCreate g obj)) (apiCreate K g obj)"

definition kUpdate :: "'w kube \<Rightarrow> gvr \<Rightarrow> json \<Rightarrow> ('w, apiError + json) kprog" where
  "kUpdate K g obj = effect (Call (CUpdate g obj)) (apiUpdate K g obj)"

definition kUpdateStatus :: "'w kube \<Rightarrow> gvr \<Rightarrow> json \<Rightarrow> ('w, apiError + json) kprog" where
  "kUpdateStatus K g obj = effect (Call (CUpdateStatus g obj)) (apiUpdateStatus K g obj)"

definition kPatch :: "'w kube \<Rightarrow> gvr \<Rightarrow> string \<Rightarrow> json \<Rightarrow> ('w, apiError + json) kprog" where
  "kPatch K g n obj = effect (Call (CPatch g n obj)) (apiPatch K g n obj)"

definition kDelete :: "'w kube \<Rightarrow> gvr \<Rightarrow> string \<Rightarrow> propagation \<Rightarrow> ('w, apiError option) kprog" where
  "kDelete K g n pol = effect (Call (CDelete g n pol)) (apiDelete K g n pol)"

definition kNow :: "'w kube \<Rightarrow> ('w, time) kprog" where
  "kNow K = ask (clock K)"

definition kFresh :: "'w kube \<Rightarrow> ('w, string) kprog" where
  "kFresh K = ask (freshID K)"

definition kPublish :: "Event \<Rightarrow> ('w, unit) kprog" where
  "kPublish e = effect (Published e) (\<lambda>w. ((), w))"

definition kEnqueue :: "string \<Rightarrow> ('w, unit) kprog" where
  "kEnqueue i = effect (Enqueued i) (\<lambda>w. ((), w))"

definition kAudit :: "(string \<times> string) list \<Rightarrow> ('w, unit) kprog" where
  "kAudit attrs = effect (Audited attrs) (\<lambda>w. ((), w))"

definition kSocket :: "socketAction \<Rightarrow> ('w, unit) kprog" where
  "kSocket a = effect (Socket a) (\<lambda>w. ((), w))"

definition kCount :: "counter \<Rightarrow> uint64 \<Rightarrow> ('w, unit) kprog" where
  "kCount c n = effect (Counted c n) (\<lambda>w. ((), w))"

lemma does_calls:
  "P (Call (CGet g n)) \<Longrightarrow> does P (kGet K g n)"
  "P (Call (CList g n)) \<Longrightarrow> does P (kList K g n)"
  "P (Call (CCreate g obj)) \<Longrightarrow> does P (kCreate K g obj)"
  "P (Call (CUpdate g obj)) \<Longrightarrow> does P (kUpdate K g obj)"
  "P (Call (CUpdateStatus g obj)) \<Longrightarrow> does P (kUpdateStatus K g obj)"
  "P (Call (CPatch g n obj)) \<Longrightarrow> does P (kPatch K g n obj)"
  "P (Call (CDelete g n pol)) \<Longrightarrow> does P (kDelete K g n pol)"
  "does P (kNow K)" "does P (kFresh K)" "P (Published e) \<Longrightarrow> does P (kPublish e)"
  "P (Enqueued i) \<Longrightarrow> does P (kEnqueue i)" "P (Audited attrs) \<Longrightarrow> does P (kAudit attrs)"
  "P (Socket a) \<Longrightarrow> does P (kSocket a)" "P (Counted c k) \<Longrightarrow> does P (kCount c k)"
  by (simp_all add: kGet_def kList_def kCreate_def kUpdate_def kUpdateStatus_def kPatch_def kDelete_def kNow_def kFresh_def
      kPublish_def kEnqueue_def kAudit_def kSocket_def kCount_def yields_effect yields_ask)

declare does_calls [does_intros]

end
