(* ===== verification/Repository.thy ===== *)
theory Repository
  imports Kube "HOL-Library.Multiset"
begin

text \<open>
  The repository of agents, \<^verbatim>\<open>internal/kubernetes/repository.go\<close>: agents stored as custom
  resources. What the sources take from other packages is an argument \<open>cd\<close>: SHA-256, the JSON printer,
  the RFC 3339 format of times, and how an integer that passed through a \<open>float64\<close> is printed (\<open>toMap\<close>
  decodes into \<open>map[string]any\<close>). Encoding a map to text and decoding that text into a struct is
  decoding the map itself.
\<close>

section \<open>Names and errors\<close>

definition ManagedLabel :: string where "ManagedLabel = ''sandherd.dev/managed''"
definition AgentIDLabel :: string where "AgentIDLabel = ''sandherd.dev/agent-id''"
definition OwnerHashLabel :: string where "OwnerHashLabel = ''sandherd.dev/owner-hash''"
definition idempotencyKey :: string where "idempotencyKey = ''sandherd.dev/idempotency-key''"
definition idempotencyHash :: string where "idempotencyHash = ''sandherd.dev/idempotency-hash''"
definition AgentFinalizer :: string where "AgentFinalizer = ''sandherd.dev/sandbox-cleanup''"

record codec =
  cdPrint :: "json \<Rightarrow> string"
  cdSha256 :: "string \<Rightarrow> string"
  cdTime :: "time \<Rightarrow> string"
  cdParseTime :: "string \<Rightarrow> time option"
  cdFloat :: "int \<Rightarrow> string"
  cdPrintable :: "rune \<Rightarrow> bool"
  cdJsonError :: "json \<Rightarrow> goerror"

datatype kerror = LErr LifecycleError | PlainErr goerror

type_synonym 'a kresult = "kerror + 'a"

text \<open>\<open>strings.ReplaceAll(id, "-", "")\<close>.\<close>

definition dropDashes :: "string \<Rightarrow> string" where
  "dropDashes i = filter (\<lambda>c. c \<noteq> CHR ''-'') i"

definition resourceName :: "string \<Rightarrow> string" where
  "resourceName i = ''agent-'' @ dropDashes i"

definition claimName :: "string \<Rightarrow> string" where
  "claimName i = ''sandbox-'' @ dropDashes i"

definition hexString :: "string \<Rightarrow> string" where
  "hexString s = concat (map (\<lambda>c. hexFixed 2 (of_char c)) s)"

definition ownerHash :: "codec \<Rightarrow> string \<Rightarrow> string" where
  "ownerHash cd owner = hexString (take 8 (cdSha256 cd owner))"

definition ETag :: "codec \<Rightarrow> string \<Rightarrow> string" where
  "ETag cd rv = goQuote (cdPrintable cd) (if rv = [] then ''0'' else rv)"

definition removeString :: "string list \<Rightarrow> string \<Rightarrow> string list" where
  "removeString vs target = filter (\<lambda>v. v \<noteq> target) vs"

definition notFound :: LifecycleError where
  "notFound = NewError 404 ''agent_not_found'' ''agent was not found''"

fun mapKubernetesError :: "apiError \<Rightarrow> LifecycleError" where
  "mapKubernetesError (NotFoundError t) = notFound"
| "mapKubernetesError (ConflictError t) =
     (NewError 409 ''resource_conflict'' ''the resource changed during the operation'')\<lparr>leRetryable := True, leCause := Some t\<rparr>"
| "mapKubernetesError (ForbiddenError t) =
     NewError 403 ''forbidden'' ''the control plane is not authorized for this operation''"
| "mapKubernetesError e =
     (NewError 500 ''internal_error'' ''a Kubernetes operation failed'')\<lparr>leRetryable := True, leCause := Some (apiText e)\<rparr>"

abbreviation kubeErr :: "apiError \<Rightarrow> kerror" where
  "kubeErr e \<equiv> LErr (mapKubernetesError e)"

section \<open>Agents as JSON\<close>

definition omitEmpty :: "string \<Rightarrow> string \<Rightarrow> (string \<times> json) list" where
  "omitEmpty k v = (if v = [] then [] else [(k, JStr v)])"

definition repositoryJson :: "RepositorySpec \<Rightarrow> json" where
  "repositoryJson r = JObj ([(''url'', JStr (repURL r))] @ omitEmpty ''revision'' (repRevision r))"

definition specJson :: "(int \<Rightarrow> string) \<Rightarrow> AgentSpec \<Rightarrow> json" where
  "specJson num s =
     JObj ([(''kind'', JStr (spKind s)), (''sandboxProfile'', JStr (spSandboxProfile s))] @
       omitEmpty ''credentialProfile'' (spCredentialProfile s) @
       (case spRepository s of None \<Rightarrow> [] | Some r \<Rightarrow> [(''repository'', repositoryJson r)]) @
       [(''resources'', JObj [(''cpu'', JStr (resCPU (spResources s))), (''memory'', JStr (resMemory (spResources s)))]),
        (''workspace'', JObj ([(''size'', JStr (wsSize (spWorkspace s)))] @
          omitEmpty ''storageProfile'' (wsStorageProfile (spWorkspace s)) @
          [(''retentionPolicy'', JStr (wsRetentionPolicy (spWorkspace s)))]))] @
       omitEmpty ''secretProfile'' (spSecretProfile s) @
       [(''lifecycle'', JObj [(''idleTimeoutSeconds'', JNum (num (spIdleTimeoutSeconds s)))])])"

definition requestJson :: "CreateRequest \<Rightarrow> json" where
  "requestJson r = JObj [(''name'', JStr (crName r)), (''spec'', specJson formatInt (crSpec r))]"

definition runtimeJson :: "(int \<Rightarrow> string) \<Rightarrow> RuntimeStatus \<Rightarrow> json" where
  "runtimeJson num r = JObj [(''generation'', JNum (num (rtGeneration r))), (''kind'', JStr (rtKind r)),
     (''adapterVersion'', JStr (rtAdapterVersion r))]"

definition omitNil :: "string \<Rightarrow> ('a \<Rightarrow> json) \<Rightarrow> 'a option \<Rightarrow> (string \<times> json) list" where
  "omitNil k f v = (case v of None \<Rightarrow> [] | Some x \<Rightarrow> [(k, f x)])"

definition statusJson :: "codec \<Rightarrow> AgentStatus \<Rightarrow> json" where
  "statusJson cd s =
     JObj ([(''state'', JStr (stState s)), (''observedGeneration'', JNum (cdFloat cd (stObservedGeneration s)))] @
       omitEmpty ''reason'' (stReason s) @ omitEmpty ''message'' (stMessage s) @
       omitNil ''readyAt'' (\<lambda>t. JStr (cdTime cd t)) (stReadyAt s) @
       omitNil ''stoppedAt'' (\<lambda>t. JStr (cdTime cd t)) (stStoppedAt s) @
       omitNil ''lastTransitionAt'' (\<lambda>t. JStr (cdTime cd t)) (stLastTransitionAt s) @
       omitNil ''runtime'' (runtimeJson (cdFloat cd)) (stRuntime s))"

text \<open>A struct inside a struct is decoded in place, as strictly as the outer one; a pointer to one is
  allocated when it is nil.\<close>

definition setStruct :: "bool \<Rightarrow> 'b fields \<Rightarrow> ('a \<Rightarrow> 'b) \<Rightarrow> ('b \<Rightarrow> 'a \<Rightarrow> 'a) \<Rightarrow> 'a setter" where
  "setStruct strict fs get upd v r = map_option (\<lambda>x. upd x r) (decodeStruct strict fs v (get r))"

definition setStructPointer :: "bool \<Rightarrow> 'b fields \<Rightarrow> 'b \<Rightarrow> ('a \<Rightarrow> 'b option) \<Rightarrow> ('b option \<Rightarrow> 'a \<Rightarrow> 'a) \<Rightarrow> 'a setter" where
  "setStructPointer strict fs zero get upd v r =
     (if v = JNull then Some (upd None r)
      else map_option (\<lambda>x. upd (Some x) r) (decodeStruct strict fs v (case get r of Some x \<Rightarrow> x | None \<Rightarrow> zero)))"

definition zeroRepository :: RepositorySpec where
  "zeroRepository = \<lparr>repURL = [], repRevision = []\<rparr>"

definition zeroSpec :: AgentSpec where
  "zeroSpec = \<lparr>spKind = [], spSandboxProfile = [], spCredentialProfile = [], spRepository = None,
     spResources = \<lparr>resCPU = [], resMemory = []\<rparr>, spWorkspace = \<lparr>wsSize = [], wsStorageProfile = [], wsRetentionPolicy = []\<rparr>,
     spSecretProfile = [], spIdleTimeoutSeconds = 0\<rparr>"

definition repositoryFields :: "RepositorySpec fields" where
  "repositoryFields = [(''url'', setField decString (\<lambda>x r. r\<lparr>repURL := x\<rparr>)), (''revision'', setField decString (\<lambda>x r. r\<lparr>repRevision := x\<rparr>))]"

definition resourceFields :: "ResourceSpec fields" where
  "resourceFields = [(''cpu'', setField decString (\<lambda>x r. r\<lparr>resCPU := x\<rparr>)), (''memory'', setField decString (\<lambda>x r. r\<lparr>resMemory := x\<rparr>))]"

definition workspaceFields :: "WorkspaceSpec fields" where
  "workspaceFields = [(''size'', setField decString (\<lambda>x r. r\<lparr>wsSize := x\<rparr>)),
     (''storageProfile'', setField decString (\<lambda>x r. r\<lparr>wsStorageProfile := x\<rparr>)),
     (''retentionPolicy'', setField decString (\<lambda>x r. r\<lparr>wsRetentionPolicy := x\<rparr>))]"

definition lifecycleFields :: "int fields" where
  "lifecycleFields = [(''idleTimeoutSeconds'', setField decInt64 (\<lambda>x r. x))]"

definition specFields :: "bool \<Rightarrow> AgentSpec fields" where
  "specFields strict =
     [(''kind'', setField decString (\<lambda>x r. r\<lparr>spKind := x\<rparr>)),
      (''sandboxProfile'', setField decString (\<lambda>x r. r\<lparr>spSandboxProfile := x\<rparr>)),
      (''credentialProfile'', setField decString (\<lambda>x r. r\<lparr>spCredentialProfile := x\<rparr>)),
      (''repository'', setStructPointer strict repositoryFields zeroRepository spRepository (\<lambda>x r. r\<lparr>spRepository := x\<rparr>)),
      (''resources'', setStruct strict resourceFields spResources (\<lambda>x r. r\<lparr>spResources := x\<rparr>)),
      (''workspace'', setStruct strict workspaceFields spWorkspace (\<lambda>x r. r\<lparr>spWorkspace := x\<rparr>)),
      (''secretProfile'', setField decString (\<lambda>x r. r\<lparr>spSecretProfile := x\<rparr>)),
      (''lifecycle'', setStruct strict lifecycleFields spIdleTimeoutSeconds (\<lambda>x r. r\<lparr>spIdleTimeoutSeconds := x\<rparr>))]"

definition zeroRuntimeStatus :: RuntimeStatus where
  "zeroRuntimeStatus = \<lparr>rtGeneration = 0, rtKind = [], rtAdapterVersion = []\<rparr>"

definition runtimeFields :: "RuntimeStatus fields" where
  "runtimeFields = [(''generation'', setField decInt64 (\<lambda>x r. r\<lparr>rtGeneration := x\<rparr>)),
     (''kind'', setField decString (\<lambda>x r. r\<lparr>rtKind := x\<rparr>)), (''adapterVersion'', setField decString (\<lambda>x r. r\<lparr>rtAdapterVersion := x\<rparr>))]"

definition zeroStatus :: AgentStatus where
  "zeroStatus = \<lparr>stState = [], stObservedGeneration = 0, stReason = [], stMessage = [], stReadyAt = None, stStoppedAt = None,
     stLastTransitionAt = None, stRuntime = None\<rparr>"

fun decTime :: "codec \<Rightarrow> json \<Rightarrow> time option option" where
  "decTime cd JNull = Some None"
| "decTime cd (JStr s) = map_option Some (cdParseTime cd s)"
| "decTime cd _ = None"

definition statusFields :: "codec \<Rightarrow> AgentStatus fields" where
  "statusFields cd =
     [(''state'', setField decString (\<lambda>x r. r\<lparr>stState := x\<rparr>)),
      (''observedGeneration'', setField decInt64 (\<lambda>x r. r\<lparr>stObservedGeneration := x\<rparr>)),
      (''reason'', setField decString (\<lambda>x r. r\<lparr>stReason := x\<rparr>)),
      (''message'', setField decString (\<lambda>x r. r\<lparr>stMessage := x\<rparr>)),
      (''readyAt'', setPointer (decTime cd) (\<lambda>x r. r\<lparr>stReadyAt := x\<rparr>)),
      (''stoppedAt'', setPointer (decTime cd) (\<lambda>x r. r\<lparr>stStoppedAt := x\<rparr>)),
      (''lastTransitionAt'', setPointer (decTime cd) (\<lambda>x r. r\<lparr>stLastTransitionAt := x\<rparr>)),
      (''runtime'', setStructPointer False runtimeFields zeroRuntimeStatus stRuntime (\<lambda>x r. r\<lparr>stRuntime := x\<rparr>))]"

section \<open>Reading an agent\<close>

definition orOne :: "int option \<Rightarrow> int" where
  "orOne v = (case v of Some i \<Rightarrow> if i = 0 then 1 else i | None \<Rightarrow> 1)"

text \<open>\<open>now\<close> is the clock, which is read for objects without a creation time.\<close>

definition agentFromObject :: "codec \<Rightarrow> time \<Rightarrow> json \<Rightarrow> Agent kresult" where
  "agentFromObject cd now obj =
     (let created = (case cdParseTime cd (nestedString [''metadata'', ''creationTimestamp''] obj) of Some t \<Rightarrow> t | None \<Rightarrow> now) in
      case (case nestedMap [''spec'', ''agent''] obj of
              None \<Rightarrow> Some zeroSpec | Some ms \<Rightarrow> decodeStruct False (specFields False) (JObj ms) zeroSpec) of
        None \<Rightarrow> Inl (PlainErr (''decode Agent spec: '' @ cdJsonError cd obj))
      | Some spec \<Rightarrow>
         (case (case nestedMap [''status''] obj of
                  None \<Rightarrow> Some zeroStatus | Some ms \<Rightarrow> decodeStruct False (statusFields cd) (JObj ms) zeroStatus) of
            None \<Rightarrow> Inl (PlainErr (''decode Agent status: '' @ cdJsonError cd obj))
          | Some st \<Rightarrow>
              let st' = (if stState st = [] then st\<lparr>stState := StateRequested\<rparr> else st) in
              Inr \<lparr>agAPIVersion = ''v1alpha1'', agID = nestedString [''spec'', ''id''] obj,
                agName = nestedString [''spec'', ''name''] obj, agOwner = nestedString [''spec'', ''owner''] obj,
                agGeneration = orOne (nestedInt64 [''metadata'', ''generation''] obj),
                agRuntimeGeneration = orOne (nestedInt64 [''spec'', ''runtimeGeneration''] obj),
                agResourceVersion = nestedString [''metadata'', ''resourceVersion''] obj,
                agSpec = spec, agStatus = st', agDesiredState = nestedString [''spec'', ''desiredState''] obj,
                agCreatedAt = created,
                agUpdatedAt = (case stLastTransitionAt st' of Some t \<Rightarrow> t | None \<Rightarrow> created)\<rparr>))"

section \<open>Operations\<close>

definition convert :: "'w kube \<Rightarrow> codec \<Rightarrow> json \<Rightarrow> ('w, Agent kresult) kprog" where
  "convert K cd obj = do { now \<leftarrow> kNow K; ret (agentFromObject cd now obj) }"

definition listForOwner :: "'w kube \<Rightarrow> codec \<Rightarrow> string \<Rightarrow> ('w, json list kresult) kprog" where
  "listForOwner K cd owner = do {
     r \<leftarrow> kList K AgentGVR (OwnerHashLabel @ ''='' @ ownerHash cd owner);
     ret (case r of Inl e \<Rightarrow> Inl (kubeErr e) | Inr objs \<Rightarrow> Inr objs) }"

definition updateStatusObject :: "'w kube \<Rightarrow> codec \<Rightarrow> json \<Rightarrow> AgentStatus \<Rightarrow> ('w, json kresult) kprog" where
  "updateStatusObject K cd obj st =
     (case setNested [''status''] (statusJson cd st) obj of
        None \<Rightarrow> ret (Inl (PlainErr ''value cannot be set because .status is not a map''))
      | Some obj' \<Rightarrow> do {
          r \<leftarrow> kUpdateStatus K AgentGVR obj';
          ret (case r of Inl e \<Rightarrow> Inl (kubeErr e) | Inr u \<Rightarrow> Inr u) })"

text \<open>The loop of \<open>Create\<close> over the owner's agents: what it returns, unless it runs to its end.\<close>

fun findExisting :: "codec \<Rightarrow> time \<Rightarrow> string \<Rightarrow> string \<Rightarrow> string \<Rightarrow> string \<Rightarrow> json list \<Rightarrow> (Agent \<times> bool) kresult option" where
  "findExisting cd now owner key hash name [] = None"
| "findExisting cd now owner key hash name (obj # objs) =
     (case agentFromObject cd now obj of
        Inl _ \<Rightarrow> findExisting cd now owner key hash name objs
      | Inr a \<Rightarrow>
         if agOwner a \<noteq> owner then findExisting cd now owner key hash name objs
         else if objAnnotation obj idempotencyKey = key then
           (if objAnnotation obj idempotencyHash \<noteq> hash
            then Some (Inl (LErr (NewError 409 ''idempotency_conflict'' ''the idempotency key was used with a different request'')))
            else Some (Inr (a, False)))
         else if agName a = name then Some (Inl (LErr (NewError 409 ''name_conflict'' ''an agent with this name already exists'')))
         else findExisting cd now owner key hash name objs)"

definition agentObject :: "codec \<Rightarrow> string \<Rightarrow> string \<Rightarrow> string \<Rightarrow> string \<Rightarrow> string \<Rightarrow> CreateRequest \<Rightarrow> json" where
  "agentObject cd ns i owner key hash req =
     JObj [(''apiVersion'', JStr ''sandherd.dev/v1alpha1''), (''kind'', JStr ''Agent''),
       (''metadata'', JObj [(''name'', JStr (resourceName i)), (''namespace'', JStr ns), (''generation'', JNum ''1''),
          (''labels'', JObj [(ManagedLabel, JStr ''true''), (AgentIDLabel, JStr i), (OwnerHashLabel, JStr (ownerHash cd owner))]),
          (''annotations'', JObj [(idempotencyKey, JStr key), (idempotencyHash, JStr hash)]),
          (''finalizers'', JArr [JStr AgentFinalizer])]),
       (''spec'', JObj [(''id'', JStr i), (''name'', JStr (crName req)), (''owner'', JStr owner),
          (''desiredState'', JStr DesiredRunning), (''runtimeGeneration'', JNum ''1''),
          (''agent'', specJson (cdFloat cd) (crSpec req))])]"

definition Create :: "'w kube \<Rightarrow> codec \<Rightarrow> string \<Rightarrow> string \<Rightarrow> string \<Rightarrow> CreateRequest \<Rightarrow> ('w, (Agent \<times> bool) kresult) kprog" where
  "Create K cd ns owner key req = do {
     existing \<leftarrow> listForOwner K cd owner;
     case existing of
       Inl e \<Rightarrow> ret (Inl e)
     | Inr objs \<Rightarrow> do {
         now0 \<leftarrow> kNow K;
         let hash = hexString (cdSha256 cd (cdPrint cd (requestJson req)));
         case findExisting cd now0 owner key hash (crName req) objs of
           Some r \<Rightarrow> ret r
         | None \<Rightarrow> do {
             i \<leftarrow> kFresh K;
             now \<leftarrow> kNow K;
             created \<leftarrow> kCreate K AgentGVR (agentObject cd ns i owner key hash req);
             case created of
               Inl e \<Rightarrow> ret (Inl (kubeErr e))
             | Inr obj \<Rightarrow> do {
                 updated \<leftarrow> updateStatusObject K cd obj
                   (zeroStatus\<lparr>stState := StateRequested, stLastTransitionAt := Some now\<rparr>);
                 case updated of
                   Inl e \<Rightarrow> ret (Inl e)
                 | Inr u \<Rightarrow> do {
                     a \<leftarrow> convert K cd u;
                     ret (map_sum id (\<lambda>x. (x, True)) a) } } } } }"

definition GetAny :: "'w kube \<Rightarrow> codec \<Rightarrow> string \<Rightarrow> ('w, Agent kresult) kprog" where
  "GetAny K cd i = do {
     r \<leftarrow> kGet K AgentGVR (resourceName i);
     case r of Inl e \<Rightarrow> ret (Inl (kubeErr e)) | Inr obj \<Rightarrow> convert K cd obj }"

text \<open>An object with the agent in it, if it is the owner's; other owners' agents do not exist.\<close>

definition ownedObject :: "'w kube \<Rightarrow> codec \<Rightarrow> string \<Rightarrow> string \<Rightarrow> ('w, (json \<times> Agent) kresult) kprog" where
  "ownedObject K cd owner i = do {
     r \<leftarrow> kGet K AgentGVR (resourceName i);
     case r of
       Inl e \<Rightarrow> ret (Inl (kubeErr e))
     | Inr obj \<Rightarrow> do {
         a \<leftarrow> convert K cd obj;
         ret (case a of Inl e \<Rightarrow> Inl e
              | Inr ag \<Rightarrow> if agOwner ag \<noteq> owner then Inl (LErr notFound) else Inr (obj, ag)) } }"

definition GetAgent :: "'w kube \<Rightarrow> codec \<Rightarrow> string \<Rightarrow> string \<Rightarrow> ('w, Agent kresult) kprog" where
  "GetAgent K cd owner i = do {
     r \<leftarrow> ownedObject K cd owner i;
     ret (map_sum id snd r) }"

record RunnerTarget =
  tgAgentID :: string
  tgSandboxName :: string
  tgNamespace :: string

definition runnerUnavailable :: LifecycleError where
  "runnerUnavailable = (NewError 409 ''agent_not_running'' ''the agent runner is not available'')\<lparr>leRetryable := True\<rparr>"

definition ResolveRunner :: "'w kube \<Rightarrow> codec \<Rightarrow> string \<Rightarrow> string \<Rightarrow> string \<Rightarrow> ('w, RunnerTarget kresult) kprog" where
  "ResolveRunner K cd ns owner i = do {
     r \<leftarrow> GetAgent K cd owner i;
     case r of
       Inl e \<Rightarrow> ret (Inl e)
     | Inr a \<Rightarrow>
        if stState (agStatus a) \<noteq> StateRunning
        then ret (Inl (LErr ((NewError 409 ''agent_not_running'' ''the agent is not running'')
          \<lparr>leRetryable := stState (agStatus a) = StateProvisioning \<or> stState (agStatus a) = StateStarting\<rparr>)))
        else do {
          c \<leftarrow> kGet K SandboxClaimGVR (claimName i);
          case c of
            Inl e \<Rightarrow> ret (Inl (if isNotFound e then LErr runnerUnavailable else kubeErr e))
          | Inr claim \<Rightarrow>
              let name = nestedString [''status'', ''sandbox'', ''name''] claim in
              if name = [] then ret (Inl (LErr runnerUnavailable))
              else ret (Inr \<lparr>tgAgentID = agID a, tgSandboxName = name, tgNamespace = ns\<rparr>) } }"

section \<open>Listing\<close>

text \<open>\<open>sort.Search\<close>: the binary search, as the standard library has it.\<close>

function searchFrom :: "(nat \<Rightarrow> bool) \<Rightarrow> nat \<Rightarrow> nat \<Rightarrow> nat" where
  "searchFrom f i j =
     (if i < j then (let h = (i + j) div 2 in if \<not> f h then searchFrom f (h + 1) j else searchFrom f i h) else i)"
  by pat_completeness auto
termination
  by (relation "measure (\<lambda>(f, i, j). j - i)") auto

declare searchFrom.simps [simp del]

record ListOptions =
  loLimit :: int
  loCursor :: string
  loState :: State
  loName :: string

definition listFilter :: "string \<Rightarrow> ListOptions \<Rightarrow> Agent \<Rightarrow> bool" where
  "listFilter owner opts a =
     (agOwner a = owner \<and> (loState opts = [] \<or> stState (agStatus a) = loState opts) \<and> (loName opts = [] \<or> agName a = loName opts))"

definition afterCursor :: "string \<Rightarrow> Agent list \<Rightarrow> Agent list" where
  "afterCursor cur as = drop (searchFrom (\<lambda>i. cur < agID (as ! i)) 0 (length as)) as"

text \<open>The end of \<open>List\<close>; \<open>None\<close> is the panic of a negative limit.\<close>

definition pageOf :: "int \<Rightarrow> Agent list \<Rightarrow> AgentList option" where
  "pageOf lim as =
     (let limit = (if lim = 0 then 50 else lim) in
      if int (length as) > limit then
        (if limit < 1 then None
         else Some \<lparr>alItems = take (nat limit) as, alNextCursor = encodeURL (agID (as ! (nat limit - 1)))\<rparr>)
      else Some \<lparr>alItems = as, alNextCursor = []\<rparr>)"

fun convertAll :: "codec \<Rightarrow> time \<Rightarrow> json list \<Rightarrow> Agent list kresult" where
  "convertAll cd now [] = Inr []"
| "convertAll cd now (obj # objs) =
     (case agentFromObject cd now obj of
        Inl e \<Rightarrow> Inl e
      | Inr a \<Rightarrow> (case convertAll cd now objs of Inl e \<Rightarrow> Inl e | Inr as \<Rightarrow> Inr (a # as)))"

definition listAgents :: "string \<Rightarrow> ListOptions \<Rightarrow> Agent list \<Rightarrow> AgentList kresult option" where
  "listAgents owner opts all =
     (let as = sort_key agID (filter (listFilter owner opts) all) in
      if loCursor opts = [] then map_option Inr (pageOf (loLimit opts) as)
      else case decodeURL (loCursor opts) of
        None \<Rightarrow> Some (Inl (LErr (NewError 400 ''invalid_cursor'' ''list cursor is invalid'')))
      | Some cur \<Rightarrow> map_option Inr (pageOf (loLimit opts) (afterCursor cur as)))"

definition ListAgents :: "'w kube \<Rightarrow> codec \<Rightarrow> string \<Rightarrow> ListOptions \<Rightarrow> ('w, AgentList kresult option) kprog" where
  "ListAgents K cd owner opts = do {
     r \<leftarrow> listForOwner K cd owner;
     now \<leftarrow> kNow K;
     ret (case r of
            Inl e \<Rightarrow> Some (Inl e)
          | Inr objs \<Rightarrow>
             (case convertAll cd now objs of Inl e \<Rightarrow> Some (Inl e) | Inr all \<Rightarrow> listAgents owner opts all)) }"

definition ListAll :: "'w kube \<Rightarrow> codec \<Rightarrow> ('w, Agent list kresult) kprog" where
  "ListAll K cd = do {
     r \<leftarrow> kList K AgentGVR (ManagedLabel @ ''=true'');
     now \<leftarrow> kNow K;
     ret (case r of Inl e \<Rightarrow> Inl (kubeErr e) | Inr objs \<Rightarrow> convertAll cd now objs) }"

section \<open>Changing an agent\<close>

definition preconditionFailed :: LifecycleError where
  "preconditionFailed = NewError 412 ''precondition_failed'' ''the agent changed since it was read''"

definition etagMatches :: "codec \<Rightarrow> string \<Rightarrow> Agent \<Rightarrow> bool" where
  "etagMatches cd ifMatch a = (ifMatch = [] \<or> ifMatch = ETag cd (agResourceVersion a))"

text \<open>The writes of \<open>SetDesired\<close>, on the object and the agent that were read.\<close>

definition writeDesired ::
  "'w kube \<Rightarrow> codec \<Rightarrow> DesiredState \<Rightarrow> State \<Rightarrow> json \<Rightarrow> Agent \<Rightarrow> ('w, Agent kresult) kprog" where
  "writeDesired K cd desired transitional obj a =
     (case setNested [''spec'', ''desiredState''] (JStr desired) obj of
        None \<Rightarrow> ret (Inl (PlainErr ''value cannot be set because .spec is not a map''))
      | Some obj1 \<Rightarrow> do {
          u \<leftarrow> kUpdate K AgentGVR obj1;
          case u of
            Inl e \<Rightarrow> ret (Inl (kubeErr e))
          | Inr obj2 \<Rightarrow> do {
              now \<leftarrow> kNow K;
              st \<leftarrow> updateStatusObject K cd obj2
                ((agStatus a)\<lparr>stState := transitional, stReason := [], stMessage := [], stLastTransitionAt := Some now\<rparr>);
              case st of Inl e \<Rightarrow> ret (Inl e) | Inr obj3 \<Rightarrow> convert K cd obj3 } })"

definition SetDesired ::
  "'w kube \<Rightarrow> codec \<Rightarrow> string \<Rightarrow> string \<Rightarrow> string \<Rightarrow> DesiredState \<Rightarrow> State \<Rightarrow> ('w, Agent kresult) kprog" where
  "SetDesired K cd owner i ifMatch desired transitional = do {
     r \<leftarrow> ownedObject K cd owner i;
     case r of
       Inl e \<Rightarrow> ret (Inl e)
     | Inr oa \<Rightarrow>
        if \<not> etagMatches cd ifMatch (snd oa) then ret (Inl (LErr preconditionFailed))
        else writeDesired K cd desired transitional (fst oa) (snd oa) }"

text \<open>\<open>int64\<close> addition wraps.\<close>

definition wrap64 :: "int \<Rightarrow> int" where
  "wrap64 i = (i + 2 ^ 63) mod 2 ^ 64 - 2 ^ 63"

definition nextRuntimeGeneration :: "int \<Rightarrow> int" where
  "nextRuntimeGeneration g = (let n = wrap64 (g + 1) in if n < 2 then 2 else n)"

definition changedObject :: "ChangeAdapterRequest \<Rightarrow> Agent \<Rightarrow> json \<Rightarrow> json option" where
  "changedObject change a obj =
     (case setNested [''spec'', ''agent'', ''kind''] (JStr (chKind change)) obj of
        None \<Rightarrow> None
      | Some o1 \<Rightarrow>
         (case (if chCredentialProfile change = [] then Some (removeNested [''spec'', ''agent'', ''credentialProfile''] o1)
                else setNested [''spec'', ''agent'', ''credentialProfile''] (JStr (chCredentialProfile change)) o1) of
            None \<Rightarrow> None
          | Some o2 \<Rightarrow>
              setNested [''spec'', ''runtimeGeneration''] (JNum (formatInt (nextRuntimeGeneration (agRuntimeGeneration a)))) o2))"

definition ChangeAdapter ::
  "'w kube \<Rightarrow> codec \<Rightarrow> string \<Rightarrow> string \<Rightarrow> string \<Rightarrow> ChangeAdapterRequest \<Rightarrow> State \<Rightarrow> ('w, (Agent \<times> bool) kresult) kprog" where
  "ChangeAdapter K cd owner i ifMatch change transitional = do {
     r \<leftarrow> ownedObject K cd owner i;
     case r of
       Inl e \<Rightarrow> ret (Inl e)
     | Inr oa \<Rightarrow>
        let a = snd oa in
        if \<not> etagMatches cd ifMatch a then ret (Inl (LErr preconditionFailed))
        else if spKind (agSpec a) = chKind change \<and> spCredentialProfile (agSpec a) = chCredentialProfile change
        then ret (Inr (a, False))
        else case changedObject change a (fst oa) of
          None \<Rightarrow> ret (Inl (PlainErr ''value cannot be set because .spec is not a map''))
        | Some obj1 \<Rightarrow> do {
            u \<leftarrow> kUpdate K AgentGVR obj1;
            case u of
              Inl e \<Rightarrow> ret (Inl (kubeErr e))
            | Inr obj2 \<Rightarrow> do {
                st \<leftarrow> (if transitional \<noteq> StateStopped then do {
                    now \<leftarrow> kNow K;
                    updateStatusObject K cd obj2 ((agStatus a)\<lparr>stState := transitional, stReason := ''adapter_change_requested'',
                      stMessage := ''the requested adapter runtime is being prepared'', stLastTransitionAt := Some now\<rparr>) }
                  else ret (Inr obj2));
                case st of
                  Inl e \<Rightarrow> ret (Inl e)
                | Inr obj3 \<Rightarrow> do { x \<leftarrow> convert K cd obj3; ret (map_sum id (\<lambda>y. (y, True)) x) } } } }"

definition SetStatus :: "'w kube \<Rightarrow> codec \<Rightarrow> string \<Rightarrow> AgentStatus \<Rightarrow> ('w, Agent kresult) kprog" where
  "SetStatus K cd i st = do {
     r \<leftarrow> kGet K AgentGVR (resourceName i);
     case r of
       Inl e \<Rightarrow> ret (Inl (kubeErr e))
     | Inr obj \<Rightarrow> do {
         u \<leftarrow> updateStatusObject K cd obj st;
         case u of Inl e \<Rightarrow> ret (Inl e) | Inr obj' \<Rightarrow> convert K cd obj' } }"

definition FinalizeDelete :: "'w kube \<Rightarrow> string \<Rightarrow> ('w, kerror option) kprog" where
  "FinalizeDelete K i = do {
     r \<leftarrow> kGet K AgentGVR (resourceName i);
     case r of
       Inl e \<Rightarrow> ret (if isNotFound e then None else Some (kubeErr e))
     | Inr obj \<Rightarrow> do {
         let obj1 = setFinalizers (removeString (finalizers obj) AgentFinalizer) obj;
         u \<leftarrow> kUpdate K AgentGVR obj1;
         case u of
           Inl e \<Rightarrow> ret (Some (kubeErr e))
         | Inr _ \<Rightarrow> do {
             d \<leftarrow> kDelete K AgentGVR (objName obj1) DefaultPropagation;
             ret (case d of Some e \<Rightarrow> if isNotFound e then None else Some (kubeErr e) | None \<Rightarrow> None) } } }"

section \<open>Agents survive storage\<close>

lemma decode_omitEmpty:
  "findField fs k = Some (setField decString upd) \<Longrightarrow> decodeMembers st fs (omitEmpty k v) r = Some (if v = [] then r else upd v r)"
  by (simp add: omitEmpty_def setField_def)

lemma decode_member:
  "findField fs k = Some f \<Longrightarrow> decodeMembers st fs ((k, v) # ms) r = (case f v r of None \<Rightarrow> None | Some r' \<Rightarrow> decodeMembers st fs ms r')"
  by simp

lemma repository_roundtrip: "decodeStruct strict repositoryFields (repositoryJson r) zeroRepository = Some r"
  by (simp add: repositoryJson_def repositoryFields_def findField_exact setField_def omitEmpty_def zeroRepository_def)

definition printsInt :: "(int \<Rightarrow> string) \<Rightarrow> int \<Rightarrow> bool" where
  "printsInt num i \<longleftrightarrow> parseIntLit (- (2 ^ 63)) (2 ^ 63 - 1) (num i) = Some i"

lemma specFields_find:
  "findField (specFields strict) ''kind'' = Some (setField decString (\<lambda>x r. r\<lparr>spKind := x\<rparr>))"
  "findField (specFields strict) ''sandboxProfile'' = Some (setField decString (\<lambda>x r. r\<lparr>spSandboxProfile := x\<rparr>))"
  "findField (specFields strict) ''credentialProfile'' = Some (setField decString (\<lambda>x r. r\<lparr>spCredentialProfile := x\<rparr>))"
  "findField (specFields strict) ''repository'' = Some (setStructPointer strict repositoryFields zeroRepository spRepository (\<lambda>x r. r\<lparr>spRepository := x\<rparr>))"
  "findField (specFields strict) ''resources'' = Some (setStruct strict resourceFields spResources (\<lambda>x r. r\<lparr>spResources := x\<rparr>))"
  "findField (specFields strict) ''workspace'' = Some (setStruct strict workspaceFields spWorkspace (\<lambda>x r. r\<lparr>spWorkspace := x\<rparr>))"
  "findField (specFields strict) ''secretProfile'' = Some (setField decString (\<lambda>x r. r\<lparr>spSecretProfile := x\<rparr>))"
  "findField (specFields strict) ''lifecycle'' = Some (setStruct strict lifecycleFields spIdleTimeoutSeconds (\<lambda>x r. r\<lparr>spIdleTimeoutSeconds := x\<rparr>))"
  by (simp_all add: findField_exact specFields_def)

lemma nested_roundtrips:
  "decodeStruct strict resourceFields (JObj [(''cpu'', JStr a), (''memory'', JStr b)]) r = Some \<lparr>resCPU = a, resMemory = b\<rparr>"
  "decodeStruct strict workspaceFields (JObj ((''size'', JStr a) # omitEmpty ''storageProfile'' b @ [(''retentionPolicy'', JStr c)]))
      \<lparr>wsSize = [], wsStorageProfile = [], wsRetentionPolicy = []\<rparr> = Some \<lparr>wsSize = a, wsStorageProfile = b, wsRetentionPolicy = c\<rparr>"
  "printsInt num i \<Longrightarrow> decodeStruct strict lifecycleFields (JObj [(''idleTimeoutSeconds'', JNum (num i))]) j = Some i"
  by (simp_all add: resourceFields_def workspaceFields_def lifecycleFields_def findField_exact setField_def omitEmpty_def printsInt_def)

lemma spec_roundtrip:
  assumes "printsInt num (spIdleTimeoutSeconds s)"
  shows "decodeStruct strict (specFields strict) (specJson num s) zeroSpec = Some s"
proof -
  have rep: "decodeMembers strict (specFields strict) (case spRepository s of None \<Rightarrow> [] | Some r \<Rightarrow> [(''repository'', repositoryJson r)]) x =
      Some (case spRepository s of None \<Rightarrow> x | Some r \<Rightarrow> x\<lparr>spRepository := Some r\<rparr>)" if "spRepository x = None" for x
    using that repository_roundtrip
    by (simp add: specFields_find setStructPointer_def repositoryJson_def split: option.splits)
  show ?thesis
    unfolding specJson_def decodeStruct.simps(1) decodeMembers_append
    using nested_roundtrips(3) [OF assms]
    by (simp add: specFields_find decode_omitEmpty rep zeroSpec_def setField_def setStruct_def nested_roundtrips(1,2)
        del: decodeStruct.simps split: option.split) auto
qed

lemma decode_omitNil:
  assumes "findField fs k = Some g" "\<And>x r'. v = Some x \<Longrightarrow> g (f x) r' = Some (upd x r')"
  shows "decodeMembers st fs (omitNil k f v) r = Some (case v of None \<Rightarrow> r | Some x \<Rightarrow> upd x r)"
  using assms by (cases v) (simp_all add: omitNil_def)

lemma statusFields_find:
  "findField (statusFields cd) ''state'' = Some (setField decString (\<lambda>x r. r\<lparr>stState := x\<rparr>))"
  "findField (statusFields cd) ''observedGeneration'' = Some (setField decInt64 (\<lambda>x r. r\<lparr>stObservedGeneration := x\<rparr>))"
  "findField (statusFields cd) ''reason'' = Some (setField decString (\<lambda>x r. r\<lparr>stReason := x\<rparr>))"
  "findField (statusFields cd) ''message'' = Some (setField decString (\<lambda>x r. r\<lparr>stMessage := x\<rparr>))"
  "findField (statusFields cd) ''readyAt'' = Some (setPointer (decTime cd) (\<lambda>x r. r\<lparr>stReadyAt := x\<rparr>))"
  "findField (statusFields cd) ''stoppedAt'' = Some (setPointer (decTime cd) (\<lambda>x r. r\<lparr>stStoppedAt := x\<rparr>))"
  "findField (statusFields cd) ''lastTransitionAt'' = Some (setPointer (decTime cd) (\<lambda>x r. r\<lparr>stLastTransitionAt := x\<rparr>))"
  "findField (statusFields cd) ''runtime'' = Some (setStructPointer False runtimeFields zeroRuntimeStatus stRuntime (\<lambda>x r. r\<lparr>stRuntime := x\<rparr>))"
  by (simp_all add: findField_exact statusFields_def)

text \<open>What the status of an agent needs of the formats in order to survive.\<close>

definition printsTime :: "codec \<Rightarrow> time option \<Rightarrow> bool" where
  "printsTime cd v \<longleftrightarrow> (\<forall>t. v = Some t \<longrightarrow> cdParseTime cd (cdTime cd t) = Some t)"

definition statusPrints :: "codec \<Rightarrow> AgentStatus \<Rightarrow> bool" where
  "statusPrints cd st \<longleftrightarrow> printsTime cd (stReadyAt st) \<and> printsTime cd (stStoppedAt st) \<and> printsTime cd (stLastTransitionAt st) \<and>
     printsInt (cdFloat cd) (stObservedGeneration st) \<and>
     (\<forall>r. stRuntime st = Some r \<longrightarrow> printsInt (cdFloat cd) (rtGeneration r))"

lemma runtime_roundtrip:
  "printsInt num (rtGeneration r) \<Longrightarrow> decodeStruct False runtimeFields (runtimeJson num r) zeroRuntimeStatus = Some r"
  by (simp add: runtimeJson_def runtimeFields_def findField_exact setField_def zeroRuntimeStatus_def printsInt_def)

lemma time_member:
  assumes "findField (statusFields cd) k = Some (setPointer (decTime cd) upd)" "printsTime cd v"
  shows "decodeMembers st (statusFields cd) (omitNil k (\<lambda>t. JStr (cdTime cd t)) v) r =
    Some (case v of None \<Rightarrow> r | Some t \<Rightarrow> upd (Some t) r)"
  by (rule decode_omitNil [OF assms(1)]) (use assms(2) in \<open>simp add: setPointer_def printsTime_def\<close>)

lemma status_roundtrip:
  assumes "statusPrints cd s"
  shows "decodeStruct False (statusFields cd) (statusJson cd s) zeroStatus = Some s"
proof -
  have pr: "printsTime cd (stReadyAt s)" "printsTime cd (stStoppedAt s)" "printsTime cd (stLastTransitionAt s)" "decInt64 (JNum (cdFloat cd (stObservedGeneration s))) = Some (Some (stObservedGeneration s))"
    using assms by (auto simp: statusPrints_def printsInt_def)
  have rt: "decodeMembers False (statusFields cd) (omitNil ''runtime'' (runtimeJson (cdFloat cd)) (stRuntime s)) x =
      Some (case stRuntime s of None \<Rightarrow> x | Some r \<Rightarrow> x\<lparr>stRuntime := Some r\<rparr>)" if "stRuntime x = None" for x
    using that assms runtime_roundtrip [of "cdFloat cd"]
    by (simp add: omitNil_def statusFields_find setStructPointer_def runtimeJson_def statusPrints_def split: option.splits)
  show ?thesis
    unfolding statusJson_def decodeStruct.simps(1) decodeMembers_append
    by (simp add: statusFields_find decode_omitEmpty time_member [OF _ pr(1)] time_member [OF _ pr(2)] time_member [OF _ pr(3)] setField_def pr(4) rt zeroStatus_def
        del: decInt64.simps split: option.split)
qed

text \<open>The object \<open>Create\<close> makes, with a status, read back.\<close>

definition storedAgent :: "codec \<Rightarrow> string \<Rightarrow> string \<Rightarrow> string \<Rightarrow> string \<Rightarrow> string \<Rightarrow> CreateRequest \<Rightarrow> AgentStatus \<Rightarrow> json option" where
  "storedAgent cd ns i owner key hash req st = setNested [''status''] (statusJson cd st) (agentObject cd ns i owner key hash req)"

lemma statusJson_JObj: "\<exists>ms. statusJson cd st = JObj ms"
  by (simp add: statusJson_def)

lemma specJson_JObj: "\<exists>ms. specJson num sp = JObj ms"
  by (simp add: specJson_def)

lemma storedAgent_read:
  assumes "storedAgent cd ns i owner key hash req st = Some obj" "statusPrints cd st"
    "printsInt (cdFloat cd) (spIdleTimeoutSeconds (crSpec req))" "stState st \<noteq> []"
  shows "\<exists>a. agentFromObject cd now obj = Inr a \<and> agID a = i \<and> agOwner a = owner \<and> agName a = crName req \<and>
    agSpec a = crSpec req \<and> agStatus a = st \<and> agDesiredState a = DesiredRunning \<and> agRuntimeGeneration a = 1"
    "objAnnotation obj idempotencyKey = key" "objAnnotation obj idempotencyHash = hash"
proof -
  obtain ms where ms: "statusJson cd st = JObj ms" using statusJson_JObj by blast
  obtain sms where sms: "specJson (cdFloat cd) (crSpec req) = JObj sms" using specJson_JObj by blast
  have one: "parseIntLit (- (2 ^ 63)) (2 ^ 63 - 1) ''1'' = Some 1"
    by (simp add: parseIntLit_def allDigits_def isDigit_def decimalValue_def)
  have paths: "nestedMap [''spec'', ''agent''] obj = Some sms" "nestedMap [''status''] obj = Some ms"
    "nestedString [''spec'', ''id''] obj = i" "nestedString [''spec'', ''owner''] obj = owner"
    "nestedString [''spec'', ''name''] obj = crName req" "nestedString [''spec'', ''desiredState''] obj = DesiredRunning"
    "nestedInt64 [''spec'', ''runtimeGeneration''] obj = Some 1"
    using assms(1) ms sms one
    by (auto simp: storedAgent_def agentObject_def nestedMap_def nestedString_def nestedInt64_def)
  have dec: "decodeStruct False (specFields False) (JObj sms) zeroSpec = Some (crSpec req)"
    "decodeStruct False (statusFields cd) (JObj ms) zeroStatus = Some st"
    using spec_roundtrip [OF assms(3)] status_roundtrip [OF assms(2)] ms sms by simp_all
  show "\<exists>a. agentFromObject cd now obj = Inr a \<and> agID a = i \<and> agOwner a = owner \<and> agName a = crName req \<and>
    agSpec a = crSpec req \<and> agStatus a = st \<and> agDesiredState a = DesiredRunning \<and> agRuntimeGeneration a = 1"
    using assms(4) dec by (simp add: agentFromObject_def Let_def paths orOne_def del: decodeStruct.simps)
  show "objAnnotation obj idempotencyKey = key" "objAnnotation obj idempotencyHash = hash"
    using assms(1) by (auto simp: storedAgent_def agentObject_def stringMap_def nestedMap_def idempotencyKey_def idempotencyHash_def)
qed

section \<open>Properties\<close>

lemma kst_comm: "s\<lparr>actions := as, world := w\<rparr> = s\<lparr>world := w, actions := as\<rparr>"
  by simp

lemma run_kGet: "run_state (kGet K g n) s = (fst (apiGet K g n (world s)),
    s\<lparr>world := snd (apiGet K g n (world s)), actions := actions s @ [Call (CGet g n)]\<rparr>)"
  by (simp add: kGet_def effect_def case_prod_beta)

lemma run_kList: "run_state (kList K g n) s = (fst (apiList K g n (world s)),
    s\<lparr>world := snd (apiList K g n (world s)), actions := actions s @ [Call (CList g n)]\<rparr>)"
  by (simp add: kList_def effect_def case_prod_beta)

lemma run_kNow: "run_state (kNow K) s = (fst (clock K (world s)), s\<lparr>world := snd (clock K (world s))\<rparr>)"
  by (simp add: kNow_def ask_def case_prod_beta)

lemma run_convert: "run_state (convert K cd obj) s =
    (agentFromObject cd (fst (clock K (world s))) obj, s\<lparr>world := snd (clock K (world s))\<rparr>)"
  by (simp add: convert_def run_bind run_kNow)

lemma agentFromObject_owner: "agentFromObject cd now obj = Inr a \<Longrightarrow> agOwner a = nestedString [''spec'', ''owner''] obj"
  by (auto simp: agentFromObject_def Let_def split: option.splits)

lemma agentFromObject_name: "agentFromObject cd now obj = Inr a \<Longrightarrow> agName a = nestedString [''spec'', ''name''] obj"
  by (auto simp: agentFromObject_def Let_def split: option.splits)

lemma ownedObject_foreign:
  assumes "fst (apiGet K AgentGVR (resourceName i) (world s)) = Inr obj" "nestedString [''spec'', ''owner''] obj \<noteq> owner"
  shows "\<exists>e w. run_state (ownedObject K cd owner i) s =
    (Inl e, s\<lparr>world := w, actions := actions s @ [Call (CGet AgentGVR (resourceName i))]\<rparr>) \<and> (\<forall>l. e = LErr l \<longrightarrow> l = notFound)"
proof -
  define now where "now = fst (clock K (snd (apiGet K AgentGVR (resourceName i) (world s))))"
  have "agentFromObject cd now obj = Inr a \<Longrightarrow> agOwner a \<noteq> owner" for a using agentFromObject_owner assms(2) by metis
  moreover have "agentFromObject cd now obj = Inl e \<Longrightarrow> \<forall>l. e \<noteq> LErr l" for e
    by (auto simp: agentFromObject_def Let_def split: option.splits)
  ultimately show ?thesis
    using assms(1)
    by (cases "agentFromObject cd now obj") (auto simp: ownedObject_def run_bind run_kGet run_convert now_def kst_comm)
qed

text \<open>
  An agent of another owner is out of reach: reading it, resolving its runner, changing its
  desired state or its adapter makes the one call that reads the object, writes nothing, and
  reports that the agent does not exist (or that the stored object cannot be decoded).
\<close>

theorem owner_isolated:
  assumes "fst (apiGet K AgentGVR (resourceName i) (world s)) = Inr obj" "nestedString [''spec'', ''owner''] obj \<noteq> owner"
  shows "(\<exists>e w. run_state (GetAgent K cd owner i) s =
        (Inl e, s\<lparr>world := w, actions := actions s @ [Call (CGet AgentGVR (resourceName i))]\<rparr>) \<and> (\<forall>l. e = LErr l \<longrightarrow> l = notFound)) \<and>
    (\<exists>e w. run_state (ResolveRunner K cd ns owner i) s =
        (Inl e, s\<lparr>world := w, actions := actions s @ [Call (CGet AgentGVR (resourceName i))]\<rparr>) \<and> (\<forall>l. e = LErr l \<longrightarrow> l = notFound)) \<and>
    (\<exists>e w. run_state (SetDesired K cd owner i ifMatch desired tr) s =
        (Inl e, s\<lparr>world := w, actions := actions s @ [Call (CGet AgentGVR (resourceName i))]\<rparr>) \<and> (\<forall>l. e = LErr l \<longrightarrow> l = notFound)) \<and>
    (\<exists>e w. run_state (ChangeAdapter K cd owner i ifMatch change tr) s =
        (Inl e, s\<lparr>world := w, actions := actions s @ [Call (CGet AgentGVR (resourceName i))]\<rparr>) \<and> (\<forall>l. e = LErr l \<longrightarrow> l = notFound))"
  using ownedObject_foreign [OF assms, of cd]
  by (auto simp: GetAgent_def ResolveRunner_def SetDesired_def ChangeAdapter_def run_bind)

section \<open>Pages\<close>

lemma searchFrom_step:
  "i < j \<Longrightarrow> f ((i + j) div 2) \<Longrightarrow> searchFrom f i j = searchFrom f i ((i + j) div 2)"
  "i < j \<Longrightarrow> \<not> f ((i + j) div 2) \<Longrightarrow> searchFrom f i j = searchFrom f ((i + j) div 2 + 1) j"
  "\<not> i < j \<Longrightarrow> searchFrom f i j = i"
  by (subst searchFrom.simps, simp)+

lemma searchFrom_first:
  assumes mono: "\<forall>a b. a \<le> b \<longrightarrow> b < n \<longrightarrow> f a \<longrightarrow> f b"
  shows "i \<le> j \<Longrightarrow> j \<le> n \<Longrightarrow> \<forall>a < i. \<not> f a \<Longrightarrow> \<forall>b < n. j \<le> b \<longrightarrow> f b \<Longrightarrow>
    searchFrom f i j \<le> n \<and> (\<forall>a < searchFrom f i j. \<not> f a) \<and> (\<forall>b < n. searchFrom f i j \<le> b \<longrightarrow> f b)"
proof (induction "j - i" arbitrary: i j rule: less_induct)
  case less
  let ?h = "(i + j) div 2"
  consider "\<not> i < j" | "i < j" "f ?h" | "i < j" "\<not> f ?h" by blast
  then show ?case
  proof cases
    case 1
    then have "i = j" using less.prems(1) by simp
    then show ?thesis using less.prems(2-) searchFrom_step(3) [OF 1, of f] by simp
  next
    case 2
    then have "\<forall>b < n. ?h \<le> b \<longrightarrow> f b" using mono by blast
    moreover have "?h - i < j - i" "i \<le> ?h" "?h \<le> n" using 2(1) less.prems(2) by auto
    ultimately show ?thesis unfolding searchFrom_step(1) [of i j f, OF 2] using less.prems(3) by (intro less.hyps)
  next
    case 3
    then have "?h < n" using less.prems(2) by linarith
    then have "\<forall>a < ?h + 1. \<not> f a" using mono 3(2) by (metis less_Suc_eq_le Suc_eq_plus1)
    moreover have "j - (?h + 1) < j - i" "?h + 1 \<le> j" using 3(1) by auto
    ultimately show ?thesis unfolding searchFrom_step(2) [of i j f, OF 3] using less.prems(2,4) by (intro less.hyps)
  qed
qed

lemma afterCursor_drop:
  assumes "sorted_wrt (<) (map agID S)" "0 < k" "k \<le> length S"
  shows "afterCursor (agID (S ! (k - 1))) S = drop k S"
proof -
  let ?f = "\<lambda>i. agID (S ! (k - 1)) < agID (S ! i)"
  have lt: "agID (S ! a) < agID (S ! b)" if "a < b" "b < length S" for a b
    using assms(1) that by (simp add: sorted_wrt_iff_nth_less)
  have f: "?f a \<longleftrightarrow> k \<le> a" if "a < length S" for a
  proof
    assume "?f a"
    then show "k \<le> a" using lt [of a "k - 1"] assms(2,3) by (cases "a = k - 1") force+
  next
    assume "k \<le> a"
    then show "?f a" using lt [of "k - 1" a] assms(2) that by simp
  qed
  let ?r = "searchFrom ?f 0 (length S)"
  have mono: "\<forall>a b. a \<le> b \<longrightarrow> b < length S \<longrightarrow> ?f a \<longrightarrow> ?f b" using f by (meson le_trans le_less_trans)
  have r: "?r \<le> length S \<and> (\<forall>a < ?r. \<not> ?f a) \<and> (\<forall>b < length S. ?r \<le> b \<longrightarrow> ?f b)"
    by (rule searchFrom_first [OF mono]) simp_all
  have "?r = k"
  proof (rule antisym)
    show "?r \<le> k" using r f [of k] assms(3) by (metis le_less_linear order_refl le_antisym)
    show "k \<le> ?r" using r f [of ?r] assms(3) by (metis le_less_linear order_refl le_antisym)
  qed
  then show ?thesis by (simp add: afterCursor_def)
qed

text \<open>A client that follows the cursors until there is none, for at most the given number of pages.\<close>

fun follow :: "nat \<Rightarrow> string \<Rightarrow> ListOptions \<Rightarrow> Agent list \<Rightarrow> Agent list option" where
  "follow 0 owner opts all = None"
| "follow (Suc n) owner opts all =
     (case listAgents owner opts all of
        Some (Inr page) \<Rightarrow>
          if alNextCursor page = [] then Some (alItems page)
          else map_option (\<lambda>more. alItems page @ more) (follow n owner (opts\<lparr>loCursor := alNextCursor page\<rparr>) all)
      | _ \<Rightarrow> None)"

lemma listFilter_cursor [simp]: "listFilter owner (opts\<lparr>loCursor := c\<rparr>) = listFilter owner opts"
  by (simp add: listFilter_def fun_eq_iff)

lemma encodeURL_empty [simp]: "encodeURL s = [] \<longleftrightarrow> s = []"
proof -
  have "encodeURL [] = []" by (simp add: encodeURL_def encodeRaw_def bytesOf_def)
  then show ?thesis by (metis decode_encodeURL option.inject)
qed

lemma follow_from:
  assumes S: "S = sort_key agID (filter (listFilter owner opts) all)" "sorted_wrt (<) (map agID S)" "[] \<notin> agID ` set S"
    and lim: "limit = (if loLimit opts = 0 then 50 else loLimit opts)" "0 < limit"
  shows "k \<le> length S \<Longrightarrow> length S - k < n \<Longrightarrow> cur = (if k = 0 then [] else encodeURL (agID (S ! (k - 1)))) \<Longrightarrow>
    follow n owner (opts\<lparr>loCursor := cur\<rparr>) all = Some (drop k S)"
proof (induction n arbitrary: k cur)
  case 0
  then show ?case by simp
next
  case (Suc n)
  have ids: "agID (S ! j) \<noteq> []" if "j < length S" for j using S(3) that by (metis image_eqI nth_mem)
  have page: "listAgents owner (opts\<lparr>loCursor := cur\<rparr>) all = map_option Inr (pageOf (loLimit opts) (drop k S))"
  proof (cases "k = 0")
    case True
    then show ?thesis using Suc.prems(3) S(1) by (simp add: listAgents_def Let_def)
  next
    case False
    then have "cur \<noteq> []" using Suc.prems ids [of "k - 1"] by simp
    moreover have "afterCursor (agID (S ! (k - 1))) S = drop k S"
      using afterCursor_drop [OF S(2)] False Suc.prems(1) by simp
    ultimately show ?thesis using Suc.prems(3) False S(1) by (simp add: listAgents_def Let_def)
  qed
  show ?case
  proof (cases "int (length (drop k S)) > limit")
    case False
    then have "pageOf (loLimit opts) (drop k S) = Some \<lparr>alItems = drop k S, alNextCursor = []\<rparr>"
      using lim by (simp add: pageOf_def Let_def)
    then show ?thesis using page by simp
  next
    case True
    define m where "m = nat limit"
    have m: "0 < m" "k + m < length S" using True lim(2) by (auto simp: m_def)
    have pg: "pageOf (loLimit opts) (drop k S) =
        Some \<lparr>alItems = take m (drop k S), alNextCursor = encodeURL (agID (S ! (k + m - 1)))\<rparr>"
      using True lim m by (auto simp: pageOf_def Let_def m_def split: if_splits)
    have "follow n owner (opts\<lparr>loCursor := encodeURL (agID (S ! (k + m - 1)))\<rparr>) all = Some (drop (k + m) S)"
      using Suc.prems(2) m by (intro Suc.IH) auto
    moreover have "encodeURL (agID (S ! (k + m - 1))) \<noteq> []" using ids m by simp
    moreover have "take m (drop k S) @ drop (k + m) S = drop k S"
      using append_take_drop_id [of m "drop k S"] by (simp add: add.commute)
    ultimately show ?thesis using page pg by (simp del: take_drop drop_drop)
  qed
qed

text \<open>
  C24. Following the cursors lists every agent once: over a fixed set of agents with distinct,
  non-empty identifiers, a client that starts without a cursor and continues with the one it is
  given gets the owner's agents that match the filters, each exactly once, in the order of their
  identifiers, after as many pages as there are agents at most; and no page exceeds the limit.
\<close>

theorem pages_complete:
  assumes "distinct (map agID all)" "[] \<notin> agID ` set all" "0 \<le> loLimit opts" "loCursor opts = []"
  shows "follow (Suc (length all)) owner opts all = Some (sort_key agID (filter (listFilter owner opts) all)) \<and>
    (\<forall>as page. pageOf (loLimit opts) as = Some page \<longrightarrow>
       int (length (alItems page)) \<le> (if loLimit opts = 0 then 50 else loLimit opts))"
proof -
  let ?S = "sort_key agID (filter (listFilter owner opts) all)"
  have "distinct (map agID (filter (listFilter owner opts) all))"
    using assms(1) by (simp add: distinct_map inj_on_def)
  moreover have "mset (map agID ?S) = mset (map agID (filter (listFilter owner opts) all))"
    unfolding mset_map mset_sort ..
  ultimately have "distinct (map agID ?S)" by (metis mset_eq_imp_distinct_iff)
  then have sorted: "sorted_wrt (<) (map agID ?S)" by (simp add: strict_sorted_iff)
  have "length ?S < Suc (length all)" by (simp add: le_imp_less_Suc)
  then have "follow (Suc (length all)) owner (opts\<lparr>loCursor := []\<rparr>) all = Some (drop 0 ?S)"
    using assms sorted by (intro follow_from [OF refl _ _ refl]) (auto split: if_splits)
  moreover have "opts\<lparr>loCursor := []\<rparr> = opts" using assms(4) by simp
  ultimately show ?thesis using assms(3) by (auto simp: pageOf_def Let_def split: if_splits)
qed

section \<open>Creating and changing\<close>

lemma findExisting_skip:
  assumes "\<forall>o' \<in> set pre. nestedString [''spec'', ''owner''] o' \<noteq> owner \<or>
      (objAnnotation o' idempotencyKey \<noteq> key \<and> nestedString [''spec'', ''name''] o' \<noteq> name)"
  shows "findExisting cd now owner key hash name (pre @ objs) = findExisting cd now owner key hash name objs"
  using assms
proof (induction pre)
  case Nil
  then show ?case by simp
next
  case (Cons o' pre)
  then show ?case
    using agentFromObject_owner [of cd now o'] agentFromObject_name [of cd now o'] by (auto split: sum.splits)
qed


definition sampleCodec :: codec where
  "sampleCodec = \<lparr>cdPrint = (\<lambda>_. ''{}''), cdSha256 = (\<lambda>_. ''h''), cdTime = formatInt,
     cdParseTime = (\<lambda>t. parseIntLit (- (2 ^ 63)) (2 ^ 63 - 1) t), cdFloat = formatInt, cdPrintable = (\<lambda>_. True), cdJsonError = (\<lambda>_. [])\<rparr>"

definition sampleSpec :: AgentSpec where
  "sampleSpec = zeroSpec\<lparr>spKind := ''shell'', spRepository := Some \<lparr>repURL = ''https://h/r'', repRevision = ''HEAD''\<rparr>, spIdleTimeoutSeconds := 60\<rparr>"

definition sampleReq :: CreateRequest where
  "sampleReq = \<lparr>crName = ''demo'', crSpec = sampleSpec\<rparr>"

definition sampleStatus :: AgentStatus where
  "sampleStatus = zeroStatus\<lparr>stState := StateRunning, stReadyAt := Some 5,
     stRuntime := Some \<lparr>rtGeneration = 1, rtKind = ''shell'', rtAdapterVersion = ''1''\<rparr>\<rparr>"

text \<open>An API server that answers every request with the same objects.\<close>

definition constKube :: "json list \<Rightarrow> apiError + json \<Rightarrow> unit kube" where
  "constKube objs r = \<lparr>apiGet = (\<lambda>_ _ w. (r, w)), apiList = (\<lambda>_ _ w. (Inr objs, w)), apiCreate = (\<lambda>_ _ w. (r, w)),
     apiUpdate = (\<lambda>_ _ w. (r, w)), apiUpdateStatus = (\<lambda>_ _ w. (r, w)), apiPatch = (\<lambda>_ _ _ w. (r, w)),
     apiDelete = (\<lambda>_ _ _ w. (None, w)), clock = (\<lambda>w. (0, w)), freshID = (\<lambda>w. (''id'', w))\<rparr>"

lemma sample_prints:
  "statusPrints sampleCodec sampleStatus" "printsInt (cdFloat sampleCodec) (spIdleTimeoutSeconds (crSpec sampleReq))" "stState sampleStatus \<noteq> []"
  using parseIntLit_formatInt [of "- (2 ^ 63)" _ "2 ^ 63 - 1"]
  by (simp_all add: statusPrints_def printsTime_def printsInt_def sampleCodec_def sampleStatus_def sampleReq_def sampleSpec_def
      zeroStatus_def StateRunning_def)


theorem owner_isolated_witness:
  "\<exists>e w. run_state (SetDesired (constKube [] (Inr (JObj [(''spec'', JObj [(''owner'', JStr ''you'')])]))) sampleCodec ''me'' ''i'' []
      DesiredStopped StateStopping) \<lparr>world = (), actions = []\<rparr> =
     (Inl e, \<lparr>world = w, actions = [Call (CGet AgentGVR (resourceName ''i''))]\<rparr>)"
proof -
  let ?o = "JObj [(''spec'', JObj [(''owner'', JStr ''you'')])]" and ?s = "\<lparr>world = (), actions = []\<rparr>"
  have get: "fst (apiGet (constKube [] (Inr ?o)) AgentGVR (resourceName ''i'') (world ?s)) = Inr ?o" by (simp add: constKube_def)
  have "nestedString [''spec'', ''owner''] ?o \<noteq> ''me''" by (simp add: nestedString_def)
  from owner_isolated [OF get this, of sampleCodec "[]" "[]" DesiredStopped StateStopping undefined] show ?thesis by auto
qed

definition ownedBy :: "codec \<Rightarrow> string \<Rightarrow> json \<Rightarrow> bool" where
  "ownedBy cd owner obj \<longleftrightarrow> nestedString [''spec'', ''owner''] obj = owner \<and> (\<forall>now. \<exists>a. agentFromObject cd now obj = Inr a)"

lemma ownedObject_run:
  assumes "fst (apiGet K AgentGVR (resourceName i) (world s)) = Inr obj" "ownedBy cd owner obj"
  obtains a w where "run_state (ownedObject K cd owner i) s =
    (Inr (obj, a), s\<lparr>world := w, actions := actions s @ [Call (CGet AgentGVR (resourceName i))]\<rparr>)"
    "agResourceVersion a = nestedString [''metadata'', ''resourceVersion''] obj"
proof -
  define now where "now = fst (clock K (snd (apiGet K AgentGVR (resourceName i) (world s))))"
  from assms(2) obtain a where a: "agentFromObject cd now obj = Inr a" unfolding ownedBy_def by blast
  moreover have "agOwner a = owner" using agentFromObject_owner [OF a] assms(2) by (simp add: ownedBy_def)
  moreover have "agResourceVersion a = nestedString [''metadata'', ''resourceVersion''] obj"
    using a by (auto simp: agentFromObject_def Let_def split: option.splits)
  ultimately show thesis
    using assms(1) that [of a] by (auto simp: ownedObject_def run_bind run_kGet run_convert now_def kst_comm)
qed

lemma does_updateStatusObject [does_intros]:
  "(\<And>obj'. P (Call (CUpdateStatus AgentGVR obj'))) \<Longrightarrow> does P (updateStatusObject K cd obj st)"
  unfolding updateStatusObject_def by (intro does_intros)

lemma does_convert [does_intros]: "does P (convert K cd obj)"
  unfolding convert_def by (intro does_intros)

lemma yields_new:
  assumes "yields P Q m" "run_state m s = (r, s')"
  shows "\<exists>as. actions s' = actions s @ as \<and> list_all P as \<and> Q r"
  using assms unfolding yields_def by (metis fst_conv snd_conv)

text \<open>
  A change of the desired state is conditional on what was read: with an entity tag that is not
  the current one nothing is written and the result is a precondition failure; otherwise the
  first write sends the object that was read with only the desired state replaced, with its
  resource version, so that the API server refuses it if the agent changed in between.
\<close>

theorem desired_state_conditional:
  assumes "fst (apiGet K AgentGVR (resourceName i) (world s)) = Inr obj" "ownedBy cd owner obj"
    "run_state (SetDesired K cd owner i ifMatch desired tr) s = (r, s')"
  shows "(ifMatch \<noteq> [] \<and> ifMatch \<noteq> ETag cd (nestedString [''metadata'', ''resourceVersion''] obj) \<longrightarrow>
      r = Inl (LErr preconditionFailed) \<and> actions s' = actions s @ [Call (CGet AgentGVR (resourceName i))]) \<and>
    (\<exists>as. actions s' = actions s @ as \<and> (\<forall>g obj'. Call (CUpdate g obj') \<in> set as \<longrightarrow>
      g = AgentGVR \<and> nestedString [''spec'', ''desiredState''] obj' = desired \<and> member ''metadata'' obj' = member ''metadata'' obj))"
proof -
  obtain a w where a: "run_state (ownedObject K cd owner i) s =
      (Inr (obj, a), s\<lparr>world := w, actions := actions s @ [Call (CGet AgentGVR (resourceName i))]\<rparr>)" (is "_ = (_, ?s1)")
    "agResourceVersion a = nestedString [''metadata'', ''resourceVersion''] obj"
    by (rule ownedObject_run [OF assms(1,2)])
  show ?thesis
  proof (cases "etagMatches cd ifMatch a")
    case False
    then have "r = Inl (LErr preconditionFailed)" "s' = ?s1" using assms(3) a by (simp_all add: SetDesired_def run_bind)
    then show ?thesis by simp
  next
    case True
    define P where "P act \<longleftrightarrow> (\<forall>g obj'. act = Call (CUpdate g obj') \<longrightarrow>
      g = AgentGVR \<and> nestedString [''spec'', ''desiredState''] obj' = desired \<and> member ''metadata'' obj' = member ''metadata'' obj)" for act
    have P: "P (Call (CUpdate AgentGVR obj1))" if "setNested [''spec'', ''desiredState''] (JStr desired) obj = Some obj1" for obj1
      using nested_setNested [OF that] member_setNested_other [OF that, of "''metadata''"] by (simp add: P_def nestedString_def)
    have PS: "P (Call (CUpdateStatus g o'))" for g o' by (simp add: P_def)
    have run: "run_state (writeDesired K cd desired tr obj a) ?s1 = (r, s')" using assms(3) a True by (simp add: SetDesired_def run_bind)
    have "does P (writeDesired K cd desired tr obj a)"
      unfolding writeDesired_def by (intro does_intros P PS; assumption)
    from yields_new [OF this run] obtain as where "actions s' = actions ?s1 @ as" "list_all P as" by auto
    then show ?thesis using True a(2) by (auto simp: etagMatches_def list_all_iff P_def)
  qed
qed

theorem desired_state_conditional_witness:
  "\<exists>obj. fst (run_state (SetDesired (constKube [] (Inr obj)) sampleCodec ''me'' ''id'' ''stale'' DesiredStopped StateStopping)
     \<lparr>world = (), actions = []\<rparr>) = Inl (LErr preconditionFailed)"
proof -
  obtain obj where obj: "storedAgent sampleCodec ''ns'' ''id'' ''me'' ''key'' ''h'' sampleReq sampleStatus = Some obj"
    by (simp add: storedAgent_def agentObject_def)
  let ?s = "\<lparr>world = (), actions = []\<rparr>" and ?K = "constKube [] (Inr obj)"
  have get: "fst (apiGet ?K AgentGVR (resourceName ''id'') (world ?s)) = Inr obj" by (simp add: constKube_def)
  have "ownedBy sampleCodec ''me'' obj"
    unfolding ownedBy_def using storedAgent_read(1) [OF obj sample_prints] agentFromObject_owner by metis
  from desired_state_conditional [OF get this, of "''stale''" DesiredStopped StateStopping]
  show ?thesis by (intro exI [of _ obj]) (cases "run_state (SetDesired ?K sampleCodec ''me'' ''id'' ''stale'' DesiredStopped StateStopping) ?s",
      simp add: ETag_def goQuote_def)
qed

definition sampleAgent :: "string \<Rightarrow> Agent" where
  "sampleAgent i = \<lparr>agAPIVersion = ''v1alpha1'', agID = i, agName = i, agOwner = ''me'', agGeneration = 1, agRuntimeGeneration = 1,
     agResourceVersion = ''7'', agSpec = sampleSpec, agStatus = sampleStatus, agDesiredState = DesiredRunning, agCreatedAt = 0, agUpdatedAt = 0\<rparr>"

theorem pages_complete_witness:
  "\<exists>as. follow 3 ''me'' \<lparr>loLimit = 1, loCursor = [], loState = [], loName = []\<rparr> [sampleAgent ''b'', sampleAgent ''a''] = Some as \<and>
     set as = {sampleAgent ''a'', sampleAgent ''b''} \<and> length as = 2"
proof -
  let ?opts = "\<lparr>loLimit = 1, loCursor = [], loState = [], loName = []\<rparr>" and ?all = "[sampleAgent ''b'', sampleAgent ''a'']"
  have "filter (listFilter ''me'' ?opts) ?all = ?all" by (simp add: listFilter_def sampleAgent_def)
  then have "follow 3 ''me'' ?opts ?all = Some (sort_key agID ?all)"
    using pages_complete [of ?all ?opts "''me''"] by (simp add: sampleAgent_def eval_nat_numeral del: follow.simps)
  then show ?thesis by (intro exI [of _ "sort_key agID ?all"]) auto
qed

end
