(* ===== verification/Principal.thy ===== *)
theory Principal
  imports Json
begin

text \<open>
  Principals and the file authenticator, \<^verbatim>\<open>internal/auth/principal.go\<close>. The credential file is
  an argument: what opening and reading a path yields. Sets of permissions and profiles are
  Go maps to \<open>struct{}\<close>. The text of a JSON error is an argument too.
\<close>

definition maxPrincipalFileBytes :: nat where "maxPrincipalFileBytes = 1024 * 1024"
definition ErrUnauthenticated :: goerror where "ErrUnauthenticated = ''credential is not authenticated''"
definition ErrUnavailable :: goerror where "ErrUnavailable = ''authentication service is unavailable''"

text \<open>The two regular expressions; \<open>$\<close> matches at the end of the text only.\<close>

definition isAlnum :: "char \<Rightarrow> bool" where
  "isAlnum c = (isLower c \<or> isUpper c \<or> isDigit c)"

fun principalIDPattern :: "string \<Rightarrow> bool" where
  "principalIDPattern [] = False"
| "principalIDPattern (c # cs) =
     (isAlnum c \<and> length cs \<le> 127 \<and> list_all (\<lambda>d. isAlnum d \<or> d \<in> set ''._:@-'') cs)"

fun profileNamePattern :: "string \<Rightarrow> bool" where
  "profileNamePattern [] = False"
| "profileNamePattern (c # cs) =
     (isLower c \<and> length cs \<le> 63 \<and> list_all (\<lambda>d. isLower d \<or> isDigit d \<or> d \<in> set ''_-'') cs)"

definition PermissionObserve :: string where "PermissionObserve = ''observe''"
definition PermissionControl :: string where "PermissionControl = ''control''"

record Principal =
  prID :: string
  prPermissions :: "string set"
  prSecretProfiles :: "string set"
  prCredentialProfiles :: "string set"

definition zeroPrincipal :: Principal where
  "zeroPrincipal = \<lparr>prID = [], prPermissions = {}, prSecretProfiles = {}, prCredentialProfiles = {}\<rparr>"

text \<open>The loop that checks each item and that it has not been seen; used five times.\<close>

fun checkItems :: "(string \<Rightarrow> bool) \<Rightarrow> goerror \<Rightarrow> goerror \<Rightarrow> string set \<Rightarrow> string list \<Rightarrow> goerror option" where
  "checkItems ok bad repeated seen [] = None"
| "checkItems ok bad repeated seen (x # xs) =
     (if \<not> ok x then Some bad
      else if x \<in> seen then Some repeated
      else checkItems ok bad repeated (insert x seen) xs)"

definition validPermission :: "string \<Rightarrow> bool" where
  "validPermission p = (p = PermissionObserve \<or> p = PermissionControl)"

definition NewPrincipalWithCredentialProfiles ::
  "string \<Rightarrow> string list \<Rightarrow> string list \<Rightarrow> string list \<Rightarrow> Principal result" where
  "NewPrincipalWithCredentialProfiles i perms secrets creds =
     (if \<not> principalIDPattern i then Inl ''principal ID is invalid''
      else if perms = [] then Inl ''at least one principal permission is required''
      else case checkItems validPermission ''principal permission is invalid'' ''principal permission is repeated'' {} perms of
        Some e \<Rightarrow> Inl e
      | None \<Rightarrow>
         (case checkItems profileNamePattern ''principal secret profile is invalid''
                 ''principal secret profile is repeated'' {} secrets of
            Some e \<Rightarrow> Inl e
          | None \<Rightarrow>
             (case checkItems profileNamePattern ''principal credential profile is invalid''
                     ''principal credential profile is repeated'' {} creds of
                Some e \<Rightarrow> Inl e
              | None \<Rightarrow> Inr \<lparr>prID = i, prPermissions = set perms, prSecretProfiles = set secrets,
                  prCredentialProfiles = set creds\<rparr>)))"

definition NewPrincipal :: "string \<Rightarrow> string list \<Rightarrow> string list \<Rightarrow> Principal result" where
  "NewPrincipal i perms secrets = NewPrincipalWithCredentialProfiles i perms secrets []"

definition hasPermission :: "Principal \<Rightarrow> string \<Rightarrow> bool" where
  "hasPermission p perm = (perm \<in> prPermissions p)"

definition CanControl :: "Principal \<Rightarrow> bool" where
  "CanControl p = hasPermission p PermissionControl"

definition CanObserve :: "Principal \<Rightarrow> bool" where
  "CanObserve p = (CanControl p \<or> hasPermission p PermissionObserve)"

definition AllowsSecretProfile :: "Principal \<Rightarrow> string \<Rightarrow> bool" where
  "AllowsSecretProfile p profile = (profile = [] \<or> profile \<in> prSecretProfiles p)"

definition AllowsCredentialProfile :: "Principal \<Rightarrow> string \<Rightarrow> bool" where
  "AllowsCredentialProfile p profile = (profile = [] \<or> profile \<in> prCredentialProfiles p)"

section \<open>The credential file\<close>

record principalCredential =
  pcID :: string
  pcToken :: string
  pcPermissions :: "string list"
  pcSecretProfiles :: "string list"
  pcCredentialProfiles :: "string list"

record principalFile =
  pfVersion :: int
  pfPrincipals :: "principalCredential list"

definition zeroCredential :: principalCredential where
  "zeroCredential = \<lparr>pcID = [], pcToken = [], pcPermissions = [], pcSecretProfiles = [], pcCredentialProfiles = []\<rparr>"

definition credentialFields :: "principalCredential fields" where
  "credentialFields =
     [(''id'', setField decString (\<lambda>x r. r\<lparr>pcID := x\<rparr>)),
      (''token'', setField decString (\<lambda>x r. r\<lparr>pcToken := x\<rparr>)),
      (''permissions'', setStrings (\<lambda>x r. r\<lparr>pcPermissions := x\<rparr>)),
      (''secretProfiles'', setStrings (\<lambda>x r. r\<lparr>pcSecretProfiles := x\<rparr>)),
      (''credentialProfiles'', setStrings (\<lambda>x r. r\<lparr>pcCredentialProfiles := x\<rparr>))]"

fun setPrincipals :: "principalFile setter" where
  "setPrincipals JNull r = Some (r\<lparr>pfPrincipals := []\<rparr>)"
| "setPrincipals (JArr vs) r =
     map_option (\<lambda>ps. r\<lparr>pfPrincipals := ps\<rparr>)
       (those (map (\<lambda>v. decodeStruct True credentialFields v zeroCredential) vs))"
| "setPrincipals _ r = None"

definition principalFileFields :: "principalFile fields" where
  "principalFileFields =
     [(''version'', setField decInt64 (\<lambda>x r. r\<lparr>pfVersion := x\<rparr>)), (''principals'', setPrincipals)]"

text \<open>\<open>validate\<close>: the loop over the principals with the identifiers and tokens seen so far.\<close>

definition tokenChar :: "rune \<Rightarrow> bool" where
  "tokenChar r = (r \<le> 32 \<or> r = 127)"

definition validToken :: "string \<Rightarrow> bool" where
  "validToken t = (32 \<le> length t \<and> length t \<le> 4096 \<and> trimSpace t = t \<and> \<not> anyRune tokenChar t)"

definition principalErr :: "nat \<Rightarrow> string \<Rightarrow> goerror" where
  "principalErr i what = ''principal '' @ digits i @ what"

definition validateLists :: "nat \<Rightarrow> principalCredential \<Rightarrow> goerror option" where
  "validateLists i c =
     (if pcPermissions c = [] then Some (principalErr i '' must have at least one permission'')
      else case checkItems validPermission (principalErr i '' has an invalid permission'')
                  (principalErr i '' repeats a permission'') {} (pcPermissions c) of
        Some e \<Rightarrow> Some e
      | None \<Rightarrow>
         (case checkItems profileNamePattern (principalErr i '' has an invalid secret profile'')
                 (principalErr i '' repeats a secret profile'') {} (pcSecretProfiles c) of
            Some e \<Rightarrow> Some e
          | None \<Rightarrow> checkItems profileNamePattern (principalErr i '' has an invalid credential profile'')
                 (principalErr i '' repeats a credential profile'') {} (pcCredentialProfiles c)))"

fun validateFrom :: "nat \<Rightarrow> string set \<Rightarrow> string set \<Rightarrow> principalCredential list \<Rightarrow> goerror option" where
  "validateFrom i ids tokens [] = None"
| "validateFrom i ids tokens (c # cs) =
     (if \<not> principalIDPattern (pcID c) then Some (principalErr i '' has an invalid ID'')
      else if pcID c \<in> ids then Some ''principal IDs must be unique''
      else if \<not> validToken (pcToken c) then Some (principalErr i '' has an invalid bearer token'')
      else if pcToken c \<in> tokens then Some ''principal bearer tokens must be unique''
      else case validateLists i c of
        Some e \<Rightarrow> Some e
      | None \<Rightarrow> validateFrom (Suc i) (insert (pcID c) ids) (insert (pcToken c) tokens) cs)"

definition validate :: "principalFile \<Rightarrow> goerror option" where
  "validate f =
     (if pfVersion f \<noteq> 1 then Some ''principal credential file version must be 1''
      else if pfPrincipals f = [] \<or> length (pfPrincipals f) > 1024
      then Some ''principal credential file must contain between 1 and 1024 principals''
      else validateFrom 0 {} {} (pfPrincipals f))"

definition principal :: "principalCredential \<Rightarrow> Principal" where
  "principal c =
     (case NewPrincipalWithCredentialProfiles (pcID c) (pcPermissions c) (pcSecretProfiles c) (pcCredentialProfiles c) of
        Inr p \<Rightarrow> p | Inl _ \<Rightarrow> zeroPrincipal)"

section \<open>The authenticator\<close>

text \<open>
  The file system: opening a path fails, reading fails, or the contents. \<open>load\<close> reads at most
  one byte more than the limit.
\<close>

type_synonym fileSystem = "string \<Rightarrow> (string result) result"

definition load :: "scanner \<Rightarrow> (string \<Rightarrow> string) \<Rightarrow> fileSystem \<Rightarrow> string \<Rightarrow> principalFile result" where
  "load parse jsonError fs path =
     (case fs path of
        Inl e \<Rightarrow> Inl (''open principal credential file: '' @ e)
      | Inr (Inl e) \<Rightarrow> Inl (''read principal credential file: '' @ e)
      | Inr (Inr all) \<Rightarrow>
          let contents = take (maxPrincipalFileBytes + 1) all in
          if length contents > maxPrincipalFileBytes
          then Inl (''principal credential file exceeds '' @ digits maxPrincipalFileBytes @ '' bytes'')
          else case parse contents of
            None \<Rightarrow> Inl (''decode principal credential file: '' @ jsonError contents)
          | Some (v, rest) \<Rightarrow>
             (case decodeStruct True principalFileFields v \<lparr>pfVersion = 0, pfPrincipals = []\<rparr> of
                None \<Rightarrow> Inl (''decode principal credential file: '' @ jsonError contents)
              | Some f \<Rightarrow>
                  if \<not> atEOF rest then Inl ''principal credential file must contain one JSON value''
                  else case validate f of Some e \<Rightarrow> Inl e | None \<Rightarrow> Inr f))"

definition NewFileAuthenticator ::
  "scanner \<Rightarrow> (string \<Rightarrow> string) \<Rightarrow> (string \<Rightarrow> string) \<Rightarrow> fileSystem \<Rightarrow> string \<Rightarrow> string result" where
  "NewFileAuthenticator parse jsonError clean fs path =
     (if path = [] then Inl ''principal credential file is required''
      else case load parse jsonError fs (clean path) of Inl e \<Rightarrow> Inl e | Inr _ \<Rightarrow> Inr (clean path))"

text \<open>The matching loop keeps the last index whose token equals the bearer.\<close>

fun lastMatch :: "string \<Rightarrow> nat \<Rightarrow> principalCredential list \<Rightarrow> nat option \<Rightarrow> nat option" where
  "lastMatch bearer i [] matched = matched"
| "lastMatch bearer i (c # cs) matched =
     lastMatch bearer (Suc i) cs
       (if length (pcToken c) = length bearer \<and> pcToken c = bearer then Some i else matched)"

definition Authenticate ::
  "scanner \<Rightarrow> (string \<Rightarrow> string) \<Rightarrow> fileSystem \<Rightarrow> string \<Rightarrow> string \<Rightarrow> Principal result" where
  "Authenticate parse jsonError fs path bearer =
     (if length bearer < 32 \<or> length bearer > 4096 then Inl ErrUnauthenticated
      else case load parse jsonError fs path of
        Inl _ \<Rightarrow> Inl (ErrUnavailable @ '': principal credentials could not be loaded'')
      | Inr f \<Rightarrow>
         (case lastMatch bearer 0 (pfPrincipals f) None of
            None \<Rightarrow> Inl ErrUnauthenticated
          | Some i \<Rightarrow> Inr (principal (pfPrincipals f ! i))))"

section \<open>What validation establishes\<close>

lemma checkItems_None:
  "checkItems ok bad rep seen xs = None \<longleftrightarrow> (\<forall>x \<in> set xs. ok x) \<and> distinct xs \<and> set xs \<inter> seen = {}"
  by (induction xs arbitrary: seen) auto

lemma checkItems_Some:
  "checkItems ok bad rep seen xs = Some e \<Longrightarrow> \<not> ((\<forall>x \<in> set xs. ok x) \<and> distinct xs \<and> set xs \<inter> seen = {})"
  by (metis checkItems_None option.distinct(1))

lemma checkItems_ok:
  "\<forall>x \<in> set xs. ok x \<Longrightarrow> distinct xs \<Longrightarrow> checkItems ok bad rep {} xs = None"
  by (simp add: checkItems_None)

lemma validateLists_None:
  "validateLists i c = None \<longleftrightarrow> pcPermissions c \<noteq> [] \<and>
     (\<forall>p \<in> set (pcPermissions c). validPermission p) \<and> distinct (pcPermissions c) \<and>
     (\<forall>p \<in> set (pcSecretProfiles c). profileNamePattern p) \<and> distinct (pcSecretProfiles c) \<and>
     (\<forall>p \<in> set (pcCredentialProfiles c). profileNamePattern p) \<and> distinct (pcCredentialProfiles c)"
  by (auto simp: validateLists_def checkItems_None dest!: checkItems_Some split: option.splits)

definition credential_ok :: "principalCredential \<Rightarrow> bool" where
  "credential_ok c \<longleftrightarrow> principalIDPattern (pcID c) \<and> validToken (pcToken c) \<and> validateLists 0 c = None"

lemma validateLists_index: "validateLists i c = None \<longleftrightarrow> validateLists 0 c = None"
  by (simp add: validateLists_None)

lemma validateFrom_None:
  "validateFrom i ids tokens cs = None \<longleftrightarrow> (\<forall>c \<in> set cs. credential_ok c) \<and>
     distinct (map pcID cs) \<and> distinct (map pcToken cs) \<and>
     pcID ` set cs \<inter> ids = {} \<and> pcToken ` set cs \<inter> tokens = {}"
proof (induction cs arbitrary: i ids tokens)
  case Nil
  then show ?case by simp
next
  case (Cons c cs)
  then show ?case using validateLists_index [of i c]
    by (auto simp: credential_ok_def split: option.splits)
qed

lemma principal_ok:
  assumes "credential_ok c"
  shows "principal c = \<lparr>prID = pcID c, prPermissions = set (pcPermissions c),
    prSecretProfiles = set (pcSecretProfiles c), prCredentialProfiles = set (pcCredentialProfiles c)\<rparr>"
  using assms
  by (simp add: credential_ok_def validateLists_None principal_def NewPrincipalWithCredentialProfiles_def
      checkItems_ok)

lemma load_valid: "load parse je fs path = Inr f \<Longrightarrow> validate f = None"
  by (auto simp: load_def Let_def split: sum.splits if_splits option.splits)

lemma validate_None:
  "validate f = None \<longleftrightarrow> pfVersion f = 1 \<and> pfPrincipals f \<noteq> [] \<and> length (pfPrincipals f) \<le> 1024 \<and>
     (\<forall>c \<in> set (pfPrincipals f). credential_ok c) \<and> distinct (map pcID (pfPrincipals f)) \<and>
     distinct (map pcToken (pfPrincipals f))"
  by (auto simp: validate_def validateFrom_None)

lemma lastMatch_Some:
  "lastMatch b i cs m = Some j \<Longrightarrow> m = Some j \<or> (\<exists>k < length cs. j = i + k \<and> pcToken (cs ! k) = b)"
proof (induction cs arbitrary: i m)
  case Nil
  then show ?case by simp
next
  case (Cons c cs)
  show ?case
  proof (cases "length (pcToken c) = length b \<and> pcToken c = b")
    case True
    with Cons.prems have "lastMatch b (Suc i) cs (Some i) = Some j" by simp
    from Cons.IH [OF this] True show ?thesis by (auto intro: exI [of _ 0] exI [of _ "Suc _"])
  next
    case False
    with Cons.prems have "lastMatch b (Suc i) cs m = Some j" by (auto split: if_splits)
    from Cons.IH [OF this] show ?thesis by (auto intro: exI [of _ "Suc _"])
  qed
qed

lemma lastMatch_None: "lastMatch b i cs m = None \<longleftrightarrow> m = None \<and> (\<forall>c \<in> set cs. pcToken c \<noteq> b)"
  by (induction cs arbitrary: i m) auto

lemma find_unique:
  assumes "j < length xs" "P (xs ! j)" "\<And>i. i < length xs \<Longrightarrow> P (xs ! i) \<Longrightarrow> i = j"
  shows "find P xs = Some (xs ! j)"
proof -
  have "\<not> P (xs ! i)" if "i < j" for i using assms(1) assms(3) [of i] that by auto
  then show ?thesis using assms(1,2) unfolding find_Some_iff by blast
qed

lemma Authenticate_find:
  assumes ld: "load parse je fs path = Inr f" and len: "32 \<le> length bearer" "length bearer \<le> 4096"
  shows "Authenticate parse je fs path bearer =
    (case find (\<lambda>c. pcToken c = bearer) (pfPrincipals f) of
       None \<Rightarrow> Inl ErrUnauthenticated
     | Some c \<Rightarrow> Inr \<lparr>prID = pcID c, prPermissions = set (pcPermissions c),
         prSecretProfiles = set (pcSecretProfiles c), prCredentialProfiles = set (pcCredentialProfiles c)\<rparr>)"
proof -
  let ?cs = "pfPrincipals f"
  have val: "\<forall>c \<in> set ?cs. credential_ok c" "distinct (map pcToken ?cs)"
    using load_valid [OF ld] by (simp_all add: validate_None)
  show ?thesis
  proof (cases "lastMatch bearer 0 ?cs None")
    case None
    then have "find (\<lambda>c. pcToken c = bearer) ?cs = None" by (simp add: lastMatch_None find_None_iff)
    with None ld len show ?thesis by (simp add: Authenticate_def)
  next
    case (Some j)
    then have j: "j < length ?cs" "pcToken (?cs ! j) = bearer" using lastMatch_Some by fastforce+
    have "i = j" if "i < length ?cs" "pcToken (?cs ! i) = bearer" for i
      using nth_eq_iff_index_eq [OF val(2), of i j] that j by simp
    then have "find (\<lambda>c. pcToken c = bearer) ?cs = Some (?cs ! j)" 
      by (intro find_unique [where P = "\<lambda>c. pcToken c = bearer"]) (simp_all add: j)
    moreover have "credential_ok (?cs ! j)" using val(1) j(1) by simp
    ultimately show ?thesis using Some ld len principal_ok by (simp add: Authenticate_def)
  qed
qed

text \<open>Whoever is authenticated holds a valid credential, and may at least observe.\<close>

definition tokenHolder ::
  "scanner \<Rightarrow> (string \<Rightarrow> string) \<Rightarrow> fileSystem \<Rightarrow> string \<Rightarrow> string \<Rightarrow> Principal option" where
  "tokenHolder parse je fs path bearer =
     (if length bearer < 32 \<or> length bearer > 4096 then None
      else case load parse je fs path of
        Inl _ \<Rightarrow> None
      | Inr f \<Rightarrow> map_option principal (find (\<lambda>c. pcToken c = bearer) (pfPrincipals f)))"

lemma Authenticate_holder: "Authenticate parse je fs path bearer = Inr p \<longleftrightarrow> tokenHolder parse je fs path bearer = Some p"
proof (cases "length bearer < 32 \<or> length bearer > 4096")
  case True
  then show ?thesis by (simp add: Authenticate_def tokenHolder_def)
next
  case len: False
  show ?thesis
  proof (cases "load parse je fs path")
    case (Inl e)
    then show ?thesis using len by (simp add: Authenticate_def tokenHolder_def)
  next
    case (Inr f)
    have "credential_ok c" if "find (\<lambda>c. pcToken c = bearer) (pfPrincipals f) = Some c" for c
      using load_valid [OF Inr] that by (auto simp: validate_None find_Some_iff)
    then show ?thesis using len Inr Authenticate_find [OF Inr, of bearer] principal_ok
      by (auto simp: tokenHolder_def split: option.splits)
  qed
qed

lemma principal_observes:
  assumes "credential_ok c"
  shows "prID (principal c) \<noteq> []" "CanObserve (principal c)"
proof -
  have "pcID c \<noteq> []" using assms by (auto simp: credential_ok_def)
  then show "prID (principal c) \<noteq> []" by (simp add: principal_ok [OF assms])
  have "pcPermissions c \<noteq> []" "\<forall>p \<in> set (pcPermissions c). validPermission p"
    using assms by (simp_all add: credential_ok_def validateLists_None)
  then have "\<exists>p \<in> set (pcPermissions c). p = PermissionObserve \<or> p = PermissionControl"
    by (cases "pcPermissions c") (auto simp: validPermission_def)
  then show "CanObserve (principal c)" by (auto simp: principal_ok [OF assms] CanObserve_def CanControl_def hasPermission_def)
qed

lemma tokenHolder_observes:
  assumes "tokenHolder parse je fs path bearer = Some p"
  shows "prID p \<noteq> []" "CanObserve p"
proof -
  obtain f c where "load parse je fs path = Inr f" "find (\<lambda>c. pcToken c = bearer) (pfPrincipals f) = Some c" "p = principal c"
    using assms by (auto simp: tokenHolder_def split: if_splits sum.splits)
  moreover from this have "credential_ok c" using load_valid by (fastforce simp: validate_None find_Some_iff)
  ultimately show "prID p \<noteq> []" "CanObserve p" using principal_observes by simp_all
qed

section \<open>The interface of authenticators\<close>

text \<open>
  \<^verbatim>\<open>auth.Authenticator\<close>: what the control plane relies on. \<open>holder\<close> says whose credential a bearer
  is in a state of the world; an authenticator accepts exactly these bearers.
\<close>

locale authenticator =
  fixes auth :: "string \<Rightarrow> 'w \<Rightarrow> Principal result \<times> 'w"
    and holder :: "string \<Rightarrow> 'w \<Rightarrow> Principal option"
  assumes accepts: "fst (auth b w) = Inr p \<longleftrightarrow> holder b w = Some p"
    and observes: "holder b w = Some p \<Longrightarrow> prID p \<noteq> [] \<and> CanObserve p"

interpretation fileAuthenticator: authenticator "\<lambda>b w. (Authenticate parse je fs path b, w)" "\<lambda>b w. tokenHolder parse je fs path b"
  for parse je fs path
  by unfold_locales (simp_all add: Authenticate_holder tokenHolder_observes)

text \<open>
  Authentication is exact: against a loaded credential file, a bearer token yields a
  principal if and only if it is the token of one of the file's credentials, and the principal
  has exactly that credential's identity, permissions and profiles; any other bearer of an
  acceptable length is unauthenticated. Validation guarantees that the match is unique and
  that building the principal cannot fail.
\<close>

theorem authenticate_exact:
  assumes ld: "load parse je fs path = Inr f" and len: "32 \<le> length bearer" "length bearer \<le> 4096"
  shows "Authenticate parse je fs path bearer =
    (case find (\<lambda>c. pcToken c = bearer) (pfPrincipals f) of
       None \<Rightarrow> Inl ErrUnauthenticated
     | Some c \<Rightarrow> Inr \<lparr>prID = pcID c, prPermissions = set (pcPermissions c),
         prSecretProfiles = set (pcSecretProfiles c), prCredentialProfiles = set (pcCredentialProfiles c)\<rparr>)"
  by (rule Authenticate_find [OF assms])

text \<open>A file with one credential.\<close>

definition demoCredential :: principalCredential where
  "demoCredential = \<lparr>pcID = ''op'', pcToken = replicate 32 (CHR ''t''), pcPermissions = [''control''],
     pcSecretProfiles = [], pcCredentialProfiles = []\<rparr>"

definition demoFile :: json where
  "demoFile = JObj [(''version'', JNum ''1''), (''principals'', JArr [JObj [(''id'', JStr ''op''),
     (''token'', JStr (replicate 32 (CHR ''t''))), (''permissions'', JArr [JStr ''control''])]])]"

lemma demoFile_load:
  "load (\<lambda>s. Some (demoFile, [])) (\<lambda>_. []) (\<lambda>_. Inr (Inr ''x'')) ''p'' =
     Inr \<lparr>pfVersion = 1, pfPrincipals = [demoCredential]\<rparr>"
proof -
  have "decodeStruct True principalFileFields demoFile \<lparr>pfVersion = 0, pfPrincipals = []\<rparr> =
      Some \<lparr>pfVersion = 1, pfPrincipals = [demoCredential]\<rparr>"
    by (simp add: demoFile_def principalFileFields_def credentialFields_def findField_exact setField_def
        setStrings_def parseIntLit_def allDigits_def isDigit_def decimalValue_def zeroCredential_def demoCredential_def)
  moreover
  have "\<not> anyRune isSpace (replicate 32 (CHR ''t''))" "\<not> anyRune tokenChar (replicate 32 (CHR ''t''))"
    by (simp_all add: anyRune_def runeList_ascii isSpace_def tokenChar_def list_ex_iff)
  then have "validate \<lparr>pfVersion = 1, pfPrincipals = [demoCredential]\<rparr> = None"
    by (simp add: validate_None demoCredential_def credential_ok_def isAlnum_def isLower_def validToken_def
        trimSpace_id validateLists_None validPermission_def PermissionControl_def)
  ultimately show ?thesis by (simp add: load_def maxPrincipalFileBytes_def atEOF_def)
qed

theorem authenticate_exact_witness:
  "Authenticate (\<lambda>s. Some (demoFile, [])) (\<lambda>_. []) (\<lambda>_. Inr (Inr ''x'')) ''p'' (replicate 32 (CHR ''t'')) =
    Inr \<lparr>prID = ''op'', prPermissions = {''control''}, prSecretProfiles = {}, prCredentialProfiles = {}\<rparr>"
  using authenticate_exact [OF demoFile_load, of "replicate 32 (CHR ''t'')"] by (simp add: demoCredential_def)

end
