(* ===== verification/Registry.thy ===== *)
theory Registry
  imports Principal Lifecycle "HOL-Library.Multiset"
begin

text \<open>
  The registry of agent adapters, \<^verbatim>\<open>internal/runtimeadapter/registry.go\<close>: the configuration file,
  its validation, the resolution of a launch decision, and the public list. Copies of slices are
  the lists themselves. The file system, the JSON scanner and the texts of its errors are
  arguments; \<open>pr\<close> is the table of printable runes that \<open>%q\<close> consults.
\<close>

definition maxConfigBytes :: nat where "maxConfigBytes = 1024 * 1024"
definition ErrAdapterNotFound :: goerror where "ErrAdapterNotFound = ''agent adapter is not installed''"
definition ErrProfileNotFound :: goerror where "ErrProfileNotFound = ''agent adapter profile is not installed''"

text \<open>\<^verbatim>\<open>^[a-z][a-z0-9_-]{0,63}$\<close>, the same expression as for the profiles of principals.\<close>

definition validIdentifier :: "string \<Rightarrow> bool" where
  "validIdentifier v = profileNamePattern v"

definition CredentialNone :: string where "CredentialNone = ''none''"

definition credentialModes :: "string list" where
  "credentialModes = [CredentialNone, ''immutable'', ''mutable'', ''workload-identity'']"

definition validCredentialMode :: "string \<Rightarrow> bool" where
  "validCredentialMode m = (m \<in> set credentialModes)"

definition capabilityNames :: "string list" where
  "capabilityNames = [''interactive'', ''headless'', ''session-resume'', ''mcp'', ''acp'', ''subscription-auth'']"

definition validCapability :: "string \<Rightarrow> bool" where
  "validCapability c = (c \<in> set capabilityNames)"

definition invalidControlCharacter :: "rune \<Rightarrow> bool" where
  "invalidControlCharacter r = (r < 32 \<or> r = 127)"

section \<open>Configuration\<close>

record Profile =
  pfSandboxProfile :: string
  pfCredentialProfile :: string
  pfCredentialMode :: string
  pfWarmPool :: string
  pfCommand :: "string list"
  pfHealthCheck :: "string list"

record Definition =
  dfID :: string
  dfDisplayName :: string
  dfVersion :: string
  dfCapabilities :: "string list"
  dfProfiles :: "Profile list"

record Config =
  cfVersion :: int
  cfAdapters :: "Definition list"

record Descriptor =
  dsID :: string
  dsDisplayName :: string
  dsVersion :: string
  dsCapabilities :: "string list"

record Runtime =
  rnAdapterID :: string
  rnAdapterVersion :: string
  rnSandboxProfile :: string
  rnCredentialProfile :: string
  rnCredentialMode :: string
  rnWarmPool :: string
  rnCommand :: "string list"
  rnHealthCheck :: "string list"

type_synonym Registry = "string \<rightharpoonup> Definition"

definition profileFields :: "Profile fields" where
  "profileFields =
     [(''sandboxProfile'', setField decString (\<lambda>x r. r\<lparr>pfSandboxProfile := x\<rparr>)),
      (''credentialProfile'', setField decString (\<lambda>x r. r\<lparr>pfCredentialProfile := x\<rparr>)),
      (''credentialMode'', setField decString (\<lambda>x r. r\<lparr>pfCredentialMode := x\<rparr>)),
      (''warmPool'', setField decString (\<lambda>x r. r\<lparr>pfWarmPool := x\<rparr>)),
      (''command'', setStrings (\<lambda>x r. r\<lparr>pfCommand := x\<rparr>)),
      (''healthCheck'', setStrings (\<lambda>x r. r\<lparr>pfHealthCheck := x\<rparr>))]"

definition zeroProfile :: Profile where
  "zeroProfile = \<lparr>pfSandboxProfile = [], pfCredentialProfile = [], pfCredentialMode = [], pfWarmPool = [], pfCommand = [],
     pfHealthCheck = []\<rparr>"

text \<open>A slice of structs: \<open>null\<close> is the nil slice, every element starts from the zero value.\<close>

fun decSlice :: "'b fields \<Rightarrow> 'b \<Rightarrow> json \<Rightarrow> 'b list option" where
  "decSlice fs zero JNull = Some []"
| "decSlice fs zero (JArr vs) = those (map (\<lambda>v. decodeStruct True fs v zero) vs)"
| "decSlice fs zero _ = None"

definition setSlice :: "'b fields \<Rightarrow> 'b \<Rightarrow> ('b list \<Rightarrow> 'a \<Rightarrow> 'a) \<Rightarrow> 'a setter" where
  "setSlice fs zero upd v r = map_option (\<lambda>xs. upd xs r) (decSlice fs zero v)"

definition definitionFields :: "Definition fields" where
  "definitionFields =
     [(''id'', setField decString (\<lambda>x r. r\<lparr>dfID := x\<rparr>)),
      (''displayName'', setField decString (\<lambda>x r. r\<lparr>dfDisplayName := x\<rparr>)),
      (''version'', setField decString (\<lambda>x r. r\<lparr>dfVersion := x\<rparr>)),
      (''capabilities'', setStrings (\<lambda>x r. r\<lparr>dfCapabilities := x\<rparr>)),
      (''profiles'', setSlice profileFields zeroProfile (\<lambda>x r. r\<lparr>dfProfiles := x\<rparr>))]"

definition zeroDefinition :: Definition where
  "zeroDefinition = \<lparr>dfID = [], dfDisplayName = [], dfVersion = [], dfCapabilities = [], dfProfiles = []\<rparr>"

definition configFields :: "Config fields" where
  "configFields =
     [(''version'', setField decInt64 (\<lambda>x r. r\<lparr>cfVersion := x\<rparr>)),
      (''adapters'', setSlice definitionFields zeroDefinition (\<lambda>x r. r\<lparr>cfAdapters := x\<rparr>))]"

section \<open>Validation\<close>

fun invalidArgument :: "string \<Rightarrow> bool" where
  "invalidArgument a = (length a > 4096 \<or> CHR 0x00 \<in> set a)"

definition validateCommand :: "string list \<Rightarrow> goerror option" where
  "validateCommand command =
     (if command = [] \<or> length command > 64 \<or> \<not> hasPrefix (hd command) ''/''
      then Some ''must contain an absolute executable and at most 64 arguments''
      else if list_ex invalidArgument command then Some ''contains an invalid argument''
      else None)"

definition validateProfile :: "Profile \<Rightarrow> goerror option" where
  "validateProfile p =
     (if \<not> validIdentifier (pfSandboxProfile p) then Some ''sandboxProfile is invalid''
      else if pfCredentialProfile p \<noteq> [] \<and> \<not> validIdentifier (pfCredentialProfile p)
      then Some ''credentialProfile is invalid''
      else if pfCredentialProfile p = [] \<and> pfCredentialMode p \<noteq> CredentialNone
      then Some ''credentialMode must be none without a credentialProfile''
      else if pfCredentialProfile p \<noteq> [] \<and> pfCredentialMode p = CredentialNone
      then Some ''credentialMode must describe a configured credentialProfile''
      else if \<not> validCredentialMode (pfCredentialMode p) then Some ''credentialMode is invalid''
      else if trimSpace (pfWarmPool p) \<noteq> pfWarmPool p \<or> length (pfWarmPool p) < 1 \<or> length (pfWarmPool p) > 253 \<or>
        anyRune invalidControlCharacter (pfWarmPool p)
      then Some ''warmPool is invalid''
      else case validateCommand (pfCommand p) of
        Some e \<Rightarrow> Some (''command '' @ e)
      | None \<Rightarrow> (case validateCommand (pfHealthCheck p) of
            Some e \<Rightarrow> Some (''healthCheck '' @ e)
          | None \<Rightarrow> None))"

text \<open>The two loops of \<open>validateDefinition\<close>, with what has been seen so far.\<close>

fun checkCapabilities :: "(rune \<Rightarrow> bool) \<Rightarrow> string set \<Rightarrow> string list \<Rightarrow> goerror option" where
  "checkCapabilities pr seen [] = None"
| "checkCapabilities pr seen (c # cs) =
     (if \<not> validCapability c then Some (''capability '' @ goQuote pr c @ '' is invalid'')
      else if c \<in> seen then Some (''capability '' @ goQuote pr c @ '' is repeated'')
      else checkCapabilities pr (insert c seen) cs)"

definition profileKey :: "Profile \<Rightarrow> string" where
  "profileKey p = pfSandboxProfile p @ [CHR 0x00] @ pfCredentialProfile p"

fun checkProfiles :: "nat \<Rightarrow> string set \<Rightarrow> Profile list \<Rightarrow> goerror option" where
  "checkProfiles i seen [] = None"
| "checkProfiles i seen (p # ps) =
     (case validateProfile p of
        Some e \<Rightarrow> Some (''profile '' @ digits i @ '': '' @ e)
      | None \<Rightarrow>
         if profileKey p \<in> seen then Some ''profile combination is repeated''
         else checkProfiles (Suc i) (insert (profileKey p) seen) ps)"

definition validateDefinition :: "(rune \<Rightarrow> bool) \<Rightarrow> Definition \<Rightarrow> goerror option" where
  "validateDefinition pr d =
     (if \<not> validIdentifier (dfID d) then Some ''ID is invalid''
      else if trimSpace (dfDisplayName d) \<noteq> dfDisplayName d \<or> length (dfDisplayName d) < 1 \<or> length (dfDisplayName d) > 128
      then Some ''displayName is invalid''
      else if trimSpace (dfVersion d) \<noteq> dfVersion d \<or> length (dfVersion d) < 1 \<or> length (dfVersion d) > 128 \<or>
        anyRune invalidControlCharacter (dfVersion d)
      then Some ''version is invalid''
      else if dfCapabilities d = [] \<or> length (dfCapabilities d) > 16
      then Some ''capabilities must contain between 1 and 16 values''
      else case checkCapabilities pr {} (dfCapabilities d) of
        Some e \<Rightarrow> Some e
      | None \<Rightarrow>
         if dfProfiles d = [] \<or> length (dfProfiles d) > 128 then Some ''profiles must contain between 1 and 128 values''
         else checkProfiles 0 {} (dfProfiles d))"

fun addDefinitions :: "(rune \<Rightarrow> bool) \<Rightarrow> nat \<Rightarrow> Definition list \<Rightarrow> Registry \<Rightarrow> Registry result" where
  "addDefinitions pr i [] r = Inr r"
| "addDefinitions pr i (d # ds) r =
     (case validateDefinition pr d of
        Some e \<Rightarrow> Inl (''adapter '' @ digits i @ '': '' @ e)
      | None \<Rightarrow>
         if r (dfID d) \<noteq> None then Inl ''adapter IDs must be unique''
         else addDefinitions pr (Suc i) ds (r(dfID d \<mapsto> d)))"

definition NewRegistry :: "(rune \<Rightarrow> bool) \<Rightarrow> Config \<Rightarrow> Registry result" where
  "NewRegistry pr c =
     (if cfVersion c \<noteq> 1 then Inl ''adapter configuration version must be 1''
      else if cfAdapters c = [] \<or> length (cfAdapters c) > 64
      then Inl ''adapter configuration must contain between 1 and 64 adapters''
      else addDefinitions pr 0 (cfAdapters c) Map.empty)"

definition LoadRegistry ::
  "(rune \<Rightarrow> bool) \<Rightarrow> scanner \<Rightarrow> (string \<Rightarrow> string) \<Rightarrow> (string \<Rightarrow> string) \<Rightarrow> fileSystem \<Rightarrow> string \<Rightarrow> Registry result" where
  "LoadRegistry pr parse jsonError clean fs path =
     (if path = [] then Inl ''adapter configuration file is required''
      else case fs (clean path) of
        Inl e \<Rightarrow> Inl (''open adapter configuration: '' @ e)
      | Inr (Inl e) \<Rightarrow> Inl (''read adapter configuration: '' @ e)
      | Inr (Inr all) \<Rightarrow>
          let contents = take (maxConfigBytes + 1) all in
          if length contents > maxConfigBytes
          then Inl (''adapter configuration exceeds '' @ digits maxConfigBytes @ '' bytes'')
          else case parse contents of
            None \<Rightarrow> Inl (''decode adapter configuration: '' @ jsonError contents)
          | Some (v, rest) \<Rightarrow>
             (case decodeStruct True configFields v \<lparr>cfVersion = 0, cfAdapters = []\<rparr> of
                None \<Rightarrow> Inl (''decode adapter configuration: '' @ jsonError contents)
              | Some c \<Rightarrow>
                  if \<not> atEOF rest then Inl ''adapter configuration must contain one JSON value''
                  else NewRegistry pr c))"

section \<open>Resolution and listing\<close>

definition runtimeOf :: "Definition \<Rightarrow> Profile \<Rightarrow> Runtime" where
  "runtimeOf d p =
     \<lparr>rnAdapterID = dfID d, rnAdapterVersion = dfVersion d, rnSandboxProfile = pfSandboxProfile p,
      rnCredentialProfile = pfCredentialProfile p, rnCredentialMode = pfCredentialMode p, rnWarmPool = pfWarmPool p,
      rnCommand = pfCommand p, rnHealthCheck = pfHealthCheck p\<rparr>"

definition Resolve :: "Registry \<Rightarrow> string \<Rightarrow> string \<Rightarrow> string \<Rightarrow> Runtime result" where
  "Resolve r adapterID sandboxProfile credentialProfile =
     (case r adapterID of
        None \<Rightarrow> Inl ErrAdapterNotFound
      | Some d \<Rightarrow>
         (case find (\<lambda>p. pfSandboxProfile p = sandboxProfile \<and> pfCredentialProfile p = credentialProfile) (dfProfiles d) of
            None \<Rightarrow> Inl ErrProfileNotFound
          | Some p \<Rightarrow> Inr (runtimeOf d p)))"

definition describe :: "Definition \<Rightarrow> Descriptor" where
  "describe d = \<lparr>dsID = dfID d, dsDisplayName = dfDisplayName d, dsVersion = dfVersion d, dsCapabilities = dfCapabilities d\<rparr>"

text \<open>\<open>ord\<close> is the order in which the map is ranged over.\<close>

definition ListAdapters :: "string list \<Rightarrow> Registry \<Rightarrow> Descriptor list" where
  "ListAdapters ord r = sort_key dsID (map describe (List.map_filter r ord))"

section \<open>What validation establishes\<close>

lemma checkProfiles_None:
  "checkProfiles i seen ps = None \<longleftrightarrow>
     (\<forall>p \<in> set ps. validateProfile p = None) \<and> distinct (map profileKey ps) \<and> profileKey ` set ps \<inter> seen = {}"
  by (induction ps arbitrary: i seen) (auto split: option.splits)

lemma validateDefinition_None:
  assumes "validateDefinition pr d = None"
  shows "validIdentifier (dfID d)" "\<forall>p \<in> set (dfProfiles d). validateProfile p = None"
    "distinct (map profileKey (dfProfiles d))"
  using assms by (auto simp: validateDefinition_def checkProfiles_None split: if_splits option.splits)

lemma validCommand: "validateCommand cmd = None \<longleftrightarrow> cmd \<noteq> [] \<and> length cmd \<le> 64 \<and> hasPrefix (hd cmd) ''/'' \<and>
    (\<forall>a \<in> set cmd. length a \<le> 4096 \<and> CHR 0x00 \<notin> set a)"
  by (simp add: validateCommand_def list_ex_iff not_less) (metis leD not_le_imp_less)

lemma validProfile:
  assumes "validateProfile p = None"
  shows "validIdentifier (pfSandboxProfile p)" "pfCredentialProfile p \<noteq> [] \<longrightarrow> validIdentifier (pfCredentialProfile p)"
    "pfCredentialProfile p = [] \<longleftrightarrow> pfCredentialMode p = CredentialNone"
    "validateCommand (pfCommand p) = None" "validateCommand (pfHealthCheck p) = None"
  using assms by (auto simp: validateProfile_def split: if_splits option.splits)

lemma identifier_no_nul: "validIdentifier v \<Longrightarrow> CHR 0x00 \<notin> set v"
  by (cases v) (auto simp: validIdentifier_def list_all_iff isLower_def isDigit_def)

lemma append_sep_inj: "c \<notin> set a \<Longrightarrow> c \<notin> set a' \<Longrightarrow> a @ [c] @ b = a' @ [c] @ b' \<Longrightarrow> a = a' \<and> b = b'"
proof (induction a arbitrary: a')
  case Nil
  then show ?case by (cases a') auto
next
  case (Cons x a)
  then show ?case by (cases a') auto
qed

text \<open>The separator cannot occur in an identifier, so that the key determines both profiles.\<close>

lemma profileKey_inj:
  assumes "validateProfile p = None" "validateProfile q = None" "profileKey p = profileKey q"
  shows "pfSandboxProfile p = pfSandboxProfile q \<and> pfCredentialProfile p = pfCredentialProfile q"
  using append_sep_inj [OF identifier_no_nul identifier_no_nul] validProfile(1) [OF assms(1)] validProfile(1) [OF assms(2)]
    assms(3) unfolding profileKey_def by blast

lemma find_SomeD: "find P xs = Some x \<Longrightarrow> x \<in> set xs \<and> P x"
  by (induction xs) (auto split: if_splits)

lemma find_distinct:
  assumes "distinct (map k xs)" "x \<in> set xs" "P x" "\<And>y. y \<in> set xs \<Longrightarrow> P y \<Longrightarrow> k y = k x"
  shows "find P xs = Some x"
  using assms
proof (induction xs)
  case Nil
  then show ?case by simp
next
  case (Cons y ys)
  show ?case
  proof (cases "x = y")
    case True
    with Cons.prems(3) show ?thesis by simp
  next
    case False
    then have x: "x \<in> set ys" using Cons.prems(2) by simp
    then have "k y \<noteq> k x" using Cons.prems(1) by force
    then have "\<not> P y" using Cons.prems(4) [of y] by auto
    moreover have "find P ys = Some x"
    proof (rule Cons.IH)
      show "distinct (map k ys)" "x \<in> set ys" "P x" using Cons.prems(1,3) x by simp_all
      show "k z = k x" if "z \<in> set ys" "P z" for z by (rule Cons.prems(4)) (simp_all add: that)
    qed
    ultimately show ?thesis by simp
  qed
qed

lemma addDefinitions_ok:
  assumes "addDefinitions pr i ds r0 = Inr r"
  shows "\<forall>d \<in> set ds. validateDefinition pr d = None \<and> r0 (dfID d) = None" "distinct (map dfID ds)"
    "r = (\<lambda>x. case find (\<lambda>d. dfID d = x) ds of Some d \<Rightarrow> Some d | None \<Rightarrow> r0 x)"
proof -
  have "(\<forall>d \<in> set ds. validateDefinition pr d = None \<and> r0 (dfID d) = None) \<and> distinct (map dfID ds) \<and>
    (\<forall>x. r x = (case find (\<lambda>d. dfID d = x) ds of Some d \<Rightarrow> Some d | None \<Rightarrow> r0 x))"
    using assms
  proof (induction ds arbitrary: i r0)
    case Nil
    then show ?case by simp
  next
    case (Cons d ds)
    from Cons.prems have d: "validateDefinition pr d = None" "r0 (dfID d) = None"
      "addDefinitions pr (Suc i) ds (r0(dfID d \<mapsto> d)) = Inr r"
      by (auto split: option.splits if_splits)
    note IH = Cons.IH [OF d(3)]
    have notin: "dfID d \<notin> dfID ` set ds" using IH by (auto split: if_splits)
    then have "find (\<lambda>e. dfID e = dfID d) ds = None" unfolding find_None_iff by (metis imageI)
    with IH notin d show ?case by (auto split: if_splits option.splits)
  qed
  then show "\<forall>d \<in> set ds. validateDefinition pr d = None \<and> r0 (dfID d) = None" "distinct (map dfID ds)"
    "r = (\<lambda>x. case find (\<lambda>d. dfID d = x) ds of Some d \<Rightarrow> Some d | None \<Rightarrow> r0 x)"
    by auto
qed

lemma NewRegistry_ok:
  assumes "NewRegistry pr c = Inr r"
  shows "\<forall>d \<in> set (cfAdapters c). validateDefinition pr d = None" "distinct (map dfID (cfAdapters c))"
    "r a = find (\<lambda>d. dfID d = a) (cfAdapters c)"
  using assms addDefinitions_ok [of pr 0 "cfAdapters c" Map.empty r]
  by (auto simp: NewRegistry_def split: if_splits option.splits)

lemma NewRegistry_lookup:
  assumes "NewRegistry pr c = Inr r"
  shows "r a = Some d \<longleftrightarrow> d \<in> set (cfAdapters c) \<and> dfID d = a"
proof
  assume "r a = Some d"
  then show "d \<in> set (cfAdapters c) \<and> dfID d = a"
    unfolding NewRegistry_ok(3) [OF assms] by (auto simp: find_Some_iff)
next
  assume d: "d \<in> set (cfAdapters c) \<and> dfID d = a"
  then show "r a = Some d"
    unfolding NewRegistry_ok(3) [OF assms] using NewRegistry_ok(2) [OF assms] by (intro find_distinct [of dfID]) auto
qed

text \<open>
  Resolution is exact: against an accepted configuration a launch decision is returned if and
  only if the configuration has an adapter with this identifier and, among its profiles, this
  combination of sandbox and credential profile, and it is the one configured there; an adapter
  is reported missing exactly when no adapter has the identifier. Every decision starts an
  absolute executable and names a credential mode if and only if it names a credential profile.
\<close>

theorem resolve_exact:
  assumes "NewRegistry pr c = Inr r"
  shows "(Resolve r a s cp = Inr rt \<longleftrightarrow>
      (\<exists>d \<in> set (cfAdapters c). \<exists>p \<in> set (dfProfiles d).
         dfID d = a \<and> pfSandboxProfile p = s \<and> pfCredentialProfile p = cp \<and> rt = runtimeOf d p)) \<and>
    (Resolve r a s cp = Inl ErrAdapterNotFound \<longleftrightarrow> a \<notin> dfID ` set (cfAdapters c)) \<and>
    (Resolve r a s cp = Inr rt \<longrightarrow>
      hasPrefix (hd (rnCommand rt)) ''/'' \<and> rnCommand rt \<noteq> [] \<and>
      (rnCredentialProfile rt = [] \<longleftrightarrow> rnCredentialMode rt = CredentialNone))"
proof -
  let ?P = "\<lambda>p. pfSandboxProfile p = s \<and> pfCredentialProfile p = cp"
  note lookup = NewRegistry_lookup [OF assms]
  have valid: "\<forall>p \<in> set (dfProfiles d). validateProfile p = None" "distinct (map profileKey (dfProfiles d))"
    if "r a = Some d" for d
    using that lookup NewRegistry_ok(1) [OF assms] validateDefinition_None(2,3) by blast+
  have found: "Resolve r a s cp = Inr rt \<longleftrightarrow> (\<exists>d p. r a = Some d \<and> p \<in> set (dfProfiles d) \<and> ?P p \<and> rt = runtimeOf d p)"
  proof
    assume "Resolve r a s cp = Inr rt"
    then show "\<exists>d p. r a = Some d \<and> p \<in> set (dfProfiles d) \<and> ?P p \<and> rt = runtimeOf d p"
      by (auto simp: Resolve_def dest!: find_SomeD split: option.splits)
  next
    assume "\<exists>d p. r a = Some d \<and> p \<in> set (dfProfiles d) \<and> ?P p \<and> rt = runtimeOf d p"
    then obtain d p where d: "r a = Some d" "p \<in> set (dfProfiles d)" "?P p" "rt = runtimeOf d p" by blast
    then have "find ?P (dfProfiles d) = Some p"
      using valid [OF d(1)] by (intro find_distinct [of profileKey]) (auto simp: profileKey_def)
    then show "Resolve r a s cp = Inr rt" using d by (simp add: Resolve_def)
  qed
  have "ErrProfileNotFound \<noteq> ErrAdapterNotFound" by (simp add: ErrProfileNotFound_def ErrAdapterNotFound_def)
  then have "Resolve r a s cp = Inl ErrAdapterNotFound \<longleftrightarrow> r a = None"
    by (auto simp: Resolve_def split: option.splits)
  moreover have "r a = None \<longleftrightarrow> a \<notin> dfID ` set (cfAdapters c)" proof -
    have "r a = None \<longleftrightarrow> (\<forall>d. r a \<noteq> Some d)" by simp
    then show ?thesis unfolding lookup by blast
  qed
  ultimately have missing: "Resolve r a s cp = Inl ErrAdapterNotFound \<longleftrightarrow> a \<notin> dfID ` set (cfAdapters c)" by simp
  have good: "hasPrefix (hd (rnCommand rt)) ''/'' \<and> rnCommand rt \<noteq> [] \<and>
      (rnCredentialProfile rt = [] \<longleftrightarrow> rnCredentialMode rt = CredentialNone)" if "Resolve r a s cp = Inr rt"
  proof -
    from that found obtain d p where d: "r a = Some d" "p \<in> set (dfProfiles d)" "rt = runtimeOf d p" by blast
    then have "validateProfile p = None" using valid(1) by blast
    from validProfile(3,4) [OF this] d(3) show ?thesis by (simp add: runtimeOf_def validCommand)
  qed
  have "(\<exists>d p. r a = Some d \<and> p \<in> set (dfProfiles d) \<and> ?P p \<and> rt = runtimeOf d p) \<longleftrightarrow>
      (\<exists>d \<in> set (cfAdapters c). \<exists>p \<in> set (dfProfiles d). dfID d = a \<and> ?P p \<and> rt = runtimeOf d p)"
    unfolding lookup by blast
  with found missing good show ?thesis by metis
qed

definition sampleConfig :: Config where
  "sampleConfig = \<lparr>cfVersion = 1, cfAdapters = [\<lparr>dfID = ''shell'', dfDisplayName = ''Shell'', dfVersion = ''1'',
     dfCapabilities = [''interactive''], dfProfiles = [\<lparr>pfSandboxProfile = ''small'', pfCredentialProfile = [],
       pfCredentialMode = ''none'', pfWarmPool = ''pool'', pfCommand = [''/bin/sh''], pfHealthCheck = [''/bin/true'']\<rparr>]\<rparr>]\<rparr>"

lemma sampleConfig_ok: "\<exists>r. NewRegistry (\<lambda>_. True) sampleConfig = Inr r"
proof -
  have plain: "\<not> anyRune isSpace v \<and> \<not> anyRune invalidControlCharacter v" if "v \<in> {''Shell'', ''1'', ''pool''}" for v
    using that by (auto simp: anyRune_def runeList_ascii isSpace_def invalidControlCharacter_def)
  have "validateDefinition (\<lambda>_. True) (hd (cfAdapters sampleConfig)) = None"
    by (simp add: sampleConfig_def validateDefinition_def validIdentifier_def isLower_def isDigit_def
      plain trimSpace_id validCapability_def capabilityNames_def
      validateProfile_def validCredentialMode_def credentialModes_def CredentialNone_def validateCommand_def hasPrefix_def)
  then show ?thesis by (simp add: NewRegistry_def sampleConfig_def)
qed

theorem resolve_exact_witness:
  "\<exists>r rt. NewRegistry (\<lambda>_. True) sampleConfig = Inr r \<and> Resolve r ''shell'' ''small'' [] = Inr rt \<and> rnWarmPool rt = ''pool'' \<and>
     Resolve r ''other'' ''small'' [] = Inl ErrAdapterNotFound"
proof -
  obtain r where r: "NewRegistry (\<lambda>_. True) sampleConfig = Inr r" using sampleConfig_ok by blast
  let ?d = "hd (cfAdapters sampleConfig)"
  have "Resolve r ''shell'' ''small'' [] = Inr (runtimeOf ?d (hd (dfProfiles ?d)))"
    using resolve_exact [OF r, of "''shell''" "''small''" "[]"] by (simp add: sampleConfig_def)
  moreover have "Resolve r ''other'' ''small'' [] = Inl ErrAdapterNotFound"
    using resolve_exact [OF r, of "''other''" "''small''" "[]"] by (simp add: sampleConfig_def)
  ultimately show ?thesis using r by (auto simp: runtimeOf_def sampleConfig_def)
qed

text \<open>
  The public list has every installed adapter exactly once, in strictly increasing order of
  identifiers, whatever order the map is ranged over in.
\<close>

theorem adapters_listed:
  assumes "NewRegistry pr c = Inr r" "enumerates ord r"
  shows "sorted_wrt (<) (map dsID (ListAdapters ord r)) \<and> set (ListAdapters ord r) = describe ` set (cfAdapters c)"
proof -
  note lookup = NewRegistry_lookup [OF assms(1)]
  have ids: "map dsID (map describe (List.map_filter r ord)) = ord"
    if "set ord \<subseteq> dom r" for ord
    using that lookup by (induction ord) (auto simp: List.map_filter_simps describe_def split: option.splits)
  have "mset (map dsID (ListAdapters ord r)) = mset ord"
  proof -
    have "mset (map dsID (ListAdapters ord r)) = mset (map dsID (map describe (List.map_filter r ord)))"
      unfolding ListAdapters_def mset_map mset_sort ..
    also have "\<dots> = mset ord" using ids [of ord] assms(2) by (simp only: enumerates_def)
    finally show ?thesis .
  qed
  then have "distinct (map dsID (ListAdapters ord r))"
    using assms(2) by (metis enumeratesD(1) mset_eq_imp_distinct_iff)
  moreover have "sorted (map dsID (ListAdapters ord r))" by (simp add: ListAdapters_def)
  ultimately have "sorted_wrt (<) (map dsID (ListAdapters ord r))" by (simp add: strict_sorted_iff)
  moreover have "set (List.map_filter r ord) = {d. \<exists>x \<in> set ord. r x = Some d}" for ord
    by (induction ord) (auto simp: List.map_filter_simps split: option.splits)
  then have "set (List.map_filter r ord) = {d. \<exists>x. r x = Some d}"
    using assms(2) by (auto simp: enumerates_def)
  then have "set (ListAdapters ord r) = describe ` set (cfAdapters c)"
    unfolding lookup by (simp add: ListAdapters_def)
  ultimately show ?thesis by blast
qed

theorem adapters_listed_witness:
  "\<exists>r. NewRegistry (\<lambda>_. True) sampleConfig = Inr r \<and> map dsID (ListAdapters [''shell''] r) = [''shell'']"
proof -
  obtain r where r: "NewRegistry (\<lambda>_. True) sampleConfig = Inr r" using sampleConfig_ok by blast
  have "dom r = {''shell''}" using NewRegistry_lookup [OF r] by (auto simp: sampleConfig_def dom_def)
  then have "set (ListAdapters [''shell''] r) = describe ` set (cfAdapters sampleConfig)"
    using adapters_listed [OF r, of "[''shell'']"] by (simp add: enumerates_def)
  moreover have "length (ListAdapters [''shell''] r) \<le> 1"
    by (simp add: ListAdapters_def List.map_filter_simps split: option.splits)
  ultimately show ?thesis using r
    by (cases "ListAdapters [''shell''] r") (auto simp: sampleConfig_def describe_def)
qed

end
