(* ===== verification/Events.thy ===== *)
theory Events
  imports Lifecycle
begin

text \<open>
  The control plane's event bus, \<^verbatim>\<open>internal/lifecycle/events.go\<close>: a bounded history and the
  channels of the subscribers. A channel is its buffer and whether it is closed; channels live
  in a store, the bus holds the addresses of those it still serves. Ranging over the set of
  subscribers treats each on its own, so that its order does not matter. Sending on a closed
  channel panics. The second half puts the operations into a transition system with the
  receivers, and shows that a subscriber sees every event from its cursor on.
\<close>

section \<open>The bus\<close>

record eventChan =
  chBuffer :: "Event list"
  chClosed :: bool

record EventBus =
  ebCapacity :: int
  ebEvents :: "Event list"
  ebSubscribers :: "nat set"
  ebChans :: "nat \<rightharpoonup> eventChan"
  ebNext :: nat

definition chanSize :: nat where "chanSize = 64"

definition NewEventBus :: "int \<Rightarrow> EventBus" where
  "NewEventBus cap =
     \<lparr>ebCapacity = cap, ebEvents = [], ebSubscribers = {}, ebChans = Map.empty, ebNext = 0\<rparr>"

text \<open>Appending to the history; a negative capacity would make the slice expression panic.\<close>

definition remember :: "Event \<Rightarrow> EventBus \<Rightarrow> EventBus" where
  "remember e b =
     (let es = ebEvents b @ [e] in
      b\<lparr>ebEvents := if int (length es) > ebCapacity b then drop (length es - nat (ebCapacity b)) es else es\<rparr>)"

text \<open>The \<open>select\<close> for one subscriber: send, or close the channel when its buffer is full.\<close>

definition offer :: "Event \<Rightarrow> eventChan \<Rightarrow> eventChan" where
  "offer e ch =
     (case try_send chanSize e (chBuffer ch) of
        Some buf \<Rightarrow> ch\<lparr>chBuffer := buf\<rparr>
      | None \<Rightarrow> ch\<lparr>chClosed := True\<rparr>)"

definition hasRoom :: "EventBus \<Rightarrow> nat \<Rightarrow> bool" where
  "hasRoom b c = (case ebChans b c of Some ch \<Rightarrow> length (chBuffer ch) < chanSize | None \<Rightarrow> False)"

definition sendsOnClosed :: "EventBus \<Rightarrow> bool" where
  "sendsOnClosed b = (\<exists>c \<in> ebSubscribers b. case ebChans b c of Some ch \<Rightarrow> chClosed ch | None \<Rightarrow> True)"

definition Publish :: "string \<Rightarrow> Event \<Rightarrow> EventBus \<Rightarrow> EventBus outcome" where
  "Publish fresh e b =
     (if ebCapacity b < 0 \<or> sendsOnClosed b then Panic
      else
        let e' = (if evID e = [] then e\<lparr>evID := fresh\<rparr> else e);
            b1 = remember e' b
        in Ok (b1\<lparr>ebChans := (\<lambda>c. if c \<in> ebSubscribers b then map_option (offer e') (ebChans b c) else ebChans b c),
                  ebSubscribers := Set.filter (hasRoom b) (ebSubscribers b)\<rparr>))"

text \<open>The search for the event after which a subscriber continues.\<close>

fun startAfter :: "string \<Rightarrow> nat \<Rightarrow> Event list \<Rightarrow> nat option" where
  "startAfter afterID i [] = None"
| "startAfter afterID i (e # es) = (if evID e = afterID then Some (i + 1) else startAfter afterID (i + 1) es)"

text \<open>\<open>Subscribe\<close> returns the replay and the new channel, or nothing for an unknown cursor.\<close>

definition Subscribe :: "string \<Rightarrow> string \<Rightarrow> EventBus \<Rightarrow> (Event list \<times> nat) option \<times> EventBus" where
  "Subscribe owner afterID b =
     (case (if afterID = [] then Some 0 else startAfter afterID 0 (ebEvents b)) of
        None \<Rightarrow> (None, b)
      | Some start \<Rightarrow>
         (Some (filter (\<lambda>e. evOwner e = owner) (drop start (ebEvents b)), ebNext b),
          b\<lparr>ebChans := (ebChans b)(ebNext b \<mapsto> \<lparr>chBuffer = [], chClosed = False\<rparr>),
            ebSubscribers := insert (ebNext b) (ebSubscribers b), ebNext := ebNext b + 1\<rparr>))"

text \<open>The function \<open>Subscribe\<close> returns for unsubscribing.\<close>

definition cancelSub :: "nat \<Rightarrow> EventBus \<Rightarrow> EventBus" where
  "cancelSub c b =
     (if c \<in> ebSubscribers b
      then b\<lparr>ebSubscribers := ebSubscribers b - {c},
             ebChans := (ebChans b)(c := map_option (\<lambda>ch. ch\<lparr>chClosed := True\<rparr>) (ebChans b c))\<rparr>
      else b)"

text \<open>The history is a bounded history in the sense of \<open>history_buffer\<close>.\<close>

interpretation history: history_buffer remember ebEvents "\<lambda>b e. e" "\<lambda>n b. 0 \<le> ebCapacity b"
  by unfold_locales (simp_all add: remember_def Let_def suffix_drop del: drop_append suffix_snoc)

section \<open>The bus with its receivers\<close>

text \<open>
  \<open>yLog\<close> is everything published so far, \<open>yGot c\<close> what has been received from channel \<open>c\<close>, and
  \<open>yFrom c\<close> the length of the log when the channel was made.
\<close>

record busSys =
  yBus :: EventBus
  yLog :: "Event list"
  yGot :: "nat \<Rightarrow> Event list"
  yFrom :: "nat \<Rightarrow> nat"

definition busInit :: "int \<Rightarrow> busSys" where
  "busInit cap = \<lparr>yBus = NewEventBus cap, yLog = [], yGot = (\<lambda>_. []), yFrom = (\<lambda>_. 0)\<rparr>"

inductive busStep :: "busSys \<Rightarrow> busSys \<Rightarrow> bool" where
  BPublish: "Publish fresh e (yBus y) = Ok b' \<Longrightarrow>
    busStep y (y\<lparr>yBus := b', yLog := yLog y @ [if evID e = [] then e\<lparr>evID := fresh\<rparr> else e]\<rparr>)"
| BSubscribe: "Subscribe owner after' (yBus y) = (Some (replay, c), b') \<Longrightarrow>
    busStep y (y\<lparr>yBus := b', yFrom := (yFrom y)(c := length (yLog y)), yGot := (yGot y)(c := [])\<rparr>)"
| BCancel: "busStep y (y\<lparr>yBus := cancelSub c (yBus y)\<rparr>)"
| BReceive: "ebChans (yBus y) c = Some ch \<Longrightarrow> chBuffer ch = e # es \<Longrightarrow>
    busStep y (y\<lparr>yBus := (yBus y)\<lparr>ebChans := (ebChans (yBus y))(c \<mapsto> ch\<lparr>chBuffer := es\<rparr>)\<rparr>,
      yGot := (yGot y)(c := yGot y c @ [e])\<rparr>)"

inductive busReach :: "busSys \<Rightarrow> bool" where
  busReach_init: "0 \<le> cap \<Longrightarrow> busReach (busInit cap)"
| busReach_step: "busReach y \<Longrightarrow> busStep y y' \<Longrightarrow> busReach y'"

inductive busSteps :: "busSys \<Rightarrow> busSys \<Rightarrow> bool" where
  busSteps_refl: "busSteps y y"
| busSteps_step: "busSteps y y' \<Longrightarrow> busStep y' y'' \<Longrightarrow> busSteps y y''"

inductive_cases busStepE: "busStep y y'"

text \<open>What a channel has carried: what was received and what is still buffered.\<close>

definition carried :: "busSys \<Rightarrow> nat \<Rightarrow> Event list" where
  "carried y c = yGot y c @ (case ebChans (yBus y) c of Some ch \<Rightarrow> chBuffer ch | None \<Rightarrow> [])"

definition busInv :: "busSys \<Rightarrow> bool" where
  "busInv y \<longleftrightarrow>
     0 \<le> ebCapacity (yBus y) \<and>
     ebEvents (yBus y) = drop (length (yLog y) - nat (ebCapacity (yBus y))) (yLog y) \<and>
     (\<forall>c. ebChans (yBus y) c \<noteq> None \<longrightarrow> c < ebNext (yBus y)) \<and>
     (\<forall>c \<in> ebSubscribers (yBus y). yFrom y c \<le> length (yLog y) \<and> carried y c = drop (yFrom y c) (yLog y) \<and>
        (\<exists>ch. ebChans (yBus y) c = Some ch \<and> \<not> chClosed ch))"

lemma busInv_parts:
  assumes "busInv y"
  shows "0 \<le> ebCapacity (yBus y)" "ebEvents (yBus y) = drop (length (yLog y) - nat (ebCapacity (yBus y))) (yLog y)"
    "\<And>c ch. ebChans (yBus y) c = Some ch \<Longrightarrow> c < ebNext (yBus y)"
    "\<And>c. c \<in> ebSubscribers (yBus y) \<Longrightarrow> yFrom y c \<le> length (yLog y)"
    "\<And>c. c \<in> ebSubscribers (yBus y) \<Longrightarrow> carried y c = drop (yFrom y c) (yLog y)"
    "\<And>c. c \<in> ebSubscribers (yBus y) \<Longrightarrow> \<exists>ch. ebChans (yBus y) c = Some ch \<and> \<not> chClosed ch"
  using assms unfolding busInv_def by blast+

lemma remember_log:
  assumes "0 \<le> ebCapacity b" "ebEvents b = drop (length log - nat (ebCapacity b)) log"
  shows "ebEvents (remember e b) = drop (length (log @ [e]) - nat (ebCapacity b)) (log @ [e])"
proof -
  let ?n = "nat (ebCapacity b)"
  have "ebEvents (remember e b) = drop (length (ebEvents b @ [e]) - ?n) (ebEvents b @ [e])"
    using assms(1) by (auto simp: remember_def Let_def nat_less_iff not_less)
  also have "ebEvents b @ [e] = drop (length log - ?n) (log @ [e])"
    unfolding assms(2) by simp
  finally show ?thesis
  proof -
    assume eq: "ebEvents (remember e b) =
      drop (length (drop (length log - ?n) (log @ [e])) - ?n) (drop (length log - ?n) (log @ [e]))"
    have "length (log @ [e]) - (length log - ?n) - ?n + (length log - ?n) = length (log @ [e]) - ?n" by simp
    then show ?thesis unfolding eq drop_drop length_drop by (rule arg_cong)
  qed
qed

lemma remember_fields [simp]:
  "ebCapacity (remember e b) = ebCapacity b" "ebSubscribers (remember e b) = ebSubscribers b"
  "ebChans (remember e b) = ebChans b" "ebNext (remember e b) = ebNext b"
  by (simp_all add: remember_def Let_def)

lemma publish_inv:
  assumes I: "busInv y" and P: "Publish fresh e (yBus y) = Ok b'"
  shows "busInv (y\<lparr>yBus := b', yLog := yLog y @ [if evID e = [] then e\<lparr>evID := fresh\<rparr> else e]\<rparr>)"
proof -
  define e' where "e' = (if evID e = [] then e\<lparr>evID := fresh\<rparr> else e)"
  note I = busInv_parts [OF I]
  have b': "b' = (remember e' (yBus y))\<lparr>
      ebChans := (\<lambda>c. if c \<in> ebSubscribers (yBus y) then map_option (offer e') (ebChans (yBus y) c) else ebChans (yBus y) c),
      ebSubscribers := Set.filter (hasRoom (yBus y)) (ebSubscribers (yBus y))\<rparr>"
    using P unfolding Publish_def e'_def [symmetric] Let_def by (simp split: if_splits)
  have live: "yFrom y c \<le> length (yLog y @ [e'])"
    "carried (y\<lparr>yBus := b', yLog := yLog y @ [e']\<rparr>) c = drop (yFrom y c) (yLog y @ [e'])"
    "\<exists>ch. ebChans b' c = Some ch \<and> \<not> chClosed ch"
    if "c \<in> ebSubscribers (yBus y)" "hasRoom (yBus y) c" for c
  proof -
    from I(6) [OF that(1)] obtain ch where ch: "ebChans (yBus y) c = Some ch" "\<not> chClosed ch" by blast
    with that have "ebChans b' c = Some (ch\<lparr>chBuffer := chBuffer ch @ [e']\<rparr>)"
      by (simp add: b' offer_def hasRoom_def try_send_def)
    then show "yFrom y c \<le> length (yLog y @ [e'])"
      "carried (y\<lparr>yBus := b', yLog := yLog y @ [e']\<rparr>) c = drop (yFrom y c) (yLog y @ [e'])"
      "\<exists>ch. ebChans b' c = Some ch \<and> \<not> chClosed ch"
      using I(4,5) [OF that(1)] ch by (simp_all add: carried_def)
  qed
  show ?thesis
    unfolding e'_def [symmetric] busInv_def
    using I(1,3) live remember_log [OF I(1,2), of e'] by (auto simp: b' split: if_splits)
qed

lemma subscribe_inv:
  assumes I: "busInv y" and S: "Subscribe owner aft (yBus y) = (Some (replay, c), b')"
  shows "busInv (y\<lparr>yBus := b', yFrom := (yFrom y)(c := length (yLog y)), yGot := (yGot y)(c := [])\<rparr>)"
proof -
  note P = busInv_parts [OF I]
  have c: "c = ebNext (yBus y)" and b': "b' = (yBus y)\<lparr>ebChans := (ebChans (yBus y))(c \<mapsto> \<lparr>chBuffer = [], chClosed = False\<rparr>),
      ebSubscribers := insert c (ebSubscribers (yBus y)), ebNext := c + 1\<rparr>"
    using S by (auto simp: Subscribe_def split: option.splits)
  have "c \<notin> ebSubscribers (yBus y)" using P(3,6) c by fastforce
  then show ?thesis
    using P(1,2,3) P(4,5,6) unfolding busInv_def
    by (auto simp: b' carried_def c less_Suc_eq dest!: P(3))
qed

lemma cancel_inv:
  assumes I: "busInv y"
  shows "busInv (y\<lparr>yBus := cancelSub c (yBus y)\<rparr>)"
  using busInv_parts [OF I] unfolding busInv_def
  by (auto simp: cancelSub_def carried_def split: if_splits)

lemma receive_inv:
  assumes I: "busInv y" and R: "ebChans (yBus y) c = Some ch" "chBuffer ch = e # es"
  shows "busInv (y\<lparr>yBus := (yBus y)\<lparr>ebChans := (ebChans (yBus y))(c \<mapsto> ch\<lparr>chBuffer := es\<rparr>)\<rparr>,
      yGot := (yGot y)(c := yGot y c @ [e])\<rparr>)"
proof -
  note P = busInv_parts [OF I]
  have "carried (y\<lparr>yBus := (yBus y)\<lparr>ebChans := (ebChans (yBus y))(c \<mapsto> ch\<lparr>chBuffer := es\<rparr>)\<rparr>,
      yGot := (yGot y)(c := yGot y c @ [e])\<rparr>) d = carried y d" for d
    using R by (simp add: carried_def)
  moreover have "c \<in> ebSubscribers (yBus y) \<Longrightarrow> \<not> chClosed ch" using P(6) R(1) by fastforce
  ultimately show ?thesis
    using P R unfolding busInv_def by auto
qed

lemma busInit_inv: "0 \<le> cap \<Longrightarrow> busInv (busInit cap)"
  by (simp add: busInv_def busInit_def NewEventBus_def)

lemma busStep_inv: "busStep y y' \<Longrightarrow> busInv y \<Longrightarrow> busInv y'"
  by (cases rule: busStep.cases) (auto intro: publish_inv subscribe_inv cancel_inv receive_inv)

lemma busReach_inv: "busReach y \<Longrightarrow> busInv y"
  by (induction rule: busReach.induct) (auto intro: busInit_inv busStep_inv)

section \<open>Subscribers see every event\<close>

lemma startAfter_Some:
  "startAfter a i es = Some s \<Longrightarrow> \<exists>j < length es. s = Suc (i + j) \<and> evID (es ! j) = a"
proof (induction es arbitrary: i)
  case Nil
  then show ?case by simp
next
  case (Cons e es)
  show ?case
  proof (cases "evID e = a")
    case True
    then show ?thesis using Cons.prems by (intro exI [of _ 0]) simp
  next
    case False
    then obtain j where "j < length es" "s = Suc (Suc i + j)" "evID (es ! j) = a"
      using Cons.IH [of "i + 1"] Cons.prems by auto
    then show ?thesis by (intro exI [of _ "Suc j"]) simp
  qed
qed

lemma busStep_keeps:
  assumes "busStep y y'" "c < ebNext (yBus y)"
  shows "yFrom y' c = yFrom y c \<and> ebNext (yBus y) \<le> ebNext (yBus y') \<and> ebCapacity (yBus y') = ebCapacity (yBus y) \<and>
    prefix (yLog y) (yLog y')"
  using assms
  by (cases rule: busStep.cases)
    (auto simp: Subscribe_def Publish_def cancelSub_def Let_def split: option.splits if_splits)

lemma busSteps_keeps:
  assumes "busSteps y y'" "c < ebNext (yBus y)" "busInv y"
  shows "yFrom y' c = yFrom y c \<and> c < ebNext (yBus y') \<and> prefix (yLog y) (yLog y') \<and> busInv y'"
  using assms
proof (induction rule: busSteps.induct)
  case (busSteps_refl y)
  then show ?case by simp
next
  case (busSteps_step y y' y'')
  then have IH: "yFrom y' c = yFrom y c" "c < ebNext (yBus y')" "prefix (yLog y) (yLog y')" "busInv y'" by blast+
  show ?case
    using busStep_keeps [OF busSteps_step(2) IH(2)] busStep_inv [OF busSteps_step(2) IH(4)] IH
    by (auto intro: prefix_order.trans)
qed

lemma Subscribe_replay:
  assumes I: "busInv y" and S: "Subscribe owner aft (yBus y) = (Some (replay, c), b')"
  obtains k where "k \<le> length (yLog y)" "aft = [] \<longrightarrow> k = length (yLog y) - nat (ebCapacity (yBus y))"
    "aft \<noteq> [] \<longrightarrow> 0 < k \<and> evID (yLog y ! (k - 1)) = aft"
    "replay = filter (\<lambda>e. evOwner e = owner) (drop k (yLog y))"
proof -
  let ?d = "length (yLog y) - nat (ebCapacity (yBus y))" and ?es = "ebEvents (yBus y)"
  have es: "?es = drop ?d (yLog y)" using busInv_parts(2) [OF I] .
  from S obtain s where s: "(if aft = [] then Some 0 else startAfter aft 0 ?es) = Some s"
    and r: "replay = filter (\<lambda>e. evOwner e = owner) (drop s ?es)"
    by (auto simp: Subscribe_def split: option.splits if_splits)
  show thesis
  proof (cases "aft = []")
    case True
    then show ?thesis using that [of ?d] s r es by simp
  next
    case False
    then obtain j where "j < length ?es" "s = Suc j" "evID (?es ! j) = aft"
      using startAfter_Some [of aft 0 ?es s] s by auto
    then show ?thesis using that [of "?d + s"] False r unfolding es by (simp add: add.commute)
  qed
qed

text \<open>What a subscriber was given and what its channel carried continue each other.\<close>

lemma subscription_gapless:
  assumes "busReach y" "Subscribe owner aft (yBus y) = (Some (replay, c), b')"
    "busSteps (y\<lparr>yBus := b', yFrom := (yFrom y)(c := length (yLog y)), yGot := (yGot y)(c := [])\<rparr>) y'"
    "c \<in> ebSubscribers (yBus y')"
  obtains k where "k \<le> length (yLog y)" "aft = [] \<longrightarrow> k = length (yLog y) - nat (ebCapacity (yBus y))"
    "aft \<noteq> [] \<longrightarrow> 0 < k \<and> evID (yLog y ! (k - 1)) = aft"
    "replay = filter (\<lambda>e. evOwner e = owner) (drop k (yLog y))" "drop k (yLog y) @ carried y' c = drop k (yLog y')"
proof -
  let ?y1 = "y\<lparr>yBus := b', yFrom := (yFrom y)(c := length (yLog y)), yGot := (yGot y)(c := [])\<rparr>"
  note I = busReach_inv [OF assms(1)]
  have "c < ebNext b'" using assms(2) by (auto simp: Subscribe_def split: option.splits)
  then have keep: "yFrom y' c = length (yLog y)" "prefix (yLog y) (yLog y')" "busInv y'"
    using busSteps_keeps [OF assms(3), of c] subscribe_inv [OF I assms(2)] by simp_all
  then have got: "carried y' c = drop (length (yLog y)) (yLog y')"
    using busInv_parts(5) assms(4) by simp
  obtain k where k: "k \<le> length (yLog y)" "aft = [] \<longrightarrow> k = length (yLog y) - nat (ebCapacity (yBus y))"
    "aft \<noteq> [] \<longrightarrow> 0 < k \<and> evID (yLog y ! (k - 1)) = aft"
    "replay = filter (\<lambda>e. evOwner e = owner) (drop k (yLog y))"
    by (rule Subscribe_replay [OF I assms(2)])
  from keep(2) obtain more where "yLog y' = yLog y @ more" by (auto elim: prefixE)
  then have "drop k (yLog y) @ carried y' c = drop k (yLog y')" using got k(1) by simp
  then show thesis using that k by blast
qed

text \<open>
  A subscriber misses nothing and sees nothing twice: whatever is published, received or
  cancelled in between, as long as the bus serves its channel, the replay it was given followed by
  its owner's events among what its channel has carried are exactly its owner's events from its
  cursor on: from the event it named, or from the oldest event in the history.
\<close>

theorem event_stream_gapless:
  assumes "busReach y" "Subscribe owner aft (yBus y) = (Some (replay, c), b')"
    "busSteps (y\<lparr>yBus := b', yFrom := (yFrom y)(c := length (yLog y)), yGot := (yGot y)(c := [])\<rparr>) y'"
    "c \<in> ebSubscribers (yBus y')"
  shows "\<exists>k. k \<le> length (yLog y) \<and> (aft = [] \<longrightarrow> k = length (yLog y) - nat (ebCapacity (yBus y))) \<and>
    (aft \<noteq> [] \<longrightarrow> 0 < k \<and> evID (yLog y ! (k - 1)) = aft) \<and>
    replay @ filter (\<lambda>e. evOwner e = owner) (carried y' c) = filter (\<lambda>e. evOwner e = owner) (drop k (yLog y'))"
  by (rule subscription_gapless [OF assms]) (metis filter_append)

text \<open>
  Publishing never panics: in every reachable state no subscriber's channel is closed, and
  the history is exactly the last \<open>capacity\<close> events published; a subscriber that is dropped has a
  full buffer.
\<close>

theorem publish_total:
  assumes "busReach y"
  shows "\<exists>b'. Publish fresh e (yBus y) = Ok b' \<and>
    ebEvents b' = drop (Suc (length (yLog y)) - nat (ebCapacity (yBus y))) (yLog y @ [if evID e = [] then e\<lparr>evID := fresh\<rparr> else e]) \<and>
    (\<forall>c. c \<in> ebSubscribers (yBus y) \<and> c \<notin> ebSubscribers b' \<longrightarrow>
       (\<exists>ch. ebChans b' c = Some ch \<and> chClosed ch \<and> chanSize \<le> length (chBuffer ch)))"
proof -
  note I = busInv_parts [OF busReach_inv [OF assms]]
  define e' where "e' = (if evID e = [] then e\<lparr>evID := fresh\<rparr> else e)"
  have "\<not> sendsOnClosed (yBus y)" using I(6) by (fastforce simp: sendsOnClosed_def split: option.splits)
  with I(1) obtain b' where P: "Publish fresh e (yBus y) = Ok b'" and b': "b' = (remember e' (yBus y))\<lparr>
      ebChans := (\<lambda>c. if c \<in> ebSubscribers (yBus y) then map_option (offer e') (ebChans (yBus y) c) else ebChans (yBus y) c),
      ebSubscribers := Set.filter (hasRoom (yBus y)) (ebSubscribers (yBus y))\<rparr>"
    unfolding Publish_def e'_def [symmetric] Let_def by auto
  have "\<exists>ch. ebChans b' c = Some ch \<and> chClosed ch \<and> chanSize \<le> length (chBuffer ch)"
    if "c \<in> ebSubscribers (yBus y)" "c \<notin> ebSubscribers b'" for c
  proof -
    from I(6) [OF that(1)] obtain ch where ch: "ebChans (yBus y) c = Some ch" by blast
    moreover have "\<not> length (chBuffer ch) < chanSize" using that ch by (auto simp: b' hasRoom_def)
    ultimately have "ebChans b' c = Some (ch\<lparr>chClosed := True\<rparr>)" using that(1) by (simp add: b' offer_def try_send_def)
    then show ?thesis using \<open>\<not> length (chBuffer ch) < chanSize\<close> by simp
  qed
  then show ?thesis
    using P remember_log [OF I(1,2), of e'] unfolding e'_def [symmetric] by (simp add: b')
qed

section \<open>A sample subscription\<close>

definition sampleEvent :: "string \<Rightarrow> Event" where
  "sampleEvent i = \<lparr>evID = i, evType = ''agent.state_changed'', evAgentID = ''a'', evPreviousState = [], evState = StateRunning,
     evOccurredAt = 0, evRequestID = [], evOwner = ''me''\<rparr>"

definition sampleBus :: busSys where
  "sampleBus = busInit 2"

definition sampleSub :: busSys where
  "sampleSub = sampleBus\<lparr>yBus := snd (Subscribe ''me'' [] (yBus sampleBus)),
     yFrom := (yFrom sampleBus)(0 := length (yLog sampleBus)), yGot := (yGot sampleBus)(0 := [])\<rparr>"

definition samplePub :: busSys where
  "samplePub = sampleSub\<lparr>yBus := \<lparr>ebCapacity = 2, ebEvents = [sampleEvent ''e1''], ebSubscribers = {0},
     ebChans = [0 \<mapsto> \<lparr>chBuffer = [sampleEvent ''e1''], chClosed = False\<rparr>], ebNext = 1\<rparr>, yLog := [sampleEvent ''e1'']\<rparr>"

lemmas sample_defs = sampleBus_def sampleSub_def busInit_def NewEventBus_def Subscribe_def

lemma samplePub_step: "busStep sampleSub samplePub"
proof -
  have "evID (sampleEvent ''e1'') \<noteq> []" by (simp add: sampleEvent_def)
  then have "Publish ''x'' (sampleEvent ''e1'') (yBus sampleSub) = Ok (yBus samplePub)"
    by (auto simp: Publish_def Let_def sendsOnClosed_def remember_def samplePub_def sample_defs hasRoom_def offer_def
        try_send_def chanSize_def fun_eq_iff cong: if_cong)
  then have "busStep sampleSub (sampleSub\<lparr>yBus := yBus samplePub, yLog := yLog sampleSub @ [sampleEvent ''e1'']\<rparr>)"
    using BPublish [of "''x''" "sampleEvent ''e1''" sampleSub] by (simp add: sampleEvent_def)
  then show ?thesis by (simp add: samplePub_def sample_defs)
qed

lemma sample_run:
  "busReach sampleBus" "Subscribe ''me'' [] (yBus sampleBus) = (Some ([], 0), snd (Subscribe ''me'' [] (yBus sampleBus)))"
  "busSteps (sampleBus\<lparr>yBus := snd (Subscribe ''me'' [] (yBus sampleBus)),
     yFrom := (yFrom sampleBus)(0 := length (yLog sampleBus)), yGot := (yGot sampleBus)(0 := [])\<rparr>) samplePub"
  "0 \<in> ebSubscribers (yBus samplePub)"
proof -
  show "busReach sampleBus" unfolding sampleBus_def by (rule busReach_init) simp
  show "Subscribe ''me'' [] (yBus sampleBus) = (Some ([], 0), snd (Subscribe ''me'' [] (yBus sampleBus)))" by (simp add: sample_defs)
  show "busSteps (sampleBus\<lparr>yBus := snd (Subscribe ''me'' [] (yBus sampleBus)),
     yFrom := (yFrom sampleBus)(0 := length (yLog sampleBus)), yGot := (yGot sampleBus)(0 := [])\<rparr>) samplePub"
    using busSteps_step [OF busSteps_refl samplePub_step] by (simp add: sampleSub_def)
  show "0 \<in> ebSubscribers (yBus samplePub)" by (simp add: samplePub_def)
qed

theorem event_stream_gapless_witness:
  "filter (\<lambda>e. evOwner e = ''me'') (carried samplePub 0) = [sampleEvent ''e1'']"
  using event_stream_gapless [OF sample_run]
  by (auto simp: samplePub_def sampleSub_def sampleBus_def busInit_def sampleEvent_def)

theorem publish_total_witness:
  "\<exists>b'. Publish ''x'' (sampleEvent ''e1'') (yBus (busInit 2)) = Ok b' \<and> ebEvents b' = [sampleEvent ''e1'']"
  using publish_total [OF busReach_init, of 2 "''x''" "sampleEvent ''e1''"] by (auto simp: busInit_def NewEventBus_def sampleEvent_def)

end
