(* ===== verification/Controller.thy ===== *)
theory Controller
  imports Registry Events
begin

text \<open>
  The work queue of the lifecycle controller, \<^verbatim>\<open>internal/kubernetes/controller.go\<close>: identifiers to
  reconcile go through a channel of 1024 slots to two workers; \<open>pending\<close> and \<open>dirty\<close> make sure that
  an identifier is worked on by one worker at a time and again if it changed meanwhile. Goroutines
  interleave where \<open>mu\<close> is released and at channel operations: between marking an identifier as
  pending and sending it, and while a worker is in \<open>Reconcile\<close> or blocked on sending. The maps
  \<open>pending\<close> and \<open>dirty\<close> only ever hold \<open>true\<close>, they are sets.
\<close>

section \<open>The controller's state and code\<close>

definition queueSize :: nat where "queueSize = 1024"
definition maxRetries :: int where "maxRetries = 5"
definition workerCount :: nat where "workerCount = 2"

record ctl =
  queue :: "string list"
  pendingIDs :: "string set"
  dirtyIDs :: "string set"
  retries :: "string \<Rightarrow> int"

definition NewController :: ctl where
  "NewController = \<lparr>queue = [], pendingIDs = {}, dirtyIDs = {}, retries = (\<lambda>_. 0)\<rparr>"

text \<open>
  \<open>Enqueue\<close> up to the first \<open>Unlock\<close>: whether the caller goes on to send the identifier; and the
  \<open>select\<close> that follows.
\<close>

definition enqueueMark :: "string \<Rightarrow> ctl \<Rightarrow> bool \<times> ctl" where
  "enqueueMark i c =
     (if i = [] then (False, c)
      else if i \<in> pendingIDs c then (False, c\<lparr>dirtyIDs := insert i (dirtyIDs c)\<rparr>)
      else (True, c\<lparr>pendingIDs := insert i (pendingIDs c)\<rparr>))"

definition enqueueSend :: "string \<Rightarrow> ctl \<Rightarrow> ctl" where
  "enqueueSend i c =
     (case try_send queueSize i (queue c) of
        Some q \<Rightarrow> c\<lparr>queue := q\<rparr>
      | None \<Rightarrow> c\<lparr>pendingIDs := pendingIDs c - {i}, dirtyIDs := dirtyIDs c - {i}\<rparr>)"

definition Enqueue :: "string \<Rightarrow> ctl \<Rightarrow> ctl" where
  "Enqueue i c = (let (send, c') = enqueueMark i c in if send then enqueueSend i c' else c')"

text \<open>What a worker does next once \<open>Reconcile\<close> has returned (the critical section of \<open>worker\<close>).\<close>

datatype followUp = Continue | Requeue | RetryAfter duration | MarkExhausted

text \<open>\<open>1 << min(attempt-1, 5)\<close> times 100 ms.\<close>

definition retryDelay :: "int \<Rightarrow> duration" where
  "retryDelay attempt = 2 ^ nat (min (attempt - 1) 5) * 100 * 1000000"

definition workerDone :: "string \<Rightarrow> bool \<Rightarrow> ctl \<Rightarrow> followUp \<times> ctl" where
  "workerDone i ok c =
     (if ok then
        let c1 = c\<lparr>retries := (retries c)(i := 0)\<rparr> in
        if i \<in> dirtyIDs c1 then (Requeue, c1\<lparr>dirtyIDs := dirtyIDs c1 - {i}\<rparr>)
        else (Continue, c1\<lparr>pendingIDs := pendingIDs c1 - {i}\<rparr>)
      else
        let attempt = retries c i + 1;
            c1 = c\<lparr>pendingIDs := pendingIDs c - {i}, dirtyIDs := dirtyIDs c - {i}, retries := (retries c)(i := attempt)\<rparr>
        in (if attempt \<le> maxRetries then RetryAfter (retryDelay attempt) else MarkExhausted, c1))"

text \<open>The delay before a failed watch is started again.\<close>

definition nextBackoff :: "duration \<Rightarrow> duration" where
  "nextBackoff d = (if d < 5 * 1000000000 then d * 2 else d)"

fun backoffAfter :: "nat \<Rightarrow> duration" where
  "backoffAfter 0 = 100 * 1000000"
| "backoffAfter (Suc n) = nextBackoff (backoffAfter n)"

definition resyncAll :: "string list \<Rightarrow> ctl \<Rightarrow> ctl" where
  "resyncAll agents c = fold Enqueue agents c"

section \<open>The goroutines\<close>

datatype workerState = Idle | Reconciling string | Requeueing string

text \<open>
  \<open>kSending\<close> are the callers of \<open>Enqueue\<close> between its two parts, \<open>kTimers\<close> the retries that are
  scheduled. \<open>kOwed\<close> and \<open>kDropped\<close> only record: the identifiers for which \<open>Enqueue\<close> was called since
  a worker last started on them, and those the controller gave up on, because the queue was full
  or the retries were exhausted.
\<close>

record ctlSys =
  kCtl :: ctl
  kWorker :: "nat \<Rightarrow> workerState"
  kSending :: "string list"
  kTimers :: "string list"
  kOwed :: "string set"
  kDropped :: "string set"

definition ctlInit :: ctlSys where
  "ctlInit = \<lparr>kCtl = NewController, kWorker = (\<lambda>_. Idle), kSending = [], kTimers = [], kOwed = {}, kDropped = {}\<rparr>"

inductive ctlStep :: "ctlSys \<Rightarrow> ctlSys \<Rightarrow> bool" where
  KMark: "enqueueMark i (kCtl k) = (send, c') \<Longrightarrow> i \<noteq> [] \<Longrightarrow>
    ctlStep k (k\<lparr>kCtl := c', kSending := (if send then kSending k @ [i] else kSending k), kOwed := insert i (kOwed k),
      kDropped := kDropped k - {i}\<rparr>)"
| KSend: "i \<in> set (kSending k) \<Longrightarrow>
    ctlStep k (k\<lparr>kCtl := enqueueSend i (kCtl k), kSending := remove1 i (kSending k),
      kDropped := (if length (queue (kCtl k)) < queueSize then kDropped k else insert i (kDropped k))\<rparr>)"
| KTake: "w < workerCount \<Longrightarrow> kWorker k w = Idle \<Longrightarrow> queue (kCtl k) = i # q \<Longrightarrow>
    ctlStep k (k\<lparr>kCtl := (kCtl k)\<lparr>queue := q\<rparr>, kWorker := (kWorker k)(w := Reconciling i), kOwed := kOwed k - {i}\<rparr>)"
| KDone: "kWorker k w = Reconciling i \<Longrightarrow> workerDone i ok (kCtl k) = (f, c') \<Longrightarrow>
    ctlStep k (k\<lparr>kCtl := c', kWorker := (kWorker k)(w := if f = Requeue then Requeueing i else Idle),
      kTimers := (case f of RetryAfter d \<Rightarrow> kTimers k @ [i] | _ \<Rightarrow> kTimers k),
      kDropped := (if f = MarkExhausted then insert i (kDropped k) else kDropped k)\<rparr>)"
| KRequeue: "kWorker k w = Requeueing i \<Longrightarrow> length (queue (kCtl k)) < queueSize \<Longrightarrow>
    ctlStep k (k\<lparr>kCtl := (kCtl k)\<lparr>queue := queue (kCtl k) @ [i]\<rparr>, kWorker := (kWorker k)(w := Idle)\<rparr>)"
| KTimer: "i \<in> set (kTimers k) \<Longrightarrow> enqueueMark i (kCtl k) = (send, c') \<Longrightarrow>
    ctlStep k (k\<lparr>kCtl := c', kTimers := remove1 i (kTimers k),
      kSending := (if send then kSending k @ [i] else kSending k), kOwed := insert i (kOwed k),
      kDropped := kDropped k - {i}\<rparr>)"

inductive ctlReach :: "ctlSys \<Rightarrow> bool" where
  ctlReach_init: "ctlReach ctlInit"
| ctlReach_step: "ctlReach k \<Longrightarrow> ctlStep k k' \<Longrightarrow> ctlReach k'"

inductive ctlSteps :: "ctlSys \<Rightarrow> ctlSys \<Rightarrow> bool" where
  ctlSteps_refl: "ctlSteps k k"
| ctlSteps_step: "ctlSteps k k' \<Longrightarrow> ctlStep k' k'' \<Longrightarrow> ctlSteps k k''"

section \<open>One place per identifier\<close>

fun heldBy :: "workerState \<Rightarrow> string list" where
  "heldBy Idle = []"
| "heldBy (Reconciling i) = [i]"
| "heldBy (Requeueing i) = [i]"

text \<open>Every place an identifier can be: in the channel, about to be sent, with a worker.\<close>

definition places :: "ctlSys \<Rightarrow> string list" where
  "places k = queue (kCtl k) @ kSending k @ heldBy (kWorker k 0) @ heldBy (kWorker k 1)"

definition ctlInv :: "ctlSys \<Rightarrow> bool" where
  "ctlInv k \<longleftrightarrow> distinct (places k) \<and> set (places k) = pendingIDs (kCtl k) \<and> dirtyIDs (kCtl k) \<subseteq> pendingIDs (kCtl k) \<and>
     length (queue (kCtl k)) \<le> queueSize \<and> [] \<notin> set (places k) \<and> [] \<notin> set (kTimers k) \<and>
     (\<forall>w. workerCount \<le> w \<longrightarrow> kWorker k w = Idle) \<and>
     (\<forall>i \<in> kOwed k. i \<in> set (queue (kCtl k)) \<or> i \<in> set (kSending k) \<or> i \<in> dirtyIDs (kCtl k) \<or>
        (\<exists>w. kWorker k w = Requeueing i) \<or> i \<in> set (kTimers k) \<or> i \<in> kDropped k)"

lemma ctlInvI:
  assumes "distinct (places k)" "set (places k) = pendingIDs (kCtl k)" "dirtyIDs (kCtl k) \<subseteq> pendingIDs (kCtl k)"
    "length (queue (kCtl k)) \<le> queueSize" "[] \<notin> set (places k)" "[] \<notin> set (kTimers k)"
    "\<And>w. workerCount \<le> w \<Longrightarrow> kWorker k w = Idle"
    "\<And>i. i \<in> kOwed k \<Longrightarrow> i \<in> set (queue (kCtl k)) \<or> i \<in> set (kSending k) \<or> i \<in> dirtyIDs (kCtl k) \<or>
        (\<exists>w. kWorker k w = Requeueing i) \<or> i \<in> set (kTimers k) \<or> i \<in> kDropped k"
  shows "ctlInv k"
  using assms unfolding ctlInv_def by blast

lemma ctlInv_parts:
  assumes "ctlInv k"
  shows "distinct (places k)" "set (places k) = pendingIDs (kCtl k)" "dirtyIDs (kCtl k) \<subseteq> pendingIDs (kCtl k)"
    "length (queue (kCtl k)) \<le> queueSize" "[] \<notin> set (places k)" "[] \<notin> set (kTimers k)"
    "\<And>w. workerCount \<le> w \<Longrightarrow> kWorker k w = Idle"
    "\<And>i. i \<in> kOwed k \<Longrightarrow> i \<in> set (queue (kCtl k)) \<or> i \<in> set (kSending k) \<or> i \<in> dirtyIDs (kCtl k) \<or>
        (\<exists>w. kWorker k w = Requeueing i) \<or> i \<in> set (kTimers k) \<or> i \<in> kDropped k"
  using assms unfolding ctlInv_def by blast+

text \<open>A caller of \<open>Enqueue\<close>, whether a watch, a resync or a timer (\<open>ts\<close> are the timers left).\<close>

lemma mark_inv:
  assumes I: "ctlInv k" and M: "enqueueMark i (kCtl k) = (send, c')" and i: "i \<noteq> []"
    and ts: "set ts \<subseteq> set (kTimers k)" "set (kTimers k) \<subseteq> insert i (set ts)"
  shows "ctlInv (k\<lparr>kCtl := c', kTimers := ts, kSending := (if send then kSending k @ [i] else kSending k),
      kOwed := insert i (kOwed k), kDropped := kDropped k - {i}\<rparr>)" (is "ctlInv ?k")
proof -
  note P = ctlInv_parts [OF I]
  consider "i \<in> pendingIDs (kCtl k)" "\<not> send" "c' = (kCtl k)\<lparr>dirtyIDs := insert i (dirtyIDs (kCtl k))\<rparr>"
    | "i \<notin> pendingIDs (kCtl k)" "send" "c' = (kCtl k)\<lparr>pendingIDs := insert i (pendingIDs (kCtl k))\<rparr>"
    using M i by (auto simp: enqueueMark_def split: if_splits)
  then show ?thesis
  proof cases
    case 1
    then have pl: "places ?k = places k" by (simp add: places_def)
    show ?thesis
    proof (rule ctlInvI)
      show "[] \<notin> set (kTimers ?k)" using P(6) ts by auto
      fix j assume "j \<in> kOwed ?k"
      then show "j \<in> set (queue (kCtl ?k)) \<or> j \<in> set (kSending ?k) \<or> j \<in> dirtyIDs (kCtl ?k) \<or>
          (\<exists>w. kWorker ?k w = Requeueing j) \<or> j \<in> set (kTimers ?k) \<or> j \<in> kDropped ?k"
        using P(8) [of j] 1 ts by auto
    qed (use P pl 1 in auto)
  next
    case 2
    then have new: "i \<notin> set (places k)" using P(2) by simp
    show ?thesis
    proof (rule ctlInvI)
      show "[] \<notin> set (kTimers ?k)" using P(6) ts by auto
      fix j assume "j \<in> kOwed ?k"
      then show "j \<in> set (queue (kCtl ?k)) \<or> j \<in> set (kSending ?k) \<or> j \<in> dirtyIDs (kCtl ?k) \<or>
          (\<exists>w. kWorker ?k w = Requeueing j) \<or> j \<in> set (kTimers ?k) \<or> j \<in> kDropped ?k"
        using P(8) [of j] 2 ts by auto
    qed (use P new 2 i in \<open>auto simp: places_def\<close>)
  qed
qed

lemma send_inv:
  assumes I: "ctlInv k" and i: "i \<in> set (kSending k)"
  shows "ctlInv (k\<lparr>kCtl := enqueueSend i (kCtl k), kSending := remove1 i (kSending k),
      kDropped := (if length (queue (kCtl k)) < queueSize then kDropped k else insert i (kDropped k))\<rparr>)" (is "ctlInv ?k")
proof -
  note P = ctlInv_parts [OF I]
  have d: "distinct (kSending k)" using P(1) by (simp add: places_def)
  then have rm: "set (remove1 i (kSending k)) = set (kSending k) - {i}" "distinct (remove1 i (kSending k))" by simp_all
  show ?thesis
  proof (cases "length (queue (kCtl k)) < queueSize")
    case True
    then have c: "enqueueSend i (kCtl k) = (kCtl k)\<lparr>queue := queue (kCtl k) @ [i]\<rparr>" by (simp add: enqueueSend_def try_send_def)
    show ?thesis
    proof (rule ctlInvI)
      fix j assume "j \<in> kOwed ?k"
      then show "j \<in> set (queue (kCtl ?k)) \<or> j \<in> set (kSending ?k) \<or> j \<in> dirtyIDs (kCtl ?k) \<or>
          (\<exists>w. kWorker ?k w = Requeueing j) \<or> j \<in> set (kTimers ?k) \<or> j \<in> kDropped ?k"
        using P(8) [of j] c rm by auto
    qed (use P c rm True i in \<open>auto simp: places_def\<close>)
  next
    case False
    then have c: "enqueueSend i (kCtl k) = (kCtl k)\<lparr>pendingIDs := pendingIDs (kCtl k) - {i}, dirtyIDs := dirtyIDs (kCtl k) - {i}\<rparr>"
      by (simp add: enqueueSend_def try_send_def)
    show ?thesis
    proof (rule ctlInvI)
      fix j assume "j \<in> kOwed ?k"
      then show "j \<in> set (queue (kCtl ?k)) \<or> j \<in> set (kSending ?k) \<or> j \<in> dirtyIDs (kCtl ?k) \<or>
          (\<exists>w. kWorker ?k w = Requeueing j) \<or> j \<in> set (kTimers ?k) \<or> j \<in> kDropped ?k"
        using P(8) [of j] c rm False by auto
    qed (use P c rm False i in \<open>auto simp: places_def\<close>)
  qed
qed

text \<open>Changing the state of one worker.\<close>

lemma worker01: "w < workerCount \<longleftrightarrow> w = 0 \<or> w = 1"
  by (auto simp: workerCount_def)

lemma busy_worker:
  assumes "ctlInv k" "kWorker k w \<noteq> Idle"
  shows "w = 0 \<or> w = 1"
  using ctlInv_parts(7) [OF assms(1), of w] assms(2) worker01 [of w] by (meson not_less)

lemma other_worker:
  "\<exists>v. g v = Requeueing j \<Longrightarrow> g w \<noteq> Requeueing j \<Longrightarrow> \<exists>v. (g(w := x)) v = Requeueing j"
  by (metis fun_upd_other)

lemma take_inv:
  assumes I: "ctlInv k" and w: "w < workerCount" "kWorker k w = Idle" and q: "queue (kCtl k) = i # q"
  shows "ctlInv (k\<lparr>kCtl := (kCtl k)\<lparr>queue := q\<rparr>, kWorker := (kWorker k)(w := Reconciling i), kOwed := kOwed k - {i}\<rparr>)" (is "ctlInv ?k")
proof -
  note P = ctlInv_parts [OF I]
  have pl: "distinct (places ?k) \<and> set (places ?k) = set (places k)"
    using P(1) w q worker01 [of w] by (auto simp: places_def)
  show ?thesis
  proof (rule ctlInvI)
    fix j assume "j \<in> kOwed ?k"
    then show "j \<in> set (queue (kCtl ?k)) \<or> j \<in> set (kSending ?k) \<or> j \<in> dirtyIDs (kCtl ?k) \<or>
        (\<exists>w. kWorker ?k w = Requeueing j) \<or> j \<in> set (kTimers ?k) \<or> j \<in> kDropped ?k"
      using P(8) [of j] q w other_worker [of "kWorker k" j w] by (auto simp del: fun_upd_apply)
  qed (use P pl q w in auto)
qed

lemma requeue_inv:
  assumes I: "ctlInv k" and w: "kWorker k w = Requeueing i" and q: "length (queue (kCtl k)) < queueSize"
  shows "ctlInv (k\<lparr>kCtl := (kCtl k)\<lparr>queue := queue (kCtl k) @ [i]\<rparr>, kWorker := (kWorker k)(w := Idle)\<rparr>)" (is "ctlInv ?k")
proof -
  note P = ctlInv_parts [OF I]
  have pl: "distinct (places ?k) \<and> set (places ?k) = set (places k)"
    using P(1) w busy_worker [OF I, of w] by (auto simp: places_def)
  show ?thesis
  proof (rule ctlInvI)
    fix j assume "j \<in> kOwed ?k"
    then show "j \<in> set (queue (kCtl ?k)) \<or> j \<in> set (kSending ?k) \<or> j \<in> dirtyIDs (kCtl ?k) \<or>
        (\<exists>w. kWorker ?k w = Requeueing j) \<or> j \<in> set (kTimers ?k) \<or> j \<in> kDropped ?k"
      using P(8) [of j] w other_worker [of "kWorker k" j w] by (cases "j = i") (auto simp del: fun_upd_apply)
  qed (use P pl q w in auto)
qed

lemma done_inv:
  assumes I: "ctlInv k" and w: "kWorker k w = Reconciling i" and D: "workerDone i ok (kCtl k) = (f, c')"
  shows "ctlInv (k\<lparr>kCtl := c', kWorker := (kWorker k)(w := if f = Requeue then Requeueing i else Idle),
      kTimers := (case f of RetryAfter d \<Rightarrow> kTimers k @ [i] | _ \<Rightarrow> kTimers k),
      kDropped := (if f = MarkExhausted then insert i (kDropped k) else kDropped k)\<rparr>)" (is "ctlInv ?k")
proof -
  note P = ctlInv_parts [OF I]
  have w01: "w = 0 \<or> w = 1" using busy_worker [OF I, of w] w by simp
  have i: "i \<in> set (places k)" "i \<noteq> []" using w w01 P(5) by (auto simp: places_def)
  have same: "queue c' = queue (kCtl k)" using D by (auto simp: workerDone_def Let_def split: if_splits)
  have requeue: "f = Requeue \<Longrightarrow> pendingIDs c' = pendingIDs (kCtl k) \<and> dirtyIDs c' = dirtyIDs (kCtl k) - {i}"
    and release: "f \<noteq> Requeue \<Longrightarrow> pendingIDs c' = pendingIDs (kCtl k) - {i} \<and> i \<notin> dirtyIDs c' \<and> dirtyIDs c' = dirtyIDs (kCtl k) - {i}"
    and cont: "f = Continue \<Longrightarrow> i \<notin> dirtyIDs (kCtl k)"
    using D by (auto simp: workerDone_def Let_def split: if_splits)
  have pl: "distinct (places ?k) \<and> set (places ?k) = (if f = Requeue then set (places k) else set (places k) - {i})"
    using P(1) w w01 same by (auto simp: places_def)
  have owed: "j \<in> set (queue (kCtl ?k)) \<or> j \<in> set (kSending ?k) \<or> j \<in> dirtyIDs (kCtl ?k) \<or>
      (\<exists>w. kWorker ?k w = Requeueing j) \<or> j \<in> set (kTimers ?k) \<or> j \<in> kDropped ?k" if "j \<in> kOwed k" for j
  proof (cases "j = i")
    case True
    have "i \<notin> set (queue (kCtl k)) \<and> i \<notin> set (kSending k) \<and> (\<forall>v. kWorker k v \<noteq> Requeueing i)"
    proof -
      have "kWorker k v \<noteq> Requeueing i" for v
        using P(1) w w01 busy_worker [OF I, of v] by (auto simp: places_def)
      then show ?thesis using P(1) w w01 by (auto simp: places_def)
    qed
    then show ?thesis using P(8) [OF that] True cont by (cases f) auto
  next
    case False
    then show ?thesis using P(8) [OF that] same requeue release w by (cases f) (auto, force+)
  qed
  show ?thesis
  proof (rule ctlInvI)
    show "[] \<notin> set (kTimers ?k)" using P(6) i by (cases f) auto
    show "dirtyIDs (kCtl ?k) \<subseteq> pendingIDs (kCtl ?k)" using P(3) requeue release by (cases "f = Requeue") auto
    show "set (places ?k) = pendingIDs (kCtl ?k)" using pl P(2) requeue release by (cases "f = Requeue") auto
    show "kWorker ?k v = Idle" if "workerCount \<le> v" for v using P(7) [OF that] w by auto
  qed (use P pl same owed in \<open>auto split: if_splits\<close>)
qed

lemma ctlInit_inv: "ctlInv ctlInit"
  by (simp add: ctlInv_def ctlInit_def NewController_def places_def)

lemma remove1_timers: "set (remove1 i ts) \<subseteq> set ts" "set ts \<subseteq> insert i (set (remove1 i ts))"
  by (auto simp: set_remove1_subset dest: in_set_remove1 [THEN iffD2])

lemma ctlStep_inv: "ctlStep k k' \<Longrightarrow> ctlInv k \<Longrightarrow> ctlInv k'"
proof (induction rule: ctlStep.induct)
  case (KMark i k send c')
  have "set (kTimers k) \<subseteq> insert i (set (kTimers k))" by blast
  from mark_inv [OF KMark(3,1,2) subset_refl this] show ?case by simp
next
  case (KTimer i k send c')
  then have "i \<noteq> []" using ctlInv_parts(6) by fastforce
  then show ?case using mark_inv [OF KTimer(3,2) _ remove1_timers] KTimer(3) by simp
qed (rule send_inv take_inv requeue_inv done_inv; assumption)+

lemma ctlReach_inv: "ctlReach k \<Longrightarrow> ctlInv k"
  by (induction rule: ctlReach.induct) (auto intro: ctlInit_inv ctlStep_inv)

text \<open>
  C19. Agents are never reconciled twice at the same time: in every reachable state no two workers
  hold the same identifier, an identifier a worker holds is not in the queue as well, the queue
  stays within its 1024 slots, and the identifiers marked as pending are exactly those that are
  queued, about to be queued or with a worker.
\<close>

theorem reconcile_exclusive:
  assumes "ctlReach k"
  shows "(\<forall>v w i. i \<in> set (heldBy (kWorker k v)) \<and> i \<in> set (heldBy (kWorker k w)) \<longrightarrow> v = w) \<and>
    (\<forall>w. set (heldBy (kWorker k w)) \<inter> set (queue (kCtl k)) = {}) \<and> distinct (queue (kCtl k)) \<and>
    length (queue (kCtl k)) \<le> queueSize \<and> pendingIDs (kCtl k) = set (places k)"
proof -
  note I = ctlReach_inv [OF assms]
  note P = ctlInv_parts [OF I]
  have held: "v \<in> {0, 1}" if "i \<in> set (heldBy (kWorker k v))" for v i
    using that busy_worker [OF I, of v] by (cases "kWorker k v") auto
  have "v = w" if "i \<in> set (heldBy (kWorker k v))" "i \<in> set (heldBy (kWorker k w))" for v w i
    using that held [of i v] held [of i w] P(1) by (auto simp: places_def)
  moreover have "set (heldBy (kWorker k w)) \<inter> set (queue (kCtl k)) = {}" for w
    using P(1) held by (fastforce simp: places_def)
  moreover have "distinct (queue (kCtl k))" using P(1) by (simp add: places_def)
  ultimately show ?thesis using P(2,4) by auto
qed

text \<open>
  C20. No wake-up is lost: an identifier for which \<open>Enqueue\<close> was called and which no worker has started
  on since is queued, about to be queued, scheduled for a retry, or with a worker that is going to
  queue it again, unless the controller gave up on it because the queue was full or its retries
  were exhausted.
\<close>

theorem wakeup_not_lost:
  assumes "ctlReach k" "i \<in> kOwed k" "i \<notin> kDropped k"
  shows "i \<in> set (queue (kCtl k)) \<or> i \<in> set (kSending k) \<or> i \<in> set (kTimers k) \<or> (\<exists>w. kWorker k w = Requeueing i) \<or>
    (i \<in> dirtyIDs (kCtl k) \<and> (\<exists>w. kWorker k w = Reconciling i))"
proof -
  note P = ctlInv_parts [OF ctlReach_inv [OF assms(1)]]
  have "i \<in> set (places k)" if "i \<in> dirtyIDs (kCtl k)" using that P(2,3) by blast
  moreover have "i \<in> set (heldBy ws) \<longleftrightarrow> ws = Reconciling i \<or> ws = Requeueing i" for ws by (cases ws) auto
  ultimately show ?thesis using P(8) [OF assms(2)] assms(3) by (fastforce simp: places_def)
qed

section \<open>Runs\<close>

lemma ctlSteps_trans: "ctlSteps k' k'' \<Longrightarrow> ctlSteps k k' \<Longrightarrow> ctlSteps k k''"
  by (induction rule: ctlSteps.induct) (auto intro: ctlSteps_step)

lemma ctlSteps_reach: "ctlSteps k k' \<Longrightarrow> ctlReach k \<Longrightarrow> ctlReach k'"
  by (induction rule: ctlSteps.induct) (auto intro: ctlReach_step)

text \<open>Filling the queue with new identifiers.\<close>

lemma fill_queue:
  assumes "distinct is" "[] \<notin> set is" "set is \<inter> pendingIDs (kCtl k) = {}" "length (queue (kCtl k)) + length is \<le> queueSize"
  shows "\<exists>k'. ctlSteps k k' \<and> queue (kCtl k') = queue (kCtl k) @ is \<and> kWorker k' = kWorker k \<and>
    pendingIDs (kCtl k') = pendingIDs (kCtl k) \<union> set is \<and> dirtyIDs (kCtl k') = dirtyIDs (kCtl k)"
  using assms
proof (induction "is" arbitrary: k)
  case Nil
  then show ?case using ctlSteps_refl by auto
next
  case (Cons i "is")
  let ?c1 = "(kCtl k)\<lparr>pendingIDs := insert i (pendingIDs (kCtl k))\<rparr>"
  have "enqueueMark i (kCtl k) = (True, ?c1)" "i \<noteq> []" using Cons.prems by (auto simp: enqueueMark_def)
  from KMark [OF this] have 1: "ctlStep k (k\<lparr>kCtl := ?c1, kSending := kSending k @ [i], kOwed := insert i (kOwed k),
      kDropped := kDropped k - {i}\<rparr>)" (is "ctlStep k ?k1") by simp
  let ?k2 = "?k1\<lparr>kCtl := ?c1\<lparr>queue := queue (kCtl k) @ [i]\<rparr>, kSending := remove1 i (kSending k @ [i]),
      kDropped := kDropped ?k1\<rparr>"
  have "enqueueSend i ?c1 = ?c1\<lparr>queue := queue (kCtl k) @ [i]\<rparr>" "length (queue (kCtl k)) < queueSize"
    using Cons.prems(4) by (simp_all add: enqueueSend_def try_send_def)
  then have 2: "ctlStep ?k1 ?k2" using KSend [of i ?k1] by simp
  have "\<exists>k'. ctlSteps ?k2 k' \<and> queue (kCtl k') = queue (kCtl ?k2) @ is \<and> kWorker k' = kWorker ?k2 \<and>
      pendingIDs (kCtl k') = pendingIDs (kCtl ?k2) \<union> set is \<and> dirtyIDs (kCtl k') = dirtyIDs (kCtl ?k2)"
    using Cons.prems by (intro Cons.IH) auto
  then obtain k' where "ctlSteps ?k2 k'" "queue (kCtl k') = queue (kCtl ?k2) @ is" "kWorker k' = kWorker ?k2"
      "pendingIDs (kCtl k') = pendingIDs (kCtl ?k2) \<union> set is" "dirtyIDs (kCtl k') = dirtyIDs (kCtl ?k2)" by blast
  moreover have "ctlSteps k ?k2" by (rule ctlSteps_step [OF ctlSteps_step [OF ctlSteps_refl 1] 2])
  ultimately show ?case using ctlSteps_trans by (intro exI [of _ k']) simp
qed

definition blocked :: "ctlSys \<Rightarrow> bool" where
  "blocked k \<longleftrightarrow> (\<forall>w < workerCount. \<exists>i. kWorker k w = Requeueing i) \<and> length (queue (kCtl k)) = queueSize"

lemma blocked_step:
  assumes "ctlStep k k'" "blocked k" "ctlInv k"
  shows "blocked k'"
  using assms
proof (induction rule: ctlStep.induct)
  case (KDone k w i ok f c')
  then have "w < workerCount" using ctlInv_parts(7) [OF KDone(4), of w] by (metis not_less workerState.distinct(1))
  then show ?case using KDone by (auto simp: blocked_def)
qed (auto simp: blocked_def enqueueMark_def enqueueSend_def try_send_def split: if_splits)

lemma blocked_steps: "ctlSteps k k' \<Longrightarrow> blocked k \<Longrightarrow> ctlInv k \<Longrightarrow> blocked k' \<and> ctlInv k'"
  by (induction rule: ctlSteps.induct) (auto intro: blocked_step ctlStep_inv)

text \<open>Identifiers for the sample run, and the run into the blocked state.\<close>

definition sampleID :: "nat \<Rightarrow> string" where
  "sampleID n = replicate (Suc n) (CHR ''x'')"

lemma sampleID_simps [simp]: "sampleID m = sampleID n \<longleftrightarrow> m = n" "sampleID n \<noteq> []"
  by (auto simp: sampleID_def dest: arg_cong [of _ _ length])

lemma done_dirty:
  assumes "kWorker k w = Reconciling i" "i \<in> dirtyIDs (kCtl k)"
  shows "\<exists>k'. ctlStep k k' \<and> kWorker k' = (kWorker k)(w := Requeueing i) \<and> queue (kCtl k') = queue (kCtl k) \<and>
    dirtyIDs (kCtl k') = dirtyIDs (kCtl k) - {i}"
proof -
  let ?c = "(kCtl k)\<lparr>retries := (retries (kCtl k))(i := 0), dirtyIDs := dirtyIDs (kCtl k) - {i}\<rparr>"
  have "workerDone i True (kCtl k) = (Requeue, ?c)" using assms(2) by (simp add: workerDone_def)
  from KDone [OF assms(1) this] show ?thesis by (intro exI conjI) (assumption, simp_all)
qed

lemma mark_dirty:
  assumes "i \<in> pendingIDs (kCtl k)" "i \<noteq> []"
  shows "\<exists>k'. ctlStep k k' \<and> kWorker k' = kWorker k \<and> queue (kCtl k') = queue (kCtl k) \<and>
    pendingIDs (kCtl k') = pendingIDs (kCtl k) \<and> dirtyIDs (kCtl k') = insert i (dirtyIDs (kCtl k))"
proof -
  have "enqueueMark i (kCtl k) = (False, (kCtl k)\<lparr>dirtyIDs := insert i (dirtyIDs (kCtl k))\<rparr>)"
    using assms by (simp add: enqueueMark_def)
  from KMark [OF this assms(2)] show ?thesis by (intro exI conjI) (assumption, simp_all)
qed

lemma take_step:
  assumes "w < workerCount" "kWorker k w = Idle" "queue (kCtl k) = i # q"
  shows "\<exists>k'. ctlStep k k' \<and> kWorker k' = (kWorker k)(w := Reconciling i) \<and> queue (kCtl k') = q \<and>
    pendingIDs (kCtl k') = pendingIDs (kCtl k) \<and> dirtyIDs (kCtl k') = dirtyIDs (kCtl k)"
  using KTake [OF assms] by (intro exI conjI) (assumption, simp_all)

lemma reach_blocked: "\<exists>k. ctlReach k \<and> blocked k"
proof -
  let ?a = "sampleID 0" and ?b = "sampleID 1"
  define js where "js = map sampleID (map (\<lambda>n. n + 2) [0..<queueSize])"
  have js: "distinct js" "[] \<notin> set js" "?a \<notin> set js" "?b \<notin> set js" "length js = queueSize"
    by (auto simp: js_def distinct_map inj_on_def image_iff) (simp add: sampleID_def)
  have "\<exists>k'. ctlSteps ctlInit k' \<and> queue (kCtl k') = queue (kCtl ctlInit) @ [?a, ?b] \<and> kWorker k' = kWorker ctlInit \<and>
      pendingIDs (kCtl k') = pendingIDs (kCtl ctlInit) \<union> set [?a, ?b] \<and> dirtyIDs (kCtl k') = dirtyIDs (kCtl ctlInit)"
    by (rule fill_queue) (simp_all add: ctlInit_def NewController_def queueSize_def sampleID_def)
  then obtain k1 where 1: "ctlSteps ctlInit k1" "queue (kCtl k1) = [?a, ?b]" "kWorker k1 = (\<lambda>_. Idle)"
    "pendingIDs (kCtl k1) = {?a, ?b}" by (auto simp: ctlInit_def NewController_def)
  obtain k2 where 2: "ctlStep k1 k2" "kWorker k2 = (\<lambda>_. Idle)(0 := Reconciling ?a)" "queue (kCtl k2) = [?b]"
    "pendingIDs (kCtl k2) = {?a, ?b}"
    using take_step [of 0 k1 ?a "[?b]"] 1 by (auto simp: workerCount_def)
  obtain k3 where 3: "ctlStep k2 k3" "kWorker k3 = (\<lambda>_. Idle)(0 := Reconciling ?a, 1 := Reconciling ?b)" "queue (kCtl k3) = []"
    "pendingIDs (kCtl k3) = {?a, ?b}"
    using take_step [of 1 k2 ?b "[]"] 2 by (auto simp: workerCount_def)
  have "\<exists>k'. ctlSteps k3 k' \<and> queue (kCtl k') = queue (kCtl k3) @ js \<and> kWorker k' = kWorker k3 \<and>
      pendingIDs (kCtl k') = pendingIDs (kCtl k3) \<union> set js \<and> dirtyIDs (kCtl k') = dirtyIDs (kCtl k3)"
    using 3 js by (intro fill_queue) auto
  then obtain k4 where 4: "ctlSteps k3 k4" "queue (kCtl k4) = js" "kWorker k4 = kWorker k3"
    "?a \<in> pendingIDs (kCtl k4)" "?b \<in> pendingIDs (kCtl k4)" using 3 by auto
  obtain k5 where 5: "ctlStep k4 k5" "queue (kCtl k5) = js" "kWorker k5 = kWorker k3" "?b \<in> pendingIDs (kCtl k5)"
    "?a \<in> dirtyIDs (kCtl k5)" using mark_dirty [OF 4(4)] 4 by auto
  obtain k6 where 6: "ctlStep k5 k6" "queue (kCtl k6) = js" "kWorker k6 = kWorker k3" "?a \<in> dirtyIDs (kCtl k6)"
    "?b \<in> dirtyIDs (kCtl k6)" using mark_dirty [OF 5(4)] 5 by auto
  obtain k7 where 7: "ctlStep k6 k7" "queue (kCtl k7) = js" "kWorker k7 = (kWorker k3)(0 := Requeueing ?a)" "?b \<in> dirtyIDs (kCtl k7)"
    using done_dirty [of k6 0 ?a] 6 3(2) by auto
  obtain k8 where 8: "ctlStep k7 k8" "queue (kCtl k8) = js" "kWorker k8 = (kWorker k3)(0 := Requeueing ?a, 1 := Requeueing ?b)"
    using done_dirty [of k7 1 ?b] 7 3(2) by auto
  have "ctlReach k4"
    using ctlSteps_reach [OF 4(1)] ctlReach_step [OF ctlReach_step [OF ctlSteps_reach [OF 1(1) ctlReach_init] 2(1)] 3(1)] .
  then have "ctlReach k8" using 5(1) 6(1) 7(1) 8(1) ctlReach_step by blast
  moreover have "blocked k8" using 8 js(5) by (auto simp: blocked_def workerCount_def less_2_cases_iff)
  ultimately show ?thesis by blast
qed

text \<open>
  C21. The workers can block each other for ever: a worker whose agent changed while it was being
  reconciled sends the identifier back into the channel and waits for a free slot. With 1024 other
  identifiers queued and both workers in this place nobody is left to receive, and whatever happens
  afterwards no agent is reconciled again.
\<close>

theorem workers_can_block:
  "\<exists>k. ctlReach k \<and> (\<forall>k'. ctlSteps k k' \<longrightarrow>
     (\<forall>w < workerCount. \<exists>i. kWorker k' w = Requeueing i) \<and> length (queue (kCtl k')) = queueSize)"
proof -
  obtain k where "ctlReach k" "blocked k" using reach_blocked by blast
  then show ?thesis using blocked_steps ctlReach_inv by (auto simp: blocked_def intro!: exI [of _ k])
qed

theorem workers_can_block_witness:
  "\<exists>k i j. ctlReach k \<and> kWorker k 0 = Requeueing i \<and> kWorker k 1 = Requeueing j \<and> length (queue (kCtl k)) = queueSize"
proof -
  obtain k where k: "ctlReach k" "\<And>k'. ctlSteps k k' \<Longrightarrow>
     (\<forall>w < workerCount. \<exists>i. kWorker k' w = Requeueing i) \<and> length (queue (kCtl k')) = queueSize"
    using workers_can_block by blast
  from k(2) [OF ctlSteps_refl] have "\<exists>i. kWorker k 0 = Requeueing i" "\<exists>j. kWorker k 1 = Requeueing j" "length (queue (kCtl k)) = queueSize"
    by (simp_all add: workerCount_def)
  then show ?thesis using k(1) by blast
qed

section \<open>Retries\<close>

lemma failures_count: "retries (((\<lambda>c. snd (workerDone i False c)) ^^ n) c) i = retries c i + int n"
  by (induction n) (simp_all add: workerDone_def Let_def)

lemma backoff_values: "backoffAfter n = (if n \<le> 6 then 2 ^ n * (100 * 1000000) else 6400 * 1000000)"
proof (induction n)
  case (Suc n)
  consider "n < 6" | "n = 6" | "n > 6" by linarith
  then show ?case
  proof cases
    case 1
    then have "(2 :: int) ^ n \<le> 2 ^ 5" by (intro power_increasing) auto
    then show ?thesis using Suc 1 by (simp add: nextBackoff_def)
  next
    case 2
    have "backoffAfter (Suc n) = nextBackoff (6400 * 1000000)" unfolding backoffAfter.simps(2) Suc using 2 by simp
    then show ?thesis using 2 by (simp add: nextBackoff_def)
  qed (use Suc in \<open>simp add: nextBackoff_def\<close>)
qed simp

text \<open>
  Failures are retried five times with a doubling delay from 100 ms to 1.6 s: counted from the
  last success, the first five failures in a row schedule a retry, every later one reports the
  agent as failed instead, and a success starts the count again. A watch that keeps failing is
  started again after a delay that doubles from 100 ms and never exceeds 6.4 s.
\<close>

theorem retry_schedule:
  assumes "retries c i = 0"
  shows "fst (workerDone i False (((\<lambda>c. snd (workerDone i False c)) ^^ n) c)) =
      (if n < 5 then RetryAfter (2 ^ n * 100 * 1000000) else MarkExhausted) \<and>
    retries (snd (workerDone i True c')) i = 0 \<and>
    100 * 1000000 \<le> backoffAfter n \<and> backoffAfter n \<le> 6400 * 1000000"
proof -
  have "fst (workerDone i False (((\<lambda>c. snd (workerDone i False c)) ^^ n) c)) =
      (if n < 5 then RetryAfter (2 ^ n * 100 * 1000000) else MarkExhausted)"
    using failures_count [where i = i and n = n and c = c] assms by (auto simp: workerDone_def Let_def maxRetries_def retryDelay_def min_def)
  moreover have "retries (snd (workerDone i True c')) i = 0" by (simp add: workerDone_def Let_def)
  moreover have "(1 :: int) \<le> 2 ^ n" by simp
  moreover have "(2 :: int) ^ n \<le> 2 ^ 6" if "n \<le> 6" using that by (intro power_increasing) auto
  ultimately show ?thesis by (auto simp: backoff_values)
qed

theorem retry_schedule_witness:
  "fst (workerDone ''a'' False (((\<lambda>c. snd (workerDone ''a'' False c)) ^^ 4) NewController)) = RetryAfter 1600000000"
  using retry_schedule [of NewController "''a''" 4] by (simp add: NewController_def)

text \<open>A state in which an agent changes while it is being reconciled.\<close>

definition sampleCtl :: ctlSys where
  "sampleCtl = \<lparr>kCtl = \<lparr>queue = [], pendingIDs = {''a''}, dirtyIDs = {''a''}, retries = (\<lambda>_. 0)\<rparr>,
     kWorker = (\<lambda>_. Idle)(0 := Reconciling ''a''), kSending = [], kTimers = [], kOwed = {''a''}, kDropped = {}\<rparr>"

lemma sampleCtl_reach: "ctlReach sampleCtl"
proof -
  let ?k1 = "ctlInit\<lparr>kCtl := NewController\<lparr>pendingIDs := {''a''}\<rparr>, kSending := [''a''], kOwed := {''a''}\<rparr>"
  let ?k2 = "?k1\<lparr>kCtl := NewController\<lparr>pendingIDs := {''a''}, queue := [''a'']\<rparr>, kSending := []\<rparr>"
  let ?k3 = "?k2\<lparr>kCtl := NewController\<lparr>pendingIDs := {''a''}\<rparr>, kWorker := (\<lambda>_. Idle)(0 := Reconciling ''a''), kOwed := {}\<rparr>"
  have "ctlStep ctlInit ?k1"
    using KMark [of "''a''" ctlInit True "NewController\<lparr>pendingIDs := {''a''}\<rparr>"] by (simp add: ctlInit_def NewController_def enqueueMark_def)
  moreover have "ctlStep ?k1 ?k2"
    using KSend [of "''a''" ?k1] by (simp add: ctlInit_def NewController_def enqueueSend_def try_send_def queueSize_def)
  moreover have "ctlStep ?k2 ?k3"
    using KTake [of 0 ?k2 "''a''" "[]"] by (simp add: ctlInit_def NewController_def workerCount_def)
  moreover have "ctlStep ?k3 sampleCtl"
    using KMark [of "''a''" ?k3 False "NewController\<lparr>pendingIDs := {''a''}, dirtyIDs := {''a''}\<rparr>"]
    by (simp add: ctlInit_def NewController_def enqueueMark_def sampleCtl_def)
  ultimately show ?thesis by (meson ctlReach.intros)
qed

theorem reconcile_exclusive_witness: "pendingIDs (kCtl sampleCtl) = set (places sampleCtl)"
  using reconcile_exclusive [OF sampleCtl_reach] by blast

theorem wakeup_not_lost_witness:
  "''a'' \<in> dirtyIDs (kCtl sampleCtl) \<and> (\<exists>w. kWorker sampleCtl w = Reconciling ''a'')"
  using wakeup_not_lost [OF sampleCtl_reach, of "''a''"] by (auto simp: sampleCtl_def split: if_splits)

end
