(* ===== verification/Reconciler.thy ===== *)
theory Reconciler
  imports Repository Controller
begin

text \<open>
  The reconciler, \<^verbatim>\<open>internal/kubernetes/reconciler.go\<close>: what one pass over an agent reads from and
  writes to the API server, for the three desired states; and the parts of \<^verbatim>\<open>controller.go\<close> that
  talk to the API server. Logging is left out.
\<close>

section \<open>Configuration and labels\<close>

definition StorageScopeLabel :: string where "StorageScopeLabel = ''sandherd.dev/storage-scope''"
definition RuntimeGenerationAnnotation :: string where "RuntimeGenerationAnnotation = ''sandherd.dev/runtime-generation''"
definition AdapterIDAnnotation :: string where "AdapterIDAnnotation = ''sandherd.dev/adapter-id''"
definition AdapterVersionAnnotation :: string where "AdapterVersionAnnotation = ''sandherd.dev/adapter-version''"

record Reconciler =
  rcNamespace :: string
  rcAdapters :: Registry
  rcStorageProfiles :: "string \<rightharpoonup> string"
  rcSecretProfiles :: "string \<rightharpoonup> string"
  rcEvents :: bool
  rcProvisionTimeout :: duration

definition NewReconciler :: "string \<Rightarrow> Registry \<Rightarrow> bool \<Rightarrow> Reconciler" where
  "NewReconciler ns adapters events =
     \<lparr>rcNamespace = ns, rcAdapters = adapters, rcStorageProfiles = [''default'' \<mapsto> []], rcSecretProfiles = Map.empty,
      rcEvents = events, rcProvisionTimeout = 10 * 60 * 1000000000\<rparr>"

definition ConfigureWorkspaceProfiles ::
  "(string \<rightharpoonup> string) option \<Rightarrow> (string \<rightharpoonup> string) option \<Rightarrow> Reconciler \<Rightarrow> Reconciler" where
  "ConfigureWorkspaceProfiles storage secrets R =
     (let R1 = (case storage of Some m \<Rightarrow> R\<lparr>rcStorageProfiles := m\<rparr> | None \<Rightarrow> R)
      in case secrets of Some m \<Rightarrow> R1\<lparr>rcSecretProfiles := m\<rparr> | None \<Rightarrow> R1)"

section \<open>Reading the status of objects\<close>

definition conditionTrue :: "json \<Rightarrow> string \<Rightarrow> bool" where
  "conditionTrue obj ty =
     list_ex (\<lambda>c. member ''type'' c = Some (JStr ty) \<and> member ''status'' c = Some (JStr ''True''))
       (nestedSlice [''status'', ''conditions''] obj)"

definition failedCondition :: "json \<Rightarrow> (string \<times> string) option" where
  "failedCondition obj =
     (let text = (\<lambda>k c. case member k c of Some (JStr s) \<Rightarrow> s | _ \<Rightarrow> []) in
      map_option (\<lambda>c. (text ''reason'' c, text ''message'' c))
        (find (\<lambda>c. member ''status'' c = Some (JStr ''False'') \<and>
            (sublist ''fail'' (toLower (text ''reason'' c)) \<or> sublist ''error'' (toLower (text ''reason'' c))))
          (nestedSlice [''status'', ''conditions''] obj)))"

definition bootstrapReason :: "int \<Rightarrow> string \<times> string" where
  "bootstrapReason code =
     (if code = 20 then (''bootstrap_invalid'', ''workspace bootstrap configuration is invalid'')
      else if code = 21 then (''workspace_unsafe'', ''workspace bootstrap rejected an unsafe workspace'')
      else if code = 22 then (''repository_auth_failed'', ''repository authentication failed'')
      else if code = 23 then (''repository_bootstrap_failed'', ''repository bootstrap failed'')
      else if code = 24 then (''workspace_full'', ''the workspace is full'')
      else if code = 25 then (''bootstrap_timeout'', ''repository bootstrap timed out'')
      else (''bootstrap_failed'', ''workspace bootstrap failed''))"

fun firstFailure :: "json list \<Rightarrow> (string \<times> string) option" where
  "firstFailure [] = None"
| "firstFailure (st # rest) =
     (if member ''name'' st \<noteq> Some (JStr ''workspace-bootstrap'') then firstFailure rest
      else case nestedInt64 [''state'', ''terminated'', ''exitCode''] st of
        None \<Rightarrow> firstFailure rest
      | Some code \<Rightarrow> if code = 0 then firstFailure rest else Some (bootstrapReason code))"

definition bootstrapFailure :: "json \<Rightarrow> (string \<times> string) option" where
  "bootstrapFailure pod = firstFailure (nestedSlice [''status'', ''initContainerStatuses''] pod)"

section \<open>Claims\<close>

definition stringsJson :: "string list \<Rightarrow> json" where
  "stringsJson xs = (if xs = [] then JNull else JArr (map JStr xs))"

definition CommandJSON :: "codec \<Rightarrow> Runtime \<Rightarrow> string" where
  "CommandJSON cd rt = cdPrint cd (stringsJson (rnCommand rt))"

definition HealthCheckJSON :: "codec \<Rightarrow> Runtime \<Rightarrow> string" where
  "HealthCheckJSON cd rt = cdPrint cd (stringsJson (rnHealthCheck rt))"

definition mergeMaps :: "(string \<times> json) list \<Rightarrow> (string \<times> json) list \<Rightarrow> (string \<times> json) list" where
  "mergeMaps xs ys = fold (\<lambda>(k, v) m. putMember k v m) ys xs"

definition envEntry :: "string \<Rightarrow> string \<Rightarrow> string \<Rightarrow> json" where
  "envEntry name value container =
     JObj [(''name'', JStr name), (''value'', JStr value), (''containerName'', JStr container)]"

definition sandboxClaimForRuntime ::
  "codec \<Rightarrow> Agent \<Rightarrow> string \<Rightarrow> string \<Rightarrow> string \<Rightarrow> Runtime \<Rightarrow> json" where
  "sandboxClaimForRuntime cd a ns pool storageClass rt =
     (let labels = [(ManagedLabel, JStr ''true''), (AgentIDLabel, JStr (agID a)), (OwnerHashLabel, JStr (ownerHash cd (agOwner a)))];
          environment =
            [envEntry ''SANDHERD_AGENT_ID'' (agID a) ''runner'',
             envEntry ''SANDHERD_ADAPTER_ID'' (rnAdapterID rt) ''workspace-bootstrap'',
             envEntry ''SANDHERD_ADAPTER_ID'' (rnAdapterID rt) ''runner'',
             envEntry ''SANDHERD_ADAPTER_VERSION'' (rnAdapterVersion rt) ''runner'',
             envEntry ''SANDHERD_AGENT_COMMAND_JSON'' (CommandJSON cd rt) ''runner'',
             envEntry ''SANDHERD_AGENT_HEALTH_CHECK_JSON'' (HealthCheckJSON cd rt) ''runner''] @
            (case spRepository (agSpec a) of
               None \<Rightarrow> []
             | Some rep \<Rightarrow>
                 [envEntry ''SANDHERD_REPOSITORY_URL'' (repURL rep) ''workspace-bootstrap'',
                  envEntry ''SANDHERD_REPOSITORY_REVISION'' (repRevision rep) ''workspace-bootstrap'']);
          volumeSpec =
            [(''accessModes'', JArr [JStr ''ReadWriteOnce'']),
             (''resources'', JObj [(''requests'', JObj [(''storage'', JStr (wsSize (spWorkspace (agSpec a))))])])] @
            omitEmpty ''storageClassName'' storageClass
      in JObj
        [(''apiVersion'', JStr ''extensions.agents.x-k8s.io/v1beta1''), (''kind'', JStr ''SandboxClaim''),
         (''metadata'', JObj
           [(''name'', JStr (claimName (agID a))), (''namespace'', JStr ns), (''labels'', JObj labels),
            (''annotations'', JObj
              [(RuntimeGenerationAnnotation, JStr (formatInt (agRuntimeGeneration a))),
               (AdapterIDAnnotation, JStr (rnAdapterID rt)), (AdapterVersionAnnotation, JStr (rnAdapterVersion rt))])]),
         (''spec'', JObj
           [(''warmPoolRef'', JObj [(''name'', JStr pool)]),
            (''lifecycle'', JObj [(''shutdownPolicy'', JStr ''DeleteForeground'')]),
            (''additionalPodMetadata'', JObj [(''labels'', JObj labels)]),
            (''env'', JArr environment),
            (''volumeClaimTemplates'', JArr [JObj
              [(''metadata'', JObj [(''name'', JStr ''workspace''),
                 (''labels'', JObj (mergeMaps labels [(StorageScopeLabel, JStr ''workspace'')]))]),
               (''spec'', JObj volumeSpec)]])])])"

definition sandboxClaimWithStorage :: "codec \<Rightarrow> Agent \<Rightarrow> string \<Rightarrow> string \<Rightarrow> string \<Rightarrow> json" where
  "sandboxClaimWithStorage cd a ns pool storageClass =
     sandboxClaimForRuntime cd a ns pool storageClass
       \<lparr>rnAdapterID = spKind (agSpec a), rnAdapterVersion = ''test'', rnSandboxProfile = spSandboxProfile (agSpec a),
        rnCredentialProfile = spCredentialProfile (agSpec a), rnCredentialMode = CredentialNone, rnWarmPool = pool,
        rnCommand = [''/bin/bash'', ''--noprofile'', ''--norc''], rnHealthCheck = [''/bin/bash'', ''--version'']\<rparr>"

definition sandboxClaim :: "codec \<Rightarrow> Agent \<Rightarrow> string \<Rightarrow> string \<Rightarrow> json" where
  "sandboxClaim cd a ns pool = sandboxClaimWithStorage cd a ns pool []"

definition claimMatchesRuntime :: "json \<Rightarrow> Agent \<Rightarrow> Runtime \<Rightarrow> string \<Rightarrow> bool" where
  "claimMatchesRuntime claim a rt pool =
     (nestedString [''spec'', ''warmPoolRef'', ''name''] claim = pool \<and>
      objAnnotation claim RuntimeGenerationAnnotation = formatInt (agRuntimeGeneration a) \<and>
      objAnnotation claim AdapterIDAnnotation = rnAdapterID rt \<and>
      objAnnotation claim AdapterVersionAnnotation = rnAdapterVersion rt)"

section \<open>Steps of a pass\<close>

definition stateEvent :: "Agent \<Rightarrow> State \<Rightarrow> time \<Rightarrow> string \<Rightarrow> Event" where
  "stateEvent a st now owner =
     \<lparr>evID = [], evType = ''agent.state_changed'', evAgentID = agID a, evPreviousState = stState (agStatus a), evState = st,
      evOccurredAt = now, evRequestID = [], evOwner = owner\<rparr>"

definition nextStatus :: "Agent \<Rightarrow> State \<Rightarrow> string \<Rightarrow> string \<Rightarrow> time \<Rightarrow> AgentStatus" where
  "nextStatus a st reason message now =
     (let s = (agStatus a)\<lparr>stState := st, stObservedGeneration := agGeneration a, stReason := reason, stMessage := message,
            stLastTransitionAt := Some now\<rparr>;
          s1 = (if st = StateRunning \<and> stReadyAt s = None then s\<lparr>stReadyAt := Some now\<rparr> else s)
      in if st = StateStopped then s1\<lparr>stStoppedAt := Some now\<rparr> else s1)"

definition transition ::
  "'w kube \<Rightarrow> codec \<Rightarrow> Reconciler \<Rightarrow> Agent \<Rightarrow> State \<Rightarrow> string \<Rightarrow> string \<Rightarrow> ('w, kerror option) kprog" where
  "transition K cd R a st reason message =
     (if stState (agStatus a) = st \<and> stReason (agStatus a) = reason \<and> stMessage (agStatus a) = message \<and>
         stObservedGeneration (agStatus a) = agGeneration a
      then ret None
      else do {
        now \<leftarrow> kNow K;
        r \<leftarrow> SetStatus K cd (agID a) (nextStatus a st reason message now);
        case r of
          Inl e \<Rightarrow> ret (Some e)
        | Inr updated \<Rightarrow>
            if stState (agStatus a) \<noteq> st \<and> rcEvents R
            then do { _ \<leftarrow> kPublish (stateEvent a st now (agOwner updated)); ret None }
            else ret None })"

definition patchOperatingMode :: "'w kube \<Rightarrow> string \<Rightarrow> string \<Rightarrow> ('w, kerror option) kprog" where
  "patchOperatingMode K name mode = do {
     r \<leftarrow> kPatch K SandboxGVR name (JObj [(''spec'', JObj [(''operatingMode'', JStr mode)])]);
     ret (case r of Inl e \<Rightarrow> Some (kubeErr e) | Inr _ \<Rightarrow> None) }"

text \<open>The loop of \<open>retainPVCs\<close>: each volume claim loses its owner.\<close>

definition disown :: "json \<Rightarrow> json" where
  "disown pvc = removeNested [''metadata'', ''ownerReferences''] pvc"

fun disownAll :: "'w kube \<Rightarrow> json list \<Rightarrow> ('w, kerror option) kprog" where
  "disownAll K [] = ret None"
| "disownAll K (pvc # pvcs) = do {
     r \<leftarrow> kUpdate K PVCGVR (disown pvc);
     case r of Inl e \<Rightarrow> ret (Some (kubeErr e)) | Inr _ \<Rightarrow> disownAll K pvcs }"

definition retainPVCs :: "'w kube \<Rightarrow> string \<Rightarrow> ('w, kerror option) kprog" where
  "retainPVCs K i = do {
     r \<leftarrow> kList K PVCGVR (AgentIDLabel @ ''='' @ i);
     case r of Inl e \<Rightarrow> ret (Some (kubeErr e)) | Inr pvcs \<Rightarrow> disownAll K pvcs }"

section \<open>Running\<close>

text \<open>The launch decision of an agent, or the failure to report.\<close>

definition launchPlan :: "Reconciler \<Rightarrow> Agent \<Rightarrow> (string \<times> string) + goerror + (Runtime \<times> string \<times> string)" where
  "launchPlan R a =
     (case Resolve (rcAdapters R) (spKind (agSpec a)) (spSandboxProfile (agSpec a)) (spCredentialProfile (agSpec a)) of
        Inl e \<Rightarrow>
          if e = ErrAdapterNotFound then Inl (''adapter_not_found'', ''the requested agent adapter is not installed'')
          else if e = ErrProfileNotFound then Inl (''adapter_profile_not_found'', ''the requested adapter profile is not installed'')
          else Inr (Inl e)
      | Inr rt \<Rightarrow>
         (case (if spSecretProfile (agSpec a) = [] then Some (rnWarmPool rt) else rcSecretProfiles R (spSecretProfile (agSpec a))) of
            None \<Rightarrow> Inl (''secret_profile_not_found'', ''the repository secret profile is not approved'')
          | Some pool \<Rightarrow>
             (case rcStorageProfiles R (wsStorageProfile (spWorkspace (agSpec a))) of
                None \<Rightarrow> Inl (''storage_profile_not_found'', ''the workspace storage profile is not approved'')
              | Some storageClass \<Rightarrow> Inr (Inr (rt, pool, storageClass)))))"

definition createClaim ::
  "'w kube \<Rightarrow> codec \<Rightarrow> Reconciler \<Rightarrow> Agent \<Rightarrow> Runtime \<Rightarrow> string \<Rightarrow> string \<Rightarrow> ('w, kerror option) kprog" where
  "createClaim K cd R a rt pool storageClass = do {
     c \<leftarrow> kCreate K SandboxClaimGVR (sandboxClaimForRuntime cd a (rcNamespace R) pool storageClass rt);
     case c of
       Inl e \<Rightarrow> if isAlreadyExists e
          then transition K cd R a StateProvisioning ''sandbox_claim_created'' ''the sandbox claim is provisioning''
          else ret (Some (kubeErr e))
     | Inr _ \<Rightarrow> transition K cd R a StateProvisioning ''sandbox_claim_created'' ''the sandbox claim is provisioning'' }"

text \<open>No claim: while the runtime is being replaced the old sandbox goes first.\<close>

definition claimAbsent ::
  "'w kube \<Rightarrow> codec \<Rightarrow> Reconciler \<Rightarrow> Agent \<Rightarrow> Runtime \<Rightarrow> string \<Rightarrow> string \<Rightarrow> ('w, kerror option) kprog" where
  "claimAbsent K cd R a rt pool storageClass =
     (if stState (agStatus a) = StateReconfiguring then do {
        old \<leftarrow> kGet K SandboxGVR (claimName (agID a));
        case old of
          Inr sandbox \<Rightarrow> do {
            d \<leftarrow> kDelete K SandboxGVR (objName sandbox) Orphan;
            if (case d of Some e \<Rightarrow> \<not> isNotFound e | None \<Rightarrow> False)
            then ret (map_option kubeErr d)
            else transition K cd R a StateReconfiguring ''adapter_preserving_workspace''
              ''the previous sandbox is releasing the durable workspace'' }
        | Inl e \<Rightarrow>
            if isNotFound e then createClaim K cd R a rt pool storageClass else ret (Some (kubeErr e)) }
      else createClaim K cd R a rt pool storageClass)"

definition replacedSandbox :: "Agent \<Rightarrow> json \<Rightarrow> string" where
  "replacedSandbox a claim =
     (let assigned = nestedString [''status'', ''sandbox'', ''name''] claim in if assigned = [] then claimName (agID a) else assigned)"

definition reconcileRuntimeReplacement ::
  "'w kube \<Rightarrow> codec \<Rightarrow> Reconciler \<Rightarrow> Agent \<Rightarrow> json \<Rightarrow> ('w, kerror option) kprog" where
  "reconcileRuntimeReplacement K cd R a claim =
     (if cdParseTime cd (nestedString [''metadata'', ''deletionTimestamp''] claim) \<noteq> None
      then transition K cd R a StateReconfiguring ''adapter_rebinding'' ''the previous runtime sandbox is being removed''
      else do {
        let name = replacedSandbox a claim;
        sb \<leftarrow> kGet K SandboxGVR name;
        let release = do {
          d \<leftarrow> kDelete K SandboxClaimGVR (objName claim) Orphan;
          if (case d of Some e \<Rightarrow> \<not> isNotFound e | None \<Rightarrow> False)
          then ret (map_option kubeErr d)
          else transition K cd R a StateReconfiguring ''adapter_rebinding'' ''the previous runtime claim is releasing its sandbox'' };
        case sb of
          Inl e \<Rightarrow> if isNotFound e then release else ret (Some (kubeErr e))
        | Inr sandbox \<Rightarrow>
            if conditionTrue sandbox ''Suspended'' then release
            else do {
              p \<leftarrow> (if nestedString [''spec'', ''operatingMode''] sandbox \<noteq> ''Suspended''
                   then patchOperatingMode K name ''Suspended'' else ret None);
              case p of
                Some e \<Rightarrow> ret (Some e)
              | None \<Rightarrow> transition K cd R a StateReconfiguring ''adapter_draining'' ''the previous adapter runtime is stopping'' } })"

definition reconcilePod ::
  "'w kube \<Rightarrow> codec \<Rightarrow> Reconciler \<Rightarrow> Agent \<Rightarrow> Runtime \<Rightarrow> json \<Rightarrow> string \<Rightarrow> ('w, kerror option) kprog" where
  "reconcilePod K cd R a rt claim sandboxName = do {
     p \<leftarrow> kGet K PodGVR sandboxName;
     case p of
       Inl e \<Rightarrow> if isNotFound e then transition K cd R a StateStarting ''waiting_for_runner'' ''waiting for the runner pod''
         else ret (Some (kubeErr e))
     | Inr pod \<Rightarrow>
        (case bootstrapFailure pod of
           Some f \<Rightarrow> transition K cd R a StateFailed (fst f) (snd f)
         | None \<Rightarrow>
            if nestedString [''status'', ''phase''] pod = ''Failed''
            then transition K cd R a StateFailed ''runner_failed'' ''the runner pod failed''
            else if conditionTrue claim ''Ready'' \<and> conditionTrue pod ''Ready''
            then transition K cd R
              (a\<lparr>agStatus := (agStatus a)\<lparr>stRuntime := Some \<lparr>rtGeneration = agRuntimeGeneration a, rtKind = rnAdapterID rt,
                 rtAdapterVersion = rnAdapterVersion rt\<rparr>\<rparr>\<rparr>) StateRunning [] []
            else transition K cd R a StateStarting ''waiting_for_runner'' ''waiting for runner readiness'') }"

definition claimPresent ::
  "'w kube \<Rightarrow> codec \<Rightarrow> Reconciler \<Rightarrow> Agent \<Rightarrow> Runtime \<Rightarrow> string \<Rightarrow> json \<Rightarrow> ('w, kerror option) kprog" where
  "claimPresent K cd R a rt pool claim =
     (if \<not> claimMatchesRuntime claim a rt pool then reconcileRuntimeReplacement K cd R a claim
      else if failedCondition claim \<noteq> None then transition K cd R a StateFailed ''sandbox_failed'' ''sandbox provisioning failed''
      else
        let name = nestedString [''status'', ''sandbox'', ''name''] claim in
        if name = [] then transition K cd R a StateProvisioning ''waiting_for_sandbox'' ''waiting for a sandbox assignment''
        else do {
          sb \<leftarrow> kGet K SandboxGVR name;
          case sb of
            Inl e \<Rightarrow> if isNotFound e
              then transition K cd R a StateProvisioning ''waiting_for_sandbox'' ''waiting for the assigned sandbox''
              else ret (Some (kubeErr e))
          | Inr sandbox \<Rightarrow>
              if nestedString [''spec'', ''operatingMode''] sandbox = ''Suspended'' then do {
                p \<leftarrow> patchOperatingMode K name ''Running'';
                case p of
                  Some e \<Rightarrow> ret (Some e)
                | None \<Rightarrow> transition K cd R a StateStarting ''sandbox_resuming'' ''the sandbox is resuming'' }
              else reconcilePod K cd R a rt claim name })"

definition timedOut :: "Reconciler \<Rightarrow> Agent \<Rightarrow> time \<Rightarrow> bool" where
  "timedOut R a now =
     ((stState (agStatus a) = StateRequested \<or> stState (agStatus a) = StateProvisioning \<or> stState (agStatus a) = StateStarting) \<and>
      (case stLastTransitionAt (agStatus a) of Some t \<Rightarrow> now - t > rcProvisionTimeout R | None \<Rightarrow> False))"

definition reconcileRunning :: "'w kube \<Rightarrow> codec \<Rightarrow> Reconciler \<Rightarrow> Agent \<Rightarrow> ('w, kerror option) kprog" where
  "reconcileRunning K cd R a = do {
     now \<leftarrow> kNow K;
     if timedOut R a now
     then transition K cd R a StateFailed ''provisioning_timeout'' ''sandbox and runner readiness timed out''
     else case launchPlan R a of
       Inl f \<Rightarrow> transition K cd R a StateFailed (fst f) (snd f)
     | Inr (Inl e) \<Rightarrow> ret (Some (PlainErr e))
     | Inr (Inr plan) \<Rightarrow> do {
         c \<leftarrow> kGet K SandboxClaimGVR (claimName (agID a));
         case c of
           Inl e \<Rightarrow> if isNotFound e then claimAbsent K cd R a (fst plan) (fst (snd plan)) (snd (snd plan))
             else ret (Some (kubeErr e))
         | Inr claim \<Rightarrow> claimPresent K cd R a (fst plan) (fst (snd plan)) claim } }"

section \<open>Stopping and deleting\<close>

definition reconcileStopped :: "'w kube \<Rightarrow> codec \<Rightarrow> Reconciler \<Rightarrow> Agent \<Rightarrow> ('w, kerror option) kprog" where
  "reconcileStopped K cd R a = do {
     c \<leftarrow> kGet K SandboxClaimGVR (claimName (agID a));
     case c of
       Inl e \<Rightarrow> if isNotFound e then transition K cd R a StateStopped [] [] else ret (Some (kubeErr e))
     | Inr claim \<Rightarrow>
        let name = nestedString [''status'', ''sandbox'', ''name''] claim in
        if name = [] then transition K cd R a StateStopped [] []
        else do {
          sb \<leftarrow> kGet K SandboxGVR name;
          case sb of
            Inl e \<Rightarrow> if isNotFound e then transition K cd R a StateStopped [] [] else ret (Some (kubeErr e))
          | Inr sandbox \<Rightarrow>
              if conditionTrue sandbox ''Suspended'' then transition K cd R a StateStopped [] []
              else do {
                p \<leftarrow> (if nestedString [''spec'', ''operatingMode''] sandbox \<noteq> ''Suspended''
                     then patchOperatingMode K name ''Suspended'' else ret None);
                case p of
                  Some e \<Rightarrow> ret (Some e)
                | None \<Rightarrow> transition K cd R a StateStopping ''sandbox_stopping'' ''the sandbox is stopping'' } } }"

definition deletedEvent :: "Agent \<Rightarrow> time \<Rightarrow> Event" where
  "deletedEvent a now =
     \<lparr>evID = [], evType = ''agent.deleted'', evAgentID = agID a, evPreviousState = stState (agStatus a), evState = [],
      evOccurredAt = now, evRequestID = [], evOwner = agOwner a\<rparr>"

definition deleteClaim :: "'w kube \<Rightarrow> codec \<Rightarrow> Reconciler \<Rightarrow> Agent \<Rightarrow> ('w, kerror option) kprog" where
  "deleteClaim K cd R a = do {
     c \<leftarrow> kGet K SandboxClaimGVR (claimName (agID a));
     case c of
       Inr _ \<Rightarrow> do {
         d \<leftarrow> kDelete K SandboxClaimGVR (claimName (agID a)) Foreground;
         if (case d of Some e \<Rightarrow> \<not> isNotFound e | None \<Rightarrow> False)
         then ret (map_option kubeErr d)
         else transition K cd R a StateDeleting ''sandbox_deleting'' ''the sandbox is being deleted'' }
     | Inl e \<Rightarrow>
        if \<not> isNotFound e then ret (Some (kubeErr e))
        else do {
          _ \<leftarrow> (if rcEvents R then do { now \<leftarrow> kNow K; kPublish (deletedEvent a now) } else ret ());
          FinalizeDelete K (agID a) } }"

definition reconcileDelete :: "'w kube \<Rightarrow> codec \<Rightarrow> Reconciler \<Rightarrow> Agent \<Rightarrow> ('w, kerror option) kprog" where
  "reconcileDelete K cd R a =
     (if wsRetentionPolicy (spWorkspace (agSpec a)) = ''retain'' then do {
        r \<leftarrow> retainPVCs K (agID a);
        case r of Some e \<Rightarrow> ret (Some e) | None \<Rightarrow> deleteClaim K cd R a }
      else deleteClaim K cd R a)"

definition isAgentNotFound :: "kerror \<Rightarrow> bool" where
  "isAgentNotFound e = (case e of LErr l \<Rightarrow> leCode l = ''agent_not_found'' | PlainErr _ \<Rightarrow> False)"

definition Reconcile :: "'w kube \<Rightarrow> codec \<Rightarrow> Reconciler \<Rightarrow> string \<Rightarrow> ('w, kerror option) kprog" where
  "Reconcile K cd R i = do {
     r \<leftarrow> GetAny K cd i;
     case r of
       Inl e \<Rightarrow> ret (if isAgentNotFound e then None else Some e)
     | Inr a \<Rightarrow>
        if agDesiredState a = DesiredDeleted then reconcileDelete K cd R a
        else if agDesiredState a = DesiredStopped then reconcileStopped K cd R a
        else reconcileRunning K cd R a }"

section \<open>The controller's own calls\<close>

text \<open>The identifier of a watched object.\<close>

definition watchedID :: "json \<Rightarrow> string" where
  "watchedID obj =
     (let i = objLabel obj AgentIDLabel in if i = [] then nestedString [''spec'', ''id''] obj else i)"

fun deleteOrphans :: "'w kube \<Rightarrow> codec \<Rightarrow> json list \<Rightarrow> ('w, kerror option) kprog" where
  "deleteOrphans K cd [] = ret None"
| "deleteOrphans K cd (claim # claims) =
     (let i = objLabel claim AgentIDLabel in
      if i = [] then deleteOrphans K cd claims
      else do {
        r \<leftarrow> GetAny K cd i;
        if (case r of Inl e \<Rightarrow> isAgentNotFound e | Inr _ \<Rightarrow> False) then do {
          d \<leftarrow> kDelete K SandboxClaimGVR (objName claim) Foreground;
          if (case d of Some e \<Rightarrow> \<not> isNotFound e | None \<Rightarrow> False)
          then ret (map_option kubeErr d)
          else deleteOrphans K cd claims }
        else deleteOrphans K cd claims })"

definition deleteOrphanClaims :: "'w kube \<Rightarrow> codec \<Rightarrow> ('w, kerror option) kprog" where
  "deleteOrphanClaims K cd = do {
     r \<leftarrow> kList K SandboxClaimGVR (ManagedLabel @ ''=true'');
     case r of Inl e \<Rightarrow> ret (Some (kubeErr e)) | Inr claims \<Rightarrow> deleteOrphans K cd claims }"

definition markRetryExhausted :: "'w kube \<Rightarrow> codec \<Rightarrow> Reconciler \<Rightarrow> string \<Rightarrow> ('w, unit) kprog" where
  "markRetryExhausted K cd R i = do {
     r \<leftarrow> GetAny K cd i;
     case r of
       Inl _ \<Rightarrow> ret ()
     | Inr a \<Rightarrow>
        if agDesiredState a = DesiredDeleted then ret ()
        else do {
          now \<leftarrow> kNow K;
          u \<leftarrow> SetStatus K cd i ((agStatus a)\<lparr>stState := StateFailed, stReason := ''reconcile_retries_exhausted'',
            stMessage := ''lifecycle reconciliation exceeded its retry limit'', stObservedGeneration := agGeneration a,
            stLastTransitionAt := Some now\<rparr>);
          case u of
            Inl _ \<Rightarrow> ret ()
          | Inr updated \<Rightarrow> if rcEvents R then kPublish ((stateEvent a StateFailed now (agOwner updated))\<lparr>evAgentID := i\<rparr>) else ret () } }"


section \<open>What a pass may do\<close>

lemma does_GetAny [does_intros]:
  "(\<And>n. P (Call (CGet AgentGVR n))) \<Longrightarrow> does P (GetAny K cd i)"
  unfolding GetAny_def by (intro does_intros)

lemma does_SetStatus [does_intros]:
  "(\<And>n. P (Call (CGet AgentGVR n))) \<Longrightarrow> (\<And>obj. P (Call (CUpdateStatus AgentGVR obj))) \<Longrightarrow> does P (SetStatus K cd i st)"
  unfolding SetStatus_def by (intro does_intros)

text \<open>The calls that every pass may make: reading, the status of the agent, events.\<close>

definition observes :: "(action \<Rightarrow> bool) \<Rightarrow> bool" where
  "observes P \<longleftrightarrow> (\<forall>g n. P (Call (CGet g n))) \<and> (\<forall>obj. P (Call (CUpdateStatus AgentGVR obj))) \<and> (\<forall>e. P (Published e))"

lemma observesD:
  "observes P \<Longrightarrow> P (Call (CGet g n))" "observes P \<Longrightarrow> P (Call (CUpdateStatus AgentGVR obj))" "observes P \<Longrightarrow> P (Published e)"
  by (simp_all add: observes_def)

lemma does_transition [does_intros]:
  assumes "observes P"
  shows "does P (transition K cd R a st reason message)"
  unfolding transition_def by (intro does_intros observesD [OF assms])

lemma does_patchOperatingMode [does_intros]:
  "(\<And>n obj. P (Call (CPatch SandboxGVR n obj))) \<Longrightarrow> does P (patchOperatingMode K name mode)"
  unfolding patchOperatingMode_def by (intro does_intros)

text \<open>
  Calls that leave the workspace volume and the agent alone: deletions are of the claim and the
  sandbox only, without their dependents; no volume claim and no agent is rewritten.
\<close>

fun keepsWorkspace :: "action \<Rightarrow> bool" where
  "keepsWorkspace (Call (CDelete g n pol)) = ((g = SandboxClaimGVR \<or> g = SandboxGVR) \<and> pol = Orphan)"
| "keepsWorkspace (Call (CUpdate g obj)) = False"
| "keepsWorkspace (Call (CUpdateStatus g obj)) = (g = AgentGVR)"
| "keepsWorkspace (Call (CCreate g obj)) = (g = SandboxClaimGVR)"
| "keepsWorkspace (Call (CPatch g n obj)) = (g = SandboxGVR)"
| "keepsWorkspace (Call (CGet g n)) = True"
| "keepsWorkspace (Call (CList g n)) = True"
| "keepsWorkspace (Published e) = True"
| "keepsWorkspace (Enqueued i) = True"
| "keepsWorkspace (Audited attrs) = True"
| "keepsWorkspace (Socket a) = True"
| "keepsWorkspace (Counted c n) = True"

lemma keeps_observes: "observes keepsWorkspace"
  by (simp add: observes_def)

lemma keeps_calls:
  "keepsWorkspace (Call (CGet g n))" "keepsWorkspace (Call (CCreate SandboxClaimGVR obj))"
  "keepsWorkspace (Call (CPatch SandboxGVR n obj))"
  "keepsWorkspace (Call (CDelete SandboxClaimGVR n Orphan))" "keepsWorkspace (Call (CDelete SandboxGVR n Orphan))"
  by simp_all

lemmas keeps_intros = does_intros keeps_observes keeps_calls

lemma createClaim_keeps: "does keepsWorkspace (createClaim K cd R a rt pool sc)"
  unfolding createClaim_def by (intro keeps_intros)

lemma claimAbsent_keeps: "does keepsWorkspace (claimAbsent K cd R a rt pool sc)"
  unfolding claimAbsent_def by (intro keeps_intros createClaim_keeps)

lemma replacement_keeps: "does keepsWorkspace (reconcileRuntimeReplacement K cd R a claim)"
  unfolding reconcileRuntimeReplacement_def Let_def by (intro keeps_intros)

lemma reconcilePod_keeps: "does keepsWorkspace (reconcilePod K cd R a rt claim n)"
  unfolding reconcilePod_def by (intro keeps_intros)

lemma claimPresent_keeps: "does keepsWorkspace (claimPresent K cd R a rt pool claim)"
  unfolding claimPresent_def Let_def by (intro keeps_intros replacement_keeps reconcilePod_keeps)

lemma reconcileRunning_keeps: "does keepsWorkspace (reconcileRunning K cd R a)"
  unfolding reconcileRunning_def by (intro keeps_intros claimAbsent_keeps claimPresent_keeps)

lemma reconcileStopped_keeps: "does keepsWorkspace (reconcileStopped K cd R a)"
  unfolding reconcileStopped_def Let_def by (intro keeps_intros)

lemma agentFromObject_desired:
  "agentFromObject cd now obj = Inr a \<Longrightarrow> agDesiredState a = nestedString [''spec'', ''desiredState''] obj"
  by (auto simp: agentFromObject_def Let_def split: option.splits)


section \<open>Claims and runtimes\<close>

lemma annotation_names:
  "RuntimeGenerationAnnotation \<noteq> AdapterIDAnnotation" "RuntimeGenerationAnnotation \<noteq> AdapterVersionAnnotation"
  "AdapterIDAnnotation \<noteq> AdapterVersionAnnotation"
  by (simp_all add: RuntimeGenerationAnnotation_def AdapterIDAnnotation_def AdapterVersionAnnotation_def)

lemma claim_shape:
  "\<exists>labels rest. sandboxClaimForRuntime cd a ns pool sc rt = JObj
     [(''apiVersion'', JStr ''extensions.agents.x-k8s.io/v1beta1''), (''kind'', JStr ''SandboxClaim''),
      (''metadata'', JObj [(''name'', JStr (claimName (agID a))), (''namespace'', JStr ns), (''labels'', labels),
         (''annotations'', JObj
           [(RuntimeGenerationAnnotation, JStr (formatInt (agRuntimeGeneration a))),
            (AdapterIDAnnotation, JStr (rnAdapterID rt)), (AdapterVersionAnnotation, JStr (rnAdapterVersion rt))])]),
      (''spec'', JObj ((''warmPoolRef'', JObj [(''name'', JStr pool)]) # rest))]"
  unfolding sandboxClaimForRuntime_def Let_def by (rule exI)+ (rule refl)

lemma claim_paths:
  "nestedString [''spec'', ''warmPoolRef'', ''name''] (sandboxClaimForRuntime cd a ns pool sc rt) = pool"
  "objAnnotation (sandboxClaimForRuntime cd a ns pool sc rt) RuntimeGenerationAnnotation = formatInt (agRuntimeGeneration a)"
  "objAnnotation (sandboxClaimForRuntime cd a ns pool sc rt) AdapterIDAnnotation = rnAdapterID rt"
  "objAnnotation (sandboxClaimForRuntime cd a ns pool sc rt) AdapterVersionAnnotation = rnAdapterVersion rt"
proof -
  obtain labels rest where c: "sandboxClaimForRuntime cd a ns pool sc rt = JObj
     [(''apiVersion'', JStr ''extensions.agents.x-k8s.io/v1beta1''), (''kind'', JStr ''SandboxClaim''),
      (''metadata'', JObj [(''name'', JStr (claimName (agID a))), (''namespace'', JStr ns), (''labels'', labels),
         (''annotations'', JObj
           [(RuntimeGenerationAnnotation, JStr (formatInt (agRuntimeGeneration a))),
            (AdapterIDAnnotation, JStr (rnAdapterID rt)), (AdapterVersionAnnotation, JStr (rnAdapterVersion rt))])]),
      (''spec'', JObj ((''warmPoolRef'', JObj [(''name'', JStr pool)]) # rest))]"
    using claim_shape [of cd a ns pool sc rt] by (elim exE)
  show "nestedString [''spec'', ''warmPoolRef'', ''name''] (sandboxClaimForRuntime cd a ns pool sc rt) = pool"
    unfolding c by (simp add: nestedString_def)
  show "objAnnotation (sandboxClaimForRuntime cd a ns pool sc rt) RuntimeGenerationAnnotation = formatInt (agRuntimeGeneration a)"
    "objAnnotation (sandboxClaimForRuntime cd a ns pool sc rt) AdapterIDAnnotation = rnAdapterID rt"
    "objAnnotation (sandboxClaimForRuntime cd a ns pool sc rt) AdapterVersionAnnotation = rnAdapterVersion rt"
    unfolding c by (simp_all add: stringMap_def nestedMap_def annotation_names annotation_names [symmetric])
qed

lemma formatInt_inject: "formatInt i = formatInt j \<longleftrightarrow> i = j"
proof
  assume eq: "formatInt i = formatInt j"
  have "Some i = parseIntLit (min i j) (max i j) (formatInt i)" by (rule parseIntLit_formatInt [symmetric]) simp_all
  also have "\<dots> = Some j" unfolding eq by (rule parseIntLit_formatInt) simp_all
  finally show "i = j" by simp
qed simp

text \<open>
  Matching is exact: a claim made for an agent and a runtime matches that agent and runtime,
  and matches another one only if the pool, the runtime generation, the adapter and its version
  are all the same; so a change of adapter is always noticed and an unchanged one never replaces
  the sandbox.
\<close>

theorem claim_matches_exactly:
  "claimMatchesRuntime (sandboxClaimForRuntime cd a ns pool sc rt) a' rt' pool' \<longleftrightarrow>
     pool = pool' \<and> agRuntimeGeneration a = agRuntimeGeneration a' \<and>
     rnAdapterID rt = rnAdapterID rt' \<and> rnAdapterVersion rt = rnAdapterVersion rt'"
  unfolding claimMatchesRuntime_def claim_paths using formatInt_inject by blast

section \<open>Deleting\<close>

lemma map_of_filter_other: "map_of (filter (\<lambda>m. fst m \<noteq> k) ms) k = None"
  by (induction ms) auto

lemma nested_disown: "nested [''metadata'', ''ownerReferences''] (disown pvc) = None"
proof (cases pvc)
  case (JObj ms)
  show ?thesis
  proof (cases "map_of ms ''metadata''")
    case None
    then show ?thesis by (simp add: disown_def JObj)
  next
    case (Some u)
    then show ?thesis by (cases u) (simp_all add: disown_def JObj map_of_filter_other)
  qed
qed (simp_all add: disown_def)

lemma run_kUpdate: "run_state (kUpdate K g obj) s = (fst (apiUpdate K g obj (world s)),
    s\<lparr>world := snd (apiUpdate K g obj (world s)), actions := actions s @ [Call (CUpdate g obj)]\<rparr>)"
  by (simp add: kUpdate_def effect_def case_prod_beta)

definition disowned :: "json \<Rightarrow> action" where
  "disowned pvc = Call (CUpdate PVCGVR (disown pvc))"

text \<open>The loop either updates every claim and succeeds, or stops at the update that fails.\<close>

lemma disownAll_run:
  assumes "run_state (disownAll K pvcs) s = (r, s')"
  shows "\<exists>n. actions s' = actions s @ map disowned (take n pvcs) \<and> (r = None \<longrightarrow> n = length pvcs)"
  using assms
proof (induction pvcs arbitrary: s)
  case Nil
  then show ?case by simp
next
  case (Cons pvc pvcs)
  let ?s1 = "s\<lparr>world := snd (apiUpdate K PVCGVR (disown pvc) (world s)), actions := actions s @ [Call (CUpdate PVCGVR (disown pvc))]\<rparr>"
  show ?case
  proof (cases "fst (apiUpdate K PVCGVR (disown pvc) (world s))")
    case (Inl e)
    then have "s' = ?s1" "r \<noteq> None" using Cons.prems by (auto simp: run_bind run_kUpdate)
    then show ?thesis by (intro exI [of _ 1]) (auto simp: disowned_def)
  next
    case (Inr u)
    then have "run_state (disownAll K pvcs) ?s1 = (r, s')" using Cons.prems by (simp add: run_bind run_kUpdate)
    from Cons.IH [OF this] obtain n where "actions s' = actions ?s1 @ map disowned (take n pvcs)" "r = None \<longrightarrow> n = length pvcs"
      by (elim exE conjE)
    then show ?thesis by (intro exI [of _ "Suc n"]) (simp add: disowned_def)
  qed
qed

lemma does_FinalizeDelete [does_intros]:
  "(\<And>n. P (Call (CGet AgentGVR n))) \<Longrightarrow> (\<And>obj. P (Call (CUpdate AgentGVR obj))) \<Longrightarrow>
   (\<And>n. P (Call (CDelete AgentGVR n DefaultPropagation))) \<Longrightarrow> does P (FinalizeDelete K i)"
  unfolding FinalizeDelete_def by (intro does_intros)

text \<open>After asking for the claim, a deleting pass either deletes it or finalizes the agent, as the answer says.\<close>

fun deletesClaim :: "string \<Rightarrow> action \<Rightarrow> bool" where
  "deletesClaim n (Call (CDelete g n' pol)) = (g = SandboxClaimGVR \<and> n' = n \<and> pol = Foreground)"
| "deletesClaim n (Call (CUpdateStatus g obj)) = (g = AgentGVR)"
| "deletesClaim n (Call (CGet g n')) = True"
| "deletesClaim n (Published e) = True"
| "deletesClaim n _ = False"

fun finalizes :: "Agent \<Rightarrow> action \<Rightarrow> bool" where
  "finalizes a (Call (CDelete g n pol)) = (g = AgentGVR)"
| "finalizes a (Call (CUpdate g obj)) = (g = AgentGVR)"
| "finalizes a (Call (CGet g n)) = (g = AgentGVR)"
| "finalizes a (Published e) = (evType e = ''agent.deleted'' \<and> evAgentID e = agID a)"
| "finalizes a _ = False"

lemma deleteClaim_run:
  assumes "run_state (deleteClaim K cd R a) s = (r, s')"
  shows "\<exists>as. actions s' = actions s @ Call (CGet SandboxClaimGVR (claimName (agID a))) # as \<and>
    (case fst (apiGet K SandboxClaimGVR (claimName (agID a)) (world s)) of
       Inr claim \<Rightarrow> list_all (deletesClaim (claimName (agID a))) as
     | Inl e \<Rightarrow> if isNotFound e then list_all (finalizes a) as else as = [] \<and> r = Some (kubeErr e))"
proof -
  let ?n = "claimName (agID a)"
  let ?s1 = "s\<lparr>world := snd (apiGet K SandboxClaimGVR ?n (world s)), actions := actions s @ [Call (CGet SandboxClaimGVR ?n)]\<rparr>"
  show ?thesis
  proof (cases "fst (apiGet K SandboxClaimGVR ?n (world s))")
    case (Inr claim)
    let ?m = "State_Monad.bind (kDelete K SandboxClaimGVR ?n Foreground)
      (\<lambda>d. if (case d of Some e \<Rightarrow> \<not> isNotFound e | None \<Rightarrow> False) then ret (map_option kubeErr d)
         else transition K cd R a StateDeleting ''sandbox_deleting'' ''the sandbox is being deleted'')"
    have run: "run_state ?m ?s1 = (r, s')" using assms Inr by (simp add: deleteClaim_def run_bind run_kGet)
    have obs: "observes (deletesClaim ?n)" "deletesClaim ?n (Call (CDelete SandboxClaimGVR ?n Foreground))" by (simp_all add: observes_def)
    have "does (deletesClaim ?n) ?m" by (intro does_intros obs)
    from yields_new [OF this run] obtain as where "actions s' = actions ?s1 @ as" "list_all (deletesClaim ?n) as" by (elim exE conjE)
    then show ?thesis using Inr by (intro exI [of _ as]) simp
  next
    case (Inl e)
    show ?thesis
    proof (cases "isNotFound e")
      case False
      then show ?thesis using assms Inl by (auto simp: deleteClaim_def run_bind run_kGet)
    next
      case True
      let ?m = "State_Monad.bind (if rcEvents R then State_Monad.bind (kNow K) (\<lambda>now. kPublish (deletedEvent a now)) else ret ())
        (\<lambda>_. FinalizeDelete K (agID a))"
      have run: "run_state ?m ?s1 = (r, s')" using assms Inl True by (simp add: deleteClaim_def run_bind run_kGet)
      have fin: "finalizes a (Published (deletedEvent a now))" "finalizes a (Call (CGet AgentGVR n))"
        "finalizes a (Call (CUpdate AgentGVR obj))" "finalizes a (Call (CDelete AgentGVR n DefaultPropagation))" for now n obj
        by (simp_all add: deletedEvent_def)
      have "does (finalizes a) ?m" by (intro does_intros fin)
      from yields_new [OF this run] obtain as where "actions s' = actions ?s1 @ as" "list_all (finalizes a) as" by (elim exE conjE)
      then show ?thesis using Inl True by (intro exI [of _ as]) simp
    qed
  qed
qed


text \<open>
  The agent goes last: a deleting pass that need not retain the workspace asks for the sandbox
  claim first. If it is there, the pass deletes that claim with its dependents and leaves the agent
  in place, changing its status only; if the answer is that there is none, the pass reports the
  deletion and does nothing but finalize the agent; any other answer ends the pass with an error
  and without a write.
\<close>

theorem agent_deleted_last:
  assumes "wsRetentionPolicy (spWorkspace (agSpec a)) \<noteq> ''retain''" "run_state (reconcileDelete K cd R a) s = (r, s')"
  shows "\<exists>as. actions s' = actions s @ Call (CGet SandboxClaimGVR (claimName (agID a))) # as \<and>
    (case fst (apiGet K SandboxClaimGVR (claimName (agID a)) (world s)) of
       Inr claim \<Rightarrow> list_all (deletesClaim (claimName (agID a))) as
     | Inl e \<Rightarrow> if isNotFound e then list_all (finalizes a) as else as = [] \<and> r = Some (kubeErr e))"
proof (rule deleteClaim_run)
  show "run_state (deleteClaim K cd R a) s = (r, s')" using assms by (simp add: reconcileDelete_def)
qed

section \<open>Replacing the runtime\<close>

text \<open>Calls that delete nothing, or nothing but the claim, leaving its sandbox.\<close>

fun drains :: "bool \<Rightarrow> string \<Rightarrow> action \<Rightarrow> bool" where
  "drains gone n (Call (CDelete g n' pol)) = (gone \<and> g = SandboxClaimGVR \<and> n' = n \<and> pol = Orphan)"
| "drains gone n (Call (CUpdateStatus g obj)) = (g = AgentGVR)"
| "drains gone n (Call (CPatch g n' obj)) = (\<not> gone \<and> g = SandboxGVR \<and> obj = JObj [(''spec'', JObj [(''operatingMode'', JStr ''Suspended'')])])"
| "drains gone n (Call (CGet g n')) = True"
| "drains gone n (Published e) = True"
| "drains gone n _ = False"

text \<open>Whether the answer about the old sandbox lets its claim go.\<close>

definition drained :: "apiError + json \<Rightarrow> bool" where
  "drained r = (case r of Inl e \<Rightarrow> isNotFound e | Inr sandbox \<Rightarrow> conditionTrue sandbox ''Suspended'')"

lemma drains_observes: "observes (drains gone n)"
  by (simp add: observes_def)

lemma drains_patch: "does (drains False n) (patchOperatingMode K name ''Suspended'')"
  unfolding patchOperatingMode_def by (intro does_intros) simp

lemma run_kDelete: "run_state (kDelete K g n pol) s = (fst (apiDelete K g n pol (world s)),
    s\<lparr>world := snd (apiDelete K g n pol (world s)), actions := actions s @ [Call (CDelete g n pol)]\<rparr>)"
  by (simp add: kDelete_def effect_def case_prod_beta)

text \<open>
  The old runtime is drained before it is let go: when a claim no longer matches the agent's
  runtime and is not being deleted yet, the pass looks at the sandbox of that claim. Unless the
  sandbox is gone or reports that it is suspended, nothing is deleted and at most its suspension
  is requested; otherwise nothing is requested of it, the claim is deleted in such a way that the
  sandbox stays, and nothing else is.
\<close>

theorem replacement_drains_first:
  assumes "cdParseTime cd (nestedString [''metadata'', ''deletionTimestamp''] claim) = None"
    "run_state (reconcileRuntimeReplacement K cd R a claim) s = (r, s')"
  shows "\<exists>as. actions s' = actions s @ Call (CGet SandboxGVR (replacedSandbox a claim)) # as \<and>
    (if drained (fst (apiGet K SandboxGVR (replacedSandbox a claim) (world s)))
     then (\<exists>rest. as = Call (CDelete SandboxClaimGVR (objName claim) Orphan) # rest \<and> list_all (drains True (objName claim)) rest)
     else list_all (drains False (objName claim)) as)"
proof -
  let ?n = "replacedSandbox a claim"
  let ?s1 = "s\<lparr>world := snd (apiGet K SandboxGVR ?n (world s)), actions := actions s @ [Call (CGet SandboxGVR ?n)]\<rparr>"
  let ?after = "\<lambda>d. if (case d of Some e \<Rightarrow> \<not> isNotFound e | None \<Rightarrow> False) then ret (map_option kubeErr d)
    else transition K cd R a StateReconfiguring ''adapter_rebinding'' ''the previous runtime claim is releasing its sandbox''"
  show ?thesis
  proof (cases "drained (fst (apiGet K SandboxGVR ?n (world s)))")
    case True
    have rel: "run_state (State_Monad.bind (kDelete K SandboxClaimGVR (objName claim) Orphan) ?after) ?s1 = (r, s')"
      using True assms
      by (simp add: reconcileRuntimeReplacement_def Let_def run_bind run_kGet drained_def split: sum.splits)
    obtain d w where d: "run_state (kDelete K SandboxClaimGVR (objName claim) Orphan) ?s1 =
        (d, ?s1\<lparr>world := w, actions := actions ?s1 @ [Call (CDelete SandboxClaimGVR (objName claim) Orphan)]\<rparr>)" (is "_ = (_, ?s2)")
      unfolding run_kDelete by blast
    have after: "does (drains True (objName claim)) (?after d)" by (intro does_intros drains_observes)
    have run: "run_state (?after d) ?s2 = (r, s')" using rel d by (simp add: run_bind)
    from yields_new [OF after run] obtain rest where "actions s' = actions ?s2 @ rest" "list_all (drains True (objName claim)) rest"
      by (elim exE conjE)
    then show ?thesis using True by simp
  next
    case False
    show ?thesis
    proof (cases "fst (apiGet K SandboxGVR ?n (world s))")
      case (Inl e)
      then have "s' = ?s1" using False assms
        by (auto simp: reconcileRuntimeReplacement_def Let_def run_bind run_kGet drained_def)
      then show ?thesis using False by simp
    next
      case (Inr sandbox)
      let ?m = "nestedString [''spec'', ''operatingMode''] sandbox \<noteq> ''Suspended''"
      let ?p = "State_Monad.bind (if ?m then patchOperatingMode K ?n ''Suspended'' else ret None) (\<lambda>p. case p of
          Some e \<Rightarrow> ret (Some e)
        | None \<Rightarrow> transition K cd R a StateReconfiguring ''adapter_draining'' ''the previous adapter runtime is stopping'')"
      have run: "run_state ?p ?s1 = (r, s')" using False assms Inr
        by (simp add: reconcileRuntimeReplacement_def Let_def run_bind run_kGet drained_def)
      have "does (drains False (objName claim)) ?p" by (intro does_intros drains_observes drains_patch)
      from yields_new [OF this run] obtain as where "actions s' = actions ?s1 @ as" "list_all (drains False (objName claim)) as"
        by (elim exE conjE)
      then show ?thesis using False by simp
    qed
  qed
qed

section \<open>Reporting a state\<close>

lemma run_kUpdateStatus: "run_state (kUpdateStatus K g obj) s = (fst (apiUpdateStatus K g obj (world s)),
    s\<lparr>world := snd (apiUpdateStatus K g obj (world s)), actions := actions s @ [Call (CUpdateStatus g obj)]\<rparr>)"
  by (simp add: kUpdateStatus_def effect_def case_prod_beta)

lemma run_kPublish: "run_state (kPublish e) s = ((), s\<lparr>actions := actions s @ [Published e]\<rparr>)"
  by (simp add: kPublish_def effect_def case_prod_beta)

lemma SetStatus_log:
  assumes "run_state (SetStatus K cd i st) s = (r, s')"
  shows "(actions s' = actions s @ [Call (CGet AgentGVR (resourceName i))] \<and> isl r) \<or>
    (\<exists>obj. actions s' = actions s @ [Call (CGet AgentGVR (resourceName i)), Call (CUpdateStatus AgentGVR obj)])"
proof (cases "fst (apiGet K AgentGVR (resourceName i) (world s))")
  case (Inl e)
  then show ?thesis using assms by (auto simp: SetStatus_def run_bind run_kGet)
next
  case (Inr obj)
  then show ?thesis using assms
    by (auto simp: SetStatus_def run_bind run_kGet updateStatusObject_def run_kUpdateStatus run_convert split: option.splits sum.splits)
qed

text \<open>
  Reporting a state: when the agent's status already says so for its generation nothing is
  called; otherwise the agent is read and its status written. An event is published only after
  that write, only if it succeeded, and only when the state is a new one; it carries the old state
  and the new one.
\<close>

theorem transition_reports:
  assumes "run_state (transition K cd R a st reason message) s = (r, s')"
  shows "\<exists>as. actions s' = actions s @ as \<and>
    (as = [] \<longleftrightarrow> stState (agStatus a) = st \<and> stReason (agStatus a) = reason \<and> stMessage (agStatus a) = message \<and>
       stObservedGeneration (agStatus a) = agGeneration a) \<and>
    (as = [] \<longrightarrow> r = None) \<and>
    (\<forall>e. Published e \<in> set as \<longrightarrow> r = None \<and> stState (agStatus a) \<noteq> st \<and> evState e = st \<and> evPreviousState e = stState (agStatus a) \<and>
       (\<exists>obj. as = [Call (CGet AgentGVR (resourceName (agID a))), Call (CUpdateStatus AgentGVR obj), Published e]))"
proof (cases "stState (agStatus a) = st \<and> stReason (agStatus a) = reason \<and> stMessage (agStatus a) = message \<and>
       stObservedGeneration (agStatus a) = agGeneration a")
  case True
  then have "s' = s" "r = None" using assms by (simp_all add: transition_def)
  then show ?thesis using True by simp
next
  case False
  let ?now = "fst (clock K (world s))" and ?s1 = "s\<lparr>world := snd (clock K (world s))\<rparr>"
  obtain u s2 where u: "run_state (SetStatus K cd (agID a) (nextStatus a st reason message ?now)) ?s1 = (u, s2)" by (rule prod.exhaust)
  have rest: "run_state (case u of Inl e \<Rightarrow> ret (Some e)
      | Inr updated \<Rightarrow> if stState (agStatus a) \<noteq> st \<and> rcEvents R
         then State_Monad.bind (kPublish (stateEvent a st ?now (agOwner updated))) (\<lambda>_. ret None) else ret None) s2 = (r, s')"
    using assms False u by (simp add: transition_def run_bind run_kNow)
  show ?thesis
  proof (cases u)
    case (Inl e)
    then have "s' = s2" using rest by simp
    then show ?thesis using SetStatus_log [OF u] False by auto
  next
    case (Inr updated)
    then obtain obj where obj: "actions s2 = actions s @ [Call (CGet AgentGVR (resourceName (agID a))), Call (CUpdateStatus AgentGVR obj)]"
      using SetStatus_log [OF u] by auto
    show ?thesis
    proof (cases "stState (agStatus a) \<noteq> st \<and> rcEvents R")
      case True
      then have "actions s' = actions s2 @ [Published (stateEvent a st ?now (agOwner updated))]" "r = None"
        using rest Inr by (auto simp: run_bind run_kPublish)
      then show ?thesis using obj True by (simp add: stateEvent_def)
    next
      case NoEvent: False
      then have "s' = s2" using rest Inr by (auto split: if_splits)
      then show ?thesis using obj False by auto
    qed
  qed
qed

section \<open>Concrete passes\<close>

definition sampleReconciler :: Reconciler where
  "sampleReconciler = NewReconciler ''ns'' Map.empty True"

definition emptyLog :: "unit kst" where
  "emptyLog = \<lparr>world = (), actions = []\<rparr>"


definition retainedAgent :: Agent where
  "retainedAgent = (sampleAgent ''id'')\<lparr>agSpec := sampleSpec\<lparr>spWorkspace := \<lparr>wsSize = ''1Gi'', wsStorageProfile = [], wsRetentionPolicy = ''retain''\<rparr>\<rparr>\<rparr>"


theorem agent_deleted_last_witness:
  "\<exists>r s' as. run_state (reconcileDelete (constKube [] (Inr (JObj []))) sampleCodec sampleReconciler (sampleAgent ''id'')) emptyLog = (r, s') \<and>
     actions s' = Call (CGet SandboxClaimGVR (claimName ''id'')) # as \<and> list_all (deletesClaim (claimName ''id'')) as"
proof -
  let ?K = "constKube [] (Inr (JObj []))"
  obtain r s' where run: "run_state (reconcileDelete ?K sampleCodec sampleReconciler (sampleAgent ''id'')) emptyLog = (r, s')"
    by (rule prod.exhaust)
  have ret: "wsRetentionPolicy (spWorkspace (agSpec (sampleAgent ''id''))) \<noteq> ''retain''"
    by (simp add: sampleAgent_def sampleSpec_def zeroSpec_def)
  from agent_deleted_last [OF ret run] obtain as where
    "actions s' = Call (CGet SandboxClaimGVR (claimName ''id'')) # as" "list_all (deletesClaim (claimName ''id'')) as"
    by (auto simp: constKube_def emptyLog_def sampleAgent_def)
  then show ?thesis using run by blast
qed

theorem replacement_drains_first_witness:
  "\<exists>r s' as. run_state (reconcileRuntimeReplacement (constKube [] (Inr (JObj []))) sampleCodec sampleReconciler (sampleAgent ''id'') (JObj [])) emptyLog = (r, s') \<and>
     actions s' = Call (CGet SandboxGVR (claimName ''id'')) # as \<and> list_all (drains False []) as"
proof -
  let ?K = "constKube [] (Inr (JObj []))"
  obtain r s' where run: "run_state (reconcileRuntimeReplacement ?K sampleCodec sampleReconciler (sampleAgent ''id'') (JObj [])) emptyLog = (r, s')"
    by (rule prod.exhaust)
  have none: "cdParseTime sampleCodec (nestedString [''metadata'', ''deletionTimestamp''] (JObj [])) = None"
    by (simp add: sampleCodec_def nestedString_def parseIntLit_def allDigits_def)
  have "\<not> drained (fst (apiGet ?K SandboxGVR n (world emptyLog)))" for n
    by (simp add: drained_def constKube_def conditionTrue_def nestedSlice_def)
  moreover have "replacedSandbox (sampleAgent ''id'') (JObj []) = claimName ''id''" "objName (JObj []) = []" "actions emptyLog = []"
    by (simp_all add: replacedSandbox_def nestedString_def sampleAgent_def emptyLog_def)
  ultimately show ?thesis using replacement_drains_first [OF none run] run by simp
qed

theorem transition_reports_witness:
  "\<exists>r s'. run_state (transition (constKube [] (Inr (JObj []))) sampleCodec sampleReconciler (sampleAgent ''id'') StateStopped [] []) emptyLog = (r, s') \<and>
     actions s' \<noteq> []"
proof -
  let ?K = "constKube [] (Inr (JObj []))"
  obtain r s' where run: "run_state (transition ?K sampleCodec sampleReconciler (sampleAgent ''id'') StateStopped [] []) emptyLog = (r, s')"
    by (rule prod.exhaust)
  have "stState (agStatus (sampleAgent ''id'')) \<noteq> StateStopped"
    by (simp add: sampleAgent_def sampleStatus_def StateStopped_def StateRunning_def)
  then show ?thesis using transition_reports [OF run] run by (auto simp: emptyLog_def)
qed

end
