(* ===== verification/ControlPlane.thy ===== *)
theory ControlPlane
  imports Reconciler
begin

text \<open>
  The public API of the control plane, \<^verbatim>\<open>internal/controlplane/server.go\<close>: authentication, the
  handlers, and the stream of events. A handler is a program over the API server that ends in a
  response; logging is left out except for audit records. The arguments of \<open>server\<close> stand for the
  parts the sources take from elsewhere: the authenticator and the terminal gateway, which are
  interfaces in the sources, the readiness function, the parser of Kubernetes quantities, the
  JSON scanner with its error texts, \<open>url.Parse\<close> and \<open>url.PathEscape\<close>.
\<close>

section \<open>Requests and responses\<close>

record apiRequest =
  aqMethod :: string
  aqPath :: string
  aqHeader :: "string \<Rightarrow> string"
  aqQuery :: "string \<Rightarrow> string"
  aqBody :: string

record apiResponse =
  rsStatus :: int
  rsHeaders :: "(string \<times> string) list"
  rsBody :: json

text \<open>A handler answers, leaves the connection to the gateway, or panics.\<close>

datatype reply = Reply apiResponse | Hijacked | Panicked

record 'w server =
  svNamespace :: string
  svAdapters :: Registry
  svAdapterIDs :: "string list"
  svAuthenticate :: "string \<Rightarrow> 'w \<Rightarrow> Principal result \<times> 'w"
  svReady :: "bool option"
  svTerminal :: "(apiRequest \<Rightarrow> string \<Rightarrow> string \<Rightarrow> string \<Rightarrow> bool \<Rightarrow> ('w, kerror option) kprog) option"
  svQuantity :: "string \<Rightarrow> bool"
  svScanner :: scanner
  svJsonError :: "string \<Rightarrow> goerror"
  svURLParse :: urlParser
  svPathEscape :: "string \<Rightarrow> string"

definition writeJSON :: "(string \<times> string) list \<Rightarrow> int \<Rightarrow> json \<Rightarrow> apiResponse" where
  "writeJSON headers status value =
     \<lparr>rsStatus = status, rsHeaders = headers @ [(''Content-Type'', ''application/json'')], rsBody = value\<rparr>"

text \<open>Every response of an authenticated route carries the request identifier. A Go map is printed in the order of its keys.\<close>

definition writeErrorWith :: "(string \<times> string) list \<Rightarrow> string \<Rightarrow> LifecycleError \<Rightarrow> reply" where
  "writeErrorWith headers rid e =
     Reply (writeJSON ((''X-Request-ID'', rid) # headers) (leStatus e)
       (JObj [(''error'', JObj [(''code'', JStr (leCode e)), (''details'', JNull), (''message'', JStr (leMessage e)),
          (''requestId'', JStr rid), (''retryable'', JBool (leRetryable e))])]))"

abbreviation writeError :: "string \<Rightarrow> LifecycleError \<Rightarrow> reply" where
  "writeError \<equiv> writeErrorWith []"

definition internalError :: LifecycleError where
  "internalError = NewError 500 ''internal_error'' ''an internal error occurred''"

definition writeAnyError :: "string \<Rightarrow> kerror \<Rightarrow> reply" where
  "writeAnyError rid e = writeError rid (case e of LErr l \<Rightarrow> l | PlainErr _ \<Rightarrow> internalError)"

definition codeOf :: "kerror \<Rightarrow> string" where
  "codeOf e = (case e of LErr l \<Rightarrow> leCode l | PlainErr _ \<Rightarrow> [])"

definition writeAdapterError :: "string \<Rightarrow> goerror \<Rightarrow> reply" where
  "writeAdapterError rid e =
     (if e = ErrAdapterNotFound
      then writeError rid (NewError 422 ''adapter_not_found'' ''the requested agent adapter is not installed'')
      else if e = ErrProfileNotFound
      then writeError rid (NewError 422 ''adapter_profile_not_found''
        ''the requested adapter, sandbox, and credential profile combination is not installed'')
      else writeAnyError rid (PlainErr e))"

definition agentJson :: "codec \<Rightarrow> Agent \<Rightarrow> json" where
  "agentJson cd a =
     JObj [(''apiVersion'', JStr (agAPIVersion a)), (''id'', JStr (agID a)), (''name'', JStr (agName a)),
       (''owner'', JStr (agOwner a)), (''generation'', JNum (formatInt (agGeneration a))),
       (''runtimeGeneration'', JNum (formatInt (agRuntimeGeneration a))), (''spec'', specJson formatInt (agSpec a)),
       (''status'', statusJson (cd\<lparr>cdFloat := formatInt\<rparr>) (agStatus a)),
       (''createdAt'', JStr (cdTime cd (agCreatedAt a))), (''updatedAt'', JStr (cdTime cd (agUpdatedAt a)))]"

definition agentListJson :: "codec \<Rightarrow> AgentList \<Rightarrow> json" where
  "agentListJson cd l =
     JObj ([(''items'', JArr (map (agentJson cd) (alItems l)))] @ omitEmpty ''nextCursor'' (alNextCursor l))"

definition agentHeaders :: "codec \<Rightarrow> string \<Rightarrow> Agent \<Rightarrow> (string \<times> string) list" where
  "agentHeaders cd rid a = [(''X-Request-ID'', rid), (''ETag'', ETag cd (agResourceVersion a))]"

text \<open>The body is limited to one mebibyte, has one value and no unknown members.\<close>

definition maxBody :: nat where "maxBody = 1024 * 1024"

definition decodeJSON :: "'w server \<Rightarrow> 'a fields \<Rightarrow> 'a \<Rightarrow> string \<Rightarrow> 'a result" where
  "decodeJSON S fs zero body =
     (case (case svScanner S (take maxBody body) of
              None \<Rightarrow> None
            | Some (v, rest) \<Rightarrow> map_option (\<lambda>x. (x, rest)) (decodeStruct True fs v zero)) of
        None \<Rightarrow> Inl (''request body is invalid: '' @ svJsonError S body)
      | Some (x, rest) \<Rightarrow>
          if \<not> atEOF rest \<or> length body > maxBody then Inl ''request body must contain one JSON value'' else Inr x)"

definition createFields :: "CreateRequest fields" where
  "createFields = [(''name'', setField decString (\<lambda>x r. r\<lparr>crName := x\<rparr>)), (''spec'', setStruct True (specFields True) crSpec (\<lambda>x r. r\<lparr>crSpec := x\<rparr>))]"

definition changeFields :: "ChangeAdapterRequest fields" where
  "changeFields = [(''kind'', setField decString (\<lambda>x r. r\<lparr>chKind := x\<rparr>)),
     (''credentialProfile'', setField decString (\<lambda>x r. r\<lparr>chCredentialProfile := x\<rparr>))]"

section \<open>Authentication\<close>

definition auditRecord :: "apiRequest \<Rightarrow> string \<Rightarrow> string \<Rightarrow> string \<Rightarrow> string \<Rightarrow> string \<Rightarrow> (string \<times> string) list" where
  "auditRecord req rid event principalID agentID reason =
     [(''audit_event'', event), (''outcome'', ''denied''), (''request_id'', rid), (''method'', aqMethod req),
      (''path'', aqPath req), (''reason'', reason)] @
     (if principalID = [] then [] else [(''principal_id'', principalID)]) @
     (if agentID = [] then [] else [(''agent_id'', agentID)])"

definition audit :: "apiRequest \<Rightarrow> string \<Rightarrow> string \<Rightarrow> string \<Rightarrow> string \<Rightarrow> string \<Rightarrow> ('w, unit) kprog" where
  "audit req rid event principalID agentID reason = kAudit (auditRecord req rid event principalID agentID reason)"

text \<open>\<open>errors.Is(err, ErrUnavailable)\<close>: the error itself or one wrapped around it by \<open>"%w: ..."\<close>.\<close>

definition isUnavailable :: "goerror \<Rightarrow> bool" where
  "isUnavailable e = (e = ErrUnavailable \<or> hasPrefix e (ErrUnavailable @ '': ''))"

definition bearerOf :: "string \<Rightarrow> string option" where
  "bearerOf value =
     (if \<not> hasPrefix value ''Bearer '' then None
      else let provided = trimPrefix value ''Bearer '' in
        if provided = [] \<or> list_ex (\<lambda>c. c = CHR '' '' \<or> c = CHR 0x09 \<or> c = CHR 0x0D \<or> c = CHR 0x0A) provided then None
        else Some provided)"

definition unauthenticated :: "string \<Rightarrow> reply" where
  "unauthenticated rid =
     writeErrorWith [(''WWW-Authenticate'', ''Bearer'')] rid (NewError 401 ''unauthenticated'' ''a valid bearer token is required'')"

definition requestIDOf :: "'w kube \<Rightarrow> apiRequest \<Rightarrow> ('w, string) kprog" where
  "requestIDOf K req =
     (let given = aqHeader req ''X-Request-ID'' in
      if given = [] \<or> length given > 128 then kFresh K else ret given)"

definition withPrincipal ::
  "'w kube \<Rightarrow> 'w server \<Rightarrow> apiRequest \<Rightarrow> (Principal \<Rightarrow> string \<Rightarrow> ('w, reply) kprog) \<Rightarrow> ('w, reply) kprog" where
  "withPrincipal K S req next = do {
     rid \<leftarrow> requestIDOf K req;
     case bearerOf (aqHeader req ''Authorization'') of
       None \<Rightarrow> do {
         _ \<leftarrow> audit req rid ''authentication_failed'' [] [] ''invalid_credential'';
         ret (unauthenticated rid) }
     | Some provided \<Rightarrow> do {
         r \<leftarrow> ask (svAuthenticate S provided);
         case r of
           Inl e \<Rightarrow>
             if isUnavailable e then do {
               _ \<leftarrow> audit req rid ''authentication_unavailable'' [] [] ''credential_backend_unavailable'';
               ret (writeError rid ((NewError 503 ''authentication_unavailable'' ''authentication is temporarily unavailable'')\<lparr>leRetryable := True\<rparr>)) }
             else do {
               _ \<leftarrow> audit req rid ''authentication_failed'' [] [] ''invalid_credential'';
               ret (unauthenticated rid) }
         | Inr p \<Rightarrow>
             if prID p = [] \<or> \<not> CanObserve p then do {
               _ \<leftarrow> audit req rid ''authentication_failed'' [] [] ''invalid_credential'';
               ret (unauthenticated rid) }
             else next p rid } }"

definition handleReady :: "'w server \<Rightarrow> reply" where
  "handleReady S =
     (if svReady S = Some False then Reply (writeJSON [] 503 (JObj [(''status'', JStr ''not_ready'')]))
      else Reply (writeJSON [] 200 (JObj [(''status'', JStr ''ready'')])))"

definition handleHealthz :: reply where
  "handleHealthz = Reply (writeJSON [] 200 (JObj [(''status'', JStr ''ok'')]))"

section \<open>Creating and listing\<close>

definition methodNotAllowed :: LifecycleError where
  "methodNotAllowed = NewError 405 ''method_not_allowed'' ''method is not allowed''"

definition forbiddenRole :: LifecycleError where
  "forbiddenRole = NewError 403 ''forbidden_role'' ''control permission is required''"

text \<open>\<open>authorizeProfiles\<close> returns the refusal, if any.\<close>

definition authorizeProfiles ::
  "Principal \<Rightarrow> apiRequest \<Rightarrow> string \<Rightarrow> string \<Rightarrow> string \<Rightarrow> string \<Rightarrow> ('w, reply option) kprog" where
  "authorizeProfiles p req rid agentID secretProfile credentialProfile =
     (if secretProfile \<noteq> [] \<and> \<not> AllowsSecretProfile p secretProfile then do {
        _ \<leftarrow> audit req rid ''authorization_denied'' (prID p) agentID ''secret_profile_not_allowed'';
        ret (Some (writeError rid (NewError 403 ''forbidden_secret_profile'' ''the requested repository secret profile is not permitted''))) }
      else if credentialProfile \<noteq> [] \<and> \<not> AllowsCredentialProfile p credentialProfile then do {
        _ \<leftarrow> audit req rid ''authorization_denied'' (prID p) agentID ''credential_profile_not_allowed'';
        ret (Some (writeError rid (NewError 403 ''forbidden_credential_profile'' ''the requested agent credential profile is not permitted''))) }
      else ret None)"

definition quantities :: "CreateRequest \<Rightarrow> string \<Rightarrow> string" where
  "quantities r field =
     (if field = ''cpu'' then resCPU (spResources (crSpec r))
      else if field = ''memory'' then resMemory (spResources (crSpec r))
      else wsSize (spWorkspace (crSpec r)))"

text \<open>The map of quantities is visited in an order \<open>ord\<close> the runtime chooses.\<close>

definition badQuantity :: "'w server \<Rightarrow> string list \<Rightarrow> CreateRequest \<Rightarrow> string option" where
  "badQuantity S ord r = find (\<lambda>field. \<not> svQuantity S (quantities r field)) ord"

definition createdEvent :: "Agent \<Rightarrow> time \<Rightarrow> string \<Rightarrow> string \<Rightarrow> Event" where
  "createdEvent a now rid owner =
     \<lparr>evID = [], evType = ''agent.created'', evAgentID = agID a, evPreviousState = [], evState = stState (agStatus a),
      evOccurredAt = now, evRequestID = rid, evOwner = owner\<rparr>"

text \<open>What \<open>createAgent\<close> does once the request is admitted.\<close>

definition storeAgent ::
  "'w kube \<Rightarrow> codec \<Rightarrow> 'w server \<Rightarrow> Principal \<Rightarrow> string \<Rightarrow> string \<Rightarrow> CreateRequest \<Rightarrow> ('w, reply) kprog" where
  "storeAgent K cd S p rid key create = do {
     r \<leftarrow> Create K cd (svNamespace S) (prID p) key create;
     case r of
       Inl e \<Rightarrow> ret (writeAnyError rid e)
     | Inr ac \<Rightarrow> do {
         _ \<leftarrow> (if snd ac then do { now \<leftarrow> kNow K; kPublish (createdEvent (fst ac) now rid (prID p)) } else ret ());
         _ \<leftarrow> kEnqueue (agID (fst ac));
         ret (Reply (writeJSON (agentHeaders cd rid (fst ac) @ [(''Location'', ''/v1alpha1/agents/'' @ svPathEscape S (agID (fst ac)))])
           201 (agentJson cd (fst ac)))) } }"

definition zeroCreate :: CreateRequest where
  "zeroCreate = \<lparr>crName = [], crSpec = zeroSpec\<rparr>"

text \<open>The checks of \<open>createAgent\<close> on the request itself, in order.\<close>

definition checkCreate :: "'w server \<Rightarrow> string list \<Rightarrow> apiRequest \<Rightarrow> LifecycleError + (string \<times> CreateRequest)" where
  "checkCreate S ord req =
     (let key = aqHeader req ''Idempotency-Key'' in
      if key = [] \<or> length key > 256
      then Inl (NewError 400 ''invalid_idempotency_key'' ''Idempotency-Key is required and must not exceed 256 characters'')
      else case decodeJSON S createFields zeroCreate (aqBody req) of
        Inl e \<Rightarrow> Inl (NewError 400 ''invalid_request'' e)
      | Inr c \<Rightarrow>
         let create = ApplyDefaults c in
         (case validateCreate (svURLParse S) create of
            Some e \<Rightarrow> Inl (NewError 422 ''validation_failed'' e)
          | None \<Rightarrow>
             (case badQuantity S ord create of
                Some field \<Rightarrow> Inl (NewError 422 ''validation_failed'' (field @ '' is not a valid Kubernetes quantity''))
              | None \<Rightarrow> Inr (key, create))))"

definition createAgent ::
  "'w kube \<Rightarrow> codec \<Rightarrow> 'w server \<Rightarrow> string list \<Rightarrow> Principal \<Rightarrow> string \<Rightarrow> apiRequest \<Rightarrow> ('w, reply) kprog" where
  "createAgent K cd S ord p rid req =
     (if \<not> CanControl p then do {
        _ \<leftarrow> audit req rid ''authorization_denied'' (prID p) [] ''control_permission_required'';
        ret (writeError rid forbiddenRole) }
      else case checkCreate S ord req of
        Inl e \<Rightarrow> ret (writeError rid e)
      | Inr kc \<Rightarrow> do {
          let sp = crSpec (snd kc);
          refusal \<leftarrow> authorizeProfiles p req rid [] (spSecretProfile sp) (spCredentialProfile sp);
          case refusal of
            Some r \<Rightarrow> ret r
          | None \<Rightarrow>
             (case Resolve (svAdapters S) (spKind sp) (spSandboxProfile sp) (spCredentialProfile sp) of
                Inl e \<Rightarrow> ret (writeAdapterError rid e)
              | Inr _ \<Rightarrow> storeAgent K cd S p rid (fst kc) (snd kc)) })"

definition validState :: "State \<Rightarrow> bool" where
  "validState st = (st \<in> set [StateRequested, StateProvisioning, StateStarting, StateRunning, StateReconfiguring,
     StateStopping, StateStopped, StateFailed, StateDeleting])"

text \<open>\<open>strconv.Atoi\<close>: an optional sign and decimal digits, within the range of \<open>int\<close>.\<close>

definition atoi :: "string \<Rightarrow> int option" where
  "atoi s =
     (let neg = hasPrefix s ''-''; ds = (if neg \<or> hasPrefix s ''+'' then drop 1 s else s);
          v = (if neg then - int (decimalValue ds) else int (decimalValue ds)) in
      if ds \<noteq> [] \<and> list_all isDigit ds \<and> - (2 ^ 63) \<le> v \<and> v < 2 ^ 63 then Some v else None)"

definition listOptions :: "apiRequest \<Rightarrow> LifecycleError + ListOptions" where
  "listOptions req =
     (case (if aqQuery req ''limit'' = [] then Some 50
            else case atoi (aqQuery req ''limit'') of Some n \<Rightarrow> if n < 1 \<or> n > 200 then None else Some n | None \<Rightarrow> None) of
        None \<Rightarrow> Inl (NewError 400 ''invalid_limit'' ''limit must be between 1 and 200'')
      | Some limit \<Rightarrow>
         let state = aqQuery req ''state''; name = aqQuery req ''name'' in
         if state \<noteq> [] \<and> \<not> validState state then Inl (NewError 400 ''invalid_state'' ''state filter is invalid'')
         else if name \<noteq> [] \<and> \<not> ValidName name then Inl (NewError 400 ''invalid_name'' ''name filter is invalid'')
         else Inr \<lparr>loLimit = limit, loCursor = aqQuery req ''cursor'', loState = state, loName = name\<rparr>)"

definition handleList :: "'w kube \<Rightarrow> codec \<Rightarrow> Principal \<Rightarrow> string \<Rightarrow> apiRequest \<Rightarrow> ('w, reply) kprog" where
  "handleList K cd p rid req =
     (case listOptions req of
        Inl e \<Rightarrow> ret (writeError rid e)
      | Inr opts \<Rightarrow> do {
          r \<leftarrow> ListAgents K cd (prID p) opts;
          ret (case r of
                 None \<Rightarrow> Panicked
               | Some (Inl e) \<Rightarrow> writeAnyError rid e
               | Some (Inr l) \<Rightarrow> Reply (writeJSON [(''X-Request-ID'', rid)] 200 (agentListJson cd l))) })"

definition handleAgents ::
  "'w kube \<Rightarrow> codec \<Rightarrow> 'w server \<Rightarrow> string list \<Rightarrow> apiRequest \<Rightarrow> Principal \<Rightarrow> string \<Rightarrow> ('w, reply) kprog" where
  "handleAgents K cd S ord req p rid =
     (if aqMethod req = ''POST'' then createAgent K cd S ord p rid req
      else if aqMethod req = ''GET'' then handleList K cd p rid req
      else ret (writeErrorWith [(''Allow'', ''GET, POST'')] rid methodNotAllowed))"

section \<open>Changing an agent\<close>

text \<open>
  Reading the agent for a change, with the audit record of an agent that is missing or another
  owner's, and the comparison of the entity tag.
\<close>

definition readForChange ::
  "'w kube \<Rightarrow> codec \<Rightarrow> Principal \<Rightarrow> string \<Rightarrow> apiRequest \<Rightarrow> string \<Rightarrow> (Agent \<Rightarrow> ('w, reply) kprog) \<Rightarrow> ('w, reply) kprog" where
  "readForChange K cd p rid req i next = do {
     r \<leftarrow> GetAgent K cd (prID p) i;
     case r of
       Inl e \<Rightarrow> do {
         _ \<leftarrow> (if codeOf e = ''agent_not_found'' then audit req rid ''agent_access_denied'' (prID p) i ''not_owned_or_missing'' else ret ());
         ret (writeAnyError rid e) }
     | Inr a \<Rightarrow>
        if \<not> etagMatches cd (aqHeader req ''If-Match'') a then ret (writeError rid preconditionFailed)
        else next a }"

definition accepted :: "codec \<Rightarrow> string \<Rightarrow> Agent \<Rightarrow> reply" where
  "accepted cd rid a = Reply (writeJSON (agentHeaders cd rid a) 202 (agentJson cd a))"

definition requestedEvent :: "string \<Rightarrow> string \<Rightarrow> State \<Rightarrow> State \<Rightarrow> time \<Rightarrow> string \<Rightarrow> string \<Rightarrow> Event" where
  "requestedEvent ty i previous st now rid owner =
     \<lparr>evID = [], evType = ty, evAgentID = i, evPreviousState = previous, evState = st, evOccurredAt = now,
      evRequestID = rid, evOwner = owner\<rparr>"

definition adapterTransitional :: "Agent \<Rightarrow> State" where
  "adapterTransitional a = (if stState (agStatus a) = StateStopped then StateStopped else StateReconfiguring)"

text \<open>The write of \<open>changeAdapter\<close> and what follows it.\<close>

definition applyChange ::
  "'w kube \<Rightarrow> codec \<Rightarrow> Principal \<Rightarrow> string \<Rightarrow> apiRequest \<Rightarrow> string \<Rightarrow> ChangeAdapterRequest \<Rightarrow> Agent \<Rightarrow> ('w, reply) kprog" where
  "applyChange K cd p rid req i change a = do {
     r \<leftarrow> ChangeAdapter K cd (prID p) i (aqHeader req ''If-Match'') change (adapterTransitional a);
     case r of
       Inl e \<Rightarrow> ret (writeAnyError rid e)
     | Inr ac \<Rightarrow> do {
         _ \<leftarrow> (if snd ac then do {
             now \<leftarrow> kNow K;
             _ \<leftarrow> kPublish (requestedEvent ''agent.adapter_change_requested'' i [] (adapterTransitional a) now rid (prID p));
             kEnqueue i }
           else ret ());
         ret (accepted cd rid (fst ac)) } }"

definition invalidTransition :: "string \<Rightarrow> LifecycleError" where
  "invalidTransition message = NewError 409 ''invalid_state_transition'' message"

definition admitChange ::
  "'w kube \<Rightarrow> codec \<Rightarrow> 'w server \<Rightarrow> Principal \<Rightarrow> string \<Rightarrow> apiRequest \<Rightarrow> string \<Rightarrow> ChangeAdapterRequest \<Rightarrow> Agent \<Rightarrow> ('w, reply) kprog" where
  "admitChange K cd S p rid req i change a = do {
     refusal \<leftarrow> authorizeProfiles p req rid i (spSecretProfile (agSpec a)) (chCredentialProfile change);
     case refusal of
       Some r \<Rightarrow> ret r
     | None \<Rightarrow>
        (case Resolve (svAdapters S) (chKind change) (spSandboxProfile (agSpec a)) (chCredentialProfile change) of
           Inl e \<Rightarrow> ret (writeAdapterError rid e)
         | Inr _ \<Rightarrow>
            if (spKind (agSpec a) \<noteq> chKind change \<or> spCredentialProfile (agSpec a) \<noteq> chCredentialProfile change) \<and>
               \<not> CanChangeAdapter (stState (agStatus a))
            then ret (writeError rid (invalidTransition ''the agent adapter cannot be changed from its current state''))
            else applyChange K cd p rid req i change a) }"

definition denyControl :: "Principal \<Rightarrow> string \<Rightarrow> apiRequest \<Rightarrow> string \<Rightarrow> ('w, reply) kprog" where
  "denyControl p rid req i = do {
     _ \<leftarrow> audit req rid ''authorization_denied'' (prID p) i ''control_permission_required'';
     ret (writeError rid forbiddenRole) }"

definition changeAdapter ::
  "'w kube \<Rightarrow> codec \<Rightarrow> 'w server \<Rightarrow> Principal \<Rightarrow> string \<Rightarrow> apiRequest \<Rightarrow> string \<Rightarrow> ('w, reply) kprog" where
  "changeAdapter K cd S p rid req i =
     (if \<not> CanControl p then denyControl p rid req i
      else case decodeJSON S changeFields \<lparr>chKind = [], chCredentialProfile = []\<rparr> (aqBody req) of
        Inl e \<Rightarrow> ret (writeError rid (NewError 400 ''invalid_request'' e))
      | Inr change \<Rightarrow>
         (case validateChange change of
            Some e \<Rightarrow> ret (writeError rid (NewError 422 ''validation_failed'' e))
          | None \<Rightarrow> readForChange K cd p rid req i (admitChange K cd S p rid req i change)))"

datatype operation = OpStop | OpResume | OpDelete

text \<open>
  The \<open>switch\<close> of \<open>mutateAgent\<close>: an error, an answer without a write (\<open>None\<close>), or the desired and the
  transitional state.
\<close>

fun planOperation :: "operation \<Rightarrow> State \<Rightarrow> LifecycleError + (DesiredState \<times> State) option" where
  "planOperation OpStop st =
     (if \<not> CanStop st then Inl (invalidTransition ''the agent cannot be stopped from its current state'')
      else if st = StateStopping \<or> st = StateStopped then Inr None
      else Inr (Some (DesiredStopped, StateStopping)))"
| "planOperation OpResume st =
     (if \<not> CanResume st then Inl (invalidTransition ''the agent cannot be resumed from its current state'')
      else if st \<noteq> StateStopped then Inr None
      else Inr (Some (DesiredRunning, StateProvisioning)))"
| "planOperation OpDelete st =
     (if st = StateDeleting then Inr None else Inr (Some (DesiredDeleted, StateDeleting)))"

definition applyOperation ::
  "'w kube \<Rightarrow> codec \<Rightarrow> Principal \<Rightarrow> string \<Rightarrow> apiRequest \<Rightarrow> string \<Rightarrow> operation \<Rightarrow> Agent \<Rightarrow> ('w, reply) kprog" where
  "applyOperation K cd p rid req i op a =
     (case planOperation op (stState (agStatus a)) of
        Inl e \<Rightarrow> ret (writeError rid e)
      | Inr None \<Rightarrow> ret (accepted cd rid a)
      | Inr (Some ds) \<Rightarrow> do {
          r \<leftarrow> SetDesired K cd (prID p) i (aqHeader req ''If-Match'') (fst ds) (snd ds);
          case r of
            Inl e \<Rightarrow> ret (writeAnyError rid e)
          | Inr updated \<Rightarrow> do {
              now \<leftarrow> kNow K;
              _ \<leftarrow> kPublish (requestedEvent ''agent.state_changed'' i (stState (agStatus a)) (snd ds) now rid (prID p));
              _ \<leftarrow> kEnqueue i;
              ret (accepted cd rid updated) } })"

definition mutateAgent ::
  "'w kube \<Rightarrow> codec \<Rightarrow> Principal \<Rightarrow> string \<Rightarrow> apiRequest \<Rightarrow> string \<Rightarrow> operation \<Rightarrow> ('w, reply) kprog" where
  "mutateAgent K cd p rid req i op =
     (if \<not> CanControl p then denyControl p rid req i
      else readForChange K cd p rid req i (applyOperation K cd p rid req i op))"

section \<open>One agent\<close>

datatype target = Plain | Terminal | Operate operation | ChangeTo

definition agentTarget :: "string \<Rightarrow> string \<times> target" where
  "agentTarget path =
     (let tail = trimPrefix path ''/v1alpha1/agents/'' in
      if hasSuffix tail ''/terminal'' then (trimSuffix tail ''/terminal'', Terminal)
      else if hasSuffix tail '':stop'' then (trimSuffix tail '':stop'', Operate OpStop)
      else if hasSuffix tail '':resume'' then (trimSuffix tail '':resume'', Operate OpResume)
      else if hasSuffix tail '':change-adapter'' then (trimSuffix tail '':change-adapter'', ChangeTo)
      else (tail, Plain))"

text \<open>\<open>looksLikeUUID\<close> of \<^verbatim>\<open>controlplane/server.go\<close> is the function of the same name in \<^verbatim>\<open>runner/run.go\<close>.\<close>

definition validAgentID :: "string \<Rightarrow> bool" where
  "validAgentID i = looksLikeUUID i"

definition handleTerminalRoute ::
  "'w server \<Rightarrow> apiRequest \<Rightarrow> Principal \<Rightarrow> string \<Rightarrow> string \<Rightarrow> ('w, reply) kprog" where
  "handleTerminalRoute S req p rid i =
     (if aqMethod req \<noteq> ''GET'' then ret (writeError rid methodNotAllowed)
      else case svTerminal S of
        None \<Rightarrow> ret (writeError rid (NewError 503 ''gateway_unavailable'' ''terminal streaming is unavailable''))
      | Some serve \<Rightarrow> do {
          r \<leftarrow> serve req (prID p) i rid (CanControl p);
          case r of
            None \<Rightarrow> ret Hijacked
          | Some e \<Rightarrow> do {
              _ \<leftarrow> (if codeOf e = ''agent_not_found'' then audit req rid ''agent_access_denied'' (prID p) i ''not_owned_or_missing'' else ret ());
              ret (writeAnyError rid e) } })"

definition readAgent :: "'w kube \<Rightarrow> codec \<Rightarrow> apiRequest \<Rightarrow> Principal \<Rightarrow> string \<Rightarrow> string \<Rightarrow> ('w, reply) kprog" where
  "readAgent K cd req p rid i = do {
     r \<leftarrow> GetAgent K cd (prID p) i;
     case r of
       Inl e \<Rightarrow> do {
         _ \<leftarrow> (if codeOf e = ''agent_not_found'' then audit req rid ''agent_access_denied'' (prID p) i ''not_owned_or_missing'' else ret ());
         ret (writeAnyError rid e) }
     | Inr a \<Rightarrow> ret (Reply (writeJSON (agentHeaders cd rid a) 200 (agentJson cd a))) }"

definition handleAgent ::
  "'w kube \<Rightarrow> codec \<Rightarrow> 'w server \<Rightarrow> apiRequest \<Rightarrow> Principal \<Rightarrow> string \<Rightarrow> ('w, reply) kprog" where
  "handleAgent K cd S req p rid =
     (let (i, t) = agentTarget (aqPath req) in
      if CHR ''/'' \<in> set i \<or> \<not> validAgentID i then ret (writeError rid notFound)
      else case t of
        Terminal \<Rightarrow> handleTerminalRoute S req p rid i
      | ChangeTo \<Rightarrow> if aqMethod req \<noteq> ''POST'' then ret (writeError rid methodNotAllowed) else changeAdapter K cd S p rid req i
      | Operate op \<Rightarrow> if aqMethod req \<noteq> ''POST'' then ret (writeError rid methodNotAllowed) else mutateAgent K cd p rid req i op
      | Plain \<Rightarrow>
          if aqMethod req = ''GET'' then readAgent K cd req p rid i
          else if aqMethod req = ''DELETE'' then mutateAgent K cd p rid req i OpDelete
          else ret (writeError rid methodNotAllowed))"

section \<open>Adapters and events\<close>

definition descriptorJson :: "Descriptor \<Rightarrow> json" where
  "descriptorJson d = JObj [(''id'', JStr (dsID d)), (''displayName'', JStr (dsDisplayName d)), (''version'', JStr (dsVersion d)),
     (''capabilities'', stringsJson (dsCapabilities d))]"

definition handleAdapters :: "'w server \<Rightarrow> string \<Rightarrow> reply" where
  "handleAdapters S rid =
     Reply (writeJSON [(''X-Request-ID'', rid)] 200
       (JObj [(''items'', JArr (map descriptorJson (ListAdapters (svAdapterIDs S) (svAdapters S))))]))"

definition eventJson :: "codec \<Rightarrow> Event \<Rightarrow> json" where
  "eventJson cd e =
     JObj ([(''id'', JStr (evID e)), (''type'', JStr (evType e)), (''agentId'', JStr (evAgentID e))] @
       omitEmpty ''previousState'' (evPreviousState e) @ omitEmpty ''state'' (evState e) @
       [(''occurredAt'', JStr (cdTime cd (evOccurredAt e)))] @ omitEmpty ''requestId'' (evRequestID e))"

definition newline :: char where "newline = CHR 0x0A"

definition writeSSE :: "codec \<Rightarrow> Event \<Rightarrow> string" where
  "writeSSE cd e =
     ''id: '' @ evID e @ [newline] @ ''event: '' @ evType e @ [newline] @
     ''data: '' @ cdPrint cd (eventJson cd e) @ [newline, newline]"

definition keepalive :: string where
  "keepalive = '': keepalive'' @ [newline, newline]"

text \<open>The check of the agent filter, and the subscription: refused, or the texts written first and the channel.\<close>

definition checkEventFilter :: "'w kube \<Rightarrow> codec \<Rightarrow> apiRequest \<Rightarrow> Principal \<Rightarrow> string \<Rightarrow> ('w, reply option) kprog" where
  "checkEventFilter K cd req p rid =
     (let f = aqQuery req ''agentId'' in
      if f = [] then ret None
      else if \<not> validAgentID f then ret (Some (writeError rid (NewError 400 ''invalid_agent_id'' ''agentId filter is invalid'')))
      else do {
        r \<leftarrow> GetAgent K cd (prID p) f;
        ret (case r of Inl e \<Rightarrow> Some (writeAnyError rid e) | Inr _ \<Rightarrow> None) })"

definition wanted :: "string \<Rightarrow> string \<Rightarrow> Event \<Rightarrow> bool" where
  "wanted owner f e = (evOwner e = owner \<and> (f = [] \<or> evAgentID e = f))"

definition openEventStream ::
  "codec \<Rightarrow> bool \<Rightarrow> apiRequest \<Rightarrow> Principal \<Rightarrow> string \<Rightarrow> EventBus \<Rightarrow> (reply + (string list \<times> nat)) \<times> EventBus" where
  "openEventStream cd flusher req p rid b =
     (case Subscribe (prID p) (aqHeader req ''Last-Event-ID'') b of
        (None, b') \<Rightarrow> (Inl (writeError rid (NewError 410 ''event_cursor_expired'' ''the event cursor is no longer available'')), b')
      | (Some (replay, c), b') \<Rightarrow>
          if \<not> flusher then (Inl (writeError rid (NewError 500 ''internal_error'' ''streaming is unavailable'')), cancelSub c b')
          else (Inr (map (writeSSE cd) (filter (\<lambda>e. aqQuery req ''agentId'' = [] \<or> evAgentID e = aqQuery req ''agentId'') replay), c), b'))"

text \<open>The loop: what the select statement receives, and what is written.\<close>

datatype streamInput = SEvent Event | SClosed | SHeartbeat | SDone

fun streamLoop :: "codec \<Rightarrow> string \<Rightarrow> string \<Rightarrow> streamInput list \<Rightarrow> string list" where
  "streamLoop cd owner f [] = []"
| "streamLoop cd owner f (SEvent e # is) =
     (if wanted owner f e then writeSSE cd e # streamLoop cd owner f is else streamLoop cd owner f is)"
| "streamLoop cd owner f (SHeartbeat # is) = keepalive # streamLoop cd owner f is"
| "streamLoop cd owner f (SClosed # is) = []"
| "streamLoop cd owner f (SDone # is) = []"

section \<open>Routes\<close>

datatype apiRoute = Healthz | Readyz | Metrics | Agents | OneAgent | Adapters | EventStream

text \<open>The patterns of \<open>Handler\<close>; \<open>None\<close> is left to the mux, which answers 404 or 405.\<close>

definition apiRouteOf :: "bool \<Rightarrow> string \<Rightarrow> string \<Rightarrow> apiRoute option" where
  "apiRouteOf terminal meth path =
     (if path = ''/v1alpha1/agents'' then Some Agents
      else if hasPrefix path ''/v1alpha1/agents/'' then Some OneAgent
      else if meth \<noteq> ''GET'' \<and> meth \<noteq> ''HEAD'' then None
      else if path = ''/metrics'' then (if terminal then Some Metrics else None)
      else map_of [(''/healthz'', Healthz), (''/readyz'', Readyz), (''/v1alpha1/adapters'', Adapters), (''/v1alpha1/events'', EventStream)] path)"

text \<open>The routes that end in a reply, with authentication.\<close>

definition serveAgents :: "'w kube \<Rightarrow> codec \<Rightarrow> 'w server \<Rightarrow> string list \<Rightarrow> apiRequest \<Rightarrow> ('w, reply) kprog" where
  "serveAgents K cd S ord req =
     withPrincipal K S req
       (if aqPath req = ''/v1alpha1/agents'' then handleAgents K cd S ord req else handleAgent K cd S req)"

section \<open>Who may change what\<close>

text \<open>Actions that change nothing.\<close>

fun readOnly :: "action \<Rightarrow> bool" where
  "readOnly (Call (CGet g n)) = True"
| "readOnly (Call (CList g n)) = True"
| "readOnly (Audited attrs) = True"
| "readOnly (Socket a) = True"
| "readOnly (Counted c n) = True"
| "readOnly _ = False"

lemma does_audit [does_intros]: "(\<And>attrs. P (Audited attrs)) \<Longrightarrow> does P (audit req rid event pid aid reason)"
  unfolding audit_def by (intro does_intros)

lemma does_ownedObject [does_intros]: "(\<And>n. P (Call (CGet AgentGVR n))) \<Longrightarrow> does P (ownedObject K cd owner i)"
  unfolding ownedObject_def by (intro does_intros)

lemma does_GetAgent [does_intros]: "(\<And>n. P (Call (CGet AgentGVR n))) \<Longrightarrow> does P (GetAgent K cd owner i)"
  unfolding GetAgent_def by (intro does_intros)

lemma does_listForOwner [does_intros]: "(\<And>n. P (Call (CList AgentGVR n))) \<Longrightarrow> does P (listForOwner K cd owner)"
  unfolding listForOwner_def by (intro does_intros)

lemma does_ListAgents [does_intros]: "(\<And>n. P (Call (CList AgentGVR n))) \<Longrightarrow> does P (ListAgents K cd owner opts)"
  unfolding ListAgents_def by (intro does_intros)

lemma does_authorizeProfiles [does_intros]:
  "(\<And>attrs. P (Audited attrs)) \<Longrightarrow> does P (authorizeProfiles p req rid i sp cp)"
  unfolding authorizeProfiles_def by (intro does_intros)

lemma does_denyControl [does_intros]: "(\<And>attrs. P (Audited attrs)) \<Longrightarrow> does P (denyControl p rid req i)"
  unfolding denyControl_def by (intro does_intros)

lemma does_requestIDOf [does_intros]: "does P (requestIDOf K req)"
  unfolding requestIDOf_def by (intro does_intros)

lemma readOnly_calls: "readOnly (Call (CGet g n))" "readOnly (Call (CList g n))" "readOnly (Audited attrs)"
  by simp_all

lemmas readOnly_intros = does_intros readOnly_calls

section \<open>Only authenticated requests are served\<close>

lemma run_kAudit: "run_state (kAudit attrs) s = ((), s\<lparr>actions := actions s @ [Audited attrs]\<rparr>)"
  by (simp add: kAudit_def effect_def case_prod_beta)

lemma run_ask: "run_state (ask f) s = (fst (f (world s)), s\<lparr>world := snd (f (world s))\<rparr>)"
  by (simp add: ask_def case_prod_beta)

lemma run_requestIDOf:
  obtains rid w where "run_state (requestIDOf K req) s = (rid, s\<lparr>world := w\<rparr>)"
    "aqHeader req ''X-Request-ID'' \<noteq> [] \<and> length (aqHeader req ''X-Request-ID'') \<le> 128 \<longrightarrow> rid = aqHeader req ''X-Request-ID'' \<and> w = world s"
proof (cases "aqHeader req ''X-Request-ID'' = [] \<or> length (aqHeader req ''X-Request-ID'') > 128")
  case True
  then show thesis using that by (auto simp: requestIDOf_def kFresh_def run_ask Let_def)
next
  case False
  then show thesis using that [of _ "world s"] by (auto simp: requestIDOf_def Let_def)
qed

text \<open>A request that is refused leaves nothing but an audit record.\<close>

definition refusedOnly :: "'w kst \<Rightarrow> reply \<times> 'w kst \<Rightarrow> bool" where
  "refusedOnly s r \<longleftrightarrow> (\<exists>resp attrs. fst r = Reply resp \<and> rsStatus resp \<in> {401, 503} \<and>
     actions (snd r) = actions s @ [Audited attrs])"

lemma refused_run:
  assumes "leStatus e \<in> {401, 503}" "actions t = actions s"
  shows "refusedOnly s (run_state (State_Monad.bind (audit req rid event pid aid reason) (\<lambda>_. ret (writeErrorWith h i e))) t)"
  using assms by (auto simp: refusedOnly_def run_bind audit_def run_kAudit writeErrorWith_def writeJSON_def)

lemma refusals:
  assumes "actions t = actions s"
  shows "refusedOnly s (run_state (State_Monad.bind (audit req rid event pid aid reason) (\<lambda>_. ret (unauthenticated rid))) t)"
    "refusedOnly s (run_state (State_Monad.bind (audit req rid event pid aid reason) (\<lambda>_. ret (writeError rid
       ((NewError 503 ''authentication_unavailable'' ''authentication is temporarily unavailable'')\<lparr>leRetryable := True\<rparr>)))) t)"
  unfolding unauthenticated_def by (rule refused_run; use assms in \<open>simp add: NewError_def\<close>)+

lemma withPrincipal_rid:
  assumes "run_state (requestIDOf K req) s = (rid, s\<lparr>world := w\<rparr>)"
  shows "run_state (withPrincipal K S req next) s = run_state
    (case bearerOf (aqHeader req ''Authorization'') of
       None \<Rightarrow> State_Monad.bind (audit req rid ''authentication_failed'' [] [] ''invalid_credential'') (\<lambda>_. ret (unauthenticated rid))
     | Some b \<Rightarrow> State_Monad.bind (ask (svAuthenticate S b)) (\<lambda>r. case r of
         Inl e \<Rightarrow> if isUnavailable e
           then State_Monad.bind (audit req rid ''authentication_unavailable'' [] [] ''credential_backend_unavailable'') (\<lambda>_. ret (writeError rid
             ((NewError 503 ''authentication_unavailable'' ''authentication is temporarily unavailable'')\<lparr>leRetryable := True\<rparr>)))
           else State_Monad.bind (audit req rid ''authentication_failed'' [] [] ''invalid_credential'') (\<lambda>_. ret (unauthenticated rid))
       | Inr p \<Rightarrow> if prID p = [] \<or> \<not> CanObserve p
           then State_Monad.bind (audit req rid ''authentication_failed'' [] [] ''invalid_credential'') (\<lambda>_. ret (unauthenticated rid))
           else next p rid)) (s\<lparr>world := w\<rparr>)"
  unfolding withPrincipal_def by (subst run_bind) (simp only: assms prod.case Let_def)

context authenticator
begin

lemma served_iff:
  assumes S: "svAuthenticate S = auth" and rid: "run_state (requestIDOf K req) s = (rid, s\<lparr>world := w\<rparr>)"
  shows "case bearerOf (aqHeader req ''Authorization'') of
      None \<Rightarrow> refusedOnly s (run_state (withPrincipal K S req next) s)
    | Some b \<Rightarrow>
       (case holder b w of
          None \<Rightarrow> refusedOnly s (run_state (withPrincipal K S req next) s)
        | Some p \<Rightarrow> \<exists>w'. run_state (withPrincipal K S req next) s = run_state (next p rid) (s\<lparr>world := w'\<rparr>))"
proof (cases "bearerOf (aqHeader req ''Authorization'')")
  case None
  then show ?thesis using refusals(1) [of "s\<lparr>world := w\<rparr>" s] by (simp only: withPrincipal_rid [OF rid] option.case) simp
next
  case (Some b)
  let ?t = "s\<lparr>world := snd (auth b w)\<rparr>"
  note run = withPrincipal_rid [OF rid, of S "next", unfolded Some option.case S run_bind [of "ask _"] run_ask Let_def prod.case, simplified]
  show ?thesis
  proof (cases "fst (auth b w)")
    case (Inr p)
    then have h: "holder b w = Some p" using accepts by simp
    then show ?thesis using Some observes [OF h] run Inr by (intro exI [of _ "snd (auth b w)"] | simp)+
  next
    case (Inl e)
    then have "holder b w = None" using accepts [of b w] by (cases "holder b w") auto
    moreover have "refusedOnly s (run_state (withPrincipal K S req next) s)"
      using refusals [of ?t s] run Inl by (cases "isUnavailable e") simp_all
    ultimately show ?thesis using Some by simp
  qed
qed

end

text \<open>
  C26. Only holders of a credential are served: with the file authenticator, a request reaches a
  handler if and only if its bearer is the token of a credential of a valid credential file, and
  the handler then acts for exactly the principal of that credential; every other request is
  answered 401 or 503 and leaves one audit record and no other effect.
\<close>

theorem api_authenticated:
  assumes "svAuthenticate S = (\<lambda>b w. (Authenticate parse je fs path b, w))"
    "run_state (requestIDOf K req) s = (rid, s\<lparr>world := w\<rparr>)"
  shows "case bearerOf (aqHeader req ''Authorization'') of
      None \<Rightarrow> refusedOnly s (run_state (withPrincipal K S req next) s)
    | Some b \<Rightarrow>
       (case tokenHolder parse je fs path b of
          None \<Rightarrow> refusedOnly s (run_state (withPrincipal K S req next) s)
        | Some p \<Rightarrow> \<exists>w'. run_state (withPrincipal K S req next) s = run_state (next p rid) (s\<lparr>world := w'\<rparr>))"
  by (rule fileAuthenticator.served_iff [OF assms])

section \<open>Observers\<close>

text \<open>The gateway, told that the principal may not control, only reads.\<close>

definition gatewayObserves :: "'w server \<Rightarrow> apiRequest \<Rightarrow> Principal \<Rightarrow> string \<Rightarrow> bool" where
  "gatewayObserves S req p rid \<longleftrightarrow> (\<forall>i g. svTerminal S = Some g \<longrightarrow> does readOnly (g req (prID p) i rid False))"

lemma readOnly_gateway:
  assumes "gatewayObserves S req p rid" "\<not> CanControl p"
  shows "does readOnly (handleTerminalRoute S req p rid i)"
  unfolding handleTerminalRoute_def using assms by (intro readOnly_intros) (simp_all add: gatewayObserves_def)

lemma readOnly_readAgent: "does readOnly (readAgent K cd req p rid i)"
  unfolding readAgent_def by (intro readOnly_intros)

lemma readOnly_handleList: "does readOnly (handleList K cd p rid req)"
  unfolding handleList_def by (intro readOnly_intros)

lemma observer_mutate: "\<not> CanControl p \<Longrightarrow> mutateAgent K cd p rid req i op = denyControl p rid req i"
  by (simp add: mutateAgent_def)

lemma observer_change: "\<not> CanControl p \<Longrightarrow> changeAdapter K cd S p rid req i = denyControl p rid req i"
  by (simp add: changeAdapter_def)

lemma observer_create: "\<not> CanControl p \<Longrightarrow> createAgent K cd S ord p rid req = denyControl p rid req []"
  by (simp add: createAgent_def denyControl_def)

lemma readOnly_handleAgents: "\<not> CanControl p \<Longrightarrow> does readOnly (handleAgents K cd S ord req p rid)"
  unfolding handleAgents_def by (intro readOnly_intros readOnly_handleList) (simp add: observer_create, intro readOnly_intros)

lemma readOnly_deny: "does readOnly (denyControl p rid req i)"
  by (intro readOnly_intros)

lemma readOnly_handleAgent:
  assumes "gatewayObserves S req p rid" "\<not> CanControl p"
  shows "does readOnly (handleAgent K cd S req p rid)"
proof -
  obtain i t where t: "agentTarget (aqPath req) = (i, t)" by (rule prod.exhaust)
  show ?thesis
  proof (cases t)
    case Terminal
    then show ?thesis using readOnly_gateway [OF assms, where i = i] by (simp add: handleAgent_def t does_return)
  next
    case Plain
    then show ?thesis
      by (simp add: handleAgent_def t observer_mutate assms(2) does_return readOnly_readAgent readOnly_deny)
  next
    case (Operate op)
    then show ?thesis by (simp add: handleAgent_def t observer_mutate assms(2) does_return readOnly_deny)
  next
    case ChangeTo
    then show ?thesis by (simp add: handleAgent_def t observer_change assms(2) does_return readOnly_deny)
  qed
qed

text \<open>
  Observers change nothing: whatever a principal without the control permission requests of
  the agent routes, with any method, path, headers and body, and whatever the API server answers,
  the handlers only read and write audit records, as long as the terminal gateway does the same
  when it is told that the principal may not control.
\<close>

theorem observer_changes_nothing:
  assumes "gatewayObserves S req p rid" "\<not> CanControl p"
  shows "does readOnly (handleAgents K cd S ord req p rid) \<and> does readOnly (handleAgent K cd S req p rid)"
  using readOnly_handleAgents [OF assms(2)] readOnly_handleAgent [OF assms] by blast

section \<open>Other owners' agents\<close>

lemma decoded_foreign:
  assumes "fst (apiGet K AgentGVR (resourceName i) (world s)) = Inr obj" "ownedBy cd other obj" "other \<noteq> owner"
  obtains w where "run_state (GetAgent K cd owner i) s =
    (Inl (LErr notFound), s\<lparr>world := w, actions := actions s @ [Call (CGet AgentGVR (resourceName i))]\<rparr>)"
proof -
  have own: "nestedString [''spec'', ''owner''] obj \<noteq> owner" using assms(2,3) by (simp add: ownedBy_def)
  define now where "now = fst (clock K (snd (apiGet K AgentGVR (resourceName i) (world s))))"
  obtain a where a: "agentFromObject cd now obj = Inr a" using assms(2) unfolding ownedBy_def by blast
  have "agOwner a \<noteq> owner" using agentFromObject_owner [OF a] own by simp
  then show thesis using assms(1) a that
    by (auto simp: GetAgent_def ownedObject_def run_bind run_kGet run_convert now_def kst_comm)
qed

lemma missing_agent:
  assumes "fst (apiGet K AgentGVR (resourceName i) (world s)) = Inl (NotFoundError t)"
  obtains w where "run_state (GetAgent K cd owner i) s =
    (Inl (LErr notFound), s\<lparr>world := w, actions := actions s @ [Call (CGet AgentGVR (resourceName i))]\<rparr>)"
  using assms that by (auto simp: GetAgent_def ownedObject_def run_bind run_kGet)

text \<open>What a request for an agent that is not there looks like: not found, one read, one audit record.\<close>

definition hidden :: "apiRequest \<Rightarrow> Principal \<Rightarrow> string \<Rightarrow> string \<Rightarrow> 'w kst \<Rightarrow> reply \<times> 'w kst \<Rightarrow> bool" where
  "hidden req p rid i s r \<longleftrightarrow> fst r = writeError rid notFound \<and>
     actions (snd r) = actions s @ [Call (CGet AgentGVR (resourceName i)),
       Audited (auditRecord req rid ''agent_access_denied'' (prID p) i ''not_owned_or_missing'')]"

lemma hidden_reads:
  assumes "run_state (GetAgent K cd (prID p) i) s =
    (Inl (LErr notFound), s\<lparr>world := w, actions := actions s @ [Call (CGet AgentGVR (resourceName i))]\<rparr>)"
  shows "hidden req p rid i s (run_state (readAgent K cd req p rid i) s)"
    "hidden req p rid i s (run_state (readForChange K cd p rid req i next) s)"
  using assms
  by (simp_all add: hidden_def readAgent_def readForChange_def run_bind codeOf_def notFound_def NewError_def audit_def run_kAudit
      writeAnyError_def)


section \<open>Creation\<close>

text \<open>What a stored agent must satisfy.\<close>

definition admitted :: "'w server \<Rightarrow> Principal \<Rightarrow> CreateRequest \<Rightarrow> bool" where
  "admitted S p create \<longleftrightarrow> CanControl p \<and> validateCreate (svURLParse S) create = None \<and>
     svQuantity S (resCPU (spResources (crSpec create))) \<and> svQuantity S (resMemory (spResources (crSpec create))) \<and>
     svQuantity S (wsSize (spWorkspace (crSpec create))) \<and>
     AllowsSecretProfile p (spSecretProfile (crSpec create)) \<and> AllowsCredentialProfile p (spCredentialProfile (crSpec create)) \<and>
     (\<exists>rt. Resolve (svAdapters S) (spKind (crSpec create)) (spSandboxProfile (crSpec create)) (spCredentialProfile (crSpec create)) = Inr rt)"

text \<open>The only object made is the agent, for this principal and from an admitted request.\<close>

definition createsAdmitted :: "codec \<Rightarrow> 'w server \<Rightarrow> Principal \<Rightarrow> action \<Rightarrow> bool" where
  "createsAdmitted cd S p act \<longleftrightarrow>
     (case act of
        Call (CCreate g obj) \<Rightarrow> g = AgentGVR \<and>
          (\<exists>i key hash create. obj = agentObject cd (svNamespace S) i (prID p) key hash create \<and> key \<noteq> [] \<and> admitted S p create)
      | Call (CUpdate g obj) \<Rightarrow> False
      | Call (CDelete g n pol) \<Rightarrow> False
      | Call (CPatch g n obj) \<Rightarrow> False
      | _ \<Rightarrow> True)"

lemma createsAdmitted_simps:
  "createsAdmitted cd S p (Call (CGet g n))" "createsAdmitted cd S p (Call (CList g n))"
  "createsAdmitted cd S p (Call (CUpdateStatus g obj))" "createsAdmitted cd S p (Published e)"
  "createsAdmitted cd S p (Enqueued i)" "createsAdmitted cd S p (Audited attrs)"
  by (simp_all add: createsAdmitted_def)

lemma does_Create:
  assumes "\<And>n. P (Call (CList AgentGVR n))" "\<And>obj. P (Call (CUpdateStatus AgentGVR obj))"
    "\<And>i hash. P (Call (CCreate AgentGVR (agentObject cd ns i owner key hash req)))"
  shows "does P (Create K cd ns owner key req)"
  unfolding Create_def by (intro does_intros assms)

lemma checkCreate_admits:
  assumes "checkCreate S ord req = Inr (key, create)" "set ord = {''cpu'', ''memory'', ''workspace.size''}"
  shows "key \<noteq> []" "validateCreate (svURLParse S) create = None"
    "svQuantity S (resCPU (spResources (crSpec create)))" "svQuantity S (resMemory (spResources (crSpec create)))"
    "svQuantity S (wsSize (spWorkspace (crSpec create)))"
proof -
  from assms(1) show "key \<noteq> []" "validateCreate (svURLParse S) create = None"
    by (auto simp: checkCreate_def Let_def split: if_splits sum.splits option.splits)
  from assms(1) have "badQuantity S ord create = None"
    by (auto simp: checkCreate_def Let_def split: if_splits sum.splits option.splits)
  then have q: "svQuantity S (quantities create f)" if "f \<in> {''cpu'', ''memory'', ''workspace.size''}" for f
    using that assms(2) by (auto simp: badQuantity_def find_None_iff)
  show "svQuantity S (resCPU (spResources (crSpec create)))" using q [of "''cpu''"] by (simp add: quantities_def)
  show "svQuantity S (resMemory (spResources (crSpec create)))" using q [of "''memory''"] by (simp add: quantities_def)
  show "svQuantity S (wsSize (spWorkspace (crSpec create)))" using q [of "''workspace.size''"] by (simp add: quantities_def)
qed

lemma yields_if: "(c \<Longrightarrow> yields P Q a) \<Longrightarrow> (\<not> c \<Longrightarrow> yields P Q b) \<Longrightarrow> yields P Q (if c then a else b)"
  by simp

text \<open>Authorization ends in a refusal unless the profiles are allowed.\<close>

lemma authorizeProfiles_allows:
  "yields (\<lambda>act. \<exists>attrs. act = Audited attrs) (\<lambda>r. r = None \<longrightarrow> AllowsSecretProfile p sp \<and> AllowsCredentialProfile p cp)
     (authorizeProfiles p req rid i sp cp)"
proof -
  have d: "yields (\<lambda>act. \<exists>attrs. act = Audited attrs) (\<lambda>r. r = None \<longrightarrow> Q)
      (State_Monad.bind (audit req rid ev pid aid reason) (\<lambda>_. ret (Some x)))" for Q ev pid aid reason x
    by (rule yields_bind [of _ "\<lambda>_. True"]) (auto intro: does_audit yields_return)
  show ?thesis unfolding authorizeProfiles_def
    by (intro yields_if d yields_return) (simp add: AllowsSecretProfile_def AllowsCredentialProfile_def)
qed

lemma yields_mono: "yields P Q m \<Longrightarrow> (\<And>a. P a \<Longrightarrow> P' a) \<Longrightarrow> (\<And>x. Q x \<Longrightarrow> Q' x) \<Longrightarrow> yields P' Q' m"
  unfolding yields_def list_all_iff by meson

text \<open>
  C28. Only admitted agents are stored: the one object that a creation makes is an agent that
  belongs to the principal who asked, and its request passed everything: the principal may control,
  the request is valid, its quantities are Kubernetes quantities, its secret and credential
  profiles are allowed to the principal, and its adapter and profile combination is installed.
  Nothing else is created, updated, patched or deleted.
\<close>

theorem only_admitted_stored:
  assumes "set ord = {''cpu'', ''memory'', ''workspace.size''}"
  shows "does (createsAdmitted cd S p) (createAgent K cd S ord p rid req)"
proof -
  have store: "does (createsAdmitted cd S p) (storeAgent K cd S p rid key create)" if "key \<noteq> []" "admitted S p create" for key create
    unfolding storeAgent_def
    by (intro does_intros does_Create createsAdmitted_simps) (use that in \<open>auto simp: createsAdmitted_def\<close>)
  have rest: "does (createsAdmitted cd S p) (State_Monad.bind (authorizeProfiles p req rid [] (spSecretProfile (crSpec create)) (spCredentialProfile (crSpec create)))
      (\<lambda>refusal. case refusal of Some r \<Rightarrow> ret r
        | None \<Rightarrow> (case Resolve (svAdapters S) (spKind (crSpec create)) (spSandboxProfile (crSpec create)) (spCredentialProfile (crSpec create)) of
             Inl e \<Rightarrow> ret (writeAdapterError rid e) | Inr _ \<Rightarrow> storeAgent K cd S p rid key create)))"
    if "CanControl p" and chk: "checkCreate S ord req = Inr (key, create)" for key create
  proof (rule yields_bind)
    show "yields (createsAdmitted cd S p) (\<lambda>r. r = None \<longrightarrow> AllowsSecretProfile p (spSecretProfile (crSpec create)) \<and>
        AllowsCredentialProfile p (spCredentialProfile (crSpec create)))
      (authorizeProfiles p req rid [] (spSecretProfile (crSpec create)) (spCredentialProfile (crSpec create)))"
      by (rule yields_mono [OF authorizeProfiles_allows]) (auto simp: createsAdmitted_simps)
  next
    fix refusal :: "reply option" assume "refusal = None \<longrightarrow> AllowsSecretProfile p (spSecretProfile (crSpec create)) \<and>
        AllowsCredentialProfile p (spCredentialProfile (crSpec create))"
    then show "does (createsAdmitted cd S p) (case refusal of Some r \<Rightarrow> ret r
        | None \<Rightarrow> (case Resolve (svAdapters S) (spKind (crSpec create)) (spSandboxProfile (crSpec create)) (spCredentialProfile (crSpec create)) of
             Inl e \<Rightarrow> ret (writeAdapterError rid e) | Inr _ \<Rightarrow> storeAgent K cd S p rid key create))"
      using checkCreate_admits [OF chk assms] that(1)
      by (intro does_intros store) (auto simp: admitted_def)
  qed
  show ?thesis
  proof (cases "CanControl p")
    case False
    then show ?thesis by (simp add: observer_create) (intro does_intros createsAdmitted_simps)
  next
    case True
    show ?thesis
    proof (cases "checkCreate S ord req")
      case (Inl e)
      then show ?thesis using True by (simp add: createAgent_def does_return)
    next
      case (Inr kc)
      then have "checkCreate S ord req = Inr (fst kc, snd kc)" by simp
      from rest [OF True this] show ?thesis using True by (simp only: createAgent_def Inr Let_def sum.case if_False not_True_eq_False)
    qed
  qed
qed

section \<open>Lifecycle requests\<close>

fun writesDesired :: "DesiredState \<Rightarrow> action \<Rightarrow> bool" where
  "writesDesired d (Call (CGet g n)) = (g = AgentGVR)"
| "writesDesired d (Call (CUpdate g obj)) = (g = AgentGVR \<and> nestedString [''spec'', ''desiredState''] obj = d)"
| "writesDesired d (Call (CUpdateStatus g obj)) = (g = AgentGVR)"
| "writesDesired d _ = False"

lemma SetDesired_writes: "does (writesDesired d) (SetDesired K cd owner i ifMatch d t)"
proof -
  have upd: "writesDesired d (Call (CUpdate AgentGVR obj1))" if "setNested [''spec'', ''desiredState''] (JStr d) obj = Some obj1" for obj obj1
    using nested_setNested [OF that] by (simp add: nestedString_def)
  have calls: "writesDesired d (Call (CGet AgentGVR n))" "writesDesired d (Call (CUpdateStatus AgentGVR obj))" for n obj by simp_all
  have w: "does (writesDesired d) (writeDesired K cd d t obj a)" for obj a
    unfolding writeDesired_def by (intro does_intros calls) (erule upd)
  show ?thesis unfolding SetDesired_def by (intro does_intros calls w)
qed

text \<open>The agent that the API server has stored, as read in this state.\<close>

definition storedAs :: "'w kube \<Rightarrow> codec \<Rightarrow> string \<Rightarrow> 'w kst \<Rightarrow> Agent \<Rightarrow> bool" where
  "storedAs K cd i s a \<longleftrightarrow>
     (\<exists>obj now. fst (apiGet K AgentGVR (resourceName i) (world s)) = Inr obj \<and> agentFromObject cd now obj = Inr a)"

lemma GetAgent_log:
  assumes "run_state (GetAgent K cd owner i) s = (r, s1)"
  shows "actions s1 = actions s @ [Call (CGet AgentGVR (resourceName i))]" "r = Inr a \<Longrightarrow> agOwner a = owner \<and> storedAs K cd i s a"
  using assms
  by (auto simp: GetAgent_def ownedObject_def run_bind run_kGet run_convert storedAs_def split: sum.splits if_splits)

text \<open>The transitions users may ask for.\<close>

definition requestable :: "operation \<Rightarrow> State \<Rightarrow> DesiredState \<Rightarrow> State \<Rightarrow> bool" where
  "requestable op st d t \<longleftrightarrow>
     op = OpStop \<and> st = ''running'' \<and> d = ''stopped'' \<and> t = ''stopping'' \<or>
     op = OpResume \<and> st = ''stopped'' \<and> d = ''running'' \<and> t = ''provisioning'' \<or>
     op = OpDelete \<and> st \<noteq> ''deleting'' \<and> d = ''deleted'' \<and> t = ''deleting''"

lemma planOperation_requestable: "planOperation op st = Inr (Some (d, t)) \<longleftrightarrow> requestable op st d t"
  by (cases op) (auto simp: requestable_def CanStop_def CanResume_def state_defs desired_defs)

lemma readForChange_effects:
  assumes "run_state (readForChange K cd p rid req i next) s = (r, s')"
  shows "(\<exists>as. actions s' = actions s @ as \<and> list_all readOnly as) \<or>
    (\<exists>a s1. agOwner a = prID p \<and> storedAs K cd i s a \<and> actions s1 = actions s @ [Call (CGet AgentGVR (resourceName i))] \<and> run_state (next a) s1 = (r, s'))"
proof -
  obtain g s1 where g: "run_state (GetAgent K cd (prID p) i) s = (g, s1)" by (rule prod.exhaust)
  note log = GetAgent_log(1) [OF g]
  show ?thesis
  proof (cases g)
    case (Inl e)
    let ?m = "State_Monad.bind (if codeOf e = ''agent_not_found'' then audit req rid ''agent_access_denied'' (prID p) i ''not_owned_or_missing'' else ret ())
      (\<lambda>_. ret (writeAnyError rid e))"
    have d: "does readOnly ?m" by (intro readOnly_intros)
    have "run_state ?m s1 = (r, s')"
      using assms g Inl by (simp only: readForChange_def run_bind [of "GetAgent K cd (prID p) i"] Let_def prod.case sum.case)
    from yields_new [OF d this] obtain as where "actions s' = actions s1 @ as" "list_all readOnly as" by (elim exE conjE)
    then show ?thesis using log by (intro disjI1 exI [of _ "Call (CGet AgentGVR (resourceName i)) # as"]) simp
  next
    case (Inr a)
    show ?thesis
    proof (cases "etagMatches cd (aqHeader req ''If-Match'') a")
      case False
      then have "s' = s1" using assms g Inr by (simp add: readForChange_def run_bind)
      then show ?thesis using log by simp
    next
      case True
      then have "run_state (next a) s1 = (r, s')" using assms g Inr by (simp add: readForChange_def run_bind)
      then show ?thesis using log GetAgent_log(2) [OF g Inr] by blast
    qed
  qed
qed

text \<open>The effects of a planned operation on an agent in state \<open>st\<close>, after the actions \<open>before\<close>.\<close>

definition operated ::
  "codec \<Rightarrow> Principal \<Rightarrow> string \<Rightarrow> string \<Rightarrow> operation \<Rightarrow> State \<Rightarrow> action list \<Rightarrow> reply \<Rightarrow> bool" where
  "operated cd p rid i op st as r \<longleftrightarrow>
     (\<exists>d t ws. requestable op st d t \<and> list_all (writesDesired d) ws \<and>
        (as = ws \<and> (\<exists>e. r = writeAnyError rid e) \<or>
         (\<exists>now u. as = ws @ [Published (requestedEvent ''agent.state_changed'' i st t now rid (prID p)), Enqueued i] \<and>
            r = accepted cd rid u)))"

lemma applyOperation_effects:
  assumes "run_state (applyOperation K cd p rid req i op a) s = (r, s')"
  shows "s' = s \<or> (\<exists>as. actions s' = actions s @ as \<and> operated cd p rid i op (stState (agStatus a)) as r)"
proof (cases "\<exists>d t. planOperation op (stState (agStatus a)) = Inr (Some (d, t))")
  case False
  then show ?thesis using assms by (auto simp: applyOperation_def split: sum.splits option.splits)
next
  case True
  then obtain d t where plan: "planOperation op (stState (agStatus a)) = Inr (Some (d, t))" by blast
  then have req: "requestable op (stState (agStatus a)) d t" using planOperation_requestable by blast
  obtain u s2 where u: "run_state (SetDesired K cd (prID p) i (aqHeader req ''If-Match'') d t) s = (u, s2)" by (rule prod.exhaust)
  from yields_new [OF SetDesired_writes u] obtain ws where ws: "actions s2 = actions s @ ws" "list_all (writesDesired d) ws" by auto
  show ?thesis
  proof (cases u)
    case (Inl e)
    then have "s' = s2" "r = writeAnyError rid e" using assms plan u by (auto simp: applyOperation_def run_bind)
    then show ?thesis using req ws unfolding operated_def by blast
  next
    case (Inr updated)
    then have "actions s' = actions s2 @ [Published (requestedEvent ''agent.state_changed'' i (stState (agStatus a)) t
        (fst (clock K (world s2))) rid (prID p)), Enqueued i]" "r = accepted cd rid updated"
      using assms plan u by (auto simp: applyOperation_def run_bind run_kNow run_kPublish kEnqueue_def effect_def)
    then show ?thesis using req ws unfolding operated_def by auto
  qed
qed

lemma operated_after:
  assumes "operated cd p rid i op st as r"
  shows "operated cd p rid i op st (Call (CGet AgentGVR n) # as) r"
proof -
  obtain d t ws where o: "requestable op st d t" "list_all (writesDesired d) ws"
    "as = ws \<and> (\<exists>e. r = writeAnyError rid e) \<or>
     (\<exists>now u. as = ws @ [Published (requestedEvent ''agent.state_changed'' i st t now rid (prID p)), Enqueued i] \<and> r = accepted cd rid u)"
    using assms unfolding operated_def by (elim exE conjE)
  then show ?thesis unfolding operated_def
    by (intro exI [of _ d] exI [of _ t] exI [of _ "Call (CGet AgentGVR n) # ws"]) auto
qed


section \<open>Event connections\<close>

fun receivedEvents :: "streamInput list \<Rightarrow> Event list" where
  "receivedEvents [] = []"
| "receivedEvents (SEvent e # is) = e # receivedEvents is"
| "receivedEvents (_ # is) = receivedEvents is"

lemma writeSSE_not_keepalive: "writeSSE cd e \<noteq> keepalive"
  by (simp add: writeSSE_def keepalive_def)

lemma streamLoop_events:
  assumes "SClosed \<notin> set is" "SDone \<notin> set is"
  shows "filter (\<lambda>t. t \<noteq> keepalive) (streamLoop cd owner f is) = map (writeSSE cd) (filter (wanted owner f) (receivedEvents is))"
  using assms by (induction cd owner f "is" rule: streamLoop.induct) (auto simp: writeSSE_not_keepalive)

lemma openEventStream_Inr:
  assumes "openEventStream cd flusher req p rid b = (Inr (first, c), b')"
  obtains replay where "Subscribe (prID p) (aqHeader req ''Last-Event-ID'') b = (Some (replay, c), b')"
    "first = map (writeSSE cd) (filter (\<lambda>e. aqQuery req ''agentId'' = [] \<or> evAgentID e = aqQuery req ''agentId'') replay)"
  using assms by (auto simp: openEventStream_def split: prod.splits option.splits if_splits)

text \<open>
  C30. An event connection tells the whole story: what it has written, keep-alives apart, is one
  text for each event of its owner, and of the agent it asks for, from its cursor on, in order and
  without a gap, up to the event received last; this holds across whatever else is published,
  subscribed or cancelled on the bus, as long as the bus still serves the connection.
\<close>

theorem event_connection_complete:
  assumes "busReach y" "openEventStream cd flusher req p rid (yBus y) = (Inr (first, c), b')"
    "busSteps (y\<lparr>yBus := b', yFrom := (yFrom y)(c := length (yLog y)), yGot := (yGot y)(c := [])\<rparr>) y'"
    "c \<in> ebSubscribers (yBus y')" "receivedEvents is = yGot y' c" "SClosed \<notin> set is" "SDone \<notin> set is"
  shows "\<exists>k n. k \<le> length (yLog y) \<and>
    (aqHeader req ''Last-Event-ID'' = [] \<longrightarrow> k = length (yLog y) - nat (ebCapacity (yBus y))) \<and>
    (aqHeader req ''Last-Event-ID'' \<noteq> [] \<longrightarrow> 0 < k \<and> evID (yLog y ! (k - 1)) = aqHeader req ''Last-Event-ID'') \<and>
    n = length (yLog y) - k + length (yGot y' c) \<and>
    filter (\<lambda>t. t \<noteq> keepalive) (first @ streamLoop cd (prID p) (aqQuery req ''agentId'') is) =
      map (writeSSE cd) (filter (wanted (prID p) (aqQuery req ''agentId'')) (take n (drop k (yLog y'))))"
proof -
  let ?f = "aqQuery req ''agentId''" and ?aft = "aqHeader req ''Last-Event-ID''"
  obtain replay where R: "Subscribe (prID p) ?aft (yBus y) = (Some (replay, c), b')"
    "first = map (writeSSE cd) (filter (\<lambda>e. ?f = [] \<or> evAgentID e = ?f) replay)"
    by (rule openEventStream_Inr [OF assms(2)])
  obtain k where k: "k \<le> length (yLog y)" "?aft = [] \<longrightarrow> k = length (yLog y) - nat (ebCapacity (yBus y))"
    "?aft \<noteq> [] \<longrightarrow> 0 < k \<and> evID (yLog y ! (k - 1)) = ?aft"
    "replay = filter (\<lambda>e. evOwner e = prID p) (drop k (yLog y))" "drop k (yLog y) @ carried y' c = drop k (yLog y')"
    by (rule subscription_gapless [OF assms(1) R(1) assms(3,4)])
  have "filter (\<lambda>e. ?f = [] \<or> evAgentID e = ?f) replay = filter (wanted (prID p) ?f) (drop k (yLog y))"
    unfolding k(4) filter_filter by (rule filter_cong [OF refl]) (auto simp: wanted_def)
  then have first: "filter (\<lambda>t. t \<noteq> keepalive) first = map (writeSSE cd) (filter (wanted (prID p) ?f) (drop k (yLog y)))"
    unfolding R(2) by (simp add: filter_id_conv writeSSE_not_keepalive)
  define n where "n = length (yLog y) - k + length (yGot y' c)"
  have "take n (drop k (yLog y')) = drop k (yLog y) @ yGot y' c"
    unfolding k(5) [symmetric] by (simp add: n_def carried_def)
  then show ?thesis
    using k(1-3) first streamLoop_events [OF assms(6,7), of cd "prID p" ?f] assms(5)
    by (intro exI [of _ k] exI [of _ n]) (simp add: n_def)
qed

section \<open>Listing never panics\<close>

lemma listAgents_total:
  assumes "listOptions req = Inr opts"
  shows "listAgents owner opts all \<noteq> None"
proof -
  have "1 \<le> loLimit opts" using assms by (auto simp: listOptions_def Let_def split: if_splits option.splits)
  then have "pageOf (loLimit opts) as \<noteq> None" for as by (auto simp: pageOf_def Let_def)
  then show ?thesis by (auto simp: listAgents_def Let_def split: option.splits)
qed

text \<open>
  Listing answers: for every query a list request is answered with a page, or with an error
  that names the bad parameter or the failure; the slice expression of the page never panics.
\<close>

theorem list_answers:
  "fst (run_state (handleList K cd p rid req) s) \<noteq> Panicked"
proof (cases "listOptions req")
  case (Inr opts)
  then show ?thesis
    by (auto dest: listAgents_total [OF Inr, THEN notE] simp: handleList_def ListAgents_def run_bind writeAnyError_def writeErrorWith_def case_prod_beta split: sum.splits option.splits)
qed (simp add: handleList_def writeErrorWith_def)

section \<open>Concrete requests\<close>

definition sampleServer :: "unit server" where
  "sampleServer = \<lparr>svNamespace = ''ns'', svAdapters = Map.empty, svAdapterIDs = [],
     svAuthenticate = (\<lambda>b w. (Authenticate (\<lambda>s. Some (demoFile, [])) (\<lambda>_. []) (\<lambda>_. Inr (Inr ''x'')) ''p'' b, w)),
     svReady = None, svTerminal = None, svQuantity = (\<lambda>_. True), svScanner = (\<lambda>_. None), svJsonError = (\<lambda>_. []),
     svURLParse = (\<lambda>_. None), svPathEscape = id\<rparr>"

definition sampleRequest :: "string \<Rightarrow> apiRequest" where
  "sampleRequest meth = \<lparr>aqMethod = meth, aqPath = ''/v1alpha1/agents'',
     aqHeader = (\<lambda>h. if h = ''Authorization'' then ''Bearer '' @ replicate 32 (CHR ''t'')
                 else if h = ''X-Request-ID'' then ''r'' else []), aqQuery = (\<lambda>_. []), aqBody = []\<rparr>"

definition samplePrincipal :: "string list \<Rightarrow> Principal" where
  "samplePrincipal perms = zeroPrincipal\<lparr>prID := ''me'', prPermissions := set perms\<rparr>"

theorem api_authenticated_witness:
  "\<exists>p w'. prID p = ''op'' \<and>
     run_state (withPrincipal (constKube [] (Inr JNull)) sampleServer (sampleRequest ''GET'')
       (\<lambda>p rid. handleList (constKube [] (Inr JNull)) sampleCodec p rid (sampleRequest ''GET''))) emptyLog =
     run_state (handleList (constKube [] (Inr JNull)) sampleCodec p ''r'' (sampleRequest ''GET'')) (emptyLog\<lparr>world := w'\<rparr>)"
proof -
  let ?K = "constKube [] (Inr JNull)" and ?req = "sampleRequest ''GET''"
  have rid: "run_state (requestIDOf ?K ?req) emptyLog = (''r'', emptyLog\<lparr>world := ()\<rparr>)"
    by (simp add: requestIDOf_def sampleRequest_def)
  have auth: "svAuthenticate sampleServer = (\<lambda>b w. (Authenticate (\<lambda>s. Some (demoFile, [])) (\<lambda>_. []) (\<lambda>_. Inr (Inr ''x'')) ''p'' b, w))"
    by (simp add: sampleServer_def)
  have b: "bearerOf (aqHeader ?req ''Authorization'') = Some (replicate 32 (CHR ''t''))"
    by (simp add: bearerOf_def sampleRequest_def hasPrefix_def trimPrefix_def list_ex_iff)
  have h: "tokenHolder (\<lambda>s. Some (demoFile, [])) (\<lambda>_. []) (\<lambda>_. Inr (Inr ''x'')) ''p'' (replicate 32 (CHR ''t'')) = Some (principal demoCredential)"
    by (simp add: tokenHolder_def demoFile_load demoCredential_def)
  have "prID (principal demoCredential) = ''op''"
    by (simp add: principal_def NewPrincipalWithCredentialProfiles_def demoCredential_def isAlnum_def isLower_def validPermission_def
        PermissionControl_def)
  then show ?thesis
    using api_authenticated [OF auth rid, of "\<lambda>p rid. handleList ?K sampleCodec p rid ?req"]
    unfolding b option.case h by blast
qed

theorem observer_changes_nothing_witness:
  "does readOnly (handleAgents (constKube [] (Inr JNull)) sampleCodec sampleServer [] (sampleRequest ''POST'') (samplePrincipal [''observe'']) ''r'')"
  using observer_changes_nothing [of sampleServer "sampleRequest ''POST''" "samplePrincipal [''observe'']" "''r''"]
  by (simp add: gatewayObserves_def sampleServer_def samplePrincipal_def CanControl_def hasPermission_def PermissionControl_def)


theorem only_admitted_stored_witness:
  "does (createsAdmitted sampleCodec sampleServer (samplePrincipal [''control'']))
     (createAgent (constKube [] (Inr JNull)) sampleCodec sampleServer [''cpu'', ''memory'', ''workspace.size'']
       (samplePrincipal [''control'']) ''r'' (sampleRequest ''POST''))"
  by (rule only_admitted_stored) simp


text \<open>The sample subscription of the event bus, one event further.\<close>

definition sampleRecv :: busSys where
  "sampleRecv = samplePub\<lparr>yBus := (yBus samplePub)\<lparr>ebChans := (ebChans (yBus samplePub))(0 \<mapsto> \<lparr>chBuffer = [], chClosed = False\<rparr>)\<rparr>,
     yGot := (yGot samplePub)(0 := yGot samplePub 0 @ [sampleEvent ''e1''])\<rparr>"

lemma sampleRecv_step: "busStep samplePub sampleRecv"
  using BReceive [of samplePub 0 "\<lparr>chBuffer = [sampleEvent ''e1''], chClosed = False\<rparr>" "sampleEvent ''e1''" "[]"]
  by (simp add: sampleRecv_def) (simp add: samplePub_def)

theorem event_connection_complete_witness:
  "filter (\<lambda>t. t \<noteq> keepalive) (streamLoop sampleCodec ''me'' [] [SHeartbeat, SEvent (sampleEvent ''e1'')]) =
     [writeSSE sampleCodec (sampleEvent ''e1'')]"
proof -
  let ?p = "samplePrincipal [''control'']" and ?req = "(sampleRequest ''GET'')\<lparr>aqHeader := \<lambda>_. []\<rparr>"
  let ?b = "snd (Subscribe ''me'' [] (yBus sampleBus))"
  have p: "prID ?p = ''me''" by (simp add: samplePrincipal_def)
  have q: "aqQuery ?req ''agentId'' = []" "aqHeader ?req ''Last-Event-ID'' = []" by (simp_all add: sampleRequest_def)
  have open': "openEventStream sampleCodec True ?req ?p ''r'' (yBus sampleBus) = (Inr ([], 0), ?b)"
    unfolding openEventStream_def p q by (subst sample_run(2)) simp
  have steps: "busSteps (sampleBus\<lparr>yBus := ?b, yFrom := (yFrom sampleBus)(0 := length (yLog sampleBus)),
      yGot := (yGot sampleBus)(0 := [])\<rparr>) sampleRecv"
    by (rule busSteps_step [OF sample_run(3) sampleRecv_step])
  have got: "receivedEvents [SHeartbeat, SEvent (sampleEvent ''e1'')] = yGot sampleRecv 0" "0 \<in> ebSubscribers (yBus sampleRecv)"
    "yLog sampleRecv = [sampleEvent ''e1'']" "yLog sampleBus = []"
    by (simp_all add: sampleRecv_def samplePub_def sampleSub_def sampleBus_def busInit_def)
  have w: "wanted ''me'' [] (sampleEvent ''e1'')" by (simp add: wanted_def sampleEvent_def)
  have "yGot sampleRecv 0 = [sampleEvent ''e1'']" using got(1) by simp
  then show ?thesis
    using event_connection_complete [OF sample_run(1) open' steps got(2) got(1)] got(3,4) w
    unfolding p q by auto
qed

section \<open>A deletion can be undone\<close>

text \<open>An API server on which the agent is deleted by somebody else after it was read once.\<close>

definition statusDoc :: "json \<Rightarrow> DesiredState \<Rightarrow> json" where
  "statusDoc st d = JObj [(''metadata'', JObj []),
     (''spec'', JObj [(''id'', JStr ''i''), (''owner'', JStr ''me''), (''desiredState'', JStr d)]), (''status'', st)]"

definition agentDoc :: "State \<Rightarrow> DesiredState \<Rightarrow> json" where
  "agentDoc st d = statusDoc (JObj [(''state'', JStr st)]) d"

definition raceKube :: "nat kube" where
  "raceKube = \<lparr>apiGet = (\<lambda>g n w. (Inr (if w = 0 then agentDoc StateRunning DesiredRunning else agentDoc StateDeleting DesiredDeleted), Suc w)),
     apiList = (\<lambda>g n w. (Inr [], w)), apiCreate = (\<lambda>g obj w. (Inr obj, w)),
     apiUpdate = (\<lambda>g obj w. (Inr obj, w)), apiUpdateStatus = (\<lambda>g obj w. (Inr obj, w)), apiPatch = (\<lambda>g n obj w. (Inr obj, w)),
     apiDelete = (\<lambda>_ _ _ w. (None, w)), clock = (\<lambda>w. (0, w)), freshID = (\<lambda>w. (''id'', w))\<rparr>"

lemma statusDoc_read:
  assumes "decodeStruct False (statusFields cd) (JObj ms) zeroStatus = Some st" "stState st \<noteq> []"
  obtains a where "agentFromObject cd now (statusDoc (JObj ms) d) = Inr a" "agOwner a = ''me''" "agStatus a = st"
proof -
  have "nestedMap [''spec'', ''agent''] (statusDoc (JObj ms) d) = None" "nestedMap [''status''] (statusDoc (JObj ms) d) = Some ms"
    "nestedString [''spec'', ''owner''] (statusDoc (JObj ms) d) = ''me''"
    by (simp_all add: statusDoc_def nestedMap_def nestedString_def)
  then show thesis using assms that by (auto simp: agentFromObject_def Let_def)
qed

lemma agentDoc_read:
  assumes "st \<noteq> []"
  obtains a where "agentFromObject cd now (agentDoc st d) = Inr a" "agOwner a = ''me''" "agStatus a = zeroStatus\<lparr>stState := st\<rparr>"
proof (rule statusDoc_read)
  show "decodeStruct False (statusFields cd) (JObj [(''state'', JStr st)]) zeroStatus = Some (zeroStatus\<lparr>stState := st\<rparr>)"
    by (simp add: statusFields_find setField_def)
qed (use assms that in \<open>auto simp: agentDoc_def\<close>)

lemma raceKube_calls:
  "apiGet raceKube g n w = (Inr (if w = 0 then agentDoc StateRunning DesiredRunning else agentDoc StateDeleting DesiredDeleted), Suc w)"
  "apiUpdate raceKube g obj w = (Inr obj, w)" "apiUpdateStatus raceKube g obj w = (Inr obj, w)" "clock raceKube w = (0, w)"
  by (simp_all add: raceKube_def)

text \<open>The write that undoes the deletion.\<close>

lemma race_write:
  assumes "agStatus a = zeroStatus\<lparr>stState := StateDeleting\<rparr>"
  shows "\<exists>u s' obj. run_state (writeDesired raceKube sampleCodec ''stopped'' StateStopping (agentDoc StateDeleting DesiredDeleted) a) s = (Inr u, s') \<and>
    actions s' = actions s @ [Call (CUpdate AgentGVR (agentDoc StateDeleting ''stopped'')), Call (CUpdateStatus AgentGVR obj)]"
proof -
  let ?st = "(agStatus a)\<lparr>stState := StateStopping, stReason := [], stMessage := [], stLastTransitionAt := Some 0\<rparr>"
  have pr: "statusPrints sampleCodec ?st"
    using parseIntLit_formatInt [of "- (2 ^ 63)" 0 "2 ^ 63 - 1"]
    by (simp add: assms statusPrints_def printsTime_def printsInt_def sampleCodec_def zeroStatus_def)
  obtain ms where ms: "statusJson sampleCodec ?st = JObj ms" using statusJson_JObj by blast
  obtain u where u: "agentFromObject sampleCodec 0 (statusDoc (JObj ms) ''stopped'') = Inr u"
    by (rule statusDoc_read [of sampleCodec ms ?st 0 "''stopped''"]) (use status_roundtrip [OF pr] ms in \<open>simp_all add: StateStopping_def\<close>)
  have set1: "setNested [''spec'', ''desiredState''] (JStr ''stopped'') (agentDoc StateDeleting DesiredDeleted) = Some (agentDoc StateDeleting ''stopped'')"
    by (simp add: agentDoc_def statusDoc_def)
  have set2: "setNested [''status''] (JObj ms) (agentDoc StateDeleting ''stopped'') = Some (statusDoc (JObj ms) ''stopped'')"
    by (simp add: agentDoc_def statusDoc_def)
  show ?thesis
    by (simp add: writeDesired_def set1 run_bind run_kUpdate run_kNow raceKube_calls updateStatusObject_def ms set2 run_kUpdateStatus run_convert u)
qed

text \<open>
  C31. A deletion can be undone by a request that was checked before it: without an entity tag,
  the state that a stop request is checked against is read separately from the object it writes.
  When the agent is deleted between the two reads, the request replaces the desired state
  \<open>deleted\<close> by \<open>stopped\<close>, and is accepted.
\<close>

theorem stop_undoes_delete:
  "\<exists>u s' obj. run_state (mutateAgent raceKube sampleCodec (samplePrincipal [''control'']) ''r'' (sampleRequest ''POST'') ''i'' OpStop)
       \<lparr>world = 0, actions = []\<rparr> = (accepted sampleCodec ''r'' u, s') \<and>
     fst (apiGet raceKube AgentGVR (resourceName ''i'') 1) = Inr (agentDoc StateDeleting DesiredDeleted) \<and>
     Call (CUpdate AgentGVR obj) \<in> set (actions s') \<and> nestedString [''spec'', ''desiredState''] obj = ''stopped''"
proof -
  let ?p = "samplePrincipal [''control'']" and ?req = "sampleRequest ''POST''" and ?s = "\<lparr>world = 0, actions = []\<rparr> :: nat kst"
  let ?get = "Call (CGet AgentGVR (resourceName ''i''))"
  have p: "CanControl ?p" "prID ?p = ''me''" "aqHeader ?req ''If-Match'' = []"
    by (simp_all add: samplePrincipal_def CanControl_def hasPermission_def PermissionControl_def sampleRequest_def)
  obtain a where a: "agentFromObject sampleCodec 0 (agentDoc StateRunning DesiredRunning) = Inr a" "agOwner a = ''me''"
      "agStatus a = zeroStatus\<lparr>stState := StateRunning\<rparr>"
    by (rule agentDoc_read [of StateRunning]) (simp add: StateRunning_def)
  obtain b where b: "agentFromObject sampleCodec 0 (agentDoc StateDeleting DesiredDeleted) = Inr b" "agOwner b = ''me''"
      "agStatus b = zeroStatus\<lparr>stState := StateDeleting\<rparr>"
    by (rule agentDoc_read [of StateDeleting]) (simp add: StateDeleting_def)
  have plan: "planOperation OpStop (stState (agStatus a)) = Inr (Some (''stopped'', StateStopping))"
    by (simp add: a(3) CanStop_def state_defs desired_defs)
  have get: "run_state (GetAgent raceKube sampleCodec ''me'' ''i'') ?s = (Inr a, \<lparr>world = Suc 0, actions = [?get]\<rparr>)"
    by (simp add: GetAgent_def ownedObject_def run_bind run_kGet run_convert raceKube_calls a)
  have get2: "run_state (ownedObject raceKube sampleCodec ''me'' ''i'') \<lparr>world = Suc 0, actions = [?get]\<rparr> =
      (Inr (agentDoc StateDeleting DesiredDeleted, b), \<lparr>world = Suc (Suc 0), actions = [?get, ?get]\<rparr>)"
    by (simp add: ownedObject_def run_bind run_kGet run_convert raceKube_calls b)
  from race_write [OF b(3), of "\<lparr>world = Suc (Suc 0), actions = [?get, ?get]\<rparr>"] obtain u s2 obj where
    w: "run_state (writeDesired raceKube sampleCodec ''stopped'' StateStopping (agentDoc StateDeleting DesiredDeleted) b)
         \<lparr>world = Suc (Suc 0), actions = [?get, ?get]\<rparr> = (Inr u, s2)"
       "actions s2 = [?get, ?get, Call (CUpdate AgentGVR (agentDoc StateDeleting ''stopped'')), Call (CUpdateStatus AgentGVR obj)]" by auto
  have "nestedString [''spec'', ''desiredState''] (agentDoc StateDeleting ''stopped'') = ''stopped''"
    by (simp add: agentDoc_def statusDoc_def nestedString_def)
  then show ?thesis
    using w by (auto simp: mutateAgent_def p readForChange_def run_bind get etagMatches_def applyOperation_def plan SetDesired_def get2
        run_kNow run_kPublish kEnqueue_def effect_def raceKube_calls simp del: planOperation.simps)
qed

end
