(* ===== verification/GoPath.thy ===== *)
theory GoPath
  imports GoText
begin

text \<open>
  What the sources use of Go's \<^verbatim>\<open>path/filepath\<close> on Unix: the lexical cleaning of a path, joining,
  the directory of a path, absolute paths. Slash-separated elements are processed from the left;
  the elements kept so far are held in reverse.
\<close>

definition slash :: char where "slash = CHR ''/''"

definition IsAbs :: "string \<Rightarrow> bool" where
  "IsAbs p = hasPrefix p [slash]"

fun cleanElement :: "bool \<Rightarrow> string \<Rightarrow> string list \<Rightarrow> string list" where
  "cleanElement rooted e kept =
     (if e = [] \<or> e = ''.'' then kept
      else if e = ''..'' then
        (case kept of
           [] \<Rightarrow> if rooted then [] else [''..'']
         | k # ks \<Rightarrow> if k = ''..'' then ''..'' # kept else ks)
      else e # kept)"

definition cleanElements :: "bool \<Rightarrow> string list \<Rightarrow> string list" where
  "cleanElements rooted es = rev (fold (cleanElement rooted) es [])"

fun joinSlash :: "string list \<Rightarrow> string" where
  "joinSlash [] = []"
| "joinSlash [e] = e"
| "joinSlash (e # es) = e @ slash # joinSlash es"

definition cleanPath :: "string \<Rightarrow> string" where
  "cleanPath p =
     (let rooted = IsAbs p;
          out = (if rooted then [slash] else []) @ joinSlash (cleanElements rooted (splitOn slash p))
      in if out = [] then ''.'' else out)"

text \<open>\<open>filepath.Join\<close> of two elements, and \<open>filepath.Dir\<close>.\<close>

definition joinPath :: "string \<Rightarrow> string \<Rightarrow> string" where
  "joinPath a b =
     (if a = [] \<and> b = [] then [] else if a = [] then cleanPath b else cleanPath (a @ slash # b))"

definition dirPath :: "string \<Rightarrow> string" where
  "dirPath p = cleanPath (rev (dropWhile (\<lambda>c. c \<noteq> slash) (rev p)))"

section \<open>Clean paths\<close>

text \<open>A plain element names an entry of a directory.\<close>

definition plain :: "string \<Rightarrow> bool" where
  "plain e \<longleftrightarrow> e \<noteq> [] \<and> e \<noteq> ''.'' \<and> e \<noteq> ''..'' \<and> slash \<notin> set e"

definition absolutePath :: "string list \<Rightarrow> string" where
  "absolutePath es = slash # joinSlash es"

lemma fold_plain: "list_all plain es \<Longrightarrow> fold (cleanElement r) es kept = rev es @ kept"
  by (induction es arbitrary: kept) (auto simp: plain_def)

lemma splitOn_slashfree: "slash \<notin> set s \<Longrightarrow> p # ps = splitOn slash s \<Longrightarrow> slash \<notin> set p"
  by (simp add: splitOn_none)

lemma splitOn_free: "\<forall>e \<in> set (splitOn c s). c \<notin> set e"
  by (induction s) (auto split: list.splits)

lemma splitOn_joinSlash: "list_all plain es \<Longrightarrow> es \<noteq> [] \<Longrightarrow> splitOn slash (joinSlash es) = es"
  by (induction es rule: joinSlash.induct) (auto simp: plain_def splitOn_none splitOn_append)

lemma splitOn_absolute:
  "list_all plain es \<Longrightarrow> splitOn slash (absolutePath es) = [] # (if es = [] then [[]] else es)"
  by (simp add: absolutePath_def splitOn_joinSlash)

lemma cleanPath_absolute: "list_all plain es \<Longrightarrow> cleanPath (absolutePath es) = absolutePath es"
  by (cases "es = []")
    (simp_all add: cleanPath_def splitOn_joinSlash cleanElements_def fold_plain Let_def IsAbs_def hasPrefix_def absolutePath_def)

lemma joinSlash_snoc: "es \<noteq> [] \<Longrightarrow> joinSlash (es @ [e]) = joinSlash es @ slash # e"
  by (induction es rule: joinSlash.induct) auto

lemma splitOn_slashes: "splitOn c (a @ c # b) = splitOn c a @ splitOn c b"
  by (induction a) (auto split: list.splits)

lemma joinPath_absolute:
  assumes "list_all plain es" "plain e"
  shows "joinPath (absolutePath es) e = absolutePath (es @ [e])"
proof -
  have "slash \<notin> set e" using assms(2) by (simp add: plain_def)
  then have "splitOn slash (absolutePath es @ slash # e) = [] # (if es = [] then [[]] else es) @ [e]"
    using assms(1) by (simp add: splitOn_slashes splitOn_absolute splitOn_none)
  moreover have "fold (cleanElement True) ([] # (if es = [] then [[]] else es) @ [e]) [] = e # rev es"
    using assms fold_plain [of es True "[]"] fold_plain [of "[e]" True] by (auto simp: plain_def)
  moreover have "IsAbs (absolutePath es @ slash # e)" "absolutePath es \<noteq> []"
    by (simp_all add: IsAbs_def hasPrefix_def absolutePath_def)
  ultimately show ?thesis
    by (simp add: joinPath_def cleanPath_def Let_def cleanElements_def del: splitOn.simps) (simp add: absolutePath_def)
qed

text \<open>Cleaning an absolute path leaves plain elements only.\<close>

lemma fold_absolute_plain:
  "\<forall>e \<in> set es. slash \<notin> set e \<Longrightarrow> list_all plain kept \<Longrightarrow> list_all plain (fold (cleanElement True) es kept)"
  by (induction es arbitrary: kept) (auto simp: plain_def split: list.splits)

lemma cleanPath_is_absolute:
  assumes "IsAbs p"
  obtains es where "list_all plain es" "cleanPath p = absolutePath es"
proof
  show "list_all plain (cleanElements True (splitOn slash p))"
    using fold_absolute_plain [OF splitOn_free [of slash p], of "[]"] by (simp add: cleanElements_def list_all_iff)
  show "cleanPath p = absolutePath (cleanElements True (splitOn slash p))"
    using assms by (simp add: cleanPath_def absolutePath_def Let_def)
qed

lemma cleanPath_idem: "IsAbs p \<Longrightarrow> cleanPath (cleanPath p) = cleanPath p"
  by (erule cleanPath_is_absolute) (simp add: cleanPath_absolute)

lemma absolutePath_inject:
  assumes "list_all plain xs" "list_all plain ys" "absolutePath xs = absolutePath ys"
  shows "xs = ys"
proof -
  have "(if xs = [] then [[]] else xs) = (if ys = [] then [[]] else ys)"
    using splitOn_absolute [OF assms(1)] splitOn_absolute [OF assms(2)] assms(3) by simp
  then show ?thesis using assms(1,2) by (auto simp: plain_def split: if_splits)
qed

lemma absolutePath_snoc: "absolutePath (es @ [e]) = (if es = [] then [] else absolutePath es) @ slash # e"
  by (simp add: absolutePath_def joinSlash_snoc)

lemma dropWhile_slash: "slash \<notin> set e \<Longrightarrow> dropWhile (\<lambda>c. c \<noteq> slash) (rev e @ slash # xs) = slash # xs"
proof -
  assume e: "slash \<notin> set e"
  have "dropWhile (\<lambda>c. c \<noteq> slash) (rev e @ slash # xs) = dropWhile (\<lambda>c. c \<noteq> slash) (slash # xs)"
    using e by (intro dropWhile_append2) auto
  then show ?thesis by simp
qed

lemma dirPath_absolute:
  assumes "list_all plain es" "plain e"
  shows "dirPath (absolutePath (es @ [e])) = absolutePath es"
proof -
  have e: "slash \<notin> set e" using assms(2) by (simp add: plain_def)
  have "dirPath (absolutePath (es @ [e])) = cleanPath ((if es = [] then [] else absolutePath es) @ [slash])"
    unfolding dirPath_def absolutePath_snoc by (simp add: dropWhile_slash [OF e])
  also have "\<dots> = absolutePath es"
  proof (cases "es = []")
    case True
    then show ?thesis by (simp add: cleanPath_def IsAbs_def hasPrefix_def cleanElements_def Let_def absolutePath_def)
  next
    case False
    have "splitOn slash (absolutePath es @ [slash]) = [] # es @ [[]]"
      using splitOn_slashes [of slash "absolutePath es" "[]"] splitOn_absolute [OF assms(1)] False by simp
    moreover have "fold (cleanElement True) ([] # es @ [[]]) [] = rev es" using assms(1) by (simp add: fold_plain)
    moreover have "IsAbs (absolutePath es @ [slash])" by (simp add: IsAbs_def hasPrefix_def absolutePath_def)
    ultimately show ?thesis using False
      by (simp add: cleanPath_def cleanElements_def Let_def del: fold_simps splitOn.simps) (simp add: absolutePath_def)
  qed
  finally show ?thesis .
qed

end
