(* ===== verification/Gateway.thy ===== *)
theory Gateway
  imports ControlPlane GoPath Server
begin

text \<open>
  The terminal gateway, \<^verbatim>\<open>internal/gateway\<close>: one client WebSocket is bridged to the WebSocket of
  the agent's runner. \<open>ServeTerminal\<close> is a program over the control plane's log: it takes a slot
  of the connection limit, upgrades, checks the first frame, mints a capability for the role the
  principal has, dials the runner and then runs the proxy. The proxy's goroutines are a step
  function over a schedule of events, which the environment chooses: a theorem about every schedule
  is one about every interleaving. The connection limiter is shared by all connections and part of
  the world, so that other connections may change it between any two calls.
\<close>

section \<open>Configuration\<close>

record Limits =
  MaxConnections :: int
  MaxConnectionsPerAgent :: int
  MaxMessageBytes :: int
  AttachTimeout :: duration
  WriteTimeout :: duration
  IdleTimeout :: duration
  MaxLifetime :: duration

definition DefaultLimits :: Limits where
  "DefaultLimits =
     \<lparr>MaxConnections = 512, MaxConnectionsPerAgent = 16, MaxMessageBytes = 1024 * 1024,
      AttachTimeout = 10 * 1000000000, WriteTimeout = 5 * 1000000000,
      IdleTimeout = 15 * 60 * 1000000000, MaxLifetime = 12 * 3600 * 1000000000\<rparr>"

record connectionLimiter =
  lmMaximum :: int
  lmPerAgentMaximum :: int
  lmTotal :: int
  lmPerAgent :: "string \<rightharpoonup> int"

text \<open>The world of the gateway: its limiter, and everything else.\<close>

record 'v gatewayWorld =
  gwLimiter :: connectionLimiter
  gwOutside :: 'v

record gatewayURL = parsedURL +
  urlPath :: string

type_synonym 'w resolver = "string \<Rightarrow> string \<Rightarrow> ('w, RunnerTarget kresult) kprog"

record 'w gatewayConfig =
  cfResolver :: "'w resolver option"
  cfSigner :: "Signer option"
  cfEvents :: bool
  cfLogger :: bool
  cfRouterURL :: string
  cfRouterTokenFile :: string
  cfRunnerPort :: int
  cfLimits :: Limits

record 'w gateway =
  gwResolver :: "'w resolver"
  gwSigner :: Signer
  gwRouterURL :: gatewayURL
  gwRouterTokenFile :: string
  gwRunnerPort :: int
  gwLimits :: Limits

definition newLimiter :: "Limits \<Rightarrow> connectionLimiter" where
  "newLimiter l = \<lparr>lmMaximum = MaxConnections l, lmPerAgentMaximum = MaxConnectionsPerAgent l, lmTotal = 0, lmPerAgent = Map.empty\<rparr>"

definition NewGateway :: "(string \<Rightarrow> gatewayURL option) \<Rightarrow> 'w gatewayConfig \<Rightarrow> ('w gateway \<times> connectionLimiter) result" where
  "NewGateway urlParse c =
     (case (cfResolver c, cfSigner c) of
        (Some r, Some s) \<Rightarrow>
          if \<not> cfEvents c \<or> \<not> cfLogger c then Inl ''resolver, signer, events, and logger are required''
          else (case urlParse (cfRouterURL c) of
             None \<Rightarrow> Inl ''router URL must be an absolute HTTP URL''
           | Some u \<Rightarrow>
              let l = cfLimits c in
              if (urlScheme u \<noteq> ''http'' \<and> urlScheme u \<noteq> ''https'') \<or> urlHost u = []
              then Inl ''router URL must be an absolute HTTP URL''
              else if cfRouterTokenFile c = [] \<or> cfRunnerPort c < 1 \<or> cfRunnerPort c > 65535
              then Inl ''router token file and a valid runner port are required''
              else if MaxConnections l < 1 \<or> MaxConnectionsPerAgent l < 1 \<or> MaxMessageBytes l < 1 \<or> AttachTimeout l \<le> 0 \<or>
                WriteTimeout l \<le> 0 \<or> IdleTimeout l \<le> 0 \<or> MaxLifetime l \<le> 0
              then Inl ''all gateway limits must be positive''
              else Inr (\<lparr>gwResolver = r, gwSigner = s, gwRouterURL = u, gwRouterTokenFile = cfRouterTokenFile c,
                gwRunnerPort = cfRunnerPort c, gwLimits = l\<rparr>, newLimiter l))
      | _ \<Rightarrow> Inl ''resolver, signer, events, and logger are required'')"

section \<open>The connection limiter\<close>

definition connectionsOf :: "connectionLimiter \<Rightarrow> string \<Rightarrow> int" where
  "connectionsOf l a = (case lmPerAgent l a of None \<Rightarrow> 0 | Some n \<Rightarrow> n)"

definition acquire :: "string \<Rightarrow> connectionLimiter \<Rightarrow> bool \<times> connectionLimiter" where
  "acquire a l =
     (if lmTotal l \<ge> lmMaximum l \<or> connectionsOf l a \<ge> lmPerAgentMaximum l then (False, l)
      else (True, l\<lparr>lmTotal := lmTotal l + 1, lmPerAgent := (lmPerAgent l)(a \<mapsto> connectionsOf l a + 1)\<rparr>))"

definition release :: "string \<Rightarrow> connectionLimiter \<Rightarrow> connectionLimiter" where
  "release a l =
     (let n = connectionsOf l a - 1 in
      l\<lparr>lmTotal := lmTotal l - 1, lmPerAgent := (if n = 0 then (lmPerAgent l)(a := None) else (lmPerAgent l)(a \<mapsto> n))\<rparr>)"

section \<open>Frames in passing\<close>

record inspectedFrame =
  ifType :: string
  ifProtocolVersion :: string
  ifRole :: string
  ifTakeover :: bool
  ifTerminalSize :: "TerminalSize option"

definition zeroInspected :: inspectedFrame where
  "zeroInspected = \<lparr>ifType = [], ifProtocolVersion = [], ifRole = [], ifTakeover = False, ifTerminalSize = None\<rparr>"

fun setInspectedSize :: "inspectedFrame setter" where
  "setInspectedSize JNull r = Some (r\<lparr>ifTerminalSize := None\<rparr>)"
| "setInspectedSize v r =
     map_option (\<lambda>s. r\<lparr>ifTerminalSize := Some s\<rparr>)
       (decodeStruct False sizeFields v (case ifTerminalSize r of None \<Rightarrow> zeroSize | Some s \<Rightarrow> s))"

definition inspectedFields :: "inspectedFrame fields" where
  "inspectedFields =
     [(''type'', setField decString (\<lambda>x r. r\<lparr>ifType := x\<rparr>)),
      (''protocolVersion'', setField decString (\<lambda>x r. r\<lparr>ifProtocolVersion := x\<rparr>)),
      (''role'', setField decString (\<lambda>x r. r\<lparr>ifRole := x\<rparr>)),
      (''takeover'', setField decBool (\<lambda>x r. r\<lparr>ifTakeover := x\<rparr>)),
      (''terminalSize'', setInspectedSize)]"

definition inspectAttach :: "scanner \<Rightarrow> bool \<Rightarrow> string \<Rightarrow> inspectedFrame option" where
  "inspectAttach parse isText msg =
     (if \<not> isText then None
      else case unmarshalText parse msg of
        None \<Rightarrow> None
      | Some v \<Rightarrow>
         (case decodeStruct False inspectedFields v zeroInspected of
            None \<Rightarrow> None
          | Some f \<Rightarrow>
              if ifType f \<noteq> ''attach'' \<or> ifProtocolVersion f \<noteq> ProtocolVersion \<or> (ifRole f \<noteq> ''control'' \<and> ifRole f \<noteq> ''observe'')
              then None
              else (case ifTerminalSize f of None \<Rightarrow> None | Some s \<Rightarrow> if validateSize s \<noteq> None then None else Some f)))"

definition typeFields :: "(string \<times> string) fields" where
  "typeFields = [(''type'', setField decString (\<lambda>x r. (x, snd r))), (''role'', setField decString (\<lambda>x r. (fst r, x)))]"

definition inspectType :: "scanner \<Rightarrow> string \<Rightarrow> string \<times> string" where
  "inspectType parse msg =
     (case unmarshalText parse msg of
        None \<Rightarrow> ([], [])
      | Some v \<Rightarrow> (case decodeStruct False typeFields v ([], []) of None \<Rightarrow> ([], []) | Some r \<Rightarrow> r))"

definition offersSubprotocol :: "string \<Rightarrow> string \<Rightarrow> bool" where
  "offersSubprotocol header protocol = list_ex (\<lambda>offered. trimSpace offered = protocol) (splitOn (CHR '','') header)"

text \<open>\<open>readToken\<close>, given what reading the file returns.\<close>

definition readToken :: "string result \<Rightarrow> string result" where
  "readToken contents =
     (case contents of
        Inl e \<Rightarrow> Inl e
      | Inr s \<Rightarrow>
          let token = trimSpace s in
          if length token < 16 then Inl ''router token must contain at least 16 non-whitespace bytes'' else Inr token)"

definition terminalURL :: "gatewayURL \<Rightarrow> gatewayURL" where
  "terminalURL u =
     u\<lparr>urlScheme := (if urlScheme u = ''https'' then ''wss'' else ''ws''),
       urlPath := trimSuffix (urlPath u) ''/'' @ ''/v1alpha1/terminal''\<rparr>"

section \<open>The proxy\<close>

text \<open>
  The three goroutines. A direction reads a message and then writes it; the runner's direction
  may first try to take one pending takeover, with an atomic load and a compare-and-swap.
\<close>

datatype proxyError = NormalClosure | Canceled | OtherFailure

datatype clientPhase = ClientReading | ClientWriting string | ClientDone

datatype runnerPhase =
    RunnerReading
  | RunnerTaking "bool \<times> string"
  | RunnerSwapping int "bool \<times> string"
  | RunnerWriting "bool \<times> string"
  | RunnerDone

text \<open>What happens, with what the connection answers and the clock reads.\<close>

datatype proxyEvent =
    ClientRead "proxyError + (bool \<times> string)" time
  | ClientWrote "proxyError option"
  | RunnerRead "proxyError + (bool \<times> string)" time
  | RunnerLoads
  | RunnerSwaps time
  | RunnerWrote "proxyError option"
  | IdleTick time
  | IdleStops
  | LifetimeOver
  | ProxyReturns

record proxy =
  pxClient :: clientPhase
  pxRunner :: runnerPhase
  pxIdling :: bool
  pxCancelled :: bool
  pxPending :: int
  pxActivity :: time
  pxErrors :: "proxyError list"
  pxResult :: "proxyError option"
  pxLog :: "action list"

record proxyEnv =
  peParse :: scanner
  peOwner :: string
  peAgentID :: string
  peRequestID :: string
  peCanControl :: bool
  peIdleTimeout :: duration

definition logged :: "action list \<Rightarrow> proxy \<Rightarrow> proxy" where
  "logged as px = px\<lparr>pxLog := pxLog px @ as\<rparr>"

definition sendError :: "proxyError \<Rightarrow> proxy \<Rightarrow> proxy" where
  "sendError e px = px\<lparr>pxErrors := pxErrors px @ [e]\<rparr>"

definition deniedRecord :: "string \<Rightarrow> string \<Rightarrow> string \<Rightarrow> string \<Rightarrow> (string \<times> string) list" where
  "deniedRecord owner agentID requestID operation =
     [(''audit_event'', ''authorization_denied''), (''outcome'', ''denied''), (''principal_id'', owner), (''agent_id'', agentID),
      (''request_id'', requestID), (''operation'', operation), (''reason'', ''control_permission_required'')]"

definition takenOver :: "proxyEnv \<Rightarrow> time \<Rightarrow> Event" where
  "takenOver pe now =
     \<lparr>evID = [], evType = ''agent.controller_taken_over'', evAgentID = peAgentID pe, evPreviousState = [], evState = [],
      evOccurredAt = now, evRequestID = peRequestID pe, evOwner = peOwner pe\<rparr>"

definition clientReads :: "proxyEnv \<Rightarrow> bool \<times> string \<Rightarrow> time \<Rightarrow> proxy \<Rightarrow> proxy" where
  "clientReads pe m now px =
     (let px1 = px\<lparr>pxActivity := now\<rparr> in
      if \<not> fst m then sendError OtherFailure (px1\<lparr>pxClient := ClientDone\<rparr>)
      else
        let px2 = logged [Socket (FromClient (snd m))] (px1\<lparr>pxClient := ClientWriting (snd m)\<rparr>) in
        if fst (inspectType (peParse pe) (snd m)) = ''takeover'' then
          (if peCanControl pe then px2\<lparr>pxPending := pxPending px2 + 1\<rparr>
           else logged [Audited (deniedRecord (peOwner pe) (peAgentID pe) (peRequestID pe) ''terminal_takeover'')] px2)
        else px2)"

definition runnerReads :: "proxyEnv \<Rightarrow> bool \<times> string \<Rightarrow> time \<Rightarrow> proxy \<Rightarrow> proxy" where
  "runnerReads pe m now px =
     (let (frameType, role) = inspectType (peParse pe) (snd m) in
      logged ([Socket (FromRunner (snd m))] @ (if frameType = ''replay_gap'' then [Counted ReplayGaps 1] else []) @
          (if frameType = ''error'' then [Counted Failures 1] else []))
        (px\<lparr>pxActivity := now,
           pxRunner := (if frameType = ''attached'' \<and> role = ''control'' then RunnerTaking m else RunnerWriting m)\<rparr>))"

fun proxyStep :: "proxyEnv \<Rightarrow> proxyEvent \<Rightarrow> proxy \<Rightarrow> proxy" where
  "proxyStep pe (ClientRead r now) px =
     (if pxClient px \<noteq> ClientReading then px
      else case r of
        Inl e \<Rightarrow> sendError e (px\<lparr>pxClient := ClientDone\<rparr>)
      | Inr m \<Rightarrow> clientReads pe m now px)"
| "proxyStep pe (ClientWrote err) px =
     (case pxClient px of
        ClientWriting p \<Rightarrow>
          (case err of
             Some e \<Rightarrow> sendError e (px\<lparr>pxClient := ClientDone\<rparr>)
           | None \<Rightarrow> logged [Socket (ToRunner p), Counted BytesFromClient (of_nat (length p))] (px\<lparr>pxClient := ClientReading\<rparr>))
      | _ \<Rightarrow> px)"
| "proxyStep pe (RunnerRead r now) px =
     (if pxRunner px \<noteq> RunnerReading then px
      else case r of
        Inl e \<Rightarrow> sendError e (px\<lparr>pxRunner := RunnerDone\<rparr>)
      | Inr m \<Rightarrow> runnerReads pe m now px)"
| "proxyStep pe RunnerLoads px =
     (case pxRunner px of
        RunnerTaking m \<Rightarrow> px\<lparr>pxRunner := (if pxPending px > 0 then RunnerSwapping (pxPending px) m else RunnerWriting m)\<rparr>
      | _ \<Rightarrow> px)"
| "proxyStep pe (RunnerSwaps now) px =
     (case pxRunner px of
        RunnerSwapping n m \<Rightarrow>
          if pxPending px = n
          then logged [Counted Takeovers 1, Published (takenOver pe now)] (px\<lparr>pxPending := n - 1, pxRunner := RunnerWriting m\<rparr>)
          else px\<lparr>pxRunner := RunnerTaking m\<rparr>
      | _ \<Rightarrow> px)"
| "proxyStep pe (RunnerWrote err) px =
     (case pxRunner px of
        RunnerWriting m \<Rightarrow>
          (case err of
             Some e \<Rightarrow> sendError e (px\<lparr>pxRunner := RunnerDone\<rparr>)
           | None \<Rightarrow> logged [Socket (ToClient (snd m)), Counted BytesToClient (of_nat (length (snd m)))] (px\<lparr>pxRunner := RunnerReading\<rparr>))
      | _ \<Rightarrow> px)"
| "proxyStep pe (IdleTick now) px =
     (if pxIdling px \<and> now - pxActivity px \<ge> peIdleTimeout pe then sendError OtherFailure (px\<lparr>pxIdling := False\<rparr>)
      else px)"
| "proxyStep pe IdleStops px = (if pxCancelled px then px\<lparr>pxIdling := False\<rparr> else px)"
| "proxyStep pe LifetimeOver px = px\<lparr>pxCancelled := True\<rparr>"
| "proxyStep pe ProxyReturns px =
     (case (pxResult px, pxErrors px) of
        (None, e # es) \<Rightarrow>
          logged (if e \<noteq> NormalClosure \<and> e \<noteq> Canceled then [Counted Failures 1] else [])
            (px\<lparr>pxErrors := es, pxResult := Some e, pxCancelled := True\<rparr>)
      | _ \<Rightarrow> px)"

definition proxyStart :: "bool \<Rightarrow> bool \<Rightarrow> time \<Rightarrow> proxy" where
  "proxyStart canControl initialTakeover now =
     \<lparr>pxClient = ClientReading, pxRunner = RunnerReading, pxIdling = True, pxCancelled = False,
      pxPending = (if initialTakeover \<and> canControl then 1 else 0), pxActivity = now, pxErrors = [], pxResult = None, pxLog = []\<rparr>"

definition proxyRun :: "proxyEnv \<Rightarrow> proxyEvent list \<Rightarrow> proxy \<Rightarrow> proxy" where
  "proxyRun pe evs px = fold (proxyStep pe) evs px"

section \<open>Serving a terminal\<close>

text \<open>
  The environment: the clock, the upgrade, the first message, random bytes, files, the dial, the
  write to the runner, and the schedule of the proxy.
\<close>

record 'w gatewayEnv =
  geClock :: "'w \<Rightarrow> time \<times> 'w"
  geAccept :: "apiRequest \<Rightarrow> 'w \<Rightarrow> bool \<times> 'w"
  geFirst :: "'w \<Rightarrow> (bool \<times> string) option \<times> 'w"
  geRandom :: "'w \<Rightarrow> string result \<times> 'w"
  geReadFile :: "string \<Rightarrow> 'w \<Rightarrow> string result \<times> 'w"
  geDial :: "string \<Rightarrow> (string \<times> string list) list \<Rightarrow> 'w \<Rightarrow> bool \<times> 'w"
  geForward :: "string \<Rightarrow> 'w \<Rightarrow> bool \<times> 'w"
  geSchedule :: "'w \<Rightarrow> proxyEvent list \<times> 'w"
  geSign :: "string \<Rightarrow> string \<Rightarrow> string"
  gePrint :: "json \<Rightarrow> string"
  geParse :: scanner
  geURLText :: "gatewayURL \<Rightarrow> string"

definition acquireSlot :: "string \<Rightarrow> ('v gatewayWorld, bool) kprog" where
  "acquireSlot a = do {
     ok \<leftarrow> ask (\<lambda>w. let (ok, l) = acquire a (gwLimiter w) in (ok, w\<lparr>gwLimiter := l\<rparr>));
     if ok then do { _ \<leftarrow> kSocket (SlotTaken a); ret True } else ret False }"

definition releaseSlot :: "string \<Rightarrow> ('v gatewayWorld, unit) kprog" where
  "releaseSlot a = effect (Socket (SlotFreed a)) (\<lambda>w. ((), w\<lparr>gwLimiter := release a (gwLimiter w)\<rparr>))"

definition errorPayload :: "'w gatewayEnv \<Rightarrow> string \<Rightarrow> string \<Rightarrow> string \<Rightarrow> bool \<Rightarrow> string" where
  "errorPayload E code message requestID retryable =
     gePrint E (JObj [(''code'', JStr code), (''message'', JStr message), (''requestId'', JStr requestID),
       (''retryable'', JBool retryable), (''type'', JStr ''error'')])"

text \<open>\<open>writeProtocolError\<close>; errors of the write and the close are ignored.\<close>

definition writeProtocolError :: "'w gatewayEnv \<Rightarrow> string \<Rightarrow> string \<Rightarrow> string \<Rightarrow> bool \<Rightarrow> ('w, unit) kprog" where
  "writeProtocolError E code message requestID retryable = do {
     _ \<leftarrow> kSocket (ToClient (errorPayload E code message requestID retryable));
     kSocket (ClosedClient code) }"

definition internalFailure :: "'w gatewayEnv \<Rightarrow> string \<Rightarrow> string \<Rightarrow> ('w, unit) kprog" where
  "internalFailure E message requestID = do {
     _ \<leftarrow> writeProtocolError E ''internal_error'' message requestID True;
     kCount Failures 1 }"

definition runProxy :: "'w gatewayEnv \<Rightarrow> proxyEnv \<Rightarrow> bool \<Rightarrow> ('w, unit) kprog" where
  "runProxy E pe initialTakeover = do {
     now \<leftarrow> ask (geClock E);
     evs \<leftarrow> ask (geSchedule E);
     State (\<lambda>s. ((), s\<lparr>actions := actions s @ pxLog (proxyRun pe evs (proxyStart (peCanControl pe) initialTakeover now))\<rparr>)) }"

definition runnerHeaders ::
  "'w gateway \<Rightarrow> RunnerTarget \<Rightarrow> string \<Rightarrow> string \<Rightarrow> string \<Rightarrow> string \<Rightarrow> (string \<times> string list) list" where
  "runnerHeaders g target routerToken capability requestID traceparent =
     [(''Authorization'', [''Bearer '' @ routerToken]),
      (''X-Sandbox-ID'', [tgSandboxName target]),
      (''X-Sandbox-Namespace'', [tgNamespace target]),
      (''X-Sandbox-Port'', [formatInt (gwRunnerPort g)]),
      (CapabilityHeader, [capability]),
      (''X-Request-ID'', [requestID])] @
     (if traceparent = [] then [] else [(''Traceparent'', [traceparent])])"

text \<open>After the dial: the attach frame goes out first, then the proxy runs.\<close>

definition bridge ::
  "'w gatewayEnv \<Rightarrow> 'w gateway \<Rightarrow> string \<Rightarrow> string \<Rightarrow> string \<Rightarrow> bool \<Rightarrow> inspectedFrame \<Rightarrow> string \<Rightarrow> ('w, unit) kprog" where
  "bridge E g owner agentID requestID canControl frame msg = do {
     sent \<leftarrow> ask (geForward E msg);
     _ \<leftarrow> (if \<not> sent then internalFailure E ''the runner connection is unavailable'' requestID
          else do {
            _ \<leftarrow> kSocket (ToRunner msg);
            _ \<leftarrow> kCount BytesFromClient (of_nat (length msg));
            runProxy E \<lparr>peParse = geParse E, peOwner = owner, peAgentID = agentID, peRequestID = requestID,
              peCanControl = canControl, peIdleTimeout = IdleTimeout (gwLimits g)\<rparr> (ifTakeover frame) });
     kSocket DroppedRunner }"

definition permissionRole :: "bool \<Rightarrow> string" where
  "permissionRole canControl = (if canControl then ''control'' else ''observe'')"

text \<open>From the accepted attach frame to the dialed runner.\<close>

definition connectRunner ::
  "'w gatewayEnv \<Rightarrow> 'w gateway \<Rightarrow> apiRequest \<Rightarrow> string \<Rightarrow> string \<Rightarrow> string \<Rightarrow> bool \<Rightarrow> RunnerTarget
     \<Rightarrow> inspectedFrame \<Rightarrow> string \<Rightarrow> ('w, unit) kprog" where
  "connectRunner E g req owner agentID requestID canControl target frame msg = do {
     now \<leftarrow> ask (geClock E);
     ident \<leftarrow> ask (geRandom E);
     case Mint (geSign E) (gePrint E) (gwSigner g) now ident agentID (permissionRole canControl) requestID of
       Inl e \<Rightarrow> internalFailure E ''the runner connection could not be authorized'' requestID
     | Inr capability \<Rightarrow> do {
         contents \<leftarrow> ask (geReadFile E (cleanPath (gwRouterTokenFile g)));
         case readToken contents of
           Inl e \<Rightarrow> internalFailure E ''the runner connection could not be authorized'' requestID
         | Inr routerToken \<Rightarrow> do {
             let headers = runnerHeaders g target routerToken capability requestID (aqHeader req ''traceparent'');
             let address = geURLText E (terminalURL (gwRouterURL g));
             dialed \<leftarrow> effect (Socket (Dialed address headers)) (geDial E address headers);
             if \<not> dialed then internalFailure E ''the runner connection is unavailable'' requestID
             else bridge E g owner agentID requestID canControl frame msg } } }"

text \<open>What happens on an upgraded connection.\<close>

definition serveConnection ::
  "'w gatewayEnv \<Rightarrow> 'w gateway \<Rightarrow> apiRequest \<Rightarrow> string \<Rightarrow> string \<Rightarrow> string \<Rightarrow> bool \<Rightarrow> RunnerTarget \<Rightarrow> ('w, unit) kprog" where
  "serveConnection E g req owner agentID requestID canControl target = do {
     first \<leftarrow> ask (geFirst E);
     case first of
       None \<Rightarrow> kCount Failures 1
     | Some m \<Rightarrow>
        (case inspectAttach (geParse E) (fst m) (snd m) of
           None \<Rightarrow> writeProtocolError E ''unsupported_protocol'' ''the first frame must be a valid v1alpha1 attach'' requestID False
         | Some frame \<Rightarrow>
            if ifRole frame = ''control'' \<and> \<not> canControl then do {
              _ \<leftarrow> kAudit (deniedRecord owner agentID requestID ''terminal_control_attach'');
              writeProtocolError E ''forbidden_role'' ''control permission is required'' requestID False }
            else connectRunner E g req owner agentID requestID canControl target frame (snd m)) }"

text \<open>The upgrade, with the connection's metrics around it.\<close>

definition serveUpgraded ::
  "'w gatewayEnv \<Rightarrow> 'w gateway \<Rightarrow> apiRequest \<Rightarrow> string \<Rightarrow> string \<Rightarrow> string \<Rightarrow> bool \<Rightarrow> RunnerTarget \<Rightarrow> ('w, unit) kprog" where
  "serveUpgraded E g req owner agentID requestID canControl target = do {
     accepted' \<leftarrow> ask (geAccept E req);
     if \<not> accepted' then ret ()
     else do {
       _ \<leftarrow> kSocket Upgraded;
       started \<leftarrow> ask (geClock E);
       _ \<leftarrow> kCount ActiveConnections 1;
       _ \<leftarrow> kCount Connections 1;
       _ \<leftarrow> serveConnection E g req owner agentID requestID canControl target;
       _ \<leftarrow> kCount ActiveConnections (- 1);
       ended \<leftarrow> ask (geClock E);
       _ \<leftarrow> kCount DurationNanos (word_of_int (ended - started));
       _ \<leftarrow> kCount DurationCount 1;
       kSocket DroppedClient } }"

definition unsupportedProtocol :: LifecycleError where
  "unsupportedProtocol = NewError 400 ''unsupported_protocol'' ''the Sandherd terminal subprotocol is required''"

definition connectionLimitExceeded :: LifecycleError where
  "connectionLimitExceeded =
     (NewError 429 ''connection_limit_exceeded'' ''the terminal connection limit was reached'')\<lparr>leRetryable := True\<rparr>"

definition ServeTerminal ::
  "'v gatewayWorld gatewayEnv \<Rightarrow> 'v gatewayWorld gateway \<Rightarrow> apiRequest \<Rightarrow> string \<Rightarrow> string \<Rightarrow> string \<Rightarrow> bool
     \<Rightarrow> ('v gatewayWorld, kerror option) kprog" where
  "ServeTerminal E g req owner agentID requestID canControl =
     (if \<not> offersSubprotocol (aqHeader req ''Sec-WebSocket-Protocol'') Protocol then ret (Some (LErr unsupportedProtocol))
      else do {
        t \<leftarrow> gwResolver g owner agentID;
        case t of
          Inl e \<Rightarrow> ret (Some e)
        | Inr target \<Rightarrow> do {
            ok \<leftarrow> acquireSlot agentID;
            if \<not> ok then ret (Some (LErr connectionLimitExceeded))
            else do {
              _ \<leftarrow> serveUpgraded E g req owner agentID requestID canControl target;
              _ \<leftarrow> releaseSlot agentID;
              ret None } } })"

section \<open>Metrics\<close>

text \<open>The atomic counters after a log; every addition wraps at 64 bits.\<close>

fun counted :: "counter \<Rightarrow> action \<Rightarrow> uint64" where
  "counted c (Counted c' n) = (if c' = c then n else 0)"
| "counted c _ = 0"

definition metric :: "counter \<Rightarrow> action list \<Rightarrow> uint64" where
  "metric c as = sum_list (map (counted c) as)"

text \<open>\<open>Metrics.ServeHTTP\<close>; \<open>seconds\<close> is the text of a duration in seconds.\<close>

definition metricLine :: "string \<Rightarrow> string \<Rightarrow> string" where
  "metricLine name value = ''sandherd_gateway_'' @ name @ '' '' @ value @ [CHR 0x0A]"

definition metricType :: "string \<Rightarrow> string \<Rightarrow> string" where
  "metricType name kind = ''# TYPE sandherd_gateway_'' @ name @ '' '' @ kind @ [CHR 0x0A]"

definition unsigned' :: "uint64 \<Rightarrow> string" where
  "unsigned' w = digits (unat w)"

definition metricsText :: "(uint64 \<Rightarrow> string) \<Rightarrow> (counter \<Rightarrow> uint64) \<Rightarrow> string" where
  "metricsText seconds m =
     metricType ''active_connections'' ''gauge'' @ metricLine ''active_connections'' (formatInt (sint (m ActiveConnections))) @
     metricType ''connections_total'' ''counter'' @ metricLine ''connections_total'' (unsigned' (m Connections)) @
     metricType ''connection_duration_seconds'' ''summary'' @ metricLine ''connection_duration_seconds_sum'' (seconds (m DurationNanos)) @
     metricLine ''connection_duration_seconds_count'' (unsigned' (m DurationCount)) @
     metricType ''bytes_from_client_total'' ''counter'' @ metricLine ''bytes_from_client_total'' (unsigned' (m BytesFromClient)) @
     metricType ''bytes_to_client_total'' ''counter'' @ metricLine ''bytes_to_client_total'' (unsigned' (m BytesToClient)) @
     metricType ''replay_gaps_total'' ''counter'' @ metricLine ''replay_gaps_total'' (unsigned' (m ReplayGaps)) @
     metricType ''takeovers_total'' ''counter'' @ metricLine ''takeovers_total'' (unsigned' (m Takeovers)) @
     metricType ''failures_total'' ''counter'' @ metricLine ''failures_total'' (unsigned' (m Failures))"

end
