(* ===== verification/Gateway_Proxy.thy ===== *)
theory Gateway_Proxy
  imports Gateway
begin

text \<open>
  The limiter and the proxy of the gateway: the limiter counts exactly the connections it admitted;
  the proxy forwards in both directions in order and without loss, turns each controller takeover
  into at most one event, and no goroutine of it gets stuck.
\<close>

section \<open>The connection limiter\<close>

datatype slotEvent = Arrive string | Leave string

text \<open>Connections arrive and, if admitted, leave; \<open>held\<close> is the list of those being served.\<close>

fun slotStep :: "slotEvent \<Rightarrow> connectionLimiter \<times> string list \<Rightarrow> connectionLimiter \<times> string list" where
  "slotStep (Arrive a) (l, held) = (let (ok, l') = acquire a l in (l', if ok then a # held else held))"
| "slotStep (Leave a) (l, held) = (if a \<in> set held then (release a l, remove1 a held) else (l, held))"

definition slotsExact :: "Limits \<Rightarrow> connectionLimiter \<times> string list \<Rightarrow> bool" where
  "slotsExact lim s \<longleftrightarrow>
     lmMaximum (fst s) = MaxConnections lim \<and> lmPerAgentMaximum (fst s) = MaxConnectionsPerAgent lim \<and>
     lmTotal (fst s) = int (length (snd s)) \<and> length (snd s) \<le> nat (MaxConnections lim) \<and>
     (\<forall>a. lmPerAgent (fst s) a = (if a \<in> set (snd s) then Some (int (count_list (snd s) a)) else None) \<and>
          count_list (snd s) a \<le> nat (MaxConnectionsPerAgent lim))"

lemma count_list_remove1: "a \<in> set xs \<Longrightarrow> count_list (remove1 a xs) b = count_list xs b - (if b = a then 1 else 0)"
  by (induction xs) (auto simp: count_list_0_iff Suc_diff_1 count_notin neq_Nil_conv gr0_conv_Suc)

lemma connectionsOf_exact: "slotsExact lim (l, held) \<Longrightarrow> connectionsOf l a = int (count_list held a)"
  by (auto simp: slotsExact_def connectionsOf_def count_notin)

lemma in_remove1: "b \<in> set (remove1 a xs) \<longleftrightarrow> count_list xs b > (if b = a then 1 else 0)"
  using count_list_0_iff [of "remove1 a xs" b] count_list_0_iff [of xs b]
  by (cases "a \<in> set xs") (auto simp: count_list_remove1 remove1_idem split: if_splits)

lemma slotsExact_arrive: "slotsExact lim (l, held) \<Longrightarrow> slotsExact lim (slotStep (Arrive a) (l, held))"
  using connectionsOf_exact [of lim l held a] by (auto simp: slotsExact_def acquire_def split: if_splits)

lemma slotsExact_leave:
  assumes "slotsExact lim (l, held)"
  shows "slotsExact lim (slotStep (Leave a) (l, held))"
proof (cases "a \<in> set held")
  case True
  then have pos: "count_list held a > 0" "length held > 0"
    using count_list_0_iff [of held a] by auto
  have "count_list (remove1 a held) b \<le> nat (MaxConnectionsPerAgent lim)" for b
    using assms le_trans [OF diff_le_self] unfolding slotsExact_def by (simp add: count_list_remove1 [OF True])
  moreover have "lmPerAgent (release a l) b = (if b \<in> set (remove1 a held) then Some (int (count_list (remove1 a held) b)) else None)" for b
    using assms pos True connectionsOf_exact [OF assms, of a] count_list_0_iff [of held b]
    by (auto simp: slotsExact_def release_def Let_def in_remove1 count_list_remove1 of_nat_diff)
  moreover have "lmTotal (release a l) = int (length (remove1 a held))" "length (remove1 a held) \<le> nat (MaxConnections lim)"
    using assms True pos(2) le_trans [OF diff_le_self, of "length held" "nat (MaxConnections lim)" 1]
    by (simp_all add: slotsExact_def release_def Let_def length_remove1 of_nat_diff Suc_le_eq)
  ultimately show ?thesis using assms True by (simp add: slotsExact_def release_def Let_def)
next
  case False
  with assms show ?thesis by simp
qed

lemma slotsExact_step: "slotsExact lim s \<Longrightarrow> slotsExact lim (slotStep ev s)"
  by (cases s; cases ev) (auto intro: slotsExact_arrive slotsExact_leave simp del: slotStep.simps)

lemma slotsExact_run: "slotsExact lim s \<Longrightarrow> slotsExact lim (fold slotStep evs s)"
  by (induction evs arbitrary: s) (simp_all only: fold_simps slotsExact_step)

lemma NewGateway_limiter:
  "NewGateway urlParse c = Inr (g, l) \<Longrightarrow> l = newLimiter (gwLimits g) \<and> 1 \<le> MaxConnections (gwLimits g) \<and> 1 \<le> MaxConnectionsPerAgent (gwLimits g)"
  by (auto simp: NewGateway_def Let_def split: option.splits if_splits)

text \<open>
  Whatever connections arrive and leave, the limiter of a new gateway counts exactly the
  connections being served, in total and per agent, never more than the configured limits; it
  forgets an agent without connections, and it refuses a connection only at a limit.
\<close>

theorem limiter_exact:
  assumes "NewGateway urlParse c = Inr (g, l0)" "fold slotStep evs (l0, []) = (l, held)"
  shows "lmTotal l = int (length held) \<and> int (length held) \<le> MaxConnections (gwLimits g) \<and>
    lmPerAgent l a = (if a \<in> set held then Some (int (count_list held a)) else None) \<and>
    int (count_list held a) \<le> MaxConnectionsPerAgent (gwLimits g) \<and>
    (fst (acquire a l) \<longleftrightarrow> int (length held) < MaxConnections (gwLimits g) \<and> int (count_list held a) < MaxConnectionsPerAgent (gwLimits g))"
proof -
  note new = NewGateway_limiter [OF assms(1)]
  have "slotsExact (gwLimits g) (l0, [])" using new by (simp add: slotsExact_def newLimiter_def)
  then have ex: "slotsExact (gwLimits g) (l, held)" using slotsExact_run assms(2) by metis
  have "length held \<le> nat (MaxConnections (gwLimits g))" "count_list held a \<le> nat (MaxConnectionsPerAgent (gwLimits g))"
    using ex by (simp_all add: slotsExact_def)
  then show ?thesis using ex new connectionsOf_exact [OF ex, of a]
    by (simp add: slotsExact_def acquire_def le_nat_iff)
qed

section \<open>Forwarding\<close>

text \<open>Payloads in the log: read from and written to each side.\<close>

fun clientPayload :: "action \<Rightarrow> string option" where
  "clientPayload (Socket (FromClient p)) = Some p"
| "clientPayload _ = None"

fun toRunnerPayload :: "action \<Rightarrow> string option" where
  "toRunnerPayload (Socket (ToRunner p)) = Some p"
| "toRunnerPayload _ = None"

fun runnerPayload :: "action \<Rightarrow> string option" where
  "runnerPayload (Socket (FromRunner p)) = Some p"
| "runnerPayload _ = None"

fun toClientPayload :: "action \<Rightarrow> string option" where
  "toClientPayload (Socket (ToClient p)) = Some p"
| "toClientPayload _ = None"

abbreviation fromClient :: "action list \<Rightarrow> string list" where "fromClient \<equiv> List.map_filter clientPayload"
abbreviation toRunner :: "action list \<Rightarrow> string list" where "toRunner \<equiv> List.map_filter toRunnerPayload"
abbreviation fromRunner :: "action list \<Rightarrow> string list" where "fromRunner \<equiv> List.map_filter runnerPayload"
abbreviation toClient :: "action list \<Rightarrow> string list" where "toClient \<equiv> List.map_filter toClientPayload"

lemma map_filter_append [simp]: "List.map_filter f (xs @ ys) = List.map_filter f xs @ List.map_filter f ys"
  by (simp add: List.map_filter_def)

lemma map_filter_nil [simp]: "List.map_filter f [] = []"
  by (simp add: List.map_filter_def)

lemma map_filter_single [simp]: "List.map_filter f (x # xs) = (case f x of None \<Rightarrow> [] | Some y \<Rightarrow> [y]) @ List.map_filter f xs"
  by (simp add: List.map_filter_def split: option.splits)

text \<open>A direction that stopped has lost at most the message it was writing.\<close>

fun clientAhead :: "clientPhase \<Rightarrow> string list \<Rightarrow> bool" where
  "clientAhead ClientReading l = (l = [])"
| "clientAhead (ClientWriting p) l = (l = [p])"
| "clientAhead ClientDone l = (length l \<le> 1)"

fun runnerAhead :: "runnerPhase \<Rightarrow> string list \<Rightarrow> bool" where
  "runnerAhead RunnerReading l = (l = [])"
| "runnerAhead (RunnerTaking m) l = (l = [snd m])"
| "runnerAhead (RunnerSwapping n m) l = (l = [snd m])"
| "runnerAhead (RunnerWriting m) l = (l = [snd m])"
| "runnerAhead RunnerDone l = (length l \<le> 1)"

definition forwards :: "proxy \<Rightarrow> bool" where
  "forwards px \<longleftrightarrow>
     (\<exists>l. fromClient (pxLog px) = toRunner (pxLog px) @ l \<and> clientAhead (pxClient px) l) \<and>
     (\<exists>l. fromRunner (pxLog px) = toClient (pxLog px) @ l \<and> runnerAhead (pxRunner px) l)"

lemmas proxy_defs = logged_def sendError_def clientReads_def runnerReads_def

lemma proxyRun_inv:
  assumes "\<And>ev px. P px \<Longrightarrow> P (proxyStep pe ev px)" "P px"
  shows "P (proxyRun pe evs px)"
  using assms(2) unfolding proxyRun_def by (induction evs arbitrary: px) (simp_all add: assms(1))

lemma forwards_client:
  "forwards px \<Longrightarrow> forwards (proxyStep pe (ClientRead r now) px)"
  "forwards px \<Longrightarrow> forwards (proxyStep pe (ClientWrote err) px)"
  by (auto simp: forwards_def proxy_defs Let_def split: sum.splits option.splits clientPhase.splits)

lemma forwards_runner:
  "forwards px \<Longrightarrow> forwards (proxyStep pe (RunnerRead r now) px)"
  "forwards px \<Longrightarrow> forwards (proxyStep pe RunnerLoads px)"
  "forwards px \<Longrightarrow> forwards (proxyStep pe (RunnerSwaps now) px)"
  "forwards px \<Longrightarrow> forwards (proxyStep pe (RunnerWrote err) px)"
  by (auto simp: forwards_def proxy_defs Let_def split: sum.splits option.splits runnerPhase.splits prod.splits)

lemma forwards_other:
  "forwards px \<Longrightarrow> forwards (proxyStep pe (IdleTick now) px)"
  "forwards px \<Longrightarrow> forwards (proxyStep pe IdleStops px)"
  "forwards px \<Longrightarrow> forwards (proxyStep pe LifetimeOver px)"
  "forwards px \<Longrightarrow> forwards (proxyStep pe ProxyReturns px)"
  by (auto simp: forwards_def proxy_defs split: option.splits list.splits)

lemma forwards_step: "forwards px \<Longrightarrow> forwards (proxyStep pe ev px)"
  by (cases ev) (simp_all only: forwards_client forwards_runner forwards_other)

lemma clientAhead_short: "clientAhead p l \<Longrightarrow> length l \<le> 1"
  by (cases p) auto

lemma runnerAhead_short: "runnerAhead p l \<Longrightarrow> length l \<le> 1"
  by (cases p) auto

text \<open>
  C33. However the proxy's goroutines are scheduled, what the runner was sent is what the client sent,
  in order and unchanged, short of at most the last message; the same holds in the other direction.
\<close>

theorem proxy_forwards:
  "\<exists>l m. fromClient (pxLog (proxyRun pe evs (proxyStart can tk now))) =
       toRunner (pxLog (proxyRun pe evs (proxyStart can tk now))) @ l \<and> length l \<le> 1 \<and>
     fromRunner (pxLog (proxyRun pe evs (proxyStart can tk now))) =
       toClient (pxLog (proxyRun pe evs (proxyStart can tk now))) @ m \<and> length m \<le> 1"
proof -
  have "forwards (proxyStart can tk now)" by (simp add: forwards_def proxyStart_def)
  then have "forwards (proxyRun pe evs (proxyStart can tk now))" by (intro proxyRun_inv [where P = forwards] forwards_step)
  then show ?thesis unfolding forwards_def using clientAhead_short runnerAhead_short by blast
qed

section \<open>Takeovers\<close>

definition askedTakeovers :: "proxyEnv \<Rightarrow> action list \<Rightarrow> nat" where
  "askedTakeovers pe as = length (filter (\<lambda>p. fst (inspectType (peParse pe) p) = ''takeover'') (fromClient as))"

definition confirmedAttachments :: "proxyEnv \<Rightarrow> action list \<Rightarrow> nat" where
  "confirmedAttachments pe as = length (filter (\<lambda>p. inspectType (peParse pe) p = (''attached'', ''control'')) (fromRunner as))"

fun publishedEvent :: "action \<Rightarrow> Event option" where
  "publishedEvent (Published e) = Some e"
| "publishedEvent _ = None"

abbreviation publishedEvents :: "action list \<Rightarrow> Event list" where "publishedEvents \<equiv> List.map_filter publishedEvent"

definition takingNow :: "proxy \<Rightarrow> nat" where
  "takingNow px = (case pxRunner px of RunnerTaking m \<Rightarrow> 1 | RunnerSwapping n m \<Rightarrow> 1 | _ \<Rightarrow> 0)"

definition takeoversExact :: "proxyEnv \<Rightarrow> nat \<Rightarrow> proxy \<Rightarrow> bool" where
  "takeoversExact pe k px \<longleftrightarrow>
     0 \<le> pxPending px \<and> (\<forall>n m. pxRunner px = RunnerSwapping n m \<longrightarrow> 0 < n) \<and>
     int (length (publishedEvents (pxLog px))) + pxPending px = int k + (if peCanControl pe then int (askedTakeovers pe (pxLog px)) else 0) \<and>
     length (publishedEvents (pxLog px)) + takingNow px \<le> confirmedAttachments pe (pxLog px) \<and>
     metric Takeovers (pxLog px) = of_nat (length (publishedEvents (pxLog px)))"

lemma metric_append [simp]: "metric c (as @ bs) = metric c as + metric c bs"
  by (simp add: metric_def)

lemma metric_nil [simp]: "metric c [] = 0"
  by (simp add: metric_def)

lemma metric_cons [simp]: "metric c (a # as) = counted c a + metric c as"
  by (simp add: metric_def)

lemmas takeover_defs = takeoversExact_def askedTakeovers_def confirmedAttachments_def takingNow_def

lemma takeovers_client:
  "takeoversExact pe k px \<Longrightarrow> takeoversExact pe k (proxyStep pe (ClientRead r now) px)"
  "takeoversExact pe k px \<Longrightarrow> takeoversExact pe k (proxyStep pe (ClientWrote err) px)"
  by (auto simp: takeover_defs proxy_defs Let_def split: sum.splits option.splits clientPhase.splits)

lemma takeovers_runner:
  "takeoversExact pe k px \<Longrightarrow> takeoversExact pe k (proxyStep pe (RunnerRead r now) px)"
  "takeoversExact pe k px \<Longrightarrow> takeoversExact pe k (proxyStep pe RunnerLoads px)"
  "takeoversExact pe k px \<Longrightarrow> takeoversExact pe k (proxyStep pe (RunnerSwaps now) px)"
  "takeoversExact pe k px \<Longrightarrow> takeoversExact pe k (proxyStep pe (RunnerWrote err) px)"
  by (auto simp: takeover_defs proxy_defs Let_def split: sum.splits option.splits runnerPhase.splits prod.splits)

lemma takeovers_other:
  "takeoversExact pe k px \<Longrightarrow> takeoversExact pe k (proxyStep pe (IdleTick now) px)"
  "takeoversExact pe k px \<Longrightarrow> takeoversExact pe k (proxyStep pe IdleStops px)"
  "takeoversExact pe k px \<Longrightarrow> takeoversExact pe k (proxyStep pe LifetimeOver px)"
  "takeoversExact pe k px \<Longrightarrow> takeoversExact pe k (proxyStep pe ProxyReturns px)"
  by (auto simp: takeover_defs proxy_defs split: option.splits list.splits)

lemma takeovers_step: "takeoversExact pe k px \<Longrightarrow> takeoversExact pe k (proxyStep pe ev px)"
  by (cases ev) (simp_all only: takeovers_client takeovers_runner takeovers_other)

text \<open>Every event published is the takeover of this agent, by this principal.\<close>

definition publishesTakeovers :: "proxyEnv \<Rightarrow> proxy \<Rightarrow> bool" where
  "publishesTakeovers pe px \<longleftrightarrow> list_all (\<lambda>e. \<exists>now. e = takenOver pe now) (publishedEvents (pxLog px))"

lemma publishes_step: "publishesTakeovers pe px \<Longrightarrow> publishesTakeovers pe (proxyStep pe ev px)"
  by (cases ev) (auto simp: publishesTakeovers_def proxy_defs Let_def
      split: sum.splits option.splits clientPhase.splits runnerPhase.splits prod.splits list.splits)

text \<open>
  Takeover events are exact. Every event names the agent and the principal of the connection;
  there are at most as many as control attachments confirmed by the runner, and together with the
  takeovers still pending they are exactly the takeovers the client asked for; a connection
  without control permission publishes none. The takeover counter counts them.
\<close>

theorem takeovers_published:
  "let px = proxyRun pe evs (proxyStart (peCanControl pe) tk now);
       events = publishedEvents (pxLog px)
   in list_all (\<lambda>e. evType e = ''agent.controller_taken_over'' \<and> evAgentID e = peAgentID pe \<and> evOwner e = peOwner pe) events \<and>
     length events \<le> confirmedAttachments pe (pxLog px) \<and>
     length events + nat (pxPending px) =
       (if peCanControl pe then (if tk then 1 else 0) + askedTakeovers pe (pxLog px) else 0) \<and>
     metric Takeovers (pxLog px) = of_nat (length events)"
proof -
  define px where "px = proxyRun pe evs (proxyStart (peCanControl pe) tk now)"
  let ?events = "publishedEvents (pxLog px)"
  have "takeoversExact pe (if tk \<and> peCanControl pe then 1 else 0) (proxyStart (peCanControl pe) tk now)"
    by (simp add: takeover_defs proxyStart_def)
  then have ex: "takeoversExact pe (if tk \<and> peCanControl pe then 1 else 0) px"
    unfolding px_def by (intro proxyRun_inv [where P = "takeoversExact pe k" for k] takeovers_step)
  have "publishesTakeovers pe (proxyStart (peCanControl pe) tk now)" by (simp add: publishesTakeovers_def proxyStart_def)
  then have "publishesTakeovers pe px"
    unfolding px_def by (intro proxyRun_inv [where P = "publishesTakeovers pe"] publishes_step)
  then have "list_all (\<lambda>e. evType e = ''agent.controller_taken_over'' \<and> evAgentID e = peAgentID pe \<and> evOwner e = peOwner pe) ?events"
    by (auto simp: publishesTakeovers_def list_all_iff takenOver_def)
  moreover have "int (length ?events + nat (pxPending px)) =
      int (if peCanControl pe then (if tk then 1 else 0) + askedTakeovers pe (pxLog px) else 0)"
    using ex by (auto simp: takeoversExact_def)
  then have "length ?events + nat (pxPending px) = (if peCanControl pe then (if tk then 1 else 0) + askedTakeovers pe (pxLog px) else 0)"
    by (simp only: of_nat_eq_iff)
  moreover have "length ?events \<le> confirmedAttachments pe (pxLog px)" "metric Takeovers (pxLog px) = of_nat (length ?events)"
    using ex by (simp_all add: takeoversExact_def)
  ultimately show ?thesis unfolding Let_def px_def [symmetric] by metis
qed

section \<open>Nothing blocks\<close>

text \<open>How often a compare-and-swap failed in a run, and how stale the value it compares with is.\<close>

definition swapFails :: "proxyEvent \<Rightarrow> proxy \<Rightarrow> nat" where
  "swapFails ev px =
     (case (ev, pxRunner px) of (RunnerSwaps now, RunnerSwapping n m) \<Rightarrow> if pxPending px = n then 0 else 1 | _ \<Rightarrow> 0)"

fun swapRetries :: "proxyEnv \<Rightarrow> proxyEvent list \<Rightarrow> proxy \<Rightarrow> nat" where
  "swapRetries pe [] px = 0"
| "swapRetries pe (ev # evs) px = swapFails ev px + swapRetries pe evs (proxyStep pe ev px)"

definition stale :: "proxy \<Rightarrow> int" where
  "stale px = (case pxRunner px of RunnerSwapping n m \<Rightarrow> pxPending px - n | _ \<Rightarrow> 0)"

definition staleOK :: "proxyEnv \<Rightarrow> proxyEvent \<Rightarrow> proxy \<Rightarrow> bool" where
  "staleOK pe ev px \<longleftrightarrow> 0 \<le> stale (proxyStep pe ev px) \<and>
     int (swapFails ev px) + stale (proxyStep pe ev px) + int (askedTakeovers pe (pxLog px)) \<le>
       stale px + int (askedTakeovers pe (pxLog (proxyStep pe ev px)))"

lemmas stale_defs = staleOK_def stale_def swapFails_def askedTakeovers_def proxy_defs

lemma stale_client:
  "0 \<le> stale px \<Longrightarrow> staleOK pe (ClientRead r now) px" "0 \<le> stale px \<Longrightarrow> staleOK pe (ClientWrote err) px"
  by (cases "pxRunner px"; force simp: stale_defs Let_def split: sum.splits option.splits clientPhase.splits)+

lemma stale_runner:
  "0 \<le> stale px \<Longrightarrow> staleOK pe (RunnerRead r now) px" "0 \<le> stale px \<Longrightarrow> staleOK pe RunnerLoads px"
  "0 \<le> stale px \<Longrightarrow> staleOK pe (RunnerSwaps now) px" "0 \<le> stale px \<Longrightarrow> staleOK pe (RunnerWrote err) px"
  by (cases "pxRunner px"; force simp: stale_defs Let_def split: sum.splits option.splits prod.splits)+

lemma stale_other:
  "0 \<le> stale px \<Longrightarrow> staleOK pe (IdleTick now) px" "0 \<le> stale px \<Longrightarrow> staleOK pe IdleStops px"
  "0 \<le> stale px \<Longrightarrow> staleOK pe LifetimeOver px" "0 \<le> stale px \<Longrightarrow> staleOK pe ProxyReturns px"
  by (cases "pxRunner px"; simp add: stale_defs split: option.splits list.splits)+

lemma stale_step: "0 \<le> stale px \<Longrightarrow> staleOK pe ev px"
  by (cases ev) (simp_all only: stale_client stale_runner stale_other)

lemma swapRetries_bound:
  "0 \<le> stale px \<Longrightarrow> int (swapRetries pe evs px) + int (askedTakeovers pe (pxLog px)) \<le>
     stale px + int (askedTakeovers pe (pxLog (proxyRun pe evs px)))"
proof (induction evs arbitrary: px)
  case Nil
  then show ?case by (simp add: proxyRun_def)
next
  case (Cons ev evs)
  note step = stale_step [OF Cons.prems, of pe ev, unfolded staleOK_def]
  have "proxyRun pe (ev # evs) px = proxyRun pe evs (proxyStep pe ev px)" by (simp add: proxyRun_def)
  then show ?case using Cons.IH [OF conjunct1 [OF step]] conjunct2 [OF step] by simp
qed

definition stopped :: "proxy \<Rightarrow> nat" where
  "stopped px = (if pxClient px = ClientDone then 1 else 0) + (if pxRunner px = RunnerDone then 1 else 0) + (if pxIdling px then 0 else 1)"

definition errorsBounded :: "proxy \<Rightarrow> bool" where
  "errorsBounded px \<longleftrightarrow> length (pxErrors px) + (if pxResult px = None then 0 else 1) \<le> stopped px"

lemma errors_step: "errorsBounded px \<Longrightarrow> errorsBounded (proxyStep pe ev px)"
  by (cases ev) (auto simp: errorsBounded_def stopped_def proxy_defs Let_def
      split: sum.splits option.splits clientPhase.splits runnerPhase.splits prod.splits list.splits if_splits)

text \<open>
  C34. No goroutine of the proxy gets stuck. The compare-and-swap loop fails at most once for each
  takeover the client asks for, and ends as soon as one load and one swap run undisturbed; at most
  three errors are ever sent, so that the channel of capacity three never blocks a sender.
\<close>

theorem proxy_never_stuck:
  "swapRetries pe evs (proxyStart can tk now) \<le> askedTakeovers pe (pxLog (proxyRun pe evs (proxyStart can tk now))) \<and>
   pxRunner (proxyRun pe [RunnerLoads, RunnerSwaps t] (px\<lparr>pxRunner := RunnerTaking m\<rparr>)) = RunnerWriting m \<and>
   length (pxErrors (proxyRun pe evs (proxyStart can tk now))) \<le> 3"
proof (intro conjI)
  show "swapRetries pe evs (proxyStart can tk now) \<le> askedTakeovers pe (pxLog (proxyRun pe evs (proxyStart can tk now)))"
    using swapRetries_bound [of "proxyStart can tk now" pe evs] by (simp add: stale_def proxyStart_def askedTakeovers_def)
  show "pxRunner (proxyRun pe [RunnerLoads, RunnerSwaps t] (px\<lparr>pxRunner := RunnerTaking m\<rparr>)) = RunnerWriting m"
    by (simp add: proxyRun_def logged_def)
  have "errorsBounded (proxyStart can tk now)" by (simp add: errorsBounded_def stopped_def proxyStart_def)
  then have "errorsBounded (proxyRun pe evs (proxyStart can tk now))" by (intro proxyRun_inv [where P = errorsBounded] errors_step)
  moreover have "stopped px \<le> 3" for px by (simp add: stopped_def)
  ultimately show "length (pxErrors (proxyRun pe evs (proxyStart can tk now))) \<le> 3"
    unfolding errorsBounded_def by (metis add_leD1 le_trans)
qed

section \<open>An instance\<close>

definition sampleLimits :: Limits where
  "sampleLimits = DefaultLimits\<lparr>MaxConnections := 2, MaxConnectionsPerAgent := 1\<rparr>"

definition sampleURL :: gatewayURL where
  "sampleURL = \<lparr>urlScheme = ''https'', urlHost = ''router'', urlRawQuery = [], urlFragment = [], urlUser = None, urlPath = ''/''\<rparr>"

definition sampleSigner :: Signer where
  "sampleSigner = \<lparr>privateKey = ''k'', sgTTL = 60000000000\<rparr>"

definition sampleConfig :: "'w resolver \<Rightarrow> 'w gatewayConfig" where
  "sampleConfig r = \<lparr>cfResolver = Some r, cfSigner = Some sampleSigner, cfEvents = True, cfLogger = True, cfRouterURL = ''u'',
     cfRouterTokenFile = ''/t'', cfRunnerPort = 8080, cfLimits = sampleLimits\<rparr>"

definition sampleGateway :: "'w resolver \<Rightarrow> 'w gateway" where
  "sampleGateway r = \<lparr>gwResolver = r, gwSigner = sampleSigner, gwRouterURL = sampleURL, gwRouterTokenFile = ''/t'', gwRunnerPort = 8080,
     gwLimits = sampleLimits\<rparr>"

lemma sampleGateway_new: "NewGateway (\<lambda>_. Some sampleURL) (sampleConfig r) = Inr (sampleGateway r, newLimiter sampleLimits)"
  by (simp add: NewGateway_def sampleConfig_def sampleGateway_def sampleURL_def sampleLimits_def DefaultLimits_def Let_def)

theorem limiter_exact_witness:
  "\<exists>l held. fold slotStep [Arrive ''a'', Arrive ''a'', Leave ''a'', Arrive ''b''] (newLimiter sampleLimits, []) = (l, held) \<and>
     lmTotal l = int (length held) \<and> lmPerAgent l ''b'' = (if ''b'' \<in> set held then Some (int (count_list held ''b'')) else None)"
proof -
  obtain l held where run: "fold slotStep [Arrive ''a'', Arrive ''a'', Leave ''a'', Arrive ''b''] (newLimiter sampleLimits, []) = (l, held)"
    by (rule prod.exhaust)
  then show ?thesis using limiter_exact [OF sampleGateway_new run, where a = "''b''"] by blast
qed

end
