(* ===== verification/Gateway_Props.thy ===== *)
theory Gateway_Props
  imports Gateway_Proxy
begin

text \<open>
  What serving a terminal guarantees: a connection gives back its slot on every path; an observer's
  connection changes nothing; the capability sent to the runner carries the principal's role; the
  runner and the gateway read a frame alike.
\<close>

section \<open>What a terminal connection may do\<close>

text \<open>A contract for the actions of a connection, whose dial is constrained separately.\<close>

definition admits :: "(action \<Rightarrow> bool) \<Rightarrow> proxyEnv \<Rightarrow> bool" where
  "admits P pe \<longleftrightarrow>
     (\<forall>p. P (Socket (FromClient p)) \<and> P (Socket (FromRunner p)) \<and> P (Socket (ToClient p)) \<and> P (Socket (ToRunner p)) \<and>
          P (Socket (ClosedClient p))) \<and> P (Socket DroppedRunner) \<and>
     (\<forall>c n. c \<noteq> ActiveConnections \<longrightarrow> P (Counted c n)) \<and> (\<forall>attrs. P (Audited attrs)) \<and>
     (peCanControl pe \<longrightarrow> (\<forall>now. P (Published (takenOver pe now))))"

definition admitted' :: "(action \<Rightarrow> bool) \<Rightarrow> proxyEnv \<Rightarrow> proxy \<Rightarrow> bool" where
  "admitted' P pe px \<longleftrightarrow> list_all P (pxLog px) \<and>
     (\<not> peCanControl pe \<longrightarrow> pxPending px = 0 \<and> (\<forall>n m. pxRunner px \<noteq> RunnerSwapping n m))"

lemma admitted_client:
  "admits P pe \<Longrightarrow> admitted' P pe px \<Longrightarrow> admitted' P pe (proxyStep pe (ClientRead r now) px)"
  "admits P pe \<Longrightarrow> admitted' P pe px \<Longrightarrow> admitted' P pe (proxyStep pe (ClientWrote err) px)"
  by (auto simp: admits_def admitted'_def proxy_defs Let_def split: sum.splits option.splits clientPhase.splits)

lemma admitted_runner:
  "admits P pe \<Longrightarrow> admitted' P pe px \<Longrightarrow> admitted' P pe (proxyStep pe (RunnerRead r now) px)"
  "admits P pe \<Longrightarrow> admitted' P pe px \<Longrightarrow> admitted' P pe (proxyStep pe RunnerLoads px)"
  "admits P pe \<Longrightarrow> admitted' P pe px \<Longrightarrow> admitted' P pe (proxyStep pe (RunnerSwaps now) px)"
  "admits P pe \<Longrightarrow> admitted' P pe px \<Longrightarrow> admitted' P pe (proxyStep pe (RunnerWrote err) px)"
  by (auto simp: admits_def admitted'_def proxy_defs Let_def split: sum.splits option.splits runnerPhase.splits prod.splits)

lemma admitted_other:
  "admits P pe \<Longrightarrow> admitted' P pe px \<Longrightarrow> admitted' P pe (proxyStep pe (IdleTick now) px)"
  "admits P pe \<Longrightarrow> admitted' P pe px \<Longrightarrow> admitted' P pe (proxyStep pe IdleStops px)"
  "admits P pe \<Longrightarrow> admitted' P pe px \<Longrightarrow> admitted' P pe (proxyStep pe LifetimeOver px)"
  "admits P pe \<Longrightarrow> admitted' P pe px \<Longrightarrow> admitted' P pe (proxyStep pe ProxyReturns px)"
  by (auto simp: admits_def admitted'_def proxy_defs split: option.splits list.splits)

lemma admitted_step: "admits P pe \<Longrightarrow> admitted' P pe px \<Longrightarrow> admitted' P pe (proxyStep pe ev px)"
  by (cases ev) (simp_all only: admitted_client admitted_runner admitted_other)

lemma proxy_admitted:
  assumes "admits P pe"
  shows "list_all P (pxLog (proxyRun pe evs (proxyStart (peCanControl pe) tk now)))"
proof -
  have "admitted' P pe (proxyStart (peCanControl pe) tk now)" by (simp add: admitted'_def proxyStart_def)
  then have "admitted' P pe (proxyRun pe evs (proxyStart (peCanControl pe) tk now))"
    by (intro proxyRun_inv [where P = "admitted' P pe"] admitted_step [OF assms])
  then show ?thesis by (simp add: admitted'_def)
qed

lemma does_log: "list_all P as \<Longrightarrow> does P (State (\<lambda>s. ((), s\<lparr>actions := actions s @ as\<rparr>)))"
  by (simp add: yields_def)

lemma does_runProxy: "admits P pe \<Longrightarrow> does P (runProxy E pe tk)"
  unfolding runProxy_def by (intro does_intros yields_ask does_log proxy_admitted)

lemma does_writeProtocolError: "admits P pe \<Longrightarrow> does P (writeProtocolError E code message requestID retryable)"
  unfolding writeProtocolError_def by (intro does_intros) (simp_all add: admits_def)

lemma does_internalFailure: "admits P pe \<Longrightarrow> does P (internalFailure E message requestID)"
  unfolding internalFailure_def by (intro does_intros does_writeProtocolError [where pe = pe]) (simp_all add: admits_def)

abbreviation envOf :: "'w gatewayEnv \<Rightarrow> 'w gateway \<Rightarrow> string \<Rightarrow> string \<Rightarrow> string \<Rightarrow> bool \<Rightarrow> proxyEnv" where
  "envOf E g owner agentID requestID canControl \<equiv>
     \<lparr>peParse = geParse E, peOwner = owner, peAgentID = agentID, peRequestID = requestID,
      peCanControl = canControl, peIdleTimeout = IdleTimeout (gwLimits g)\<rparr>"

lemma does_bridge:
  assumes "admits P (envOf E g owner agentID requestID canControl)"
  shows "does P (bridge E g owner agentID requestID canControl frame msg)"
  unfolding bridge_def
  by (intro does_intros yields_ask does_internalFailure [OF assms] does_runProxy [OF assms]) (use assms in \<open>simp_all add: admits_def\<close>)

text \<open>The dial: any minted capability, any token.\<close>

definition dials ::
  "'w gatewayEnv \<Rightarrow> 'w gateway \<Rightarrow> apiRequest \<Rightarrow> string \<Rightarrow> string \<Rightarrow> bool \<Rightarrow> (action \<Rightarrow> bool) \<Rightarrow> bool" where
  "dials E g req agentID requestID canControl P \<longleftrightarrow>
     (\<forall>now ident capability routerToken target.
        Mint (geSign E) (gePrint E) (gwSigner g) now ident agentID (permissionRole canControl) requestID = Inr capability \<longrightarrow>
        P (Socket (Dialed (geURLText E (terminalURL (gwRouterURL g)))
          (runnerHeaders g target routerToken capability requestID (aqHeader req ''traceparent'')))))"

lemma does_connectRunner:
  assumes "admits P (envOf E g owner agentID requestID canControl)" "dials E g req agentID requestID canControl P"
  shows "does P (connectRunner E g req owner agentID requestID canControl target frame msg)"
  unfolding connectRunner_def Let_def
  by (intro does_intros yields_ask yields_effect does_internalFailure [OF assms(1)] does_bridge [OF assms(1)])
    (use assms(2) in \<open>simp add: dials_def\<close>)

lemma does_serveConnection:
  assumes "admits P (envOf E g owner agentID requestID canControl)" "dials E g req agentID requestID canControl P"
  shows "does P (serveConnection E g req owner agentID requestID canControl target)"
  unfolding serveConnection_def
  by (intro does_intros yields_ask does_writeProtocolError [OF assms(1)] does_connectRunner [OF assms])
    (use assms(1) in \<open>simp_all add: admits_def\<close>)

section \<open>Slots and the gauge\<close>

fun slotAction :: "action \<Rightarrow> bool" where
  "slotAction (Socket (SlotTaken a)) = True"
| "slotAction (Socket (SlotFreed a)) = True"
| "slotAction _ = False"

definition quiet :: "action \<Rightarrow> bool" where
  "quiet act \<longleftrightarrow> \<not> slotAction act \<and> counted ActiveConnections act = 0"

text \<open>\<open>tallies k m\<close>: \<open>m\<close> leaves slots alone and adds \<open>k\<close> to the gauge of active connections.\<close>

definition tallies :: "uint64 \<Rightarrow> ('w, 'a) kprog \<Rightarrow> bool" where
  "tallies k m \<longleftrightarrow> (\<forall>s. \<exists>as. actions (snd (run_state m s)) = actions s @ as \<and> filter slotAction as = [] \<and> metric ActiveConnections as = k)"

lemma tallies_bind:
  assumes "tallies j f" "\<And>a. tallies k (h a)"
  shows "tallies (j + k) (State_Monad.bind f h)"
  unfolding tallies_def
proof
  fix s
  obtain a s' where f: "run_state f s = (a, s')" by (rule prod.exhaust)
  obtain as where as: "actions s' = actions s @ as" "filter slotAction as = []" "metric ActiveConnections as = j"
    using assms(1) f unfolding tallies_def by (metis snd_conv)
  obtain bs where bs: "actions (snd (run_state (h a) s')) = actions s' @ bs" "filter slotAction bs = []" "metric ActiveConnections bs = k"
    using assms(2) unfolding tallies_def by blast
  show "\<exists>cs. actions (snd (run_state (State_Monad.bind f h) s)) = actions s @ cs \<and> filter slotAction cs = [] \<and> metric ActiveConnections cs = j + k"
    using f as bs by (intro exI [of _ "as @ bs"]) (simp add: run_bind)
qed

lemma quiet_tally: "list_all quiet as \<Longrightarrow> filter slotAction as = [] \<and> metric ActiveConnections as = 0"
  by (induction as) (auto simp: quiet_def)

lemma tallies_quiet: "does quiet m \<Longrightarrow> tallies 0 m"
  unfolding yields_def tallies_def using quiet_tally by blast

lemma tallies_count: "tallies k (kCount ActiveConnections k)"
  by (simp add: tallies_def kCount_def effect_def)

lemma admits_quiet: "admits quiet pe"
  by (simp add: admits_def quiet_def)

lemma dials_quiet: "dials E g req agentID requestID canControl quiet"
  by (simp add: dials_def quiet_def)

lemma quiet_calls: "quiet (Socket Upgraded)" "c \<noteq> ActiveConnections \<Longrightarrow> quiet (Counted c n)" "quiet (Socket DroppedClient)" "quiet (Call cl)"
  by (simp_all add: quiet_def)

lemma tallies_then: "does quiet f \<Longrightarrow> (\<And>a. tallies k (h a)) \<Longrightarrow> tallies k (State_Monad.bind f h)"
  using tallies_bind [of 0 f k h] tallies_quiet by auto

lemma tallies_add: "(\<And>a. tallies (k - n) (h a)) \<Longrightarrow> tallies k (State_Monad.bind (kCount ActiveConnections n) h)"
  using tallies_bind [OF tallies_count, of "k - n" h n] by simp

lemma tallies_if: "(c \<Longrightarrow> tallies k m) \<Longrightarrow> (\<not> c \<Longrightarrow> tallies k n) \<Longrightarrow> tallies k (if c then m else n)"
  by simp

lemma tallies_serveUpgraded: "tallies 0 (serveUpgraded E g req owner agentID requestID canControl target)"
  unfolding serveUpgraded_def
  by (rule tallies_then, rule yields_ask, rule tallies_if, rule tallies_quiet, rule does_return,
      rule tallies_then, intro does_calls quiet_calls, rule tallies_then, rule yields_ask,
      rule tallies_add, rule tallies_then, intro does_calls quiet_calls, simp,
      rule tallies_then, intro does_serveConnection admits_quiet dials_quiet,
      rule tallies_add, simp, rule tallies_quiet)
    (intro does_intros yields_ask quiet_calls; simp)

text \<open>The resolver of the control plane only reads.\<close>

lemma does_resolver:
  "(\<And>g n. P (Call (CGet g n))) \<Longrightarrow> does P (ResolveRunner K cd ns owner i)"
  unfolding ResolveRunner_def GetAgent_def ownedObject_def Let_def by (intro does_intros) auto

text \<open>
  A terminal request gives back its slot of the connection limit exactly once, as its last
  action, on every path on which it took one, whatever the client, the runner, the proxy's
  schedule and the API server do; a request refused with an error took none; and the gauge of
  active connections is left as it was.
\<close>

theorem slot_given_back:
  assumes "gwResolver g = ResolveRunner K cd ns"
  shows "\<exists>as. actions (snd (run_state (ServeTerminal E g req owner agentID requestID canControl) s)) = actions s @ as \<and>
    metric ActiveConnections as = 0 \<and>
    (filter slotAction as = [] \<or>
     filter slotAction as = [Socket (SlotTaken agentID), Socket (SlotFreed agentID)] \<and> last as = Socket (SlotFreed agentID) \<and>
     fst (run_state (ServeTerminal E g req owner agentID requestID canControl) s) = None)"
proof (cases "offersSubprotocol (aqHeader req ''Sec-WebSocket-Protocol'') Protocol")
  case False
  then show ?thesis by (intro exI [of _ "[]"]) (simp add: ServeTerminal_def State_Monad.return_def)
next
  case True
  let ?serve = "run_state (ServeTerminal E g req owner agentID requestID canControl) s"
  obtain t s1 where r: "run_state (gwResolver g owner agentID) s = (t, s1)" by (rule prod.exhaust)
  have "does quiet (gwResolver g owner agentID)" unfolding assms by (intro does_resolver quiet_calls)
  then obtain as where as: "actions s1 = actions s @ as" "list_all quiet as"
    using r unfolding yields_def by (metis snd_conv)
  note q = quiet_tally [OF as(2)]
  obtain ok l where acq: "acquire agentID (gwLimiter (world s1)) = (ok, l)" by (rule prod.exhaust)
  show ?thesis
  proof (cases "(\<exists>target. t = Inr target) \<and> ok")
    case False
    then have "snd ?serve = s1 \<or> actions (snd ?serve) = actions s1"
      using True r acq
      by (cases t) (auto simp: ServeTerminal_def run_bind acquireSlot_def ask_def State_Monad.return_def)
    then show ?thesis using as(1) q by (intro exI [of _ as]) auto
  next
    case taken: True
    then obtain target where t: "t = Inr target" and ok: ok by blast
    let ?s2 = "s1\<lparr>world := (world s1)\<lparr>gwLimiter := l\<rparr>, actions := actions s1 @ [Socket (SlotTaken agentID)]\<rparr>"
    let ?s3 = "snd (run_state (serveUpgraded E g req owner agentID requestID canControl target) ?s2)"
    have serve: "fst ?serve = None" "actions (snd ?serve) = actions ?s3 @ [Socket (SlotFreed agentID)]"
      using True r t ok acq
      by (simp_all add: ServeTerminal_def run_bind acquireSlot_def releaseSlot_def ask_def effect_def kSocket_def State_Monad.return_def case_prod_beta)
    obtain bs where bs: "actions ?s3 = actions ?s2 @ bs" "filter slotAction bs = []" "metric ActiveConnections bs = 0"
      using tallies_serveUpgraded unfolding tallies_def by blast
    show ?thesis
      using serve as(1) q bs by (intro exI [of _ "as @ [Socket (SlotTaken agentID)] @ bs @ [Socket (SlotFreed agentID)]"]) simp
  qed
qed

section \<open>The gateway and the runner read a frame alike\<close>

text \<open>Two structs decoded from the same members, the first strictly, stay related.\<close>

lemma decodeMembers_sim:
  assumes "decodeMembers True fs ms r = Some r'" "R r q"
    and "\<forall>k v. (k, v) \<in> set ms \<longrightarrow> (\<forall>f r r1 q. findField fs k = Some f \<longrightarrow> f v r = Some r1 \<longrightarrow> R r q \<longrightarrow>
      (case findField gs k of None \<Rightarrow> R r1 q | Some h \<Rightarrow> \<exists>q1. h v q = Some q1 \<and> R r1 q1))"
  shows "\<exists>q'. decodeMembers False gs ms q = Some q' \<and> R r' q'"
  using assms
proof (induction ms arbitrary: r q)
  case Nil
  then show ?case by simp
next
  case (Cons m ms)
  obtain k v where m: "m = (k, v)" by (cases m)
  obtain f r1 where f: "findField fs k = Some f" "f v r = Some r1" "decodeMembers True fs ms r1 = Some r'"
    using Cons.prems(1) m by (auto split: option.splits)
  have step: "case findField gs k of None \<Rightarrow> R r1 q | Some h \<Rightarrow> \<exists>q1. h v q = Some q1 \<and> R r1 q1"
    using Cons.prems(3) m f(1,2) Cons.prems(2) by (meson list.set_intros(1))
  have rest: "\<forall>k v. (k, v) \<in> set ms \<longrightarrow> (\<forall>f r r1 q. findField fs k = Some f \<longrightarrow> f v r = Some r1 \<longrightarrow> R r q \<longrightarrow>
      (case findField gs k of None \<Rightarrow> R r1 q | Some h \<Rightarrow> \<exists>q1. h v q = Some q1 \<and> R r1 q1))"
    using Cons.prems(3) by (meson list.set_intros(2))
  show ?case
  proof (cases "findField gs k")
    case None
    with Cons.IH [OF f(3) _ rest] step m show ?thesis by auto
  next
    case (Some h)
    with step obtain q1 where "h v q = Some q1" "R r1 q1" by auto
    with Cons.IH [OF f(3) _ rest, of q1] Some m show ?thesis by auto
  qed
qed

lemma strict_members: "decodeMembers True fs ms r = Some r' \<Longrightarrow> decodeMembers False fs ms r = Some r'"
  by (induction ms arbitrary: r) (auto split: option.splits)

lemma strict_struct: "decodeStruct True fs v r = Some r' \<Longrightarrow> decodeStruct False fs v r = Some r'"
  by (cases v) (auto simp: strict_members)

definition sameFrame :: "Frame \<Rightarrow> inspectedFrame \<Rightarrow> bool" where
  "sameFrame f q \<longleftrightarrow> q = \<lparr>ifType = frType f, ifProtocolVersion = frProtocolVersion f, ifRole = frRole f,
     ifTakeover = frTakeover f, ifTerminalSize = frTerminalSize f\<rparr>"

definition sameType :: "Frame \<Rightarrow> string \<times> string \<Rightarrow> bool" where
  "sameType f q \<longleftrightarrow> q = (frType f, frRole f)"

lemma setSize_same:
  assumes "setSize v r = Some r1" "sameFrame r q"
  shows "\<exists>q1. setInspectedSize v q = Some q1 \<and> sameFrame r1 q1"
proof (cases "v = JNull")
  case True
  with assms show ?thesis by (auto simp: sameFrame_def)
next
  case False
  then have "setSize v r = map_option (\<lambda>s. r\<lparr>frTerminalSize := Some s\<rparr>)
        (decodeStruct True sizeFields v (case frTerminalSize r of None \<Rightarrow> zeroSize | Some s \<Rightarrow> s))"
    "setInspectedSize v q = map_option (\<lambda>s. q\<lparr>ifTerminalSize := Some s\<rparr>)
        (decodeStruct False sizeFields v (case ifTerminalSize q of None \<Rightarrow> zeroSize | Some s \<Rightarrow> s))"
    by (cases v; simp)+
  with assms show ?thesis by (auto simp: sameFrame_def dest: strict_struct)
qed

lemma inspected_exact:
  "findField inspectedFields ''type'' = Some (setField decString (\<lambda>x r. r\<lparr>ifType := x\<rparr>))"
  "findField inspectedFields ''protocolVersion'' = Some (setField decString (\<lambda>x r. r\<lparr>ifProtocolVersion := x\<rparr>))"
  "findField inspectedFields ''role'' = Some (setField decString (\<lambda>x r. r\<lparr>ifRole := x\<rparr>))"
  "findField inspectedFields ''takeover'' = Some (setField decBool (\<lambda>x r. r\<lparr>ifTakeover := x\<rparr>))"
  "findField inspectedFields ''terminalSize'' = Some setInspectedSize"
  "findField typeFields ''type'' = Some (setField decString (\<lambda>x r. (x, snd r)))"
  "findField typeFields ''role'' = Some (setField decString (\<lambda>x r. (fst r, x)))"
  by (simp_all add: findField_def inspectedFields_def typeFields_def)

text \<open>The other names of client frames do not fold to one of these.\<close>

lemma inspected_other:
  "findField inspectedFields ''afterSequence'' = None" "findField inspectedFields ''leaseId'' = None"
  "findField inspectedFields ''data'' = None" "findField inspectedFields ''sequence'' = None"
  "findField inspectedFields ''nonce'' = None"
  "findField typeFields ''afterSequence'' = None" "findField typeFields ''leaseId'' = None"
  "findField typeFields ''data'' = None" "findField typeFields ''sequence'' = None"
  "findField typeFields ''nonce'' = None" "findField typeFields ''protocolVersion'' = None"
  "findField typeFields ''takeover'' = None" "findField typeFields ''terminalSize'' = None"
  by (simp_all add: findField_def inspectedFields_def typeFields_def foldKey_def foldRune_def decodeRune.simps isCont_def)

lemma sameFrame_member:
  assumes k: "k \<in> clientFields" and f: "findField frameFields k = Some f" "f v r = Some r1" and q: "sameFrame r q"
  shows "case findField inspectedFields k of None \<Rightarrow> sameFrame r1 q | Some h \<Rightarrow> \<exists>q1. h v q = Some q1 \<and> sameFrame r1 q1"
proof -
  from f(1) have f1: "f = the (findField frameFields k)" by simp
  show ?thesis
    using k f(2) q setSize_same [of v r r1 q] unfolding f1 clientFields_def
    by (elim insertE emptyE)
      (auto simp: clientField_setters inspected_exact inspected_other sameFrame_def setField_def setPointer_def setBytes_def
        simp del: setSize.simps setInspectedSize.simps split: option.splits)
qed

lemma sameType_member:
  assumes k: "k \<in> clientFields" and f: "findField frameFields k = Some f" "f v r = Some r1" and q: "sameType r q"
  shows "case findField typeFields k of None \<Rightarrow> sameType r1 q | Some h \<Rightarrow> \<exists>q1. h v q = Some q1 \<and> sameType r1 q1"
proof -
  from f(1) have f1: "f = the (findField frameFields k)" by simp
  show ?thesis
    using k f(2) q unfolding f1 clientFields_def
    by (elim insertE emptyE)
      (auto simp: clientField_setters inspected_exact inspected_other sameType_def setField_def setPointer_def setBytes_def
        simp del: setSize.simps split: option.splits dest!: setSize_Some)
qed

text \<open>
  A client frame that the runner accepts means the same to the gateway in front of it: the
  type and role it inspects in passing are those of the decoded frame, and it admits the frame as
  an attachment exactly if the runner sees an attach frame of this version with a known role
  and a valid size, with the same takeover flag. No frame is one thing to the gateway, which
  authorizes and audits, and another to the runner, which acts.
\<close>

theorem frames_read_alike:
  assumes "decodeFrame parse pr je order data = Inr f" "permutes order"
  shows "inspectType parse data = (frType f, frRole f) \<and>
    inspectAttach parse True data =
      (if frType f = ''attach'' \<and> frProtocolVersion f = ProtocolVersion \<and> (frRole f = ''control'' \<or> frRole f = ''observe'') \<and>
          (\<exists>sz. frTerminalSize f = Some sz \<and> validateSize sz = None)
       then Some \<lparr>ifType = frType f, ifProtocolVersion = frProtocolVersion f, ifRole = frRole f,
         ifTakeover = frTakeover f, ifTerminalSize = frTerminalSize f\<rparr>
       else None)"
  using assms
proof (cases rule: decodeFrame_ok)
  case (1 v ms ty sh)
  have v: "v = JObj ms" using 1(2,3) by (cases v) (auto simp: rawLookup_def)
  have d: "decodeMembers True frameFields ms zeroFrame = Some f" using 1(7) v by simp
  have keys: "(k, u) \<in> set ms \<Longrightarrow> k \<in> clientFields" for k u
    using 1(5) shapes_clientFields [OF 1(4)] by force
  have "\<exists>q. decodeMembers False inspectedFields ms zeroInspected = Some q \<and> sameFrame f q"
  proof (rule decodeMembers_sim [where R = sameFrame and gs = inspectedFields, OF d])
    show "sameFrame zeroFrame zeroInspected" by (simp add: sameFrame_def zeroInspected_def zeroFrame_def)
  qed (use keys sameFrame_member in blast)
  moreover have "\<exists>q. decodeMembers False typeFields ms ([], []) = Some q \<and> sameType f q"
  proof (rule decodeMembers_sim [where R = sameType and gs = typeFields, OF d])
    show "sameType zeroFrame ([], [])" by (simp add: sameType_def zeroFrame_def)
  qed (use keys sameType_member in blast)
  ultimately show ?thesis
    using 1(1) v by (auto simp: inspectType_def inspectAttach_def sameFrame_def sameType_def split: option.splits)
qed

theorem frames_read_alike_witness:
  "inspectType (\<lambda>_. Some (demoPing, [])) ''m'' = (''ping'', [])"
  using frames_read_alike [OF demoPing_decodes] by (simp add: permutes_def zeroFrame_def)

section \<open>The capability on the wire\<close>

text \<open>Printed claims are read as themselves or not at all.\<close>

lemma formatInt_exact: "decInt64 (JNum (formatInt i)) = Some (Some j) \<Longrightarrow> j = i"
proof -
  assume "decInt64 (JNum (formatInt i)) = Some (Some j)"
  then have j: "parseIntLit (- (2 ^ 63)) (2 ^ 63 - 1) (formatInt i) = Some j" by simp
  have "parseIntLit (min i (- (2 ^ 63))) (max i (2 ^ 63 - 1)) (formatInt i) = Some i"
    by (rule parseIntLit_formatInt) simp_all
  with j show ?thesis by (auto simp: parseIntLit_def Let_def split: option.splits if_splits list.splits)
qed

lemma claims_exact:
  assumes "decodeStruct False claimsFields (claimsJson c) zeroClaims = Some c'"
  shows "c' = c"
proof -
  have fields: "map_of claimsFields ''iat'' = Some (setField decInt64 (\<lambda>x r. r\<lparr>IssuedAt := x\<rparr>))"
      "map_of claimsFields ''exp'' = Some (setField decInt64 (\<lambda>x r. r\<lparr>ExpiresAt := x\<rparr>))"
    by (simp_all add: claimsFields_def)
  obtain i e where ie: "decInt64 (JNum (formatInt (IssuedAt c))) = Some (Some i)" "decInt64 (JNum (formatInt (ExpiresAt c))) = Some (Some e)"
    "c' = c\<lparr>IssuedAt := i, ExpiresAt := e\<rparr>"
    using assms
    by (auto simp: claimsJson_def claimsFields_def findField_exact setField_def zeroClaims_def split: option.splits)
  then show ?thesis by (auto dest!: formatInt_exact simp del: decInt64.simps)
qed

text \<open>Whoever accepts a minted token reads the minted claims.\<close>

lemma minted_claims:
  assumes mint: "Mint sign print sg now (Inr ident) agent role rid = Inr token"
    and json: "parse (print (claimsJson (mintClaims sg now ident agent role rid))) =
      Some (claimsJson (mintClaims sg now ident agent role rid), [])"
    and ok: "VerifyFor verify parse t token agent' scope v = (Inr c, v')"
  shows "c = mintClaims sg now ident agent role rid"
proof -
  let ?c = "mintClaims sg now ident agent role rid"
  have token: "\<exists>h g. token = encodeURL h @ ''.'' @ encodeURL (print (claimsJson ?c)) @ ''.'' @ encodeURL g"
    using mint by (auto simp: Mint_def Let_def split: if_splits)
  then obtain h g where "token = encodeURL h @ ''.'' @ encodeURL (print (claimsJson ?c)) @ ''.'' @ encodeURL g" by blast
  then have split: "splitOn (CHR ''.'') token = [encodeURL h, encodeURL (print (claimsJson ?c)), encodeURL g]"
    using splitOn_token by simp
  have "parseToken verify parse (publicKey v) token = Inr c" by (rule VerifyFor_ok(1) [OF ok])
  then have "decodeStruct False claimsFields (claimsJson ?c) zeroClaims = Some c"
    using json by (auto simp: parseToken_def split unmarshalText_def atEOF_def split: if_splits option.splits)
  then show ?thesis by (rule claims_exact)
qed

text \<open>What a dial must carry.\<close>

definition carriesRole :: "scanner \<Rightarrow> string \<Rightarrow> string \<Rightarrow> bool \<Rightarrow> action \<Rightarrow> bool" where
  "carriesRole parse agentID requestID canControl act \<longleftrightarrow>
     (\<forall>address headers. act = Socket (Dialed address headers) \<longrightarrow>
       (\<exists>token. map_of headers CapabilityHeader = Some [token] \<and>
         (\<forall>verify t agent req v perms v'. reqHeader req CapabilityHeader = token \<longrightarrow>
            capabilityAuthenticate verify parse t agent req v = (Some perms, v') \<longrightarrow>
            agent = agentID \<and> Control perms = canControl \<and> PermRequestID perms = requestID \<and> TerminalOnly perms)))"

lemma admits_carries: "admits (carriesRole parse agentID requestID canControl) pe"
  by (simp add: admits_def carriesRole_def)

lemma dials_carries:
  assumes json: "\<And>c. parse (gePrint E (claimsJson c)) = Some (claimsJson c, [])"
  shows "dials E g req agentID requestID canControl (carriesRole parse agentID requestID canControl)"
  unfolding dials_def
proof (intro allI impI)
  fix now ident capability routerToken and target :: RunnerTarget
  assume mint: "Mint (geSign E) (gePrint E) (gwSigner g) now ident agentID (permissionRole canControl) requestID = Inr capability"
  then obtain idb where idb: "ident = Inr idb" by (cases ident) (auto simp: Mint_def split: if_splits)
  have "agent = agentID \<and> Control perms = canControl \<and> PermRequestID perms = requestID \<and> TerminalOnly perms"
    if token: "reqHeader req' CapabilityHeader = capability" and auth: "capabilityAuthenticate verify parse t agent req' v = (Some perms, v')"
    for verify t agent req' v perms v'
  proof -
    from auth token obtain c where ok: "VerifyFor verify parse t capability agent ''terminal'' v = (Inr c, v')"
      and perms: "perms = noPermissions\<lparr>Observe := True, TerminalOnly := True, PermRequestID := ClaimRequestID c, Control := (ClaimRole c = ''control'')\<rparr>"
      by (auto simp: capabilityAuthenticate_def split: if_splits prod.splits sum.splits)
    have c: "c = mintClaims (gwSigner g) now idb agentID (permissionRole canControl) requestID"
      by (rule minted_claims [OF mint [unfolded idb] json ok])
    have "Subject c = agent" using VerifyFor_ok(2) [OF ok] by (simp add: checkClaims_None)
    then show ?thesis using c perms by (simp add: mintClaims_def permissionRole_def)
  qed
  then show "carriesRole parse agentID requestID canControl (Socket (Dialed (geURLText E (terminalURL (gwRouterURL g)))
      (runnerHeaders g target routerToken capability requestID (aqHeader req ''traceparent''))))"
    by (auto simp: carriesRole_def runnerHeaders_def CapabilityHeader_def)
qed

lemma does_serveUpgraded:
  assumes "admits P (envOf E g owner agentID requestID canControl)" "dials E g req agentID requestID canControl P"
    and "P (Socket Upgraded)" "\<And>n. P (Counted ActiveConnections n)" "P (Socket DroppedClient)"
  shows "does P (serveUpgraded E g req owner agentID requestID canControl target)"
  unfolding serveUpgraded_def
  by (intro does_intros yields_ask does_serveConnection [OF assms(1,2)]) (use assms in \<open>simp_all add: admits_def\<close>)

lemma does_ServeTerminal:
  assumes "admits P (envOf E g owner agentID requestID canControl)" "dials E g req agentID requestID canControl P"
    and "P (Socket Upgraded)" "\<And>n. P (Counted ActiveConnections n)" "P (Socket DroppedClient)"
    and "P (Socket (SlotTaken agentID))" "P (Socket (SlotFreed agentID))" "does P (gwResolver g owner agentID)"
  shows "does P (ServeTerminal E g req owner agentID requestID canControl)"
  unfolding ServeTerminal_def acquireSlot_def releaseSlot_def
  by (intro does_intros yields_ask yields_effect does_serveUpgraded [OF assms(1-5)] assms(6-8))


text \<open>
  With the gateway as the server's terminal handler, a principal without the control
  permission changes nothing by any request on an agent route, the terminal included: it reads,
  is audited, and moves terminal data, but publishes, enqueues and writes nothing.
\<close>

theorem observer_terminal_reads:
  assumes "svTerminal S = Some (\<lambda>req owner i rid can. ServeTerminal E g req owner i rid can)"
    and "gwResolver g = ResolveRunner K' cd' ns" and "\<not> CanControl p"
  shows "does readOnly (handleAgent K cd S req p rid)"
proof (rule readOnly_handleAgent [OF _ assms(3)])
  have "does readOnly (gwResolver g (prID p) i)" for i
    unfolding assms(2) by (rule does_resolver) simp
  then have "does readOnly (ServeTerminal E g req (prID p) i rid False)" for i
    by (intro does_ServeTerminal) (simp_all add: admits_def dials_def)
  then show "gatewayObserves S req p rid" using assms(1) by (simp add: gatewayObserves_def)
qed

section \<open>An instance\<close>

text \<open>A printer of claims that can be read back: the encoded values, separated by dots.\<close>

fun valueText :: "json \<Rightarrow> string" where
  "valueText (JStr t) = t"
| "valueText (JNum t) = t"
| "valueText _ = []"

fun dotted :: "string list \<Rightarrow> string" where
  "dotted [] = []"
| "dotted [t] = t"
| "dotted (t # ts) = t @ CHR ''.'' # dotted ts"

fun wirePrint :: "json \<Rightarrow> string" where
  "wirePrint (JObj ms) = dotted (map (\<lambda>m. encodeURL (valueText (snd m))) ms)"
| "wirePrint _ = []"

definition wireParse :: scanner where
  "wireParse t =
     (case those (map decodeURL (splitOn (CHR ''.'') t)) of
        Some [iss, aud, sub, role, scope, rid, jti, iat, exp'] \<Rightarrow>
          Some (JObj [(''iss'', JStr iss), (''aud'', JStr aud), (''sub'', JStr sub), (''role'', JStr role), (''scope'', JStr scope),
            (''requestId'', JStr rid), (''jti'', JStr jti), (''iat'', JNum iat), (''exp'', JNum exp')], [])
      | _ \<Rightarrow> None)"

lemma wire_roundtrip: "wireParse (wirePrint (claimsJson c)) = Some (claimsJson c, [])"
  by (simp add: wireParse_def claimsJson_def splitOn_append splitOn_none encodeURL_no_dot)

definition sampleEnv :: "'w gatewayEnv" where
  "sampleEnv = \<lparr>geClock = (\<lambda>w. (0, w)), geAccept = (\<lambda>_ w. (True, w)), geFirst = (\<lambda>w. (Some (True, ''m''), w)),
     geRandom = (\<lambda>w. (Inr ''id'', w)), geReadFile = (\<lambda>_ w. (Inr (replicate 16 (CHR ''t'')), w)), geDial = (\<lambda>_ _ w. (True, w)),
     geForward = (\<lambda>_ w. (True, w)), geSchedule = (\<lambda>w. ([], w)), geSign = demoSign, gePrint = wirePrint,
     geParse = wireParse, geURLText = (\<lambda>_. ''wss://router/v1alpha1/terminal'')\<rparr>"

definition terminalGateway :: "'w kube \<Rightarrow> 'w gateway" where
  "terminalGateway K = sampleGateway (ResolveRunner K sampleCodec ''ns'')"

lemma terminalGateway_resolver: "gwResolver (terminalGateway K) = ResolveRunner K sampleCodec ''ns''"
  by (simp add: terminalGateway_def sampleGateway_def)

abbreviation emptyWorld :: "unit gatewayWorld kst" where
  "emptyWorld \<equiv> \<lparr>world = \<lparr>gwLimiter = newLimiter sampleLimits, gwOutside = ()\<rparr>, actions = []\<rparr>"

definition sampleKube :: "'w kube" where
  "sampleKube = \<lparr>apiGet = (\<lambda>_ _ w. (Inr JNull, w)), apiList = (\<lambda>_ _ w. (Inr [], w)), apiCreate = (\<lambda>_ obj w. (Inr obj, w)),
     apiUpdate = (\<lambda>_ obj w. (Inr obj, w)), apiUpdateStatus = (\<lambda>_ obj w. (Inr obj, w)), apiPatch = (\<lambda>_ _ obj w. (Inr obj, w)),
     apiDelete = (\<lambda>_ _ _ w. (None, w)), clock = (\<lambda>w. (0, w)), freshID = (\<lambda>w. (''r'', w))\<rparr>"

definition terminalServer :: "'v gatewayWorld server" where
  "terminalServer = \<lparr>svNamespace = ''ns'', svAdapters = Map.empty, svAdapterIDs = [], svAuthenticate = (\<lambda>b w. (Inl [], w)),
     svReady = None, svTerminal = Some (\<lambda>req owner i rid can. ServeTerminal sampleEnv (terminalGateway sampleKube) req owner i rid can),
     svQuantity = (\<lambda>_. True), svScanner = (\<lambda>_. None), svJsonError = (\<lambda>_. []), svURLParse = (\<lambda>_. None), svPathEscape = (\<lambda>x. x)\<rparr>"

theorem slot_given_back_witness:
  "\<exists>as. actions (snd (run_state (ServeTerminal sampleEnv (terminalGateway sampleKube) (sampleRequest ''GET'') ''o'' ''i'' ''r'' True) emptyWorld)) = as \<and>
     metric ActiveConnections as = 0"
  using slot_given_back [OF terminalGateway_resolver, of sampleEnv sampleKube "sampleRequest ''GET''" "''o''" "''i''" "''r''" True emptyWorld]
  by auto


theorem observer_terminal_reads_witness:
  "does readOnly (handleAgent (sampleKube :: unit gatewayWorld kube) sampleCodec terminalServer
     (sampleRequest ''GET'') (samplePrincipal [''observe'']) ''r'')"
  by (rule observer_terminal_reads [OF _ terminalGateway_resolver])
    (simp_all add: terminalServer_def samplePrincipal_def CanControl_def hasPermission_def PermissionControl_def)

end
