(* ===== verification/GoFlag.thy ===== *)
theory GoFlag
  imports GoText
begin

text \<open>
  What the commands use of Go's \<^verbatim>\<open>flag\<close> package and of \<^verbatim>\<open>strconv\<close>: flag sets that stop at the first
  error, with boolean and valued flags, and the parsing of booleans and of integers in base 0
  (\<^verbatim>\<open>0x\<close>, \<^verbatim>\<open>0o\<close>, \<^verbatim>\<open>0b\<close> and \<^verbatim>\<open>0\<close> prefixes, underscores between digits). What the package prints on an
  error or for \<^verbatim>\<open>-help\<close> is left out: both end the command.
\<close>

section \<open>Values\<close>

definition parseBool :: "string \<Rightarrow> bool option" where
  "parseBool s =
     (if s \<in> {''1'', ''t'', ''T'', ''TRUE'', ''true'', ''True''} then Some True
      else if s \<in> {''0'', ''f'', ''F'', ''FALSE'', ''false'', ''False''} then Some False
      else None)"

definition digitValue :: "char \<Rightarrow> nat option" where
  "digitValue c =
     (if isDigit c then Some (of_char c - 48)
      else if isLower c then Some (of_char c - 87)
      else if isUpper c then Some (of_char c - 55)
      else None)"

text \<open>The digits of a number in base \<open>b\<close>; underscores are skipped here and checked by \<open>underscoreOK\<close>.\<close>

fun digitsValue :: "nat \<Rightarrow> nat \<Rightarrow> string \<Rightarrow> nat option" where
  "digitsValue b n [] = Some n"
| "digitsValue b n (c # cs) =
     (if c = CHR ''_'' then digitsValue b n cs
      else case digitValue c of
        None \<Rightarrow> None
      | Some d \<Rightarrow> if b \<le> d then None else digitsValue b (b * n + d) cs)"

text \<open>The base a prefix names and the digits after it.\<close>

definition basePrefix :: "string \<Rightarrow> nat \<times> string" where
  "basePrefix s =
     (case s of
        c # d # e # rest \<Rightarrow>
          if c \<noteq> CHR ''0'' then (10, s)
          else if d = CHR ''b'' \<or> d = CHR ''B'' then (2, e # rest)
          else if d = CHR ''o'' \<or> d = CHR ''O'' then (8, e # rest)
          else if d = CHR ''x'' \<or> d = CHR ''X'' then (16, e # rest)
          else (8, d # e # rest)
      | c # rest \<Rightarrow> if c \<noteq> CHR ''0'' then (10, s) else (8, rest)
      | [] \<Rightarrow> (10, s))"

text \<open>\<open>saw\<close> is the kind of the last character: \<open>^\<close> at the start, \<open>0\<close> a digit, \<open>_\<close>, and \<open>!\<close> for any other.\<close>

fun underscores :: "bool \<Rightarrow> char \<Rightarrow> string \<Rightarrow> bool" where
  "underscores hex saw [] = (saw \<noteq> CHR ''_'')"
| "underscores hex saw (c # cs) =
     (if isDigit c \<or> hex \<and> isHexDigit c then underscores hex (CHR ''0'') cs
      else if c = CHR ''_'' then saw = CHR ''0'' \<and> underscores hex c cs
      else saw \<noteq> CHR ''_'' \<and> underscores hex (CHR ''!'') cs)"

definition underscoreOK :: "string \<Rightarrow> bool" where
  "underscoreOK s =
     (case s of
        c # d # rest \<Rightarrow>
          if c = CHR ''0'' \<and> d \<in> set ''bBoOxX'' then underscores (d \<in> set ''xX'') (CHR ''0'') rest
          else underscores False (CHR ''^'') s
      | _ \<Rightarrow> underscores False (CHR ''^'') s)"

text \<open>\<open>strconv.ParseUint(s, 0, 64)\<close> and \<open>strconv.ParseInt(s, 0, 64)\<close>.\<close>

definition parseUint0 :: "string \<Rightarrow> nat option" where
  "parseUint0 s =
     (if s = [] then None
      else let (b, ds) = basePrefix s in
        case digitsValue b 0 ds of
          None \<Rightarrow> None
        | Some n \<Rightarrow> if n < 2 ^ 64 \<and> (CHR ''_'' \<in> set ds \<longrightarrow> underscoreOK s) then Some n else None)"

definition parseInt0 :: "string \<Rightarrow> int option" where
  "parseInt0 s =
     (case s of
        [] \<Rightarrow> None
      | c # rest \<Rightarrow>
          (case parseUint0 (if c = CHR ''-'' \<or> c = CHR ''+'' then rest else s) of
             None \<Rightarrow> None
           | Some n \<Rightarrow>
               if c = CHR ''-'' then (if n \<le> 2 ^ 63 then Some (- int n) else None)
               else if n < 2 ^ 63 then Some (int n) else None))"

lemma parseUint0_range: "parseUint0 s = Some n \<Longrightarrow> n < 2 ^ 64"
  by (auto simp: parseUint0_def split: if_splits prod.splits option.splits)

lemma parseInt0_range: "parseInt0 s = Some i \<Longrightarrow> - (2 ^ 63) \<le> i \<and> i < 2 ^ 63"
  by (auto simp: parseInt0_def split: if_splits list.splits option.splits)

section \<open>Flag sets\<close>

text \<open>
  A flag stores what it is given in the configuration \<open>'c\<close> of its command; a value may be refused.
  A boolean flag takes no argument of its own.
\<close>

datatype 'c commandFlag =
    BoolFlag "bool \<Rightarrow> 'c \<Rightarrow> 'c"
  | ValueFlag "string \<Rightarrow> 'c \<Rightarrow> 'c option"

type_synonym 'c flagSet = "(string \<times> 'c commandFlag) list"

definition stringVar :: "(string \<Rightarrow> 'c \<Rightarrow> 'c) \<Rightarrow> 'c commandFlag" where
  "stringVar upd = ValueFlag (\<lambda>v c. Some (upd v c))"

definition parsedVar :: "(string \<Rightarrow> 'a option) \<Rightarrow> ('a \<Rightarrow> 'c \<Rightarrow> 'c) \<Rightarrow> 'c commandFlag" where
  "parsedVar parse upd = ValueFlag (\<lambda>v c. map_option (\<lambda>x. upd x c) (parse v))"

text \<open>The name of an argument that is a flag, after its dashes, and the value after \<open>=\<close>.\<close>

definition flagName :: "string \<Rightarrow> string" where
  "flagName s = (if hasPrefix s ''--'' then drop 2 s else drop 1 s)"

definition flagParts :: "string \<Rightarrow> string \<times> string option" where
  "flagParts name = (case cutAt (CHR ''='') name of None \<Rightarrow> (name, None) | Some (n, v) \<Rightarrow> (n, Some v))"

definition badSyntax :: "string \<Rightarrow> bool" where
  "badSyntax name = (name = [] \<or> hasPrefix name ''-'' \<or> hasPrefix name ''='')"

definition isFlag :: "string \<Rightarrow> bool" where
  "isFlag s = (2 \<le> length s \<and> hasPrefix s ''-'')"

text \<open>\<open>parseOne\<close>: the configuration, the arguments left and whether a flag was seen, or an error.\<close>

definition parseOne :: "'c flagSet \<Rightarrow> 'c \<Rightarrow> string list \<Rightarrow> ('c \<times> string list \<times> bool) option" where
  "parseOne fs c arguments =
     (case arguments of
        [] \<Rightarrow> Some (c, [], False)
      | s # args \<Rightarrow>
          if \<not> isFlag s then Some (c, s # args, False)
          else if s = ''--'' then Some (c, args, False)
          else if badSyntax (flagName s) then None
          else let (name, value) = flagParts (flagName s) in
            case map_of fs name of
              None \<Rightarrow> None
            | Some (BoolFlag f) \<Rightarrow>
                map_option (\<lambda>b. (f b c, args, True)) (case value of None \<Rightarrow> Some True | Some v \<Rightarrow> parseBool v)
            | Some (ValueFlag f) \<Rightarrow>
                (case value of
                   Some v \<Rightarrow> map_option (\<lambda>c'. (c', args, True)) (f v c)
                 | None \<Rightarrow> (case args of [] \<Rightarrow> None | v # rest \<Rightarrow> map_option (\<lambda>c'. (c', rest, True)) (f v c))))"

lemma parseOne_suffix: "parseOne fs c args = Some (c', rest, seen) \<Longrightarrow> suffix rest args \<and> (seen \<longrightarrow> length rest < length args)"
  by (auto simp: parseOne_def Let_def intro: suffix_ConsI
      split: if_splits option.splits prod.splits commandFlag.splits list.splits)

function parseFlags :: "'c flagSet \<Rightarrow> 'c \<Rightarrow> string list \<Rightarrow> ('c \<times> string list) option" where
  "parseFlags fs c args =
     (case parseOne fs c args of
        None \<Rightarrow> None
      | Some (c', rest, seen) \<Rightarrow> if seen then parseFlags fs c' rest else Some (c', rest))"
  by pat_completeness auto

termination
  by (relation "measure (\<lambda>(fs, c, args). length args)") (auto dest: parseOne_suffix)

declare parseFlags.simps [simp del]

section \<open>What parsing keeps\<close>

text \<open>The arguments left are the end of the arguments given, and what every flag keeps is kept.\<close>

lemma parseFlags_suffix: "parseFlags fs c args = Some (c', rest) \<Longrightarrow> suffix rest args"
proof (induction fs c args rule: parseFlags.induct)
  case (1 fs c args)
  obtain d rs seen where one: "parseOne fs c args = Some (d, rs, seen)"
    using "1.prems" by (subst (asm) parseFlags.simps) (auto split: option.splits)
  show ?case
  proof (cases seen)
    case True
    with one "1.prems" have "parseFlags fs d rs = Some (c', rest)" by (subst (asm) parseFlags.simps) simp
    with "1.IH" [OF one refl refl True] have "suffix rest rs" .
    with parseOne_suffix [OF one] show ?thesis by (blast intro: suffix_order.trans)
  next
    case False
    with one "1.prems" parseOne_suffix [OF one] show ?thesis by (subst (asm) parseFlags.simps) simp
  qed
qed

fun keeps :: "('c \<Rightarrow> bool) \<Rightarrow> 'c commandFlag \<Rightarrow> bool" where
  "keeps P (BoolFlag f) \<longleftrightarrow> (\<forall>b c. P c \<longrightarrow> P (f b c))"
| "keeps P (ValueFlag f) \<longleftrightarrow> (\<forall>v c c'. P c \<longrightarrow> f v c = Some c' \<longrightarrow> P c')"

lemma parseOne_keeps:
  assumes "parseOne fs c args = Some (c', rest, seen)" "\<forall>f \<in> snd ` set fs. keeps P f" "P c"
  shows "P c'"
proof -
  have k: "keeps P f" if "map_of fs n = Some f" for n f
    using map_of_SomeD [OF that] assms(2) by force
  from assms(1,3) show ?thesis
    by (auto simp: parseOne_def Let_def split: if_splits option.splits prod.splits commandFlag.splits list.splits dest!: k)
qed

lemma parseFlags_keeps:
  "parseFlags fs c args = Some (c', rest) \<Longrightarrow> \<forall>f \<in> snd ` set fs. keeps P f \<Longrightarrow> P c \<Longrightarrow> P c'"
proof (induction fs c args rule: parseFlags.induct)
  case (1 fs c args)
  obtain d rs seen where one: "parseOne fs c args = Some (d, rs, seen)"
    using "1.prems"(1) by (subst (asm) parseFlags.simps) (auto split: option.splits)
  then have d: "P d" using "1.prems"(2,3) by (rule parseOne_keeps)
  show ?case
  proof (cases seen)
    case True
    with one "1.prems"(1) have "parseFlags fs d rs = Some (c', rest)" by (subst (asm) parseFlags.simps) simp
    with "1.IH" [OF one refl refl True] "1.prems"(2) d show ?thesis by blast
  next
    case False
    with one "1.prems"(1) d show ?thesis by (subst (asm) parseFlags.simps) simp
  qed
qed

text \<open>Everything after \<open>--\<close> is left as it is, and so are arguments that start with no flag.\<close>

lemma parseFlags_end [simp]: "parseFlags fs c [] = Some (c, [])" "parseFlags fs c (''--'' # args) = Some (c, args)"
  by (simp_all add: parseFlags.simps parseOne_def isFlag_def hasPrefix_def)

lemma parseFlags_plain: "\<not> isFlag s \<Longrightarrow> parseFlags fs c (s # args) = Some (c, s # args)"
  by (simp add: parseFlags.simps parseOne_def)

lemma parseFlags_value:
  assumes "map_of fs name = Some (ValueFlag f)" "name \<noteq> []" "CHR ''='' \<notin> set name" "\<not> hasPrefix name ''-''" "f v c = Some c'"
  shows "parseFlags fs c ((''--'' @ name @ ''='' @ v) # args) = parseFlags fs c' args"
proof -
  have p: "flagParts (name @ ''='' @ v) = (name, Some v)"
    using cutAt_append [OF assms(3), of v] by (simp add: flagParts_def)
  have "\<not> badSyntax (name @ ''='' @ v)"
    using assms(2-4) by (cases name) (auto simp: badSyntax_def hasPrefix_def)
  then have "parseOne fs c ((''--'' @ name @ ''='' @ v) # args) = Some (c', args, True)"
    using assms(1,2,5) p by (simp add: parseOne_def isFlag_def flagName_def hasPrefix_def)
  then show ?thesis by (subst parseFlags.simps) simp
qed

end
