(* ===== verification/BuildInfo.thy ===== *)
theory BuildInfo
  imports GoFlag
begin

text \<open>
  The version line of the commands, \<^verbatim>\<open>internal/buildinfo\<close>, and the command scaffold of
  \<^verbatim>\<open>internal/cliapp\<close>. What the linker and the runtime put into the binary is a record.
\<close>

record Info =
  biVersion :: string
  biCommit :: string
  biDate :: string
  biGo :: string
  biOS :: string
  biArch :: string


definition Current :: "string \<times> string \<times> string \<Rightarrow> string \<Rightarrow> string \<Rightarrow> string \<Rightarrow> Info" where
  "Current linked runtimeVersion goos goarch =
     (case linked of (v, c, d) \<Rightarrow>
       \<lparr>biVersion = v, biCommit = c, biDate = d, biGo = runtimeVersion, biOS = goos, biArch = goarch\<rparr>)"

definition newline :: string where "newline = [CHR 0x0A]"

definition WriteInfo :: "Info \<Rightarrow> string \<Rightarrow> string" where
  "WriteInfo i component =
     component @ '' '' @ biVersion i @ '' (commit='' @ biCommit i @ '', built='' @ biDate i @ '', go='' @ biGo i @
       '', platform='' @ biOS i @ ''/'' @ biArch i @ '')'' @ newline"

section \<open>The scaffold\<close>

text \<open>\<open>%v\<close> of a slice of strings.\<close>

definition listText :: "string list \<Rightarrow> string" where
  "listText ss = ''['' @ concat (case ss of [] \<Rightarrow> [] | s # rest \<Rightarrow> s # map (\<lambda>t. '' '' @ t) rest) @ '']''"

definition versionFlagSet :: "bool flagSet" where
  "versionFlagSet = [(''version'', BoolFlag (\<lambda>b _. b))]"

text \<open>The exit code and what the command writes to its two streams, beyond the messages of the flag package.\<close>

definition RunScaffold :: "Info \<Rightarrow> string \<Rightarrow> string list \<Rightarrow> int \<times> string \<times> string" where
  "RunScaffold i component args =
     (let usage = ''Usage: '' @ component @ '' [--version]'' @ newline in
      case parseFlags versionFlagSet False args of
        None \<Rightarrow> (2, [], usage)
      | Some (showVersion, rest) \<Rightarrow>
          if rest \<noteq> [] then (2, [], component @ '': unexpected arguments: '' @ listText rest @ newline @ usage)
          else if showVersion then (0, WriteInfo i component, [])
          else (2, [], component @ '': no feature behavior is implemented yet'' @ newline @ usage))"

end
