(* ===== verification/Bootstrap.thy ===== *)
theory Bootstrap
  imports Lifecycle Effects GoPath BuildInfo
begin

text \<open>
  Preparation of a workspace, \<^verbatim>\<open>internal/bootstrap\<close>. The operating system is a parameter: a record
  of system calls on a state \<open>'w\<close> of the world, git and ssh included. Every call is logged with
  whether it succeeded. A function of the source that returns a value and an error is a program
  with a result in the sum of errors and values; \<open>attempt\<close> is \<^verbatim>\<open>if err != nil { return err }\<close>.
\<close>

section \<open>Errors\<close>

definition ExitInvalidConfiguration :: int where "ExitInvalidConfiguration = 20"
definition ExitUnsafeWorkspace :: int where "ExitUnsafeWorkspace = 21"
definition ExitRepositoryAuth :: int where "ExitRepositoryAuth = 22"
definition ExitRepositoryBootstrap :: int where "ExitRepositoryBootstrap = 23"
definition ExitWorkspaceFull :: int where "ExitWorkspaceFull = 24"
definition ExitBootstrapTimeout :: int where "ExitBootstrapTimeout = 25"

text \<open>What a system call fails with: \<open>os.IsNotExist\<close>, \<open>ENOSPC\<close>, or anything else.\<close>

datatype osError = NotExist goerror | NoSpace goerror | Failure goerror

fun osErrorText :: "osError \<Rightarrow> goerror" where
  "osErrorText (NotExist t) = t"
| "osErrorText (NoSpace t) = t"
| "osErrorText (Failure t) = t"

fun isNotExist :: "osError \<Rightarrow> bool" where
  "isNotExist (NotExist _) = True"
| "isNotExist _ = False"

fun isNoSpace :: "osError \<Rightarrow> bool" where
  "isNoSpace (NoSpace _) = True"
| "isNoSpace _ = False"

record bootError =
  beCode :: string
  beExit :: int
  beMessage :: string
  beErr :: "osError option"

definition bootErrorText :: "bootError \<Rightarrow> goerror" where
  "bootErrorText e = (case beErr e of Some c \<Rightarrow> beMessage e @ '': '' @ osErrorText c | None \<Rightarrow> beMessage e)"

definition invalidError :: "string \<Rightarrow> bootError" where
  "invalidError message =
     \<lparr>beCode = ''bootstrap_invalid'', beExit = ExitInvalidConfiguration, beMessage = message, beErr = None\<rparr>"

definition workspaceError :: "string \<Rightarrow> string \<Rightarrow> osError option \<Rightarrow> bootError" where
  "workspaceError code message err =
     (if (case err of Some e \<Rightarrow> isNoSpace e | None \<Rightarrow> False)
      then \<lparr>beCode = ''workspace_full'', beExit = ExitWorkspaceFull, beMessage = ''the workspace is full'', beErr = err\<rparr>
      else \<lparr>beCode = code, beExit = ExitUnsafeWorkspace, beMessage = message, beErr = err\<rparr>)"

definition repositoryError :: "string \<Rightarrow> string \<Rightarrow> osError option \<Rightarrow> bootError" where
  "repositoryError code message err = \<lparr>beCode = code, beExit = ExitRepositoryBootstrap, beMessage = message, beErr = err\<rparr>"

section \<open>Options\<close>

record Options =
  opWorkspace :: string
  opAdapterID :: string
  opRepositoryURL :: string
  opRevision :: string
  opCredentialFile :: string
  opSSHKeyFile :: string
  opKnownHostsFile :: string
  opGitBinary :: string
  opSSHBinary :: string
  opHelperBinary :: string
  opTimeout :: duration
  opEnvironment :: "string list option"

definition orDefault :: "string \<Rightarrow> string \<Rightarrow> string" where
  "orDefault v d = (if v = [] then d else v)"

definition applyDefaults :: "string list \<Rightarrow> Options \<Rightarrow> Options" where
  "applyDefaults environ o' =
     o'\<lparr>opRevision := orDefault (opRevision o') ''HEAD'', opAdapterID := orDefault (opAdapterID o') ''shell'',
       opGitBinary := orDefault (opGitBinary o') ''git'', opSSHBinary := orDefault (opSSHBinary o') ''ssh'',
       opTimeout := (if opTimeout o' = 0 then 5 * 60 * 1000000000 else opTimeout o'),
       opEnvironment := (case opEnvironment o' of None \<Rightarrow> Some environ | Some e \<Rightarrow> Some e)\<rparr>"

definition adapterRune :: "rune \<Rightarrow> bool" where
  "adapterRune r = (97 \<le> r \<and> r \<le> 122 \<or> 48 \<le> r \<and> r \<le> 57 \<or> r = 95 \<or> r = 45)"

definition validAdapterID :: "string \<Rightarrow> bool" where
  "validAdapterID value =
     (case value of
        [] \<Rightarrow> False
      | c # cs \<Rightarrow> length value \<le> 64 \<and> isLower c \<and> \<not> anyRune (\<lambda>r. \<not> adapterRune r) cs)"

definition validateURLOptions :: "parsedURL \<Rightarrow> Options \<Rightarrow> bootError option" where
  "validateURLOptions u o' =
     (if urlHost u = [] \<or> urlRawQuery u \<noteq> [] \<or> urlFragment u \<noteq> [] \<or> (urlScheme u \<noteq> ''https'' \<and> urlScheme u \<noteq> ''ssh'')
      then Some (invalidError ''repository URL must be an HTTPS or SSH URL without a query or fragment'')
      else if urlScheme u = ''https'' \<and> urlUser u \<noteq> None
      then Some (invalidError ''HTTPS repository credentials must not be embedded in the URL'')
      else if urlScheme u = ''ssh'' \<and> (case urlUser u of Some (_, Some _) \<Rightarrow> True | _ \<Rightarrow> False)
      then Some (invalidError ''SSH repository credentials must not be embedded in the URL'')
      else if hasPrefix (opRevision o') ''-'' \<or> length (opRevision o') > 256 \<or> anyRune revisionRune (opRevision o')
      then Some (invalidError ''repository revision is invalid'')
      else if urlScheme u = ''https'' \<and> (opSSHKeyFile o' \<noteq> [] \<or> opKnownHostsFile o' \<noteq> [])
      then Some (invalidError ''SSH credentials require an SSH repository URL'')
      else if urlScheme u = ''ssh'' \<and> opCredentialFile o' \<noteq> []
      then Some (invalidError ''HTTPS credentials cannot be used with an SSH repository'')
      else if urlScheme u = ''ssh'' \<and> (opSSHKeyFile o' = []) \<noteq> (opKnownHostsFile o' = [])
      then Some (invalidError ''SSH key and known-hosts files must be configured together'')
      else None)"

definition validateOptions :: "urlParser \<Rightarrow> Options \<Rightarrow> bootError option" where
  "validateOptions urlParse o' =
     (if \<not> IsAbs (opWorkspace o') \<or> cleanPath (opWorkspace o') = [slash]
      then Some (invalidError ''workspace must be an absolute path other than the filesystem root'')
      else if opTimeout o' \<le> 0 then Some (invalidError ''bootstrap timeout must be positive'')
      else if \<not> validAdapterID (opAdapterID o') then Some (invalidError ''adapter ID is invalid'')
      else if opRepositoryURL o' = [] then
        (if opCredentialFile o' \<noteq> [] \<or> opSSHKeyFile o' \<noteq> [] \<or> opKnownHostsFile o' \<noteq> []
         then Some (invalidError ''repository credentials require a repository URL'') else None)
      else (case urlParse (opRepositoryURL o') of
          None \<Rightarrow> Some (invalidError ''repository URL must be an HTTPS or SSH URL without a query or fragment'')
        | Some u \<Rightarrow> validateURLOptions u o'))"

section \<open>The operating system\<close>

record fileInfo =
  fiSymlink :: bool
  fiDir :: bool
  fiRegular :: bool

text \<open>
  \<open>osRead p n\<close> opens a file and reads at most \<open>n\<close> bytes; \<open>osGit\<close> returns the error of the
  command and the chunks it wrote to standard output and error; \<open>osExpired\<close> is whether the
  deadline of the bootstrap has passed.
\<close>

record 'w os =
  osLstat :: "string \<Rightarrow> 'w \<Rightarrow> (osError + fileInfo) \<times> 'w"
  osStat :: "string \<Rightarrow> 'w \<Rightarrow> (osError + fileInfo) \<times> 'w"
  osEvalSymlinks :: "string \<Rightarrow> 'w \<Rightarrow> (osError + string) \<times> 'w"
  osMkdir :: "string \<Rightarrow> nat \<Rightarrow> 'w \<Rightarrow> (osError + unit) \<times> 'w"
  osReadDir :: "string \<Rightarrow> 'w \<Rightarrow> (osError + string list) \<times> 'w"
  osRemove :: "string \<Rightarrow> 'w \<Rightarrow> (osError + unit) \<times> 'w"
  osRemoveAll :: "string \<Rightarrow> 'w \<Rightarrow> (osError + unit) \<times> 'w"
  osRename :: "string \<Rightarrow> string \<Rightarrow> 'w \<Rightarrow> (osError + unit) \<times> 'w"
  osOpenLock :: "string \<Rightarrow> 'w \<Rightarrow> (osError + unit) \<times> 'w"
  osFlock :: "string \<Rightarrow> 'w \<Rightarrow> (osError + unit) \<times> 'w"
  osRead :: "string \<Rightarrow> nat \<Rightarrow> 'w \<Rightarrow> (osError + string) \<times> 'w"
  osCreateTemp :: "string \<Rightarrow> string \<Rightarrow> 'w \<Rightarrow> (osError + string) \<times> 'w"
  osChmod :: "string \<Rightarrow> nat \<Rightarrow> 'w \<Rightarrow> (osError + unit) \<times> 'w"
  osWrite :: "string \<Rightarrow> string \<Rightarrow> 'w \<Rightarrow> (osError + unit) \<times> 'w"
  osSync :: "string \<Rightarrow> 'w \<Rightarrow> (osError + unit) \<times> 'w"
  osClose :: "string \<Rightarrow> 'w \<Rightarrow> (osError + unit) \<times> 'w"
  osExec :: "string \<Rightarrow> string list \<Rightarrow> string list \<Rightarrow> 'w \<Rightarrow> (osError option \<times> string list) \<times> 'w"
  osExecutable :: "'w \<Rightarrow> (osError + string) \<times> 'w"
  osExpired :: "'w \<Rightarrow> bool \<times> 'w"
  osNow :: "'w \<Rightarrow> time \<times> 'w"
  osPrint :: "string \<Rightarrow> 'w \<Rightarrow> (osError + unit) \<times> 'w"
  osEnviron :: "string list"
  osURLParse :: urlParser
  osScanner :: scanner
  osJSONError :: "string \<Rightarrow> goerror"
  osPrintJSON :: "json \<Rightarrow> string"
  osTimeText :: "time \<Rightarrow> string"
  osParseTime :: "string \<Rightarrow> time option"

datatype sysCall =
    Lstat string
  | Stat string
  | EvalSymlinks string
  | Mkdir string nat
  | ReadDir string
  | Remove string
  | RemoveAll string
  | Rename string string
  | OpenLock string
  | Flock string
  | Unlock string
  | CloseLock string
  | ReadFile string
  | CreateTemp string
  | Chmod string nat
  | Write string string
  | Sync string
  | CloseTemp string
  | Exec string "string list" "string list" string
  | Print string

type_synonym sysEvent = "sysCall \<times> bool"
type_synonym ('w, 'a) oprog = "('w, sysEvent, osError + 'a) prog"
type_synonym ('w, 'a) bprog = "('w, sysEvent, bootError + 'a) prog"

definition sysCall :: "sysCall \<Rightarrow> ('w \<Rightarrow> (osError + 'a) \<times> 'w) \<Rightarrow> ('w, 'a) oprog" where
  "sysCall c f = State (\<lambda>s. let (r, w) = f (world s) in (r, s\<lparr>world := w, actions := actions s @ [(c, isOK r)]\<rparr>))"

text \<open>A system call whose error is wrapped, and one whose error is ignored.\<close>

definition orElse :: "('w, 'a) oprog \<Rightarrow> (osError \<Rightarrow> bootError) \<Rightarrow> ('w, 'a) bprog" where
  "orElse m wrap = State_Monad.bind m (\<lambda>r. ret (case r of Inl e \<Rightarrow> Inl (wrap e) | Inr x \<Rightarrow> Inr x))"

abbreviation fails :: "bootError \<Rightarrow> ('w, 'a) bprog" where
  "fails e \<equiv> ret (Inl e)"

abbreviation gives :: "'a \<Rightarrow> ('w, 'a) bprog" where
  "gives x \<equiv> ret (Inr x)"

definition workspaceErr :: "string \<Rightarrow> string \<Rightarrow> osError \<Rightarrow> bootError" where
  "workspaceErr code message e = workspaceError code message (Some e)"

section \<open>Files\<close>

definition smallFile :: nat where "smallFile = 64 * 1024"

definition readSmallFile :: "'w os \<Rightarrow> string \<Rightarrow> ('w, string) oprog" where
  "readSmallFile S p = do {
     r \<leftarrow> sysCall (ReadFile p) (osRead S p (smallFile + 1));
     case r of
       Inl e \<Rightarrow> ret (Inl e)
     | Inr contents \<Rightarrow>
         if length contents > smallFile then ret (Inl (Failure (''file exceeds '' @ digits smallFile @ '' bytes'')))
         else ret (Inr contents) }"

definition ensureDirectory :: "'w os \<Rightarrow> string \<Rightarrow> nat \<Rightarrow> ('w, unit) bprog" where
  "ensureDirectory S p mode = do {
     r \<leftarrow> sysCall (Lstat p) (osLstat S p);
     case r of
       Inl e \<Rightarrow>
         if isNotExist e
         then orElse (sysCall (Mkdir p mode) (osMkdir S p mode)) (workspaceErr ''workspace_initialize_failed'' ''create Sandherd workspace state'')
         else fails (workspaceErr ''workspace_unavailable'' ''inspect Sandherd workspace state'' e)
     | Inr info \<Rightarrow>
         if fiSymlink info \<or> \<not> fiDir info
         then fails (workspaceError ''workspace_unsafe'' ''Sandherd workspace state must be a real directory'' None)
         else gives () }"

definition requireDirectory :: "'w os \<Rightarrow> string \<Rightarrow> ('w, unit) bprog" where
  "requireDirectory S p = do {
     r \<leftarrow> sysCall (Lstat p) (osLstat S p);
     case r of
       Inl e \<Rightarrow> fails (workspaceErr ''workspace_incomplete'' ''the bootstrapped repository directory is missing'' e)
     | Inr info \<Rightarrow>
         if fiSymlink info \<or> \<not> fiDir info
         then fails (workspaceError ''workspace_unsafe'' ''the repository path must be a real directory'' None)
         else gives () }"

definition requireEmpty :: "'w os \<Rightarrow> string \<Rightarrow> string \<Rightarrow> string \<Rightarrow> ('w, unit) bprog" where
  "requireEmpty S p inspect refuse =
     attempt (orElse (sysCall (ReadDir p) (osReadDir S p)) (workspaceErr ''workspace_unavailable'' inspect)) (\<lambda>entries.
       if entries \<noteq> [] then fails (workspaceError ''workspace_not_empty'' refuse None) else gives ())"

definition ensureEmptyRepositoryDirectory :: "'w os \<Rightarrow> string \<Rightarrow> ('w, unit) bprog" where
  "ensureEmptyRepositoryDirectory S p = do {
     r \<leftarrow> sysCall (Lstat p) (osLstat S p);
     case r of
       Inl e \<Rightarrow>
         if isNotExist e
         then orElse (sysCall (Mkdir p 488) (osMkdir S p 488)) (workspaceErr ''workspace_initialize_failed'' ''create the empty repository directory'')
         else fails (workspaceErr ''workspace_unavailable'' ''inspect the repository directory'' e)
     | Inr info \<Rightarrow>
         if fiSymlink info \<or> \<not> fiDir info
         then fails (workspaceError ''workspace_unsafe'' ''the repository path must be a real directory'' None)
         else requireEmpty S p ''inspect the empty repository directory'' ''refusing to adopt an untracked repository directory'' }"

definition requireRepositoryDestinationAvailable :: "'w os \<Rightarrow> string \<Rightarrow> ('w, unit) bprog" where
  "requireRepositoryDestinationAvailable S p = do {
     r \<leftarrow> sysCall (Lstat p) (osLstat S p);
     case r of
       Inl e \<Rightarrow>
         if isNotExist e then gives ()
         else fails (workspaceErr ''workspace_unavailable'' ''inspect the repository destination'' e)
     | Inr info \<Rightarrow>
         if fiSymlink info \<or> \<not> fiDir info
         then fails (workspaceError ''workspace_unsafe'' ''the repository destination must be a real directory'' None)
         else attempt (requireEmpty S p ''inspect the repository destination'' ''refusing to replace an untracked repository directory'') (\<lambda>_.
           orElse (sysCall (Remove p) (osRemove S p)) (workspaceErr ''workspace_initialize_failed'' ''prepare the repository destination'')) }"

definition resetStaging :: "'w os \<Rightarrow> string \<Rightarrow> ('w, unit) bprog" where
  "resetStaging S p = do {
     r \<leftarrow> sysCall (Lstat p) (osLstat S p);
     case r of
       Inl e \<Rightarrow> if isNotExist e then gives () else fails (workspaceErr ''workspace_unavailable'' ''inspect bootstrap staging'' e)
     | Inr info \<Rightarrow>
         if fiSymlink info
         then orElse (sysCall (Remove p) (osRemove S p)) (workspaceErr ''workspace_unsafe'' ''remove an unsafe bootstrap staging link'')
         else orElse (sysCall (RemoveAll p) (osRemoveAll S p)) (workspaceErr ''workspace_initialize_failed'' ''clear an interrupted bootstrap attempt'') }"

section \<open>Records on disk\<close>

record BootMetadata =
  bmRepositoryURL :: string
  bmRequestedRevision :: string
  bmResolvedCommit :: string
  bmBootstrappedAt :: time

record bootstrapIntent =
  biRepositoryURL :: string
  biRequestedRevision :: string

record gitCredential =
  crUsername :: string
  crPassword :: string

text \<open>The zero \<open>time.Time\<close>, 1 January of year 1.\<close>

definition zeroTime :: time where "zeroTime = - 62135596800000000000"

fun setBootTime :: "(string \<Rightarrow> time option) \<Rightarrow> BootMetadata setter" where
  "setBootTime parseTime JNull r = Some r"
| "setBootTime parseTime (JStr t) r = map_option (\<lambda>x. r\<lparr>bmBootstrappedAt := x\<rparr>) (parseTime t)"
| "setBootTime parseTime _ r = None"

definition metadataFields :: "(string \<Rightarrow> time option) \<Rightarrow> BootMetadata fields" where
  "metadataFields parseTime =
     [(''repositoryUrl'', setField decString (\<lambda>x r. r\<lparr>bmRepositoryURL := x\<rparr>)),
      (''requestedRevision'', setField decString (\<lambda>x r. r\<lparr>bmRequestedRevision := x\<rparr>)),
      (''resolvedCommit'', setField decString (\<lambda>x r. r\<lparr>bmResolvedCommit := x\<rparr>)),
      (''bootstrappedAt'', setBootTime parseTime)]"

definition zeroMetadata :: BootMetadata where
  "zeroMetadata = \<lparr>bmRepositoryURL = [], bmRequestedRevision = [], bmResolvedCommit = [], bmBootstrappedAt = zeroTime\<rparr>"

definition omitEmptyMember :: "string \<Rightarrow> string \<Rightarrow> (string \<times> json) list" where
  "omitEmptyMember k v = (if v = [] then [] else [(k, JStr v)])"

definition metadataJson :: "(time \<Rightarrow> string) \<Rightarrow> BootMetadata \<Rightarrow> json" where
  "metadataJson timeText m =
     JObj (omitEmptyMember ''repositoryUrl'' (bmRepositoryURL m) @ omitEmptyMember ''requestedRevision'' (bmRequestedRevision m) @
       omitEmptyMember ''resolvedCommit'' (bmResolvedCommit m) @ [(''bootstrappedAt'', JStr (timeText (bmBootstrappedAt m)))])"

definition intentFields :: "bootstrapIntent fields" where
  "intentFields =
     [(''repositoryUrl'', setField decString (\<lambda>x r. r\<lparr>biRepositoryURL := x\<rparr>)),
      (''requestedRevision'', setField decString (\<lambda>x r. r\<lparr>biRequestedRevision := x\<rparr>))]"

definition intentJson :: "bootstrapIntent \<Rightarrow> json" where
  "intentJson i = JObj [(''repositoryUrl'', JStr (biRepositoryURL i)), (''requestedRevision'', JStr (biRequestedRevision i))]"

definition gitCredentialFields :: "gitCredential fields" where
  "gitCredentialFields =
     [(''username'', setField decString (\<lambda>x r. r\<lparr>crUsername := x\<rparr>)),
      (''password'', setField decString (\<lambda>x r. r\<lparr>crPassword := x\<rparr>))]"

text \<open>\<open>Decoder.Decode\<close> with unknown fields disallowed; what follows the value is not read.\<close>

definition decodeStrict :: "scanner \<Rightarrow> 'a fields \<Rightarrow> 'a \<Rightarrow> string \<Rightarrow> 'a option" where
  "decodeStrict parse fs zero contents =
     (case parse contents of None \<Rightarrow> None | Some (v, rest) \<Rightarrow> decodeStruct True fs v zero)"

text \<open>The shared shape of \<open>readMetadata\<close> and \<open>readIntent\<close>: a missing file is no value.\<close>

definition readStateFile ::
  "'w os \<Rightarrow> string \<Rightarrow> string \<Rightarrow> string \<Rightarrow> string \<Rightarrow> string \<Rightarrow> (string \<Rightarrow> osError option + 'a) \<Rightarrow> ('w, 'a option) bprog" where
  "readStateFile S p inspect unsafe read invalid decode = do {
     r \<leftarrow> sysCall (Lstat p) (osLstat S p);
     case r of
       Inl e \<Rightarrow> if isNotExist e then gives None else fails (workspaceErr ''workspace_unavailable'' inspect e)
     | Inr info \<Rightarrow>
         if fiSymlink info \<or> \<not> fiRegular info then fails (workspaceError ''workspace_unsafe'' unsafe None)
         else attempt (orElse (readSmallFile S p) (workspaceErr ''workspace_unavailable'' read)) (\<lambda>contents.
           case decode contents of
             Inl e \<Rightarrow> fails (workspaceError ''workspace_metadata_invalid'' invalid e)
           | Inr x \<Rightarrow> gives (Some x)) }"

definition decodeMetadata :: "'w os \<Rightarrow> string \<Rightarrow> osError option + BootMetadata" where
  "decodeMetadata S contents =
     (case decodeStrict (osScanner S) (metadataFields (osParseTime S)) zeroMetadata contents of
        None \<Rightarrow> Inl (Some (Failure (osJSONError S contents)))
      | Some m \<Rightarrow> if bmBootstrappedAt m = zeroTime then Inl None else Inr m)"

definition readMetadata :: "'w os \<Rightarrow> string \<Rightarrow> ('w, BootMetadata option) bprog" where
  "readMetadata S p = readStateFile S p ''inspect workspace metadata'' ''workspace metadata must be a regular file''
     ''read workspace metadata'' ''workspace metadata is invalid'' (decodeMetadata S)"

definition decodeIntent :: "'w os \<Rightarrow> string \<Rightarrow> osError option + bootstrapIntent" where
  "decodeIntent S contents =
     (case decodeStrict (osScanner S) intentFields \<lparr>biRepositoryURL = [], biRequestedRevision = []\<rparr> contents of
        None \<Rightarrow> Inl (Some (Failure (osJSONError S contents)))
      | Some i \<Rightarrow> if biRepositoryURL i = [] \<or> biRequestedRevision i = [] then Inl None else Inr i)"

definition readIntent :: "'w os \<Rightarrow> string \<Rightarrow> ('w, bootstrapIntent option) bprog" where
  "readIntent S p = readStateFile S p ''inspect workspace bootstrap intent'' ''workspace bootstrap intent must be a regular file''
     ''read workspace bootstrap intent'' ''workspace bootstrap intent is invalid'' (decodeIntent S)"

text \<open>
  \<open>writeJSONFile\<close>: written to a temporary file that is synced, closed and renamed. The temporary
  path is removed at the end whatever happened; on an error before the close the file is closed.
\<close>

definition onError :: "('w, 'a) bprog \<Rightarrow> ('w, 'b) oprog \<Rightarrow> ('w, 'a) bprog" where
  "onError m cleanup = do {
     r \<leftarrow> m;
     case r of Inl e \<Rightarrow> do { _ \<leftarrow> cleanup; fails e } | Inr x \<Rightarrow> gives x }"

definition metadataFailed :: "string \<Rightarrow> osError \<Rightarrow> bootError" where
  "metadataFailed message = workspaceErr ''workspace_metadata_failed'' message"

definition closeTemp :: "'w os \<Rightarrow> string \<Rightarrow> ('w, unit) oprog" where
  "closeTemp S t = sysCall (CloseTemp t) (osClose S t)"

definition commitTemp :: "'w os \<Rightarrow> string \<Rightarrow> string \<Rightarrow> string \<Rightarrow> ('w, unit) bprog" where
  "commitTemp S t p contents =
     attempt (onError (orElse (sysCall (Chmod t 384) (osChmod S t 384)) (metadataFailed ''secure workspace metadata'')) (closeTemp S t)) (\<lambda>_.
     attempt (onError (orElse (sysCall (Write t contents) (osWrite S t contents)) (metadataFailed ''write workspace metadata'')) (closeTemp S t)) (\<lambda>_.
     attempt (onError (orElse (sysCall (Sync t) (osSync S t)) (metadataFailed ''sync workspace metadata'')) (closeTemp S t)) (\<lambda>_.
     attempt (orElse (closeTemp S t) (metadataFailed ''close workspace metadata'')) (\<lambda>_.
     orElse (sysCall (Rename t p) (osRename S t p)) (metadataFailed ''commit workspace metadata'')))))"

definition writeJSONFile :: "'w os \<Rightarrow> string \<Rightarrow> json \<Rightarrow> ('w, unit) bprog" where
  "writeJSONFile S p v =
     attempt (orElse (sysCall (CreateTemp (dirPath p)) (osCreateTemp S (dirPath p) ''.bootstrap-*.tmp'')) (metadataFailed ''create workspace metadata'')) (\<lambda>t. do {
       r \<leftarrow> commitTemp S t p (osPrintJSON S v @ [CHR 0x0A]);
       _ \<leftarrow> sysCall (Remove t) (osRemove S t);
       ret r })"

definition writeMetadata :: "'w os \<Rightarrow> string \<Rightarrow> BootMetadata \<Rightarrow> ('w, unit) bprog" where
  "writeMetadata S p m = writeJSONFile S p (metadataJson (osTimeText S) m)"

definition writeIntent :: "'w os \<Rightarrow> string \<Rightarrow> bootstrapIntent \<Rightarrow> ('w, unit) bprog" where
  "writeIntent S p i = writeJSONFile S p (intentJson i)"

definition readCredential :: "'w os \<Rightarrow> string \<Rightarrow> ('w, gitCredential) bprog" where
  "readCredential S p =
     attempt (orElse (readSmallFile S (cleanPath p)) (\<lambda>_. invalidError ''read the HTTPS credential file'')) (\<lambda>contents.
       case decodeStrict (osScanner S) gitCredentialFields \<lparr>crUsername = [], crPassword = []\<rparr> contents of
         None \<Rightarrow> fails (invalidError ''HTTPS credential file must contain non-empty username and password fields'')
       | Some c \<Rightarrow>
           if crUsername c = [] \<or> crPassword c = []
           then fails (invalidError ''HTTPS credential file must contain non-empty username and password fields'')
           else gives c)"

section \<open>Paths\<close>

record workspacePaths =
  wpRoot :: string
  wpState :: string
  wpRepository :: string
  wpStaging :: string
  wpMetadata :: string
  wpIntent :: string
  wpLock :: string
  wpHome :: string

definition pathsOf :: "string \<Rightarrow> workspacePaths" where
  "pathsOf root =
     (let state = joinPath root ''.sandherd'' in
      \<lparr>wpRoot = root, wpState = state, wpRepository = joinPath root ''repository'',
       wpStaging = joinPath state ''bootstrap-staging'', wpMetadata = joinPath state ''bootstrap.json'',
       wpIntent = joinPath state ''bootstrap-intent.json'', wpLock = joinPath state ''bootstrap.lock'',
       wpHome = joinPath state ''home''\<rparr>)"

definition checkRoot :: "'w os \<Rightarrow> string \<Rightarrow> ('w, unit) bprog" where
  "checkRoot S root =
     attempt (orElse (sysCall (Lstat root) (osLstat S root)) (workspaceErr ''workspace_unavailable'' ''inspect the workspace mount'')) (\<lambda>info.
       if fiSymlink info \<or> \<not> fiDir info then fails (workspaceError ''workspace_unsafe'' ''workspace mount must be a real directory'' None)
       else attempt (orElse (sysCall (EvalSymlinks root) (osEvalSymlinks S root))
           (workspaceErr ''workspace_unsafe'' ''workspace mount path must not traverse symlinks'')) (\<lambda>resolved.
         if resolved \<noteq> root
         then fails (workspaceError ''workspace_unsafe'' ''workspace mount path must not traverse symlinks'' None)
         else gives ()))"

definition preparePaths :: "'w os \<Rightarrow> string \<Rightarrow> ('w, workspacePaths) bprog" where
  "preparePaths S workspace =
     (let paths = pathsOf (cleanPath workspace) in
      attempt (checkRoot S (wpRoot paths)) (\<lambda>_.
      attempt (ensureDirectory S (wpState paths) 448) (\<lambda>_.
      attempt (ensureDirectory S (wpHome paths) 448) (\<lambda>_.
        gives paths))))"

definition prepareAdapterState :: "'w os \<Rightarrow> string \<Rightarrow> string \<Rightarrow> ('w, unit) bprog" where
  "prepareAdapterState S state adapterID =
     (let adapters = joinPath state ''adapters'' in
      attempt (ensureDirectory S adapters 448) (\<lambda>_. ensureDirectory S (joinPath adapters adapterID) 448))"

section \<open>git\<close>

text \<open>\<open>limitedBuffer\<close>: what one write keeps, and what it reports as written.\<close>

definition writeLimited :: "string \<Rightarrow> string \<Rightarrow> string \<times> nat" where
  "writeLimited buf value =
     (if length buf < smallFile then (buf @ take (smallFile - length buf) value, length value) else (buf, length value))"

definition limitedOutput :: "string list \<Rightarrow> string" where
  "limitedOutput chunks = fold (\<lambda>c buf. fst (writeLimited buf c)) chunks []"

text \<open>\<open>gitCommand\<close>: the output, or the error of the command with its output.\<close>

definition gitCommand :: "'w os \<Rightarrow> string \<Rightarrow> string list \<Rightarrow> string list \<Rightarrow> ('w, sysEvent, (osError \<times> string) + string) prog" where
  "gitCommand S binary environment arguments =
     State (\<lambda>s. let ((err, chunks), w) = osExec S binary environment arguments (world s);
                    output = limitedOutput chunks
       in ((case err of Some e \<Rightarrow> Inl (e, output) | None \<Rightarrow> Inr output),
           s\<lparr>world := w, actions := actions s @ [(Exec binary environment arguments output, err = None)]\<rparr>))"

definition authMarkers :: "string list" where
  "authMarkers = [''authentication failed'', ''permission denied (publickey)'', ''could not read username'', ''http 401'', ''http 403'']"

definition classifyGitError :: "bool \<Rightarrow> osError \<times> string \<Rightarrow> bootError" where
  "classifyGitError expired err =
     (if expired
      then \<lparr>beCode = ''bootstrap_timeout'', beExit = ExitBootstrapTimeout, beMessage = ''repository bootstrap timed out'', beErr = None\<rparr>
      else let t = toLower (snd err) in
        if sublist ''no space left on device'' t \<or> isNoSpace (fst err)
        then \<lparr>beCode = ''workspace_full'', beExit = ExitWorkspaceFull, beMessage = ''the workspace is full'', beErr = None\<rparr>
        else if list_ex (\<lambda>m. sublist m t) authMarkers
        then \<lparr>beCode = ''repository_auth_failed'', beExit = ExitRepositoryAuth, beMessage = ''repository authentication failed'', beErr = None\<rparr>
        else repositoryError ''repository_bootstrap_failed'' ''repository bootstrap failed'' (Some (fst err)))"

definition git :: "'w os \<Rightarrow> string \<Rightarrow> string list \<Rightarrow> string list \<Rightarrow> ('w, string) bprog" where
  "git S binary environment arguments = do {
     r \<leftarrow> gitCommand S binary environment arguments;
     case r of
       Inl e \<Rightarrow> do { expired \<leftarrow> ask (osExpired S); fails (classifyGitError expired e) }
     | Inr output \<Rightarrow> gives output }"

fun runAll :: "'w os \<Rightarrow> string \<Rightarrow> string list \<Rightarrow> string list list \<Rightarrow> ('w, unit) bprog" where
  "runAll S binary environment [] = gives ()"
| "runAll S binary environment (c # cs) = attempt (git S binary environment c) (\<lambda>_. runAll S binary environment cs)"

definition validCommit :: "string \<Rightarrow> bool" where
  "validCommit value = ((length value = 40 \<or> length value = 64) \<and> list_all isHexDigit value)"

section \<open>The environment of git\<close>

definition variableName :: "string \<Rightarrow> string" where
  "variableName v = takeWhile (\<lambda>c. c \<noteq> CHR ''='') v"

definition dropped :: "string \<Rightarrow> bool" where
  "dropped v =
     (let name = variableName v in
      hasPrefix name ''GIT_'' \<or> name = ''HOME'' \<or> name = ''XDG_CONFIG_HOME'' \<or> name = ''SSH_AUTH_SOCK'')"

definition baseEnvironment :: "string list \<Rightarrow> string \<Rightarrow> string list" where
  "baseEnvironment inherited home =
     filter (\<lambda>v. \<not> dropped v) inherited @
     [''HOME='' @ home, ''XDG_CONFIG_HOME='' @ home, ''GIT_CONFIG_NOSYSTEM=1'', ''GIT_TERMINAL_PROMPT=0'',
      ''GIT_CONFIG_COUNT=1'', ''GIT_CONFIG_KEY_0=core.hooksPath'', ''GIT_CONFIG_VALUE_0=/dev/null'']"

definition helperOf :: "'w os \<Rightarrow> Options \<Rightarrow> string \<Rightarrow> ('w, string) bprog" where
  "helperOf S o' message =
     (if opHelperBinary o' \<noteq> [] then gives (opHelperBinary o')
      else orElse (ask (osExecutable S)) (\<lambda>_. invalidError message))"

fun requireRegular :: "'w os \<Rightarrow> string list \<Rightarrow> ('w, unit) bprog" where
  "requireRegular S [] = gives ()"
| "requireRegular S (p # ps) = do {
     r \<leftarrow> sysCall (Stat (cleanPath p)) (osStat S (cleanPath p));
     case r of
       Inl e \<Rightarrow> fails (invalidError ''SSH credential files must be readable regular files'')
     | Inr info \<Rightarrow>
         if \<not> fiRegular info then fails (invalidError ''SSH credential files must be readable regular files'')
         else requireRegular S ps }"

definition credentialEnvironment :: "'w os \<Rightarrow> Options \<Rightarrow> ('w, string list) bprog" where
  "credentialEnvironment S o' =
     (if opCredentialFile o' = [] then gives []
      else attempt (readCredential S (opCredentialFile o')) (\<lambda>_.
           attempt (helperOf S o' ''resolve the bootstrap credential helper executable'') (\<lambda>helper.
             gives [''GIT_ASKPASS='' @ helper, ''SANDHERD_ASKPASS=1'', ''SANDHERD_GIT_CREDENTIAL_FILE='' @ opCredentialFile o'])))"

definition sshEnvironment :: "'w os \<Rightarrow> Options \<Rightarrow> ('w, string list) bprog" where
  "sshEnvironment S o' =
     (if opSSHKeyFile o' = [] then gives []
      else attempt (requireRegular S [opSSHKeyFile o', opKnownHostsFile o']) (\<lambda>_.
           attempt (helperOf S o' ''resolve the bootstrap SSH helper executable'') (\<lambda>helper.
             gives [''GIT_SSH='' @ helper, ''SANDHERD_SSH_WRAPPER=1'', ''SANDHERD_GIT_SSH_KEY_FILE='' @ opSSHKeyFile o',
               ''SANDHERD_GIT_KNOWN_HOSTS_FILE='' @ opKnownHostsFile o', ''SANDHERD_SSH_BINARY='' @ opSSHBinary o'])))"

definition gitEnvironment :: "'w os \<Rightarrow> Options \<Rightarrow> workspacePaths \<Rightarrow> ('w, string list) bprog" where
  "gitEnvironment S o' paths =
     attempt (credentialEnvironment S o') (\<lambda>cred.
     attempt (sshEnvironment S o') (\<lambda>ssh.
       gives (baseEnvironment (case opEnvironment o' of None \<Rightarrow> [] | Some e \<Rightarrow> e) (wpHome paths) @ cred @ ssh)))"

section \<open>Execute\<close>

definition removeIntent :: "'w os \<Rightarrow> string \<Rightarrow> ('w, unit) bprog" where
  "removeIntent S p = do {
     r \<leftarrow> sysCall (Remove p) (osRemove S p);
     case r of
       Inl e \<Rightarrow> if isNotExist e then gives () else fails (metadataFailed ''remove completed workspace bootstrap intent'' e)
     | Inr _ \<Rightarrow> gives () }"

definition completed :: "Options \<Rightarrow> string \<Rightarrow> time \<Rightarrow> BootMetadata" where
  "completed o' commit now =
     \<lparr>bmRepositoryURL = opRepositoryURL o', bmRequestedRevision = opRevision o', bmResolvedCommit = commit, bmBootstrappedAt = now\<rparr>"

text \<open>Recording the completed bootstrap, and forgetting the intent.\<close>

definition recordCompleted :: "'w os \<Rightarrow> workspacePaths \<Rightarrow> BootMetadata \<Rightarrow> ('w, BootMetadata) bprog" where
  "recordCompleted S paths m =
     attempt (writeMetadata S (wpMetadata paths) m) (\<lambda>_.
     attempt (removeIntent S (wpIntent paths)) (\<lambda>_. gives m))"

definition identityMismatch :: "string \<Rightarrow> bootError" where
  "identityMismatch message = workspaceError ''workspace_identity_mismatch'' message None"

definition commitInvalid :: bootError where
  "commitInvalid = repositoryError ''repository_commit_invalid'' ''git returned an invalid resolved commit'' None"

definition revParse :: "string \<Rightarrow> string list" where
  "revParse dir = [''-C'', dir, ''rev-parse'', ''--verify'', ''HEAD'']"

definition originURL :: "string \<Rightarrow> string list" where
  "originURL dir = [''-C'', dir, ''config'', ''--get'', ''remote.origin.url'']"

definition recoverRepository :: "'w os \<Rightarrow> Options \<Rightarrow> workspacePaths \<Rightarrow> string list \<Rightarrow> ('w, BootMetadata) bprog" where
  "recoverRepository S o' paths environment = do {
     origin \<leftarrow> gitCommand S (opGitBinary o') environment (originURL (wpRepository paths));
     if (case origin of Inl _ \<Rightarrow> True | Inr url \<Rightarrow> trimSpace url \<noteq> opRepositoryURL o')
     then fails (identityMismatch ''the interrupted repository does not match its bootstrap intent'')
     else do {
       r \<leftarrow> gitCommand S (opGitBinary o') environment (revParse (wpRepository paths));
       case r of
         Inl e \<Rightarrow> fails (repositoryError ''repository_bootstrap_failed'' ''verify an interrupted repository bootstrap'' (Some (fst e)))
       | Inr commit \<Rightarrow> do {
           now \<leftarrow> ask (osNow S);
           if \<not> validCommit (trimSpace commit) then fails commitInvalid
           else recordCompleted S paths (completed o' (trimSpace commit) now) } } }"

definition recoverCommittedRepository ::
  "'w os \<Rightarrow> Options \<Rightarrow> workspacePaths \<Rightarrow> string list \<Rightarrow> ('w, BootMetadata option) bprog" where
  "recoverCommittedRepository S o' paths environment = do {
     r \<leftarrow> sysCall (Lstat (wpRepository paths)) (osLstat S (wpRepository paths));
     case r of
       Inl e \<Rightarrow>
         if isNotExist e then gives None
         else fails (workspaceErr ''workspace_unavailable'' ''inspect an interrupted repository bootstrap'' e)
     | Inr info \<Rightarrow>
         if fiSymlink info \<or> \<not> fiDir info
         then fails (workspaceError ''workspace_unsafe'' ''the repository path must be a real directory'' None)
         else attempt (recoverRepository S o' paths environment) (\<lambda>m. gives (Some m)) }"

definition fetchCommands :: "Options \<Rightarrow> string \<Rightarrow> string list list" where
  "fetchCommands o' staging =
     [[''init'', ''--quiet'', staging],
      [''-C'', staging, ''config'', ''remote.origin.url'', opRepositoryURL o'],
      [''-C'', staging, ''fetch'', ''--quiet'', ''--depth=1'', ''--'', ''origin'', opRevision o'],
      [''-C'', staging, ''checkout'', ''--quiet'', ''--detach'', ''FETCH_HEAD'']]"

definition fetchRepository :: "'w os \<Rightarrow> Options \<Rightarrow> workspacePaths \<Rightarrow> string list \<Rightarrow> ('w, BootMetadata) bprog" where
  "fetchRepository S o' paths environment =
     attempt (runAll S (opGitBinary o') environment (fetchCommands o' (wpStaging paths))) (\<lambda>_.
     attempt (git S (opGitBinary o') environment (revParse (wpStaging paths))) (\<lambda>output.
       let commit = trimSpace output in
       if \<not> validCommit commit then fails commitInvalid
       else attempt (orElse (sysCall (Rename (wpStaging paths) (wpRepository paths)) (osRename S (wpStaging paths) (wpRepository paths)))
           (workspaceErr ''workspace_commit_failed'' ''commit the bootstrapped repository to the workspace'')) (\<lambda>_. do {
         now \<leftarrow> ask (osNow S);
         recordCompleted S paths (completed o' commit now) })))"

text \<open>From the checked intent to the repository in place; the staging directory is removed at the end.\<close>

definition stageRepository :: "'w os \<Rightarrow> Options \<Rightarrow> workspacePaths \<Rightarrow> string list \<Rightarrow> ('w, BootMetadata) bprog" where
  "stageRepository S o' paths environment =
     attempt (requireRepositoryDestinationAvailable S (wpRepository paths)) (\<lambda>_.
     attempt (resetStaging S (wpStaging paths)) (\<lambda>_. do {
       r \<leftarrow> fetchRepository S o' paths environment;
       _ \<leftarrow> sysCall (RemoveAll (wpStaging paths)) (osRemoveAll S (wpStaging paths));
       ret r }))"

definition cloneRepository :: "'w os \<Rightarrow> Options \<Rightarrow> workspacePaths \<Rightarrow> ('w, BootMetadata) bprog" where
  "cloneRepository S o' paths =
     attempt (gitEnvironment S o' paths) (\<lambda>environment.
     attempt (readIntent S (wpIntent paths)) (\<lambda>intent.
       case intent of
         Some i \<Rightarrow>
           if biRepositoryURL i \<noteq> opRepositoryURL o' \<or> biRequestedRevision i \<noteq> opRevision o'
           then fails (identityMismatch ''an interrupted bootstrap belongs to a different repository or revision'')
           else attempt (recoverCommittedRepository S o' paths environment) (\<lambda>recovered.
             case recovered of Some m \<Rightarrow> gives m | None \<Rightarrow> stageRepository S o' paths environment)
       | None \<Rightarrow>
           attempt (writeIntent S (wpIntent paths) \<lparr>biRepositoryURL = opRepositoryURL o', biRequestedRevision = opRevision o'\<rparr>) (\<lambda>_.
             stageRepository S o' paths environment)))"

definition emptyRepository :: "'w os \<Rightarrow> Options \<Rightarrow> workspacePaths \<Rightarrow> ('w, BootMetadata) bprog" where
  "emptyRepository S o' paths =
     attempt (ensureEmptyRepositoryDirectory S (wpRepository paths)) (\<lambda>_. do {
       now \<leftarrow> ask (osNow S);
       let m = zeroMetadata\<lparr>bmRequestedRevision := opRevision o', bmBootstrappedAt := now\<rparr>;
       attempt (writeMetadata S (wpMetadata paths) m) (\<lambda>_. gives m) })"

text \<open>An existing workspace: it must be the one asked for.\<close>

definition sameWorkspace :: "Options \<Rightarrow> BootMetadata \<Rightarrow> bool" where
  "sameWorkspace o' m =
     (let revision = (if bmRepositoryURL m = [] \<and> bmRequestedRevision m = [] then ''HEAD'' else bmRequestedRevision m) in
      bmRepositoryURL m = opRepositoryURL o' \<and> revision = opRevision o')"

definition existingWorkspace :: "'w os \<Rightarrow> Options \<Rightarrow> workspacePaths \<Rightarrow> BootMetadata \<Rightarrow> ('w, BootMetadata) bprog" where
  "existingWorkspace S o' paths m =
     (if \<not> sameWorkspace o' m
      then fails (identityMismatch ''the existing workspace belongs to a different repository or revision'')
      else attempt (requireDirectory S (wpRepository paths)) (\<lambda>_. gives m))"

definition bootstrapLocked :: "'w os \<Rightarrow> Options \<Rightarrow> workspacePaths \<Rightarrow> ('w, BootMetadata) bprog" where
  "bootstrapLocked S o' paths =
     attempt (readMetadata S (wpMetadata paths)) (\<lambda>existing.
       case existing of
         Some m \<Rightarrow> existingWorkspace S o' paths m
       | None \<Rightarrow> if opRepositoryURL o' = [] then emptyRepository S o' paths else cloneRepository S o' paths)"

definition withLock :: "'w os \<Rightarrow> string \<Rightarrow> ('w, 'a) bprog \<Rightarrow> ('w, 'a) bprog" where
  "withLock S lock m =
     attempt (orElse (sysCall (OpenLock lock) (osOpenLock S lock)) (workspaceErr ''workspace_lock_failed'' ''open the workspace bootstrap lock'')) (\<lambda>_. do {
       r \<leftarrow> attempt (orElse (sysCall (Flock lock) (osFlock S lock)) (workspaceErr ''workspace_lock_failed'' ''lock the workspace bootstrap state'')) (\<lambda>_. do {
         x \<leftarrow> m;
         _ \<leftarrow> effect (Unlock lock, True) (\<lambda>w. ((), w));
         ret x });
       _ \<leftarrow> effect (CloseLock lock, True) (\<lambda>w. ((), w));
       ret r })"

definition Execute :: "'w os \<Rightarrow> Options \<Rightarrow> ('w, BootMetadata) bprog" where
  "Execute S given =
     (let o' = applyDefaults (osEnviron S) given in
      case validateOptions (osURLParse S) o' of
        Some e \<Rightarrow> fails e
      | None \<Rightarrow>
          attempt (preparePaths S (opWorkspace o')) (\<lambda>paths.
          attempt (prepareAdapterState S (wpState paths) (opAdapterID o')) (\<lambda>_.
            withLock S (wpLock paths) (bootstrapLocked S o' paths))))"

section \<open>The helper modes and the command line\<close>

definition printed :: "'w os \<Rightarrow> string \<Rightarrow> ('w, unit) oprog" where
  "printed S t = sysCall (Print t) (osPrint S t)"

definition println :: "'w os \<Rightarrow> string \<Rightarrow> ('w, unit) oprog" where
  "println S t = printed S (t @ [CHR 0x0A])"

definition AskPass :: "'w os \<Rightarrow> string \<Rightarrow> string \<Rightarrow> ('w, unit) bprog" where
  "AskPass S p prompt =
     attempt (readCredential S p) (\<lambda>c.
       orElse (println S (if sublist ''username'' (toLower prompt) then crUsername c else crPassword c))
         (\<lambda>e. \<lparr>beCode = [], beExit = 0, beMessage = osErrorText e, beErr = None\<rparr>))"

definition sshArguments :: "string \<Rightarrow> string \<Rightarrow> string list \<Rightarrow> string list" where
  "sshArguments key knownHosts arguments =
     [''-o'', ''BatchMode=yes'', ''-o'', ''IdentitiesOnly=yes'', ''-o'', ''StrictHostKeyChecking=yes'',
      ''-o'', ''UserKnownHostsFile='' @ knownHosts, ''-i'', key] @ arguments"

text \<open>A command that inherits the standard streams.\<close>

definition passThrough :: "'w os \<Rightarrow> string \<Rightarrow> string list \<Rightarrow> string list \<Rightarrow> ('w, sysEvent, osError option) prog" where
  "passThrough S binary environment arguments =
     State (\<lambda>s. let ((err, _), w) = osExec S binary environment arguments (world s)
       in (err, s\<lparr>world := w, actions := actions s @ [(Exec binary environment arguments [], err = None)]\<rparr>))"

definition RunSSHWrapper :: "'w os \<Rightarrow> (string \<Rightarrow> string) \<Rightarrow> string list \<Rightarrow> ('w, unit) bprog" where
  "RunSSHWrapper S getenv arguments =
     (let key = getenv ''SANDHERD_GIT_SSH_KEY_FILE''; knownHosts = getenv ''SANDHERD_GIT_KNOWN_HOSTS_FILE'';
          binary = orDefault (getenv ''SANDHERD_SSH_BINARY'') ''ssh'' in
      if key = [] \<or> knownHosts = [] then fails (invalidError ''SSH wrapper requires key and known-hosts files'')
      else do {
        err \<leftarrow> passThrough S binary (osEnviron S) (sshArguments key knownHosts arguments);
        case err of
          Some e \<Rightarrow> fails \<lparr>beCode = [], beExit = 0, beMessage = osErrorText e, beErr = None\<rparr>
        | None \<Rightarrow> gives () })"

text \<open>The flags of the command and their defaults; \<open>parseDuration\<close> is \<^verbatim>\<open>time.ParseDuration\<close>.\<close>

record bootFlags =
  bfWorkspace :: string
  bfAdapterID :: string
  bfRepositoryURL :: string
  bfRevision :: string
  bfCredentialFile :: string
  bfSSHKeyFile :: string
  bfKnownHostsFile :: string
  bfGit :: string
  bfSSH :: string
  bfTimeout :: duration
  bfVersion :: bool

definition defaultFlags :: "(string \<Rightarrow> string) \<Rightarrow> bootFlags" where
  "defaultFlags getenv =
     \<lparr>bfWorkspace = orDefault (getenv ''SANDHERD_WORKSPACE'') ''/workspace'',
      bfAdapterID = orDefault (getenv ''SANDHERD_ADAPTER_ID'') ''shell'',
      bfRepositoryURL = getenv ''SANDHERD_REPOSITORY_URL'',
      bfRevision = orDefault (getenv ''SANDHERD_REPOSITORY_REVISION'') ''HEAD'',
      bfCredentialFile = getenv ''SANDHERD_GIT_CREDENTIAL_FILE'',
      bfSSHKeyFile = getenv ''SANDHERD_GIT_SSH_KEY_FILE'',
      bfKnownHostsFile = getenv ''SANDHERD_GIT_KNOWN_HOSTS_FILE'',
      bfGit = orDefault (getenv ''SANDHERD_GIT_BINARY'') ''git'',
      bfSSH = orDefault (getenv ''SANDHERD_SSH_BINARY'') ''ssh'',
      bfTimeout = 5 * 60 * 1000000000, bfVersion = False\<rparr>"

definition bootFlagSet :: "(string \<Rightarrow> duration option) \<Rightarrow> bootFlags flagSet" where
  "bootFlagSet parseDuration =
     [(''version'', BoolFlag (\<lambda>b f. f\<lparr>bfVersion := b\<rparr>)),
      (''workspace'', stringVar (\<lambda>v f. f\<lparr>bfWorkspace := v\<rparr>)),
      (''adapter-id'', stringVar (\<lambda>v f. f\<lparr>bfAdapterID := v\<rparr>)),
      (''repository-url'', stringVar (\<lambda>v f. f\<lparr>bfRepositoryURL := v\<rparr>)),
      (''revision'', stringVar (\<lambda>v f. f\<lparr>bfRevision := v\<rparr>)),
      (''credential-file'', stringVar (\<lambda>v f. f\<lparr>bfCredentialFile := v\<rparr>)),
      (''ssh-key-file'', stringVar (\<lambda>v f. f\<lparr>bfSSHKeyFile := v\<rparr>)),
      (''known-hosts-file'', stringVar (\<lambda>v f. f\<lparr>bfKnownHostsFile := v\<rparr>)),
      (''git'', stringVar (\<lambda>v f. f\<lparr>bfGit := v\<rparr>)),
      (''ssh'', stringVar (\<lambda>v f. f\<lparr>bfSSH := v\<rparr>)),
      (''timeout'', parsedVar parseDuration (\<lambda>v f. f\<lparr>bfTimeout := v\<rparr>))]"

definition flagOptions :: "bootFlags \<Rightarrow> Options" where
  "flagOptions f =
     \<lparr>opWorkspace = bfWorkspace f, opAdapterID = trimSpace (bfAdapterID f), opRepositoryURL = trimSpace (bfRepositoryURL f),
      opRevision = trimSpace (bfRevision f), opCredentialFile = bfCredentialFile f, opSSHKeyFile = bfSSHKeyFile f,
      opKnownHostsFile = bfKnownHostsFile f, opGitBinary = bfGit f, opSSHBinary = bfSSH f, opHelperBinary = [],
      opTimeout = bfTimeout f, opEnvironment = None\<rparr>"

text \<open>What \<open>Run\<close> prints for a result of \<open>Execute\<close>, whose errors are all typed, and its exit code.\<close>

definition outcomeText :: "bootError + BootMetadata \<Rightarrow> string" where
  "outcomeText r =
     (case r of
        Inl e \<Rightarrow> ''workspace-bootstrap: '' @ beCode e @ '': '' @ beMessage e
      | Inr m \<Rightarrow>
          if bmResolvedCommit m \<noteq> []
          then ''workspace ready at '' @ bmResolvedCommit m @ '' ('' @ bmRequestedRevision m @ '')''
          else ''empty workspace ready'')"

definition runMain ::
  "'w os \<Rightarrow> (string \<Rightarrow> duration option) \<Rightarrow> Info \<Rightarrow> (string \<Rightarrow> string) \<Rightarrow> string list \<Rightarrow> ('w, sysEvent, int) prog" where
  "runMain S parseDuration info getenv arguments =
     (case parseFlags (bootFlagSet parseDuration) (defaultFlags getenv) arguments of
        None \<Rightarrow> ret 2
      | Some (f, rest) \<Rightarrow>
          if rest \<noteq> [] then ret 2
          else if bfVersion f then do { _ \<leftarrow> printed S (WriteInfo info ''workspace-bootstrap''); ret 0 }
          else do {
            r \<leftarrow> Execute S (flagOptions f);
            _ \<leftarrow> println S (outcomeText r);
            ret (case r of Inl e \<Rightarrow> beExit e | Inr _ \<Rightarrow> 0) })"

definition Run ::
  "'w os \<Rightarrow> (string \<Rightarrow> duration option) \<Rightarrow> Info \<Rightarrow> (string \<Rightarrow> string) \<Rightarrow> string list \<Rightarrow> ('w, sysEvent, int) prog" where
  "Run S parseDuration info getenv arguments =
     (if getenv ''SANDHERD_ASKPASS'' = ''1'' then do {
        r \<leftarrow> AskPass S (getenv ''SANDHERD_GIT_CREDENTIAL_FILE'') (case arguments of [] \<Rightarrow> [] | a # _ \<Rightarrow> a);
        case r of
          Inl e \<Rightarrow> do { _ \<leftarrow> println S (''workspace-bootstrap: '' @ bootErrorText e); ret ExitInvalidConfiguration }
        | Inr _ \<Rightarrow> ret 0 }
      else if getenv ''SANDHERD_SSH_WRAPPER'' = ''1'' then do {
        r \<leftarrow> RunSSHWrapper S getenv arguments;
        ret (case r of Inl _ \<Rightarrow> 255 | Inr _ \<Rightarrow> 0) }
      else runMain S parseDuration info getenv arguments)"

end
