(* ===== verification/Bridge.thy ===== *)
theory Bridge
  imports Gateway Bootstrap
begin

text \<open>
  The client side, \<^verbatim>\<open>internal/herdrbridge\<close>: what the bridge remembers of an agent (\<^verbatim>\<open>state.go\<close>), its
  configuration (\<^verbatim>\<open>config.go\<close>), the commands it gives to Herdr (\<^verbatim>\<open>herdr.go\<close>) and its client of the
  public API (\<^verbatim>\<open>client.go\<close>). Files, HTTP, Herdr's command line, the user and the environment are a
  record of functions; every call is logged with whether it succeeded.
\<close>

section \<open>The outside\<close>

text \<open>What an error is, as far as \<open>errors.Is\<close> and \<open>errors.As\<close> tell.\<close>

record APIError =
  apStatus :: int
  apCode :: string
  apMessage :: string
  apRequestID :: string
  apRetryable :: bool

datatype bridgeError =
    Io osError
  | Api APIError
  | ReplayReset
  | ControllerRevoked goerror
  | Attention goerror
  | Fault goerror

definition apiErrorText :: "APIError \<Rightarrow> goerror" where
  "apiErrorText e = (if apRequestID e \<noteq> [] then apMessage e @ '' (request '' @ apRequestID e @ '')'' else apMessage e)"

fun bridgeErrorText :: "bridgeError \<Rightarrow> goerror" where
  "bridgeErrorText (Io e) = osErrorText e"
| "bridgeErrorText (Api e) = apiErrorText e"
| "bridgeErrorText ReplayReset = ''terminal replay cursor reset''"
| "bridgeErrorText (ControllerRevoked t) = ''terminal controller was revoked: '' @ t"
| "bridgeErrorText (Attention t) = ''terminal requires user attention: '' @ t"
| "bridgeErrorText (Fault t) = t"

fun IsAPIError :: "bridgeError \<Rightarrow> string \<Rightarrow> bool" where
  "IsAPIError (Api e) code = (apCode e = code)"
| "IsAPIError _ code = False"

record clientRequest =
  cqMethod :: string
  cqURL :: gatewayURL
  cqHeaders :: "(string \<times> string) list"
  cqBody :: "string option"

record clientResponse =
  csStatus :: int
  csBody :: string

datatype bridgeCall =
    File sysCall
  | MkdirAll string
  | Herdr "string list"
  | HTTP clientRequest
  | Shown string
  | ReadLine string
  | Dialed gatewayURL "(string \<times> string) list"
  | SentFrame Frame
  | GotFrame Frame
  | Output Frame
  | Slept duration

text \<open>
  \<open>bwSeq\<close> is the sequence counter of \<open>HerdrClient\<close>, the rest of the world is out of its reach.
\<close>

record 'v bridgeWorld =
  bwSeq :: uint64
  bwRest :: 'v

type_synonym ('v, 'a) rprog = "('v bridgeWorld, bridgeCall \<times> bool, bridgeError + 'a) prog"
type_synonym ('v, 'a) uprog = "('v bridgeWorld, bridgeCall \<times> bool, 'a) prog"

text \<open>
  \<open>beHerdr\<close> is the error and the combined output of a command; \<open>beReadLine\<close> is \<open>ReadString('\n')\<close>,
  the line read and the error; \<open>beSort\<close> is \<open>sort.Slice\<close> by name, which is not stable; \<open>beStatusText\<close> is
  \<^verbatim>\<open>http.StatusText\<close>.
\<close>

record 'v bridgeEnv =
  beReadFile :: "string \<Rightarrow> 'v \<Rightarrow> (osError + string) \<times> 'v"
  beMkdirAll :: "string \<Rightarrow> 'v \<Rightarrow> (osError + unit) \<times> 'v"
  beReadDir :: "string \<Rightarrow> 'v \<Rightarrow> (osError + (string \<times> bool) list) \<times> 'v"
  beRemove :: "string \<Rightarrow> 'v \<Rightarrow> (osError + unit) \<times> 'v"
  beRename :: "string \<Rightarrow> string \<Rightarrow> 'v \<Rightarrow> (osError + unit) \<times> 'v"
  beCreateTemp :: "string \<Rightarrow> string \<Rightarrow> 'v \<Rightarrow> (osError + string) \<times> 'v"
  beChmod :: "string \<Rightarrow> nat \<Rightarrow> 'v \<Rightarrow> (osError + unit) \<times> 'v"
  beWrite :: "string \<Rightarrow> string \<Rightarrow> 'v \<Rightarrow> (osError + unit) \<times> 'v"
  beSync :: "string \<Rightarrow> 'v \<Rightarrow> (osError + unit) \<times> 'v"
  beClose :: "string \<Rightarrow> 'v \<Rightarrow> (osError + unit) \<times> 'v"
  beHTTP :: "clientRequest \<Rightarrow> 'v \<Rightarrow> (goerror + clientResponse) \<times> 'v"
  beHerdr :: "string \<Rightarrow> string list \<Rightarrow> 'v \<Rightarrow> (goerror option \<times> string) \<times> 'v"
  beReadLine :: "'v \<Rightarrow> (osError option \<times> string) \<times> 'v"
  beNow :: "'v \<Rightarrow> time \<times> 'v"
  beNewID :: "'v \<Rightarrow> string \<times> 'v"
  beGetenv :: "string \<Rightarrow> string"
  beScanner :: scanner
  bePrint :: "json \<Rightarrow> string"
  bePrintIndent :: "json \<Rightarrow> string"
  beCodec :: codec
  beJSONError :: "string \<Rightarrow> goerror"
  beURLParse :: "string \<Rightarrow> gatewayURL option"
  beURLError :: "string \<Rightarrow> goerror"
  beURLText :: "gatewayURL \<Rightarrow> string"
  bePathEscape :: "string \<Rightarrow> string"
  bePrintable :: "rune \<Rightarrow> bool"
  beStatusText :: "int \<Rightarrow> string"
  beSort :: "(string \<times> nat) list \<Rightarrow> nat list"

definition called :: "bridgeCall \<Rightarrow> ('v \<Rightarrow> ('e + 'a) \<times> 'v) \<Rightarrow> ('v, 'e + 'a) uprog" where
  "called c f = State (\<lambda>s. let (r, v) = f (bwRest (world s)) in
     (r, s\<lparr>world := (world s)\<lparr>bwRest := v\<rparr>, actions := actions s @ [(c, isOK r)]\<rparr>))"

definition asked :: "('v \<Rightarrow> 'a \<times> 'v) \<Rightarrow> ('v, 'a) uprog" where
  "asked f = ask (\<lambda>w. let (r, v) = f (bwRest w) in (r, w\<lparr>bwRest := v\<rparr>))"

text \<open>A call whose error is turned into one of the bridge.\<close>

definition wrapped :: "('v, 'e + 'a) uprog \<Rightarrow> ('e \<Rightarrow> bridgeError) \<Rightarrow> ('v, 'a) rprog" where
  "wrapped m wrap = do { r \<leftarrow> m; ret (case r of Inl e \<Rightarrow> Inl (wrap e) | Inr x \<Rightarrow> Inr x) }"

definition failed :: "bridgeError \<Rightarrow> ('v, 'a) rprog" where
  "failed e = ret (Inl e)"

definition okay :: "'a \<Rightarrow> ('v, 'a) rprog" where
  "okay x = ret (Inr x)"

definition shown :: "string \<Rightarrow> ('v, unit) uprog" where
  "shown t = effect (Shown t, True) (\<lambda>w. ((), w))"

section \<open>What the bridge remembers of an agent\<close>

record AgentState =
  asAgentID :: string
  asName :: string
  asBaseURL :: string
  asPaneID :: string
  asAfterSequence :: "uint64 option"
  asRunnerGeneration :: string
  asUpdatedAt :: time

definition zeroAgentState :: AgentState where
  "zeroAgentState = \<lparr>asAgentID = [], asName = [], asBaseURL = [], asPaneID = [], asAfterSequence = None, asRunnerGeneration = [],
     asUpdatedAt = zeroTime\<rparr>"

definition newAgentState :: "string \<Rightarrow> string \<Rightarrow> string \<Rightarrow> AgentState" where
  "newAgentState i name url = zeroAgentState\<lparr>asAgentID := i, asName := name, asBaseURL := url\<rparr>"

definition agentStateFields :: "codec \<Rightarrow> AgentState fields" where
  "agentStateFields cd =
     [(''agentId'', setField decString (\<lambda>x r. r\<lparr>asAgentID := x\<rparr>)),
      (''name'', setField decString (\<lambda>x r. r\<lparr>asName := x\<rparr>)),
      (''baseUrl'', setField decString (\<lambda>x r. r\<lparr>asBaseURL := x\<rparr>)),
      (''paneId'', setField decString (\<lambda>x r. r\<lparr>asPaneID := x\<rparr>)),
      (''afterSequence'', setPointer (decUint 64) (\<lambda>n r. r\<lparr>asAfterSequence := map_option word_of_nat n\<rparr>)),
      (''runnerGeneration'', setField decString (\<lambda>x r. r\<lparr>asRunnerGeneration := x\<rparr>)),
      (''updatedAt'', setField (decTime cd) (\<lambda>x r. r\<lparr>asUpdatedAt := x\<rparr>))]"

definition agentStateJson :: "codec \<Rightarrow> AgentState \<Rightarrow> json" where
  "agentStateJson cd s =
     JObj ([(''agentId'', JStr (asAgentID s)), (''name'', JStr (asName s)), (''baseUrl'', JStr (asBaseURL s))] @
       omitEmpty ''paneId'' (asPaneID s) @
       omitNil ''afterSequence'' (\<lambda>n. JNum (digits (unat n))) (asAfterSequence s) @
       omitEmpty ''runnerGeneration'' (asRunnerGeneration s) @
       [(''updatedAt'', JStr (cdTime cd (asUpdatedAt s)))])"

text \<open>\<open>validAgentID\<close> of \<^verbatim>\<open>state.go\<close> is the test \<open>looksLikeUUID\<close> of the server, word by word.\<close>

definition validStateID :: "string \<Rightarrow> bool" where
  "validStateID value = looksLikeUUID value"

record StateStore =
  ssDirectory :: string

definition NewStateStore :: "'v bridgeEnv \<Rightarrow> string \<Rightarrow> ('v, StateStore) rprog" where
  "NewStateStore E dirName =
     (if dirName = [] then failed (Fault ''state directory is required'')
      else let d = joinPath (cleanPath dirName) ''agents'' in
        attempt (wrapped (called (MkdirAll d) (beMkdirAll E d)) (\<lambda>e. Fault (''create state directory: '' @ osErrorText e))) (\<lambda>_.
          okay \<lparr>ssDirectory = d\<rparr>))"

definition statePath :: "StateStore \<Rightarrow> string \<Rightarrow> string" where
  "statePath st i = joinPath (ssDirectory st) (i @ ''.json'')"

definition decodeState :: "'v bridgeEnv \<Rightarrow> string \<Rightarrow> AgentState option" where
  "decodeState E contents =
     (case unmarshalText (beScanner E) contents of
        None \<Rightarrow> None
      | Some v \<Rightarrow> decodeStruct False (agentStateFields (beCodec E)) v zeroAgentState)"

definition Load :: "'v bridgeEnv \<Rightarrow> StateStore \<Rightarrow> string \<Rightarrow> ('v, AgentState) rprog" where
  "Load E st i =
     (if \<not> validStateID i then failed (Fault ''invalid agent ID'')
      else attempt (wrapped (called (File (ReadFile (statePath st i))) (beReadFile E (statePath st i))) Io) (\<lambda>contents.
        case decodeState E contents of
          None \<Rightarrow> failed (Fault (''decode agent state: '' @ beJSONError E contents))
        | Some s \<Rightarrow> if asAgentID s \<noteq> i then failed (Fault ''agent state identity mismatch'') else okay s))"

text \<open>On an error before the close the file is closed; the temporary path is removed at the end.\<close>

definition closing :: "('v, 'a) rprog \<Rightarrow> ('v, unit) rprog \<Rightarrow> ('v, 'a) rprog" where
  "closing m close = do { r \<leftarrow> m; case r of Inl e \<Rightarrow> do { _ \<leftarrow> close; failed e } | Inr x \<Rightarrow> okay x }"

definition replaceFile :: "'v bridgeEnv \<Rightarrow> string \<Rightarrow> string \<Rightarrow> string \<Rightarrow> ('v, unit) rprog" where
  "replaceFile E t p contents =
     (let close = wrapped (called (File (CloseTemp t)) (beClose E t)) Io in
      attempt (closing (wrapped (called (File (Chmod t 384)) (beChmod E t 384)) Io) close) (\<lambda>_.
      attempt (closing (wrapped (called (File (Write t contents)) (beWrite E t contents)) Io) close) (\<lambda>_.
      attempt (closing (wrapped (called (File (Sync t)) (beSync E t)) Io) close) (\<lambda>_.
      attempt close (\<lambda>_.
      wrapped (called (File (Rename t p)) (beRename E t p)) Io)))))"

definition Save :: "'v bridgeEnv \<Rightarrow> StateStore \<Rightarrow> AgentState \<Rightarrow> ('v, unit) rprog" where
  "Save E st s =
     (if \<not> validStateID (asAgentID s) \<or> asName s = [] \<or> asBaseURL s = []
      then failed (Fault ''agent ID, name, and base URL are required'')
      else do {
        now \<leftarrow> asked (beNow E);
        let contents = bePrintIndent E (agentStateJson (beCodec E) (s\<lparr>asUpdatedAt := now\<rparr>)) @ [CHR 0x0A];
        attempt (wrapped (called (File (CreateTemp (ssDirectory st))) (beCreateTemp E (ssDirectory st) ''.agent-*.tmp'')) Io) (\<lambda>t. do {
          r \<leftarrow> replaceFile E t (statePath st (asAgentID s)) contents;
          _ \<leftarrow> called (File (Remove t)) (beRemove E t);
          ret r }) })"

definition RemoveState :: "'v bridgeEnv \<Rightarrow> StateStore \<Rightarrow> string \<Rightarrow> ('v, unit) rprog" where
  "RemoveState E st i =
     (if \<not> validStateID i then failed (Fault ''invalid agent ID'')
      else do {
        r \<leftarrow> called (File (Remove (statePath st i))) (beRemove E (statePath st i));
        ret (case r of Inl e \<Rightarrow> if isNotExist e then Inr () else Inl (Io e) | Inr x \<Rightarrow> Inr x) })"

fun loadAll :: "'v bridgeEnv \<Rightarrow> StateStore \<Rightarrow> (string \<times> bool) list \<Rightarrow> ('v, AgentState list) uprog" where
  "loadAll E st [] = ret []"
| "loadAll E st ((name, dir) # entries) =
     (if dir \<or> \<not> hasSuffix name ''.json'' then loadAll E st entries
      else do {
        r \<leftarrow> Load E st (trimSuffix name ''.json'');
        rest \<leftarrow> loadAll E st entries;
        ret (case r of Inl _ \<Rightarrow> rest | Inr s \<Rightarrow> s # rest) })"

definition ListStates :: "'v bridgeEnv \<Rightarrow> StateStore \<Rightarrow> ('v, AgentState list) rprog" where
  "ListStates E st =
     attempt (wrapped (called (File (ReadDir (ssDirectory st))) (beReadDir E (ssDirectory st))) Io) (\<lambda>entries. do {
       states \<leftarrow> loadAll E st entries;
       okay (map (\<lambda>k. states ! k) (beSort E (zip (map asName states) [0..<length states]))) })"

end
