(* ===== verification/Bridge_Client.thy ===== *)
theory Bridge_Client
  imports Bridge
begin

text \<open>
  The bridge's configuration, \<^verbatim>\<open>config.go\<close>, the commands to Herdr, \<^verbatim>\<open>herdr.go\<close>, and the client of the
  public API, \<^verbatim>\<open>client.go\<close>.
\<close>

section \<open>Configuration\<close>

record BridgeConfig =
  bcBaseURL :: string
  bcTokenFile :: string
  bcCreate :: CreateRequest
  bcPollInterval :: duration
  bcReconnectLimit :: duration

definition bridgeConfigFields :: "BridgeConfig fields" where
  "bridgeConfigFields =
     [(''baseUrl'', setField decString (\<lambda>x r. r\<lparr>bcBaseURL := x\<rparr>)),
      (''tokenFile'', setField decString (\<lambda>x r. r\<lparr>bcTokenFile := x\<rparr>)),
      (''create'', setStruct True createFields bcCreate (\<lambda>x r. r\<lparr>bcCreate := x\<rparr>))]"

definition zeroBridgeConfig :: BridgeConfig where
  "zeroBridgeConfig = \<lparr>bcBaseURL = [], bcTokenFile = [], bcCreate = zeroCreate, bcPollInterval = 0, bcReconnectLimit = 0\<rparr>"

definition lifecycleURLs :: "'v bridgeEnv \<Rightarrow> urlParser" where
  "lifecycleURLs E t = map_option parsedURL.truncate (beURLParse E t)"

definition BridgeCreateRequest :: "BridgeConfig \<Rightarrow> string \<Rightarrow> CreateRequest" where
  "BridgeCreateRequest c name = ApplyDefaults ((bcCreate c)\<lparr>crName := name\<rparr>)"

definition ValidateConfig :: "'v bridgeEnv \<Rightarrow> BridgeConfig \<Rightarrow> goerror option" where
  "ValidateConfig E c =
     (if (case beURLParse E (bcBaseURL c) of
            None \<Rightarrow> True
          | Some u \<Rightarrow> (urlScheme u \<noteq> ''http'' \<and> urlScheme u \<noteq> ''https'') \<or> urlHost u = [] \<or> urlUser u \<noteq> None \<or>
              urlRawQuery u \<noteq> [] \<or> urlFragment u \<noteq> [])
      then Some ''baseUrl must be an absolute HTTP(S) URL without credentials, query, or fragment''
      else if bcTokenFile c = [] then Some ''tokenFile is required''
      else if crName (bcCreate c) \<noteq> [] then Some ''create.name must be omitted; the manager prompts for it''
      else case validateCreate (lifecycleURLs E) (BridgeCreateRequest c ''validation'') of
        Some e \<Rightarrow> Some (''create defaults are invalid: '' @ e)
      | None \<Rightarrow>
          if bcPollInterval c \<le> 0 \<or> bcReconnectLimit c \<le> 0 then Some ''poll and reconnect durations must be positive'' else None)"

definition configPath :: "'v bridgeEnv \<Rightarrow> string option" where
  "configPath E =
     (let path = beGetenv E ''SANDHERD_CONFIG_FILE''; d = beGetenv E ''HERDR_PLUGIN_CONFIG_DIR'' in
      if path \<noteq> [] then Some path else if d = [] then None else Some (joinPath d ''config.json''))"

definition overridden :: "'v bridgeEnv \<Rightarrow> BridgeConfig \<Rightarrow> BridgeConfig" where
  "overridden E c =
     c\<lparr>bcBaseURL := orDefault (beGetenv E ''SANDHERD_BASE_URL'') (bcBaseURL c),
       bcTokenFile := orDefault (beGetenv E ''SANDHERD_TOKEN_FILE'') (bcTokenFile c),
       bcPollInterval := second, bcReconnectLimit := 2 * 60 * second\<rparr>"

definition LoadConfig :: "'v bridgeEnv \<Rightarrow> ('v, BridgeConfig) rprog" where
  "LoadConfig E =
     (case configPath E of
        None \<Rightarrow> failed (Fault ''HERDR_PLUGIN_CONFIG_DIR or SANDHERD_CONFIG_FILE is required'')
      | Some path \<Rightarrow>
          attempt (wrapped (called (File (ReadFile (cleanPath path))) (beReadFile E (cleanPath path)))
              (\<lambda>e. Fault (''read configuration '' @ path @ '': '' @ osErrorText e))) (\<lambda>contents.
            case decodeStrict (beScanner E) bridgeConfigFields zeroBridgeConfig contents of
              None \<Rightarrow> failed (Fault (''decode configuration '' @ path @ '': '' @ beJSONError E contents))
            | Some c \<Rightarrow>
                (case ValidateConfig E (overridden E c) of
                   Some e \<Rightarrow> failed (Fault e)
                 | None \<Rightarrow> okay (overridden E c))))"

definition StateDirectory :: "'v bridgeEnv \<Rightarrow> bridgeError + string" where
  "StateDirectory E =
     (let d = beGetenv E ''HERDR_PLUGIN_STATE_DIR'' in
      if d = [] then Inl (Fault ''HERDR_PLUGIN_STATE_DIR is required'') else Inr (cleanPath d))"

section \<open>Herdr\<close>

definition currentPluginID :: "'v bridgeEnv \<Rightarrow> string" where
  "currentPluginID E = orDefault (beGetenv E ''HERDR_PLUGIN_ID'') ''dev.sandherd''"

definition CurrentPaneID :: "'v bridgeEnv \<Rightarrow> string" where
  "CurrentPaneID E = beGetenv E ''HERDR_PANE_ID''"

fun spaced :: "string list \<Rightarrow> string" where
  "spaced [] = []"
| "spaced [a] = a"
| "spaced (a # as) = a @ '' '' @ spaced as"

definition RunHerdr :: "'v bridgeEnv \<Rightarrow> string list \<Rightarrow> ('v, string) rprog" where
  "RunHerdr E arguments =
     wrapped (called (Herdr arguments) (\<lambda>v.
         let ((err, output), v') = beHerdr E (orDefault (beGetenv E ''HERDR_BIN_PATH'') ''herdr'') arguments v in
         (case err of None \<Rightarrow> Inr output | Some e \<Rightarrow> Inl (e, output), v')))
       (\<lambda>(e, output). Fault (''herdr '' @ spaced arguments @ '': '' @ e @ '': '' @ trimSpace output))"

definition nextSeq :: "('v, uint64) uprog" where
  "nextSeq = ask (\<lambda>w. (bwSeq w + 1, w\<lparr>bwSeq := bwSeq w + 1\<rparr>))"

definition herdrOnly :: "'v bridgeEnv \<Rightarrow> string list \<Rightarrow> ('v, unit) rprog" where
  "herdrOnly E arguments = attempt (RunHerdr E arguments) (\<lambda>_. okay ())"

definition ReportAgent :: "'v bridgeEnv \<Rightarrow> string \<Rightarrow> string \<Rightarrow> string \<Rightarrow> ('v, unit) rprog" where
  "ReportAgent E pane state message =
     (if pane = [] then okay ()
      else do {
        n \<leftarrow> nextSeq;
        herdrOnly E ([''pane'', ''report-agent'', pane, ''--source'', ''plugin:'' @ currentPluginID E, ''--agent'', ''sandherd'',
            ''--state'', state, ''--seq'', digits (unat n)] @ (if message \<noteq> [] then [''--message'', message] else [])) })"

definition ReportMetadata :: "'v bridgeEnv \<Rightarrow> string \<Rightarrow> AgentState \<Rightarrow> ('v, unit) rprog" where
  "ReportMetadata E pane s =
     (if pane = [] then okay ()
      else do {
        n \<leftarrow> nextSeq;
        herdrOnly E [''pane'', ''report-metadata'', pane, ''--source'', ''plugin:'' @ currentPluginID E, ''--agent'', ''sandherd'',
          ''--title'', asName s, ''--display-agent'', ''Sandherd: '' @ asName s, ''--token'', ''sandherd_agent_id='' @ asAgentID s,
          ''--seq'', digits (unat n)] })"

definition Notify :: "'v bridgeEnv \<Rightarrow> string \<Rightarrow> string \<Rightarrow> string \<Rightarrow> ('v, unit) rprog" where
  "Notify E title body sound =
     herdrOnly E ([''notification'', ''show'', title] @ (if body \<noteq> [] then [''--body'', body] else []) @
       (if sound \<noteq> [] then [''--sound'', sound] else []))"

definition OpenManager :: "'v bridgeEnv \<Rightarrow> string \<Rightarrow> string \<Rightarrow> ('v, unit) rprog" where
  "OpenManager E action pane =
     herdrOnly E ([''plugin'', ''pane'', ''open'', ''--plugin'', currentPluginID E, ''--entrypoint'', ''manager'', ''--placement'', ''popup'',
         ''--width'', ''80%'', ''--height'', ''70%'', ''--focus'', ''--env'', ''SANDHERD_ACTION='' @ action] @
       (if pane \<noteq> [] then [''--env'', ''SANDHERD_TARGET_PANE_ID='' @ pane] else []))"

definition agentPanePlacement :: "'v bridgeEnv \<Rightarrow> string" where
  "agentPanePlacement E =
     (let configured = beGetenv E ''SANDHERD_AGENT_PLACEMENT'' in
      if configured = ''split'' \<or> configured = ''tab'' then configured
      else case atoi (beGetenv E ''COLUMNS'') of
        Some columns \<Rightarrow> if 0 < columns \<and> columns < 100 then ''tab'' else ''split''
      | None \<Rightarrow> ''split'')"

definition OpenAgent :: "'v bridgeEnv \<Rightarrow> string \<Rightarrow> string \<Rightarrow> bool \<Rightarrow> ('v, unit) rprog" where
  "OpenAgent E i pane taking =
     (let placement = agentPanePlacement E; workspace = beGetenv E ''HERDR_WORKSPACE_ID'' in
      herdrOnly E ([''plugin'', ''pane'', ''open'', ''--plugin'', currentPluginID E, ''--entrypoint'', ''agent'', ''--placement'', placement,
          ''--focus'', ''--env'', ''SANDHERD_AGENT_ID='' @ i] @
        (if placement = ''split'' then [''--direction'', ''right''] else []) @
        (if placement = ''split'' \<and> pane \<noteq> [] then [''--target-pane'', pane] else []) @
        (if placement = ''tab'' \<and> workspace \<noteq> [] then [''--workspace'', workspace] else []) @
        (if taking then [''--env'', ''SANDHERD_TAKEOVER=1''] else [])))"

definition FocusPane :: "'v bridgeEnv \<Rightarrow> string \<Rightarrow> ('v, unit) rprog" where
  "FocusPane E pane =
     (if pane = [] then failed (Fault ''agent has no remembered Herdr pane'') else herdrOnly E [''plugin'', ''pane'', ''focus'', pane])"

definition ClosePane :: "'v bridgeEnv \<Rightarrow> string \<Rightarrow> ('v, unit) rprog" where
  "ClosePane E pane = (if pane = [] then okay () else herdrOnly E [''plugin'', ''pane'', ''close'', pane])"

text \<open>The pane an action was invoked on: \<open>pane.pane_id\<close>, else \<open>focused_pane.pane_id\<close> of the plugin context.\<close>

definition paneFields :: "string fields" where
  "paneFields = [(''pane_id'', setField decString (\<lambda>x r. x))]"

definition contextFields :: "(string \<times> string) fields" where
  "contextFields = [(''pane'', setStruct False paneFields fst (\<lambda>x r. (x, snd r))), (''focused_pane'', setStruct False paneFields snd (\<lambda>x r. (fst r, x)))]"

definition actionTargetPane :: "'v bridgeEnv \<Rightarrow> string" where
  "actionTargetPane E =
     (let pane = beGetenv E ''HERDR_PANE_ID'' in
      if pane \<noteq> [] then pane
      else case (case unmarshalText (beScanner E) (beGetenv E ''HERDR_PLUGIN_CONTEXT_JSON'') of
          None \<Rightarrow> None | Some v \<Rightarrow> decodeStruct False contextFields v ([], [])) of
        None \<Rightarrow> []
      | Some (pane, focused) \<Rightarrow> if pane \<noteq> [] then pane else focused)"

definition managerTargetPane :: "'v bridgeEnv \<Rightarrow> string" where
  "managerTargetPane E = orDefault (beGetenv E ''SANDHERD_TARGET_PANE_ID'') (actionTargetPane E)"

section \<open>The client of the API\<close>

record APIClient =
  acBaseURL :: gatewayURL
  acTokenFile :: string

definition NewClient :: "'v bridgeEnv \<Rightarrow> BridgeConfig \<Rightarrow> bridgeError + APIClient" where
  "NewClient E c =
     (case ValidateConfig E c of
        Some e \<Rightarrow> Inl (Fault e)
      | None \<Rightarrow>
          (case beURLParse E (bcBaseURL c) of
             None \<Rightarrow> Inl (Fault [])
           | Some u \<Rightarrow> Inr \<lparr>acBaseURL = u, acTokenFile = bcTokenFile c\<rparr>))"

definition BaseURL :: "'v bridgeEnv \<Rightarrow> APIClient \<Rightarrow> string" where
  "BaseURL E api = trimSuffix (beURLText E (acBaseURL api)) ''/''"

definition zeroAgent :: Agent where
  "zeroAgent = \<lparr>agAPIVersion = [], agID = [], agName = [], agOwner = [], agGeneration = 0, agRuntimeGeneration = 0, agResourceVersion = [],
     agSpec = zeroSpec, agStatus = zeroStatus, agDesiredState = [], agCreatedAt = zeroTime, agUpdatedAt = zeroTime\<rparr>"

definition agentFields :: "codec \<Rightarrow> Agent fields" where
  "agentFields cd =
     [(''apiVersion'', setField decString (\<lambda>x r. r\<lparr>agAPIVersion := x\<rparr>)),
      (''id'', setField decString (\<lambda>x r. r\<lparr>agID := x\<rparr>)),
      (''name'', setField decString (\<lambda>x r. r\<lparr>agName := x\<rparr>)),
      (''owner'', setField decString (\<lambda>x r. r\<lparr>agOwner := x\<rparr>)),
      (''generation'', setField decInt64 (\<lambda>x r. r\<lparr>agGeneration := x\<rparr>)),
      (''runtimeGeneration'', setField decInt64 (\<lambda>x r. r\<lparr>agRuntimeGeneration := x\<rparr>)),
      (''spec'', setStruct False (specFields False) agSpec (\<lambda>x r. r\<lparr>agSpec := x\<rparr>)),
      (''status'', setStruct False (statusFields cd) agStatus (\<lambda>x r. r\<lparr>agStatus := x\<rparr>)),
      (''createdAt'', setField (decTime cd) (\<lambda>x r. r\<lparr>agCreatedAt := x\<rparr>)),
      (''updatedAt'', setField (decTime cd) (\<lambda>x r. r\<lparr>agUpdatedAt := x\<rparr>))]"

fun setItems :: "codec \<Rightarrow> AgentList setter" where
  "setItems cd JNull r = Some (r\<lparr>alItems := []\<rparr>)"
| "setItems cd (JArr vs) r =
     map_option (\<lambda>as. r\<lparr>alItems := as\<rparr>) (those (map (\<lambda>v. decodeStruct False (agentFields cd) v zeroAgent) vs))"
| "setItems cd _ r = None"

definition agentListFields :: "codec \<Rightarrow> AgentList fields" where
  "agentListFields cd = [(''items'', setItems cd), (''nextCursor'', setField decString (\<lambda>x r. r\<lparr>alNextCursor := x\<rparr>))]"

definition apiErrorFields :: "APIError fields" where
  "apiErrorFields =
     [(''code'', setField decString (\<lambda>x r. r\<lparr>apCode := x\<rparr>)), (''message'', setField decString (\<lambda>x r. r\<lparr>apMessage := x\<rparr>)),
      (''requestId'', setField decString (\<lambda>x r. r\<lparr>apRequestID := x\<rparr>)), (''retryable'', setField decBool (\<lambda>x r. r\<lparr>apRetryable := x\<rparr>))]"

definition limitedDecode :: "'v bridgeEnv \<Rightarrow> nat \<Rightarrow> 'a fields \<Rightarrow> 'a \<Rightarrow> string \<Rightarrow> 'a option" where
  "limitedDecode E limit fs zero body =
     (case beScanner E (take limit body) of None \<Rightarrow> None | Some (v, _) \<Rightarrow> decodeStruct False fs v zero)"

definition decodeAPIError :: "'v bridgeEnv \<Rightarrow> clientResponse \<Rightarrow> APIError" where
  "decodeAPIError E r =
     (let zero = \<lparr>apStatus = csStatus r, apCode = [], apMessage = [], apRequestID = [], apRetryable = False\<rparr>;
          plainError = \<lparr>apStatus = csStatus r, apCode = ''http_error'', apMessage = beStatusText E (csStatus r), apRequestID = [], apRetryable = False\<rparr> in
      case limitedDecode E (1024 * 1024) [(''error'', setStruct False apiErrorFields (\<lambda>x. x) (\<lambda>x r. x))] zero (csBody r) of
        None \<Rightarrow> plainError
      | Some e \<Rightarrow> if apCode e = [] then plainError else e)"

definition AuthorizationHeader :: "'v bridgeEnv \<Rightarrow> APIClient \<Rightarrow> ('v, string) rprog" where
  "AuthorizationHeader E api =
     attempt (wrapped (called (File (ReadFile (cleanPath (acTokenFile api)))) (beReadFile E (cleanPath (acTokenFile api))))
         (\<lambda>e. Fault (''read Sandherd credential: '' @ osErrorText e))) (\<lambda>contents.
       let token = trimSpace contents in
       if length token < 16 then failed (Fault ''Sandherd credential must contain at least 16 non-whitespace bytes'')
       else okay (''Bearer '' @ token))"

definition endpointURL :: "gatewayURL \<Rightarrow> string \<Rightarrow> gatewayURL" where
  "endpointURL base endpoint =
     (let u = base\<lparr>urlPath := trimSuffix (urlPath base) ''/'' @ hd (splitOn (CHR ''?'') endpoint)\<rparr> in
      case cutAt (CHR ''?'') endpoint of Some (_, query) \<Rightarrow> u\<lparr>urlRawQuery := query\<rparr> | None \<Rightarrow> u)"

definition requestOf :: "string \<Rightarrow> gatewayURL \<Rightarrow> string \<Rightarrow> string \<Rightarrow> json option \<Rightarrow> (json \<Rightarrow> string) \<Rightarrow> (string \<times> string) list \<Rightarrow> clientRequest" where
  "requestOf meth url authorization rid body print headers =
     \<lparr>cqMethod = meth, cqURL = url,
      cqHeaders = [(''Authorization'', authorization), (''Accept'', ''application/json''), (''X-Request-ID'', rid)] @
        (if body = None then [] else [(''Content-Type'', ''application/json'')]) @ headers,
      cqBody = map_option print body\<rparr>"

definition doRequest ::
  "'v bridgeEnv \<Rightarrow> APIClient \<Rightarrow> string \<Rightarrow> string \<Rightarrow> json option \<Rightarrow> 'a fields \<Rightarrow> 'a \<Rightarrow> (string \<times> string) list \<Rightarrow> ('v, 'a) rprog" where
  "doRequest E api meth endpoint body fs zero headers =
     (let t = beURLText E (endpointURL (acBaseURL api) endpoint) in
      case beURLParse E t of
        None \<Rightarrow> failed (Fault (beURLError E t))
      | Some url \<Rightarrow>
          attempt (AuthorizationHeader E api) (\<lambda>authorization. do {
            rid \<leftarrow> asked (beNewID E);
            let req = requestOf meth url authorization rid body (bePrint E) headers;
            attempt (wrapped (called (HTTP req) (beHTTP E req)) Fault) (\<lambda>response.
              if csStatus response < 200 \<or> 300 \<le> csStatus response then failed (Api (decodeAPIError E response))
              else if csStatus response = 204 then okay zero
              else case limitedDecode E (4 * 1024 * 1024) fs zero (csBody response) of
                None \<Rightarrow> failed (Fault (''decode Sandherd response: '' @ beJSONError E (csBody response)))
              | Some x \<Rightarrow> okay x) }))"

definition agentPath :: "'v bridgeEnv \<Rightarrow> string \<Rightarrow> string" where
  "agentPath E i = ''/v1alpha1/agents/'' @ bePathEscape E i"

definition APICreate :: "'v bridgeEnv \<Rightarrow> APIClient \<Rightarrow> CreateRequest \<Rightarrow> ('v, Agent) rprog" where
  "APICreate E api request = do {
     key \<leftarrow> asked (beNewID E);
     doRequest E api ''POST'' ''/v1alpha1/agents'' (Some (requestJson request)) (agentFields (beCodec E)) zeroAgent [(''Idempotency-Key'', key)] }"

definition APIList :: "'v bridgeEnv \<Rightarrow> APIClient \<Rightarrow> ('v, AgentList) rprog" where
  "APIList E api =
     doRequest E api ''GET'' ''/v1alpha1/agents?limit=200'' None (agentListFields (beCodec E)) \<lparr>alItems = [], alNextCursor = []\<rparr> []"

definition APIGet :: "'v bridgeEnv \<Rightarrow> APIClient \<Rightarrow> string \<Rightarrow> ('v, Agent) rprog" where
  "APIGet E api i = doRequest E api ''GET'' (agentPath E i) None (agentFields (beCodec E)) zeroAgent []"

definition apiMutate :: "'v bridgeEnv \<Rightarrow> APIClient \<Rightarrow> string \<Rightarrow> string \<Rightarrow> string \<Rightarrow> ('v, Agent) rprog" where
  "apiMutate E api i suff meth = doRequest E api meth (agentPath E i @ suff) None (agentFields (beCodec E)) zeroAgent []"

definition APIStop :: "'v bridgeEnv \<Rightarrow> APIClient \<Rightarrow> string \<Rightarrow> ('v, Agent) rprog" where
  "APIStop E api i = apiMutate E api i '':stop'' ''POST''"

definition APIResume :: "'v bridgeEnv \<Rightarrow> APIClient \<Rightarrow> string \<Rightarrow> ('v, Agent) rprog" where
  "APIResume E api i = apiMutate E api i '':resume'' ''POST''"

definition APIDelete :: "'v bridgeEnv \<Rightarrow> APIClient \<Rightarrow> string \<Rightarrow> ('v, Agent) rprog" where
  "APIDelete E api i = apiMutate E api i [] ''DELETE''"

definition bridgeTerminalURL :: "'v bridgeEnv \<Rightarrow> APIClient \<Rightarrow> string \<Rightarrow> gatewayURL" where
  "bridgeTerminalURL E api i =
     (let u = acBaseURL api in
      u\<lparr>urlScheme := (if urlScheme u = ''https'' then ''wss'' else ''ws''),
        urlPath := joinPath (urlPath u) (agentPath E i @ ''/terminal''), urlRawQuery := []\<rparr>)"

section \<open>Starting\<close>

definition loadRuntime :: "'v bridgeEnv \<Rightarrow> ('v, BridgeConfig \<times> APIClient \<times> StateStore) rprog" where
  "loadRuntime E =
     attempt (LoadConfig E) (\<lambda>c.
     case NewClient E c of
       Inl e \<Rightarrow> failed e
     | Inr api \<Rightarrow>
         (case StateDirectory E of
            Inl e \<Rightarrow> failed e
          | Inr d \<Rightarrow> attempt (NewStateStore E d) (\<lambda>st. okay (c, api, st))))"

end
