(* ===== verification/Bridge_Manager.thy ===== *)
theory Bridge_Manager
  imports Bridge_Client
begin

text \<open>The menu with which a user manages agents, \<^verbatim>\<open>herdrbridge/manager.go\<close>.\<close>

record Manager =
  mgConfig :: BridgeConfig
  mgAPI :: APIClient
  mgStore :: StateStore

definition readLine :: "'v bridgeEnv \<Rightarrow> ('v, string) rprog" where
  "readLine E = do {
     r \<leftarrow> asked (beReadLine E);
     let line = trimSpace (snd r);
     case fst r of
       Some e \<Rightarrow> if snd r = [] then failed (Io e) else do { _ \<leftarrow> effect (ReadLine line, True) (\<lambda>w. ((), w)); okay line }
     | None \<Rightarrow> do { _ \<leftarrow> effect (ReadLine line, True) (\<lambda>w. ((), w)); okay line } }"

definition println' :: "string \<Rightarrow> ('v, unit) uprog" where
  "println' t = shown (t @ [CHR 0x0A])"

definition ellipsis :: string where "ellipsis = [CHR 0xE2, CHR 0x80, CHR 0xA6]"

text \<open>\<open>%-24s\<close>.\<close>

definition padded :: "string \<Rightarrow> string" where
  "padded s = s @ replicate (24 - length (runeList s)) (CHR '' '')"

fun showAll :: "string list \<Rightarrow> ('v, unit) uprog" where
  "showAll [] = ret ()"
| "showAll (t # ts) = do { _ \<leftarrow> shown t; showAll ts }"

definition menu :: "string list" where
  "menu = map (\<lambda>t. t @ [CHR 0x0A])
     [''Sandherd'', ''  1. Create agent'', ''  2. Attach agent'', ''  3. Stop agent'', ''  4. Resume agent'', ''  5. Focus agent pane'',
      ''  6. Take over agent control'', ''  7. Delete agent''] @ [''Choose: '']"

definition menuActions :: "(string \<times> string) list" where
  "menuActions = [(''1'', ''create''), (''2'', ''attach''), (''3'', ''stop''), (''4'', ''resume''), (''5'', ''focus''), (''6'', ''takeover''), (''7'', ''delete'')]"

definition chooseAction :: "'v bridgeEnv \<Rightarrow> ('v, string) rprog" where
  "chooseAction E = do {
     _ \<leftarrow> showAll menu;
     attempt (readLine E) (\<lambda>selection.
       case map_of menuActions selection of
         None \<Rightarrow> failed (Fault ''invalid action selection'')
       | Some action \<Rightarrow> okay action) }"

definition applicableAction :: "string \<Rightarrow> State \<Rightarrow> bool" where
  "applicableAction action st =
     (if action = ''stop'' then CanStop st \<and> st \<noteq> StateStopped
      else if action = ''resume'' then CanResume st \<and> st = StateStopped
      else if action = ''delete'' then st \<noteq> StateDeleting
      else st \<noteq> StateDeleting \<and> st \<noteq> StateFailed)"

definition agentLine :: "nat \<Rightarrow> Agent \<Rightarrow> string" where
  "agentLine k a = ''  '' @ digits (k + 1) @ ''. '' @ padded (agName a) @ '' '' @ stState (agStatus a) @ [CHR 0x0A]"

definition chooseAgent :: "'v bridgeEnv \<Rightarrow> Manager \<Rightarrow> string \<Rightarrow> ('v, Agent) rprog" where
  "chooseAgent E m action =
     attempt (APIList E (mgAPI m)) (\<lambda>l.
       let agents = filter (\<lambda>a. applicableAction action (stState (agStatus a))) (alItems l) in
       if agents = [] then failed (Fault (''no agents can '' @ action @ '' right now''))
       else do {
         _ \<leftarrow> shown (''Agents available to '' @ action @ '':'' @ [CHR 0x0A]);
         _ \<leftarrow> showAll (map (\<lambda>k. agentLine k (agents ! k)) [0..<length agents]);
         _ \<leftarrow> shown ''Choose: '';
         attempt (readLine E) (\<lambda>selection.
           case atoi selection of
             None \<Rightarrow> failed (Fault ''invalid agent selection'')
           | Some k \<Rightarrow> if k < 1 \<or> int (length agents) < k then failed (Fault ''invalid agent selection'') else okay (agents ! nat (k - 1))) })"

text \<open>\<open>stateFor\<close>: an unreadable state is replaced by a new one.\<close>

definition stateFor :: "'v bridgeEnv \<Rightarrow> Manager \<Rightarrow> Agent \<Rightarrow> ('v, AgentState) uprog" where
  "stateFor E m a = do {
     r \<leftarrow> Load E (mgStore m) (agID a);
     let s = (case r of Inl _ \<Rightarrow> newAgentState (agID a) (agName a) (BaseURL E (mgAPI m)) | Inr s \<Rightarrow> s);
     ret (s\<lparr>asName := agName a, asBaseURL := BaseURL E (mgAPI m)\<rparr>) }"

definition createNew :: "'v bridgeEnv \<Rightarrow> Manager \<Rightarrow> ('v, unit) rprog" where
  "createNew E m = do {
     _ \<leftarrow> shown ''New agent name (lowercase letters, numbers, hyphens): '';
     attempt (readLine E) (\<lambda>name.
       if \<not> ValidName name then failed (Fault ''agent name must be a DNS label between 1 and 63 characters'')
       else attempt (APICreate E (mgAPI m) (BridgeCreateRequest (mgConfig m) name)) (\<lambda>a. do {
         s \<leftarrow> stateFor E m a;
         attempt (Save E (mgStore m) s) (\<lambda>_. do {
           _ \<leftarrow> shown (''Created '' @ agName a @ '' ('' @ agID a @ ''). Opening its pane'' @ ellipsis @ [CHR 0x0A]);
           OpenAgent E (agID a) (managerTargetPane E) False }) })) }"

section \<open>The actions\<close>

definition attachAgent :: "'v bridgeEnv \<Rightarrow> Manager \<Rightarrow> string \<Rightarrow> Agent \<Rightarrow> AgentState \<Rightarrow> ('v, unit) rprog" where
  "attachAgent E m action a s =
     attempt (if stState (agStatus a) = StateStopped
              then do { _ \<leftarrow> println' (''Resuming agent before attachment'' @ ellipsis);
                        attempt (APIResume E (mgAPI m) (agID a)) (\<lambda>_. okay ()) }
              else okay ()) (\<lambda>_.
     attempt (Save E (mgStore m) s) (\<lambda>_. do {
       focused \<leftarrow> (if action = ''attach'' \<and> asPaneID s \<noteq> [] then do { r \<leftarrow> FocusPane E (asPaneID s); ret (isOK r) } else ret False);
       if focused then do { _ \<leftarrow> println' ''Focused the existing agent pane.''; okay () }
       else do {
         _ \<leftarrow> println' (''Opening agent pane'' @ ellipsis);
         OpenAgent E (agID a) (managerTargetPane E) (action = ''takeover'') } }))"

definition focusAgent :: "'v bridgeEnv \<Rightarrow> Agent \<Rightarrow> AgentState \<Rightarrow> ('v, unit) rprog" where
  "focusAgent E a s = do {
     r \<leftarrow> FocusPane E (asPaneID s);
     if isOK r then okay ()
     else do {
       _ \<leftarrow> println' (''The remembered pane is gone; opening a replacement'' @ ellipsis);
       OpenAgent E (agID a) (managerTargetPane E) False } }"

definition deleteAgent :: "'v bridgeEnv \<Rightarrow> Manager \<Rightarrow> Agent \<Rightarrow> AgentState \<Rightarrow> ('v, unit) rprog" where
  "deleteAgent E m a s = do {
     _ \<leftarrow> shown (''Delete '' @ agName a @ '' permanently? Type its name to confirm: '');
     attempt (readLine E) (\<lambda>confirmation.
       if confirmation \<noteq> agName a then failed (Fault ''delete cancelled'')
       else attempt (APIDelete E (mgAPI m) (agID a)) (\<lambda>_. do {
         _ \<leftarrow> ClosePane E (asPaneID s);
         _ \<leftarrow> RemoveState E (mgStore m) (agID a);
         _ \<leftarrow> println' (''Deletion requested for '' @ agName a @ ''.'');
         okay () })) }"

definition stopAgent :: "'v bridgeEnv \<Rightarrow> Manager \<Rightarrow> Agent \<Rightarrow> ('v, unit) rprog" where
  "stopAgent E m a =
     attempt (APIStop E (mgAPI m) (agID a)) (\<lambda>u. do {
       _ \<leftarrow> println' (agName u @ '' is '' @ stState (agStatus u) @ ''. The remote agent remains available to resume.'');
       okay () })"

definition resumeAgent :: "'v bridgeEnv \<Rightarrow> Manager \<Rightarrow> Agent \<Rightarrow> ('v, unit) rprog" where
  "resumeAgent E m a =
     attempt (APIResume E (mgAPI m) (agID a)) (\<lambda>u. do {
       _ \<leftarrow> println' (agName u @ '' is '' @ stState (agStatus u) @ ''.'');
       okay () })"

definition agentActions :: "string list" where
  "agentActions = [''attach'', ''takeover'', ''stop'', ''resume'', ''focus'', ''delete'']"

definition perform :: "'v bridgeEnv \<Rightarrow> Manager \<Rightarrow> string \<Rightarrow> Agent \<Rightarrow> AgentState \<Rightarrow> ('v, unit) rprog" where
  "perform E m action a s =
     (if action = ''attach'' \<or> action = ''takeover'' then attachAgent E m action a s
      else if action = ''focus'' then focusAgent E a s
      else if action = ''stop'' then stopAgent E m a
      else if action = ''resume'' then resumeAgent E m a
      else if action = ''delete'' then deleteAgent E m a s
      else okay ())"

definition RunManager :: "'v bridgeEnv \<Rightarrow> Manager \<Rightarrow> string \<Rightarrow> ('v, unit) rprog" where
  "RunManager E m asked' =
     attempt (if asked' = [] \<or> asked' = ''manage'' then chooseAction E else okay asked') (\<lambda>action.
       if action = ''create'' then createNew E m
       else if action \<notin> set agentActions then failed (Fault (''unsupported manager action '' @ goQuote (bePrintable E) action))
       else attempt (chooseAgent E m action) (\<lambda>a. do {
         s \<leftarrow> stateFor E m a;
         perform E m action a s }))"

end
