(* ===== verification/Bridge_Frames.thy ===== *)
theory Bridge_Frames
  imports Bridge_Client
begin

text \<open>
  Frames on the wire. \<open>frameJson\<close> is what \<^verbatim>\<open>json.Marshal\<close> makes of the \<open>Frame\<close> of \<^verbatim>\<open>runner/frame.go\<close>; the
  bridge marshals and unmarshals it without the checks of the runner's \<open>decodeFrame\<close>.
\<close>

section \<open>Printing\<close>

definition sizeJson :: "TerminalSize \<Rightarrow> json" where
  "sizeJson s =
     JObj ([(''columns'', JNum (digits (unat (Columns s)))), (''rows'', JNum (digits (unat (Rows s))))] @
       (if PixelWidth s = 0 then [] else [(''pixelWidth'', JNum (digits (unat (PixelWidth s))))]) @
       (if PixelHeight s = 0 then [] else [(''pixelHeight'', JNum (digits (unat (PixelHeight s))))]))"

definition omitFalse :: "string \<Rightarrow> bool \<Rightarrow> (string \<times> json) list" where
  "omitFalse k b = (if b then [(k, JBool True)] else [])"

abbreviation omitSeq :: "string \<Rightarrow> uint64 option \<Rightarrow> (string \<times> json) list" where
  "omitSeq k \<equiv> omitNil k (\<lambda>n. JNum (digits (unat n)))"

definition bytesText :: "byte list \<Rightarrow> string" where
  "bytesText bs = encodeStd (map (\<lambda>b. char_of (unat b)) bs)"

definition frameMembers :: "Frame \<Rightarrow> (string \<times> json) list" where
  "frameMembers f =
     [(''type'', JStr (frType f))] @
     omitEmpty ''protocolVersion'' (frProtocolVersion f) @ omitEmpty ''role'' (frRole f) @
     omitSeq ''afterSequence'' (frAfterSequence f) @ omitFalse ''takeover'' (frTakeover f) @
     omitNil ''terminalSize'' sizeJson (frTerminalSize f) @
     omitEmpty ''attachmentId'' (frAttachmentID f) @ omitEmpty ''agentId'' (frAgentID f) @ omitEmpty ''leaseId'' (frLeaseID f) @
     omitEmpty ''runnerGeneration'' (frRunnerGeneration f) @
     omitSeq ''earliestSequence'' (frEarliestSequence f) @ omitSeq ''latestSequence'' (frLatestSequence f) @
     omitEmpty ''processState'' (frProcessState f) @ omitSeq ''sequence'' (frSequence f) @
     (if frData f = [] then [] else [(''data'', JStr (bytesText (frData f)))]) @
     omitSeq ''requestedAfterSequence'' (frRequestedAfterSequence f) @ omitEmpty ''reason'' (frReason f) @
     omitNil ''exitCode'' (\<lambda>i. JNum (formatInt i)) (frExitCode f) @
     omitEmpty ''signal'' (frSignal f) @ omitEmpty ''finishedAt'' (frFinishedAt f) @ omitEmpty ''code'' (frCode f) @
     omitEmpty ''message'' (frMessage f) @ omitEmpty ''requestId'' (frRequestID f) @ omitFalse ''retryable'' (frRetryable f) @
     omitEmpty ''nonce'' (frNonce f)"

definition frameJson :: "Frame \<Rightarrow> json" where
  "frameJson f = JObj (frameMembers f)"

text \<open>\<open>json.Unmarshal\<close> into a frame: unknown fields are ignored, inside the terminal size too.\<close>

fun setLooseSize :: "Frame setter" where
  "setLooseSize JNull r = Some (r\<lparr>frTerminalSize := None\<rparr>)"
| "setLooseSize v r =
     map_option (\<lambda>s. r\<lparr>frTerminalSize := Some s\<rparr>)
       (decodeStruct False sizeFields v (case frTerminalSize r of None \<Rightarrow> zeroSize | Some s \<Rightarrow> s))"

definition looseFrameFields :: "Frame fields" where
  "looseFrameFields = map (\<lambda>(k, f). if k = ''terminalSize'' then (k, setLooseSize) else (k, f)) frameFields"

text \<open>\<open>readTerminalFrame\<close> on a message that was received: whether it is text, and its payload.\<close>

definition parseTerminalFrame :: "scanner \<Rightarrow> bool \<Rightarrow> string \<Rightarrow> Frame result" where
  "parseTerminalFrame parse isText message =
     (if \<not> isText then Inl ''terminal server sent a non-text frame''
      else case (case unmarshalText parse message of None \<Rightarrow> None | Some v \<Rightarrow> decodeStruct False looseFrameFields v zeroFrame) of
        None \<Rightarrow> Inl ''terminal server sent invalid JSON''
      | Some f \<Rightarrow> if frType f = [] then Inl ''terminal server sent invalid JSON'' else Inr f)"

section \<open>Round trips\<close>

lemma decUint_digits: "n < 2 ^ bits \<Longrightarrow> decUint bits (JNum (digits n)) = Some (Some n)"
  using digits_read [of n] by (simp add: parseUintLit_def)

lemma decUint_word:
  fixes w :: "'a::len word"
  shows "decUint LENGTH('a) (JNum (digits (unat w))) = Some (Some (unat w))"
  by (rule decUint_digits) (rule unsigned_less)

lemma bytes_roundtrip: "decBytes (JStr (bytesText bs)) = Some bs"
proof -
  have "(of_char (char_of (unat (b :: byte)) :: char) :: nat) = unat b" for b
    using unsigned_less [of b, where ?'a = nat] by simp
  then have "map (\<lambda>c. word_of_nat (of_char (c :: char))) (map (\<lambda>b. char_of (unat b)) bs) = bs"
    by (simp add: comp_def)
  then show ?thesis by (simp add: bytesText_def decode_encodeStd comp_def)
qed

lemma size_roundtrip: "decodeStruct strict sizeFields (sizeJson s) zeroSize = Some s"
proof -
  have n: "decUint 16 (JNum (digits (unat w))) = Some (Some (unat w))" for w :: uint16
    using decUint_word [of w] by simp
  show ?thesis
    by (cases s) (simp add: sizeJson_def sizeFields_def zeroSize_def findField_exact setField_def n del: decUint.simps)
qed

text \<open>One member at a time; a member that is left out had its zero value already.\<close>

lemma member_string:
  "findField fs k = Some (setField decString upd) \<Longrightarrow> upd [] r = r \<Longrightarrow> decodeMembers st fs (omitEmpty k v) r = Some (upd v r)"
  by (simp add: decode_omitEmpty)

lemma member_seq:
  fixes v :: "uint64 option"
  assumes "findField fs k = Some (setPointer (decUint 64) g)" "g None r = r"
  shows "decodeMembers st fs (omitSeq k v) r = Some (g (map_option unat v) r)"
proof (cases v)
  case None
  then show ?thesis using assms(2) by (simp add: omitNil_def)
next
  case (Some w)
  have "decUint 64 (JNum (digits (unat w))) = Some (Some (unat w))" using decUint_word [of w] by simp
  then show ?thesis using Some assms(1) by (simp add: omitNil_def setPointer_def del: decUint.simps)
qed

lemma member_bool:
  "findField fs k = Some (setField decBool upd) \<Longrightarrow> upd False r = r \<Longrightarrow> decodeMembers st fs (omitFalse k v) r = Some (upd v r)"
  by (cases v) (simp_all add: omitFalse_def setField_def)

lemma member_data:
  "findField fs k = Some (setBytes upd) \<Longrightarrow> upd [] r = r \<Longrightarrow>
     decodeMembers st fs (if v = [] then [] else [(k, JStr (bytesText v))]) r = Some (upd v r)"
  by (simp add: setBytes_def bytes_roundtrip del: decBytes.simps)

lemma member_int:
  assumes "findField fs k = Some (setPointer decInt64 upd)" "upd None r = r" "\<forall>i. v = Some i \<longrightarrow> - (2 ^ 63) \<le> i \<and> i < 2 ^ 63"
  shows "decodeMembers st fs (omitNil k (\<lambda>i. JNum (formatInt i)) v) r = Some (upd v r)"
  using assms parseIntLit_formatInt [of "- (2 ^ 63)" _ "2 ^ 63 - 1"] by (cases v) (simp_all add: omitNil_def setPointer_def)

definition sizeSetter :: "Frame setter \<Rightarrow> bool" where
  "sizeSetter f \<longleftrightarrow> f = setSize \<or> f = setLooseSize"

lemma member_size:
  assumes "findField fs k = Some f" "sizeSetter f" "frTerminalSize r = None"
  shows "decodeMembers st fs (omitNil k sizeJson v) r = Some (r\<lparr>frTerminalSize := v\<rparr>)"
proof (cases v)
  case None
  then show ?thesis using assms(3) by (cases r) (simp add: omitNil_def)
next
  case (Some s)
  obtain ms where ms: "sizeJson s = JObj ms" by (simp add: sizeJson_def)
  then show ?thesis
    using Some assms size_roundtrip [of True s] size_roundtrip [of False s]
    by (auto simp: omitNil_def sizeSetter_def simp del: decodeStruct.simps)
qed

lemma frameFields_find:
  "findField frameFields ''attachmentId'' = Some (setStr (\<lambda>x r. r\<lparr>frAttachmentID := x\<rparr>))"
  "findField frameFields ''agentId'' = Some (setStr (\<lambda>x r. r\<lparr>frAgentID := x\<rparr>))"
  "findField frameFields ''runnerGeneration'' = Some (setStr (\<lambda>x r. r\<lparr>frRunnerGeneration := x\<rparr>))"
  "findField frameFields ''earliestSequence'' = Some (setSeq (\<lambda>x r. r\<lparr>frEarliestSequence := x\<rparr>))"
  "findField frameFields ''latestSequence'' = Some (setSeq (\<lambda>x r. r\<lparr>frLatestSequence := x\<rparr>))"
  "findField frameFields ''processState'' = Some (setStr (\<lambda>x r. r\<lparr>frProcessState := x\<rparr>))"
  "findField frameFields ''requestedAfterSequence'' = Some (setSeq (\<lambda>x r. r\<lparr>frRequestedAfterSequence := x\<rparr>))"
  "findField frameFields ''reason'' = Some (setStr (\<lambda>x r. r\<lparr>frReason := x\<rparr>))"
  "findField frameFields ''exitCode'' = Some (setPointer decInt64 (\<lambda>x r. r\<lparr>frExitCode := x\<rparr>))"
  "findField frameFields ''signal'' = Some (setStr (\<lambda>x r. r\<lparr>frSignal := x\<rparr>))"
  "findField frameFields ''finishedAt'' = Some (setStr (\<lambda>x r. r\<lparr>frFinishedAt := x\<rparr>))"
  "findField frameFields ''code'' = Some (setStr (\<lambda>x r. r\<lparr>frCode := x\<rparr>))"
  "findField frameFields ''message'' = Some (setStr (\<lambda>x r. r\<lparr>frMessage := x\<rparr>))"
  "findField frameFields ''requestId'' = Some (setStr (\<lambda>x r. r\<lparr>frRequestID := x\<rparr>))"
  "findField frameFields ''retryable'' = Some (setField decBool (\<lambda>x r. r\<lparr>frRetryable := x\<rparr>))"
  by (simp_all add: findField_def frameFields_def)

lemmas strict_find = frameFields_find clientField_setters

lemma map_of_loose: "map_of looseFrameFields k =
    (if k = ''terminalSize'' then Some setLooseSize else map_of frameFields k)"
  by (simp add: looseFrameFields_def frameFields_def)

lemma loose_find:
  "k \<noteq> ''terminalSize'' \<Longrightarrow> map_of frameFields k = Some f \<Longrightarrow> findField looseFrameFields k = Some f"
  "findField looseFrameFields ''terminalSize'' = Some setLooseSize"
  by (simp_all add: findField_def map_of_loose)

definition printable :: "Frame \<Rightarrow> bool" where
  "printable f \<longleftrightarrow> (\<forall>i. frExitCode f = Some i \<longrightarrow> - (2 ^ 63) \<le> i \<and> i < 2 ^ 63)"

lemmas member_steps = member_string member_seq member_bool member_data member_int member_size sizeSetter_def setField_def
  option.map_comp option.map_ident comp_def

lemma frame_roundtrip:
  assumes "printable f"
  shows "decodeStruct strict frameFields (frameJson f) zeroFrame = Some f"
  unfolding frameJson_def frameMembers_def decodeStruct.simps(1) decodeMembers_append zeroFrame_def
  using assms by (simp add: member_steps strict_find printable_def)

lemma frame_roundtrip_loose:
  assumes "printable f"
  shows "decodeStruct strict looseFrameFields (frameJson f) zeroFrame = Some f"
proof -
  have find: "findField looseFrameFields k = Some g" if "findField frameFields k = Some g" "k \<noteq> ''terminalSize''" "k \<in> fst ` set frameFields" for k g
    using that by (auto simp: findField_def map_of_loose map_of_eq_None_iff split: option.splits)
  have in_fields: "k \<in> fst ` set frameFields \<longleftrightarrow> k \<in> {''type'', ''protocolVersion'', ''role'', ''afterSequence'', ''takeover'', ''terminalSize'',
      ''attachmentId'', ''agentId'', ''leaseId'', ''runnerGeneration'', ''earliestSequence'', ''latestSequence'', ''processState'', ''sequence'', ''data'',
      ''requestedAfterSequence'', ''reason'', ''exitCode'', ''signal'', ''finishedAt'', ''code'', ''message'', ''requestId'', ''retryable'', ''nonce''}" for k
    by (auto simp: frameFields_def)
  note finds = strict_find [THEN find, unfolded in_fields, simplified] loose_find(2)
  show ?thesis
    unfolding frameJson_def frameMembers_def decodeStruct.simps(1) decodeMembers_append zeroFrame_def
    using assms by (simp add: member_steps finds printable_def)
qed

end
