(* ===== verification/Bridge_Terminal.thy ===== *)
theory Bridge_Terminal
  imports Bridge_Frames
begin

text \<open>
  The terminal of an agent in a pane, \<^verbatim>\<open>herdrbridge/terminal.go\<close>. A connection has a loop, a reader and
  a writer, and the bridge reads the keyboard and the size of the window; \<open>connStep\<close> is one step of one
  of them, on an event that a schedule chooses. \<open>runConnection\<close> is the handshake followed by such steps,
  \<open>reconnecting\<close> the loop over connections.
\<close>

section \<open>The bridge\<close>

text \<open>
  \<open>teDial\<close> yields the negotiated subprotocol, or an error with the response if there was one;
  \<open>teReceive\<close> whether a message is text, and its payload; \<open>teWindow\<close> the size if input is a terminal that
  tells it; \<open>teRaw\<close> the error of raw mode; \<open>teDone\<close> whether the context has ended; \<open>teSleep\<close> waits
  and tells whether the context ended first; \<open>teSchedule\<close> chooses the steps of a connection.
\<close>

datatype connEvent =
    ReaderReads
  | ReaderOffers
  | LoopReadError
  | LoopWriteError
  | LoopIdle
  | LoopFrame
  | LoopDone
  | WriterInput
  | WriterResize
  | WriterCommand
  | Types "byte list"
  | TypesOffers
  | Resizes

record 'v terminalEnv =
  teDial :: "gatewayURL \<Rightarrow> (string \<times> string) list \<Rightarrow> 'v \<Rightarrow> ((goerror \<times> clientResponse option) + string) \<times> 'v"
  teSend :: "string \<Rightarrow> 'v \<Rightarrow> (goerror + unit) \<times> 'v"
  teReceive :: "'v \<Rightarrow> (goerror + bool \<times> string) \<times> 'v"
  teOutput :: "byte list \<Rightarrow> 'v \<Rightarrow> (goerror + unit) \<times> 'v"
  teWindow :: "'v \<Rightarrow> (int \<times> int) option \<times> 'v"
  teRaw :: "'v \<Rightarrow> goerror option \<times> 'v"
  teDone :: "'v \<Rightarrow> bool \<times> 'v"
  teSleep :: "duration \<Rightarrow> 'v \<Rightarrow> bool \<times> 'v"
  teSchedule :: "'v \<Rightarrow> connEvent list \<times> 'v"

record Bridge =
  brConfig :: BridgeConfig
  brAPI :: APIClient
  brStore :: StateStore
  brAgentID :: string
  brPaneID :: string
  brTakeover :: bool

definition NewBridge :: "BridgeConfig \<Rightarrow> APIClient \<Rightarrow> StateStore \<Rightarrow> string \<Rightarrow> string \<Rightarrow> bool \<Rightarrow> Bridge result" where
  "NewBridge c api st i pane taking =
     (if \<not> validStateID i then Inl ''API, state, Herdr, valid agent ID, and terminal streams are required''
      else Inr \<lparr>brConfig = c, brAPI = api, brStore = st, brAgentID = i, brPaneID = pane, brTakeover = taking\<rparr>)"

definition terminalSizeOf :: "(int \<times> int) option \<Rightarrow> TerminalSize" where
  "terminalSizeOf w =
     (let (columns, rows) = (case w of Some (width, height) \<Rightarrow> if 0 < width \<and> 0 < height then (width, height) else (80, 24) | None \<Rightarrow> (80, 24)) in
      zeroSize\<lparr>Columns := word_of_int (min columns 1000), Rows := word_of_int (min rows 1000)\<rparr>)"

definition reported :: "'v bridgeEnv \<Rightarrow> Bridge \<Rightarrow> string \<Rightarrow> string \<Rightarrow> ('v, unit) uprog" where
  "reported E b state message = do { _ \<leftarrow> ReportAgent E (brPaneID b) state message; ret () }"

definition reportAttention :: "'v bridgeEnv \<Rightarrow> Bridge \<Rightarrow> bridgeError \<Rightarrow> ('v, unit) uprog" where
  "reportAttention E b e = do {
     _ \<leftarrow> ReportAgent E (brPaneID b) ''blocked'' ''attention required'';
     _ \<leftarrow> Notify E ''Sandherd needs attention'' (bridgeErrorText e) ''request'';
     ret () }"

definition saved :: "'v bridgeEnv \<Rightarrow> Bridge \<Rightarrow> AgentState \<Rightarrow> ('v, unit) uprog" where
  "saved E b s = do { _ \<leftarrow> Save E (brStore b) s; ret () }"

section \<open>Frames\<close>

definition attachFrame :: "Bridge \<Rightarrow> AgentState \<Rightarrow> TerminalSize \<Rightarrow> Frame" where
  "attachFrame b s dims =
     zeroFrame\<lparr>frType := ''attach'', frProtocolVersion := ProtocolVersion, frRole := ''control'', frAfterSequence := asAfterSequence s,
       frTakeover := brTakeover b, frTerminalSize := Some dims\<rparr>"

definition inputFrame :: "string \<Rightarrow> byte list \<Rightarrow> Frame" where
  "inputFrame lease chunk = zeroFrame\<lparr>frType := ''input'', frLeaseID := lease, frData := chunk\<rparr>"

definition resizeFrame :: "string \<Rightarrow> TerminalSize \<Rightarrow> Frame" where
  "resizeFrame lease dims = zeroFrame\<lparr>frType := ''resize'', frLeaseID := lease, frTerminalSize := Some dims\<rparr>"

definition ackFrame :: "uint64 \<Rightarrow> Frame" where
  "ackFrame n = zeroFrame\<lparr>frType := ''ack'', frSequence := Some n\<rparr>"

definition pongReply :: "string \<Rightarrow> Frame" where
  "pongReply nonce = zeroFrame\<lparr>frType := ''pong'', frNonce := nonce\<rparr>"

definition bridgeProtocolError :: "Frame \<Rightarrow> bridgeError" where
  "bridgeProtocolError f =
     (if frCode f = ''controller_busy'' then Attention ''another pane controls this agent; focus it or reopen with takeover''
      else if frCode f = ''forbidden_role'' then Attention ''this Sandherd credential cannot control the agent''
      else if frCode f = ''unsupported_protocol'' then Attention ''terminal protocol mismatch; upgrade the Sandherd Herdr plugin''
      else Fault (''terminal error '' @ frCode f @ '': '' @ frMessage f @ '' (request '' @ frRequestID f @ '')''))"

definition writeTerminalFrame :: "'v bridgeEnv \<Rightarrow> 'v terminalEnv \<Rightarrow> Frame \<Rightarrow> ('v, unit) rprog" where
  "writeTerminalFrame E T f = wrapped (called (SentFrame f) (teSend T (bePrint E (frameJson f)))) Fault"

definition readTerminalFrame :: "'v bridgeEnv \<Rightarrow> 'v terminalEnv \<Rightarrow> ('v, Frame) rprog" where
  "readTerminalFrame E T = do {
     m \<leftarrow> asked (teReceive T);
     case m of
       Inl e \<Rightarrow> failed (Fault e)
     | Inr (isText, message) \<Rightarrow>
         (case parseTerminalFrame (beScanner E) isText message of
            Inl e \<Rightarrow> failed (Fault e)
          | Inr f \<Rightarrow> do { _ \<leftarrow> effect (GotFrame f, True) (\<lambda>w. ((), w)); okay f }) }"

section \<open>A connection\<close>

datatype readerPhase = Reading | Holding Frame | ReaderDone

text \<open>
  The channels with their capacities: frames (16), commands (32), input (32), sizes (4), and one
  error each from the reader and the writer. \<open>cnResult\<close> is what the loop returned, once it has.
\<close>

record conn =
  cnLease :: string
  cnLoopLease :: string
  cnFrames :: "Frame list"
  cnReader :: readerPhase
  cnReadError :: "bridgeError option"
  cnCommands :: "Frame list"
  cnWriting :: bool
  cnWriteError :: "bridgeError option"
  cnInput :: "byte list list"
  cnTyping :: "byte list option"
  cnSizes :: "TerminalSize list"
  cnState :: AgentState
  cnResult :: "bridgeError option option"

definition queueFrame :: "Frame \<Rightarrow> conn \<Rightarrow> conn" where
  "queueFrame f c = (if length (cnCommands c) < 32 then c\<lparr>cnCommands := cnCommands c @ [f]\<rparr> else c)"

text \<open>\<open>publishSize\<close>: a full channel loses its oldest size.\<close>

definition publishSize :: "TerminalSize \<Rightarrow> conn \<Rightarrow> conn" where
  "publishSize dims c =
     (if length (cnSizes c) < 4 then c\<lparr>cnSizes := cnSizes c @ [dims]\<rparr> else c\<lparr>cnSizes := tl (cnSizes c) @ [dims]\<rparr>)"

definition returns :: "bridgeError option \<Rightarrow> conn \<Rightarrow> conn" where
  "returns r c = c\<lparr>cnResult := Some r\<rparr>"

definition showOutput :: "'v bridgeEnv \<Rightarrow> 'v terminalEnv \<Rightarrow> Bridge \<Rightarrow> Frame \<Rightarrow> conn \<Rightarrow> ('v, conn) uprog" where
  "showOutput E T b f c = do {
     r \<leftarrow> called (Output f) (teOutput T (frData f));
     case r of
       Inl e \<Rightarrow> ret (returns (Some (Fault e)) c)
     | Inr _ \<Rightarrow>
         (case frSequence f of
            None \<Rightarrow> ret c
          | Some n \<Rightarrow> do {
              let s = (cnState c)\<lparr>asAfterSequence := Some n\<rparr>;
              _ \<leftarrow> saved E b s;
              ret (queueFrame (ackFrame n) (c\<lparr>cnState := s\<rparr>)) }) }"

definition gapMessage :: string where
  "gapMessage = [CHR 0x0D, CHR 0x0A] @ ''[sandherd] replay buffer expired; output starts at the earliest available sequence'' @ [CHR 0x0D, CHR 0x0A]"

definition handleError :: "'v bridgeEnv \<Rightarrow> Bridge \<Rightarrow> Frame \<Rightarrow> conn \<Rightarrow> ('v, conn) uprog" where
  "handleError E b f c =
     (if frCode f = ''replay_cursor_invalid''
      then do {
        let s = (cnState c)\<lparr>asAfterSequence := None\<rparr>;
        _ \<leftarrow> saved E b s;
        ret (returns (Some ReplayReset) (c\<lparr>cnState := s\<rparr>)) }
      else ret (returns (Some (bridgeProtocolError f)) c))"

definition handleExit :: "'v bridgeEnv \<Rightarrow> Bridge \<Rightarrow> conn \<Rightarrow> ('v, conn) uprog" where
  "handleExit E b c = do {
     _ \<leftarrow> reported E b ''idle'' ''agent exited'';
     _ \<leftarrow> Notify E (asName (cnState c) @ '' finished'') ''The remote agent process exited.'' ''done'';
     ret c }"

definition handleServerFrame :: "'v bridgeEnv \<Rightarrow> 'v terminalEnv \<Rightarrow> Bridge \<Rightarrow> Frame \<Rightarrow> conn \<Rightarrow> ('v, conn) uprog" where
  "handleServerFrame E T b f c =
     (if frType f = ''attached'' then ret (if frRole f = ''control'' \<and> frLeaseID f \<noteq> [] then c\<lparr>cnLoopLease := frLeaseID f\<rparr> else c)
      else if frType f = ''output'' then showOutput E T b f c
      else if frType f = ''replay_gap'' then do { _ \<leftarrow> shown gapMessage; ret c }
      else if frType f = ''controller_revoked'' then ret (returns (Some (ControllerRevoked (frReason f))) c)
      else if frType f = ''exit'' then handleExit E b c
      else if frType f = ''error'' then handleError E b f c
      else if frType f = ''ping'' then ret (queueFrame (pongReply (frNonce f)) c)
      else if frType f = ''pong'' then ret c
      else ret (returns (Some (Fault (''unsupported terminal frame '' @ goQuote (bePrintable E) (frType f) @ ''; upgrade the plugin''))) c))"

text \<open>The writer has taken a frame; after a failed write it ends, and its error is kept.\<close>

definition writes :: "'v bridgeEnv \<Rightarrow> 'v terminalEnv \<Rightarrow> Frame \<Rightarrow> conn \<Rightarrow> ('v, conn) uprog" where
  "writes E T f c = do {
     r \<leftarrow> writeTerminalFrame E T f;
     ret (case r of
       Inl e \<Rightarrow> c\<lparr>cnWriting := False, cnWriteError := (case cnWriteError c of None \<Rightarrow> Some e | Some e' \<Rightarrow> Some e')\<rparr>
     | Inr _ \<Rightarrow> c) }"

definition readerReads :: "'v bridgeEnv \<Rightarrow> 'v terminalEnv \<Rightarrow> conn \<Rightarrow> ('v, conn) uprog" where
  "readerReads E T c = do {
     r \<leftarrow> readTerminalFrame E T;
     ret (case r of Inl e \<Rightarrow> c\<lparr>cnReader := ReaderDone, cnReadError := Some e\<rparr> | Inr f \<Rightarrow> c\<lparr>cnReader := Holding f\<rparr>) }"

definition loopStep :: "'v bridgeEnv \<Rightarrow> 'v terminalEnv \<Rightarrow> Bridge \<Rightarrow> connEvent \<Rightarrow> conn \<Rightarrow> ('v, conn) uprog" where
  "loopStep E T b ev c =
     (if cnResult c \<noteq> None then ret c
      else case ev of
        LoopReadError \<Rightarrow> ret (case cnReadError c of Some e \<Rightarrow> returns (Some e) c | None \<Rightarrow> c)
      | LoopWriteError \<Rightarrow> ret (case cnWriteError c of Some e \<Rightarrow> returns (Some e) c | None \<Rightarrow> c)
      | LoopIdle \<Rightarrow> do { _ \<leftarrow> reported E b ''idle'' ''ready''; ret c }
      | LoopFrame \<Rightarrow> (case cnFrames c of [] \<Rightarrow> ret c | f # fs \<Rightarrow> handleServerFrame E T b f (c\<lparr>cnFrames := fs\<rparr>))
      | LoopDone \<Rightarrow> do { d \<leftarrow> asked (teDone T); ret (if d then returns None c else c) }
      | _ \<Rightarrow> ret c)"

definition writerStep :: "'v bridgeEnv \<Rightarrow> 'v terminalEnv \<Rightarrow> Bridge \<Rightarrow> connEvent \<Rightarrow> conn \<Rightarrow> ('v, conn) uprog" where
  "writerStep E T b ev c =
     (if \<not> cnWriting c then ret c
      else case ev of
        WriterInput \<Rightarrow> (case cnInput c of [] \<Rightarrow> ret c | chunk # rest \<Rightarrow> do {
          _ \<leftarrow> reported E b ''working'' ''agent working'';
          writes E T (inputFrame (cnLease c) chunk) (c\<lparr>cnInput := rest\<rparr>) })
      | WriterResize \<Rightarrow> (case cnSizes c of [] \<Rightarrow> ret c | dims # rest \<Rightarrow> writes E T (resizeFrame (cnLease c) dims) (c\<lparr>cnSizes := rest\<rparr>))
      | WriterCommand \<Rightarrow> (case cnCommands c of [] \<Rightarrow> ret c | f # rest \<Rightarrow> writes E T f (c\<lparr>cnCommands := rest\<rparr>))
      | _ \<Rightarrow> ret c)"

definition connStep :: "'v bridgeEnv \<Rightarrow> 'v terminalEnv \<Rightarrow> Bridge \<Rightarrow> connEvent \<Rightarrow> conn \<Rightarrow> ('v, conn) uprog" where
  "connStep E T b ev c =
     (case ev of
        ReaderReads \<Rightarrow> (if cnReader c = Reading then readerReads E T c else ret c)
      | ReaderOffers \<Rightarrow> ret (case cnReader c of
            Holding f \<Rightarrow> if length (cnFrames c) < 16 then c\<lparr>cnFrames := cnFrames c @ [f], cnReader := Reading\<rparr> else c
          | _ \<Rightarrow> c)
      | Types chunk \<Rightarrow> ret (if cnTyping c = None \<and> chunk \<noteq> [] \<and> length chunk \<le> 32 * 1024 then c\<lparr>cnTyping := Some chunk\<rparr> else c)
      | TypesOffers \<Rightarrow> ret (case cnTyping c of
            Some chunk \<Rightarrow> if length (cnInput c) < 32 then c\<lparr>cnInput := cnInput c @ [chunk], cnTyping := None\<rparr> else c
          | None \<Rightarrow> c)
      | Resizes \<Rightarrow> do { w \<leftarrow> asked (teWindow T); ret (publishSize (terminalSizeOf w) c) }
      | WriterInput \<Rightarrow> writerStep E T b ev c
      | WriterResize \<Rightarrow> writerStep E T b ev c
      | WriterCommand \<Rightarrow> writerStep E T b ev c
      | _ \<Rightarrow> loopStep E T b ev c)"

fun connRun :: "'v bridgeEnv \<Rightarrow> 'v terminalEnv \<Rightarrow> Bridge \<Rightarrow> connEvent list \<Rightarrow> conn \<Rightarrow> ('v, conn) uprog" where
  "connRun E T b [] c = ret c"
| "connRun E T b (ev # evs) c = do { c' \<leftarrow> connStep E T b ev c; connRun E T b evs c' }"

section \<open>From the dial to the end of a connection\<close>

text \<open>
  What outlives a connection: the keyboard and the sizes. \<open>coResult\<close> is what \<open>runConnection\<close> returned;
  \<open>None\<close> means that the schedule ended while the connection was still served.
\<close>

record keyboard =
  kbInput :: "byte list list"
  kbTyping :: "byte list option"
  kbSizes :: "TerminalSize list"

record connOutcome =
  coResult :: "bridgeError option option"
  coState :: AgentState
  coConnected :: "time option"
  coKeyboard :: keyboard

definition ended :: "keyboard \<Rightarrow> AgentState \<Rightarrow> bridgeError \<Rightarrow> ('v, connOutcome) uprog" where
  "ended kb s e = ret \<lparr>coResult = Some (Some e), coState = s, coConnected = None, coKeyboard = kb\<rparr>"

definition dialFailure :: "'v bridgeEnv \<Rightarrow> goerror \<times> clientResponse option \<Rightarrow> bridgeError" where
  "dialFailure E e =
     (case snd e of
        None \<Rightarrow> Fault (fst e)
      | Some response \<Rightarrow>
          let a = decodeAPIError E response in
          if IsAPIError (Api a) ''unsupported_protocol''
          then Attention (''Sandherd terminal protocol is newer than this bridge; upgrade the plugin: '' @ apiErrorText a)
          else if IsAPIError (Api a) ''unauthenticated'' \<or> IsAPIError (Api a) ''forbidden_role'' then Attention (apiErrorText a)
          else Api a)"

definition startConn :: "string \<Rightarrow> keyboard \<Rightarrow> AgentState \<Rightarrow> conn" where
  "startConn lease kb s =
     \<lparr>cnLease = lease, cnLoopLease = lease, cnFrames = [], cnReader = Reading, cnReadError = None, cnCommands = [], cnWriting = True,
      cnWriteError = None, cnInput = kbInput kb, cnTyping = kbTyping kb, cnSizes = kbSizes kb, cnState = s, cnResult = None\<rparr>"

definition serve :: "'v bridgeEnv \<Rightarrow> 'v terminalEnv \<Rightarrow> Bridge \<Rightarrow> string \<Rightarrow> keyboard \<Rightarrow> AgentState \<Rightarrow> ('v, connOutcome) uprog" where
  "serve E T b lease kb s = do {
     now \<leftarrow> asked (beNow E);
     _ \<leftarrow> reported E b ''idle'' ''connected'';
     evs \<leftarrow> asked (teSchedule T);
     c \<leftarrow> connRun E T b evs (startConn lease kb s);
     ret \<lparr>coResult = cnResult c, coState = cnState c, coConnected = Some now,
       coKeyboard = \<lparr>kbInput = cnInput c, kbTyping = cnTyping c, kbSizes = cnSizes c\<rparr>\<rparr> }"

definition attachedWith :: "'v bridgeEnv \<Rightarrow> 'v terminalEnv \<Rightarrow> Bridge \<Rightarrow> Frame \<Rightarrow> keyboard \<Rightarrow> AgentState \<Rightarrow> ('v, connOutcome) uprog" where
  "attachedWith E T b first kb s =
     (if frType first = ''error'' then ended kb s (bridgeProtocolError first)
      else if frType first \<noteq> ''attached'' \<or> frRole first \<noteq> ''control'' \<or> frLeaseID first = []
      then ended kb s (Fault ''runner returned an invalid attachment response'')
      else if asRunnerGeneration s \<noteq> [] \<and> asRunnerGeneration s \<noteq> frRunnerGeneration first \<and> asAfterSequence s \<noteq> None
      then do {
        let s' = s\<lparr>asAfterSequence := None, asRunnerGeneration := frRunnerGeneration first\<rparr>;
        _ \<leftarrow> saved E b s';
        ended kb s' ReplayReset }
      else do {
        let s' = s\<lparr>asRunnerGeneration := frRunnerGeneration first\<rparr>;
        _ \<leftarrow> saved E b s';
        serve E T b (frLeaseID first) kb s' })"

text \<open>\<open>if err != nil { return err }\<close> before the connection is served.\<close>

definition orEnd :: "keyboard \<Rightarrow> AgentState \<Rightarrow> ('v, 'a) rprog \<Rightarrow> ('a \<Rightarrow> ('v, connOutcome) uprog) \<Rightarrow> ('v, connOutcome) uprog" where
  "orEnd kb s m f = do { r \<leftarrow> m; case r of Inl e \<Rightarrow> ended kb s e | Inr x \<Rightarrow> f x }"

definition runConnection :: "'v bridgeEnv \<Rightarrow> 'v terminalEnv \<Rightarrow> Bridge \<Rightarrow> keyboard \<Rightarrow> AgentState \<Rightarrow> ('v, connOutcome) uprog" where
  "runConnection E T b kb s =
     orEnd kb s (AuthorizationHeader E (brAPI b)) (\<lambda>authorization. do {
       rid \<leftarrow> asked (beNewID E);
       let url = bridgeTerminalURL E (brAPI b) (brAgentID b);
       let headers = [(''Authorization'', authorization), (''X-Request-ID'', rid)];
       orEnd kb s (wrapped (called (Dialed url headers) (teDial T url headers)) (dialFailure E)) (\<lambda>protocol.
         if protocol \<noteq> Protocol
         then ended kb s (Fault (''server did not negotiate '' @ Protocol @ ''; upgrade Sandherd and this plugin together''))
         else do {
           w \<leftarrow> asked (teWindow T);
           orEnd kb s (writeTerminalFrame E T (attachFrame b s (terminalSizeOf w))) (\<lambda>_.
           orEnd kb s (readTerminalFrame E T) (\<lambda>first. attachedWith E T b first kb s)) }) })"

section \<open>The loop over connections\<close>

definition slept :: "'v terminalEnv \<Rightarrow> duration \<Rightarrow> ('v, bool) uprog" where
  "slept T d = State (\<lambda>s. let (r, v) = teSleep T d (bwRest (world s)) in
     (r, s\<lparr>world := (world s)\<lparr>bwRest := v\<rparr>, actions := actions s @ [(Slept d, \<not> r)]\<rparr>))"

text \<open>
  \<open>waitUntilRunning\<close> polls at most \<open>n\<close> times here; \<open>None\<close> means that it would go on polling.
\<close>

definition notRunning :: "Agent \<Rightarrow> bridgeError option" where
  "notRunning a =
     (let st = stState (agStatus a) in
      if st = StateStopped then Some (Fault ''agent is stopped; use the Sandherd Resume action'')
      else if st = StateFailed then Some (Fault (''agent failed: '' @ stMessage (agStatus a)))
      else if st = StateStopping then Some (Fault ''agent is stopping; resume it after it reaches stopped'')
      else if st = StateDeleting then Some (Fault ''agent is being deleted'')
      else None)"

fun waitUntilRunning :: "'v bridgeEnv \<Rightarrow> 'v terminalEnv \<Rightarrow> Bridge \<Rightarrow> nat \<Rightarrow> State \<Rightarrow> ('v, (bridgeError + Agent) option) uprog" where
  "waitUntilRunning E T b 0 shownState = ret None"
| "waitUntilRunning E T b (Suc n) shownState = do {
     r \<leftarrow> APIGet E (brAPI b) (brAgentID b);
     case r of
       Inl e \<Rightarrow> ret (Some (Inl e))
     | Inr a \<Rightarrow> do {
         let st = stState (agStatus a);
         _ \<leftarrow> (if st \<noteq> shownState then shown (''[sandherd] '' @ agName a @ '' is '' @ st @ [CHR 0x0D, CHR 0x0A]) else ret ());
         if st = StateRunning then ret (Some (Inr a))
         else case notRunning a of
           Some e \<Rightarrow> ret (Some (Inl e))
         | None \<Rightarrow> do {
             _ \<leftarrow> (if st \<in> {StateRequested, StateProvisioning, StateStarting} then reported E b ''working'' st else ret ());
             stopped \<leftarrow> slept T (bcPollInterval (brConfig b));
             if stopped then ret (Some (Inl (Fault ''context canceled''))) else waitUntilRunning E T b n st } } }"

fun needsUser :: "bridgeError option \<Rightarrow> bool" where
  "needsUser (Some (ControllerRevoked _)) = True"
| "needsUser (Some (Attention _)) = True"
| "needsUser _ = False"

definition endText :: "bridgeError option \<Rightarrow> goerror" where
  "endText e = (case e of None \<Rightarrow> ''<nil>'' | Some e' \<Rightarrow> bridgeErrorText e')"

definition initialBackoff :: duration where "initialBackoff = 250000000"
definition resetBackoff :: duration where "resetBackoff = 50000000"

definition nextBackoffOf :: "duration \<Rightarrow> duration" where
  "nextBackoffOf backoff = (if backoff < 5 * second then 2 * backoff else backoff)"

definition connectionLost :: "bridgeError option \<Rightarrow> string" where
  "connectionLost e = [CHR 0x0D, CHR 0x0A] @ ''[sandherd] connection lost; reconnecting: '' @ endText e @ [CHR 0x0D, CHR 0x0A]"

text \<open>
  After a connection: give up with an error, or the deadline and the back-off to go on with.
\<close>

definition afterConnection ::
  "'v bridgeEnv \<Rightarrow> Bridge \<Rightarrow> bridgeError option \<Rightarrow> bool \<Rightarrow> time \<Rightarrow> duration \<Rightarrow> ('v, bridgeError + time \<times> duration) uprog" where
  "afterConnection E b e fresh deadline backoff = do {
     now \<leftarrow> (if fresh then asked (beNow E) else ret 0);
     let deadline' = (if fresh then now + bcReconnectLimit (brConfig b) else deadline);
     let backoff' = (if fresh then initialBackoff else backoff);
     if e = Some ReplayReset then ret (Inr (deadline', resetBackoff))
     else do {
       later \<leftarrow> asked (beNow E);
       if later > deadline'
       then do {
         let expired = Fault (''terminal reconnect window expired: '' @ endText e);
         _ \<leftarrow> reportAttention E b expired;
         ret (Inl expired) }
       else do {
         _ \<leftarrow> reported E b ''working'' ''reconnecting'';
         _ \<leftarrow> shown (connectionLost e);
         ret (Inr (deadline', backoff')) } } }"

text \<open>At most \<open>n\<close> connections here; \<open>None\<close> means that the bridge is still running.\<close>

fun reconnecting ::
  "'v bridgeEnv \<Rightarrow> 'v terminalEnv \<Rightarrow> Bridge \<Rightarrow> nat \<Rightarrow> keyboard \<Rightarrow> AgentState \<Rightarrow> time \<Rightarrow> time \<Rightarrow> duration \<Rightarrow>
     ('v, bridgeError option option) uprog" where
  "reconnecting E T b 0 kb s connectedAt deadline backoff = ret None"
| "reconnecting E T b (Suc n) kb s connectedAt deadline backoff = do {
     started \<leftarrow> asked (beNow E);
     r \<leftarrow> runConnection E T b kb s;
     case coResult r of
       None \<Rightarrow> ret None
     | Some e \<Rightarrow> do {
         stopped \<leftarrow> asked (teDone T);
         if stopped then ret (Some None)
         else if needsUser e then do { _ \<leftarrow> reportAttention E b (the e); ret (Some e) }
         else do {
           let connectedAt' = (case coConnected r of Some t \<Rightarrow> t | None \<Rightarrow> connectedAt);
           d \<leftarrow> afterConnection E b e (started < connectedAt') deadline backoff;
           case d of
             Inl expired \<Rightarrow> ret (Some (Some expired))
           | Inr (deadline', backoff') \<Rightarrow> do {
               stopped' \<leftarrow> slept T backoff';
               if stopped' then ret (Some None)
               else reconnecting E T b n (coKeyboard r) (coState r) connectedAt' deadline' (nextBackoffOf backoff') } } } }"

definition runRunning :: "'v bridgeEnv \<Rightarrow> 'v terminalEnv \<Rightarrow> Bridge \<Rightarrow> nat \<Rightarrow> Agent \<Rightarrow> ('v, bridgeError option option) uprog" where
  "runRunning E T b n a = do {
     loaded \<leftarrow> Load E (brStore b) (brAgentID b);
     let s = (case loaded of Inl _ \<Rightarrow> newAgentState (agID a) (agName a) (BaseURL E (brAPI b)) | Inr s \<Rightarrow> s);
     let s' = s\<lparr>asName := agName a, asBaseURL := BaseURL E (brAPI b), asPaneID := brPaneID b\<rparr>;
     r \<leftarrow> Save E (brStore b) s';
     case r of
       Inl e \<Rightarrow> ret (Some (Some e))
     | Inr _ \<Rightarrow> do {
         _ \<leftarrow> ReportMetadata E (brPaneID b) s';
         raw \<leftarrow> asked (teRaw T);
         case raw of
           Some e \<Rightarrow> ret (Some (Some (Fault (''put terminal in raw mode: '' @ e))))
         | None \<Rightarrow> do {
             w \<leftarrow> asked (teWindow T);
             now \<leftarrow> asked (beNow E);
             reconnecting E T b n \<lparr>kbInput = [], kbTyping = None, kbSizes = [terminalSizeOf w]\<rparr> s' zeroTime
               (now + bcReconnectLimit (brConfig b)) initialBackoff } } }"

definition RunBridge :: "'v bridgeEnv \<Rightarrow> 'v terminalEnv \<Rightarrow> Bridge \<Rightarrow> nat \<Rightarrow> nat \<Rightarrow> ('v, bridgeError option option) uprog" where
  "RunBridge E T b polls n = do {
     r \<leftarrow> waitUntilRunning E T b polls [];
     case r of
       None \<Rightarrow> ret None
     | Some (Inl e) \<Rightarrow> do { _ \<leftarrow> reportAttention E b e; ret (Some (Some e)) }
     | Some (Inr a) \<Rightarrow> runRunning E T b n a }"

end
