(* ===== verification/Bridge_Main.thy ===== *)
theory Bridge_Main
  imports Bridge_Manager Bridge_Terminal
begin

text \<open>
  The command line of the bridge, \<^verbatim>\<open>herdrbridge/run.go\<close>. The exit code is \<open>None\<close> while the bridge is still running.
\<close>

text \<open>The flags of \<open>attach\<close>, whose defaults come from the environment.\<close>

record attachFlags =
  afAgentID :: string
  afTakeover :: bool

definition attachFlagSet :: "attachFlags flagSet" where
  "attachFlagSet =
     [(''agent-id'', stringVar (\<lambda>v f. f\<lparr>afAgentID := v\<rparr>)),
      (''takeover'', BoolFlag (\<lambda>b f. f\<lparr>afTakeover := b\<rparr>))]"

definition complained :: "goerror \<Rightarrow> ('v, unit) uprog" where
  "complained t = shown (''sandherd-herdr-bridge: '' @ t @ [CHR 0x0A])"

definition runAction :: "'v bridgeEnv \<Rightarrow> string list \<Rightarrow> ('v, int) uprog" where
  "runAction E remaining =
     (case remaining of
        [_, action] \<Rightarrow> do {
          r \<leftarrow> OpenManager E action (actionTargetPane E);
          case r of Inl e \<Rightarrow> do { _ \<leftarrow> complained (bridgeErrorText e); ret 1 } | Inr _ \<Rightarrow> ret 0 }
      | _ \<Rightarrow> do { _ \<leftarrow> println' ''action requires one action name''; ret 2 })"

definition runManagerCommand :: "'v bridgeEnv \<Rightarrow> string list \<Rightarrow> ('v, int) uprog" where
  "runManagerCommand E remaining =
     (if length remaining \<noteq> 1 then do { _ \<leftarrow> println' ''manager does not accept arguments''; ret 2 }
      else do {
        r \<leftarrow> loadRuntime E;
        case r of
          Inl e \<Rightarrow> do { _ \<leftarrow> complained (bridgeErrorText e); ret 1 }
        | Inr (c, api, st) \<Rightarrow> do {
            q \<leftarrow> RunManager E \<lparr>mgConfig = c, mgAPI = api, mgStore = st\<rparr> (beGetenv E ''SANDHERD_ACTION'');
            case q of
              Inl e \<Rightarrow> do {
                _ \<leftarrow> Notify E ''Sandherd action failed'' (bridgeErrorText e) ''request'';
                _ \<leftarrow> complained (bridgeErrorText e);
                ret 1 }
            | Inr _ \<Rightarrow> ret 0 } })"

definition attachResult :: "bridgeError option option \<Rightarrow> ('v, int option) uprog" where
  "attachResult r =
     (case r of
        None \<Rightarrow> ret None
      | Some None \<Rightarrow> ret (Some 0)
      | Some (Some e) \<Rightarrow> do {
          _ \<leftarrow> shown ([CHR 0x0D, CHR 0x0A] @ ''sandherd-herdr-bridge: '' @ bridgeErrorText e @ [CHR 0x0D, CHR 0x0A]);
          ret (Some 1) })"

definition runAttach ::
  "'v bridgeEnv \<Rightarrow> 'v terminalEnv \<Rightarrow> bool \<Rightarrow> nat \<Rightarrow> nat \<Rightarrow> string list \<Rightarrow> ('v, int option) uprog" where
  "runAttach E T isFile polls n arguments =
     (case parseFlags attachFlagSet
         \<lparr>afAgentID = beGetenv E ''SANDHERD_AGENT_ID'', afTakeover = (beGetenv E ''SANDHERD_TAKEOVER'' = ''1'')\<rparr> arguments of
        None \<Rightarrow> ret (Some 2)
      | Some (f, rest) \<Rightarrow>
          if rest \<noteq> [] then ret (Some 2)
          else if \<not> isFile then do { _ \<leftarrow> println' ''sandherd-herdr-bridge: attach requires a terminal file as stdin''; ret (Some 1) }
          else do {
            r \<leftarrow> loadRuntime E;
            case r of
              Inl e \<Rightarrow> do { _ \<leftarrow> complained (bridgeErrorText e); ret (Some 1) }
            | Inr (c, api, st) \<Rightarrow>
                (case NewBridge c api st (trimSpace (afAgentID f)) (CurrentPaneID E) (afTakeover f) of
                   Inl e \<Rightarrow> attachResult (Some (Some (Fault e)))
                 | Inr b \<Rightarrow> do { q \<leftarrow> RunBridge E T b polls n; attachResult q }) })"

definition RunBridgeCommand ::
  "'v bridgeEnv \<Rightarrow> 'v terminalEnv \<Rightarrow> Info \<Rightarrow> bool \<Rightarrow> nat \<Rightarrow> nat \<Rightarrow> string list \<Rightarrow> ('v, int option) uprog" where
  "RunBridgeCommand E T info isFile polls n arguments =
     (case parseFlags versionFlagSet False arguments of
        None \<Rightarrow> ret (Some 2)
      | Some (showVersion, remaining) \<Rightarrow>
          if showVersion then do { _ \<leftarrow> shown (WriteInfo info ''sandherd-herdr-bridge''); ret (Some 0) }
          else case remaining of
            [] \<Rightarrow> ret (Some 2)
          | name # rest \<Rightarrow>
              if name = ''action'' then do { x \<leftarrow> runAction E remaining; ret (Some x) }
              else if name = ''manager'' then do { x \<leftarrow> runManagerCommand E remaining; ret (Some x) }
              else if name = ''attach'' then runAttach E T isFile polls n rest
              else do { _ \<leftarrow> println' (''unknown command '' @ goQuote (bePrintable E) name); ret (Some 2) })"

end
