(* ===== verification/Bootstrap_Props.thy ===== *)
theory Bootstrap_Props
  imports Bootstrap
begin

text \<open>
  What the bootstrap of a workspace guarantees: which paths it touches, how git is run, in which
  order state is written so that an interruption can be recovered from, what happens to an
  existing workspace, and which errors it reports.
\<close>

section \<open>Contracts of the combinators\<close>



lemma does_sysCall: "(\<And>ok. P (c, ok)) \<Longrightarrow> does P (sysCall c f)"
  by (auto simp: yields_def sysCall_def case_prod_beta)

lemma yields_sysCall:
  "(\<And>ok. P (c, ok)) \<Longrightarrow> (\<And>w x. fst (f w) = Inr x \<Longrightarrow> Q x) \<Longrightarrow> yields P (okWith Q) (sysCall c f)"
  by (auto simp: yields_def sysCall_def case_prod_beta okWith_def split: sum.splits)

lemma yields_orElse: "yields P (okWith Q) m \<Longrightarrow> yields P (okWith Q) (orElse m wrap)"
  unfolding orElse_def by (erule yields_bind) (auto intro: yields_return simp: okWith_def split: sum.splits)

lemma does_orElse: "does P m \<Longrightarrow> does P (orElse m wrap)"
  unfolding orElse_def by (intro does_intros)

lemma does_gitCommand: "(\<And>out ok. P (Exec binary environment arguments out, ok)) \<Longrightarrow> does P (gitCommand S binary environment arguments)"
  by (auto simp: yields_def gitCommand_def Let_def split: prod.splits)

lemma does_git: "(\<And>out ok. P (Exec binary environment arguments out, ok)) \<Longrightarrow> does P (git S binary environment arguments)"
  unfolding git_def by (intro does_intros does_gitCommand yields_ask)

lemma does_runAll:
  "(\<And>c out ok. c \<in> set cs \<Longrightarrow> P (Exec binary environment c out, ok)) \<Longrightarrow> does P (runAll S binary environment cs)"
  by (induction cs) (auto intro!: does_return does_attempt does_git)

lemma does_onError: "does P m \<Longrightarrow> does P cleanup \<Longrightarrow> does P (onError m cleanup)"
  unfolding onError_def by (intro does_intros)

lemmas boot_intros = does_attempt does_sysCall does_orElse does_gitCommand does_git does_runAll does_onError yields_ask
  does_return does_bind does_option does_sum does_if yields_effect

section \<open>Paths\<close>

lemma plain_names [simp]:
  "plain ''.sandherd''" "plain ''repository''" "plain ''bootstrap-staging''" "plain ''bootstrap.json''"
  "plain ''bootstrap-intent.json''" "plain ''bootstrap.lock''" "plain ''home''" "plain ''adapters''"
  by (simp_all add: plain_def slash_def)

lemma pathsOf_absolute:
  assumes "list_all plain rs"
  shows "pathsOf (absolutePath rs) =
    \<lparr>wpRoot = absolutePath rs, wpState = absolutePath (rs @ [''.sandherd'']), wpRepository = absolutePath (rs @ [''repository'']),
     wpStaging = absolutePath (rs @ [''.sandherd'', ''bootstrap-staging'']),
     wpMetadata = absolutePath (rs @ [''.sandherd'', ''bootstrap.json'']),
     wpIntent = absolutePath (rs @ [''.sandherd'', ''bootstrap-intent.json'']),
     wpLock = absolutePath (rs @ [''.sandherd'', ''bootstrap.lock'']), wpHome = absolutePath (rs @ [''.sandherd'', ''home''])\<rparr>"
  using assms joinPath_absolute [of "rs @ [''.sandherd'']"]
  by (simp add: pathsOf_def joinPath_absolute Let_def)

lemma adapterID_plain: "validAdapterID v \<Longrightarrow> plain v"
proof -
  assume v: "validAdapterID v"
  then obtain c cs where cs: "v = c # cs" "isLower c" "\<not> anyRune (\<lambda>r. \<not> adapterRune r) cs"
    by (cases v) (auto simp: validAdapterID_def)
  have "\<not> anyRune (\<lambda>r. r = 47) cs" using cs(3) by (auto simp: anyRune_def list_ex_iff adapterRune_def)
  then have "slash \<notin> set cs" by (subst (asm) anyRune_bytes) (auto simp: slash_def)
  with cs show "plain v" by (auto simp: plain_def slash_def isLower_def)
qed

section \<open>Nothing outside the workspace\<close>

text \<open>Paths whose files or directory entries a system call of the bootstrap itself may change.\<close>

fun touched :: "sysCall \<Rightarrow> string list" where
  "touched (Mkdir p mode) = [p]"
| "touched (Remove p) = [p]"
| "touched (RemoveAll p) = [p]"
| "touched (Rename p q) = [p, q]"
| "touched (OpenLock p) = [p]"
| "touched (CreateTemp d) = [joinPath d ''.bootstrap'']"
| "touched (Chmod p mode) = [p]"
| "touched (Write p contents) = [p]"
| "touched _ = []"

definition inside :: "string list \<Rightarrow> string \<Rightarrow> bool" where
  "inside rs p \<longleftrightarrow> (\<exists>es. es \<noteq> [] \<and> list_all plain es \<and> p = absolutePath (rs @ es))"

text \<open>\<open>os.CreateTemp\<close>: the star of the pattern is replaced by a text without separators.\<close>

definition tempName :: "string \<Rightarrow> string" where
  "tempName x = ''.bootstrap-'' @ x @ ''.tmp''"

definition tempsInside :: "'w os \<Rightarrow> bool" where
  "tempsInside S \<longleftrightarrow>
     (\<forall>d w t. fst (osCreateTemp S d ''.bootstrap-*.tmp'' w) = Inr t \<longrightarrow> (\<exists>x. slash \<notin> set x \<and> t = joinPath d (tempName x)))"

lemma tempName_plain: "slash \<notin> set x \<Longrightarrow> plain (tempName x)"
  by (auto simp: plain_def tempName_def slash_def)

definition confined :: "string list \<Rightarrow> sysEvent \<Rightarrow> bool" where
  "confined rs ev \<longleftrightarrow> (\<forall>p \<in> set (touched (fst ev)). inside rs p) \<and>
     (\<forall>p. fst ev = RemoveAll p \<longrightarrow> p = absolutePath (rs @ [''.sandherd'', ''bootstrap-staging'']))"

lemma inside_names:
  "list_all plain es \<Longrightarrow> es \<noteq> [] \<Longrightarrow> inside rs (absolutePath (rs @ es))"
  by (auto simp: inside_def)

lemma confined_reads:
  "confined rs (Lstat p, ok)" "confined rs (Stat p, ok)" "confined rs (EvalSymlinks p, ok)" "confined rs (ReadDir p, ok)"
  "confined rs (Flock p, ok)" "confined rs (Unlock p, ok)" "confined rs (CloseLock p, ok)" "confined rs (ReadFile p, ok)"
  "confined rs (Sync p, ok)" "confined rs (CloseTemp p, ok)" "confined rs (Exec b e as out, ok)"
  by (simp_all add: confined_def)

lemma confined_changes:
  "inside rs p \<Longrightarrow> confined rs (Mkdir p mode, ok)" "inside rs p \<Longrightarrow> confined rs (Remove p, ok)"
  "inside rs p \<Longrightarrow> inside rs q \<Longrightarrow> confined rs (Rename p q, ok)" "inside rs p \<Longrightarrow> confined rs (OpenLock p, ok)"
  "inside rs p \<Longrightarrow> confined rs (Chmod p mode, ok)" "inside rs p \<Longrightarrow> confined rs (Write p c, ok)"
  by (simp_all add: confined_def)

lemma does_reads:
  "(\<And>ok. P (ReadFile p, ok)) \<Longrightarrow> does P (readSmallFile S p)"
  "(\<And>ok. P (Lstat p, ok)) \<Longrightarrow> does P (requireDirectory S p)"
  "(\<And>ok. P (ReadDir p, ok)) \<Longrightarrow> does P (requireEmpty S p inspect refuse)"
  unfolding readSmallFile_def requireDirectory_def requireEmpty_def by (intro boot_intros; simp)+

lemma does_readStateFile:
  "(\<And>ok. P (ReadFile p, ok)) \<Longrightarrow> (\<And>ok. P (Lstat p, ok)) \<Longrightarrow> does P (readStateFile S p i u rd bad decode)"
  unfolding readStateFile_def by (intro boot_intros does_reads; simp)

lemma does_readCredential: "(\<And>ok. P (ReadFile (cleanPath p), ok)) \<Longrightarrow> does P (readCredential S p)"
  unfolding readCredential_def by (intro boot_intros does_reads; simp)

lemma does_requireRegular: "(\<And>p ok. P (Stat p, ok)) \<Longrightarrow> does P (requireRegular S ps)"
  by (induction ps) (auto intro!: boot_intros)

lemma does_gitEnvironment:
  "(\<And>p ok. P (ReadFile p, ok)) \<Longrightarrow> (\<And>p ok. P (Stat p, ok)) \<Longrightarrow> does P (gitEnvironment S o' paths)"
  unfolding gitEnvironment_def credentialEnvironment_def sshEnvironment_def helperOf_def
  by (intro boot_intros does_readCredential does_requireRegular; simp)

lemma does_directories:
  "(\<And>ok. P (Lstat p, ok)) \<Longrightarrow> (\<And>mode ok. P (Mkdir p mode, ok)) \<Longrightarrow> does P (ensureDirectory S p mode)"
  "(\<And>ok. P (Lstat p, ok)) \<Longrightarrow> (\<And>mode ok. P (Mkdir p mode, ok)) \<Longrightarrow> (\<And>ok. P (ReadDir p, ok)) \<Longrightarrow> does P (ensureEmptyRepositoryDirectory S p)"
  "(\<And>ok. P (Lstat p, ok)) \<Longrightarrow> (\<And>ok. P (Remove p, ok)) \<Longrightarrow> (\<And>ok. P (ReadDir p, ok)) \<Longrightarrow>
     does P (requireRepositoryDestinationAvailable S p)"
  "(\<And>ok. P (Lstat p, ok)) \<Longrightarrow> (\<And>ok. P (Remove p, ok)) \<Longrightarrow> (\<And>ok. P (RemoveAll p, ok)) \<Longrightarrow> does P (resetStaging S p)"
  unfolding ensureDirectory_def ensureEmptyRepositoryDirectory_def requireRepositoryDestinationAvailable_def resetStaging_def
  by (intro boot_intros does_reads; simp)+

text \<open>Writing a record, by the properties of its temporary path.\<close>

lemma does_commitTemp:
  "(\<And>ok. P (Chmod t 384, ok)) \<Longrightarrow> (\<And>ok. P (Write t contents, ok)) \<Longrightarrow> (\<And>ok. P (Sync t, ok)) \<Longrightarrow> (\<And>ok. P (CloseTemp t, ok)) \<Longrightarrow>
     (\<And>ok. P (Rename t p, ok)) \<Longrightarrow> does P (commitTemp S t p contents)"
  unfolding commitTemp_def closeTemp_def by (intro boot_intros; simp)

lemma okWith_True: "okWith (\<lambda>_. True) = (\<lambda>_. True)"
  by (auto simp: okWith_def split: sum.splits)

lemma does_writeJSONFile:
  assumes "\<And>ok. P (CreateTemp (dirPath p), ok)"
    and "\<And>w t. fst (osCreateTemp S (dirPath p) ''.bootstrap-*.tmp'' w) = Inr t \<Longrightarrow> T t"
    and "\<And>t ok. T t \<Longrightarrow> P (Remove t, ok)" "\<And>t. T t \<Longrightarrow> does P (commitTemp S t p (osPrintJSON S v @ [CHR 0x0A]))"
  shows "does P (writeJSONFile S p v)"
proof -
  have "yields P (okWith (\<lambda>_. True)) (writeJSONFile S p v)"
    unfolding writeJSONFile_def
  proof (rule yields_attempt [where R = T])
    show "yields P (okWith T) (orElse (sysCall (CreateTemp (dirPath p)) (osCreateTemp S (dirPath p) ''.bootstrap-*.tmp''))
        (metadataFailed ''create workspace metadata''))"
      by (intro yields_orElse yields_sysCall assms(1,2))
  qed (unfold okWith_True, intro boot_intros assms(3,4))
  then show ?thesis by (simp add: okWith_True)
qed

section \<open>How git is run\<close>

definition settings :: "string \<Rightarrow> string list" where
  "settings home =
     [''HOME='' @ home, ''XDG_CONFIG_HOME='' @ home, ''GIT_CONFIG_NOSYSTEM=1'', ''GIT_TERMINAL_PROMPT=0'',
      ''GIT_CONFIG_COUNT=1'', ''GIT_CONFIG_KEY_0=core.hooksPath'', ''GIT_CONFIG_VALUE_0=/dev/null'']"

text \<open>Git's own variables, the home directories and the SSH agent: only what the bootstrap sets.\<close>

definition hardened :: "string \<Rightarrow> string list \<Rightarrow> bool" where
  "hardened home e \<longleftrightarrow> set (settings home) \<subseteq> set e \<and>
     (\<forall>v \<in> set e. dropped v \<longrightarrow> v \<in> set (settings home) \<or> variableName v = ''GIT_ASKPASS'' \<or> variableName v = ''GIT_SSH'')"

definition gitCalls :: "Options \<Rightarrow> string list \<Rightarrow> string list list" where
  "gitCalls o' rs =
     fetchCommands o' (absolutePath (rs @ [''.sandherd'', ''bootstrap-staging''])) @
     [revParse (absolutePath (rs @ [''.sandherd'', ''bootstrap-staging''])), revParse (absolutePath (rs @ [''repository''])),
      originURL (absolutePath (rs @ [''repository'']))]"

definition permitted :: "string list \<Rightarrow> Options \<Rightarrow> sysEvent \<Rightarrow> bool" where
  "permitted rs o' ev \<longleftrightarrow> confined rs ev \<and>
     (\<forall>b e as out. fst ev = Exec b e as out \<longrightarrow>
        b = opGitBinary o' \<and> hardened (absolutePath (rs @ [''.sandherd'', ''home''])) e \<and> as \<in> set (gitCalls o' rs))"

lemma permitted_confined: "confined rs (c, ok) \<Longrightarrow> (\<And>b e as out. c \<noteq> Exec b e as out) \<Longrightarrow> permitted rs o' (c, ok)"
  by (simp add: permitted_def)

lemma permitted_exec:
  "hardened (absolutePath (rs @ [''.sandherd'', ''home''])) e \<Longrightarrow> as \<in> set (gitCalls o' rs) \<Longrightarrow> permitted rs o' (Exec (opGitBinary o') e as out, ok)"
  by (simp add: permitted_def confined_reads)

lemma hardened_base: "hardened home (baseEnvironment inherited home)"
  by (auto simp: hardened_def baseEnvironment_def settings_def)

lemma hardened_append:
  "hardened home e \<Longrightarrow> list_all (\<lambda>v. dropped v \<longrightarrow> variableName v = ''GIT_ASKPASS'' \<or> variableName v = ''GIT_SSH'') vs \<Longrightarrow> hardened home (e @ vs)"
  by (auto simp: hardened_def list_all_iff)

abbreviation helperVariables :: "string list \<Rightarrow> bool" where
  "helperVariables \<equiv> list_all (\<lambda>v. dropped v \<longrightarrow> variableName v = ''GIT_ASKPASS'' \<or> variableName v = ''GIT_SSH'')"

lemma yields_does: "does P m \<Longrightarrow> (\<And>x. Q x) \<Longrightarrow> yields P Q m"
  unfolding yields_def by blast

lemma gitEnvironment_hardened:
  assumes "\<And>p ok. P (ReadFile p, ok)" "\<And>p ok. P (Stat p, ok)"
  shows "yields P (okWith (hardened (wpHome paths))) (gitEnvironment S o' paths)"
proof -
  have helper: "yields P (okWith (\<lambda>_. True)) (helperOf S o' message)" for message
    unfolding okWith_True helperOf_def by (intro boot_intros)
  have cred: "yields P (okWith helperVariables) (credentialEnvironment S o')"
    unfolding credentialEnvironment_def
    by (rule if_split [THEN iffD2], intro conjI impI, simp add: yields_return,
        rule yields_attempt [where R = "\<lambda>_. True"], unfold okWith_True, intro does_readCredential assms,
        rule yields_attempt [where R = "\<lambda>_. True"], rule helper, rule yields_return)
      (simp add: dropped_def variableName_def Let_def hasPrefix_def)
  have ssh: "yields P (okWith helperVariables) (sshEnvironment S o')"
    unfolding sshEnvironment_def
    by (rule if_split [THEN iffD2], intro conjI impI, simp add: yields_return,
        rule yields_attempt [where R = "\<lambda>_. True"], unfold okWith_True, intro does_requireRegular assms,
        rule yields_attempt [where R = "\<lambda>_. True"], rule helper, rule yields_return)
      (simp add: dropped_def variableName_def Let_def hasPrefix_def)
  show ?thesis
    unfolding gitEnvironment_def
  proof (rule yields_attempt [OF cred], rule yields_attempt [OF ssh], rule yields_return)
    fix c x
    assume "helperVariables c" "helperVariables x"
    then show "okWith (hardened (wpHome paths))
        (Inr (baseEnvironment (case opEnvironment o' of None \<Rightarrow> [] | Some e \<Rightarrow> e) (wpHome paths) @ c @ x))"
      using hardened_append [OF hardened_base, of "c @ x"] by simp
  qed
qed

section \<open>All that the bootstrap does\<close>

lemmas permitted_reads = confined_reads [THEN permitted_confined]
lemmas permitted_changes = confined_changes [THEN permitted_confined]

lemma permitted_write:
  assumes "tempsInside S" "list_all plain rs" "plain name"
  shows "does (permitted rs o') (writeJSONFile S (absolutePath (rs @ [''.sandherd'', name])) v)"
proof -
  let ?state = "absolutePath (rs @ [''.sandherd''])"
  have dir: "dirPath (absolutePath (rs @ [''.sandherd'', name])) = ?state"
    using dirPath_absolute [of "rs @ [''.sandherd'']" name] assms(2,3) by simp
  have target: "inside rs (absolutePath (rs @ [''.sandherd'', name]))" using assms(3) by (intro inside_names) simp_all
  have entry: "inside rs (joinPath ?state n)" if "plain n" for n
    using joinPath_absolute [of "rs @ [''.sandherd'']" n] inside_names [of "[''.sandherd'', n]" rs] assms(2) that by simp
  have temp: "\<And>w t. fst (osCreateTemp S ?state ''.bootstrap-*.tmp'' w) = Inr t \<Longrightarrow> inside rs t"
    using assms(1) entry tempName_plain unfolding tempsInside_def by metis
  show ?thesis
  proof (rule does_writeJSONFile [where T = "inside rs"], unfold dir)
    have "plain ''.bootstrap''" by (simp add: plain_def slash_def)
    then show "permitted rs o' (CreateTemp ?state, ok)" for ok
      using entry by (intro permitted_confined) (simp_all add: confined_def)
  qed (auto intro!: temp does_commitTemp permitted_reads permitted_changes target)
qed

lemma permitted_record:
  assumes "tempsInside S" "list_all plain rs"
  shows "does (permitted rs o') (recordCompleted S (pathsOf (absolutePath rs)) m)"
    and "does (permitted rs o') (writeIntent S (wpIntent (pathsOf (absolutePath rs))) i)"
    and "does (permitted rs o') (writeMetadata S (wpMetadata (pathsOf (absolutePath rs))) m)"
proof -
  show meta: "does (permitted rs o') (writeMetadata S (wpMetadata (pathsOf (absolutePath rs))) m)"
    using permitted_write [OF assms, of "''bootstrap.json''"] by (simp add: writeMetadata_def pathsOf_absolute [OF assms(2)])
  show "does (permitted rs o') (writeIntent S (wpIntent (pathsOf (absolutePath rs))) i)"
    using permitted_write [OF assms, of "''bootstrap-intent.json''"] by (simp add: writeIntent_def pathsOf_absolute [OF assms(2)])
  have "inside rs (wpIntent (pathsOf (absolutePath rs)))"
    by (simp add: pathsOf_absolute [OF assms(2)] inside_names)
  then show "does (permitted rs o') (recordCompleted S (pathsOf (absolutePath rs)) m)"
    unfolding recordCompleted_def removeIntent_def
    by (intro boot_intros meta permitted_changes; simp)
qed

lemma permitted_fetch:
  assumes "tempsInside S" "list_all plain rs" "hardened (wpHome (pathsOf (absolutePath rs))) e"
  shows "does (permitted rs o') (fetchRepository S o' (pathsOf (absolutePath rs)) e)"
    and "does (permitted rs o') (recoverCommittedRepository S o' (pathsOf (absolutePath rs)) e)"
proof -
  note paths = pathsOf_absolute [OF assms(2)]
  have exec: "permitted rs o' (Exec (opGitBinary o') e as out, ok)" if "as \<in> set (gitCalls o' rs)" for as out ok
    using permitted_exec [OF _ that] assms(3) by (simp add: paths)
  have ren: "permitted rs o' (Rename (wpStaging (pathsOf (absolutePath rs))) (wpRepository (pathsOf (absolutePath rs))), ok)" for ok
    by (intro permitted_changes) (simp_all add: paths inside_names)
  show "does (permitted rs o') (fetchRepository S o' (pathsOf (absolutePath rs)) e)"
    unfolding fetchRepository_def Let_def
    by (intro boot_intros permitted_record [OF assms(1,2)] ren exec) (simp_all add: paths gitCalls_def)
  show "does (permitted rs o') (recoverCommittedRepository S o' (pathsOf (absolutePath rs)) e)"
    unfolding recoverCommittedRepository_def recoverRepository_def
    by (intro boot_intros permitted_record [OF assms(1,2)] permitted_reads exec; simp add: paths gitCalls_def)
qed

lemma permitted_clone:
  assumes "tempsInside S" "list_all plain rs"
  shows "does (permitted rs o') (cloneRepository S o' (pathsOf (absolutePath rs)))"
proof -
  let ?paths = "pathsOf (absolutePath rs)"
  note paths = pathsOf_absolute [OF assms(2)]
  have repo: "inside rs (wpRepository ?paths)" "inside rs (wpStaging ?paths)" by (simp_all add: paths inside_names)
  have "confined rs (RemoveAll (wpStaging ?paths), ok)" for ok using repo(2) by (simp add: confined_def paths)
  then have clear: "permitted rs o' (RemoveAll (wpStaging ?paths), ok)" for ok by (intro permitted_confined) simp_all
  have stage: "does (permitted rs o') (stageRepository S o' ?paths e)" if "hardened (wpHome ?paths) e" for e
    unfolding stageRepository_def
    by (intro boot_intros does_directories permitted_reads permitted_changes repo clear permitted_fetch(1) [OF assms that]; simp)
  have "yields (permitted rs o') (okWith (\<lambda>_. True)) (cloneRepository S o' ?paths)"
    unfolding cloneRepository_def
  proof (rule yields_attempt [where R = "hardened (wpHome ?paths)"])
    show "yields (permitted rs o') (okWith (hardened (wpHome ?paths))) (gitEnvironment S o' ?paths)"
      by (intro gitEnvironment_hardened permitted_reads; simp)
  next
    fix e
    assume e: "hardened (wpHome ?paths) e"
    show "yields (permitted rs o') (okWith (\<lambda>_. True)) (attempt (readIntent S (wpIntent ?paths)) (\<lambda>intent.
       case intent of
         Some i \<Rightarrow>
           if biRepositoryURL i \<noteq> opRepositoryURL o' \<or> biRequestedRevision i \<noteq> opRevision o'
           then fails (identityMismatch ''an interrupted bootstrap belongs to a different repository or revision'')
           else attempt (recoverCommittedRepository S o' ?paths e) (\<lambda>recovered.
             case recovered of Some m \<Rightarrow> gives m | None \<Rightarrow> stageRepository S o' ?paths e)
       | None \<Rightarrow>
           attempt (writeIntent S (wpIntent ?paths) \<lparr>biRepositoryURL = opRepositoryURL o', biRequestedRevision = opRevision o'\<rparr>) (\<lambda>_.
             stageRepository S o' ?paths e)))"
      unfolding okWith_True readIntent_def
      by (intro boot_intros does_readStateFile permitted_reads stage e permitted_fetch(2) [OF assms e] permitted_record [OF assms]; simp)
  qed
  then show ?thesis by (simp add: okWith_True)
qed

lemma permitted_locked:
  assumes "tempsInside S" "list_all plain rs"
  shows "does (permitted rs o') (bootstrapLocked S o' (pathsOf (absolutePath rs)))"
proof -
  have "inside rs (wpRepository (pathsOf (absolutePath rs)))" by (simp add: pathsOf_absolute [OF assms(2)] inside_names)
  then show ?thesis
    unfolding bootstrapLocked_def readMetadata_def existingWorkspace_def emptyRepository_def Let_def
    by (intro boot_intros does_readStateFile does_reads does_directories permitted_reads permitted_changes
        permitted_record [OF assms] permitted_clone [OF assms]; simp)
qed

lemma permitted_checkRoot: "does (permitted rs o') (checkRoot S root)"
  unfolding checkRoot_def by (intro boot_intros permitted_reads; simp)

lemma yields_first: "does P m \<Longrightarrow> (\<And>x. yields P (okWith Q) (f x)) \<Longrightarrow> yields P (okWith Q) (attempt m f)"
  by (rule yields_attempt [where R = "\<lambda>_. True"]) (simp_all add: okWith_True)

lemma permitted_prepare:
  assumes "list_all plain rs"
  shows "does (permitted rs o') (ensureDirectory S (absolutePath (rs @ [''.sandherd''])) mode)"
    and "list_all plain es \<Longrightarrow> es \<noteq> [] \<Longrightarrow> does (permitted rs o') (ensureDirectory S (absolutePath (rs @ es)) mode)"
  by (intro does_directories permitted_reads permitted_changes inside_names; simp)+

text \<open>
  C36. Nothing outside the workspace is created, written, renamed or removed, and the only thing
  removed recursively is the staging directory. git is run only with seven fixed command lines and
  with an environment in which git's own variables, the home directories and the SSH agent
  are those the bootstrap sets, hooks disabled and system configuration off, whatever was inherited.
\<close>

theorem bootstrap_confined:
  assumes "tempsInside S" "o' = applyDefaults (osEnviron S) given" "list_all plain rs" "cleanPath (opWorkspace o') = absolutePath rs"
  shows "does (permitted rs o') (Execute S given)"
proof (cases "validateOptions (osURLParse S) o'")
  case (Some e)
  then show ?thesis by (simp add: Execute_def assms(2) Let_def does_return)
next
  case None
  let ?paths = "pathsOf (absolutePath rs)"
  note paths = pathsOf_absolute [OF assms(3)]
  have adapter: "plain (opAdapterID o')" using None by (auto simp: validateOptions_def intro: adapterID_plain split: if_splits)
  have join: "joinPath (absolutePath (rs @ [''.sandherd''])) ''adapters'' = absolutePath (rs @ [''.sandherd'', ''adapters''])"
    "joinPath (absolutePath (rs @ [''.sandherd'', ''adapters''])) (opAdapterID o') = absolutePath (rs @ [''.sandherd'', ''adapters'', opAdapterID o'])"
    using joinPath_absolute [of "rs @ [''.sandherd'']" "''adapters''"] joinPath_absolute [of "rs @ [''.sandherd'', ''adapters'']" "opAdapterID o'"]
      adapter assms(3) by simp_all
  have prepare: "yields (permitted rs o') (okWith (\<lambda>p. p = ?paths)) (preparePaths S (opWorkspace o'))"
    unfolding preparePaths_def Let_def assms(4)
    by (rule yields_first, rule permitted_checkRoot, rule yields_first, simp add: paths permitted_prepare [OF assms(3)],
        rule yields_first, simp add: paths permitted_prepare [OF assms(3)], simp add: yields_return)
  have "yields (permitted rs o') (okWith (\<lambda>_. True)) (Execute S given)"
    unfolding Execute_def assms(2) [symmetric] Let_def None option.case
  proof (rule yields_attempt [OF prepare])
    fix p
    assume p: "p = ?paths"
    have "inside rs (wpLock ?paths)" by (simp add: paths inside_names)
    then show "yields (permitted rs o') (okWith (\<lambda>_. True)) (attempt (prepareAdapterState S (wpState p) (opAdapterID o')) (\<lambda>_.
        withLock S (wpLock p) (bootstrapLocked S o' p)))"
      unfolding okWith_True p prepareAdapterState_def withLock_def Let_def
      by (intro boot_intros permitted_reads permitted_changes permitted_locked [OF assms(1,3)];
          (simp add: paths join permitted_prepare [OF assms(3)] adapter)?)
  qed
  then show ?thesis by (simp add: okWith_True)
qed

end
