(* ===== verification/Bootstrap_Order.thy ===== *)
theory Bootstrap_Order
  imports Bootstrap_Props
begin

text \<open>
  The order in which the bootstrap changes the workspace. Every step is taken only after what makes
  it safe has happened, so that whenever the process is interrupted, the next run finds either the
  metadata of a complete repository, or an intent under which it starts over or recovers.
\<close>

section \<open>The order of things\<close>

lemma ordered_sysCall:
  "(\<And>h ok. H h \<Longrightarrow> P h (c, ok)) \<Longrightarrow> lasting H \<Longrightarrow> ordered H P (sysCall c f) (\<lambda>r h. H h \<and> (c, isOK r) \<in> set h)"
  by (auto simp: ordered_def sysCall_def lasting_def case_prod_beta Cons_eq_append_conv append_eq_Cons_conv)

lemma ordered_orElse: "ordered H P m (okAfter Q) \<Longrightarrow> ordered H P (orElse m wrap) (okAfter Q)"
  unfolding orElse_def by (erule ordered_bind) (auto intro: ordered_return simp: okAfter_def split: sum.splits)

lemma ordered_step:
  assumes "\<And>h ok. H h \<Longrightarrow> P h (c, ok)" "lasting H"
  shows "ordered H P (orElse (sysCall c f) wrap) (okAfter (\<lambda>x h. H h \<and> (c, True) \<in> set h))"
  by (rule ordered_orElse, rule ordered_conseq, rule ordered_sysCall [where H = H and P = P])
    (auto simp: okAfter_def isOK_def assms split: sum.splits)

text \<open>A part whose actions are always in order, and from which nothing need be known.\<close>

lemma ordered_neutral:
  assumes "does A m" "\<And>h ev. A ev \<Longrightarrow> P h ev" "lasting H"
  shows "ordered H P m (okAfter (\<lambda>_. H))"
proof (rule ordered_conseq)
  show "ordered H P m (\<lambda>_. H)"
    by (rule ordered_frame [where A = A]) (use assms in \<open>auto simp: lasting_def\<close>)
qed (auto simp: okAfter_def split: sum.splits)

lemma ordered_git:
  assumes "\<And>h out ok. H h \<Longrightarrow> P h (Exec b e as out, ok)" "lasting H"
  shows "ordered H P (gitCommand S b e as) (\<lambda>r h. H h \<and> (\<forall>out. r = Inr out \<longrightarrow> (Exec b e as out, True) \<in> set h))"
  using assms by (auto simp: ordered_def gitCommand_def Let_def lasting_def Cons_eq_append_conv append_eq_Cons_conv split: prod.splits option.splits)

lemma ordered_gitClassified:
  assumes "\<And>h out ok. H h \<Longrightarrow> P h (Exec b e as out, ok)" "lasting H"
  shows "ordered H P (git S b e as) (okAfter (\<lambda>out h. H h \<and> (Exec b e as out, True) \<in> set h))"
  unfolding git_def
  by (rule ordered_bind, rule ordered_git [where H = H and P = P], rule assms, assumption, rule assms(2), rule ordered_sum, rule ordered_bind, rule ordered_ask, rule ordered_return, simp,
      rule ordered_return, simp)

lemma ordered_created:
  "(\<And>h ok. H h \<Longrightarrow> P h (c, ok)) \<Longrightarrow> lasting H \<Longrightarrow> (\<And>w x. fst (f w) = Inr x \<Longrightarrow> T x) \<Longrightarrow>
     ordered H P (orElse (sysCall c f) wrap) (okAfter (\<lambda>x h. H h \<and> T x))"
  by (rule ordered_orElse)
    (fastforce simp: ordered_def sysCall_def lasting_def case_prod_beta Cons_eq_append_conv append_eq_Cons_conv okAfter_def split: sum.splits)

section \<open>What is known\<close>

definition intended :: "workspacePaths \<Rightarrow> sysEvent list \<Rightarrow> bool" where
  "intended paths h \<longleftrightarrow> (\<exists>t. (Rename t (wpIntent paths), True) \<in> set h) \<or> (ReadFile (wpIntent paths), True) \<in> set h"

definition fetched :: "workspacePaths \<Rightarrow> sysEvent list \<Rightarrow> bool" where
  "fetched paths h \<longleftrightarrow> (\<exists>b e out. (Exec b e (revParse (wpStaging paths)) out, True) \<in> set h \<and> validCommit (trimSpace out))"

definition destinationFree :: "workspacePaths \<Rightarrow> sysEvent list \<Rightarrow> bool" where
  "destinationFree paths h \<longleftrightarrow> (Lstat (wpRepository paths), False) \<in> set h \<or> (Remove (wpRepository paths), True) \<in> set h"

definition recovered :: "Options \<Rightarrow> workspacePaths \<Rightarrow> sysEvent list \<Rightarrow> bool" where
  "recovered o' paths h \<longleftrightarrow>
     (\<exists>b e out. (Exec b e (originURL (wpRepository paths)) out, True) \<in> set h \<and> trimSpace out = opRepositoryURL o') \<and>
     (\<exists>b e out. (Exec b e (revParse (wpRepository paths)) out, True) \<in> set h \<and> validCommit (trimSpace out))"

text \<open>The repository directory is what the metadata will say it is.\<close>

definition inPlace :: "Options \<Rightarrow> workspacePaths \<Rightarrow> sysEvent list \<Rightarrow> bool" where
  "inPlace o' paths h \<longleftrightarrow>
     fetched paths h \<and> (Rename (wpStaging paths) (wpRepository paths), True) \<in> set h \<or>
     recovered o' paths h \<or>
     opRepositoryURL o' = [] \<and>
       ((\<exists>mode. (Mkdir (wpRepository paths) mode, True) \<in> set h) \<or> (ReadDir (wpRepository paths), True) \<in> set h)"

definition recorded :: "workspacePaths \<Rightarrow> sysEvent list \<Rightarrow> bool" where
  "recorded paths h \<longleftrightarrow> (\<exists>t. (Rename t (wpMetadata paths), True) \<in> set h)"

definition inOrder :: "Options \<Rightarrow> workspacePaths \<Rightarrow> sysEvent list \<Rightarrow> sysEvent \<Rightarrow> bool" where
  "inOrder o' paths h ev \<longleftrightarrow>
     (\<forall>t. fst ev = Rename t (wpMetadata paths) \<longrightarrow> inPlace o' paths h) \<and>
     (fst ev = Rename (wpStaging paths) (wpRepository paths) \<longrightarrow> fetched paths h \<and> intended paths h \<and> destinationFree paths h) \<and>
     (fst ev = Remove (wpIntent paths) \<longrightarrow> recorded paths h) \<and>
     (\<forall>b e as out. fst ev = Exec b e as out \<longrightarrow> as \<in> set (fetchCommands o' (wpStaging paths)) \<longrightarrow> intended paths h)"

lemmas known_defs = intended_def fetched_def destinationFree_def recovered_def inPlace_def recorded_def

lemma lasting_facts:
  "lasting (intended paths)" "lasting (fetched paths)" "lasting (destinationFree paths)" "lasting (recovered o' paths)"
  "lasting (inPlace o' paths)" "lasting (recorded paths)"
  unfolding known_defs [abs_def] by (intro lasting_intros)+

text \<open>Actions that are in order at any time.\<close>

definition anytime :: "workspacePaths \<Rightarrow> sysEvent \<Rightarrow> bool" where
  "anytime paths ev \<longleftrightarrow>
     (\<forall>t. fst ev \<noteq> Rename t (wpMetadata paths) \<and> fst ev \<noteq> Rename t (wpRepository paths)) \<and> fst ev \<noteq> Remove (wpIntent paths) \<and>
     (\<forall>b e as out. fst ev \<noteq> Exec b e as out)"

lemma anytime_inOrder: "anytime paths ev \<Longrightarrow> inOrder o' paths h ev"
  by (auto simp: anytime_def inOrder_def)

lemma ordered_anytime: "does (anytime paths) m \<Longrightarrow> lasting H \<Longrightarrow> ordered H (inOrder o' paths) m (okAfter (\<lambda>_. H))"
  by (rule ordered_neutral [where A = "anytime paths"]) (simp_all add: anytime_inOrder)

lemma anytime_calls:
  "anytime paths (Lstat p, ok)" "anytime paths (Stat p, ok)" "anytime paths (EvalSymlinks p, ok)" "anytime paths (ReadDir p, ok)"
  "anytime paths (Flock p, ok)" "anytime paths (Unlock p, ok)" "anytime paths (CloseLock p, ok)" "anytime paths (ReadFile p, ok)"
  "anytime paths (Sync p, ok)" "anytime paths (CloseTemp p, ok)" "anytime paths (Mkdir p mode, ok)" "anytime paths (OpenLock p, ok)"
  "anytime paths (CreateTemp p, ok)" "anytime paths (Chmod p mode, ok)" "anytime paths (Write p c, ok)" "anytime paths (RemoveAll p, ok)"
  "p \<noteq> wpIntent paths \<Longrightarrow> anytime paths (Remove p, ok)"
  "p \<noteq> wpMetadata paths \<Longrightarrow> p \<noteq> wpRepository paths \<Longrightarrow> anytime paths (Rename t p, ok)"
  by (simp_all add: anytime_def)

lemma ordered_then:
  assumes "does (anytime paths) m" "lasting H" "\<And>x. ordered H (inOrder o' paths) (f x) (okAfter Q)"
  shows "ordered H (inOrder o' paths) (attempt m f) (okAfter Q)"
  using ordered_attempt [OF ordered_anytime [OF assms(1,2)] assms(3)] .

lemma ordered_finally:
  assumes "ordered H (inOrder o' paths) m (okAfter Q)" "\<And>x. lasting (Q x)" "does (anytime paths) cleanup"
  shows "ordered H (inOrder o' paths) (do { r \<leftarrow> m; _ \<leftarrow> cleanup; ret r }) (okAfter Q)"
proof (rule ordered_bind [OF assms(1)])
  fix r
  have "lasting (okAfter Q r)" using assms(2) by (cases r) (simp_all add: lasting_def)
  then have "ordered (okAfter Q r) (inOrder o' paths) cleanup (\<lambda>_. okAfter Q r)"
    by (intro ordered_frame [where A = "anytime paths"] anytime_inOrder assms(3)) (auto simp: lasting_def)
  then show "ordered (okAfter Q r) (inOrder o' paths) (do { _ \<leftarrow> cleanup; ret r }) (okAfter Q)"
    by (rule ordered_bind) (rule ordered_return)
qed

definition apart :: "'w os \<Rightarrow> workspacePaths \<Rightarrow> bool" where
  "apart S paths \<longleftrightarrow>
     distinct [wpMetadata paths, wpIntent paths, wpRepository paths, wpStaging paths] \<and>
     (\<forall>p w t. p \<in> {wpMetadata paths, wpIntent paths} \<longrightarrow> fst (osCreateTemp S (dirPath p) ''.bootstrap-*.tmp'' w) = Inr t \<longrightarrow>
        t \<noteq> wpIntent paths \<and> t \<noteq> wpStaging paths)"

lemma paths_apart:
  assumes "tempsInside S" "list_all plain rs"
  shows "apart S (pathsOf (absolutePath rs))"
proof -
  note paths = pathsOf_absolute [OF assms(2)]
  have inj: "list_all plain es \<Longrightarrow> list_all plain fs \<Longrightarrow> absolutePath (rs @ es) = absolutePath (rs @ fs) \<Longrightarrow> es = fs" for es fs
    using absolutePath_inject [of "rs @ es" "rs @ fs"] assms(2) by simp
  have dir: "dirPath (absolutePath (rs @ [''.sandherd'', n])) = absolutePath (rs @ [''.sandherd''])" if "plain n" for n
    using dirPath_absolute [of "rs @ [''.sandherd'']" n] assms(2) that by simp
  have temp: "joinPath (absolutePath (rs @ [''.sandherd''])) (tempName x) \<noteq> absolutePath (rs @ [''.sandherd'', n])"
    if "slash \<notin> set x" "plain n" "n \<noteq> tempName x" for x n
    using joinPath_absolute [of "rs @ [''.sandherd'']" "tempName x"] inj [of "[''.sandherd'', tempName x]" "[''.sandherd'', n]"]
      tempName_plain [OF that(1)] that assms(2) by auto
  have temps: "t \<noteq> absolutePath (rs @ [''.sandherd'', ''bootstrap-intent.json'']) \<and> t \<noteq> absolutePath (rs @ [''.sandherd'', ''bootstrap-staging''])"
    if t: "fst (osCreateTemp S (absolutePath (rs @ [''.sandherd''])) ''.bootstrap-*.tmp'' w) = Inr t" for w t
  proof -
    from assms(1) t obtain x where "slash \<notin> set x" "t = joinPath (absolutePath (rs @ [''.sandherd''])) (tempName x)"
      unfolding tempsInside_def by blast
    then show ?thesis using temp by (simp add: tempName_def)
  qed
  have "distinct [wpMetadata (pathsOf (absolutePath rs)), wpIntent (pathsOf (absolutePath rs)),
      wpRepository (pathsOf (absolutePath rs)), wpStaging (pathsOf (absolutePath rs))]"
    by (auto simp: paths dest!: inj [rotated 2])
  then show ?thesis using temps by (auto simp: apart_def paths dir)
qed

section \<open>Records\<close>

lemma ordered_commitTemp:
  assumes H: "lasting H" and p: "p = wpIntent paths \<or> p = wpMetadata paths \<and> (\<forall>h. H h \<longrightarrow> inPlace o' paths h)"
    and a: "apart S paths" "t \<noteq> wpStaging paths"
  shows "ordered H (inOrder o' paths) (commitTemp S t p contents) (okAfter (\<lambda>_ h. H h \<and> (Rename t p, True) \<in> set h))"
proof -
  have rename: "inOrder o' paths h (Rename t p, ok)" if "H h" for h ok
    using that p a by (auto simp: inOrder_def apart_def)
  show ?thesis
    unfolding commitTemp_def closeTemp_def
    by (rule ordered_then, intro boot_intros anytime_calls, rule H)+ (rule ordered_step, rule rename, assumption, rule H)
qed

lemma ordered_write:
  assumes H: "lasting H" and p: "p = wpIntent paths \<or> p = wpMetadata paths \<and> (\<forall>h. H h \<longrightarrow> inPlace o' paths h)"
    and a: "apart S paths"
  shows "ordered H (inOrder o' paths) (writeJSONFile S p v) (okAfter (\<lambda>_ h. H h \<and> (\<exists>t. (Rename t p, True) \<in> set h)))"
proof -
  let ?Q = "\<lambda>_ h. H h \<and> (\<exists>t. (Rename t p, True) \<in> set h)"
  let ?T = "\<lambda>t. t \<noteq> wpIntent paths \<and> t \<noteq> wpStaging paths"
  have temp: "?T t" if "fst (osCreateTemp S (dirPath p) ''.bootstrap-*.tmp'' w) = Inr t" for w t
    using a p that by (auto simp: apart_def)
  have last: "lasting (?Q x)" for x :: unit using H by (intro lasting_intros) auto
  have body: "ordered (\<lambda>h. H h \<and> ?T t) (inOrder o' paths) (do {
      r \<leftarrow> commitTemp S t p (osPrintJSON S v @ [CHR 0x0A]); _ \<leftarrow> sysCall (Remove t) (osRemove S t); ret r }) (okAfter ?Q)" for t
  proof (cases "?T t")
    case True
    have commit: "ordered (\<lambda>h. H h \<and> ?T t) (inOrder o' paths) (commitTemp S t p (osPrintJSON S v @ [CHR 0x0A])) (okAfter ?Q)"
      by (rule ordered_conseq [OF ordered_commitTemp [OF H p a, of t]]) (use True in \<open>auto simp: okAfter_def split: sum.splits\<close>)
    show ?thesis
      by (rule ordered_finally [OF commit last]) (use True in \<open>intro does_sysCall anytime_calls; simp\<close>)
  next
    case False
    then show ?thesis by (auto simp: ordered_def)
  qed
  show ?thesis
    unfolding writeJSONFile_def
  proof (rule ordered_attempt)
    show "ordered H (inOrder o' paths) (orElse (sysCall (CreateTemp (dirPath p)) (osCreateTemp S (dirPath p) ''.bootstrap-*.tmp''))
        (metadataFailed ''create workspace metadata'')) (okAfter (\<lambda>t h. H h \<and> ?T t))"
      by (rule ordered_created) (auto intro!: anytime_inOrder anytime_calls H temp)
  qed (rule body)
qed

section \<open>Steps\<close>

definition parsed :: "string \<Rightarrow> string \<Rightarrow> sysEvent list \<Rightarrow> bool" where
  "parsed dir out h \<longleftrightarrow> (\<exists>b e. (Exec b e (revParse dir) out, True) \<in> set h)"

lemma lasting_parsed: "lasting (parsed dir out)"
  unfolding parsed_def [abs_def] by (intro lasting_intros)

lemma parsedI: "(Exec b e (revParse dir) out, True) \<in> set h \<Longrightarrow> parsed dir out h"
  by (auto simp: parsed_def)

text \<open>Where the metadata of a successful run comes from.\<close>

definition provenance :: "Options \<Rightarrow> workspacePaths \<Rightarrow> BootMetadata \<Rightarrow> sysEvent list \<Rightarrow> bool" where
  "provenance o' paths m h \<longleftrightarrow>
     (ReadFile (wpMetadata paths), True) \<in> set h \<and> sameWorkspace o' m \<or>
     recorded paths h \<and> bmRepositoryURL m = opRepositoryURL o' \<and> bmRequestedRevision m = opRevision o' \<and>
       (if opRepositoryURL o' = [] then bmResolvedCommit m = []
        else validCommit (bmResolvedCommit m) \<and>
          (\<exists>out. (parsed (wpStaging paths) out h \<or> parsed (wpRepository paths) out h) \<and> trimSpace out = bmResolvedCommit m))"

lemma ordered_record:
  assumes "lasting H" "\<forall>h. H h \<longrightarrow> inPlace o' paths h" "apart S paths"
  shows "ordered H (inOrder o' paths) (recordCompleted S paths m) (okAfter (\<lambda>m' h. m' = m \<and> H h \<and> recorded paths h))"
  unfolding recordCompleted_def writeMetadata_def
proof (rule ordered_attempt [OF ordered_write], rule assms(1))
  let ?K = "\<lambda>h. H h \<and> recorded paths h"
  have K: "lasting ?K" by (intro lasting_intros assms(1) lasting_facts)
  fix u :: unit
  have remove: "ordered ?K (inOrder o' paths) (removeIntent S (wpIntent paths)) (okAfter (\<lambda>_. ?K))"
    unfolding removeIntent_def
  proof (rule ordered_bind [OF ordered_sysCall [where H = ?K]])
    show "inOrder o' paths h (Remove (wpIntent paths), ok)" if "?K h" for h ok using that by (simp add: inOrder_def)
    fix r :: "osError + unit"
    show "ordered (\<lambda>h. ?K h \<and> (Remove (wpIntent paths), isOK r) \<in> set h) (inOrder o' paths)
        (case r of Inl e \<Rightarrow> if isNotExist e then gives () else fails (metadataFailed ''remove completed workspace bootstrap intent'' e)
         | Inr _ \<Rightarrow> gives ()) (okAfter (\<lambda>_. ?K))"
      by (intro ordered_sum ordered_if ordered_return) simp_all
  qed (rule K)
  show "ordered (\<lambda>h. H h \<and> (\<exists>t. (Rename t (wpMetadata paths), True) \<in> set h)) (inOrder o' paths)
      (attempt (removeIntent S (wpIntent paths)) (\<lambda>_. gives m)) (okAfter (\<lambda>m' h. m' = m \<and> H h \<and> recorded paths h))"
    by (rule ordered_attempt, rule ordered_conseq [OF remove]) (auto simp: recorded_def intro!: ordered_return)
qed (use assms in auto)

lemma ordered_runAll:
  assumes "lasting H" "\<And>h. H h \<Longrightarrow> intended paths h"
  shows "ordered H (inOrder o' paths) (runAll S b e cs) (okAfter (\<lambda>_. H))"
proof (induction cs)
  case Nil
  then show ?case by (simp add: ordered_return)
next
  case (Cons c cs)
  have exec: "inOrder o' paths h (Exec b e c out, ok)" if "H h" for h out ok using assms(2) [OF that] by (simp add: inOrder_def)
  have "ordered H (inOrder o' paths) (git S b e c) (okAfter (\<lambda>_. H))"
    by (rule ordered_conseq, rule ordered_gitClassified [where H = H], rule exec, assumption, rule assms(1))
      (auto simp: okAfter_def split: sum.splits)
  with Cons.IH show ?case by (auto intro: ordered_attempt)
qed

lemma revParse_not_fetch: "revParse d \<notin> set (fetchCommands o' staging)" "originURL d \<notin> set (fetchCommands o' staging)"
  by (simp_all add: revParse_def originURL_def fetchCommands_def)

lemma inOrder_query:
  "inOrder o' paths h (Exec b e (revParse d) out, ok)" "inOrder o' paths h (Exec b e (originURL d) out, ok)"
  by (simp_all add: inOrder_def revParse_not_fetch)

lemma ordered_query:
  "lasting H \<Longrightarrow> ordered H (inOrder o' paths) (git S b e (revParse d)) (okAfter (\<lambda>out h. H h \<and> (Exec b e (revParse d) out, True) \<in> set h))"
  by (rule ordered_gitClassified [where H = H and P = "inOrder o' paths"]) (rule inOrder_query)

abbreviation fromGit :: "Options \<Rightarrow> workspacePaths \<Rightarrow> BootMetadata \<Rightarrow> sysEvent list \<Rightarrow> bool" where
  "fromGit o' paths m h \<equiv> recorded paths h \<and> bmRepositoryURL m = opRepositoryURL o' \<and> bmRequestedRevision m = opRevision o' \<and>
     validCommit (bmResolvedCommit m) \<and>
     (\<exists>out. (parsed (wpStaging paths) out h \<or> parsed (wpRepository paths) out h) \<and> trimSpace out = bmResolvedCommit m)"

lemma ordered_fetch:
  assumes a: "apart S paths"
  shows "ordered (\<lambda>h. intended paths h \<and> destinationFree paths h) (inOrder o' paths) (fetchRepository S o' paths e) (okAfter (fromGit o' paths))"
  unfolding fetchRepository_def Let_def
proof (rule ordered_attempt [OF ordered_runAll])
  let ?H = "\<lambda>h. intended paths h \<and> destinationFree paths h"
  let ?rename = "Rename (wpStaging paths) (wpRepository paths)"
  show H: "lasting ?H" by (intro lasting_intros lasting_facts)
  show "intended paths h" if "?H h" for h using that by simp
  fix u :: unit
  show "ordered ?H (inOrder o' paths)
      (attempt (git S (opGitBinary o') e (revParse (wpStaging paths))) (\<lambda>output.
       if \<not> validCommit (trimSpace output) then fails commitInvalid
       else attempt (orElse (sysCall ?rename (osRename S (wpStaging paths) (wpRepository paths)))
           (workspaceErr ''workspace_commit_failed'' ''commit the bootstrapped repository to the workspace'')) (\<lambda>_. do {
         now \<leftarrow> ask (osNow S);
         recordCompleted S paths (completed o' (trimSpace output) now) }))) (okAfter (fromGit o' paths))"
  proof (rule ordered_attempt [OF ordered_query [OF H]], rule ordered_if, rule ordered_return, simp)
    fix out
    assume valid: "\<not> \<not> validCommit (trimSpace out)"
    let ?K = "\<lambda>h. (intended paths h \<and> destinationFree paths h) \<and> (Exec (opGitBinary o') e (revParse (wpStaging paths)) out, True) \<in> set h"
    have K: "lasting ?K" by (intro lasting_intros lasting_facts)
    have got: "fetched paths h" if "?K h" for h using that valid by (auto simp: fetched_def)
    have ren: "inOrder o' paths h (?rename, ok)" if "?K h" for h ok
      using that got [OF that] a by (auto simp: inOrder_def apart_def)
    let ?L = "\<lambda>h. ?K h \<and> (?rename, True) \<in> set h"
    have L: "lasting ?L" by (intro lasting_intros K lasting_facts)
    have "inPlace o' paths h" if "?L h" for h using that got by (auto simp: inPlace_def)
    then have rec: "ordered ?L (inOrder o' paths) (recordCompleted S paths m) (okAfter (\<lambda>m' h. m' = m \<and> ?L h \<and> recorded paths h))" for m
      by (intro ordered_record L a) blast
    show "ordered ?K (inOrder o' paths) (attempt (orElse (sysCall ?rename (osRename S (wpStaging paths) (wpRepository paths)))
           (workspaceErr ''workspace_commit_failed'' ''commit the bootstrapped repository to the workspace'')) (\<lambda>_. do {
         now \<leftarrow> ask (osNow S);
         recordCompleted S paths (completed o' (trimSpace out) now) })) (okAfter (fromGit o' paths))"
    proof (rule ordered_attempt, rule ordered_step [where H = ?K and P = "inOrder o' paths"], rule ren, assumption, rule K,
        rule ordered_bind [OF ordered_ask])
      fix now
      show "ordered ?L (inOrder o' paths) (recordCompleted S paths (completed o' (trimSpace out) now)) (okAfter (fromGit o' paths))"
        by (rule ordered_conseq [OF rec]) (use valid in \<open>auto simp: okAfter_def completed_def parsed_def split: sum.splits\<close>)
    qed
  qed
qed

lemma ordered_raw_query:
  assumes "lasting H" "as = revParse d \<or> as = originURL d"
  shows "ordered H (inOrder o' paths) (gitCommand S b e as) (\<lambda>r h. H h \<and> (\<forall>out. r = Inr out \<longrightarrow> (Exec b e as out, True) \<in> set h))"
  by (rule ordered_git [where H = H and P = "inOrder o' paths"]) (use assms inOrder_query in auto)

lemma ordered_recover:
  assumes a: "apart S paths" and H: "lasting H"
  shows "ordered H (inOrder o' paths) (recoverRepository S o' paths e) (okAfter (fromGit o' paths))"
  unfolding recoverRepository_def
proof (rule ordered_bind [OF ordered_raw_query [OF H disjI2 [OF refl]]], rule ordered_if, rule ordered_return, simp)
  fix origin
  assume "\<not> (case origin of Inl _ \<Rightarrow> True | Inr url \<Rightarrow> trimSpace url \<noteq> opRepositoryURL o')"
  then obtain url where url: "origin = Inr url" "trimSpace url = opRepositoryURL o'" by (auto split: sum.splits)
  let ?H = "\<lambda>h. H h \<and> (\<forall>out. origin = Inr out \<longrightarrow> (Exec (opGitBinary o') e (originURL (wpRepository paths)) out, True) \<in> set h)"
  have H': "lasting ?H" using H by (auto simp: lasting_def)
  show "ordered ?H (inOrder o' paths) (do {
       r \<leftarrow> gitCommand S (opGitBinary o') e (revParse (wpRepository paths));
       case r of
         Inl e \<Rightarrow> fails (repositoryError ''repository_bootstrap_failed'' ''verify an interrupted repository bootstrap'' (Some (fst e)))
       | Inr commit \<Rightarrow> do {
           now \<leftarrow> ask (osNow S);
           if \<not> validCommit (trimSpace commit) then fails commitInvalid
           else recordCompleted S paths (completed o' (trimSpace commit) now) } }) (okAfter (fromGit o' paths))"
  proof (rule ordered_bind [OF ordered_raw_query [OF H' disjI1 [OF refl]]], rule ordered_sum, rule ordered_return, simp)
    fix r :: "osError \<times> string + string" and commit
    assume r: "r = Inr commit"
    let ?K = "\<lambda>h. ?H h \<and> (\<forall>out. r = Inr out \<longrightarrow> (Exec (opGitBinary o') e (revParse (wpRepository paths)) out, True) \<in> set h)"
    have K: "lasting ?K" using H by (auto simp: lasting_def)
    show "ordered ?K (inOrder o' paths) (do {
           now \<leftarrow> ask (osNow S);
           if \<not> validCommit (trimSpace commit) then fails commitInvalid
           else recordCompleted S paths (completed o' (trimSpace commit) now) }) (okAfter (fromGit o' paths))"
    proof (rule ordered_bind [OF ordered_ask], rule ordered_if, rule ordered_return, simp)
      fix now
      assume valid: "\<not> \<not> validCommit (trimSpace commit)"
      have "inPlace o' paths h" if "?K h" for h using that url r valid by (auto simp: inPlace_def recovered_def)
      then have rec: "ordered ?K (inOrder o' paths) (recordCompleted S paths m) (okAfter (\<lambda>m' h. m' = m \<and> ?K h \<and> recorded paths h))" for m
        by (intro ordered_record K a) blast
      show "ordered ?K (inOrder o' paths) (recordCompleted S paths (completed o' (trimSpace commit) now)) (okAfter (fromGit o' paths))"
        by (rule ordered_conseq [OF rec]) (use valid r in \<open>auto simp: okAfter_def completed_def intro!: exI [of _ commit] intro: parsedI split: sum.splits\<close>)
    qed
  qed
qed

lemma ordered_destination:
  assumes a: "apart S paths"
  shows "ordered (intended paths) (inOrder o' paths) (requireRepositoryDestinationAvailable S (wpRepository paths))
    (okAfter (\<lambda>_ h. intended paths h \<and> destinationFree paths h))"
  unfolding requireRepositoryDestinationAvailable_def
proof (rule ordered_bind [OF ordered_sysCall [where H = "intended paths"]])
  fix r :: "osError + fileInfo"
  let ?K = "\<lambda>h. intended paths h \<and> (Lstat (wpRepository paths), isOK r) \<in> set h"
  have K: "lasting ?K" by (intro lasting_intros lasting_facts)
  have remove: "ordered ?K (inOrder o' paths) (orElse (sysCall (Remove (wpRepository paths)) (osRemove S (wpRepository paths)))
      (workspaceErr ''workspace_initialize_failed'' ''prepare the repository destination'')) (okAfter (\<lambda>_ h. intended paths h \<and> destinationFree paths h))"
  proof (rule ordered_conseq)
    show "ordered ?K (inOrder o' paths) (orElse (sysCall (Remove (wpRepository paths)) (osRemove S (wpRepository paths)))
        (workspaceErr ''workspace_initialize_failed'' ''prepare the repository destination''))
        (okAfter (\<lambda>_ h. ?K h \<and> (Remove (wpRepository paths), True) \<in> set h))"
      by (rule ordered_step [where H = ?K]) (use a in \<open>auto intro!: anytime_inOrder anytime_calls K simp: apart_def\<close>)
  qed (auto simp: destinationFree_def okAfter_def split: sum.splits)
  show "ordered ?K (inOrder o' paths)
      (case r of
       Inl e \<Rightarrow>
         if isNotExist e then gives ()
         else fails (workspaceErr ''workspace_unavailable'' ''inspect the repository destination'' e)
     | Inr info \<Rightarrow>
         if fiSymlink info \<or> \<not> fiDir info
         then fails (workspaceError ''workspace_unsafe'' ''the repository destination must be a real directory'' None)
         else attempt (requireEmpty S (wpRepository paths) ''inspect the repository destination'' ''refusing to replace an untracked repository directory'') (\<lambda>_.
           orElse (sysCall (Remove (wpRepository paths)) (osRemove S (wpRepository paths)))
             (workspaceErr ''workspace_initialize_failed'' ''prepare the repository destination'')))
      (okAfter (\<lambda>_ h. intended paths h \<and> destinationFree paths h))"
    by (rule ordered_sum; (rule ordered_if)?; (rule ordered_return)?;
        (rule ordered_then, intro does_reads anytime_calls, rule K, rule remove)?)
      (auto simp: isOK_def destinationFree_def)
qed (auto intro: anytime_inOrder anytime_calls lasting_facts)

lemma ordered_stage:
  assumes a: "apart S paths"
  shows "ordered (intended paths) (inOrder o' paths) (stageRepository S o' paths e) (okAfter (fromGit o' paths))"
  unfolding stageRepository_def
proof (rule ordered_attempt [OF ordered_destination [OF a]], rule ordered_then)
  let ?H = "\<lambda>h. intended paths h \<and> destinationFree paths h"
  show "does (anytime paths) (resetStaging S (wpStaging paths))"
    using a by (intro does_directories anytime_calls) (auto simp: apart_def)
  show "lasting ?H" by (intro lasting_intros lasting_facts)
  have last: "lasting (fromGit o' paths m)" for m by (intro lasting_intros lasting_facts lasting_parsed)
  show "ordered ?H (inOrder o' paths) (do {
       r \<leftarrow> fetchRepository S o' paths e;
       _ \<leftarrow> sysCall (RemoveAll (wpStaging paths)) (osRemoveAll S (wpStaging paths));
       ret r }) (okAfter (fromGit o' paths))"
    by (rule ordered_finally [OF ordered_fetch [OF a] last]) (intro does_sysCall anytime_calls)
qed

section \<open>The whole bootstrap\<close>

lemma fromGit_provenance: "opRepositoryURL o' \<noteq> [] \<Longrightarrow> fromGit o' paths m h \<Longrightarrow> provenance o' paths m h"
  by (simp add: provenance_def)

lemma ordered_readState:
  assumes H: "lasting H"
  shows "ordered H (inOrder o' paths) (readStateFile S p i u rd bad decode)
    (okAfter (\<lambda>x h. H h \<and> (x \<noteq> None \<longrightarrow> (ReadFile p, True) \<in> set h)))"
  unfolding readStateFile_def
proof (rule ordered_bind [OF ordered_sysCall [where H = H]])
  fix r :: "osError + fileInfo"
  let ?K = "\<lambda>h. H h \<and> (Lstat p, isOK r) \<in> set h"
  have K: "lasting ?K" by (intro lasting_intros H)
  have small: "ordered ?K (inOrder o' paths) (readSmallFile S p) (okAfter (\<lambda>_ h. H h \<and> (ReadFile p, True) \<in> set h))"
    unfolding readSmallFile_def
  proof (rule ordered_bind [OF ordered_sysCall [where H = ?K]])
    fix c :: "osError + string"
    show "ordered (\<lambda>h. ?K h \<and> (ReadFile p, isOK c) \<in> set h) (inOrder o' paths)
       (case c of Inl e \<Rightarrow> ret (Inl e) | Inr contents \<Rightarrow>
         if length contents > smallFile then ret (Inl (Failure (''file exceeds '' @ digits smallFile @ '' bytes'')))
         else ret (Inr contents)) (okAfter (\<lambda>_ h. H h \<and> (ReadFile p, True) \<in> set h))"
      by (intro ordered_sum ordered_if ordered_return) (auto simp: isOK_def)
  qed (auto intro: anytime_inOrder anytime_calls K)
  show "ordered ?K (inOrder o' paths)
     (case r of
       Inl e \<Rightarrow> if isNotExist e then gives None else fails (workspaceErr ''workspace_unavailable'' i e)
     | Inr info \<Rightarrow>
         if fiSymlink info \<or> \<not> fiRegular info then fails (workspaceError ''workspace_unsafe'' u None)
         else attempt (orElse (readSmallFile S p) (workspaceErr ''workspace_unavailable'' rd)) (\<lambda>contents.
           case decode contents of
             Inl e \<Rightarrow> fails (workspaceError ''workspace_metadata_invalid'' bad e)
           | Inr x \<Rightarrow> gives (Some x))) (okAfter (\<lambda>x h. H h \<and> (x \<noteq> None \<longrightarrow> (ReadFile p, True) \<in> set h)))"
    by (intro ordered_sum ordered_if ordered_return ordered_attempt [OF ordered_orElse [OF small]]) simp_all
qed (auto intro: anytime_inOrder anytime_calls H)

lemma ordered_clone:
  assumes a: "apart S paths" and url: "opRepositoryURL o' \<noteq> []"
  shows "ordered (\<lambda>_. True) (inOrder o' paths) (cloneRepository S o' paths) (okAfter (provenance o' paths))"
  unfolding cloneRepository_def readIntent_def
proof (rule ordered_then, intro does_gitEnvironment anytime_calls, simp add: lasting_def,
    rule ordered_attempt [OF ordered_readState], simp add: lasting_def)
  fix e and intent :: "bootstrapIntent option"
  have last: "lasting (intended paths)" by (rule lasting_facts)
  have stage: "ordered (intended paths) (inOrder o' paths) (stageRepository S o' paths e) (okAfter (provenance o' paths))"
    by (rule ordered_conseq [OF ordered_stage [OF a]]) (use fromGit_provenance [OF url] in \<open>auto simp: okAfter_def split: sum.splits\<close>)
  have recover: "ordered (intended paths) (inOrder o' paths) (recoverCommittedRepository S o' paths e)
      (okAfter (\<lambda>x h. case x of Some m \<Rightarrow> fromGit o' paths m h | None \<Rightarrow> intended paths h))"
    unfolding recoverCommittedRepository_def
  proof (rule ordered_bind [OF ordered_sysCall [where H = "intended paths"]])
    fix r :: "osError + fileInfo"
    let ?K = "\<lambda>h. intended paths h \<and> (Lstat (wpRepository paths), isOK r) \<in> set h"
    have K: "lasting ?K" by (intro lasting_intros last)
    show "ordered ?K (inOrder o' paths)
       (case r of
         Inl e \<Rightarrow> if isNotExist e then gives None
           else fails (workspaceErr ''workspace_unavailable'' ''inspect an interrupted repository bootstrap'' e)
       | Inr info \<Rightarrow>
           if fiSymlink info \<or> \<not> fiDir info
           then fails (workspaceError ''workspace_unsafe'' ''the repository path must be a real directory'' None)
           else attempt (recoverRepository S o' paths e) (\<lambda>m. gives (Some m)))
       (okAfter (\<lambda>x h. case x of Some m \<Rightarrow> fromGit o' paths m h | None \<Rightarrow> intended paths h))"
      by (intro ordered_sum ordered_if ordered_return ordered_attempt [OF ordered_recover [OF a K]]) simp_all
  qed (auto intro: anytime_inOrder anytime_calls last)
  show "ordered (\<lambda>h. True \<and> (intent \<noteq> None \<longrightarrow> (ReadFile (wpIntent paths), True) \<in> set h)) (inOrder o' paths)
     (case intent of
         Some i \<Rightarrow>
           if biRepositoryURL i \<noteq> opRepositoryURL o' \<or> biRequestedRevision i \<noteq> opRevision o'
           then fails (identityMismatch ''an interrupted bootstrap belongs to a different repository or revision'')
           else attempt (recoverCommittedRepository S o' paths e) (\<lambda>recovered.
             case recovered of Some m \<Rightarrow> gives m | None \<Rightarrow> stageRepository S o' paths e)
       | None \<Rightarrow>
           attempt (writeIntent S (wpIntent paths) \<lparr>biRepositoryURL = opRepositoryURL o', biRequestedRevision = opRevision o'\<rparr>) (\<lambda>_.
             stageRepository S o' paths e)) (okAfter (provenance o' paths))"
  proof (cases intent)
    case None
    have "ordered (\<lambda>_. True) (inOrder o' paths) (writeIntent S (wpIntent paths) i) (okAfter (\<lambda>_. intended paths))" for i
      unfolding writeIntent_def
      by (rule ordered_conseq, rule ordered_write [where H = "\<lambda>_. True", OF _ _ a])
        (auto simp: lasting_def intended_def okAfter_def split: sum.splits)
    then show ?thesis using None stage by (auto intro: ordered_attempt)
  next
    case (Some i)
    have "ordered (intended paths) (inOrder o' paths) (attempt (recoverCommittedRepository S o' paths e) (\<lambda>recovered.
        case recovered of Some m \<Rightarrow> gives m | None \<Rightarrow> stageRepository S o' paths e)) (okAfter (provenance o' paths))"
      by (rule ordered_attempt [OF recover], rule ordered_option, simp add: stage, rule ordered_return)
        (use fromGit_provenance [OF url] in simp)
    then have "ordered (\<lambda>h. (ReadFile (wpIntent paths), True) \<in> set h) (inOrder o' paths) (attempt (recoverCommittedRepository S o' paths e) (\<lambda>recovered.
        case recovered of Some m \<Rightarrow> gives m | None \<Rightarrow> stageRepository S o' paths e)) (okAfter (provenance o' paths))"
      by (rule ordered_conseq) (simp_all add: intended_def)
    then show ?thesis using Some by (simp add: ordered_return)
  qed
qed

lemma ordered_empty:
  assumes a: "apart S paths" and url: "opRepositoryURL o' = []"
  shows "ordered (\<lambda>_. True) (inOrder o' paths) (emptyRepository S o' paths) (okAfter (provenance o' paths))"
proof -
  let ?repo = "wpRepository paths"
  have T: "lasting (\<lambda>_. True)" by (simp add: lasting_def)
  have ensure: "ordered (\<lambda>_. True) (inOrder o' paths) (ensureEmptyRepositoryDirectory S ?repo) (okAfter (\<lambda>_. inPlace o' paths))"
    unfolding ensureEmptyRepositoryDirectory_def
  proof (rule ordered_bind [OF ordered_sysCall [where H = "\<lambda>_. True"]])
    fix r :: "osError + fileInfo"
    let ?K = "\<lambda>h. True \<and> (Lstat ?repo, isOK r) \<in> set h"
    have K: "lasting ?K" by (intro lasting_intros)
    have step: "ordered ?K (inOrder o' paths) (orElse (sysCall c f) wrap) (okAfter (\<lambda>x h. ?K h \<and> (c, True) \<in> set h))"
      if "\<And>ok. anytime paths (c, ok)" for c and f :: "'a \<Rightarrow> (osError + 'b) \<times> 'a" and wrap
      by (rule ordered_step [where H = ?K]) (use that K in \<open>auto intro: anytime_inOrder\<close>)
    have made: "ordered ?K (inOrder o' paths) (orElse (sysCall (Mkdir ?repo 488) (osMkdir S ?repo 488))
        (workspaceErr ''workspace_initialize_failed'' ''create the empty repository directory'')) (okAfter (\<lambda>_. inPlace o' paths))"
      by (rule ordered_conseq [OF step]) (use url in \<open>auto simp: inPlace_def okAfter_def anytime_calls split: sum.splits\<close>)
    have empty: "ordered ?K (inOrder o' paths) (requireEmpty S ?repo i rf) (okAfter (\<lambda>_. inPlace o' paths))" for i rf
      unfolding requireEmpty_def
      by (rule ordered_attempt [OF step], rule anytime_calls, rule ordered_if, rule ordered_return, simp, rule ordered_return)
        (use url in \<open>auto simp: inPlace_def\<close>)
    show "ordered ?K (inOrder o' paths)
      (case r of
       Inl e \<Rightarrow>
         if isNotExist e
         then orElse (sysCall (Mkdir ?repo 488) (osMkdir S ?repo 488)) (workspaceErr ''workspace_initialize_failed'' ''create the empty repository directory'')
         else fails (workspaceErr ''workspace_unavailable'' ''inspect the repository directory'' e)
     | Inr info \<Rightarrow>
         if fiSymlink info \<or> \<not> fiDir info
         then fails (workspaceError ''workspace_unsafe'' ''the repository path must be a real directory'' None)
         else requireEmpty S ?repo ''inspect the empty repository directory'' ''refusing to adopt an untracked repository directory'')
      (okAfter (\<lambda>_. inPlace o' paths))"
      by (intro ordered_sum ordered_if made empty ordered_return) simp_all
  qed (auto intro: anytime_inOrder anytime_calls T)
  have written: "ordered (inPlace o' paths) (inOrder o' paths) (writeMetadata S (wpMetadata paths) m) (okAfter (\<lambda>_. recorded paths))" for m
    unfolding writeMetadata_def
    by (rule ordered_conseq [OF ordered_write [OF lasting_facts(5) _ a]]) (auto simp: recorded_def okAfter_def split: sum.splits)
  show ?thesis
    unfolding emptyRepository_def Let_def
    by (rule ordered_attempt [OF ensure], rule ordered_bind [OF ordered_ask], rule ordered_attempt [OF written], rule ordered_return)
      (simp add: provenance_def url zeroMetadata_def)
qed

lemma lasting_provenance: "lasting (provenance o' paths m)"
  unfolding provenance_def [abs_def]
  by (intro lasting_intros lasting_if lasting_facts lasting_parsed)

lemma ordered_locked:
  assumes a: "apart S paths"
  shows "ordered (\<lambda>_. True) (inOrder o' paths) (bootstrapLocked S o' paths) (okAfter (provenance o' paths))"
  unfolding bootstrapLocked_def readMetadata_def
proof (rule ordered_attempt [OF ordered_readState], simp add: lasting_def)
  fix existing :: "BootMetadata option"
  let ?K = "\<lambda>h. True \<and> (existing \<noteq> None \<longrightarrow> (ReadFile (wpMetadata paths), True) \<in> set h)"
  have K: "lasting ?K" by (simp add: lasting_def)
  have kept: "ordered ?K (inOrder o' paths) (existingWorkspace S o' paths m) (okAfter (provenance o' paths))" if "existing = Some m" for m
    unfolding existingWorkspace_def
    by (rule ordered_if, rule ordered_return, simp, rule ordered_then, intro does_reads anytime_calls, rule K, rule ordered_return)
      (use that in \<open>simp add: provenance_def\<close>)
  have "ordered ?K (inOrder o' paths) (if opRepositoryURL o' = [] then emptyRepository S o' paths else cloneRepository S o' paths)
      (okAfter (provenance o' paths))"
    by (rule ordered_if; rule ordered_conseq, rule ordered_empty [OF a] ordered_clone [OF a]; simp)
  with kept show "ordered ?K (inOrder o' paths) (case existing of Some m \<Rightarrow> existingWorkspace S o' paths m
      | None \<Rightarrow> if opRepositoryURL o' = [] then emptyRepository S o' paths else cloneRepository S o' paths) (okAfter (provenance o' paths))"
    by (intro ordered_option)
qed

lemma ordered_prepare:
  "ordered (\<lambda>_. True) (inOrder o' paths) (preparePaths S ws) (okAfter (\<lambda>x h. x = pathsOf (cleanPath ws)))"
  unfolding preparePaths_def Let_def checkRoot_def
  by (rule ordered_then, intro boot_intros anytime_calls, simp add: lasting_def)
    (rule ordered_then, intro does_directories anytime_calls, simp add: lasting_def,
     rule ordered_then, intro does_directories anytime_calls, simp add: lasting_def, rule ordered_return, simp)

lemma ordered_withLock:
  assumes "ordered (\<lambda>_. True) (inOrder o' paths) m (okAfter Q)" "\<And>x. lasting (Q x)"
  shows "ordered (\<lambda>_. True) (inOrder o' paths) (withLock S lock m) (okAfter Q)"
  unfolding withLock_def
  by (rule ordered_then, intro boot_intros anytime_calls, simp add: lasting_def, rule ordered_finally, rule ordered_then,
      intro boot_intros anytime_calls, simp add: lasting_def, rule ordered_finally [OF assms])
    (intro boot_intros anytime_calls assms(2))+

text \<open>
  C35. Every step of the bootstrap comes after what makes it safe, in every run, however the system
  calls and git answer and wherever the run ends: nothing is fetched before the intent is on
  disk; the staging directory becomes the repository only after git resolved a valid commit in it
  and the destination was found free; the metadata is put in place only when the repository is in
  place; and the intent is dropped only after the metadata is. Metadata that a run returns
  is on disk, is for the requested repository and revision, and its commit is what git resolved.
\<close>

theorem bootstrap_ordered:
  assumes "tempsInside S" "o' = applyDefaults (osEnviron S) given" "list_all plain rs" "cleanPath (opWorkspace o') = absolutePath rs"
    and run: "run_state (Execute S given) \<lparr>world = w, actions = []\<rparr> = (r, s')"
  shows "(\<forall>pre ev post. actions s' = pre @ ev # post \<longrightarrow> inOrder o' (pathsOf (absolutePath rs)) pre ev) \<and>
    (\<forall>m. r = Inr m \<longrightarrow> provenance o' (pathsOf (absolutePath rs)) m (actions s'))"
proof -
  let ?paths = "pathsOf (absolutePath rs)"
  note a = paths_apart [OF assms(1,3)]
  have "ordered (\<lambda>_. True) (inOrder o' ?paths) (Execute S given) (okAfter (provenance o' ?paths))"
  proof (cases "validateOptions (osURLParse S) o'")
    case (Some e)
    then show ?thesis by (simp add: Execute_def assms(2) Let_def ordered_return)
  next
    case None
    show ?thesis
      unfolding Execute_def assms(2) [symmetric] Let_def None option.case
    proof (rule ordered_attempt [OF ordered_prepare])
      fix p
      have "ordered (\<lambda>_. True) (inOrder o' ?paths) (attempt (prepareAdapterState S (wpState ?paths) (opAdapterID o')) (\<lambda>_.
          withLock S (wpLock ?paths) (bootstrapLocked S o' ?paths))) (okAfter (provenance o' ?paths))"
        unfolding prepareAdapterState_def Let_def
        by (rule ordered_then, intro boot_intros does_directories anytime_calls, simp add: lasting_def)
          (intro ordered_withLock ordered_locked a lasting_provenance)
      then show "ordered (\<lambda>h. p = pathsOf (cleanPath (opWorkspace o'))) (inOrder o' ?paths) (attempt (prepareAdapterState S (wpState p) (opAdapterID o')) (\<lambda>_.
          withLock S (wpLock p) (bootstrapLocked S o' p))) (okAfter (provenance o' ?paths))"
        unfolding assms(4) by (auto simp: ordered_def)
    qed
  qed
  then show ?thesis using run unfolding ordered_def okAfter_def
    by (auto dest!: spec [of _ "\<lparr>world = w, actions = []\<rparr>"])
qed

end
