(* ===== verification/Bootstrap_Outcome.thy ===== *)
theory Bootstrap_Outcome
  imports Bootstrap_Order Reconciler
begin

text \<open>
  What a run of the bootstrap ends with: options that are refused before anything is touched, the
  fate of an existing workspace, the exit codes the reconciler reads, the bounded output of git,
  and two runs in a row on a directory the bootstrap does not own.
\<close>

section \<open>Options\<close>

text \<open>
  Options are checked before anything is touched: refused options end the run without a single
  system call, with the exit code of an invalid configuration; accepted ones have an absolute
  workspace other than the root, a positive timeout, an adapter name that is one path element,
  and either no repository or an HTTPS or SSH URL with a host, no query, fragment or embedded
  password, and a revision that git cannot take for an option.
\<close>

theorem options_checked_first:
  "case validateOptions (osURLParse S) (applyDefaults (osEnviron S) given) of
     Some e \<Rightarrow> run_state (Execute S given) s = (Inl e, s) \<and> beExit e = ExitInvalidConfiguration
   | None \<Rightarrow>
       let o' = applyDefaults (osEnviron S) given in
       IsAbs (opWorkspace o') \<and> cleanPath (opWorkspace o') \<noteq> [slash] \<and> 0 < opTimeout o' \<and> plain (opAdapterID o') \<and>
       (opRepositoryURL o' = [] \<or>
        (\<exists>u. osURLParse S (opRepositoryURL o') = Some u \<and> urlScheme u \<in> {''https'', ''ssh''} \<and> urlHost u \<noteq> [] \<and>
           urlRawQuery u = [] \<and> urlFragment u = [] \<and> (\<forall>n pw. urlUser u \<noteq> Some (n, Some pw)) \<and>
           \<not> hasPrefix (opRevision o') ''-'' \<and> length (opRevision o') \<le> 256 \<and>
           list_all (\<lambda>c. 33 \<le> (of_char c :: nat)) (opRevision o')))"
proof (cases "validateOptions (osURLParse S) (applyDefaults (osEnviron S) given)")
  case (Some e)
  have "beExit e = ExitInvalidConfiguration"
    using Some by (auto simp: validateOptions_def validateURLOptions_def invalidError_def split: if_splits option.splits)
  then show ?thesis using Some by (simp add: Execute_def Let_def State_Monad.return_def)
next
  case None
  let ?o = "applyDefaults (osEnviron S) given"
  have base: "IsAbs (opWorkspace ?o)" "cleanPath (opWorkspace ?o) \<noteq> [slash]" "0 < opTimeout ?o" "validAdapterID (opAdapterID ?o)"
    using None by (auto simp: validateOptions_def split: if_splits)
  have bytes: "list_all (\<lambda>c. 33 \<le> (of_char c :: nat)) rev" if "\<not> anyRune revisionRune rev" for rev
    using that anyRune_bytes [of revisionRune rev] by (fastforce simp: revisionRune_def list_all_iff)
  have "opRepositoryURL ?o = [] \<or> (\<exists>u. osURLParse S (opRepositoryURL ?o) = Some u \<and> validateURLOptions u ?o = None)"
    using None by (auto simp: validateOptions_def split: if_splits option.splits)
  then have "opRepositoryURL ?o = [] \<or>
      (\<exists>u. osURLParse S (opRepositoryURL ?o) = Some u \<and> urlScheme u \<in> {''https'', ''ssh''} \<and> urlHost u \<noteq> [] \<and>
         urlRawQuery u = [] \<and> urlFragment u = [] \<and> (\<forall>n pw. urlUser u \<noteq> Some (n, Some pw)) \<and>
         \<not> hasPrefix (opRevision ?o) ''-'' \<and> length (opRevision ?o) \<le> 256 \<and> list_all (\<lambda>c. 33 \<le> (of_char c :: nat)) (opRevision ?o))"
    by (auto simp: validateURLOptions_def intro!: bytes split: if_splits)
  then show ?thesis using base adapterID_plain None by (simp add: Let_def)
qed

section \<open>An existing workspace\<close>

lemma requireDirectory_looks: "does (\<lambda>ev. fst ev = Lstat p) (requireDirectory S p)"
  by (rule does_reads(2)) simp

text \<open>
  A workspace that was bootstrapped before is left as it is: once its metadata is read, the run
  at most looks at the repository directory. It returns that metadata if the workspace belongs to
  the requested repository and revision, and otherwise fails.
\<close>

theorem existing_workspace_kept:
  assumes "run_state (readMetadata S (wpMetadata paths)) s = (Inr (Some m), s1)"
    and "run_state (bootstrapLocked S o' paths) s = (r, s')"
  shows "\<exists>as. actions s' = actions s1 @ as \<and> list_all (\<lambda>ev. fst ev = Lstat (wpRepository paths)) as \<and>
    (case r of
       Inr m' \<Rightarrow> m' = m \<and> sameWorkspace o' m
     | Inl e \<Rightarrow> sameWorkspace o' m \<or> e = identityMismatch ''the existing workspace belongs to a different repository or revision'')"
proof -
  have r: "run_state (existingWorkspace S o' paths m) s1 = (r, s')"
    using assms by (simp add: bootstrapLocked_def run_attempt)
  show ?thesis
  proof (cases "sameWorkspace o' m")
    case False
    then show ?thesis using r by (auto simp: existingWorkspace_def State_Monad.return_def)
  next
    case True
    obtain q s2 where q: "run_state (requireDirectory S (wpRepository paths)) s1 = (q, s2)" by (rule prod.exhaust)
    obtain as where "actions s2 = actions s1 @ as" "list_all (\<lambda>ev. fst ev = Lstat (wpRepository paths)) as"
      using requireDirectory_looks [of "wpRepository paths" S] q unfolding yields_def by (metis snd_conv)
    moreover have "s' = s2 \<and> (\<forall>m'. r = Inr m' \<longrightarrow> m' = m)"
      using r q True by (auto simp: existingWorkspace_def run_attempt State_Monad.return_def split: sum.splits)
    ultimately show ?thesis using True by (auto split: sum.splits)
  qed
qed

section \<open>The output of git\<close>

lemma fold_limited:
  "length buf \<le> smallFile \<Longrightarrow> fold (\<lambda>c b. fst (writeLimited b c)) chunks buf = take smallFile (buf @ concat chunks)"
proof (induction chunks arbitrary: buf)
  case Nil
  then show ?case by simp
next
  case (Cons c cs)
  have "fst (writeLimited buf c) = take smallFile (buf @ c)" using Cons.prems by (simp add: writeLimited_def)
  moreover have "take smallFile (take smallFile (buf @ c) @ concat cs) = take smallFile (buf @ c @ concat cs)"
    using Cons.prems by (cases "length buf + length c \<le> smallFile") simp_all
  ultimately show ?case using Cons.IH [of "fst (writeLimited buf c)"] by simp
qed

text \<open>
  What is kept of the output of git is exactly its first 64 KiB, however it is written, and
  every write reports all bytes as written, so that git is never stopped by a full buffer.
\<close>

theorem git_output_bounded:
  "limitedOutput chunks = take smallFile (concat chunks) \<and> snd (writeLimited buf value) = length value"
  using fold_limited [of "[]" chunks] by (simp add: limitedOutput_def writeLimited_def)

section \<open>Errors\<close>

text \<open>\<open>raises E m\<close>: every error of \<open>m\<close> satisfies \<open>E\<close>.\<close>

definition raises :: "('x \<Rightarrow> bool) \<Rightarrow> ('w, 'e, 'x + 'a) prog \<Rightarrow> bool" where
  "raises E m \<longleftrightarrow> (\<forall>s e. fst (run_state m s) = Inl e \<longrightarrow> E e)"

lemma raisesD: "raises E m \<Longrightarrow> run_state m s = (Inl e, s') \<Longrightarrow> E e"
  unfolding raises_def by (metis fst_conv)

lemma raisesI: "(\<And>s e s'. run_state m s = (Inl e, s') \<Longrightarrow> E e) \<Longrightarrow> raises E m"
  unfolding raises_def by (metis prod.collapse)

lemma raises_bind: "(\<And>a. raises E (g a)) \<Longrightarrow> raises E (State_Monad.bind f g)"
  by (rule raisesI) (auto simp: run_bind split: prod.splits dest: raisesD)

lemma raises_attempt: "raises E m \<Longrightarrow> (\<And>x. raises E (h x)) \<Longrightarrow> raises E (attempt m h)"
  by (rule raisesI) (auto simp: run_attempt split: prod.splits sum.splits dest: raisesD)

lemma raises_leaves:
  "E e \<Longrightarrow> raises E (State_Monad.return (Inl e))" "raises E (State_Monad.return (Inr x))"
  by (auto intro!: raisesI simp: State_Monad.return_def)

lemma raises_cases:
  "(c \<Longrightarrow> raises E m) \<Longrightarrow> (\<not> c \<Longrightarrow> raises E n) \<Longrightarrow> raises E (if c then m else n)"
  "(\<And>e. r = Inl e \<Longrightarrow> raises E (a e)) \<Longrightarrow> (\<And>y. r = Inr y \<Longrightarrow> raises E (b y)) \<Longrightarrow> raises E (case r of Inl e \<Rightarrow> a e | Inr y \<Rightarrow> b y)"
  "raises E m' \<Longrightarrow> (\<And>y. raises E (k y)) \<Longrightarrow> raises E (case z of None \<Rightarrow> m' | Some y \<Rightarrow> k y)"
  by (auto split: sum.splits option.splits)

lemmas raises_forms = raises_leaves raises_bind raises_attempt raises_cases

lemma raises_orElse: "(\<And>e. E (wrap e)) \<Longrightarrow> raises E (orElse m wrap)"
  by (rule raisesI) (auto simp: orElse_def run_bind State_Monad.return_def split: prod.splits sum.splits)

lemma raises_finally: "raises E m \<Longrightarrow> raises E (do { r \<leftarrow> m; _ \<leftarrow> c; ret r })"
  by (rule raisesI) (auto simp: run_bind State_Monad.return_def split: prod.splits dest: raisesD)

lemma raises_onError: "raises E m \<Longrightarrow> raises E (onError m c)"
  by (rule raisesI) (auto simp: onError_def run_bind State_Monad.return_def split: prod.splits sum.splits dest: raisesD)

text \<open>The codes an exit code stands for, and the reason the reconciler derives from it.\<close>

definition codesOf :: "int \<Rightarrow> string list" where
  "codesOf x =
     (if x = ExitInvalidConfiguration then [''bootstrap_invalid'']
      else if x = ExitUnsafeWorkspace then
        [''workspace_unsafe'', ''workspace_unavailable'', ''workspace_initialize_failed'', ''workspace_lock_failed'', ''workspace_identity_mismatch'',
         ''workspace_incomplete'', ''workspace_not_empty'', ''workspace_metadata_invalid'', ''workspace_metadata_failed'', ''workspace_commit_failed'']
      else if x = ExitRepositoryAuth then [''repository_auth_failed'']
      else if x = ExitRepositoryBootstrap then [''repository_bootstrap_failed'', ''repository_commit_invalid'']
      else if x = ExitWorkspaceFull then [''workspace_full'']
      else if x = ExitBootstrapTimeout then [''bootstrap_timeout''] else [])"

definition classified :: "bootError \<Rightarrow> bool" where
  "classified e \<longleftrightarrow> beCode e \<in> set (codesOf (beExit e)) \<and> fst (bootstrapReason (beExit e)) = hd (codesOf (beExit e))"

lemmas exit_defs = ExitInvalidConfiguration_def ExitUnsafeWorkspace_def ExitRepositoryAuth_def ExitRepositoryBootstrap_def
  ExitWorkspaceFull_def ExitBootstrapTimeout_def

lemma classified_invalid: "classified (invalidError message)"
  by (simp add: classified_def codesOf_def exit_defs invalidError_def bootstrapReason_def)

lemma classified_workspace: "code \<in> set (codesOf 21) \<Longrightarrow> classified (workspaceError code message err)"
  by (auto simp: classified_def codesOf_def exit_defs workspaceError_def bootstrapReason_def)

lemma classified_workspaceErr: "code \<in> set (codesOf 21) \<Longrightarrow> classified (workspaceErr code message e)"
  by (simp add: workspaceErr_def classified_workspace)

lemma classified_repository: "code \<in> set (codesOf 23) \<Longrightarrow> classified (repositoryError code message err)"
  by (auto simp: classified_def codesOf_def exit_defs repositoryError_def bootstrapReason_def)

lemma classified_git: "classified (classifyGitError expired err)"
  by (auto simp: classifyGitError_def Let_def classified_def codesOf_def exit_defs repositoryError_def bootstrapReason_def)

lemma classified_wrapped:
  "classified (metadataFailed message e)" "classified (identityMismatch message)" "classified commitInvalid"
  unfolding metadataFailed_def identityMismatch_def commitInvalid_def
  by (rule classified_workspaceErr classified_workspace classified_repository; simp add: codesOf_def exit_defs)+

lemmas raises_intros = raises_orElse raises_finally raises_onError raises_forms classified_invalid classified_workspace
  classified_workspaceErr classified_repository classified_git classified_wrapped

lemma codes21: "x \<in> set [''workspace_unsafe'', ''workspace_unavailable'', ''workspace_initialize_failed'', ''workspace_lock_failed'',
    ''workspace_identity_mismatch'', ''workspace_incomplete'', ''workspace_not_empty'', ''workspace_metadata_invalid'',
    ''workspace_metadata_failed'', ''workspace_commit_failed''] \<Longrightarrow> x \<in> set (codesOf 21)"
  by (simp add: codesOf_def exit_defs)

lemma codes23: "''repository_bootstrap_failed'' \<in> set (codesOf 23)"
  by (simp add: codesOf_def exit_defs)

lemma raises_git: "raises classified (git S b e as)" "raises classified (runAll S b e cs)"
proof -
  show git: "raises classified (git S b e as)" for as unfolding git_def by (intro raises_intros)
  show "raises classified (runAll S b e cs)" by (induction cs) (auto intro!: raises_forms git)
qed

lemma raises_files:
  "raises classified (ensureDirectory S p mode)" "raises classified (requireDirectory S p)" "raises classified (requireEmpty S p i rf)"
  "raises classified (resetStaging S p)" "raises classified (readStateFile S p i u rd bad decode)" "raises classified (commitTemp S t p c)"
  "raises classified (checkRoot S p)" "raises classified (removeIntent S p)"
  unfolding ensureDirectory_def requireDirectory_def requireEmpty_def resetStaging_def readStateFile_def commitTemp_def checkRoot_def removeIntent_def
  by (intro raises_intros codes21; simp)+

lemma raises_directories:
  "raises classified (ensureEmptyRepositoryDirectory S p)" "raises classified (requireRepositoryDestinationAvailable S p)"
  "raises classified (writeJSONFile S p v)"
  unfolding ensureEmptyRepositoryDirectory_def requireRepositoryDestinationAvailable_def writeJSONFile_def
  by (intro raises_intros raises_files codes21; simp)+

lemma raises_credentials:
  "raises classified (readCredential S p)" "raises classified (helperOf S o' message)" "raises classified (requireRegular S ps)"
  unfolding readCredential_def helperOf_def
    apply (intro raises_intros)
   apply (intro raises_intros)
  by (induction ps) (auto intro!: raises_forms classified_invalid)

lemma raises_environment: "raises classified (gitEnvironment S o' paths)"
  unfolding gitEnvironment_def credentialEnvironment_def sshEnvironment_def by (intro raises_forms raises_credentials)

lemma raises_record: "raises classified (recordCompleted S paths m)"
  unfolding recordCompleted_def writeMetadata_def by (intro raises_forms raises_directories raises_files)

lemma raises_repository:
  "raises classified (recoverCommittedRepository S o' paths e)" "raises classified (stageRepository S o' paths e)"
proof -
  show "raises classified (recoverCommittedRepository S o' paths e)"
    unfolding recoverCommittedRepository_def recoverRepository_def
    by (intro raises_forms raises_record classified_wrapped classified_workspaceErr classified_workspace classified_repository codes21 codes23; simp)
  have fetch: "raises classified (fetchRepository S o' paths e)"
    unfolding fetchRepository_def Let_def
    by (intro raises_forms raises_git raises_record raises_orElse classified_wrapped classified_workspaceErr codes21; simp)
  show "raises classified (stageRepository S o' paths e)"
    unfolding stageRepository_def by (intro raises_attempt raises_finally raises_directories raises_files fetch)
qed

text \<open>
  Every error of the bootstrap has a stable code that belongs to its exit code, and the reason
  that the reconciler derives from the exit code of the init container is the one for that class of
  errors.
\<close>

theorem bootstrap_errors_classified:
  "raises classified (Execute S given)"
proof -
  have locked: "raises classified (bootstrapLocked S o' paths)" for o' paths
    unfolding bootstrapLocked_def readMetadata_def existingWorkspace_def emptyRepository_def cloneRepository_def readIntent_def
      writeIntent_def writeMetadata_def Let_def
    by (intro raises_forms raises_files raises_directories raises_environment raises_repository classified_wrapped)
  have lock: "raises classified m \<Longrightarrow> raises classified (withLock S l m)" for l and m :: "('a, BootMetadata) bprog"
    unfolding withLock_def by (intro raises_attempt raises_finally raises_orElse classified_workspaceErr codes21) simp_all
  have "classified e" if "validateOptions (osURLParse S) o' = Some e" for e o'
    using that by (auto simp: validateOptions_def validateURLOptions_def classified_invalid split: if_splits option.splits)
  then show ?thesis
    unfolding Execute_def preparePaths_def prepareAdapterState_def Let_def
    by (auto intro!: raises_forms raises_files lock locked split: option.splits)
qed

end
