(* ===== verification/Bootstrap_Instance.thy ===== *)
theory Bootstrap_Instance
  imports Bootstrap_Outcome
begin

text \<open>
  The bootstrap on a small file system: a workspace whose repository directory already holds a
  file and is a git repository with the requested origin. The theorems of the bootstrap hold on it,
  and two runs in a row do what one run refuses to do.
\<close>

section \<open>A file system\<close>

type_synonym disk = "(string \<times> string) list"

definition sampleDirs :: "string list" where
  "sampleDirs = [''/w'', ''/w/.sandherd'', ''/w/.sandherd/home'', ''/w/.sandherd/adapters'', ''/w/.sandherd/adapters/shell'', ''/w/repository'']"

definition diskLstat :: "string \<Rightarrow> disk \<Rightarrow> (osError + fileInfo) \<times> disk" where
  "diskLstat p d =
     (if p \<in> set sampleDirs then Inr \<lparr>fiSymlink = False, fiDir = True, fiRegular = False\<rparr>
      else case map_of d p of
        None \<Rightarrow> Inl (NotExist ''no such file'')
      | Some _ \<Rightarrow> Inr \<lparr>fiSymlink = False, fiDir = False, fiRegular = True\<rparr>, d)"

definition diskRead :: "string \<Rightarrow> nat \<Rightarrow> disk \<Rightarrow> (osError + string) \<times> disk" where
  "diskRead p n d = (case map_of d p of None \<Rightarrow> Inl (NotExist ''no such file'') | Some c \<Rightarrow> Inr (take n c), d)"

definition diskRemove :: "string \<Rightarrow> disk \<Rightarrow> (osError + unit) \<times> disk" where
  "diskRemove p d =
     (if map_of d p = None then (Inl (NotExist ''no such file''), d) else (Inr (), filter (\<lambda>f. fst f \<noteq> p) d))"

definition diskRename :: "string \<Rightarrow> string \<Rightarrow> disk \<Rightarrow> (osError + unit) \<times> disk" where
  "diskRename p q d =
     (case map_of d p of
        None \<Rightarrow> (Inl (NotExist ''no such file''), d)
      | Some c \<Rightarrow> (Inr (), (q, c) # filter (\<lambda>f. fst f \<noteq> p) d))"

definition diskTemp :: "string \<Rightarrow> disk \<Rightarrow> (osError + string) \<times> disk" where
  "diskTemp dir d = (Inr (joinPath dir (tempName ''1'')), (joinPath dir (tempName ''1''), []) # d)"

definition sampleCommit :: string where "sampleCommit = replicate 40 (CHR ''a'')"

definition diskExec :: "string \<Rightarrow> string list \<Rightarrow> string list \<Rightarrow> disk \<Rightarrow> (osError option \<times> string list) \<times> disk" where
  "diskExec binary environment arguments d =
     (if arguments = originURL ''/w/repository'' then (None, [''https://h/r'', [CHR 0x0A]])
      else if arguments = revParse ''/w/repository'' then (None, [sampleCommit, [CHR 0x0A]])
      else (Some (Failure ''exit status 128''), []), d)"

text \<open>Records are kept as their values, one per line.\<close>

fun lineText :: "json \<Rightarrow> string" where
  "lineText (JStr t) = t @ [CHR 0x0A]"
| "lineText _ = [CHR 0x0A]"

fun linesPrint :: "json \<Rightarrow> string" where
  "linesPrint (JObj ms) = concat (map (\<lambda>m. lineText (snd m)) ms)"
| "linesPrint _ = []"

definition linesParse :: scanner where
  "linesParse t =
     (case splitOn (CHR 0x0A) t of
        [url, revision, [], []] \<Rightarrow> Some (JObj [(''repositoryUrl'', JStr url), (''requestedRevision'', JStr revision)], [])
      | [url, revision, commit, written, [], []] \<Rightarrow>
          Some (JObj [(''repositoryUrl'', JStr url), (''requestedRevision'', JStr revision), (''resolvedCommit'', JStr commit),
            (''bootstrappedAt'', JStr written)], [])
      | _ \<Rightarrow> None)"

definition sampleOS :: "disk os" where
  "sampleOS = \<lparr>osLstat = diskLstat, osStat = diskLstat, osEvalSymlinks = (\<lambda>p d. (Inr p, d)),
     osMkdir = (\<lambda>p mode d. (Inl (Failure ''file exists''), d)), osReadDir = (\<lambda>p d. (Inr [''README''], d)),
     osRemove = diskRemove, osRemoveAll = (\<lambda>p d. (Inr (), d)), osRename = diskRename,
     osOpenLock = (\<lambda>p d. (Inr (), (p, []) # d)), osFlock = (\<lambda>p d. (Inr (), d)), osRead = diskRead,
     osCreateTemp = (\<lambda>dir pat d. diskTemp dir d), osChmod = (\<lambda>p mode d. (Inr (), d)), osWrite = (\<lambda>p c d. (Inr (), (p, c) # d)),
     osSync = (\<lambda>p d. (Inr (), d)), osClose = (\<lambda>p d. (Inr (), d)), osExec = diskExec, osExecutable = (\<lambda>d. (Inr ''/bootstrap'', d)),
     osExpired = (\<lambda>d. (False, d)), osNow = (\<lambda>d. (0, d)), osPrint = (\<lambda>t d. (Inr (), d)), osEnviron = [''PATH=/bin''],
     osURLParse = (\<lambda>_. Some \<lparr>urlScheme = ''https'', urlHost = ''h'', urlRawQuery = [], urlFragment = [], urlUser = None\<rparr>),
     osScanner = linesParse, osJSONError = (\<lambda>_. []), osPrintJSON = linesPrint, osTimeText = (\<lambda>_. ''1970''), osParseTime = (\<lambda>_. Some 0)\<rparr>"

definition sampleOptions :: Options where
  "sampleOptions = \<lparr>opWorkspace = ''/w'', opAdapterID = [], opRepositoryURL = ''https://h/r'', opRevision = ''v1'', opCredentialFile = [],
     opSSHKeyFile = [], opKnownHostsFile = [], opGitBinary = [], opSSHBinary = [], opHelperBinary = [], opTimeout = 0, opEnvironment = None\<rparr>"

definition firstRun :: "(bootError + BootMetadata) \<times> (disk, sysEvent) est" where
  "firstRun = run_state (Execute sampleOS sampleOptions) \<lparr>world = [], actions = []\<rparr>"

definition secondRun :: "(bootError + BootMetadata) \<times> (disk, sysEvent) est" where
  "secondRun = run_state (Execute sampleOS sampleOptions) \<lparr>world = world (snd firstRun), actions = []\<rparr>"

section \<open>Evaluation, one call after the other\<close>

lemma lazy_cong:
  "m = m' \<Longrightarrow> attempt m f = attempt m' f" "m = m' \<Longrightarrow> State_Monad.bind m g = State_Monad.bind m' g"
  by simp_all

lemma run_sysCall: "run_state (sysCall c f) s = (let (r, w) = f (world s) in (r, s\<lparr>world := w, actions := actions s @ [(c, isOK r)]\<rparr>))"
  by (simp add: sysCall_def)

lemma run_orElse: "run_state (orElse m wrap) s =
  (case run_state m s of (Inl e, s') \<Rightarrow> (Inl (wrap e), s') | (Inr x, s') \<Rightarrow> (Inr x, s'))"
  by (auto simp: orElse_def run_bind State_Monad.return_def split: prod.splits sum.splits)

lemma run_gitCommand: "run_state (gitCommand S binary environment as) s =
  (let ((err, chunks), w) = osExec S binary environment as (world s) in
   ((case err of Some e \<Rightarrow> Inl (e, limitedOutput chunks) | None \<Rightarrow> Inr (limitedOutput chunks)),
    s\<lparr>world := w, actions := actions s @ [(Exec binary environment as (limitedOutput chunks), err = None)]\<rparr>))"
  by (simp add: gitCommand_def Let_def split_beta)

lemma sample_paths: "pathsOf ''/w'' = \<lparr>wpRoot = ''/w'', wpState = ''/w/.sandherd'', wpRepository = ''/w/repository'',
  wpStaging = ''/w/.sandherd/bootstrap-staging'', wpMetadata = ''/w/.sandherd/bootstrap.json'',
  wpIntent = ''/w/.sandherd/bootstrap-intent.json'', wpLock = ''/w/.sandherd/bootstrap.lock'', wpHome = ''/w/.sandherd/home''\<rparr>"
  by code_simp

lemma sample_joins: "cleanPath ''/w'' = ''/w''" "joinPath ''/w/.sandherd'' ''adapters'' = ''/w/.sandherd/adapters''"
  "joinPath ''/w/.sandherd/adapters'' ''shell'' = ''/w/.sandherd/adapters/shell''" "dirPath ''/w/.sandherd/bootstrap-intent.json'' = ''/w/.sandherd''"
  "joinPath ''/w/.sandherd'' ''.bootstrap-1.tmp'' = ''/w/.sandherd/.bootstrap-1.tmp''" "dirPath ''/w/.sandherd/bootstrap.json'' = ''/w/.sandherd''"
  by code_simp+

lemmas run_calls = run_bind run_attempt run_sysCall run_orElse run_effect run_asked run_gitCommand Let_def
  

lemma sample_calls: "osLstat sampleOS = diskLstat" "osEvalSymlinks sampleOS p d = (Inr p, d)" "osReadDir sampleOS p d = (Inr [''README''], d)"
  "osRemove sampleOS = diskRemove" "osRename sampleOS = diskRename" "osOpenLock sampleOS p d = (Inr (), (p, []) # d)"
  "osFlock sampleOS p d = (Inr (), d)" "osRead sampleOS = diskRead" "osCreateTemp sampleOS dir pat d = diskTemp dir d"
  "osChmod sampleOS p mode d = (Inr (), d)" "osWrite sampleOS p c d = (Inr (), (p, c) # d)" "osSync sampleOS p d = (Inr (), d)"
  "osClose sampleOS p d = (Inr (), d)" "osExec sampleOS = diskExec" "osNow sampleOS d = (0, d)" "osPrintJSON sampleOS = linesPrint"
  "osTimeText sampleOS t = ''1970''" "osEnviron sampleOS = [''PATH=/bin'']" "osScanner sampleOS = linesParse"
  by (simp_all add: sampleOS_def)

lemmas disk_simps = diskLstat_def diskRead_def diskRemove_def diskRename_def diskTemp_def diskExec_def sampleDirs_def

definition leftDisk :: disk where
  "leftDisk = [(''/w/.sandherd/bootstrap-intent.json'', ''https://h/r'' @ [CHR 0x0A] @ ''v1'' @ [CHR 0x0A, CHR 0x0A]), (''/w/.sandherd/bootstrap.lock'', [])]"

lemma sample_options: "applyDefaults [''PATH=/bin''] sampleOptions = sampleOptions\<lparr>opAdapterID := ''shell'', opGitBinary := ''git'', opSSHBinary := ''ssh'',
    opTimeout := 300000000000, opEnvironment := Some [''PATH=/bin'']\<rparr>"
  "validateOptions (osURLParse sampleOS) (applyDefaults [''PATH=/bin''] sampleOptions) = None"
  by code_simp+

lemma sample_execute: "run_state (Execute sampleOS sampleOptions) s = run_state (attempt (preparePaths sampleOS ''/w'') (\<lambda>paths.
          attempt (prepareAdapterState sampleOS (wpState paths) ''shell'') (\<lambda>_.
            withLock sampleOS (wpLock paths) (bootstrapLocked sampleOS (applyDefaults [''PATH=/bin''] sampleOptions) paths)))) s"
proof -
  have e: "osEnviron sampleOS = [''PATH=/bin'']" by (simp add: sampleOS_def)
  show ?thesis unfolding Execute_def Let_def e sample_options(2) option.case unfolding sample_options(1) by (simp add: sampleOptions_def)
qed

lemma sample_fields: "opRepositoryURL (applyDefaults [''PATH=/bin''] sampleOptions) = ''https://h/r''"
  "opRevision (applyDefaults [''PATH=/bin''] sampleOptions) = ''v1''" "opGitBinary (applyDefaults [''PATH=/bin''] sampleOptions) = ''git''"
  "opCredentialFile (applyDefaults [''PATH=/bin''] sampleOptions) = []" "opSSHKeyFile (applyDefaults [''PATH=/bin''] sampleOptions) = []"
  unfolding sample_options(1) by (simp_all add: sampleOptions_def)

lemma sample_texts:
  "decodeIntent sampleOS (''https://h/r'' @ [CHR 0x0A] @ ''v1'' @ [CHR 0x0A, CHR 0x0A]) =
     Inr \<lparr>biRepositoryURL = ''https://h/r'', biRequestedRevision = ''v1''\<rparr>"
  by code_simp

lemma short_read:
  "map_of d p = Some c \<Longrightarrow> length c \<le> 100 \<Longrightarrow>
     run_state (readSmallFile sampleOS p) \<lparr>world = d, actions = h\<rparr> = (Inr c, \<lparr>world = d, actions = h @ [(ReadFile p, True)]\<rparr>)"
  by (simp add: readSmallFile_def run_bind run_sysCall sample_calls diskRead_def smallFile_def isOK_def)

lemma short_output: "length (concat chunks) \<le> 100 \<Longrightarrow> limitedOutput chunks = concat chunks"
  using fold_limited [of "[]" chunks] by (simp add: limitedOutput_def smallFile_def)

lemma trim_line:
  assumes "\<forall>c \<in> set s. 33 \<le> (of_char c :: nat) \<and> (of_char c :: nat) < 128" "s \<noteq> []"
  shows "trimSpace (s @ [CHR 0x0A]) = s"
proof -
  let ?f = "\<lambda>c. (of_char c :: nat, [c])"
  have runes: "runeList (s @ [CHR 0x0A]) = map ?f s @ [?f (CHR 0x0A)]"
    using assms(1) by (subst runeList_ascii) auto
  have plainRune: "\<not> isSpace (of_char c)" if "c \<in> set s" for c
    using assms(1) that by (auto simp: isSpace_def)
  have keep: "dropWhile (isSpace \<circ> fst) (map ?f xs @ ys) = map ?f xs @ ys" if "xs \<noteq> []" "set xs \<subseteq> set s" for xs ys
    using that plainRune by (cases xs) auto
  have "trimSpace (s @ [CHR 0x0A]) = concat (map snd (rev (dropWhile (isSpace \<circ> fst) (?f (CHR 0x0A) # map ?f (rev s) @ []))))"
    unfolding trimSpace_def runes using keep [OF assms(2) subset_refl] by (simp add: rev_map)
  also have "\<dots> = concat (map snd (map ?f s))"
    using keep [of "rev s" "[]"] assms(2) by (simp add: isSpace_def rev_map)
  also have "\<dots> = s" by (simp add: comp_def)
  finally show ?thesis .
qed

lemma sample_outputs:
  "trimSpace (limitedOutput [''https://h/r'', [CHR 0x0A]]) = ''https://h/r''"
  "trimSpace (limitedOutput [sampleCommit, [CHR 0x0A]]) = sampleCommit" "validCommit sampleCommit"
proof -
  have commit: "sampleCommit \<noteq> []" "set sampleCommit = {CHR ''a''}" "length sampleCommit = 40"
    by (simp_all add: sampleCommit_def)
  then show "trimSpace (limitedOutput [sampleCommit, [CHR 0x0A]]) = sampleCommit"
    using trim_line [of sampleCommit] by (simp add: short_output)
  show "trimSpace (limitedOutput [''https://h/r'', [CHR 0x0A]]) = ''https://h/r''"
    using trim_line [of "''https://h/r''"] by (simp add: short_output)
qed (simp add: validCommit_def sampleCommit_def list_all_iff isHexDigit_def)

lemma sample_commands: "originURL ''/w/repository'' \<noteq> revParse ''/w/repository''" "revParse ''/w/repository'' \<noteq> originURL ''/w/repository''"
  by (simp_all add: originURL_def revParse_def)

lemmas prepare_simps = sample_execute sample_joins sample_paths preparePaths_def prepareAdapterState_def checkRoot_def ensureDirectory_def
  withLock_def bootstrapLocked_def readMetadata_def readIntent_def readStateFile_def

lemmas clone_simps = cloneRepository_def gitEnvironment_def credentialEnvironment_def sshEnvironment_def writeIntent_def writeJSONFile_def
  commitTemp_def onError_def closeTemp_def intentJson_def stageRepository_def requireRepositoryDestinationAvailable_def requireEmpty_def
  tempName_def leftDisk_def recoverCommittedRepository_def recoverRepository_def recordCompleted_def removeIntent_def writeMetadata_def

lemmas eval_simps = prepare_simps clone_simps disk_simps sample_calls run_calls sample_fields

lemmas lazy_congs = lazy_cong sum.case_cong_weak option.case_cong_weak prod.case_cong_weak

section \<open>Two runs\<close>

definition onlyLooks :: "sysEvent \<Rightarrow> bool" where
  "onlyLooks ev \<longleftrightarrow> (\<forall>b e as out. fst ev = Exec b e as out \<longrightarrow> as = originURL ''/w/repository'' \<or> as = revParse ''/w/repository'')"

lemma first_run:
  "fst firstRun = Inl (workspaceError ''workspace_not_empty'' ''refusing to replace an untracked repository directory'' None) \<and>
   world (snd firstRun) = leftDisk"
  by (simp add: firstRun_def eval_simps cong: lazy_congs)

lemma second_run:
  "fst secondRun = Inr (completed (applyDefaults [''PATH=/bin''] sampleOptions) sampleCommit 0) \<and>
   list_all onlyLooks (actions (snd secondRun))"
  by (simp add: secondRun_def first_run [THEN conjunct2] onlyLooks_def eval_simps sample_outputs short_read sample_texts [simplified] sample_commands
      cong: lazy_congs)


section \<open>The theorems on the instance\<close>

lemma sample_temps: "tempsInside sampleOS"
  by (auto simp: tempsInside_def sampleOS_def diskTemp_def slash_def intro!: exI [of _ "''1''"])

lemma sample_root: "list_all plain [''w'']" "cleanPath (opWorkspace (applyDefaults (osEnviron sampleOS) sampleOptions)) = absolutePath [''w'']"
  by code_simp+

theorem bootstrap_confined_witness:
  "does (permitted [''w''] (applyDefaults (osEnviron sampleOS) sampleOptions)) (Execute sampleOS sampleOptions)"
  by (rule bootstrap_confined [OF sample_temps refl sample_root])

theorem bootstrap_ordered_witness:
  "provenance (applyDefaults (osEnviron sampleOS) sampleOptions) (pathsOf (absolutePath [''w'']))
     (completed (applyDefaults [''PATH=/bin''] sampleOptions) sampleCommit 0) (actions (snd secondRun))"
proof -
  have "run_state (Execute sampleOS sampleOptions) \<lparr>world = world (snd firstRun), actions = []\<rparr> = (fst secondRun, snd secondRun)"
    by (simp add: secondRun_def)
  from bootstrap_ordered [OF sample_temps refl sample_root this] second_run show ?thesis by simp
qed

definition readyDisk :: disk where
  "readyDisk = [(''/w/.sandherd/bootstrap.json'',
     ''https://h/r'' @ [CHR 0x0A] @ ''v1'' @ [CHR 0x0A] @ ''aa'' @ [CHR 0x0A] @ ''1970'' @ [CHR 0x0A, CHR 0x0A])]"

lemma ready_read:
  "run_state (readMetadata sampleOS (wpMetadata (pathsOf ''/w''))) \<lparr>world = readyDisk, actions = []\<rparr> =
     (Inr (Some (completed sampleOptions ''aa'' 0)),
      \<lparr>world = readyDisk, actions = [(Lstat ''/w/.sandherd/bootstrap.json'', True), (ReadFile ''/w/.sandherd/bootstrap.json'', True)]\<rparr>)"
proof -
  have decoded: "decodeMetadata sampleOS (''https://h/r'' @ [CHR 0x0A] @ ''v1'' @ [CHR 0x0A] @ ''aa'' @ [CHR 0x0A] @ ''1970'' @ [CHR 0x0A, CHR 0x0A]) =
      Inr (completed sampleOptions ''aa'' 0)"
    by code_simp
  show ?thesis
    by (simp add: sample_paths readMetadata_def readStateFile_def disk_simps readyDisk_def sample_calls run_calls short_read isOK_def decoded [simplified]
        cong: lazy_congs)
qed

theorem existing_workspace_kept_witness:
  "\<exists>as. actions (snd (run_state (bootstrapLocked sampleOS sampleOptions (pathsOf ''/w'')) \<lparr>world = readyDisk, actions = []\<rparr>)) =
       [(Lstat ''/w/.sandherd/bootstrap.json'', True), (ReadFile ''/w/.sandherd/bootstrap.json'', True)] @ as \<and>
     list_all (\<lambda>ev. fst ev = Lstat (wpRepository (pathsOf ''/w''))) as"
  using existing_workspace_kept [OF ready_read prod.collapse [symmetric], of sampleOptions] by auto

end
