(* ===== verification/Bridge_Sample.thy ===== *)
theory Bridge_Sample
  imports Bridge_Main Bootstrap_Instance
begin

text \<open>
  A small environment of the bridge, to run it on: the messages of the server are frames waiting in
  a list, there is no pane of Herdr, and nothing can be written to disk.
\<close>

section \<open>The environment\<close>

definition sampleAttached :: Frame where
  "sampleAttached = zeroFrame\<lparr>frType := ''attached'', frRole := ''control'', frLeaseID := ''l'', frRunnerGeneration := ''g''\<rparr>"

definition sampleOutput :: Frame where
  "sampleOutput = zeroFrame\<lparr>frType := ''output'', frSequence := Some 8, frData := [65]\<rparr>"

definition sampleRefusal :: Frame where
  "sampleRefusal = zeroFrame\<lparr>frType := ''error'', frCode := ''replay_cursor_invalid'', frMessage := ''replay_cursor_invalid: cursor is ahead of the runner'',
     frRequestID := ''r''\<rparr>"

text \<open>Messages are one letter long, and the scanner knows what they stand for.\<close>

definition letterScanner :: scanner where
  "letterScanner t =
     (if t = ''A'' then Some (frameJson sampleAttached, [])
      else if t = ''O'' then Some (frameJson sampleOutput, [])
      else if t = ''E'' then Some (frameJson sampleRefusal, []) else None)"

type_synonym sampleWorld = "string list"

definition sampleURL :: gatewayURL where
  "sampleURL = \<lparr>urlScheme = ''https'', urlHost = ''h'', urlRawQuery = [], urlFragment = [], urlUser = None, urlPath = []\<rparr>"

definition sampleBridgeCodec :: codec where
  "sampleBridgeCodec = \<lparr>cdPrint = (\<lambda>_. []), cdSha256 = (\<lambda>x. x), cdTime = (\<lambda>_. []), cdParseTime = (\<lambda>_. None), cdFloat = formatInt,
     cdPrintable = (\<lambda>_. True), cdJsonError = (\<lambda>_. [])\<rparr>"

definition readOnly :: "osError" where "readOnly = Failure ''read-only file system''"

definition sampleToken :: string where "sampleToken = replicate 16 (CHR ''k'')"

definition sampleEnv :: "sampleWorld bridgeEnv" where
  "sampleEnv = \<lparr>
     beReadFile = (\<lambda>_ v. (Inr (sampleToken @ [CHR 0x0A]), v)), beMkdirAll = (\<lambda>_ v. (Inl readOnly, v)), beReadDir = (\<lambda>_ v. (Inl readOnly, v)),
     beRemove = (\<lambda>_ v. (Inl readOnly, v)), beRename = (\<lambda>_ _ v. (Inl readOnly, v)), beCreateTemp = (\<lambda>_ _ v. (Inl readOnly, v)),
     beChmod = (\<lambda>_ _ v. (Inl readOnly, v)), beWrite = (\<lambda>_ _ v. (Inl readOnly, v)), beSync = (\<lambda>_ v. (Inl readOnly, v)),
     beClose = (\<lambda>_ v. (Inl readOnly, v)), beHTTP = (\<lambda>_ v. (Inl ''unreachable'', v)), beHerdr = (\<lambda>_ _ v. ((None, []), v)),
     beReadLine = (\<lambda>v. ((None, []), v)), beNow = (\<lambda>v. (0, v)), beNewID = (\<lambda>v. (''id'', v)), beGetenv = (\<lambda>_. []),
     beScanner = letterScanner, bePrint = (\<lambda>_. []), bePrintIndent = (\<lambda>_. []), beCodec = sampleBridgeCodec, beJSONError = (\<lambda>_. []),
     beURLParse = (\<lambda>_. Some sampleURL), beURLError = (\<lambda>_. []), beURLText = (\<lambda>_. []), bePathEscape = (\<lambda>t. t), bePrintable = (\<lambda>_. True),
     beStatusText = (\<lambda>_. []), beSort = map snd\<rparr>"

definition sampleTerminal :: "sampleWorld terminalEnv" where
  "sampleTerminal = \<lparr>
     teDial = (\<lambda>_ _ v. (Inr Protocol, v)), teSend = (\<lambda>_ v. (Inr (), v)),
     teReceive = (\<lambda>v. case v of [] \<Rightarrow> (Inl ''closed'', []) | m # ms \<Rightarrow> (Inr (True, m), ms)),
     teOutput = (\<lambda>_ v. (Inr (), v)), teWindow = (\<lambda>v. (None, v)), teRaw = (\<lambda>v. (None, v)), teDone = (\<lambda>v. (False, v)),
     teSleep = (\<lambda>_ v. (False, v)), teSchedule = (\<lambda>v. ([ReaderReads, ReaderOffers, LoopFrame], v))\<rparr>"

definition sampleBridgeConfig :: BridgeConfig where
  "sampleBridgeConfig = zeroBridgeConfig\<lparr>bcPollInterval := second, bcReconnectLimit := 2 * 60 * second\<rparr>"

definition sampleBridge :: Bridge where
  "sampleBridge = \<lparr>brConfig = sampleBridgeConfig, brAPI = \<lparr>acBaseURL = sampleURL, acTokenFile = ''t''\<rparr>, brStore = \<lparr>ssDirectory = ''/s''\<rparr>,
     brAgentID = ''i'', brPaneID = [], brTakeover = False\<rparr>"

definition sampleState :: AgentState where
  "sampleState = (newAgentState ''i'' ''n'' ''u'')\<lparr>asAfterSequence := Some 7, asRunnerGeneration := ''g''\<rparr>"

definition sampleKeyboard :: keyboard where
  "sampleKeyboard = \<lparr>kbInput = [], kbTyping = None, kbSizes = []\<rparr>"

section \<open>Evaluation\<close>

lemma run_called:
  "run_state (called c f) s = (let (r, v) = f (bwRest (world s)) in
     (r, s\<lparr>world := (world s)\<lparr>bwRest := v\<rparr>, actions := actions s @ [(c, isOK r)]\<rparr>))"
  by (simp add: called_def)

lemma run_askedRest: "run_state (asked f) s = (let (r, v) = f (bwRest (world s)) in (r, s\<lparr>world := (world s)\<lparr>bwRest := v\<rparr>\<rparr>))"
  by (simp add: asked_def ask_def case_prod_beta)

lemma run_wrapped: "run_state (wrapped m wrap) s =
  (case run_state m s of (Inl e, s') \<Rightarrow> (Inl (wrap e), s') | (Inr x, s') \<Rightarrow> (Inr x, s'))"
  by (auto simp: wrapped_def run_bind State_Monad.return_def split: prod.splits sum.splits)

lemma run_orEnd: "run_state (orEnd kb st m f) s =
  (case run_state m s of (Inl e, s') \<Rightarrow> run_state (ended kb st e) s' | (Inr x, s') \<Rightarrow> run_state (f x) s')"
  by (auto simp: orEnd_def run_bind split: prod.splits sum.splits)

lemma sample_env:
  "beReadFile sampleEnv p v = (Inr (sampleToken @ [CHR 0x0A]), v)" "beNow sampleEnv v = (0, v)" "beNewID sampleEnv v = (''id'', v)"
  "bePrint sampleEnv x = []" "beScanner sampleEnv = letterScanner" "beCodec sampleEnv = sampleBridgeCodec"
  by (simp_all add: sampleEnv_def)

lemma sample_terminal:
  "teDial sampleTerminal url headers v = (Inr Protocol, v)" "teSend sampleTerminal t v = (Inr (), v)"
  "teReceive sampleTerminal [] = (Inl ''closed'', [])" "teReceive sampleTerminal (m # ms) = (Inr (True, m), ms)"
  "teOutput sampleTerminal d v = (Inr (), v)" "teWindow sampleTerminal v = (None, v)" "teDone sampleTerminal v = (False, v)"
  "teSleep sampleTerminal dur v = (False, v)" "teSchedule sampleTerminal v = ([ReaderReads, ReaderOffers, LoopFrame], v)"
  by (simp_all add: sampleTerminal_def)

lemma sample_frames:
  "parseTerminalFrame letterScanner True ''A'' = Inr sampleAttached"
  "parseTerminalFrame letterScanner True ''O'' = Inr sampleOutput"
  "parseTerminalFrame letterScanner True ''E'' = Inr sampleRefusal"
proof -
  have r: "decodeStruct False looseFrameFields (frameJson f) zeroFrame = Some f" if "f \<in> {sampleAttached, sampleOutput, sampleRefusal}" for f
    by (rule frame_roundtrip_loose)
      (use that in \<open>auto simp: printable_def sampleAttached_def sampleOutput_def sampleRefusal_def zeroFrame_def\<close>)
  have n: "frType f \<noteq> []" if "f \<in> {sampleAttached, sampleOutput, sampleRefusal}" for f
    using that by (auto simp: sampleAttached_def sampleOutput_def sampleRefusal_def)
  show "parseTerminalFrame letterScanner True ''A'' = Inr sampleAttached"
    "parseTerminalFrame letterScanner True ''O'' = Inr sampleOutput"
    "parseTerminalFrame letterScanner True ''E'' = Inr sampleRefusal"
    by (simp_all add: parseTerminalFrame_def unmarshalText_def letterScanner_def atEOF_def r n)
qed

lemma sample_token: "trimSpace (sampleToken @ [CHR 0x0A]) = sampleToken" "length sampleToken = 16"
  using trim_line [of sampleToken] by (simp_all add: sampleToken_def)

lemma sample_bridge: "brAPI sampleBridge = \<lparr>acBaseURL = sampleURL, acTokenFile = ''t''\<rparr>" "brAgentID sampleBridge = ''i''" "brPaneID sampleBridge = []" "brStore sampleBridge = \<lparr>ssDirectory = ''/s''\<rparr>" "brTakeover sampleBridge = False"
  by (simp_all add: sampleBridge_def)

lemma sample_unsaved: "saved sampleEnv sampleBridge (sampleState\<lparr>asAfterSequence := n\<rparr>) = ret ()"
    "saved sampleEnv sampleBridge (sampleState\<lparr>asAfterSequence := n, asRunnerGeneration := g\<rparr>) = ret ()"
    "saved sampleEnv sampleBridge (sampleState\<lparr>asRunnerGeneration := g\<rparr>) = ret ()"
    "saved sampleEnv sampleBridge (sampleState\<lparr>asRunnerGeneration := g, asAfterSequence := n\<rparr>) = ret ()"
proof -
  have "\<not> validStateID ''i''" by code_simp
  then show "saved sampleEnv sampleBridge (sampleState\<lparr>asAfterSequence := n\<rparr>) = ret ()"
    "saved sampleEnv sampleBridge (sampleState\<lparr>asAfterSequence := n, asRunnerGeneration := g\<rparr>) = ret ()"
    "saved sampleEnv sampleBridge (sampleState\<lparr>asRunnerGeneration := g\<rparr>) = ret ()"
    "saved sampleEnv sampleBridge (sampleState\<lparr>asRunnerGeneration := g, asAfterSequence := n\<rparr>) = ret ()"
    by (simp_all add: saved_def Save_def sampleState_def newAgentState_def failed_def)
qed

lemma sample_quiet: "reported sampleEnv sampleBridge state message = ret ()"
  by (simp add: reported_def ReportAgent_def sample_bridge okay_def)

lemmas bridge_runs = run_bind run_attempt run_called run_askedRest run_wrapped run_orEnd run_effect Let_def okay_def failed_def isOK_def

lemmas bridge_eval = bridge_runs sample_env sample_terminal sample_frames sample_bridge sample_unsaved sample_quiet
  AuthorizationHeader_def writeTerminalFrame_def readTerminalFrame_def attachedWith_def ended_def

section \<open>One connection\<close>

definition sampleSent :: Frame where
  "sampleSent = attachFrame sampleBridge sampleState (terminalSizeOf None)"

definition sampleLog :: "(bridgeCall \<times> bool) list" where
  "sampleLog = [(File (ReadFile ''t''), True),
     (Dialed (bridgeTerminalURL sampleEnv \<lparr>acBaseURL = sampleURL, acTokenFile = ''t''\<rparr> ''i'')
        [(''Authorization'', ''Bearer '' @ sampleToken), (''X-Request-ID'', ''id'')], True),
     (SentFrame sampleSent, True), (GotFrame sampleAttached, True), (GotFrame sampleOutput, True), (Output sampleOutput, True)]"

definition sampleRun :: "bridgeError option option \<times> (sampleWorld bridgeWorld, bridgeCall \<times> bool) est" where
  "sampleRun = run_state (reconnecting sampleEnv sampleTerminal sampleBridge 1 sampleKeyboard sampleState 0 0 initialBackoff)
     \<lparr>world = \<lparr>bwSeq = 0, bwRest = [''A'', ''O'']\<rparr>, actions = []\<rparr>"

lemma sample_token_path: "cleanPath ''t'' = ''t''"
  by code_simp

lemma sample_attached: "frType sampleAttached = ''attached''" "frRole sampleAttached = ''control''" "frLeaseID sampleAttached = ''l''"
  "frRunnerGeneration sampleAttached = ''g''" "frType sampleOutput = ''output''" "frSequence sampleOutput = Some 8"
  "asRunnerGeneration sampleState = ''g''" "asAfterSequence sampleState = Some 7"
  by (simp_all add: sampleAttached_def sampleOutput_def sampleState_def)

lemma sample_session: "fst sampleRun = None" "actions (snd sampleRun) = sampleLog"
  by (simp_all add: sampleRun_def sampleLog_def bridge_eval sample_token sample_token_path sample_attached runConnection_def serve_def connStep_def startConn_def readerReads_def loopStep_def handleServerFrame_def showOutput_def queueFrame_def One_nat_def
      sampleSent_def sampleKeyboard_def cong: lazy_congs)

end
