(* ===== verification/Bridge_Session.thy ===== *)
theory Bridge_Session
  imports Bridge_Sample Bootstrap_Order
begin

text \<open>
  What a user sees in the pane of an agent, over all connections of a bridge (\<^verbatim>\<open>herdrbridge/terminal.go\<close>).
  A monitor reads the log of a run; a contract over the monitor goes through the steps of a
  connection, the connection, and the loop over connections.
\<close>

section \<open>Contracts for the calls of the bridge\<close>

lemma does_called: "(\<And>ok. P (c, ok)) \<Longrightarrow> does P (called c f)"
  by (auto simp: yields_def called_def case_prod_beta)

lemma does_asked: "does P (asked f)"
  unfolding asked_def by (rule yields_ask)

lemma does_shown: "P (Shown t, True) \<Longrightarrow> does P (shown t)"
  unfolding shown_def by (rule yields_effect)

lemma does_slept: "(\<And>ok. P (Slept d, ok)) \<Longrightarrow> does P (slept T d)"
  by (auto simp: yields_def slept_def case_prod_beta)

lemma does_wrapped: "does P m \<Longrightarrow> does P (wrapped m wrap)"
  unfolding wrapped_def by (intro does_bind does_return)

lemma does_okay: "does P (okay x)" "does P (failed e)"
  unfolding okay_def failed_def by (intro does_return)+

lemmas bridge_does = does_called does_asked does_shown does_slept does_wrapped does_okay does_attempt

lemma does_herdrOnly: "(\<And>as ok. P (Herdr as, ok)) \<Longrightarrow> does P (herdrOnly E arguments)"
  unfolding herdrOnly_def RunHerdr_def by (intro bridge_does)

lemma does_herdr:
  assumes "\<And>as ok. P (Herdr as, ok)"
  shows "does P (ReportAgent E pane state message)" "does P (ReportMetadata E pane s)" "does P (Notify E title body sound)"
    "does P (OpenAgent E i pane taking)" "does P (FocusPane E pane)" "does P (ClosePane E pane)" "does P (OpenManager E act pane)"
  unfolding ReportAgent_def ReportMetadata_def Notify_def OpenAgent_def FocusPane_def ClosePane_def OpenManager_def Let_def nextSeq_def
  by (intro does_if does_bind does_okay does_herdrOnly yields_ask assms)+

lemma does_reported:
  assumes "\<And>as ok. P (Herdr as, ok)"
  shows "does P (reported E b state message)" "does P (reportAttention E b e)"
  unfolding reported_def reportAttention_def by (intro does_bind does_return does_herdr assms)+

lemma does_closing: "does P m \<Longrightarrow> does P close \<Longrightarrow> does P (closing m close)"
  unfolding closing_def by (intro does_bind does_sum does_okay)

lemma does_Save: "(\<And>c ok. P (File c, ok)) \<Longrightarrow> does P (Save E st s)"
  unfolding Save_def replaceFile_def Let_def by (intro does_if does_bind does_return does_closing bridge_does)

lemma does_saved: "(\<And>c ok. P (File c, ok)) \<Longrightarrow> does P (saved E b s)"
  unfolding saved_def by (intro does_bind does_return does_Save)

lemma does_Load: "(\<And>c ok. P (File c, ok)) \<Longrightarrow> does P (Load E st i)"
  unfolding Load_def by (intro does_if does_option bridge_does) auto

lemma ordered_called:
  assumes "\<And>h ok. H h \<Longrightarrow> P h (c, ok)" "\<And>h r. H h \<Longrightarrow> Q r (h @ [(c, isOK r)])"
  shows "ordered H P (called c f) Q"
  using assms by (auto simp: ordered_def called_def case_prod_beta Cons_eq_append_conv)

lemma ordered_asked: "ordered H P (asked f) (\<lambda>_. H)"
  unfolding asked_def by (rule ordered_ask)

text \<open>A program all of whose actions keep what is known.\<close>

lemma ordered_kept:
  fixes m :: "('w, 'e, 'a) prog"
  assumes "does A m" "\<And>h ev. A ev \<Longrightarrow> P h ev" "\<And>h ev. A ev \<Longrightarrow> H h \<Longrightarrow> H (h @ [ev])"
  shows "ordered H P m (\<lambda>_. H)"
  unfolding ordered_def
proof (intro allI impI)
  fix s :: "('w, 'e) est"
  assume "H (actions s)"
  obtain as where as: "actions (snd (run_state m s)) = actions s @ as" "list_all A as"
    using assms(1) unfolding yields_def by blast
  have "H (h @ as)" if "list_all A as" "H h" for h as
    using that assms(3) by (induction as arbitrary: h) (simp, metis append.assoc append_Cons append_Nil list.pred_inject(2))
  then have "H (actions s @ as)" using as \<open>H (actions s)\<close> by blast
  moreover have "\<forall>pre ev post. as = pre @ ev # post \<longrightarrow> P (actions s @ pre) ev"
    using as(2) assms(2) by auto
  ultimately show "\<exists>as. actions (snd (run_state m s)) = actions s @ as \<and> (\<forall>pre ev post. as = pre @ ev # post \<longrightarrow> P (actions s @ pre) ev) \<and> H (actions s @ as)"
    using as(1) by blast
qed

section \<open>The monitor\<close>

text \<open>
  \<open>dsWant\<close> is the sequence number of the last output shown since the bridge last attached without a
  cursor; \<open>dsPos\<close> the same, but unknown after a gap was announced to the user. \<open>dsNext\<close> is the
  last sequence number received on this connection, the cursor to begin with. \<open>dsReset\<close> tells that on
  this connection the runner refused the cursor, or accepted the attach under another generation.
  \<open>dsHonest\<close> tells that all output received had the number after \<open>dsNext\<close>.
\<close>

record display =
  dsWant :: "uint64 option"
  dsPos :: "uint64 option"
  dsNext :: "uint64 option"
  dsGot :: "Frame list"
  dsGeneration :: string
  dsReset :: bool
  dsHonest :: bool

definition firstDisplay :: "AgentState \<Rightarrow> display" where
  "firstDisplay s = \<lparr>dsWant = asAfterSequence s, dsPos = asAfterSequence s, dsNext = None, dsGot = [], dsGeneration = asRunnerGeneration s,
     dsReset = False, dsHonest = True\<rparr>"

definition follows :: "uint64 option \<Rightarrow> Frame \<Rightarrow> bool" where
  "follows p f = (case frSequence f of None \<Rightarrow> False | Some n \<Rightarrow> (case p of None \<Rightarrow> True | Some m \<Rightarrow> n = m + 1))"

definition advance :: "uint64 option \<Rightarrow> Frame \<Rightarrow> uint64 option" where
  "advance p f = (if frType f = ''output'' then frSequence f else if frType f = ''replay_gap'' then None else p)"

definition acceptsAttach :: "Frame \<Rightarrow> bool" where
  "acceptsAttach f \<longleftrightarrow> frType f = ''attached'' \<and> frRole f = ''control'' \<and> frLeaseID f \<noteq> []"

definition refusesCursor :: "Frame \<Rightarrow> bool" where
  "refusesCursor f \<longleftrightarrow> frType f = ''error'' \<and> frCode f = ''replay_cursor_invalid''"

definition otherGeneration :: "display \<Rightarrow> Frame \<Rightarrow> bool" where
  "otherGeneration d f \<longleftrightarrow> dsGeneration d \<noteq> [] \<and> dsGeneration d \<noteq> frRunnerGeneration f"

definition gets :: "Frame \<Rightarrow> display \<Rightarrow> display" where
  "gets f d =
     (let opens = (dsGot d = [] \<and> acceptsAttach f) in
      d\<lparr>dsGot := dsGot d @ [f], dsNext := advance (dsNext d) f,
        dsGeneration := (if opens then frRunnerGeneration f else dsGeneration d),
        dsReset := dsReset d \<or> refusesCursor f \<or> (opens \<and> otherGeneration d f),
        dsHonest := dsHonest d \<and> (frType f = ''output'' \<longrightarrow> follows (dsNext d) f)\<rparr>)"

definition attaches :: "uint64 option \<Rightarrow> display \<Rightarrow> display" where
  "attaches cursor d =
     d\<lparr>dsWant := cursor, dsPos := (if cursor = None then None else dsPos d), dsNext := cursor, dsGot := [], dsReset := False\<rparr>"

fun watch1 :: "bridgeCall \<times> bool \<Rightarrow> display \<Rightarrow> display" where
  "watch1 (SentFrame f, ok) d = (if frType f = ''attach'' then attaches (frAfterSequence f) d else d)"
| "watch1 (GotFrame f, ok) d = gets f d"
| "watch1 (Output f, True) d =
     (case frSequence f of None \<Rightarrow> d | Some n \<Rightarrow> d\<lparr>dsWant := Some n, dsPos := Some n\<rparr>)"
| "watch1 (Shown t, ok) d = (if t = gapMessage then d\<lparr>dsPos := None\<rparr> else d)"
| "watch1 _ d = d"

definition watch :: "AgentState \<Rightarrow> (bridgeCall \<times> bool) list \<Rightarrow> display" where
  "watch s h = fold watch1 h (firstDisplay s)"

lemma watch_simps [simp]: "watch s [] = firstDisplay s" "watch s (h @ [ev]) = watch1 ev (watch s h)"
  by (simp_all add: watch_def)

text \<open>What an attach and an output must be.\<close>

definition resumes :: "display \<Rightarrow> uint64 option \<Rightarrow> bool" where
  "resumes d cursor \<longleftrightarrow> cursor = dsWant d \<or> cursor = None \<and> dsReset d"

definition proper :: "display \<Rightarrow> bridgeCall \<times> bool \<Rightarrow> bool" where
  "proper d ev \<longleftrightarrow>
     (\<forall>f. fst ev = SentFrame f \<longrightarrow> frType f = ''attach'' \<longrightarrow> resumes d (frAfterSequence f)) \<and>
     (\<forall>f. fst ev = Output f \<longrightarrow> f \<in> set (dsGot d) \<and> frType f = ''output'' \<and> (dsHonest d \<longrightarrow> follows (dsPos d) f))"

definition neutral :: "bridgeCall \<times> bool \<Rightarrow> bool" where
  "neutral ev \<longleftrightarrow>
     (case fst ev of
        SentFrame f \<Rightarrow> frType f \<noteq> ''attach'' | GotFrame f \<Rightarrow> False | Output f \<Rightarrow> False | Shown t \<Rightarrow> t \<noteq> gapMessage | _ \<Rightarrow> True)"

lemma neutral_watch: "neutral ev \<Longrightarrow> watch1 ev d = d"
  by (cases "(ev, d)" rule: watch1.cases) (auto simp: neutral_def)

lemma neutral_proper: "neutral ev \<Longrightarrow> proper d ev"
  by (auto simp: neutral_def proper_def)

definition monitored ::
  "AgentState \<Rightarrow> (display \<Rightarrow> bool) \<Rightarrow> ('w, bridgeCall \<times> bool, 'a) prog \<Rightarrow> ('a \<Rightarrow> display \<Rightarrow> bool) \<Rightarrow> bool" where
  "monitored s I m J \<longleftrightarrow> ordered (\<lambda>h. I (watch s h)) (\<lambda>h. proper (watch s h)) m (\<lambda>r h. J r (watch s h))"

lemma monitored_neutral: "does neutral m \<Longrightarrow> monitored s I m (\<lambda>_. I)"
  unfolding monitored_def by (erule ordered_kept) (simp_all add: neutral_proper neutral_watch)

lemma monitored_return: "(\<And>d. I d \<Longrightarrow> J x d) \<Longrightarrow> monitored s I (ret x) J"
  unfolding monitored_def by (rule ordered_return)

lemma monitored_bind: "monitored s I m J \<Longrightarrow> (\<And>x. monitored s (J x) (f x) K) \<Longrightarrow> monitored s I (State_Monad.bind m f) K"
  unfolding monitored_def by (rule ordered_bind)

lemma monitored_quiet: "does neutral m \<Longrightarrow> (\<And>x. monitored s I (f x) K) \<Longrightarrow> monitored s I (State_Monad.bind m f) K"
  by (rule monitored_bind [OF monitored_neutral])

lemma monitored_conseq:
  "monitored s I m J \<Longrightarrow> (\<And>d. I' d \<Longrightarrow> I d) \<Longrightarrow> (\<And>x d. J x d \<Longrightarrow> J' x d) \<Longrightarrow> monitored s I' m J'"
  unfolding monitored_def by (erule ordered_conseq)

lemma monitored_called:
  "(\<And>d ok. I d \<Longrightarrow> proper d (c, ok)) \<Longrightarrow> (\<And>d r. I d \<Longrightarrow> J r (watch1 (c, isOK r) d)) \<Longrightarrow> monitored s I (called c f) J"
  unfolding monitored_def by (rule ordered_called) simp_all

lemma monitored_effect:
  "(\<And>d. I d \<Longrightarrow> proper d act) \<Longrightarrow> (\<And>d r. I d \<Longrightarrow> J r (watch1 act d)) \<Longrightarrow> monitored s I (effect act f) J"
  unfolding monitored_def by (rule ordered_effect) simp_all

lemma neutral_does:
  "does neutral (reported E b state message)" "does neutral (reportAttention E b e)" "does neutral (saved E b s)"
  "does neutral (Notify E title body sound)" "does neutral (asked g)" "does neutral (slept T dur)"
  "frType f \<noteq> ''attach'' \<Longrightarrow> does neutral (writeTerminalFrame E T f)"
  "does neutral (AuthorizationHeader E api)"
  unfolding writeTerminalFrame_def AuthorizationHeader_def Let_def
  by (intro does_reported does_saved does_herdr does_if bridge_does; simp add: neutral_def)+

section \<open>A connection\<close>

definition queued :: "conn \<Rightarrow> Frame list" where
  "queued c = cnFrames c @ (case cnReader c of Holding f \<Rightarrow> [f] | _ \<Rightarrow> [])"

fun chained :: "uint64 option \<Rightarrow> Frame list \<Rightarrow> bool" where
  "chained p [] = True"
| "chained p (f # fs) = ((frType f = ''output'' \<longrightarrow> follows p f) \<and> chained (advance p f) fs)"

definition vaguer :: "uint64 option \<Rightarrow> uint64 option \<Rightarrow> bool" where
  "vaguer p q \<longleftrightarrow> p = None \<or> p = q"

definition stateKnown :: "display \<Rightarrow> AgentState \<Rightarrow> bool" where
  "stateKnown d s \<longleftrightarrow> resumes d (asAfterSequence s) \<and> asRunnerGeneration s = dsGeneration d \<and> vaguer (dsPos d) (dsWant d) \<and>
     (\<forall>f \<in> set (dsGot d). refusesCursor f \<longrightarrow> dsReset d)"

definition lineUp :: "display \<Rightarrow> Frame list \<Rightarrow> bool" where
  "lineUp d fs \<longleftrightarrow> (dsHonest d \<longrightarrow> chained (dsPos d) fs \<and> vaguer (fold (\<lambda>f p. advance p f) fs (dsPos d)) (dsNext d))"

definition connKnown :: "display \<Rightarrow> conn \<Rightarrow> bool" where
  "connKnown d c \<longleftrightarrow>
     stateKnown d (cnState c) \<and> dsGot d \<noteq> [] \<and> set (queued c) \<subseteq> set (dsGot d) \<and> (cnResult c = None \<longrightarrow> lineUp d (queued c)) \<and>
     (\<forall>f \<in> set (cnCommands c). frType f \<noteq> ''attach'')"

lemma follows_vaguer: "vaguer p q \<Longrightarrow> follows q f \<Longrightarrow> follows p f"
  by (auto simp: vaguer_def follows_def split: option.splits)

lemma chained_append: "chained p (fs @ gs) \<longleftrightarrow> chained p fs \<and> chained (fold (\<lambda>f p. advance p f) fs p) gs"
  by (induction fs arbitrary: p) auto

lemma vaguer_advance: "vaguer p q \<Longrightarrow> vaguer (advance p f) (advance q f)"
  by (auto simp: vaguer_def advance_def)

lemma lineUp_got:
  assumes "lineUp d fs" shows "lineUp (gets f d) (fs @ [f])"
  using assms by (auto simp: lineUp_def gets_def Let_def chained_append follows_vaguer vaguer_advance)

lemma stateKnown_got: "stateKnown d s \<Longrightarrow> dsGot d \<noteq> [] \<Longrightarrow> stateKnown (gets f d) s"
  by (auto simp: stateKnown_def gets_def Let_def resumes_def)

lemma stateKnown_first:
  "stateKnown d s \<Longrightarrow> \<not> acceptsAttach f \<Longrightarrow> stateKnown (gets f d) s"
  by (auto simp: stateKnown_def gets_def Let_def resumes_def)

lemma monitored_read:
  "monitored s (\<lambda>d. I d) (readTerminalFrame E T)
     (\<lambda>r d. case r of Inl _ \<Rightarrow> I d | Inr f \<Rightarrow> (\<exists>d'. I d' \<and> d = gets f d'))"
  unfolding readTerminalFrame_def
proof (rule monitored_quiet, rule neutral_does)
  fix m :: "goerror + bool \<times> string"
  show "monitored s I (case m of Inl e \<Rightarrow> failed (Fault e)
      | Inr (isText, message) \<Rightarrow>
         (case parseTerminalFrame (beScanner E) isText message of Inl e \<Rightarrow> failed (Fault e)
          | Inr f \<Rightarrow> do { _ \<leftarrow> effect (GotFrame f, True) (\<lambda>w. ((), w)); okay f }))
      (\<lambda>r d. case r of Inl _ \<Rightarrow> I d | Inr f \<Rightarrow> (\<exists>d'. I d' \<and> d = gets f d'))"
    unfolding failed_def okay_def
    by (auto split: sum.split prod.split intro!: monitored_return monitored_bind [OF monitored_effect [where J = "\<lambda>_ d. \<exists>d'. I d' \<and> d = gets f d'" for f]]
        simp: proper_def)
qed


section \<open>A step of a connection\<close>

definition headKnown :: "display \<Rightarrow> Frame \<Rightarrow> conn \<Rightarrow> bool" where
  "headKnown d f c \<longleftrightarrow>
     stateKnown d (cnState c) \<and> dsGot d \<noteq> [] \<and> set (f # queued c) \<subseteq> set (dsGot d) \<and> lineUp d (f # queued c) \<and>
     (\<forall>g \<in> set (cnCommands c). frType g \<noteq> ''attach'')"

lemma queued_simps [simp]:
  "queued (returns r c) = queued c" "queued (c\<lparr>cnLoopLease := l\<rparr>) = queued c" "queued (queueFrame f c) = queued c"
  "queued (c\<lparr>cnState := st\<rparr>) = queued c" "queued (c\<lparr>cnCommands := fs\<rparr>) = queued c" "queued (c\<lparr>cnResult := res\<rparr>) = queued c"
  "queued (c\<lparr>cnInput := is\<rparr>) = queued c" "queued (c\<lparr>cnTyping := ty\<rparr>) = queued c" "queued (c\<lparr>cnSizes := dims\<rparr>) = queued c"
  "queued (c\<lparr>cnWriting := w, cnWriteError := e\<rparr>) = queued c" "queued (publishSize sz c) = queued c"
  by (simp_all add: queued_def returns_def queueFrame_def publishSize_def)

lemma queueFrame_simps [simp]:
  "cnState (queueFrame f c) = cnState c" "cnResult (queueFrame f c) = cnResult c"
  "cnState (returns r c) = cnState c" "cnResult (returns r c) = Some r"
  "cnState (publishSize sz c) = cnState c" "cnResult (publishSize sz c) = cnResult c"
  by (simp_all add: queueFrame_def returns_def publishSize_def)

lemma queueFrame_commands: "g \<in> set (cnCommands (queueFrame f c)) \<Longrightarrow> g \<in> set (cnCommands c) \<or> g = f"
  by (auto simp: queueFrame_def split: if_splits)

lemma returns_commands [simp]: "cnCommands (returns r c) = cnCommands c" "cnCommands (publishSize sz c) = cnCommands c"
  by (simp_all add: returns_def publishSize_def)

lemma reply_types [simp]: "frType (ackFrame n) = ''ack''" "frType (pongReply nonce) = ''pong''" "frType (inputFrame l chunk) = ''input''"
  "frType (resizeFrame l dims) = ''resize''"
  by (simp_all add: ackFrame_def pongReply_def inputFrame_def resizeFrame_def zeroFrame_def)

lemma headKnown_pass:
  assumes "headKnown d f c" "frType f \<noteq> ''output''" "frType f \<noteq> ''replay_gap''"
    "cnState c' = cnState c" "queued c' = queued c" "\<forall>g \<in> set (cnCommands c'). g \<in> set (cnCommands c) \<or> frType g \<noteq> ''attach''"
  shows "connKnown d c'"
  using assms by (auto simp: headKnown_def connKnown_def lineUp_def advance_def)

lemma headKnown_returns: "headKnown d f c \<Longrightarrow> connKnown d (returns r c)"
  by (simp add: headKnown_def connKnown_def)

lemma headKnown_gap:
  assumes "headKnown d f c" "frType f = ''replay_gap''"
  shows "connKnown (d\<lparr>dsPos := None\<rparr>) c"
  using assms by (auto simp: headKnown_def connKnown_def lineUp_def advance_def stateKnown_def resumes_def vaguer_def)

lemma headKnown_shown:
  assumes "headKnown d f c" "frType f = ''output''" "frSequence f = Some n"
  shows "connKnown (d\<lparr>dsWant := Some n, dsPos := Some n\<rparr>) (queueFrame (ackFrame n) (c\<lparr>cnState := (cnState c)\<lparr>asAfterSequence := Some n\<rparr>\<rparr>))"
  using assms by (auto simp: headKnown_def connKnown_def lineUp_def advance_def stateKnown_def resumes_def vaguer_def dest!: queueFrame_commands)

lemma headKnown_unnumbered:
  assumes "headKnown d f c" "frType f = ''output''" "frSequence f = None"
  shows "connKnown d c"
  using assms by (auto simp: headKnown_def connKnown_def lineUp_def follows_def)

lemma monitored_showOutput:
  assumes "frType f = ''output''"
  shows "monitored s (\<lambda>d. headKnown d f c) (showOutput E T b f c) (\<lambda>c' d. connKnown d c')"
  unfolding showOutput_def Let_def
proof (rule monitored_bind)
  let ?J = "\<lambda>(r :: goerror + unit) d'. case r of Inl _ \<Rightarrow> headKnown d' f c | Inr _ \<Rightarrow> (\<exists>d. headKnown d f c \<and> d' = watch1 (Output f, True) d)"
  show "monitored s (\<lambda>d. headKnown d f c) (called (Output f) (teOutput T (frData f))) ?J"
    using assms
    by (intro monitored_called) (auto simp: proper_def headKnown_def lineUp_def isOK_def split: sum.splits)
  fix r :: "goerror + unit"
  show "monitored s (?J r)
     (case r of Inl e \<Rightarrow> ret (returns (Some (Fault e)) c)
      | Inr _ \<Rightarrow> (case frSequence f of None \<Rightarrow> ret c
          | Some n \<Rightarrow> do { _ \<leftarrow> saved E b ((cnState c)\<lparr>asAfterSequence := Some n\<rparr>);
              ret (queueFrame (ackFrame n) (c\<lparr>cnState := (cnState c)\<lparr>asAfterSequence := Some n\<rparr>\<rparr>)) }))
     (\<lambda>c' d. connKnown d c')"
  proof (cases r)
    case (Inl e)
    then show ?thesis by (auto intro: monitored_return headKnown_returns)
  next
    case (Inr u)
    then show ?thesis
      using assms by (cases "frSequence f")
        (auto intro!: monitored_return monitored_quiet neutral_does intro: headKnown_unnumbered headKnown_shown)
  qed
qed

lemma monitored_handle:
  assumes "cnResult c = None"
  shows "monitored s (\<lambda>d. headKnown d f c) (handleServerFrame E T b f c) (\<lambda>c' d. connKnown d c')"
proof -
  have pass: "monitored s (\<lambda>d. headKnown d f c) (ret c') (\<lambda>c' d. connKnown d c')"
    if "frType f \<noteq> ''output''" "frType f \<noteq> ''replay_gap''" "cnState c' = cnState c" "queued c' = queued c"
      "\<forall>g \<in> set (cnCommands c'). g \<in> set (cnCommands c) \<or> frType g \<noteq> ''attach''" for c'
    using that by (auto intro!: monitored_return intro: headKnown_pass)
  have stop: "monitored s (\<lambda>d. headKnown d f c) (ret (returns r c)) (\<lambda>c' d. connKnown d c')" for r
    by (rule monitored_return) (rule headKnown_returns)
  have gap: "monitored s (\<lambda>d. headKnown d f c) (do { _ \<leftarrow> shown gapMessage; ret c }) (\<lambda>c' d. connKnown d c')"
    if "frType f = ''replay_gap''"
    unfolding shown_def
    by (rule monitored_bind [OF monitored_effect [where J = "\<lambda>_ d. connKnown d c"]], simp add: proper_def)
      (use that headKnown_gap in \<open>auto intro: monitored_return\<close>)
  have reset: "monitored s (\<lambda>d. headKnown d f c) (handleError E b f c) (\<lambda>c' d. connKnown d c')" if t: "frType f = ''error''"
    unfolding handleError_def Let_def
  proof (cases "frCode f = ''replay_cursor_invalid''")
    case True
    have "connKnown d (returns (Some ReplayReset) (c\<lparr>cnState := (cnState c)\<lparr>asAfterSequence := None\<rparr>\<rparr>))" if "headKnown d f c" for d
      using that t True by (auto simp: headKnown_def connKnown_def stateKnown_def resumes_def refusesCursor_def)
    then show "monitored s (\<lambda>d. headKnown d f c) (if frCode f = ''replay_cursor_invalid''
        then do { _ \<leftarrow> saved E b ((cnState c)\<lparr>asAfterSequence := None\<rparr>);
          ret (returns (Some ReplayReset) (c\<lparr>cnState := (cnState c)\<lparr>asAfterSequence := None\<rparr>\<rparr>)) }
        else ret (returns (Some (bridgeProtocolError f)) c)) (\<lambda>c' d. connKnown d c')"
      using True by (auto intro!: monitored_quiet neutral_does monitored_return)
  qed (simp add: stop)
  have exit: "monitored s (\<lambda>d. headKnown d f c) (handleExit E b c) (\<lambda>c' d. connKnown d c')" if "frType f = ''exit''"
    unfolding handleExit_def by (intro monitored_quiet neutral_does pass) (use that in simp_all)
  show ?thesis
    unfolding handleServerFrame_def using assms
    by (auto intro!: monitored_showOutput stop gap reset exit pass dest!: queueFrame_commands)
qed

lemma monitored_reader:
  assumes "cnReader c = Reading"
  shows "monitored s (\<lambda>d. connKnown d c) (readerReads E T c) (\<lambda>c' d. connKnown d c')"
  unfolding readerReads_def
proof (rule monitored_bind [OF monitored_read], rule monitored_return)
  fix r :: "bridgeError + Frame" and d
  assume d: "case r of Inl _ \<Rightarrow> connKnown d c | Inr f \<Rightarrow> \<exists>d'. connKnown d' c \<and> d = gets f d'"
  show "connKnown d (case r of Inl e \<Rightarrow> c\<lparr>cnReader := ReaderDone, cnReadError := Some e\<rparr> | Inr f \<Rightarrow> c\<lparr>cnReader := Holding f\<rparr>)"
  proof (cases r)
    case (Inl e)
    then show ?thesis using d assms by (simp add: connKnown_def queued_def)
  next
    case (Inr f)
    then obtain d' where d': "connKnown d' c" "d = gets f d'" using d by auto
    have q: "queued c = cnFrames c" "queued (c\<lparr>cnReader := Holding f\<rparr>) = queued c @ [f]" using assms by (simp_all add: queued_def)
    show ?thesis
      using d' Inr q lineUp_got [of d' "queued c" f] stateKnown_got [of d' "cnState c" f]
      by (auto simp: connKnown_def) (auto simp: gets_def Let_def)
  qed
qed

lemma connKnown_same:
  "connKnown d c \<Longrightarrow> cnState c' = cnState c \<Longrightarrow> queued c' = queued c \<Longrightarrow> set (cnCommands c') \<subseteq> set (cnCommands c) \<Longrightarrow>
     cnResult c' = cnResult c \<or> cnResult c' \<noteq> None \<Longrightarrow> connKnown d c'"
  by (auto simp: connKnown_def)

lemma monitored_same:
  "cnState c' = cnState c \<Longrightarrow> queued c' = queued c \<Longrightarrow> set (cnCommands c') \<subseteq> set (cnCommands c) \<Longrightarrow>
     cnResult c' = cnResult c \<or> cnResult c' \<noteq> None \<Longrightarrow> monitored s (\<lambda>d. connKnown d c) (ret c') (\<lambda>c' d. connKnown d c')"
  by (rule monitored_return) (rule connKnown_same)

lemma monitored_writes:
  assumes "frType f \<noteq> ''attach''" "cnState c' = cnState c" "queued c' = queued c" "set (cnCommands c') \<subseteq> set (cnCommands c)"
    "cnResult c' = cnResult c"
  shows "monitored s (\<lambda>d. connKnown d c) (writes E T f c') (\<lambda>c' d. connKnown d c')"
  unfolding writes_def
  by (rule monitored_quiet, rule neutral_does, rule assms(1))
    (use assms(2-) in \<open>auto intro!: monitored_same split: sum.splits simp: queued_def\<close>)

lemma monitored_loop:
  "monitored s (\<lambda>d. connKnown d c) (loopStep E T b ev c) (\<lambda>c' d. connKnown d c')"
proof (cases "cnResult c = None")
  case True
  have same: "monitored s (\<lambda>d. connKnown d c) (ret c) (\<lambda>c' d. connKnown d c')" by (simp add: monitored_same)
  have stop: "monitored s (\<lambda>d. connKnown d c) (ret (returns r c)) (\<lambda>c' d. connKnown d c')" for r by (rule monitored_same) simp_all
  have frame: "monitored s (\<lambda>d. connKnown d c) (handleServerFrame E T b f (c\<lparr>cnFrames := fs\<rparr>)) (\<lambda>c' d. connKnown d c')"
    if "cnFrames c = f # fs" for f fs
  proof (rule monitored_conseq [OF monitored_handle])
    show "headKnown d f (c\<lparr>cnFrames := fs\<rparr>)" if "connKnown d c" for d
      using that True \<open>cnFrames c = f # fs\<close> by (simp add: connKnown_def headKnown_def queued_def)
  qed (simp_all add: True)
  show ?thesis
    unfolding loopStep_def using True
    by (auto split: connEvent.split option.split list.split intro!: same stop frame monitored_quiet neutral_does)
qed (simp add: loopStep_def monitored_same)

lemma monitored_writer:
  "monitored s (\<lambda>d. connKnown d c) (writerStep E T b ev c) (\<lambda>c' d. connKnown d c')"
proof -
  have same: "monitored s (\<lambda>d. connKnown d c) (ret c) (\<lambda>c' d. connKnown d c')" by (simp add: monitored_same)
  have command: "monitored s (\<lambda>d. connKnown d c) (writes E T f (c\<lparr>cnCommands := rest\<rparr>)) (\<lambda>c' d. connKnown d c')"
    if "cnCommands c = f # rest" for f rest
  proof (cases "frType f = ''attach''")
    case True
    then have "\<not> connKnown d c" for d using that by (simp add: connKnown_def)
    then show ?thesis by (simp add: monitored_def ordered_def)
  next
    case False
    then show ?thesis using that by (intro monitored_writes) auto
  qed
  show ?thesis
    unfolding writerStep_def
    by (auto split: connEvent.split list.split intro!: same command monitored_writes monitored_quiet neutral_does)
qed

lemma monitored_connStep:
  "monitored s (\<lambda>d. connKnown d c) (connStep E T b ev c) (\<lambda>c' d. connKnown d c')"
proof -
  have same: "monitored s (\<lambda>d. connKnown d c) (ret c) (\<lambda>c' d. connKnown d c')" by (simp add: monitored_same)
  have offers: "monitored s (\<lambda>d. connKnown d c) (ret (c\<lparr>cnFrames := cnFrames c @ [f], cnReader := Reading\<rparr>)) (\<lambda>c' d. connKnown d c')"
    if "cnReader c = Holding f" for f
    using that by (intro monitored_same) (simp_all add: queued_def)
  show ?thesis
  proof (cases ev)
    case ReaderOffers
    then show ?thesis by (auto simp: connStep_def split: readerPhase.split intro!: same offers)
  qed (auto simp: connStep_def intro!: same monitored_reader monitored_loop monitored_writer monitored_same monitored_quiet neutral_does split: option.split)
qed

lemma monitored_connRun:
  "monitored s (\<lambda>d. connKnown d c) (connRun E T b evs c) (\<lambda>c' d. connKnown d c')"
  by (induction evs arbitrary: c) (auto intro!: monitored_same monitored_bind [OF monitored_connStep])

section \<open>From connection to connection\<close>

definition outcomeKnown :: "connOutcome \<Rightarrow> display \<Rightarrow> bool" where
  "outcomeKnown r d \<longleftrightarrow> stateKnown d (coState r)"

lemma monitored_ended: "(\<And>d. I d \<Longrightarrow> stateKnown d st) \<Longrightarrow> monitored s I (ended kb st e) outcomeKnown"
  unfolding ended_def by (rule monitored_return) (simp add: outcomeKnown_def)

lemma monitored_orEnd:
  assumes "monitored s I m J" "\<And>x. monitored s (J (Inr x)) (f x) outcomeKnown" "\<And>e d. J (Inl e) d \<Longrightarrow> stateKnown d st"
  shows "monitored s I (orEnd kb st m f) outcomeKnown"
  unfolding orEnd_def
proof (rule monitored_bind [OF assms(1)])
  fix r :: "bridgeError + 'b"
  show "monitored s (J r) (case r of Inl e \<Rightarrow> ended kb st e | Inr x \<Rightarrow> f x) outcomeKnown"
    using assms(2,3) by (cases r) (auto intro: monitored_ended)
qed

lemma monitored_orEnd_quiet:
  assumes "does neutral m" "\<And>x. monitored s I (f x) outcomeKnown" "\<And>d. I d \<Longrightarrow> stateKnown d st"
  shows "monitored s I (orEnd kb st m f) outcomeKnown"
  using monitored_orEnd [OF monitored_neutral [OF assms(1)] assms(2,3)] .

lemma monitored_serve:
  assumes "\<And>d. I d \<Longrightarrow> connKnown d (startConn lease kb st)"
  shows "monitored s I (serve E T b lease kb st) outcomeKnown"
  unfolding serve_def
  by (rule monitored_quiet, rule neutral_does, rule monitored_quiet, rule neutral_does, rule monitored_quiet, rule neutral_does, rule monitored_bind, rule monitored_conseq, rule monitored_connRun, erule assms, assumption)
    (auto intro!: monitored_return simp: outcomeKnown_def connKnown_def)

text \<open>An attach was sent, and nothing has been received.\<close>

definition attaching :: "AgentState \<Rightarrow> display \<Rightarrow> bool" where
  "attaching st d \<longleftrightarrow> stateKnown d st \<and> dsGot d = [] \<and> dsNext d = dsWant d"

lemma opened:
  assumes "attaching st d" "acceptsAttach f"
  shows "asRunnerGeneration st \<noteq> [] \<Longrightarrow> asRunnerGeneration st \<noteq> frRunnerGeneration f \<Longrightarrow>
      stateKnown (gets f d) (st\<lparr>asAfterSequence := None, asRunnerGeneration := frRunnerGeneration f\<rparr>)"
    and "connKnown (gets f d) (startConn lease kb (st\<lparr>asRunnerGeneration := frRunnerGeneration f\<rparr>))"
  using assms
  by (auto simp: attaching_def stateKnown_def gets_def Let_def resumes_def acceptsAttach_def refusesCursor_def otherGeneration_def
      connKnown_def startConn_def queued_def lineUp_def advance_def)

lemma monitored_attachedWith:
  "monitored s (\<lambda>d. \<exists>d'. attaching st d' \<and> d = gets f d') (attachedWith E T b f kb st) outcomeKnown"
proof -
  have refused: "monitored s (\<lambda>d. \<exists>d'. attaching st d' \<and> d = gets f d') (ended kb st e) outcomeKnown" if "\<not> acceptsAttach f" for e
    using that stateKnown_first by (intro monitored_ended) (auto simp: attaching_def)
  show ?thesis
  proof (cases "acceptsAttach f")
    case False
    then have "frType f = ''error'' \<or> (frType f \<noteq> ''attached'' \<or> frRole f \<noteq> ''control'' \<or> frLeaseID f = [])"
      by (auto simp: acceptsAttach_def)
    then show ?thesis unfolding attachedWith_def using refused [OF False] by auto
  next
    case True
    then have t: "frType f = ''attached''" "frRole f = ''control''" "frLeaseID f \<noteq> []" by (simp_all add: acceptsAttach_def)
    show ?thesis
      unfolding attachedWith_def Let_def using t
      by (auto intro!: monitored_quiet neutral_does monitored_ended monitored_serve opened [OF _ True])
  qed
qed

lemma attaching_attaches: "stateKnown d st \<Longrightarrow> attaching st (attaches (asAfterSequence st) d)"
  by (auto simp: stateKnown_def attaching_def attaches_def resumes_def vaguer_def)

lemma monitored_runConnection:
  "monitored s (\<lambda>d. stateKnown d st) (runConnection E T b kb st) outcomeKnown"
proof -
  have dial: "does neutral (wrapped (called (Dialed url headers) g) wrap)" for url headers g and wrap :: "'x \<Rightarrow> bridgeError"
    by (intro bridge_does) (simp add: neutral_def)
  have a: "frType (attachFrame b st dims) = ''attach''" "frAfterSequence (attachFrame b st dims) = asAfterSequence st" for dims
    by (simp_all add: attachFrame_def)
  have sent: "monitored s (\<lambda>d. stateKnown d st) (writeTerminalFrame E T (attachFrame b st dims)) (\<lambda>_. attaching st)" for dims
    unfolding writeTerminalFrame_def wrapped_def
    by (rule monitored_bind [OF monitored_called [where J = "\<lambda>_. attaching st"]])
      (auto simp: proper_def a attaching_attaches stateKnown_def [of _ st] intro!: monitored_return attaching_attaches)
  have known: "attaching st d \<Longrightarrow> stateKnown d st" for d by (simp add: attaching_def)
  have first: "monitored s (attaching st) (orEnd kb st (readTerminalFrame E T) (\<lambda>f. attachedWith E T b f kb st)) outcomeKnown"
    by (rule monitored_orEnd [OF monitored_read [where I = "attaching st"]]) (simp_all add: monitored_attachedWith known)
  have served: "monitored s (\<lambda>d. stateKnown d st) (do { w \<leftarrow> asked (teWindow T);
      orEnd kb st (writeTerminalFrame E T (attachFrame b st (terminalSizeOf w))) (\<lambda>_.
        orEnd kb st (readTerminalFrame E T) (\<lambda>f. attachedWith E T b f kb st)) }) outcomeKnown"
    by (rule monitored_quiet, rule neutral_does, rule monitored_orEnd [OF sent first]) (rule known)
  show ?thesis
    unfolding runConnection_def Let_def
    by (rule monitored_orEnd_quiet, rule neutral_does, rule monitored_quiet, rule neutral_does, rule monitored_orEnd_quiet, rule dial)
      (simp_all add: served monitored_ended)
qed

section \<open>The whole session\<close>

lemma neutral_lost: "connectionLost e \<noteq> gapMessage"
  by (simp add: connectionLost_def gapMessage_def)

lemma neutral_after: "does neutral (afterConnection E b e fresh deadline backoff)"
  unfolding afterConnection_def Let_def
  by (intro does_bind does_if does_return neutral_does does_shown) (simp add: neutral_def neutral_lost)

lemma monitored_unconnected: "does neutral m \<Longrightarrow> monitored s I m (\<lambda>_ _. True)"
  by (rule monitored_conseq [OF monitored_neutral]) auto

lemma monitored_reconnecting:
  "monitored s (\<lambda>d. stateKnown d st) (reconnecting E T b n kb st connectedAt deadline backoff) (\<lambda>_ _. True)"
proof (induction n arbitrary: kb st connectedAt deadline backoff)
  case 0
  show ?case by (auto intro: monitored_return)
next
  case (Suc n)
  have rest: "monitored s (\<lambda>d. outcomeKnown r d)
     (do { d \<leftarrow> afterConnection E b e fresh deadline backoff;
           case d of
             Inl expired \<Rightarrow> ret (Some (Some expired))
           | Inr (deadline', backoff') \<Rightarrow> do {
               stopped' \<leftarrow> slept T backoff';
               if stopped' then ret (Some None)
               else reconnecting E T b n (coKeyboard r) (coState r) c deadline' (nextBackoffOf backoff') } }) (\<lambda>_ _. True)" for r e fresh c
  proof (rule monitored_quiet, rule neutral_after)
    fix d :: "bridgeError + time \<times> duration"
    show "monitored s (\<lambda>d. outcomeKnown r d)
     (case d of Inl expired \<Rightarrow> ret (Some (Some expired))
        | Inr (deadline', backoff') \<Rightarrow> do {
               stopped' \<leftarrow> slept T backoff';
               if stopped' then ret (Some None)
               else reconnecting E T b n (coKeyboard r) (coState r) c deadline' (nextBackoffOf backoff') }) (\<lambda>_ _. True)"
      using Suc by (cases d) (auto intro!: monitored_quiet neutral_does monitored_return simp: outcomeKnown_def)
  qed
  have attention: "does neutral (do { _ \<leftarrow> reportAttention E b e'; ret (Some e) })" for e e'
    by (intro does_bind neutral_does does_return)
  have following: "monitored s (\<lambda>d. outcomeKnown r d)
     (case coResult r of None \<Rightarrow> ret None
      | Some e \<Rightarrow> do {
         stopped \<leftarrow> asked (teDone T);
         if stopped then ret (Some None)
         else if needsUser e then do { _ \<leftarrow> reportAttention E b (the e); ret (Some e) }
         else do {
           let connectedAt' = (case coConnected r of Some t \<Rightarrow> t | None \<Rightarrow> connectedAt);
           d \<leftarrow> afterConnection E b e (started < connectedAt') deadline backoff;
           case d of
             Inl expired \<Rightarrow> ret (Some (Some expired))
           | Inr (deadline', backoff') \<Rightarrow> do {
               stopped' \<leftarrow> slept T backoff';
               if stopped' then ret (Some None)
               else reconnecting E T b n (coKeyboard r) (coState r) connectedAt' deadline' (nextBackoffOf backoff') } } }) (\<lambda>_ _. True)"
    for r started
  proof (cases "coResult r")
    case (Some e)
    have "monitored s (\<lambda>d. outcomeKnown r d) (asked (teDone T)) (\<lambda>_ d. outcomeKnown r d)" by (intro monitored_neutral neutral_does)
    then show ?thesis
      using Some by (auto simp: Let_def intro!: monitored_bind [OF monitored_neutral [OF neutral_does(5)]] rest monitored_return
        monitored_unconnected [OF attention])
  qed (simp add: monitored_return)
  show ?case
    unfolding reconnecting.simps by (rule monitored_quiet, rule neutral_does, rule monitored_bind, rule monitored_runConnection, rule following)
qed

lemma session_proper:
  assumes "actions (snd (run_state (reconnecting E T b n kb s connectedAt deadline backoff) \<lparr>world = w, actions = []\<rparr>)) = pre @ ev # post"
  shows "proper (watch s pre) ev"
proof -
  have "stateKnown (watch s (actions \<lparr>world = w, actions = []\<rparr>)) s"
    by (simp add: stateKnown_def firstDisplay_def resumes_def vaguer_def)
  from monitored_reconnecting [of s s E T b n kb connectedAt deadline backoff, unfolded monitored_def ordered_def, rule_format, OF this] assms
  obtain as where "as = pre @ ev # post" "\<forall>pre ev post. as = pre @ ev # post \<longrightarrow> proper (watch s pre) ev" by auto
  then show ?thesis by blast
qed

text \<open>
  C6. However the server answers and the steps of the connections interleave, every attach that the
  bridge sends asks for the output after exactly the last one that it has shown, over all
  reconnections; it asks for no replay only if nothing was shown since it last did so, or if on the
  connection before the runner refused the cursor or was found to be another generation.
\<close>

theorem attach_resumes_at_display:
  assumes "actions (snd (run_state (reconnecting E T b n kb s connectedAt deadline backoff) \<lparr>world = w, actions = []\<rparr>)) = pre @ (SentFrame f, ok) # post"
    and "frType f = ''attach''"
  shows "frAfterSequence f = dsWant (watch s pre) \<or> frAfterSequence f = None \<and> dsReset (watch s pre)"
  using session_proper [OF assms(1)] assms(2) by (simp add: proper_def resumes_def)

theorem attach_resumes_at_display_witness:
  "frAfterSequence sampleSent = Some 7"
proof -
  have "sampleLog = take 2 sampleLog @ (SentFrame sampleSent, True) # drop 3 sampleLog" by (simp add: sampleLog_def)
  with sample_session(2) have "actions (snd (run_state (reconnecting sampleEnv sampleTerminal sampleBridge 1 sampleKeyboard sampleState 0 0 initialBackoff)
     \<lparr>world = \<lparr>bwSeq = 0, bwRest = [''A'', ''O'']\<rparr>, actions = []\<rparr>)) = take 2 sampleLog @ (SentFrame sampleSent, True) # drop 3 sampleLog"
    by (simp add: sampleRun_def)
  from attach_resumes_at_display [OF this] show ?thesis
    by (simp add: sampleSent_def attachFrame_def sampleLog_def watch_def firstDisplay_def sample_attached)
qed

text \<open>
  C5. If the output received on each connection is numbered on from the cursor of its attach, or
  from anywhere after a gap notice, then the output shown in the pane over all connections is numbered
  on without gap or repetition, but for announced gaps and attaches that asked for no replay; and all
  of it was received on the connection on which it is shown.
\<close>

theorem display_gapless:
  assumes "actions (snd (run_state (reconnecting E T b n kb s connectedAt deadline backoff) \<lparr>world = w, actions = []\<rparr>)) = pre @ (Output f, ok) # post"
    and "dsHonest (watch s pre)"
  shows "f \<in> set (dsGot (watch s pre)) \<and>
    (\<exists>n. frSequence f = Some n \<and> (\<forall>m. dsPos (watch s pre) = Some m \<longrightarrow> n = m + 1))"
  using session_proper [OF assms(1)] assms(2) by (auto simp: proper_def follows_def split: option.splits)

theorem display_gapless_witness:
  "dsPos (watch sampleState (take 5 sampleLog)) = Some 7 \<and> frSequence sampleOutput = Some (7 + 1)"
proof -
  have "sampleLog = take 5 sampleLog @ (Output sampleOutput, True) # []" by (simp add: sampleLog_def)
  with sample_session(2) have l: "actions (snd (run_state (reconnecting sampleEnv sampleTerminal sampleBridge 1 sampleKeyboard sampleState 0 0 initialBackoff)
     \<lparr>world = \<lparr>bwSeq = 0, bwRest = [''A'', ''O'']\<rparr>, actions = []\<rparr>)) = take 5 sampleLog @ (Output sampleOutput, True) # []"
    by (simp add: sampleRun_def)
  have sent: "frType sampleSent = ''attach''" "frAfterSequence sampleSent = Some 7"
    by (simp_all add: sampleSent_def attachFrame_def sample_attached)
  have "dsHonest (watch sampleState (take 5 sampleLog))" "dsPos (watch sampleState (take 5 sampleLog)) = Some 7"
    by (simp_all add: sampleLog_def watch_def firstDisplay_def sample_attached sent attaches_def gets_def advance_def follows_def Let_def)
  with display_gapless [OF l] show ?thesis by auto
qed

end
