(* ===== verification/Bridge_Wire.thy ===== *)
theory Bridge_Wire
  imports Bridge_Session Server
begin

text \<open>
  The bridge and the runner on the wire: every frame that a bridge sends is one that the runner
  decodes, and what the runner makes of the attach is what the bridge meant.
\<close>

section \<open>Client frames\<close>

text \<open>The frames of a bridge, with what makes them acceptable.\<close>

definition sizeOK :: "TerminalSize \<Rightarrow> bool" where
  "sizeOK dims \<longleftrightarrow> validateSize dims = None"

definition bridgeFrame :: "Frame \<Rightarrow> bool" where
  "bridgeFrame f \<longleftrightarrow>
     (\<exists>b s dims. f = attachFrame b s dims \<and> sizeOK dims) \<or>
     (\<exists>lease chunk. f = inputFrame lease chunk \<and> lease \<noteq> [] \<and> chunk \<noteq> []) \<or>
     (\<exists>lease dims. f = resizeFrame lease dims \<and> lease \<noteq> [] \<and> sizeOK dims) \<or>
     (\<exists>n. f = ackFrame n) \<or> (\<exists>nonce. f = pongReply nonce)"

lemma decodeFrame_printed:
  assumes parse: "parse text = Some (frameJson f, [])" and order: "permutes order"
    and shaped: "case map_of clientFrameShapes (frType f) of None \<Rightarrow> False
      | Some sh \<Rightarrow> fst ` set (frameMembers f) \<subseteq> allowed sh \<and> set (required sh) \<subseteq> fst ` set (frameMembers f)"
    and type: "rawLookup (frameMembers f) ''type'' = Some (JStr (frType f))" and f: "printable f"
  shows "decodeFrame parse pr je order text = Inr f"
proof -
  obtain sh where sh: "map_of clientFrameShapes (frType f) = Some sh"
    and keys: "fst ` set (frameMembers f) \<subseteq> allowed sh" "set (required sh) \<subseteq> fst ` set (frameMembers f)"
    using shaped by (auto split: option.splits)
  have "find (\<lambda>n. n \<notin> allowed sh) (order (map fst (frameMembers f))) = None"
    using keys(1) order by (auto simp: find_None_iff permutes_def)
  moreover have "find (\<lambda>n. n \<notin> set (map fst (frameMembers f))) (order (required sh)) = None"
    using keys(2) order by (auto simp: find_None_iff permutes_def)
  ultimately show ?thesis
    using frame_roundtrip [OF f, of True] sh type
    by (simp add: decodeFrame_def unmarshalText_def parse atEOF_def frameJson_def del: decodeStruct.simps)
qed

lemmas member_keys = frameMembers_def omitEmpty_def omitNil_def omitFalse_def clientFrameShapes_def shape_def rawLookup_def printable_def zeroFrame_def

lemma bridge_frames_decode:
  assumes parse: "parse text = Some (frameJson f, [])" and order: "permutes order" and f: "bridgeFrame f" "f \<noteq> pongReply []"
  shows "decodeFrame parse pr je order text = Inr f"
proof -
  consider b s dims where "f = attachFrame b s dims" | lease chunk where "f = inputFrame lease chunk" "lease \<noteq> []" "chunk \<noteq> []"
    | lease dims where "f = resizeFrame lease dims" "lease \<noteq> []" | n where "f = ackFrame n" | nonce where "f = pongReply nonce" "nonce \<noteq> []"
    using f unfolding bridgeFrame_def by blast
  then show ?thesis
    by cases (rule decodeFrame_printed, rule parse, rule order;
      auto simp: member_keys attachFrame_def inputFrame_def resizeFrame_def ackFrame_def pongReply_def ProtocolVersion_def split: option.splits if_splits)+
qed

lemma sizeOK_terminalSizeOf: "sizeOK (terminalSizeOf w)"
proof -
  have "sizeOK (zeroSize\<lparr>Columns := word_of_int (min c 1000), Rows := word_of_int (min r 1000)\<rparr>)" if "0 < c" "0 < r" for c r :: int
  proof -
    have u: "(word_of_int (min x 1000) :: uint16) \<noteq> 0 \<and> \<not> (1000 :: uint16) < word_of_int (min x 1000)" if "0 < x" for x :: int
    proof -
      have "uint (word_of_int (min x 1000) :: uint16) = min x 1000"
        using that by (simp add: uint_word_of_int)
      then show ?thesis using that by (simp add: word_less_def) (metis min_less_iff_conj uint_0_eq less_irrefl zero_less_numeral)
    qed
    show ?thesis using u [OF that(1)] u [OF that(2)] by (simp add: sizeOK_def validateSize_def zeroSize_def)
  qed
  moreover have "sizeOK (zeroSize\<lparr>Columns := 80, Rows := 24\<rparr>)" by code_simp
  ultimately show ?thesis unfolding terminalSizeOf_def by (auto split: option.split prod.split if_split)
qed

section \<open>What a bridge sends\<close>

definition sendsWell :: "bridgeCall \<times> bool \<Rightarrow> bool" where
  "sendsWell ev \<longleftrightarrow> (\<forall>f. fst ev = SentFrame f \<longrightarrow> bridgeFrame f)"

lemma sendsWell_does:
  "does sendsWell (reported E b state message)" "does sendsWell (reportAttention E b e)" "does sendsWell (saved E b s)"
  "does sendsWell (Notify E title body sound)" "does sendsWell (asked g)" "does sendsWell (slept T dur)"
  "does sendsWell (shown t)" "does sendsWell (called (Output f') h)" "does sendsWell (effect (GotFrame f', True) g')"
  "bridgeFrame f \<Longrightarrow> does sendsWell (writeTerminalFrame E T f)"
  "does sendsWell (AuthorizationHeader E api)"
  unfolding writeTerminalFrame_def AuthorizationHeader_def Let_def
  by (intro does_reported does_saved does_herdr does_if bridge_does yields_effect; simp add: sendsWell_def)+

lemma yields_quiet: "does P m \<Longrightarrow> (\<And>x. yields P Q (f x)) \<Longrightarrow> yields P Q (State_Monad.bind m f)"
  by (rule yields_bind [where R = "\<lambda>_. True"]) simp_all

lemma yields_asked: "(\<And>v. Q (fst (f v))) \<Longrightarrow> yields P Q (asked f)"
  by (simp add: yields_def asked_def ask_def case_prod_beta)

definition keysGood :: "byte list list \<Rightarrow> byte list option \<Rightarrow> TerminalSize list \<Rightarrow> bool" where
  "keysGood chunks typing sizes \<longleftrightarrow> [] \<notin> set chunks \<and> typing \<noteq> Some [] \<and> (\<forall>dims \<in> set sizes. sizeOK dims)"

definition keyboardGood :: "keyboard \<Rightarrow> bool" where
  "keyboardGood kb \<longleftrightarrow> keysGood (kbInput kb) (kbTyping kb) (kbSizes kb)"

definition connGood :: "conn \<Rightarrow> bool" where
  "connGood c \<longleftrightarrow> cnLease c \<noteq> [] \<and> keysGood (cnInput c) (cnTyping c) (cnSizes c) \<and> (\<forall>f \<in> set (cnCommands c). bridgeFrame f)"

lemma reply_frames [simp]: "bridgeFrame (ackFrame n)" "bridgeFrame (pongReply nonce)"
  by (auto simp: bridgeFrame_def)

lemma connGood_updates [simp]:
  "connGood (returns r c) = connGood c" "connGood (c\<lparr>cnFrames := fs\<rparr>) = connGood c" "connGood (c\<lparr>cnReader := rd\<rparr>) = connGood c"
  "connGood (c\<lparr>cnReader := rd, cnReadError := re\<rparr>) = connGood c" "connGood (c\<lparr>cnFrames := fs, cnReader := rd\<rparr>) = connGood c"
  "connGood (c\<lparr>cnState := st\<rparr>) = connGood c" "connGood (c\<lparr>cnLoopLease := l\<rparr>) = connGood c"
  "connGood (c\<lparr>cnWriting := wr, cnWriteError := we\<rparr>) = connGood c"
  by (simp_all add: connGood_def returns_def)

lemma connGood_queue: "connGood c \<Longrightarrow> bridgeFrame f \<Longrightarrow> connGood (queueFrame f c)"
  by (auto simp: connGood_def queueFrame_def)

lemma connGood_publish: "connGood c \<Longrightarrow> connGood (publishSize (terminalSizeOf w) c)"
  by (cases "cnSizes c") (auto simp: connGood_def publishSize_def keysGood_def sizeOK_terminalSizeOf)

lemmas good_intros = sendsWell_does connGood_queue connGood_publish

lemma sends_handle:
  assumes "connGood c"
  shows "yields sendsWell connGood (handleServerFrame E T b f c)"
proof -
  have out: "yields sendsWell connGood (showOutput E T b f c)"
    unfolding showOutput_def Let_def using assms
    by (intro yields_quiet sendsWell_does) (auto split: sum.split option.split intro!: yields_return yields_quiet sendsWell_does connGood_queue)
  show ?thesis
    unfolding handleServerFrame_def handleError_def handleExit_def Let_def using assms out
    by (auto intro!: yields_return yields_quiet sendsWell_does connGood_queue)
qed

lemma sends_writes:
  assumes "connGood c" "bridgeFrame f"
  shows "yields sendsWell connGood (writes E T f c)"
  unfolding writes_def using assms by (intro yields_quiet sendsWell_does) (auto split: sum.split intro: yields_return)

lemma sends_writer:
  assumes "connGood c"
  shows "yields sendsWell connGood (writerStep E T b ev c)"
proof -
  have "yields sendsWell connGood (writes E T (inputFrame (cnLease c) chunk) (c\<lparr>cnInput := rest\<rparr>))" if "cnInput c = chunk # rest" for chunk rest
    using assms that by (intro sends_writes) (auto simp: connGood_def keysGood_def bridgeFrame_def)
  moreover have "yields sendsWell connGood (writes E T (resizeFrame (cnLease c) dims) (c\<lparr>cnSizes := rest\<rparr>))" if "cnSizes c = dims # rest" for dims rest
    using assms that by (intro sends_writes) (auto simp: connGood_def keysGood_def bridgeFrame_def)
  moreover have "yields sendsWell connGood (writes E T f (c\<lparr>cnCommands := rest\<rparr>))" if "cnCommands c = f # rest" for f rest
    using assms that by (intro sends_writes) (auto simp: connGood_def)
  ultimately show ?thesis
    unfolding writerStep_def using assms
    by (auto split: connEvent.split list.split intro!: yields_return yields_quiet sendsWell_does)
qed

lemma sends_read: "does sendsWell (readTerminalFrame E T)"
  unfolding readTerminalFrame_def by (intro does_bind sendsWell_does) (auto split: sum.split prod.split intro!: does_okay does_bind sendsWell_does)

lemma sends_connStep:
  assumes "connGood c"
  shows "yields sendsWell connGood (connStep E T b ev c)"
proof -
  have reads: "yields sendsWell connGood (readerReads E T c)"
    unfolding readerReads_def using assms by (intro yields_quiet sends_read) (auto split: sum.split intro: yields_return)
  have loop: "yields sendsWell connGood (loopStep E T b ev c)"
    unfolding loopStep_def using assms
    by (auto split: connEvent.split option.split list.split intro!: yields_return sends_handle yields_quiet sendsWell_does)
  have typed: "connGood (c\<lparr>cnTyping := Some chunk\<rparr>)" if "chunk \<noteq> []" for chunk
    using assms that by (simp add: connGood_def keysGood_def)
  have offered: "connGood (c\<lparr>cnInput := cnInput c @ [chunk], cnTyping := None\<rparr>)" if "cnTyping c = Some chunk" for chunk
    using assms that by (auto simp: connGood_def keysGood_def)
  show ?thesis
    unfolding connStep_def using assms reads loop sends_writer [OF assms]
    by (auto split: connEvent.split readerPhase.split option.split intro!: yields_return typed offered yields_quiet sendsWell_does connGood_publish)
qed

lemma sends_connRun: "connGood c \<Longrightarrow> yields sendsWell connGood (connRun E T b evs c)"
  by (induction evs arbitrary: c) (auto intro!: yields_return yields_bind [OF sends_connStep])

definition outcomeGood :: "connOutcome \<Rightarrow> bool" where
  "outcomeGood r \<longleftrightarrow> keyboardGood (coKeyboard r)"

lemma sends_ended: "keyboardGood kb \<Longrightarrow> yields P outcomeGood (ended kb s e)"
  unfolding ended_def by (rule yields_return) (simp add: outcomeGood_def)

lemma sends_orEnd:
  "does P m \<Longrightarrow> (\<And>x. yields P outcomeGood (f x)) \<Longrightarrow> keyboardGood kb \<Longrightarrow> yields P outcomeGood (orEnd kb s m f)"
  unfolding orEnd_def by (erule yields_quiet) (auto split: sum.split intro: sends_ended)

lemma sends_attachedWith:
  assumes "keyboardGood kb"
  shows "yields sendsWell outcomeGood (attachedWith E T b f kb s)"
proof -
  have served: "yields sendsWell outcomeGood (serve E T b (frLeaseID f) kb s')" if "frLeaseID f \<noteq> []" for s'
    unfolding serve_def
    by (intro yields_quiet sendsWell_does yields_bind [OF sends_connRun] yields_return)
      (use assms that in \<open>auto simp: connGood_def startConn_def keyboardGood_def outcomeGood_def\<close>)
  show ?thesis
    unfolding attachedWith_def Let_def
    using assms by (auto intro!: sends_ended served yields_quiet sendsWell_does)
qed

lemma sends_runConnection:
  assumes "keyboardGood kb"
  shows "yields sendsWell outcomeGood (runConnection E T b kb s)"
proof -
  have dial: "does sendsWell (wrapped (called (Dialed url headers) g) wrap)" for url headers g and wrap :: "'x \<Rightarrow> bridgeError"
    by (intro bridge_does) (simp add: sendsWell_def)
  have a: "bridgeFrame (attachFrame b s (terminalSizeOf w))" for w
    unfolding bridgeFrame_def using sizeOK_terminalSizeOf by blast
  show ?thesis
    unfolding runConnection_def Let_def
    using assms by (auto intro!: sends_orEnd yields_quiet sendsWell_does dial sends_ended sends_read sends_attachedWith a)
qed

lemma sends_reconnecting:
  "keyboardGood kb \<Longrightarrow> does sendsWell (reconnecting E T b n kb s connectedAt deadline backoff)"
proof (induction n arbitrary: kb s connectedAt deadline backoff)
  case (Suc n)
  have after: "does sendsWell (afterConnection E b e fresh deadline backoff)" for e fresh
    unfolding afterConnection_def Let_def by (intro does_bind does_if does_return sendsWell_does)
  show ?case
    unfolding reconnecting.simps
    by (rule yields_quiet, rule sendsWell_does, rule yields_bind, rule sends_runConnection, rule Suc.prems)
      (auto simp: Let_def outcomeGood_def split: option.split sum.split prod.split intro!: does_bind does_return sendsWell_does after Suc.IH)
qed (simp add: does_return)

lemma attach_shape:
  assumes "bridgeFrame f" "frType f = ''attach''"
  shows "\<exists>dims. frProtocolVersion f = ProtocolVersion \<and> frRole f = ''control'' \<and> frTerminalSize f = Some dims \<and> validateSize dims = None"
  using assms unfolding bridgeFrame_def by (auto simp: attachFrame_def sizeOK_def)

lemma sent_frames:
  assumes "keyboardGood kb"
    and "(SentFrame f, ok) \<in> set (actions (snd (run_state (reconnecting E T b n kb s connectedAt deadline backoff) \<lparr>world = w, actions = []\<rparr>)))"
  shows "bridgeFrame f"
proof -
  from sends_reconnecting [OF assms(1), unfolded yields_def, THEN spec, of _ _ _ _ _ _ _ _ "\<lparr>world = w, actions = []\<rparr>"] assms(2)
  show ?thesis by (auto simp: list_all_iff sendsWell_def)
qed



section \<open>A cursor that the runner does not know\<close>

definition cursorAhead :: goerror where
  "cursorAhead = ''replay_cursor_invalid: cursor is ahead of the runner''"

definition sticks :: "AgentState \<Rightarrow> bridgeCall \<times> bool \<Rightarrow> bool" where
  "sticks s ev \<longleftrightarrow>
     (case fst ev of
        SentFrame f \<Rightarrow> frType f = ''attach'' \<and> frAfterSequence f = asAfterSequence s
      | GotFrame f \<Rightarrow> refusesCursor f
      | Output f \<Rightarrow> False
      | File c \<Rightarrow> (\<forall>t p. c \<noteq> Rename t p)
      | _ \<Rightarrow> True)"

lemma sticks_does:
  "does (sticks s) (reported E b state message)" "does (sticks s) (reportAttention E b e)" "does (sticks s) (asked g)"
  "does (sticks s) (slept T dur)" "does (sticks s) (shown t)" "does (sticks s) (AuthorizationHeader E api)"
  "does (sticks s) (writeTerminalFrame E T (attachFrame b s dims))"
  "does (sticks s) (wrapped (called (Dialed url headers) g') wrap)"
  unfolding AuthorizationHeader_def Let_def writeTerminalFrame_def
  by (intro does_reported does_if bridge_does; simp add: sticks_def attachFrame_def)+

lemma refusal_code: "frType (attachErrorFrame rid cursorAhead) = ''error''" "frCode (attachErrorFrame rid cursorAhead) = ''replay_cursor_invalid''"
  by (simp_all add: attachErrorFrame_def protocolError_def Let_def) code_simp

definition refusing :: "'v bridgeEnv \<Rightarrow> 'v terminalEnv \<Rightarrow> bool" where
  "refusing E T \<longleftrightarrow> (\<forall>v. \<exists>text rid v'. teReceive T v = (Inr (True, text), v') \<and>
     beScanner E text = Some (frameJson (attachErrorFrame rid cursorAhead), []))"

lemma refused_read:
  assumes "refusing E T"
  shows "yields (sticks s) (\<lambda>r. \<exists>f. r = Inr f \<and> refusesCursor f) (readTerminalFrame E T)"
  unfolding readTerminalFrame_def
proof (rule yields_bind)
  let ?R = "\<lambda>m. \<exists>text rid. m = Inr (True, text) \<and> beScanner E text = Some (frameJson (attachErrorFrame rid cursorAhead), [])"
  show "yields (sticks s) ?R (asked (teReceive T))"
    using assms by (intro yields_asked) (metis assms refusing_def fst_conv)
  fix m :: "goerror + bool \<times> string"
  assume "?R m"
  then obtain msg rid where m: "m = Inr (True, msg)" and p: "beScanner E msg = Some (frameJson (attachErrorFrame rid cursorAhead), [])" by blast
  have "printable (attachErrorFrame rid cursorAhead)"
    by (simp add: printable_def attachErrorFrame_def protocolError_def Let_def zeroFrame_def)
  then have "parseTerminalFrame (beScanner E) True msg = Inr (attachErrorFrame rid cursorAhead)"
    using frame_roundtrip_loose [of "attachErrorFrame rid cursorAhead" False]
    by (simp add: parseTerminalFrame_def unmarshalText_def p atEOF_def refusal_code del: decodeStruct.simps)
  then show "yields (sticks s) (\<lambda>r. \<exists>f. r = Inr f \<and> refusesCursor f)
     (case m of Inl e \<Rightarrow> failed (Fault e)
      | Inr (isText, message) \<Rightarrow>
         (case parseTerminalFrame (beScanner E) isText message of Inl e \<Rightarrow> failed (Fault e)
          | Inr f \<Rightarrow> do { _ \<leftarrow> effect (GotFrame f, True) (\<lambda>w. ((), w)); okay f }))"
    unfolding m okay_def
    by (auto intro!: yields_quiet yields_effect yields_return simp: sticks_def refusesCursor_def refusal_code)
qed

lemma sticks_orEnd:
  assumes "yields P (okWith R) m" "\<And>x. R x \<Longrightarrow> yields P (\<lambda>r. coState r = s) (f x)"
  shows "yields P (\<lambda>r. coState r = s) (orEnd kb s m f)"
  unfolding orEnd_def
  by (rule yields_bind [OF assms(1)]) (auto split: sum.split intro!: assms(2) yields_return simp: ended_def)

lemma sticks_ended: "yields P (\<lambda>r. coState r = s) (ended kb s e)"
  unfolding ended_def by (rule yields_return) simp

lemma sticks_connection:
  assumes "refusing E T"
  shows "yields (sticks s) (\<lambda>r. coState r = s) (runConnection E T b kb s)"
proof -
  have refused: "yields (sticks s) (\<lambda>r. coState r = s) (attachedWith E T b f kb s)" if "refusesCursor f" for f
    using that by (auto simp: attachedWith_def refusesCursor_def ended_def intro: yields_return)
  have read: "yields (sticks s) (okWith refusesCursor) (readTerminalFrame E T)"
    by (rule yields_weaken [OF refused_read [OF assms]]) auto
  have any: "yields (sticks s) (okWith (\<lambda>_. True)) m" if "does (sticks s) m" for m :: "('a, 'b) rprog"
    using that by (simp add: okWith_True)
  show ?thesis
    unfolding runConnection_def Let_def
    by (auto intro!: sticks_orEnd [OF any] sticks_orEnd [OF read] yields_quiet sticks_does refused sticks_ended)
qed

lemma sticks_reconnecting:
  assumes "refusing E T"
  shows "does (sticks s) (reconnecting E T b n kb s connectedAt deadline backoff)"
proof (induction n arbitrary: kb s connectedAt deadline backoff)
  case (Suc n)
  have after: "does (sticks s) (afterConnection E b e fresh deadline backoff)" for s e fresh
    unfolding afterConnection_def Let_def by (intro does_bind does_if does_return sticks_does)
  show ?case
    unfolding reconnecting.simps
    by (rule yields_quiet, rule sticks_does, rule yields_bind, rule sticks_connection, rule assms)
      (auto simp: Let_def split: option.split sum.split prod.split intro!: does_bind does_return sticks_does after Suc.IH)
qed (simp add: does_return)

text \<open>
  C17. A cursor that the runner does not know is never given up: a runner that has restarted and
  published less output than the bridge has seen refuses the attach, whatever its permissions, and as
  long as it answers so, every connection of the bridge asks for the same cursor again, shows nothing,
  and leaves the stored state as it is; the reset of the cursor, which the bridge makes when it
  gets the same frame later, is not made for the first frame of a connection.
\<close>

theorem stale_cursor_sticks:
  assumes "\<not> cursorValid hb (asAfterSequence s)" and "refusing E T"
    and "validateSize dims = None" "Observe perms" "Control perms"
  shows "fst (attach env \<lparr>arRole = ''control'', arAfterSequence = asAfterSequence s, arTakeover = t, arTerminalSize = dims, arPermissions = perms\<rparr> hb) =
      Fail cursorAhead \<and>
    does (sticks s) (reconnecting E T b n kb s connectedAt deadline backoff)"
proof -
  have "cursorValid (expireControllerLocked (aeRid env) (aeNow env) hb) (asAfterSequence s) = cursorValid hb (asAfterSequence s)"
    unfolding cursorValid_def expireControllerLocked_static ..
  then show ?thesis
    using assms sticks_reconnecting [OF assms(2)] by (simp add: attach_def attachLocked_def cursorAhead_def)
qed

theorem stale_cursor_sticks_witness:
  "fst (attach \<lparr>aeNow = 0, aeNow2 = 0, aeID = ''i'', aeLease = ''l'', aeRid = ''r'', aeSetsize = (\<lambda>_. None)\<rparr>
     \<lparr>arRole = ''control'', arAfterSequence = Some 7, arTakeover = False, arTerminalSize = zeroSize\<lparr>Columns := 80, Rows := 24\<rparr>,
       arPermissions = noPermissions\<lparr>Observe := True, Control := True\<rparr>\<rparr> (newHub ''a'' ''h'' 1 1 1 1)) = Fail cursorAhead \<and>
   does (sticks sampleState) (reconnecting sampleEnv (sampleTerminal\<lparr>teReceive := (\<lambda>v. (Inr (True, ''E''), v))\<rparr>) sampleBridge 3
     sampleKeyboard sampleState 0 0 initialBackoff)"
proof -
  have c: "\<not> cursorValid (newHub ''a'' ''h'' 1 1 1 1) (asAfterSequence sampleState)" "validateSize (zeroSize\<lparr>Columns := 80, Rows := 24\<rparr>) = None"
    "Observe (noPermissions\<lparr>Observe := True, Control := True\<rparr>)" "Control (noPermissions\<lparr>Observe := True, Control := True\<rparr>)"
    by code_simp+
  have "attachErrorFrame ''r'' cursorAhead = sampleRefusal" by code_simp
  then have "refusing sampleEnv (sampleTerminal\<lparr>teReceive := (\<lambda>v. (Inr (True, ''E''), v))\<rparr>)"
    by (auto simp: refusing_def sample_env letterScanner_def intro!: exI [of _ "''r''"])
  from stale_cursor_sticks [OF c(1) this c(2-4)] show ?thesis by (simp add: sample_attached)
qed

section \<open>How long a bridge tries\<close>

definition waits :: "duration list" where
  "waits = map (\<lambda>k. k * millisecond) [250, 500, 1000, 2000, 4000, 8000, 50, 100, 200, 400, 800, 1600, 3200, 6400]"

lemma waits_closed: "d \<in> set waits \<Longrightarrow> nextBackoffOf d \<in> set waits" "initialBackoff \<in> set waits" "resetBackoff \<in> set waits"
    "d \<in> set waits \<Longrightarrow> 50 * millisecond \<le> d \<and> d \<le> 8 * second"
proof -
  have w: "waits = [250000000, 500000000, 1000000000, 2000000000, 4000000000, 8000000000,
      50000000, 100000000, 200000000, 400000000, 800000000, 1600000000, 3200000000, 6400000000]"
    by (simp add: waits_def millisecond_def)
  show "d \<in> set waits \<Longrightarrow> nextBackoffOf d \<in> set waits"
    unfolding w list.set by (elim insertE emptyE; hypsubst; simp add: nextBackoffOf_def second_def)
  show "initialBackoff \<in> set waits" "resetBackoff \<in> set waits"
    unfolding w by (simp_all add: initialBackoff_def resetBackoff_def)
  show "d \<in> set waits \<Longrightarrow> 50 * millisecond \<le> d \<and> d \<le> 8 * second"
    unfolding w list.set by (elim insertE emptyE; hypsubst; simp add: second_def millisecond_def)
qed

definition waitsWell :: "bridgeCall \<times> bool \<Rightarrow> bool" where
  "waitsWell ev \<longleftrightarrow> (\<forall>d. fst ev = Slept d \<longrightarrow> d \<in> set waits)"

lemma waitsWell_does:
  "does waitsWell (reported E b state message)" "does waitsWell (reportAttention E b e)" "does waitsWell (saved E b s)"
  "does waitsWell (Notify E title body sound)" "does waitsWell (asked g)" "does waitsWell (shown t)"
  "does waitsWell (called (Output f') h)" "does waitsWell (effect (GotFrame f', True) g')"
  "does waitsWell (writeTerminalFrame E T f)" "does waitsWell (AuthorizationHeader E api)"
  "does waitsWell (wrapped (called (Dialed url headers) g'') wrap)"
  unfolding writeTerminalFrame_def AuthorizationHeader_def Let_def
  by (intro does_reported does_saved does_herdr does_if bridge_does yields_effect; simp add: waitsWell_def)+

lemma waitsWell_slept: "d \<in> set waits \<Longrightarrow> does waitsWell (slept T d)"
  by (rule does_slept) (simp add: waitsWell_def)

lemma waits_read: "does waitsWell (readTerminalFrame E T)"
  unfolding readTerminalFrame_def by (intro does_bind waitsWell_does) (auto split: sum.split prod.split intro!: does_okay does_bind waitsWell_does)

lemma waits_handle: "does waitsWell (handleServerFrame E T b f c)"
  unfolding handleServerFrame_def handleError_def handleExit_def showOutput_def Let_def
  by (auto split: sum.split option.split intro!: does_return does_bind waitsWell_does)

lemma waits_parts: "does waitsWell (readerReads E T c)" "does waitsWell (loopStep E T b ev c)" "does waitsWell (writes E T f c)"
proof -
  show "does waitsWell (readerReads E T c)"
    unfolding readerReads_def by (intro does_bind does_return waits_read)
  show "does waitsWell (loopStep E T b ev c)"
    unfolding loopStep_def
    by (auto split: connEvent.split option.split list.split intro!: does_return waits_handle does_bind waitsWell_does)
  show "does waitsWell (writes E T f c)"
    unfolding writes_def by (intro does_bind does_return waitsWell_does)
qed

lemma waits_writer: "does waitsWell (writerStep E T b ev c)"
  unfolding writerStep_def
  by (auto split: connEvent.split list.split intro!: does_return does_bind waitsWell_does waits_parts)

lemma waits_connStep: "does waitsWell (connStep E T b ev c)"
  unfolding connStep_def
  by (auto split: connEvent.split intro!: does_return does_bind waitsWell_does waits_parts waits_writer)

lemma waits_connRun: "does waitsWell (connRun E T b evs c)"
  by (induction evs arbitrary: c) (auto intro!: does_return does_bind waits_connStep)

lemma waits_orEnd: "does P m \<Longrightarrow> (\<And>x. does P (f x)) \<Longrightarrow> does P (orEnd kb s m f)"
  unfolding orEnd_def ended_def by (auto intro!: does_bind does_return split: sum.split)

lemma waits_connection: "does waitsWell (runConnection E T b kb s)"
proof -
  have "does waitsWell (attachedWith E T b f kb s)" for f
    unfolding attachedWith_def serve_def ended_def Let_def by (auto intro!: does_return does_bind waitsWell_does waits_connRun)
  then show ?thesis
    unfolding runConnection_def Let_def by (auto simp: ended_def intro!: waits_orEnd does_bind does_return waitsWell_does waits_read)
qed

definition givesUp :: "bridgeError option option \<Rightarrow> bool" where
  "givesUp r \<longleftrightarrow> (\<forall>x. r = Some (Some x) \<longrightarrow>
     needsUser (Some x) \<or> (\<exists>e. x = Fault (''terminal reconnect window expired: '' @ endText e)))"

lemma givesUp_expired: "givesUp (Some (Some (Fault (''terminal reconnect window expired: '' @ endText e))))"
  unfolding givesUp_def by blast

lemma waits_after:
  assumes "backoff \<in> set waits"
  shows "yields waitsWell (\<lambda>r. case r of Inl x \<Rightarrow> givesUp (Some (Some x)) | Inr (deadline', backoff') \<Rightarrow> backoff' \<in> set waits)
    (afterConnection E b e fresh deadline backoff)"
  unfolding afterConnection_def Let_def
  by (rule yields_quiet, intro does_if waitsWell_does does_return)
    (use assms waits_closed givesUp_expired in \<open>auto intro!: yields_return yields_quiet waitsWell_does\<close>)

lemma waits_reconnecting:
  assumes "backoff \<in> set waits"
  shows "yields waitsWell givesUp (reconnecting E T b n kb s connectedAt deadline backoff)"
  using assms
proof (induction n arbitrary: kb s connectedAt deadline backoff)
  case (Suc n)
  show ?case
    unfolding reconnecting.simps
    by (rule yields_quiet, rule waitsWell_does, rule yields_quiet, rule waits_connection)
      (auto simp: Let_def givesUp_def [of None] givesUp_def [of "Some None"] split: option.split sum.splits prod.splits
        intro!: yields_return yields_quiet waitsWell_does waitsWell_slept yields_bind [OF waits_after [OF Suc.prems]] Suc.IH waits_closed,
       auto simp: givesUp_def)
qed (simp add: yields_return givesUp_def)


lemma sample_lost:
  "(Slept initialBackoff, True) \<in> set (actions (snd (run_state
     (reconnecting sampleEnv sampleTerminal sampleBridge 1 sampleKeyboard sampleState 0 0 initialBackoff)
     \<lparr>world = \<lparr>bwSeq = 0, bwRest = []\<rparr>, actions = []\<rparr>)))"
proof -
  have h: "shown t = effect (Shown t, True) (\<lambda>w. ((), w))" for t by (simp add: shown_def)
  show ?thesis
    by (simp add: bridge_eval sample_token sample_token_path sample_attached runConnection_def One_nat_def afterConnection_def slept_def h
        sampleKeyboard_def cong: lazy_congs)
qed


end
