(* ===== verification/Bridge_Safety.thy ===== *)
theory Bridge_Safety
  imports Bridge_Wire ControlPlane
begin

text \<open>
  What the manager of the bridge changes (\<^verbatim>\<open>herdrbridge/manager.go\<close>), and through which operation of
  the control plane: one request at most, on the agent that the user has chosen.
\<close>

section \<open>Requests\<close>

definition requestTo :: "'v bridgeEnv \<Rightarrow> APIClient \<Rightarrow> string \<Rightarrow> gatewayURL option" where
  "requestTo E api endpoint = beURLParse E (beURLText E (endpointURL (acBaseURL api) endpoint))"

text \<open>Nothing but reads has been asked of the control plane.\<close>

definition harmless :: "bridgeCall \<times> bool \<Rightarrow> bool" where
  "harmless ev \<longleftrightarrow> (\<forall>req. fst ev = HTTP req \<longrightarrow> cqMethod req = ''GET'')"

definition clean :: "(bridgeCall \<times> bool) list \<Rightarrow> bool" where
  "clean h \<longleftrightarrow> list_all harmless h"

lemma ordered_harmless:
  assumes "does harmless m" "\<And>h ev. harmless ev \<Longrightarrow> P h ev" "lasting F"
  shows "ordered (\<lambda>h. clean h \<and> F h) P m (\<lambda>_ h. clean h \<and> F h)"
  by (rule ordered_kept [OF assms(1,2)]) (use assms(3) in \<open>auto simp: clean_def lasting_def\<close>)

lemma ordered_silent:
  assumes "does harmless m" "\<And>h ev. harmless ev \<Longrightarrow> P h ev"
  shows "ordered H P m (\<lambda>_ _. True)"
  by (rule ordered_conseq [OF ordered_kept [where H = "\<lambda>_. True", OF assms]]) simp_all

lemma harmless_does:
  "does harmless (asked g)" "does harmless (shown t)" "does harmless (println' t)"
  "does harmless (FocusPane E pane)" "does harmless (OpenAgent E i pane taking)" "does harmless (ClosePane E pane)"
  "does harmless (Save E st s)" "does harmless (Load E st i)" "does harmless (AuthorizationHeader E api)"
  unfolding println'_def AuthorizationHeader_def Let_def
  by (intro does_herdr does_Save does_Load does_if bridge_does; simp add: harmless_def)+

lemma harmless_more: "does harmless (RemoveState E st i)" "does harmless (readLine E)" "does harmless (showAll ts)"
proof -
  show "does harmless (RemoveState E st i)"
    unfolding RemoveState_def by (intro does_if does_bind bridge_does does_return) (simp add: harmless_def)
  show "does harmless (readLine E)"
    unfolding readLine_def Let_def by (intro does_bind does_option does_if harmless_does does_okay yields_effect) (simp_all add: harmless_def)
  show "does harmless (showAll ts)"
    by (induction ts) (simp_all add: does_return does_bind harmless_does)
qed

lemma ordered_doRequest:
  assumes "\<And>h ev. harmless ev \<Longrightarrow> P h ev" "lasting F"
    and "\<And>h req ok. clean h \<Longrightarrow> F h \<Longrightarrow> requestTo E api endpoint = Some (cqURL req) \<Longrightarrow> cqMethod req = meth \<Longrightarrow>
        cqBody req = map_option (bePrint E) body \<Longrightarrow> P h (HTTP req, ok)"
  shows "ordered (\<lambda>h. clean h \<and> F h) P (doRequest E api meth endpoint body fs zero headers) (\<lambda>_ _. True)"
proof -
  note quiet = ordered_harmless [OF _ assms(1,2)]
  have asking: "ordered (\<lambda>h. clean h \<and> F h) P (wrapped (called (HTTP req) g) wrap) (\<lambda>_ _. True)"
    if "requestTo E api endpoint = Some (cqURL req)" "cqMethod req = meth" "cqBody req = map_option (bePrint E) body"
    for req g and wrap :: "'x \<Rightarrow> bridgeError"
    unfolding wrapped_def
    by (rule ordered_bind [OF ordered_called [where Q = "\<lambda>_ _. True"]]) (use that assms(3) in \<open>auto intro: ordered_return\<close>)
  show ?thesis
  proof (cases "requestTo E api endpoint")
    case None
    then show ?thesis by (simp add: doRequest_def requestTo_def Let_def failed_def ordered_return)
  next
    case (Some url)
    have ends: "ordered (\<lambda>_. True) P (okay x) (\<lambda>_ _. True)" "ordered (\<lambda>_. True) P (failed e) (\<lambda>_ _. True)" for x :: 'b and e
      by (simp_all add: okay_def failed_def ordered_return)
    have url: "requestTo E api endpoint = Some (cqURL (requestOf meth url authorization rid body (bePrint E) headers))"
        "cqMethod (requestOf meth url authorization rid body (bePrint E) headers) = meth"
        "cqBody (requestOf meth url authorization rid body (bePrint E) headers) = map_option (bePrint E) body" for authorization rid
      using Some by (simp_all add: requestOf_def)
    show ?thesis
      using Some unfolding doRequest_def requestTo_def Let_def attempt_def
      by (auto intro!: ordered_bind [OF quiet] harmless_does ordered_bind [OF asking [OF url]] ends ordered_return split: sum.split option.split)
  qed
qed

lemma does_get: "does harmless (doRequest E api ''GET'' endpoint body fs zero headers)"
  unfolding doRequest_def Let_def
  by (intro does_option does_if does_bind harmless_does bridge_does) (simp_all add: harmless_def requestOf_def)

section \<open>What the user has chosen\<close>

definition typed :: "string \<Rightarrow> (bridgeCall \<times> bool) list \<Rightarrow> bool" where
  "typed line h \<longleftrightarrow> (ReadLine line, True) \<in> set h"

text \<open>The agent was offered for the action under a number, and the user typed that number.\<close>

definition picked :: "string \<Rightarrow> Agent \<Rightarrow> (bridgeCall \<times> bool) list \<Rightarrow> bool" where
  "picked action a h \<longleftrightarrow>
     (\<exists>k sel. (Shown (agentLine k a), True) \<in> set h \<and> typed sel h \<and> atoi sel = Some (int k + 1)) \<and> applicableAction action (stState (agStatus a))"

lemma lasting_choices: "lasting (typed line)" "lasting (picked action a)"
  by (auto simp: lasting_def typed_def picked_def)

datatype change = Creates string | Operates string Agent

definition mutates :: "string \<Rightarrow> Agent \<Rightarrow> bool \<Rightarrow> string \<Rightarrow> string \<Rightarrow> bool" where
  "mutates action a named suff meth \<longleftrightarrow>
     action = ''stop'' \<and> suff = '':stop'' \<and> meth = ''POST'' \<or>
     action \<in> {''resume'', ''attach'', ''takeover''} \<and> stState (agStatus a) = StateStopped \<and> suff = '':resume'' \<and> meth = ''POST'' \<or>
     action = ''delete'' \<and> named \<and> suff = [] \<and> meth = ''DELETE''"

definition sanctioned :: "'v bridgeEnv \<Rightarrow> Manager \<Rightarrow> (bridgeCall \<times> bool) list \<Rightarrow> clientRequest \<Rightarrow> change \<Rightarrow> bool" where
  "sanctioned E m h req ch \<longleftrightarrow>
     (case ch of
        Creates name \<Rightarrow> typed name h \<and> ValidName name \<and> cqMethod req = ''POST'' \<and>
          requestTo E (mgAPI m) ''/v1alpha1/agents'' = Some (cqURL req) \<and>
          cqBody req = Some (bePrint E (requestJson (BridgeCreateRequest (mgConfig m) name)))
      | Operates action a \<Rightarrow> picked action a h \<and> cqBody req = None \<and>
          (\<exists>suff. requestTo E (mgAPI m) (agentPath E (agID a) @ suff) = Some (cqURL req) \<and>
             mutates action a (typed (agName a) h) suff (cqMethod req)))"

definition changesWell :: "'v bridgeEnv \<Rightarrow> Manager \<Rightarrow> (bridgeCall \<times> bool) list \<Rightarrow> bridgeCall \<times> bool \<Rightarrow> bool" where
  "changesWell E m h ev \<longleftrightarrow> (\<forall>req. fst ev = HTTP req \<longrightarrow> cqMethod req \<noteq> ''GET'' \<longrightarrow> clean h \<and> (\<exists>ch. sanctioned E m h req ch))"

lemma harmless_changesWell: "harmless ev \<Longrightarrow> changesWell E m h ev"
  by (auto simp: harmless_def changesWell_def)

abbreviation managed :: "((bridgeCall \<times> bool) list \<Rightarrow> bool) \<Rightarrow> 'v bridgeEnv \<Rightarrow> Manager \<Rightarrow> ('w, bridgeCall \<times> bool, 'a) prog \<Rightarrow>
    ('a \<Rightarrow> (bridgeCall \<times> bool) list \<Rightarrow> bool) \<Rightarrow> bool" where
  "managed F E m \<equiv> ordered (\<lambda>h. clean h \<and> F h) (changesWell E m)"

lemma managed_quiet:
  "does harmless p \<Longrightarrow> lasting F \<Longrightarrow> (\<And>x. managed F E m (f x) Q) \<Longrightarrow> managed F E m (State_Monad.bind p f) Q"
  by (rule ordered_bind [OF ordered_harmless]) (simp_all add: harmless_changesWell)

lemma managed_silent: "does harmless p \<Longrightarrow> ordered H (changesWell E m) p (\<lambda>_ _. True)"
  by (rule ordered_silent) (simp_all add: harmless_changesWell)

lemma managed_readLine:
  assumes "lasting F"
  shows "managed F E m (readLine E) (okAfter (\<lambda>line h. clean h \<and> F h \<and> typed line h))"
proof -
  have got: "managed F E m (do { _ \<leftarrow> effect (ReadLine line, True) (\<lambda>w. ((), w)); okay line }) (okAfter (\<lambda>line h. clean h \<and> F h \<and> typed line h))" for line
    unfolding okay_def
    by (rule ordered_bind [OF ordered_effect [where Q = "\<lambda>_ h. clean h \<and> F h \<and> typed line h"]])
      (use assms in \<open>auto simp: harmless_changesWell harmless_def clean_def lasting_def typed_def intro: ordered_return\<close>)
  show ?thesis
    unfolding readLine_def Let_def
    by (rule managed_quiet, rule harmless_does, rule assms) (auto simp: failed_def intro: got ordered_return split: option.split)
qed

lemma managed_attempt:
  "managed F E m p (okAfter (\<lambda>x h. clean h \<and> G x h)) \<Longrightarrow> (\<And>x. managed (G x) E m (f x) (\<lambda>_ _. True)) \<Longrightarrow> managed F E m (attempt p f) (\<lambda>_ _. True)"
  unfolding attempt_def
  by (erule ordered_bind) (auto intro: ordered_return split: sum.split)

lemma managed_asks:
  assumes "lasting F" "\<And>line. managed (\<lambda>h. F h \<and> typed line h) E m (f line) (\<lambda>_ _. True)"
  shows "managed F E m (attempt (readLine E) f) (\<lambda>_ _. True)"
  by (rule managed_attempt [OF managed_readLine [OF assms(1)] assms(2)])

lemma managed_request:
  assumes "lasting F" "\<And>h req. F h \<Longrightarrow> requestTo E (mgAPI m) endpoint = Some (cqURL req) \<Longrightarrow> cqMethod req = meth \<Longrightarrow>
      cqBody req = map_option (bePrint E) body \<Longrightarrow> \<exists>ch. sanctioned E m h req ch"
    and "\<And>x. does harmless (f x)"
  shows "managed F E m (attempt (doRequest E (mgAPI m) meth endpoint body fs zero headers) f) (\<lambda>_ _. True)"
  unfolding attempt_def
  by (rule ordered_bind [OF ordered_doRequest])
    (auto simp: harmless_changesWell assms(1) intro: managed_silent assms(3) does_return split: sum.split, auto simp: changesWell_def intro: assms(2))

lemma managed_mutate:
  assumes "lasting F" "\<And>h. F h \<Longrightarrow> picked action a h \<and> mutates action a (typed (agName a) h) suff meth"
    and "\<And>x. does harmless (f x)"
  shows "managed F E m (attempt (apiMutate E (mgAPI m) (agID a) suff meth) f) (\<lambda>_ _. True)"
  unfolding apiMutate_def
proof (rule managed_request [OF assms(1) _ assms(3)])
  fix h and req :: clientRequest
  assume h: "F h" "requestTo E (mgAPI m) (agentPath E (agID a) @ suff) = Some (cqURL req)" "cqMethod req = meth" "cqBody req = map_option (bePrint E) None"
  have "sanctioned E m h req (Operates action a)"
    unfolding sanctioned_def change.case using h assms(2) [OF h(1)] by (intro conjI exI [of _ suff]) simp_all
  then show "\<exists>ch. sanctioned E m h req ch" ..
qed

lemma attempt_bind: "attempt (State_Monad.bind p g) f = State_Monad.bind p (\<lambda>x. attempt (g x) f)"
  by (simp add: attempt_def)

lemma attempt_attempt: "attempt (attempt p g) f = attempt p (\<lambda>x. attempt (g x) f)"
  by (auto simp: attempt_def State_Monad.bind_def State_Monad.return_def fun_eq_iff split: prod.splits sum.splits intro!: arg_cong [where f = State])

lemmas manager_does = harmless_does harmless_more does_attempt does_okay does_if does_bind does_return

section \<open>The manager\<close>

lemma managed_showAll:
  assumes "lasting F"
  shows "managed F E m (showAll ts) (\<lambda>_ h. clean h \<and> F h \<and> (\<forall>t \<in> set ts. (Shown t, True) \<in> set h))"
  using assms
proof (induction ts arbitrary: F)
  case (Cons t ts)
  let ?F = "\<lambda>h. F h \<and> (Shown t, True) \<in> set h"
  have "lasting ?F" using Cons.prems by (auto simp: lasting_def)
  from Cons.IH [OF this] show ?case
    unfolding showAll.simps shown_def
    by (intro ordered_bind [OF ordered_effect [where Q = "\<lambda>_ h. clean h \<and> ?F h"]])
      (use Cons.prems in \<open>auto simp: harmless_changesWell harmless_def clean_def lasting_def elim: ordered_conseq\<close>)
qed (simp add: ordered_return)

lemma managed_chooseAction: "managed (\<lambda>_. True) E m (chooseAction E) (okAfter (\<lambda>_ h. clean h \<and> True))"
  by (rule ordered_conseq [OF ordered_harmless [where F = "\<lambda>_. True"]])
    (auto simp: chooseAction_def harmless_changesWell lasting_known okAfter_def split: option.split sum.split intro!: manager_does)

lemma managed_chooseAgent:
  "managed (\<lambda>_. True) E m (chooseAgent E m action) (okAfter (\<lambda>a h. clean h \<and> picked action a h))"
proof -
  have listing: "managed (\<lambda>_. True) E m (APIList E (mgAPI m)) (okAfter (\<lambda>_ h. clean h))"
    by (rule ordered_conseq [OF ordered_harmless [where F = "\<lambda>_. True"]])
      (auto simp: APIList_def harmless_changesWell lasting_known okAfter_def does_get split: sum.split)
  have selected: "managed (\<lambda>h. \<forall>t \<in> set (map (\<lambda>k. agentLine k (agents ! k)) [0..<length agents]). (Shown t, True) \<in> set h) E m
      (attempt (readLine E) (\<lambda>selection.
           case atoi selection of
             None \<Rightarrow> failed (Fault ''invalid agent selection'')
           | Some k \<Rightarrow> if k < 1 \<or> int (length agents) < k then failed (Fault ''invalid agent selection'') else okay (agents ! nat (k - 1))))
      (okAfter (\<lambda>a h. clean h \<and> picked action a h))"
    (is "managed ?F E m (attempt _ ?select) _")
    if app: "\<forall>a \<in> set agents. applicableAction action (stState (agStatus a))" for agents
  proof (rule ordered_attempt [OF managed_readLine])
    show "lasting ?F" by (simp add: lasting_def)
    fix line
    show "ordered (\<lambda>h. clean h \<and> ?F h \<and> typed line h) (changesWell E m) (?select line) (okAfter (\<lambda>a h. clean h \<and> picked action a h))"
    proof (cases "atoi line")
      case (Some k)
      have "picked action (agents ! nat (k - 1)) h" if k: "1 \<le> k" "k \<le> int (length agents)" and h: "?F h" "typed line h" for h
      proof -
        have n: "nat (k - 1) < length agents" using k by simp
        with h(1) have "(Shown (agentLine (nat (k - 1)) (agents ! nat (k - 1))), True) \<in> set h" by simp
        moreover have "atoi line = Some (int (nat (k - 1)) + 1)" using Some k by simp
        moreover have "applicableAction action (stState (agStatus (agents ! nat (k - 1))))" using app n by simp
        ultimately show ?thesis unfolding picked_def using h(2) by blast
      qed
      then show ?thesis using Some by (auto simp: failed_def okay_def intro!: ordered_return)
    qed (simp add: failed_def ordered_return)
  qed
  show ?thesis
    unfolding chooseAgent_def
  proof (rule ordered_attempt [OF listing])
    fix l :: AgentList
    let ?agents = "filter (\<lambda>a. applicableAction action (stState (agStatus a))) (alItems l)"
    have lines: "managed (\<lambda>_. True) E m (showAll ts) (\<lambda>_ h. clean h \<and> (\<forall>t \<in> set ts. (Shown t, True) \<in> set h))" for ts
      using managed_showAll [where F = "\<lambda>_. True" and ts = ts] by (simp add: lasting_known)
    have all: "managed (\<lambda>_. True) E m (do {
         _ \<leftarrow> shown t;
         _ \<leftarrow> showAll (map (\<lambda>k. agentLine k (?agents ! k)) [0..<length ?agents]);
         _ \<leftarrow> shown t';
         attempt (readLine E) (\<lambda>selection.
           case atoi selection of
             None \<Rightarrow> failed (Fault ''invalid agent selection'')
           | Some k \<Rightarrow> if k < 1 \<or> int (length ?agents) < k then failed (Fault ''invalid agent selection'') else okay (?agents ! nat (k - 1))) })
       (okAfter (\<lambda>a h. clean h \<and> picked action a h))" for t t'
      by (rule managed_quiet, rule harmless_does, rule lasting_known, rule ordered_bind, rule lines, rule managed_quiet, rule harmless_does, simp add: lasting_def,
          rule selected, simp)
    show "ordered clean (changesWell E m)
       (let agents = ?agents in
        if agents = [] then failed (Fault (''no agents can '' @ action @ '' right now''))
        else do {
         _ \<leftarrow> shown (''Agents available to '' @ action @ '':'' @ [CHR 0x0A]);
         _ \<leftarrow> showAll (map (\<lambda>k. agentLine k (agents ! k)) [0..<length agents]);
         _ \<leftarrow> shown ''Choose: '';
         attempt (readLine E) (\<lambda>selection.
           case atoi selection of
             None \<Rightarrow> failed (Fault ''invalid agent selection'')
           | Some k \<Rightarrow> if k < 1 \<or> int (length agents) < k then failed (Fault ''invalid agent selection'') else okay (agents ! nat (k - 1))) })
       (okAfter (\<lambda>a h. clean h \<and> picked action a h))"
      unfolding Let_def
    proof (rule ordered_if)
      show "ordered clean (changesWell E m) (failed e) (okAfter (\<lambda>a h. clean h \<and> picked action a h))" for e
        unfolding failed_def by (rule ordered_return) simp
    qed (rule ordered_conseq [OF all], simp_all)
  qed
qed

lemma managed_createNew: "managed (\<lambda>_. True) E m (createNew E m) (\<lambda>_ _. True)"
proof -
  have opens: "does harmless (do { s \<leftarrow> stateFor E m a;
         attempt (Save E (mgStore m) s) (\<lambda>_. do {
           _ \<leftarrow> shown t; OpenAgent E (agID a) (managerTargetPane E) False }) })" for a t
    unfolding stateFor_def Let_def by (intro manager_does)
  have asks: "managed (typed name) E m (attempt (APICreate E (mgAPI m) (BridgeCreateRequest (mgConfig m) name)) f) (\<lambda>_ _. True)"
    if "ValidName name" "\<And>a. does harmless (f a)" for name and f :: "Agent \<Rightarrow> ('a, unit) rprog"
  proof -
    have "\<exists>ch. sanctioned E m h req ch"
      if "typed name h" "requestTo E (mgAPI m) ''/v1alpha1/agents'' = Some (cqURL req)" "cqMethod req = ''POST''"
        "cqBody req = map_option (bePrint E) (Some (requestJson (BridgeCreateRequest (mgConfig m) name)))" for h and req :: clientRequest
      using that \<open>ValidName name\<close> by (intro exI [of _ "Creates name"]) (simp add: sanctioned_def)
    then show ?thesis
      unfolding APICreate_def attempt_bind
      by (intro managed_quiet harmless_does lasting_choices managed_request that(2))
  qed
  show ?thesis
    unfolding createNew_def
    by (rule managed_quiet, rule harmless_does, rule lasting_known, rule managed_asks, rule lasting_known, rule ordered_if)
      (simp_all add: failed_def ordered_return asks opens)
qed

lemma managed_perform: "managed (picked action a) E m (perform E m action a s) (\<lambda>_ _. True)"
proof -
  have does_ifs: "does harmless (if c then x else y)" if "does harmless x" "does harmless y" for c and x y :: "('a, 'b) uprog"
    using that by simp
  have stop: "managed (picked ''stop'' a) E m (stopAgent E m a) (\<lambda>_ _. True)"
    unfolding stopAgent_def APIStop_def by (intro managed_mutate lasting_choices manager_does) (simp add: mutates_def)
  have resume: "managed (picked ''resume'' a) E m (resumeAgent E m a) (\<lambda>_ _. True)"
    unfolding resumeAgent_def APIResume_def
    by (intro managed_mutate [where action = "''resume''"] lasting_choices manager_does) (auto simp: mutates_def picked_def applicableAction_def)
  have focus: "managed (picked ''focus'' a) E m (focusAgent E a s) (\<lambda>_ _. True)"
    unfolding focusAgent_def by (intro managed_silent manager_does)
  have delete: "managed (picked ''delete'' a) E m (deleteAgent E m a s) (\<lambda>_ _. True)"
  proof -
    have named: "managed (\<lambda>h. picked ''delete'' a h \<and> typed line h) E m (attempt (APIDelete E (mgAPI m) (agID a)) (\<lambda>_. do {
         _ \<leftarrow> ClosePane E (asPaneID s); _ \<leftarrow> RemoveState E (mgStore m) (agID a); _ \<leftarrow> println' t; okay () })) (\<lambda>_ _. True)"
      if "line = agName a" for line t
      unfolding APIDelete_def using that
      by (intro managed_mutate [where action = "''delete''"] lasting_conj lasting_choices manager_does) (simp add: mutates_def)
    show ?thesis
      unfolding deleteAgent_def
      by (rule managed_quiet, rule harmless_does, rule lasting_choices, rule managed_asks, rule lasting_choices, rule ordered_if,
          simp add: failed_def ordered_return, rule named, simp)
  qed
  have attach: "managed (picked action a) E m (attachAgent E m action a s) (\<lambda>_ _. True)" if act: "action = ''attach'' \<or> action = ''takeover''"
  proof -
    define rest where "rest = attempt (Save E (mgStore m) s) (\<lambda>_. do {
       focused \<leftarrow> (if action = ''attach'' \<and> asPaneID s \<noteq> [] then do { r \<leftarrow> FocusPane E (asPaneID s); ret (isOK r) } else ret False);
       if focused then do { _ \<leftarrow> println' ''Focused the existing agent pane.''; okay () }
       else do {
         _ \<leftarrow> println' (''Opening agent pane'' @ ellipsis);
         OpenAgent E (agID a) (managerTargetPane E) (action = ''takeover'') } })"
    have rest: "does harmless rest"
      unfolding rest_def by (intro manager_does)
    have resumed: "managed (picked action a) E m (do { _ \<leftarrow> println' t; attempt (attempt (APIResume E (mgAPI m) (agID a)) (\<lambda>_. okay ())) (\<lambda>_. rest) }) (\<lambda>_ _. True)"
      if "stState (agStatus a) = StateStopped" for t
      unfolding APIResume_def attempt_attempt
      by (intro managed_quiet harmless_does lasting_choices managed_mutate [where action = action] manager_does rest)
        (use that act in \<open>auto simp: mutates_def\<close>)
    show ?thesis
    proof (cases "stState (agStatus a) = StateStopped")
      case True
      show ?thesis unfolding attachAgent_def rest_def [symmetric] if_P [OF True] attempt_bind by (rule resumed [OF True])
    next
      case False
      show ?thesis unfolding attachAgent_def rest_def [symmetric] if_not_P [OF False] by (intro managed_silent manager_does rest)
    qed
  qed
  show ?thesis
    unfolding perform_def using attach stop resume focus delete by (auto simp: okay_def intro: ordered_return)
qed

lemma managed_RunManager: "managed (\<lambda>_. True) E m (RunManager E m action) (\<lambda>_ _. True)"
proof -
  have picks: "managed (\<lambda>_. True) E m (attempt (chooseAgent E m act) (\<lambda>a. do { s \<leftarrow> stateFor E m a; perform E m act a s })) (\<lambda>_ _. True)" for act
    by (rule managed_attempt [OF managed_chooseAgent], rule managed_quiet)
      (auto simp: stateFor_def Let_def lasting_choices intro!: manager_does managed_perform)
  show ?thesis
    unfolding RunManager_def
    by (rule managed_attempt [where G = "\<lambda>_ _. True"])
      (auto simp: failed_def okay_def intro!: ordered_return managed_chooseAction [simplified] managed_createNew [simplified] picks [simplified])
qed

section \<open>On the other side\<close>

text \<open>
  The server's URL has no path of its own, and a URL of an agent is printed and parsed as it is;
  a UUID needs no escape in a path.
\<close>

definition plainURLs :: "'v bridgeEnv \<Rightarrow> APIClient \<Rightarrow> bool" where
  "plainURLs E api \<longleftrightarrow>
     trimSuffix (urlPath (acBaseURL api)) ''/'' = [] \<and>
     (\<forall>i. validStateID i \<longrightarrow> bePathEscape E i = i \<and> (\<forall>suff \<in> {[], '':stop'', '':resume''}.
        let u = endpointURL (acBaseURL api) (''/v1alpha1/agents/'' @ i @ suff) in beURLParse E (beURLText E u) = Some u))"

lemma runes_ascii: "(\<forall>r \<in> fst ` set (runeList s). r < 128) \<Longrightarrow> \<forall>c \<in> set s. (of_char c :: nat) < 128"
proof (induction s rule: runeList.induct)
  case (2 c cs)
  obtain r n where rn: "decodeRune (map of_char (c # cs)) = (r, n)" by (rule prod.exhaust)
  have "(r, take n (c # cs)) \<in> set (runeList (c # cs))" using rn by (simp add: Let_def)
  from imageI [OF this, of fst] have r: "r < 128" using "2.prems" by (simp only: fst_conv)
  then have c: "(of_char c :: nat) < 128"
    using decodeRune_nonascii [of "of_char c" "map of_char cs" r n] rn by fastforce
  then have n: "n = 1" using rn by simp
  with "2.IH" [OF refl rn [symmetric]] "2.prems" rn c show ?case by (simp add: Let_def)
qed simp

lemma uuid_runes: "uuidRunes k rs \<Longrightarrow> list_all (\<lambda>r. fst r = 45 \<or> fst r \<in> of_char ` set ''0123456789abcdefABCDEF'') rs"
proof (induction rs arbitrary: k)
  case (Cons r rs)
  then show ?case by (cases r) (auto simp del: list.set split: if_splits)
qed simp

lemma uuid_chars:
  assumes "looksLikeUUID i"
  shows "CHR ''/'' \<notin> set i" "CHR '':'' \<notin> set i" "CHR ''?'' \<notin> set i"
proof -
  have r: "\<forall>r \<in> fst ` set (runeList i). r = 45 \<or> r \<in> of_char ` set ''0123456789abcdefABCDEF''"
    using uuid_runes [of 0 "runeList i"] assms unfolding looksLikeUUID_def list_all_iff by blast
  have "\<forall>r \<in> fst ` set (runeList i). r < 128"
    using r by fastforce
  then have "\<forall>c \<in> set i. (of_char c :: nat) < 128" by (rule runes_ascii)
  then have "runeList i = map (\<lambda>c. (of_char c, [c])) i" by (rule runeList_ascii)
  then have "\<forall>c \<in> set i. (of_char c :: nat) = 45 \<or> (of_char c :: nat) \<in> of_char ` set ''0123456789abcdefABCDEF''"
    using r by auto
  then have "\<forall>c \<in> set i. c \<notin> set ''/:?''"
    by fastforce
  then show "CHR ''/'' \<notin> set i" "CHR '':'' \<notin> set i" "CHR ''?'' \<notin> set i" by auto
qed

definition operationOf :: "string \<Rightarrow> target" where
  "operationOf suff = (if suff = '':stop'' then Operate OpStop else if suff = '':resume'' then Operate OpResume else Plain)"

lemma no_suffix: "c \<in> set p \<Longrightarrow> c \<notin> set s \<Longrightarrow> \<not> hasSuffix s p"
  by (auto simp: hasSuffix_def suffix_def)

lemma agentTarget_uuid:
  assumes "looksLikeUUID i" "suff \<in> {[], '':stop'', '':resume''}"
  shows "agentTarget (''/v1alpha1/agents/'' @ i @ suff) = (i, operationOf suff)"
proof -
  have t: "\<not> hasSuffix (i @ suff) ''/terminal''"
    by (rule no_suffix [of "CHR ''/''"]) (use uuid_chars [OF assms(1)] assms(2) in auto)
  have r: "\<not> hasSuffix (i @ '':resume'') '':stop''"
    by (simp add: hasSuffix_def suffix_def)
  have own: "hasSuffix (i @ x) x" for x by (simp add: hasSuffix_def suffix_def)
  have p: "\<not> hasSuffix i '':stop''" "\<not> hasSuffix i '':resume''" "\<not> hasSuffix i '':change-adapter''"
    by (rule no_suffix [of "CHR '':''"]; use uuid_chars [OF assms(1)] in auto)+
  show ?thesis
    using assms(2) t r p unfolding agentTarget_def Let_def trimPrefix_append operationOf_def
    by (auto simp: trimSuffix_def own)
qed

lemma endpoint_target:
  assumes "validStateID i" "suff \<in> {[], '':stop'', '':resume''}" "plainURLs E api" "requestTo E api (agentPath E i @ suff) = Some url"
  shows "apiRouteOf t meth (urlPath url) = Some OneAgent \<and> agentTarget (urlPath url) = (i, operationOf suff)"
proof -
  have i: "looksLikeUUID i" using assms(1) by (simp add: validStateID_def)
  define p where "p = ''/v1alpha1/agents/'' @ i @ suff"
  have q: "CHR ''?'' \<notin> set p" using uuid_chars [OF i] assms(2) by (auto simp: p_def)
  then have "cutAt (CHR ''?'') p = None" by (simp only: cutAt_None not_False_eq_True)
  then have u: "urlPath (endpointURL (acBaseURL api) p) = p"
    using assms(3) by (simp add: endpointURL_def Let_def splitOn_none [OF q] plainURLs_def)
  have "agentPath E i @ suff = p" "beURLParse E (beURLText E (endpointURL (acBaseURL api) p)) = Some (endpointURL (acBaseURL api) p)"
    using assms(1-3) by (simp_all only: plainURLs_def agentPath_def p_def Let_def append_assoc)
  with u assms(4) have "urlPath url = p" by (simp add: requestTo_def)
  then show ?thesis using agentTarget_uuid [OF i assms(2)] by (simp add: apiRouteOf_def hasPrefix_def p_def)
qed


definition typingEnv :: "sampleWorld bridgeEnv" where
  "typingEnv = sampleEnv\<lparr>beReadLine := (\<lambda>v. ((None, ''n'' @ [CHR 0x0A]), v)), beURLText := urlPath,
     beURLParse := (\<lambda>t. Some (sampleURL\<lparr>urlPath := t\<rparr>))\<rparr>"

definition sampleManager :: Manager where
  "sampleManager = \<lparr>mgConfig = sampleBridgeConfig, mgAPI = \<lparr>acBaseURL = sampleURL, acTokenFile = ''t''\<rparr>, mgStore = \<lparr>ssDirectory = ''/s''\<rparr>\<rparr>"

definition creationRequest :: clientRequest where
  "creationRequest = requestOf ''POST'' (sampleURL\<lparr>urlPath := ''/v1alpha1/agents''\<rparr>) (''Bearer '' @ sampleToken) ''id''
     (Some (requestJson (BridgeCreateRequest sampleBridgeConfig ''n''))) (\<lambda>_. []) [(''Idempotency-Key'', ''id'')]"

lemma typing_run:
  "actions (snd (run_state (RunManager typingEnv sampleManager ''create'') \<lparr>world = \<lparr>bwSeq = 0, bwRest = []\<rparr>, actions = []\<rparr>)) =
     [(Shown ''New agent name (lowercase letters, numbers, hyphens): '', True), (ReadLine ''n'', True), (File (ReadFile ''t''), True)] @
     (HTTP creationRequest, False) # []"
proof -
  have n: "trimSpace ''n\<newline>'' = ''n''" using trim_line [of "''n''"] by simp
  have v: "ValidName ''n''" by code_simp
  have e: "endpointURL sampleURL ''/v1alpha1/agents'' = sampleURL\<lparr>urlPath := ''/v1alpha1/agents''\<rparr>"
    by (simp add: endpointURL_def sampleURL_def trimSuffix_def hasSuffix_def)
  have m: "mgAPI sampleManager = \<lparr>acBaseURL = sampleURL, acTokenFile = ''t''\<rparr>" "mgConfig sampleManager = sampleBridgeConfig"
    by (simp_all add: sampleManager_def)
  have t: "beReadLine typingEnv u = ((None, ''n\<newline>''), u)" "beNewID typingEnv u = (''id'', u)" "beURLText typingEnv = urlPath"
      "beURLParse typingEnv x = Some (sampleURL\<lparr>urlPath := x\<rparr>)" "beReadFile typingEnv p u = (Inr (sampleToken @ [CHR 0x0A]), u)"
      "beHTTP typingEnv req u = (Inl ''unreachable'', u)" "bePrint typingEnv = (\<lambda>_. [])" for u x p req
    by (simp_all add: typingEnv_def sampleEnv_def)
  show ?thesis
    by (simp add: RunManager_def createNew_def readLine_def APICreate_def doRequest_def AuthorizationHeader_def shown_def bridge_runs t n v e m
        sample_token sample_token_path creationRequest_def cong: lazy_congs)
qed


end
