(* ===== verification/Bridge_Store.thy ===== *)
theory Bridge_Store
  imports Bridge_Safety
begin

text \<open>
  What the bridge writes is read back as it was meant: the state of an agent by a later bridge
  (\<^verbatim>\<open>herdrbridge/state.go\<close>), and the request to create an agent by the control plane.
\<close>

section \<open>Requests to create\<close>

lemma ApplyDefaults_idem: "ApplyDefaults (ApplyDefaults r) = ApplyDefaults r"
  by (cases "spRepository (crSpec r)") (simp_all add: ApplyDefaults_def Let_def)

lemma ApplyDefaults_name: "crName (ApplyDefaults r) = crName r" "crSpec (ApplyDefaults (r\<lparr>crName := n\<rparr>)) = crSpec (ApplyDefaults r)"
  by (simp_all add: ApplyDefaults_def Let_def)

lemma validateCreate_name:
  assumes "validateCreate parse r = None" "crSpec r' = crSpec r" "ValidName (crName r')"
  shows "validateCreate parse r' = None"
proof -
  have "ValidName (crName r)"
    by (rule ccontr) (use assms(1) in \<open>simp add: validateCreate_def\<close>)
  then have "validateCreate parse r' = validateCreate parse r"
    unfolding validateCreate_def Let_def assms(2) using assms(3) by (simp only: if_False simp_thms)
  with assms(1) show ?thesis by simp
qed

text \<open>
  With a configuration that the bridge accepts, a request to create an agent under a valid name is
  taken by the control plane for what was meant: it decodes, with unknown members refused, to the very
  request, the defaults, which the bridge applied already, change nothing, and it is valid, up to the
  quantities, which the bridge does not check.
\<close>

theorem creation_understood:
  assumes "ValidateConfig E c = None" "ValidName name" "svURLParse S = lifecycleURLs E"
    and "svScanner S (aqBody req) = Some (requestJson (BridgeCreateRequest c name), [])" "length (aqBody req) \<le> maxBody"
    and "aqHeader req ''Idempotency-Key'' = key" "key \<noteq> []" "length key \<le> 256"
  shows "checkCreate S ord req =
    (case badQuantity S ord (BridgeCreateRequest c name) of
       Some field \<Rightarrow> Inl (NewError 422 ''validation_failed'' (field @ '' is not a valid Kubernetes quantity''))
     | None \<Rightarrow> Inr (key, BridgeCreateRequest c name))"
proof -
  let ?r = "BridgeCreateRequest c name"
  have n: "crName ?r = name" "crSpec ?r = crSpec (BridgeCreateRequest c ''validation'')"
    by (simp_all add: BridgeCreateRequest_def ApplyDefaults_name)
  have "validateCreate (lifecycleURLs E) (BridgeCreateRequest c ''validation'') = None"
    using assms(1) by (simp add: ValidateConfig_def split: if_splits option.splits)
  then have v: "validateCreate (lifecycleURLs E) ?r = None"
    by (rule validateCreate_name) (simp_all add: n assms(2))
  then have "0 \<le> spIdleTimeoutSeconds (crSpec ?r)" "spIdleTimeoutSeconds (crSpec ?r) \<le> 604800"
    by (auto simp: validateCreate_def Let_def split: if_splits option.splits)
  then have "printsInt formatInt (spIdleTimeoutSeconds (crSpec ?r))"
    using parseIntLit_formatInt [of "- (2 ^ 63)" "spIdleTimeoutSeconds (crSpec ?r)" "2 ^ 63 - 1"] by (simp add: printsInt_def)
  then have s: "decodeStruct True (specFields True) (specJson formatInt (crSpec ?r)) zeroSpec = Some (crSpec ?r)"
    by (rule spec_roundtrip)
  obtain ms where ms: "specJson formatInt (crSpec ?r) = JObj ms" by (simp add: specJson_def)
  have "decodeStruct True createFields (requestJson ?r) zeroCreate = Some ?r"
    unfolding requestJson_def ms decodeStruct.simps(1)
    by (cases ?r) (use s [unfolded ms] in \<open>simp add: createFields_def findField_exact setField_def setStruct_def zeroCreate_def del: decodeStruct.simps\<close>)
  then have "decodeJSON S createFields zeroCreate (aqBody req) = Inr ?r"
    using assms(4,5) by (simp add: decodeJSON_def atEOF_def del: decodeStruct.simps)
  moreover have "ApplyDefaults ?r = ?r" by (simp add: BridgeCreateRequest_def ApplyDefaults_idem)
  ultimately show ?thesis using v assms(3,6-8) by (simp add: checkCreate_def Let_def)
qed

definition goodConfig :: BridgeConfig where
  "goodConfig = sampleBridgeConfig\<lparr>bcBaseURL := ''https://h'', bcTokenFile := ''t'', bcCreate := zeroCreate\<lparr>crSpec := zeroSpec\<lparr>
     spKind := ''shell'', spSandboxProfile := ''default'', spResources := \<lparr>resCPU = ''1'', resMemory = ''1Gi''\<rparr>,
     spWorkspace := \<lparr>wsSize = ''1Gi'', wsStorageProfile = [], wsRetentionPolicy = ''retain''\<rparr>\<rparr>\<rparr>\<rparr>"

theorem creation_understood_witness:
  "checkCreate (sampleServer\<lparr>svURLParse := lifecycleURLs sampleEnv, svScanner := (\<lambda>_. Some (requestJson (BridgeCreateRequest goodConfig ''n''), []))\<rparr>) []
     \<lparr>aqMethod = ''POST'', aqPath = ''/v1alpha1/agents'', aqHeader = (\<lambda>_. ''id''), aqQuery = (\<lambda>_. []), aqBody = []\<rparr> =
   Inr (''id'', BridgeCreateRequest goodConfig ''n'')"
proof -
  have p: "ValidName ''validation''" "\<not> profileInvalid ''shell''" "\<not> profileInvalid ''default''" by code_simp+
  have c: "ValidateConfig sampleEnv goodConfig = None"
    using p by (simp add: ValidateConfig_def validateCreate_def BridgeCreateRequest_def ApplyDefaults_def goodConfig_def sampleBridgeConfig_def
      sampleEnv_def sampleURL_def zeroBridgeConfig_def zeroCreate_def zeroSpec_def second_def Let_def)
  have n: "ValidName ''n''" by code_simp
  show ?thesis
    by (subst creation_understood [OF c n]) (simp_all add: badQuantity_def maxBody_def)
qed

section \<open>The state of an agent\<close>

text \<open>A printer and a time format that the scanner and the parser of times read back.\<close>

definition readsBack :: "'v bridgeEnv \<Rightarrow> AgentState \<Rightarrow> bool" where
  "readsBack E s \<longleftrightarrow>
     (\<forall>v. let now = fst (beNow E v); j = agentStateJson (beCodec E) (s\<lparr>asUpdatedAt := now\<rparr>) in
        beScanner E (bePrintIndent E j @ [CHR 0x0A]) = Some (j, [CHR 0x0A]) \<and> cdParseTime (beCodec E) (cdTime (beCodec E) now) = Some now)"

lemma agentState_roundtrip:
  assumes "cdParseTime cd (cdTime cd (asUpdatedAt s)) = Some (asUpdatedAt s)"
  shows "decodeStruct False (agentStateFields cd) (agentStateJson cd s) zeroAgentState = Some s"
proof -
  have f: "findField (agentStateFields cd) ''agentId'' = Some (setField decString (\<lambda>x r. r\<lparr>asAgentID := x\<rparr>))"
    "findField (agentStateFields cd) ''name'' = Some (setField decString (\<lambda>x r. r\<lparr>asName := x\<rparr>))"
    "findField (agentStateFields cd) ''baseUrl'' = Some (setField decString (\<lambda>x r. r\<lparr>asBaseURL := x\<rparr>))"
    "findField (agentStateFields cd) ''paneId'' = Some (setField decString (\<lambda>x r. r\<lparr>asPaneID := x\<rparr>))"
    "findField (agentStateFields cd) ''afterSequence'' = Some (setPointer (decUint 64) (\<lambda>n r. r\<lparr>asAfterSequence := map_option word_of_nat n\<rparr>))"
    "findField (agentStateFields cd) ''runnerGeneration'' = Some (setField decString (\<lambda>x r. r\<lparr>asRunnerGeneration := x\<rparr>))"
    "findField (agentStateFields cd) ''updatedAt'' = Some (setField (decTime cd) (\<lambda>x r. r\<lparr>asUpdatedAt := x\<rparr>))"
    by (simp_all add: agentStateFields_def findField_def)
  show ?thesis
    unfolding agentStateJson_def decodeStruct.simps(1) decodeMembers_append zeroAgentState_def
    using assms by (simp add: member_steps f)
qed

text \<open>The text \<open>contents\<close> is on disk, under the name \<open>t\<close>.\<close>

definition onDisk :: "string \<Rightarrow> string \<Rightarrow> (bridgeCall \<times> bool) list \<Rightarrow> bool" where
  "onDisk t contents h \<longleftrightarrow>
     (File (Chmod t 384), True) \<in> set h \<and> (File (Write t contents), True) \<in> set h \<and> (File (Sync t), True) \<in> set h \<and>
     (File (CloseTemp t), True) \<in> set h"

text \<open>What a save may do to the file at \<open>p\<close>, after a history.\<close>

definition replaces :: "'v bridgeEnv \<Rightarrow> AgentState \<Rightarrow> string \<Rightarrow> (bridgeCall \<times> bool) list \<Rightarrow> bridgeCall \<times> bool \<Rightarrow> bool" where
  "replaces E s p h ev \<longleftrightarrow>
     (\<exists>c. fst ev = File c \<and>
        (case c of
           Rename t q \<Rightarrow> q = p \<and> (\<exists>contents now. onDisk t contents h \<and> decodeState E contents = Some (s\<lparr>asUpdatedAt := now\<rparr>))
         | CreateTemp d \<Rightarrow> True | Chmod q mode \<Rightarrow> q \<noteq> p | Write q contents \<Rightarrow> q \<noteq> p | Sync q \<Rightarrow> q \<noteq> p | CloseTemp q \<Rightarrow> q \<noteq> p
         | Remove q \<Rightarrow> q \<noteq> p | _ \<Rightarrow> False))"

lemma lasting_onDisk: "lasting (onDisk t contents)"
  by (auto simp: lasting_def onDisk_def)

definition tempApart :: "'v bridgeEnv \<Rightarrow> StateStore \<Rightarrow> string \<Rightarrow> bool" where
  "tempApart E st i \<longleftrightarrow> (\<forall>v t. fst (beCreateTemp E (ssDirectory st) ''.agent-*.tmp'' v) = Inr t \<longrightarrow> t \<noteq> statePath st i)"

lemma ordered_wrapped_call:
  assumes "\<And>h ok. H h \<Longrightarrow> P h (c, ok)" "lasting H"
  shows "ordered H P (wrapped (called c f) wrap) (okAfter (\<lambda>_ h. H h \<and> (c, True) \<in> set h))"
  unfolding wrapped_def
  by (rule ordered_bind [OF ordered_called [where Q = "\<lambda>r h. H h \<and> (isOK r \<longrightarrow> (c, True) \<in> set h)"]])
    (use assms in \<open>auto simp: lasting_def isOK_def intro!: ordered_return split: sum.splits\<close>)

lemma ordered_closing:
  assumes "ordered H P m (okAfter Q)" "\<And>H'. ordered H' P close (\<lambda>_ _. True)"
  shows "ordered H P (closing m close) (okAfter Q)"
  unfolding closing_def
proof (rule ordered_bind [OF assms(1)])
  fix r :: "bridgeError + 'b"
  show "ordered (okAfter Q r) P (case r of Inl e \<Rightarrow> do { _ \<leftarrow> close; failed e } | Inr x \<Rightarrow> okay x) (okAfter Q)"
    by (cases r) (auto simp: failed_def okay_def intro!: ordered_return ordered_bind [OF assms(2)])
qed

lemma ordered_any: "(\<And>h ok. P h (c, ok)) \<Longrightarrow> ordered H P (called c f) (\<lambda>_ _. True)"
  by (rule ordered_called) auto

lemma replaces_replaceFile:
  fixes E :: "'v bridgeEnv"
  assumes "t \<noteq> p" "decodeState E contents = Some (s\<lparr>asUpdatedAt := now\<rparr>)"
  shows "ordered (\<lambda>_. True) (replaces E s p) (replaceFile E t p contents) (okAfter (\<lambda>_ h. (File (Rename t p), True) \<in> set h))"
proof -
  let ?P = "replaces E s p"
  let ?close = "wrapped (called (File (CloseTemp t)) (beClose E t)) Io"
  have close: "ordered H ?P ?close (\<lambda>_ _. True)" for H
    unfolding wrapped_def by (rule ordered_bind [OF ordered_any]) (use assms(1) in \<open>auto simp: replaces_def intro: ordered_return\<close>)
  have step: "ordered H ?P (closing (wrapped (called (File c) g) Io) ?close) (okAfter (\<lambda>_ h. H h \<and> (File c, True) \<in> set h))"
    if "\<And>h ok. ?P h (File c, ok)" "lasting H" for c H and g :: "'v \<Rightarrow> (osError + unit) \<times> 'v"
    by (intro ordered_closing ordered_wrapped_call that close)
  have kept: "lasting (\<lambda>h. H h \<and> ev \<in> set h)" if "lasting H" for H and ev :: "bridgeCall \<times> bool"
    using that by (rule lasting_conj) (rule lasting_known)
  have rename: "ordered (\<lambda>h. onDisk t contents h) ?P (wrapped (called (File (Rename t p)) (beRename E t p)) Io) (okAfter (\<lambda>_ h. (File (Rename t p), True) \<in> set h))"
    by (rule ordered_conseq [OF ordered_wrapped_call [where H = "onDisk t contents"]])
      (use assms(2) in \<open>auto simp: replaces_def okAfter_def lasting_onDisk split: sum.splits\<close>)
  have apart: "replaces E s p h (File (Chmod t m), ok)" "replaces E s p h (File (Write t x), ok)" "replaces E s p h (File (Sync t), ok)"
      "replaces E s p h (File (CloseTemp t), ok)" for h m x ok
    using assms(1) by (simp_all add: replaces_def)
  have closed: "ordered H ?P ?close (okAfter (\<lambda>_ h. H h \<and> (File (CloseTemp t), True) \<in> set h))" if "lasting H" for H
    by (intro ordered_wrapped_call apart that)
  show ?thesis
    unfolding replaceFile_def Let_def
    by (rule ordered_attempt, rule step, rule apart, rule lasting_known, rule ordered_attempt, rule step, rule apart, rule kept, rule lasting_known,
        rule ordered_attempt, rule step, rule apart, rule kept, rule kept, rule lasting_known,
        rule ordered_attempt, rule closed, rule kept, rule kept, rule kept, rule lasting_known, rule ordered_conseq [OF rename])
      (auto simp: onDisk_def)
qed

lemma decodeState_printed:
  assumes "readsBack E s" "now = fst (beNow E v)"
  shows "decodeState E (bePrintIndent E (agentStateJson (beCodec E) (s\<lparr>asUpdatedAt := now\<rparr>)) @ [CHR 0x0A]) = Some (s\<lparr>asUpdatedAt := now\<rparr>)"
  using assms agentState_roundtrip [of "beCodec E" "s\<lparr>asUpdatedAt := now\<rparr>"]
  by (simp add: decodeState_def unmarshalText_def readsBack_def atEOF_def jsonSpace_def Let_def del: decodeStruct.simps)

lemma ordered_clock: "ordered (\<lambda>h. H) P (asked f) (\<lambda>x h. H \<and> (\<exists>v. x = fst (f v)))"
  by (auto simp: ordered_def asked_def ask_def case_prod_beta)

definition renamed :: "string \<Rightarrow> (bridgeCall \<times> bool) list \<Rightarrow> bool" where
  "renamed p h \<longleftrightarrow> (\<exists>t. (File (Rename t p), True) \<in> set h)"

lemma replaces_Save:
  assumes "readsBack E s" "tempApart E st (asAgentID s)"
  shows "ordered (\<lambda>_. True) (replaces E s (statePath st (asAgentID s))) (Save E st s) (okAfter (\<lambda>_. renamed (statePath st (asAgentID s))))"
proof (cases "\<not> validStateID (asAgentID s) \<or> asName s = [] \<or> asBaseURL s = []")
  case True
  then show ?thesis by (simp add: Save_def failed_def ordered_return)
next
  case False
  let ?P = "replaces E s (statePath st (asAgentID s))" and ?R = "okAfter (\<lambda>_. renamed (statePath st (asAgentID s)))"
  have created: "ordered (\<lambda>_. True) ?P (wrapped (called (File (CreateTemp d)) (beCreateTemp E d pat)) Io)
      (okAfter (\<lambda>t h. t \<noteq> statePath st (asAgentID s)))" if "d = ssDirectory st" "pat = ''.agent-*.tmp''" for d pat
    using assms(2) that
    by (fastforce simp: ordered_def wrapped_def run_bind called_def case_prod_beta Cons_eq_append_conv replaces_def tempApart_def okAfter_def split: sum.splits)
  have temp: "ordered (\<lambda>h. t \<noteq> statePath st (asAgentID s)) ?P
      (do { r \<leftarrow> replaceFile E t (statePath st (asAgentID s)) (bePrintIndent E (agentStateJson (beCodec E) (s\<lparr>asUpdatedAt := now\<rparr>)) @ [CHR 0x0A]);
          _ \<leftarrow> called (File (Remove t)) (beRemove E t); ret r }) ?R" if "now = fst (beNow E v)" for t now v
  proof (cases "t = statePath st (asAgentID s)")
    case False
    have "ordered (okAfter (\<lambda>_ h. (File (Rename t (statePath st (asAgentID s))), True) \<in> set h) r) ?P
        (do { _ \<leftarrow> called (File (Remove t)) (beRemove E t); ret r }) ?R" for r :: "bridgeError + unit"
      by (rule ordered_bind [OF ordered_called [where Q = "\<lambda>_. ?R r"]])
        (use False in \<open>auto simp: replaces_def renamed_def okAfter_def intro: ordered_return split: sum.splits\<close>)
    then show ?thesis
      by (intro ordered_conseq [OF ordered_bind [OF replaces_replaceFile [OF False decodeState_printed [OF assms(1) that]]]]) auto
  qed (simp add: ordered_def)
  have known: "ordered (\<lambda>h. True \<and> (\<exists>v. x = fst (beNow E v))) ?P m ?R" if "\<And>v. x = fst (beNow E v) \<Longrightarrow> ordered (\<lambda>_. True) ?P m ?R"
    for x and m :: "('a, unit) rprog"
    using that by (cases "\<exists>v. x = fst (beNow E v)") (auto simp: ordered_def)
  show ?thesis
    unfolding Save_def Let_def if_not_P [OF False]
    by (rule ordered_bind, rule ordered_clock, rule known, rule ordered_attempt, rule created, rule refl, rule refl, rule temp, assumption)
qed

lemma Load_decodes:
  assumes "validStateID i" "decodeState E contents = Some s" "asAgentID s = i" "\<And>v. fst (beReadFile E (statePath st i) v) = Inr contents"
  shows "fst (run_state (Load E st i) e) = Inr s"
  using assms(1,2,3) assms(4) [of "bwRest (world e)"]
  by (simp add: Load_def bridge_runs case_prod_beta)

text \<open>
  C39. Saving the state of an agent never leaves a part of it in its file: the only thing a save does to
  the file at its path is to rename another file over it, which before was given the mode 0600, written,
  synced and closed without error, with a text that decodes to the state; if the save succeeds, it did
  so. A later \<open>Load\<close> that reads that text yields the state, with the time of the save.
\<close>

theorem state_saved_atomically:
  assumes "readsBack E s" "tempApart E st (asAgentID s)" "run_state (Save E st s) \<lparr>world = w, actions = []\<rparr> = (r, e)"
  shows "(r = Inr () \<longrightarrow> renamed (statePath st (asAgentID s)) (actions e)) \<and>
    (\<forall>pre ev post. actions e = pre @ ev # post \<longrightarrow> replaces E s (statePath st (asAgentID s)) pre ev) \<and>
    (\<forall>contents now. decodeState E contents = Some (s\<lparr>asUpdatedAt := now\<rparr>) \<longrightarrow> validStateID (asAgentID s) \<longrightarrow>
       (\<forall>v. fst (beReadFile E (statePath st (asAgentID s)) v) = Inr contents) \<longrightarrow>
       fst (run_state (Load E st (asAgentID s)) e') = Inr (s\<lparr>asUpdatedAt := now\<rparr>))"
proof -
  from replaces_Save [OF assms(1,2), unfolded ordered_def, rule_format, OF TrueI, of "\<lparr>world = w, actions = []\<rparr>"]
  have "(\<forall>pre ev post. actions e = pre @ ev # post \<longrightarrow> replaces E s (statePath st (asAgentID s)) pre ev) \<and>
      okAfter (\<lambda>_. renamed (statePath st (asAgentID s))) r (actions e)"
    by (auto simp: assms(3))
  then show ?thesis by (auto intro: Load_decodes)
qed

definition sampleUUID :: string where
  "sampleUUID = ''01234567-89ab-4def-8123-456789abcdef''"

definition savedState :: AgentState where
  "savedState = (newAgentState sampleUUID ''n'' ''https://h'')\<lparr>asUpdatedAt := 0\<rparr>"

definition savingEnv :: "sampleWorld bridgeEnv" where
  "savingEnv = sampleEnv\<lparr>beCreateTemp := (\<lambda>d pat v. (Inr ''/s/.agent-1.tmp'', v)), beChmod := (\<lambda>_ _ v. (Inr (), v)),
     beWrite := (\<lambda>_ _ v. (Inr (), v)), beSync := (\<lambda>_ v. (Inr (), v)), beClose := (\<lambda>_ v. (Inr (), v)), beRename := (\<lambda>_ _ v. (Inr (), v)),
     beScanner := (\<lambda>_. Some (agentStateJson sampleBridgeCodec savedState, [CHR 0x0A])), beCodec := sampleBridgeCodec\<lparr>cdParseTime := (\<lambda>_. Some 0)\<rparr>\<rparr>"

lemma saving_run:
  "fst (run_state (Save savingEnv \<lparr>ssDirectory = ''/s''\<rparr> savedState) \<lparr>world = \<lparr>bwSeq = 0, bwRest = []\<rparr>, actions = []\<rparr>) = Inr ()"
proof -
  have v: "validStateID sampleUUID" by code_simp
  have s: "asAgentID savedState = sampleUUID" "asName savedState = ''n''" "asBaseURL savedState = ''https://h''"
    by (simp_all add: savedState_def newAgentState_def)
  have c: "beNow savingEnv u = (0, u)" "beCreateTemp savingEnv d pat u = (Inr ''/s/.agent-1.tmp'', u)" "beChmod savingEnv p m u = (Inr (), u)"
    "beWrite savingEnv p x u = (Inr (), u)" "beSync savingEnv p u = (Inr (), u)" "beClose savingEnv p u = (Inr (), u)"
    "beRename savingEnv p q u = (Inr (), u)" for d pat u p m x q
    by (simp_all add: savingEnv_def sampleEnv_def)
  show ?thesis
    by (simp add: Save_def replaceFile_def closing_def bridge_runs c v s case_prod_beta cong: lazy_congs)
qed

theorem state_saved_atomically_witness:
  "renamed ''/s/01234567-89ab-4def-8123-456789abcdef.json''
     (actions (snd (run_state (Save savingEnv \<lparr>ssDirectory = ''/s''\<rparr> savedState) \<lparr>world = \<lparr>bwSeq = 0, bwRest = []\<rparr>, actions = []\<rparr>)))"
proof -
  have p: "statePath \<lparr>ssDirectory = ''/s''\<rparr> sampleUUID = ''/s/01234567-89ab-4def-8123-456789abcdef.json''" by code_simp
  have i: "asAgentID savedState = sampleUUID" "savedState\<lparr>asUpdatedAt := 0\<rparr> = savedState"
    by (simp_all add: savedState_def newAgentState_def)
  have "agentStateJson (sampleBridgeCodec\<lparr>cdParseTime := (\<lambda>_. Some 0)\<rparr>) savedState = agentStateJson sampleBridgeCodec savedState"
    by (simp add: agentStateJson_def)
  then have r: "readsBack savingEnv savedState"
    by (simp add: readsBack_def Let_def savingEnv_def sampleEnv_def i)
  have t: "tempApart savingEnv \<lparr>ssDirectory = ''/s''\<rparr> (asAgentID savedState)"
    by (simp add: tempApart_def savingEnv_def p i)
  from state_saved_atomically [OF r t prod.collapse [symmetric]] saving_run show ?thesis by (simp add: p i)
qed

end
