(* ===== verification/Controller_Run.thy ===== *)
theory Controller_Run
  imports Reconciler
begin

text \<open>
  The two loops of \<^verbatim>\<open>kubernetes/controller.go\<close> that feed the work queue: \<open>Run\<close>, which lists all agents at
  the start and at every tick, and a watch for each kind of object, which starts over with a back-off. Both
  hand identifiers to \<open>Enqueue\<close>; what that does to the queue, whoever runs in between, is the transition
  system of \<open>Controller\<close>. Logging is left out.
\<close>

section \<open>Listing\<close>

fun enqueueEach :: "Agent list \<Rightarrow> ('w, unit) kprog" where
  "enqueueEach [] = ret ()"
| "enqueueEach (a # as) = do { _ \<leftarrow> kEnqueue (agID a); enqueueEach as }"

definition resyncStored :: "'w kube \<Rightarrow> codec \<Rightarrow> ('w, unit kresult) kprog" where
  "resyncStored K cd = do {
     r \<leftarrow> ListAll K cd;
     case r of Inl e \<Rightarrow> ret (Inl e) | Inr agents \<Rightarrow> do { _ \<leftarrow> enqueueEach agents; ret (Inr ()) } }"

text \<open>A tick ignores the errors of both sweeps.\<close>

definition controllerTick :: "'w kube \<Rightarrow> codec \<Rightarrow> ('w, unit) kprog" where
  "controllerTick K cd = do { _ \<leftarrow> resyncStored K cd; _ \<leftarrow> deleteOrphanClaims K cd; ret () }"

fun controllerTicks :: "'w kube \<Rightarrow> codec \<Rightarrow> nat \<Rightarrow> ('w, unit) kprog" where
  "controllerTicks K cd 0 = ret ()"
| "controllerTicks K cd (Suc n) = do { _ \<leftarrow> controllerTick K cd; controllerTicks K cd n }"

text \<open>\<open>Run\<close> until the context is cancelled after \<open>n\<close> ticks; it fails only if the first listing does.\<close>

definition RunController :: "'w kube \<Rightarrow> codec \<Rightarrow> nat \<Rightarrow> ('w, unit kresult) kprog" where
  "RunController K cd n = do {
     r \<leftarrow> resyncStored K cd;
     case r of Inl e \<Rightarrow> ret (Inl e) | Inr _ \<Rightarrow> do { _ \<leftarrow> controllerTicks K cd n; ret (Inr ()) } }"

section \<open>Watching\<close>

text \<open>
  What happens to a watch: it cannot be opened, it is opened, an object or something else arrives, the
  stream is closed, the context is cancelled. A watcher waits for its back-off, reads a stream, or has ended.
\<close>

datatype watchEvent = OpenFailed | Opened | Seen json | SeenOther | Closed | Cancelled

record watcher =
  waBackoff :: duration
  waStreaming :: bool
  waEnded :: bool

definition newWatcher :: watcher where
  "newWatcher = \<lparr>waBackoff = 100 * 1000000, waStreaming = False, waEnded = False\<rparr>"

text \<open>The events that can happen in a state; the result is the state and the identifiers enqueued.\<close>

fun watchStep :: "watchEvent \<Rightarrow> watcher \<Rightarrow> watcher \<times> string list" where
  "watchStep OpenFailed x =
     (if waEnded x \<or> waStreaming x then (x, []) else (x\<lparr>waBackoff := nextBackoff (waBackoff x)\<rparr>, []))"
| "watchStep Opened x =
     (if waEnded x \<or> waStreaming x then (x, []) else (x\<lparr>waBackoff := 100 * 1000000, waStreaming := True\<rparr>, []))"
| "watchStep (Seen obj) x = (if waEnded x \<or> \<not> waStreaming x then (x, []) else (x, [watchedID obj]))"
| "watchStep SeenOther x = (x, [])"
| "watchStep Closed x = (if waEnded x then (x, []) else (x\<lparr>waStreaming := False\<rparr>, []))"
| "watchStep Cancelled x = (x\<lparr>waStreaming := False, waEnded := True\<rparr>, [])"

fun watchRun :: "watchEvent list \<Rightarrow> watcher \<Rightarrow> watcher \<times> string list" where
  "watchRun [] x = (x, [])"
| "watchRun (ev # evs) x = (let (x1, i) = watchStep ev x; (x2, is) = watchRun evs x1 in (x2, i @ is))"

section \<open>What reaches the queue\<close>

text \<open>Every stored agent is enqueued at the start and the listing of orphans enqueues nothing.\<close>

lemma actions_enqueueEach:
  "actions (snd (run_state (enqueueEach as) s)) = actions s @ map (\<lambda>a. Enqueued (agID a)) as"
  by (induction as arbitrary: s) (simp_all add: State_Monad.return_def run_bind kEnqueue_def effect_def)

lemma resync_enqueues:
  assumes "run_state (ListAll K cd) s = (Inr agents, s1)"
  shows "fst (run_state (resyncStored K cd) s) = Inr () \<and>
    actions (snd (run_state (resyncStored K cd) s)) = actions s1 @ map (\<lambda>a. Enqueued (agID a)) agents"
  using assms actions_enqueueEach [of agents s1]
  by (simp add: resyncStored_def run_bind State_Monad.return_def case_prod_beta)

lemma run_controller_error: "fst (run_state (RunController K cd n) s) = Inl e \<longleftrightarrow> fst (run_state (resyncStored K cd) s) = Inl e"
  by (auto simp: RunController_def run_bind State_Monad.return_def case_prod_beta split: sum.splits)

text \<open>The delay of a watcher is that of its failures since it was last open.\<close>

lemma watchStep_backoff:
  assumes "\<exists>n. waBackoff x = backoffAfter n"
  shows "\<exists>n. waBackoff (fst (watchStep ev x)) = backoffAfter n"
proof (cases ev)
  case OpenFailed
  from assms obtain n where "waBackoff x = backoffAfter n" by blast
  then have "waBackoff (fst (watchStep ev x)) \<in> {backoffAfter n, backoffAfter (Suc n)}" using OpenFailed by auto
  then show ?thesis by blast
next
  case Opened
  then show ?thesis using assms by (auto intro: exI [of _ 0])
qed (use assms in auto)

lemma watch_backoff:
  "\<exists>n. waBackoff x = backoffAfter n \<Longrightarrow> \<exists>n. waBackoff (fst (watchRun evs x)) = backoffAfter n"
proof (induction evs arbitrary: x)
  case (Cons ev evs)
  then show ?case using watchStep_backoff [OF Cons.prems, of ev] by (simp add: case_prod_beta Let_def)
qed simp

text \<open>A watcher enqueues the identifiers of the objects of an open stream, in order.\<close>

lemma watch_enqueues:
  "waStreaming x \<Longrightarrow> \<not> waEnded x \<Longrightarrow> snd (watchRun (map Seen objs) x) = map watchedID objs"
  by (induction objs) (simp_all add: case_prod_beta Let_def)

end
