(* ===== verification/ControlPlane_Main.thy ===== *)
theory ControlPlane_Main
  imports Gateway_Props BuildInfo
begin

text \<open>
  The control plane's command, \<^verbatim>\<open>internal/controlplane/run.go\<close>: its flags, the construction of every
  part from the configuration, the start and the shutdown. The file system, the network, the clients of
  Kubernetes and the clock are a record of functions; every step is logged with its outcome. What the
  running parts do is modelled in their theories: here they are put together. Messages on stderr and the
  log are left out.
\<close>

section \<open>Configuration\<close>

type_synonym profileMap = "string \<rightharpoonup> string"

text \<open>\<open>String\<close>, for the order \<open>ord\<close> in which the map is ranged over, and \<open>Set\<close>, which refuses a value of another form.\<close>

definition profileText :: "string list \<Rightarrow> profileMap \<Rightarrow> string" where
  "profileText ord m =
     concat (case List.map_filter (\<lambda>p. map_option (\<lambda>pool. p @ ''='' @ pool) (m p)) ord of
         [] \<Rightarrow> [] | v # vs \<Rightarrow> v # map (\<lambda>w. '','' @ w) vs)"

definition setProfile :: "string \<Rightarrow> profileMap \<Rightarrow> profileMap option" where
  "setProfile value m =
     (case cutAt (CHR ''='') value of
        None \<Rightarrow> None
      | Some (profile, pool) \<Rightarrow> if profile = [] \<or> pool = [] then None else Some (m(profile \<mapsto> pool)))"

record runConfig =
  cxListen :: string
  cxNamespace :: string
  cxKubeconfig :: string
  cxContext :: string
  cxPrincipalsFile :: string
  cxAdaptersFile :: string
  cxPrivateKey :: string
  cxRouterURL :: string
  cxRouterTokenFile :: string
  cxRunnerPort :: int
  cxStorageProfiles :: profileMap
  cxSecretProfiles :: profileMap

definition defaultRunConfig :: runConfig where
  "defaultRunConfig =
     \<lparr>cxListen = '':8080'', cxNamespace = ''sandherd-system'', cxKubeconfig = [], cxContext = [],
      cxPrincipalsFile = ''/var/run/secrets/sandherd/principals.json'', cxAdaptersFile = ''/etc/sandherd/adapters.json'',
      cxPrivateKey = ''/var/run/secrets/sandherd/capability-private-key.pem'',
      cxRouterURL = ''http://sandbox-router-svc.agent-sandbox-system.svc.cluster.local:8080'',
      cxRouterTokenFile = ''/var/run/secrets/kubernetes.io/serviceaccount/token'', cxRunnerPort = 8080,
      cxStorageProfiles = [''default'' \<mapsto> []], cxSecretProfiles = Map.empty\<rparr>"

text \<open>The first component says whether the version is asked for.\<close>

definition controlFlagSet :: "(bool \<times> runConfig) flagSet" where
  "controlFlagSet =
     (let var = (\<lambda>upd. ValueFlag (\<lambda>v (b, c). Some (b, upd v c))) in
      [(''version'', BoolFlag (\<lambda>b (_, c). (b, c))),
       (''listen'', var (\<lambda>v c. c\<lparr>cxListen := v\<rparr>)),
       (''namespace'', var (\<lambda>v c. c\<lparr>cxNamespace := v\<rparr>)),
       (''kubeconfig'', var (\<lambda>v c. c\<lparr>cxKubeconfig := v\<rparr>)),
       (''context'', var (\<lambda>v c. c\<lparr>cxContext := v\<rparr>)),
       (''auth-principals-file'', var (\<lambda>v c. c\<lparr>cxPrincipalsFile := v\<rparr>)),
       (''adapter-config-file'', var (\<lambda>v c. c\<lparr>cxAdaptersFile := v\<rparr>)),
       (''capability-private-key-file'', var (\<lambda>v c. c\<lparr>cxPrivateKey := v\<rparr>)),
       (''sandbox-router-url'', var (\<lambda>v c. c\<lparr>cxRouterURL := v\<rparr>)),
       (''sandbox-router-token-file'', var (\<lambda>v c. c\<lparr>cxRouterTokenFile := v\<rparr>)),
       (''runner-port'', ValueFlag (\<lambda>v (b, c). map_option (\<lambda>n. (b, c\<lparr>cxRunnerPort := n\<rparr>)) (parseInt0 v))),
       (''storage-profile'', ValueFlag (\<lambda>v (b, c). map_option (\<lambda>m. (b, c\<lparr>cxStorageProfiles := m\<rparr>)) (setProfile v (cxStorageProfiles c)))),
       (''secret-profile'', ValueFlag (\<lambda>v (b, c). map_option (\<lambda>m. (b, c\<lparr>cxSecretProfiles := m\<rparr>)) (setProfile v (cxSecretProfiles c))))])"

text \<open>A storage class \<open>-\<close> stands for the default of the cluster.\<close>

definition clusterDefaults :: "profileMap \<Rightarrow> profileMap" where
  "clusterDefaults m = (\<lambda>p. map_option (\<lambda>s. if s = ''-'' then [] else s) (m p))"

definition incomplete :: "runConfig \<Rightarrow> bool" where
  "incomplete c \<longleftrightarrow> cxNamespace c = [] \<or> cxPrincipalsFile c = [] \<or> cxAdaptersFile c = [] \<or> cxStorageProfiles c = Map.empty \<or>
     cxPrivateKey c = [] \<or> cxRouterURL c = [] \<or> cxRouterTokenFile c = [] \<or> cxRunnerPort c < 1 \<or> cxRunnerPort c > 65535"

text \<open>\<open>None\<close>: only the version is asked for. \<open>flagError\<close> is the text of an error of the flag package.\<close>

definition parseRunConfig :: "(string list \<Rightarrow> goerror) \<Rightarrow> string list \<Rightarrow> runConfig option result" where
  "parseRunConfig flagError args =
     (case parseFlags controlFlagSet (False, defaultRunConfig) args of
        None \<Rightarrow> Inl (flagError args)
      | Some ((showVersion, c0), rest) \<Rightarrow>
          if rest \<noteq> [] then Inl ''unexpected arguments''
          else if showVersion then Inr None
          else let c = c0\<lparr>cxStorageProfiles := clusterDefaults (cxStorageProfiles c0)\<rparr> in
            if incomplete c then Inl ''namespace, adapter configuration, storage, and gateway routing are required''
            else Inr (Some c))"

section \<open>The environment\<close>

text \<open>The parts of a configuration of the Kubernetes client that the command sets; \<open>'k\<close> is the rest of it.\<close>

record 'k restConfig =
  rsCluster :: 'k
  rsUserAgent :: string
  rsQPS :: int
  rsBurst :: int

text \<open>The parts of the running control plane.\<close>

record 'v system =
  syServer :: "'v gatewayWorld server"
  syKube :: "'v gatewayWorld kube"
  syNamespace :: string
  syGateway :: "'v gatewayWorld gateway"
  syReconciler :: Reconciler
  syController :: ctl
  syEvents :: EventBus

datatype systemEnd = SignalEnd | ControllerEnd "goerror option" | ServerEnd "goerror option"

datatype 'v controlAct =
    Loaded string bool
  | Connected bool
  | ListenedOn string bool
  | ListedAgents bool
  | ServeSystem "'v system" systemEnd
  | ShutDown bool
  | ListenerClosed
  | VersionPrinted string

text \<open>
  \<open>cpFiles\<close> is the file system at a moment, \<open>cpServe\<close> how the running system ends: \<open>ServerEnd None\<close> is the
  end of the server without an error or with \<^verbatim>\<open>http.ErrServerClosed\<close>. \<open>cpInCluster\<close>, \<open>cpClientConfig\<close> and
  \<open>cpNewClient\<close> are functions of client-go.
\<close>

record ('v, 'k) controlEnv =
  cpFiles :: "'v gatewayWorld \<Rightarrow> fileSystem \<times> 'v gatewayWorld"
  cpInCluster :: "'v gatewayWorld \<Rightarrow> 'k option \<times> 'v gatewayWorld"
  cpClientConfig :: "string option \<Rightarrow> string \<Rightarrow> 'v gatewayWorld \<Rightarrow> (goerror + 'k) \<times> 'v gatewayWorld"
  cpNewClient :: "'k restConfig \<Rightarrow> goerror + 'v gatewayWorld kube"
  cpListen :: "string \<Rightarrow> 'v gatewayWorld \<Rightarrow> (goerror + unit) \<times> 'v gatewayWorld"
  cpServe :: "'v system \<Rightarrow> 'v gatewayWorld \<Rightarrow> systemEnd \<times> 'v gatewayWorld"
  cpShutdown :: "'v gatewayWorld \<Rightarrow> goerror option \<times> 'v gatewayWorld"
  cpGateway :: "'v gatewayWorld gatewayEnv"
  cpCodec :: codec
  cpPEM :: "string \<Rightarrow> string option"
  cpX509 :: "string \<Rightarrow> parsedKey result"
  cpScanner :: scanner
  cpJsonError :: "string \<Rightarrow> goerror"
  cpRouterURL :: "string \<Rightarrow> gatewayURL option"
  cpURLParse :: urlParser
  cpQuantity :: "string \<Rightarrow> bool"
  cpPathEscape :: "string \<Rightarrow> string"
  cpAdapterIDs :: "string list"
  cpErrorText :: "kerror \<Rightarrow> goerror"
  cpFlagError :: "string list \<Rightarrow> goerror"
  cpInfo :: Info

type_synonym ('v, 'a) controlProg = "('v gatewayWorld, 'v controlAct, goerror + 'a) prog"

text \<open>A program with a log of its own, of which only the effects on the world and the outcome are kept.\<close>

definition embedded :: "('r \<Rightarrow> 'e) \<Rightarrow> ('w, 'f, 'r) prog \<Rightarrow> ('w, 'e, 'r) prog" where
  "embedded ev m = withOutcome ev (\<lambda>w. let (r, t) = run_state m \<lparr>world = w, actions = []\<rparr> in (r, world t))"

definition described :: "string \<Rightarrow> 'a result \<Rightarrow> 'a result" where
  "described what r = (case r of Inl e \<Rightarrow> Inl (what @ e) | Inr x \<Rightarrow> Inr x)"

text \<open>A computation on the files as they are now.\<close>

definition loading :: "('v, 'k) controlEnv \<Rightarrow> string \<Rightarrow> (fileSystem \<Rightarrow> 'a result) \<Rightarrow> ('v, 'a) controlProg" where
  "loading E p f = withOutcome (\<lambda>r. Loaded p (isOK r)) (\<lambda>w. let (fs, w') = cpFiles E w in (f fs, w'))"

section \<open>Construction\<close>

definition loadAdapters :: "('v, 'k) controlEnv \<Rightarrow> runConfig \<Rightarrow> ('v, Registry) controlProg" where
  "loadAdapters E c = loading E (cxAdaptersFile c) (\<lambda>fs. described ''configure agent adapters: ''
     (LoadRegistry (cdPrintable (cpCodec E)) (cpScanner E) (cpJsonError E) cleanPath fs (cxAdaptersFile c)))"

definition loadPrincipals :: "('v, 'k) controlEnv \<Rightarrow> runConfig \<Rightarrow> ('v, string) controlProg" where
  "loadPrincipals E c = loading E (cxPrincipalsFile c) (\<lambda>fs. described ''configure API authentication: ''
     (NewFileAuthenticator (cpScanner E) (cpJsonError E) cleanPath fs (cxPrincipalsFile c)))"

definition readWhole :: "fileSystem \<Rightarrow> string \<Rightarrow> string result" where
  "readWhole fs p = (case fs p of Inl e \<Rightarrow> Inl e | Inr r \<Rightarrow> r)"

definition loadSigner :: "('v, 'k) controlEnv \<Rightarrow> runConfig \<Rightarrow> ('v, Signer) controlProg" where
  "loadSigner E c =
     attempt (loading E (cxPrivateKey c) (\<lambda>fs. described ''read capability private key: '' (readWhole fs (cleanPath (cxPrivateKey c))))) (\<lambda>contents.
       ret (case described ''parse capability private key: '' (ParsePrivateKeyPEM (cpPEM E) (cpX509 E) contents) of
           Inl e \<Rightarrow> Inl e
         | Inr key \<Rightarrow> NewSigner key (30 * second)))"

definition loadKubeConfig :: "('v, 'k) controlEnv \<Rightarrow> runConfig \<Rightarrow> ('v gatewayWorld, 'v controlAct, goerror + 'k) prog" where
  "loadKubeConfig E c = do {
     inCluster \<leftarrow> (if cxKubeconfig c = [] then ask (cpInCluster E) else ret None);
     case inCluster of
       Some k \<Rightarrow> ret (Inr k)
     | None \<Rightarrow> do {
         r \<leftarrow> ask (cpClientConfig E (if cxKubeconfig c \<noteq> [] then Some (cxKubeconfig c) else None) (cxContext c));
         ret (described ''load Kubernetes configuration: '' r) } }"

definition connect :: "('v, 'k) controlEnv \<Rightarrow> runConfig \<Rightarrow> ('v, 'v gatewayWorld kube) controlProg" where
  "connect E c =
     attempt (loadKubeConfig E c) (\<lambda>k.
       let rest = \<lparr>rsCluster = k, rsUserAgent = ''sandherd-control-plane/'' @ biVersion (cpInfo E), rsQPS = 20, rsBurst = 40\<rparr> in
       withOutcome (\<lambda>r. Connected (isOK r)) (\<lambda>w. (described ''create Kubernetes client: '' (cpNewClient E rest), w)))"

definition listening :: "('v, 'k) controlEnv \<Rightarrow> string \<Rightarrow> ('v, unit) controlProg" where
  "listening E a = do {
     r \<leftarrow> withOutcome (\<lambda>r. ListenedOn a (isOK r)) (cpListen E a);
     ret (described (''listen on '' @ a @ '': '') r) }"

text \<open>The gateway asks the repository for runners; its limiter becomes part of the world.\<close>

definition buildGateway ::
  "('v, 'k) controlEnv \<Rightarrow> runConfig \<Rightarrow> Signer \<Rightarrow> 'v gatewayWorld kube \<Rightarrow> ('v, 'v gatewayWorld gateway) controlProg" where
  "buildGateway E c signer K =
     (case described ''configure terminal gateway: '' (NewGateway (cpRouterURL E)
         \<lparr>cfResolver = Some (ResolveRunner K (cpCodec E) (cxNamespace c)), cfSigner = Some signer, cfEvents = True, cfLogger = True,
          cfRouterURL = cxRouterURL c, cfRouterTokenFile = cxRouterTokenFile c, cfRunnerPort = cxRunnerPort c, cfLimits = DefaultLimits\<rparr>) of
        Inl e \<Rightarrow> ret (Inl e)
      | Inr (g, limiter) \<Rightarrow> do { _ \<leftarrow> ask (\<lambda>w. ((), w\<lparr>gwLimiter := limiter\<rparr>)); ret (Inr g) })"

definition buildReconciler :: "runConfig \<Rightarrow> Registry \<Rightarrow> Reconciler" where
  "buildReconciler c adapters =
     ConfigureWorkspaceProfiles (Some (cxStorageProfiles c)) (Some (cxSecretProfiles c)) (NewReconciler (cxNamespace c) adapters True)"

text \<open>The credential file is read for every request, as it is then.\<close>

definition buildServer :: "('v, 'k) controlEnv \<Rightarrow> runConfig \<Rightarrow> Registry \<Rightarrow> string \<Rightarrow> 'v gatewayWorld gateway \<Rightarrow> 'v gatewayWorld server" where
  "buildServer E c adapters principals g =
     \<lparr>svNamespace = cxNamespace c, svAdapters = adapters, svAdapterIDs = cpAdapterIDs E,
      svAuthenticate = (\<lambda>bearer w. let (fs, w') = cpFiles E w in (Authenticate (cpScanner E) (cpJsonError E) fs principals bearer, w')),
      svReady = Some True,
      svTerminal = Some (\<lambda>req owner i rid can. ServeTerminal (cpGateway E) g req owner i rid can),
      svQuantity = cpQuantity E, svScanner = cpScanner E, svJsonError = cpJsonError E, svURLParse = cpURLParse E,
      svPathEscape = cpPathEscape E\<rparr>"

definition buildSystem ::
  "('v, 'k) controlEnv \<Rightarrow> runConfig \<Rightarrow> Registry \<Rightarrow> string \<Rightarrow> 'v gatewayWorld kube \<Rightarrow> 'v gatewayWorld gateway \<Rightarrow> 'v system" where
  "buildSystem E c adapters principals K g =
     \<lparr>syServer = buildServer E c adapters principals g, syKube = K, syNamespace = cxNamespace c, syGateway = g,
      syReconciler = buildReconciler c adapters, syController = NewController, syEvents = NewEventBus 2048\<rparr>"

definition verifyAccess :: "('v, 'k) controlEnv \<Rightarrow> 'v gatewayWorld kube \<Rightarrow> ('v, unit) controlProg" where
  "verifyAccess E K = do {
     r \<leftarrow> embedded (\<lambda>r. ListedAgents (isOK r)) (ListAll K (cpCodec E));
     ret (case r of Inl e \<Rightarrow> Inl (''verify Agent API access: '' @ cpErrorText E e) | Inr _ \<Rightarrow> Inr ()) }"

definition shutDown :: "('v, 'k) controlEnv \<Rightarrow> ('v, unit) controlProg" where
  "shutDown E = do {
     r \<leftarrow> withOutcome (\<lambda>r. ShutDown (r = None)) (cpShutdown E);
     ret (case r of None \<Rightarrow> Inr () | Some e \<Rightarrow> Inl (''shut down control-plane API: '' @ e)) }"

definition serveSystem :: "('v, 'k) controlEnv \<Rightarrow> 'v system \<Rightarrow> ('v, unit) controlProg" where
  "serveSystem E y = do {
     e \<leftarrow> withOutcome (ServeSystem y) (cpServe E y);
     case e of
       SignalEnd \<Rightarrow> shutDown E
     | ControllerEnd None \<Rightarrow> shutDown E
     | ControllerEnd (Some t) \<Rightarrow> ret (Inl (''run lifecycle controller: '' @ t))
     | ServerEnd None \<Rightarrow> shutDown E
     | ServerEnd (Some t) \<Rightarrow> ret (Inl (''serve control-plane API: '' @ t)) }"

definition assemble ::
  "('v, 'k) controlEnv \<Rightarrow> runConfig \<Rightarrow> Registry \<Rightarrow> string \<Rightarrow> Signer \<Rightarrow> 'v gatewayWorld kube \<Rightarrow> ('v, unit) controlProg" where
  "assemble E c adapters principals signer K =
     attempt (buildGateway E c signer K) (\<lambda>g.
     attempt (verifyAccess E K) (\<lambda>_. serveSystem E (buildSystem E c adapters principals K g)))"

definition executeControl :: "('v, 'k) controlEnv \<Rightarrow> runConfig \<Rightarrow> ('v, unit) controlProg" where
  "executeControl E c =
     attempt (loadAdapters E c) (\<lambda>adapters.
     attempt (loadPrincipals E c) (\<lambda>principals.
     attempt (loadSigner E c) (\<lambda>signer.
     attempt (connect E c) (\<lambda>K.
     attempt (listening E (cxListen c)) (\<lambda>_. do {
       r \<leftarrow> assemble E c adapters principals signer K;
       _ \<leftarrow> noted ListenerClosed;
       ret r })))))"

definition RunControlPlane :: "('v, 'k) controlEnv \<Rightarrow> string list \<Rightarrow> ('v gatewayWorld, 'v controlAct, int) prog" where
  "RunControlPlane E args =
     (case parseRunConfig (cpFlagError E) args of
        Inl _ \<Rightarrow> ret 2
      | Inr None \<Rightarrow> do { _ \<leftarrow> noted (VersionPrinted (WriteInfo (cpInfo E) ''control-plane'')); ret 0 }
      | Inr (Some c) \<Rightarrow> do {
          r \<leftarrow> executeControl E c;
          ret (case r of Inl _ \<Rightarrow> 1 | Inr _ \<Rightarrow> 0) })"

end
