(* ===== verification/Runner_Main.thy ===== *)
theory Runner_Main
  imports Server_Run Lifecycle Effects BuildInfo GoPath
begin

text \<open>
  The runner's command, \<^verbatim>\<open>internal/runner/run.go\<close> and \<^verbatim>\<open>id.go\<close>: from its arguments and environment to
  the server that runs one agent, and the shutdown. The operating system, the network and the clock
  are a record of functions on a state that others may change; every call is logged with its outcome.
  The hub and the process change while the server runs: that is the transition system of
  \<open>Hub_Steps\<close>, which starts from what is handed to the server here. Messages on stderr and the log
  are left out.
\<close>

section \<open>Identifiers\<close>

unbundle bit_operations_syntax

definition dashed :: "byte list \<Rightarrow> string" where
  "dashed v =
     hexBytes (take 4 v) @ ''-'' @ hexBytes (take 2 (drop 4 v)) @ ''-'' @ hexBytes (take 2 (drop 6 v)) @ ''-'' @
     hexBytes (take 2 (drop 8 v)) @ ''-'' @ hexBytes (take 6 (drop 10 v))"

definition newID :: "byte list \<Rightarrow> string" where
  "newID rnd =
     (let v1 = rnd[6 := (rnd ! 6 AND 0x0f) OR 0x40];
          v2 = v1[8 := (v1 ! 8 AND 0x3f) OR 0x80]
      in dashed v2)"

section \<open>Configuration\<close>

record runnerConfig =
  rcAgentID :: string
  rcListen :: string
  rcAuthTokenFile :: string
  rcObserveTokenFile :: string
  rcCapabilityKey :: string
  rcDirectory :: string
  rcReplayBytes :: int
  rcReplayFrames :: int
  rcSubscriberBuffer :: int
  rcLease :: duration
  rcStopGrace :: duration
  rcAttachTimeout :: duration
  rcWriteTimeout :: duration
  rcSize :: TerminalSize
  rcCommand :: "string list"
  rcHealthCheck :: "string list"

record runnerFlags =
  rfVersion :: bool
  rfColumns :: nat
  rfRows :: nat
  rfConfig :: runnerConfig

definition defaultConfig :: runnerConfig where
  "defaultConfig =
     \<lparr>rcAgentID = [], rcListen = '':8080'', rcAuthTokenFile = ''/var/run/secrets/sandherd/token'',
      rcObserveTokenFile = [], rcCapabilityKey = [], rcDirectory = ''.'', rcReplayBytes = 4 * 1024 * 1024,
      rcReplayFrames = 4096, rcSubscriberBuffer = 256, rcLease = 30 * second, rcStopGrace = 10 * second,
      rcAttachTimeout = 10 * second, rcWriteTimeout = 5 * second,
      rcSize = \<lparr>Columns = 0, Rows = 0, PixelWidth = 0, PixelHeight = 0\<rparr>, rcCommand = [], rcHealthCheck = []\<rparr>"

definition configVar :: "(string \<Rightarrow> 'a option) \<Rightarrow> ('a \<Rightarrow> runnerConfig \<Rightarrow> runnerConfig) \<Rightarrow> runnerFlags commandFlag" where
  "configVar parse upd = parsedVar parse (\<lambda>v f. f\<lparr>rfConfig := upd v (rfConfig f)\<rparr>)"

definition runnerFlagSet :: "(string \<Rightarrow> duration option) \<Rightarrow> runnerFlags flagSet" where
  "runnerFlagSet parseDuration =
     [(''version'', BoolFlag (\<lambda>b f. f\<lparr>rfVersion := b\<rparr>)),
      (''agent-id'', configVar Some (\<lambda>v c. c\<lparr>rcAgentID := v\<rparr>)),
      (''listen'', configVar Some (\<lambda>v c. c\<lparr>rcListen := v\<rparr>)),
      (''auth-token-file'', configVar Some (\<lambda>v c. c\<lparr>rcAuthTokenFile := v\<rparr>)),
      (''observe-token-file'', configVar Some (\<lambda>v c. c\<lparr>rcObserveTokenFile := v\<rparr>)),
      (''capability-public-key-file'', configVar Some (\<lambda>v c. c\<lparr>rcCapabilityKey := v\<rparr>)),
      (''working-directory'', configVar Some (\<lambda>v c. c\<lparr>rcDirectory := v\<rparr>)),
      (''replay-bytes'', configVar parseInt0 (\<lambda>v c. c\<lparr>rcReplayBytes := v\<rparr>)),
      (''replay-frames'', configVar parseInt0 (\<lambda>v c. c\<lparr>rcReplayFrames := v\<rparr>)),
      (''subscriber-buffer'', configVar parseInt0 (\<lambda>v c. c\<lparr>rcSubscriberBuffer := v\<rparr>)),
      (''controller-lease'', configVar parseDuration (\<lambda>v c. c\<lparr>rcLease := v\<rparr>)),
      (''stop-grace'', configVar parseDuration (\<lambda>v c. c\<lparr>rcStopGrace := v\<rparr>)),
      (''attach-timeout'', configVar parseDuration (\<lambda>v c. c\<lparr>rcAttachTimeout := v\<rparr>)),
      (''write-timeout'', configVar parseDuration (\<lambda>v c. c\<lparr>rcWriteTimeout := v\<rparr>)),
      (''columns'', parsedVar parseUint0 (\<lambda>v f. f\<lparr>rfColumns := v\<rparr>)),
      (''rows'', parsedVar parseUint0 (\<lambda>v f. f\<lparr>rfRows := v\<rparr>))]"

definition defaultRunnerFlags :: runnerFlags where
  "defaultRunnerFlags = \<lparr>rfVersion = False, rfColumns = 120, rfRows = 40, rfConfig = defaultConfig\<rparr>"

text \<open>A command in an environment variable is a JSON array; an unset variable leaves the value as it is.\<close>

definition fromJSON :: "scanner \<Rightarrow> string \<Rightarrow> string list \<Rightarrow> string list option" where
  "fromJSON parse val unset =
     (if val = [] then Some unset
      else case unmarshalText parse val of None \<Rightarrow> None | Some v \<Rightarrow> decStrings v)"

definition badCommand :: "string list \<Rightarrow> bool" where
  "badCommand cmd = (length cmd > 64 \<or> \<not> IsAbs (hd cmd))"

definition badArgument :: "string \<Rightarrow> bool" where
  "badArgument a = (length a > 4096 \<or> CHR 0x00 \<in> set a)"

text \<open>The checks on a configuration whose commands are known, in the order they are made.\<close>

definition checkConfig :: "nat \<Rightarrow> nat \<Rightarrow> runnerConfig \<Rightarrow> runnerConfig result" where
  "checkConfig columns rows c =
     (if rcAgentID c = [] \<or> \<not> looksLikeUUID (rcAgentID c) then Inl ''invalid agent ID''
      else if rcCommand c = [] then Inl ''missing agent command''
      else if badCommand (rcCommand c) then Inl ''invalid agent command''
      else if list_ex badArgument (rcCommand c) then Inl ''invalid agent command''
      else if rcHealthCheck c = [] \<or> badCommand (rcHealthCheck c) then Inl ''invalid adapter health check''
      else if list_ex badArgument (rcHealthCheck c) then Inl ''invalid adapter health check''
      else if rcAuthTokenFile c = [] \<and> rcCapabilityKey c = [] then Inl ''missing authentication method''
      else if rcAuthTokenFile c = [] \<and> rcObserveTokenFile c \<noteq> [] then Inl ''observe token without static control token''
      else if columns = 0 \<or> columns > 1000 \<or> rows = 0 \<or> rows > 1000 then Inl ''invalid terminal size''
      else let r = c\<lparr>rcSize := \<lparr>Columns = of_nat columns, Rows = of_nat rows, PixelWidth = 0, PixelHeight = 0\<rparr>\<rparr> in
        if rcReplayBytes r < 1 \<or> rcReplayFrames r < 1 \<or> rcSubscriberBuffer r < 1 then Inl ''invalid buffer limit''
        else if rcLease r \<le> 0 \<or> rcStopGrace r \<le> 0 \<or> rcAttachTimeout r \<le> 0 \<or> rcWriteTimeout r \<le> 0 then Inl ''invalid duration''
        else Inr r)"

text \<open>
  \<open>None\<close>: only the version is asked for. \<open>flagError\<close> is the text of an error of the flag package.
\<close>

definition parseConfig ::
  "(string list \<Rightarrow> goerror) \<Rightarrow> (string \<Rightarrow> duration option) \<Rightarrow> scanner \<Rightarrow> (string \<Rightarrow> string) \<Rightarrow> string list \<Rightarrow>
     runnerConfig option result" where
  "parseConfig flagError parseDuration parse getenv args =
     (case parseFlags (runnerFlagSet parseDuration) defaultRunnerFlags args of
        None \<Rightarrow> Inl (flagError args)
      | Some (f, rest) \<Rightarrow>
          if rfVersion f then (if rest \<noteq> [] then Inl ''unexpected arguments'' else Inr None)
          else case (if rest = [] then fromJSON parse (getenv ''SANDHERD_AGENT_COMMAND_JSON'') [] else Some rest) of
            None \<Rightarrow> Inl ''invalid agent command''
          | Some cmd \<Rightarrow>
              (case fromJSON parse (getenv ''SANDHERD_AGENT_HEALTH_CHECK_JSON'') [] of
                 None \<Rightarrow> Inl ''invalid adapter health check''
               | Some check \<Rightarrow>
                   (case checkConfig (rfColumns f) (rfRows f) ((rfConfig f)\<lparr>rcCommand := cmd, rcHealthCheck := check\<rparr>) of
                      Inl e \<Rightarrow> Inl e
                    | Inr c \<Rightarrow> Inr (Some c))))"

section \<open>The environment\<close>

text \<open>What \<^verbatim>\<open>os.Stat\<close> reports: \<open>Missing\<close> is an error for which \<^verbatim>\<open>os.IsNotExist\<close> holds.\<close>

datatype statResult = Present | Missing goerror | StatFailed goerror

datatype serveEnd = ShutdownAsked | ServerEnded "goerror option"

record apiServer =
  asHub :: hub
  asProcess :: agentProcess
  asAuth :: "authenticator list"
  asStopGrace :: duration
  asAttachTimeout :: duration
  asWriteTimeout :: duration

text \<open>
  What the runner does, with the outcome: \<open>Started\<close> is the start of the agent in its directory with
  its environment, \<open>Serve\<close> the API running until it ends or a signal
  asks for the end.
\<close>

datatype runnerAct =
    Stated string statResult
  | FileRead string bool
  | HealthChecked "string list" string bool
  | Listened string bool
  | Started "string list" string "string list" TerminalSize bool
  | Serve apiServer serveEnd
  | TerminateAgent duration
  | ServerShutdown bool
  | CloseHub
  | CloseListener
  | Printed string

text \<open>
  \<open>reServe\<close> reports how serving ended; an end with \<^verbatim>\<open>http.ErrServerClosed\<close> is \<open>ServerEnded None\<close>.
  \<open>rePEM\<close> and \<open>reX509\<close> are \<^verbatim>\<open>pem.Decode\<close> and \<^verbatim>\<open>x509.ParsePKIXPublicKey\<close>.
\<close>

record 'v runnerEnv =
  reStat :: "string \<Rightarrow> 'v \<Rightarrow> statResult \<times> 'v"
  reReadFile :: "string \<Rightarrow> 'v \<Rightarrow> (goerror + string) \<times> 'v"
  reRunCheck :: "string list \<Rightarrow> string \<Rightarrow> string list \<Rightarrow> 'v \<Rightarrow> bool \<times> 'v"
  reListen :: "string \<Rightarrow> 'v \<Rightarrow> (goerror + unit) \<times> 'v"
  reStartPTY :: "string list \<Rightarrow> string \<Rightarrow> string list \<Rightarrow> TerminalSize \<Rightarrow> 'v \<Rightarrow> (goerror + int) \<times> 'v"
  reServe :: "apiServer \<Rightarrow> 'v \<Rightarrow> serveEnd \<times> 'v"
  reTerminate :: "duration \<Rightarrow> 'v \<Rightarrow> 'v"
  reShutdown :: "'v \<Rightarrow> goerror option \<times> 'v"
  reRandom :: "'v \<Rightarrow> byte list \<times> 'v"
  reNow :: "'v \<Rightarrow> time \<times> 'v"
  rePEM :: "string \<Rightarrow> string option"
  reX509 :: "string \<Rightarrow> parsedKey result"
  reEnviron :: "string list"
  reGetenv :: "string \<Rightarrow> string"
  reScanner :: scanner
  reParseDuration :: "string \<Rightarrow> duration option"
  reFlagError :: "string list \<Rightarrow> goerror"
  reInfo :: Info

type_synonym ('v, 'a) runProg = "('v, runnerAct, goerror + 'a) prog"

definition readFile :: "'v runnerEnv \<Rightarrow> string \<Rightarrow> ('v, string) runProg" where
  "readFile E p = withOutcome (\<lambda>r. FileRead p (isOK r)) (reReadFile E p)"

definition annotate :: "string \<Rightarrow> ('v, 'a) runProg \<Rightarrow> ('v, 'a) runProg" where
  "annotate what m = State_Monad.bind m (\<lambda>r. ret (case r of Inl e \<Rightarrow> Inl (what @ '': '' @ e) | Inr x \<Rightarrow> Inr x))"

section \<open>Before the agent starts\<close>

definition kubernetesServiceAccountToken :: string where
  "kubernetesServiceAccountToken = ''/var/run/secrets/kubernetes.io/serviceaccount/token''"

definition refuseServiceAccount :: "'v runnerEnv \<Rightarrow> ('v, unit) runProg" where
  "refuseServiceAccount E = do {
     r \<leftarrow> withOutcome (Stated kubernetesServiceAccountToken) (reStat E kubernetesServiceAccountToken);
     ret (case r of
         Present \<Rightarrow> Inl (''refusing to start with a Kubernetes service-account token mounted at '' @ kubernetesServiceAccountToken)
       | Missing _ \<Rightarrow> Inr ()
       | StatFailed e \<Rightarrow> Inl (''inspect Kubernetes service-account token: '' @ e)) }"

definition readTokenFile :: "'v runnerEnv \<Rightarrow> string \<Rightarrow> ('v, string) runProg" where
  "readTokenFile E p =
     attempt (readFile E (cleanPath p)) (\<lambda>contents.
       let token = trimSpace contents in
       ret (if length token < 16 then Inl ''token must contain at least 16 non-whitespace bytes'' else Inr token))"

text \<open>The control token, the observe token, and the authenticator made of them.\<close>

definition controlToken :: "'v runnerEnv \<Rightarrow> runnerConfig \<Rightarrow> ('v, string) runProg" where
  "controlToken E c =
     (if rcAuthTokenFile c \<noteq> [] then annotate ''read control token'' (readTokenFile E (rcAuthTokenFile c)) else ret (Inr []))"

definition observeToken :: "'v runnerEnv \<Rightarrow> runnerConfig \<Rightarrow> string \<Rightarrow> ('v, string) runProg" where
  "observeToken E c control =
     (if rcObserveTokenFile c \<noteq> [] then
        attempt (annotate ''read observe token'' (readTokenFile E (rcObserveTokenFile c))) (\<lambda>observe.
          ret (if constantTimeEqual control observe then Inl ''control and observe tokens must differ'' else Inr observe))
      else ret (Inr []))"

definition staticAuth :: "'v runnerEnv \<Rightarrow> runnerConfig \<Rightarrow> ('v, authenticator list) runProg" where
  "staticAuth E c =
     attempt (controlToken E c) (\<lambda>control.
     attempt (observeToken E c control) (\<lambda>observe.
       ret (Inr (if control \<noteq> [] then [StaticAuth control observe] else []))))"

definition capabilityAuth :: "'v runnerEnv \<Rightarrow> runnerConfig \<Rightarrow> ('v, authenticator list) runProg" where
  "capabilityAuth E c =
     (if rcCapabilityKey c = [] then ret (Inr [])
      else attempt (annotate ''read capability public key'' (readFile E (cleanPath (rcCapabilityKey c)))) (\<lambda>contents.
        ret (case ParsePublicKeyPEM (rePEM E) (reX509 E) contents of
            Inl e \<Rightarrow> Inl (''parse capability public key: '' @ e)
          | Inr key \<Rightarrow>
              (case NewVerifier key of Inl e \<Rightarrow> Inl e | Inr v \<Rightarrow> Inr [CapabilityAuth (rcAgentID c) v]))))"

definition inspectDirectory :: "'v runnerEnv \<Rightarrow> runnerConfig \<Rightarrow> ('v, unit) runProg" where
  "inspectDirectory E c = do {
     r \<leftarrow> withOutcome (Stated (rcDirectory c)) (reStat E (rcDirectory c));
     ret (case r of
         Present \<Rightarrow> Inr ()
       | Missing e \<Rightarrow> Inl (''inspect working directory: '' @ e)
       | StatFailed e \<Rightarrow> Inl (''inspect working directory: '' @ e)) }"

definition runAdapterHealthCheck :: "'v runnerEnv \<Rightarrow> string list \<Rightarrow> string \<Rightarrow> string list \<Rightarrow> ('v, unit) runProg" where
  "runAdapterHealthCheck E check dir environment = do {
     passed \<leftarrow> withOutcome (HealthChecked check dir) (reRunCheck E check dir environment);
     ret (if passed then Inr () else Inl ''adapter health check failed'') }"

definition listenOn :: "'v runnerEnv \<Rightarrow> string \<Rightarrow> ('v, unit) runProg" where
  "listenOn E address = annotate (''listen on '' @ address) (withOutcome (\<lambda>r. Listened address (isOK r)) (reListen E address))"

section \<open>The agent and its server\<close>

definition startAgent :: "'v runnerEnv \<Rightarrow> runnerConfig \<Rightarrow> ('v, agentProcess) runProg" where
  "startAgent E c =
     (let p = newAgentProcess (rcCommand c) (rcDirectory c) (reEnviron E);
          environment = withTerminalEnvironment (reEnviron E) in
      if command p = [] then ret (start (\<lambda>_ _ _. Inl []) 0 (rcSize c) p)
      else do {
        r \<leftarrow> withOutcome (\<lambda>r. Started (rcCommand c) (rcDirectory c) environment (rcSize c) (isOK r))
               (reStartPTY E (rcCommand c) (rcDirectory c) environment (rcSize c));
        now \<leftarrow> ask (reNow E);
        ret (start (\<lambda>_ _ _. r) now (rcSize c) p) })"

definition terminateAgent :: "'v runnerEnv \<Rightarrow> runnerConfig \<Rightarrow> ('v, runnerAct, unit) prog" where
  "terminateAgent E c = effect (TerminateAgent (rcStopGrace c)) (\<lambda>w. ((), reTerminate E (rcStopGrace c) w))"

definition serverOf :: "runnerConfig \<Rightarrow> authenticator list \<Rightarrow> hub \<Rightarrow> agentProcess \<Rightarrow> apiServer" where
  "serverOf c auth h p =
     \<lparr>asHub = setProcess p h, asProcess = p, asAuth = auth, asStopGrace = rcStopGrace c,
      asAttachTimeout = rcAttachTimeout c, asWriteTimeout = rcWriteTimeout c\<rparr>"

definition serveAPI :: "'v runnerEnv \<Rightarrow> runnerConfig \<Rightarrow> apiServer \<Rightarrow> ('v, unit) runProg" where
  "serveAPI E c api = do {
     e \<leftarrow> withOutcome (Serve api) (reServe E api);
     case e of
       ServerEnded None \<Rightarrow> ret (Inr ())
     | ServerEnded (Some t) \<Rightarrow> do { _ \<leftarrow> terminateAgent E c; ret (Inl (''serve runner API: '' @ t)) }
     | ShutdownAsked \<Rightarrow> do {
         _ \<leftarrow> terminateAgent E c;
         r \<leftarrow> withOutcome (\<lambda>r. ServerShutdown (r = None)) (reShutdown E);
         ret (case r of None \<Rightarrow> Inr () | Some t \<Rightarrow> Inl (''shut down runner API: '' @ t)) } }"

definition hubOf :: "runnerConfig \<Rightarrow> byte list \<Rightarrow> hub" where
  "hubOf c rnd =
     newHub (rcAgentID c) (newID rnd) (rcReplayBytes c) (rcReplayFrames c) (nat (rcSubscriberBuffer c)) (rcLease c)"

definition runAgent :: "'v runnerEnv \<Rightarrow> runnerConfig \<Rightarrow> authenticator list \<Rightarrow> ('v, unit) runProg" where
  "runAgent E c auth = do {
     rnd \<leftarrow> ask (reRandom E);
     r \<leftarrow> attempt (startAgent E c) (\<lambda>p. serveAPI E c (serverOf c auth (hubOf c rnd) p));
     _ \<leftarrow> noted CloseHub;
     ret r }"

definition executeRunner :: "'v runnerEnv \<Rightarrow> runnerConfig \<Rightarrow> ('v, unit) runProg" where
  "executeRunner E c =
     attempt (refuseServiceAccount E) (\<lambda>_.
     attempt (staticAuth E c) (\<lambda>static.
     attempt (capabilityAuth E c) (\<lambda>scoped.
     attempt (inspectDirectory E c) (\<lambda>_.
     attempt (runAdapterHealthCheck E (rcHealthCheck c) (rcDirectory c) (reEnviron E)) (\<lambda>_.
     attempt (listenOn E (rcListen c)) (\<lambda>_. do {
       r \<leftarrow> runAgent E c (static @ scoped);
       _ \<leftarrow> noted CloseListener;
       ret r }))))))"

definition RunRunner :: "'v runnerEnv \<Rightarrow> string list \<Rightarrow> ('v, runnerAct, int) prog" where
  "RunRunner E args =
     (case parseConfig (reFlagError E) (reParseDuration E) (reScanner E) (reGetenv E) args of
        Inl _ \<Rightarrow> ret 2
      | Inr None \<Rightarrow> do { _ \<leftarrow> noted (Printed (WriteInfo (reInfo E) ''runner'')); ret 0 }
      | Inr (Some c) \<Rightarrow> do {
          r \<leftarrow> executeRunner E c;
          ret (case r of Inl _ \<Rightarrow> 1 | Inr _ \<Rightarrow> 0) })"

end
