(* ===== verification/Runner_Start.thy ===== *)
theory Runner_Start
  imports Runner_Main
begin

text \<open>
  What the runner's command guarantees: which configurations it accepts, what has been checked when
  the agent starts and who is let in, that it ends only after it has terminated the agent, and that
  the server it starts is in a state from which the transition system of \<open>Hub_Steps\<close> describes it.
\<close>

section \<open>Accepted configurations\<close>

definition soundCommand :: "string list \<Rightarrow> bool" where
  "soundCommand cmd \<longleftrightarrow> cmd \<noteq> [] \<and> length cmd \<le> 64 \<and> IsAbs (hd cmd) \<and> (\<forall>a \<in> set cmd. length a \<le> 4096 \<and> CHR 0x00 \<notin> set a)"

definition soundConfig :: "runnerConfig \<Rightarrow> bool" where
  "soundConfig c \<longleftrightarrow> looksLikeUUID (rcAgentID c) \<and> soundCommand (rcCommand c) \<and> soundCommand (rcHealthCheck c) \<and>
     (rcAuthTokenFile c \<noteq> [] \<or> rcCapabilityKey c \<noteq> [] \<and> rcObserveTokenFile c = []) \<and>
     validateSize (rcSize c) = None \<and> PixelWidth (rcSize c) = 0 \<and> PixelHeight (rcSize c) = 0 \<and>
     1 \<le> rcReplayBytes c \<and> 1 \<le> rcReplayFrames c \<and> 1 \<le> rcSubscriberBuffer c \<and>
     0 < rcLease c \<and> 0 < rcStopGrace c \<and> 0 < rcAttachTimeout c \<and> 0 < rcWriteTimeout c"

lemma validateSize_small:
  assumes "1 \<le> columns" "columns \<le> 1000" "1 \<le> rows" "rows \<le> 1000"
  shows "validateSize \<lparr>Columns = of_nat columns, Rows = of_nat rows, PixelWidth = 0, PixelHeight = 0\<rparr> = None"
proof -
  have "unat (of_nat n :: uint16) = n" if "n \<le> 1000" for n
    using that by (simp add: unat_of_nat take_bit_nat_eq_self)
  then show ?thesis
    using assms by (simp add: validateSize_def word_less_nat_alt unat_eq_zero [symmetric])
qed

lemma soundCommand_iff: "soundCommand cmd \<longleftrightarrow> cmd \<noteq> [] \<and> \<not> badCommand cmd \<and> \<not> list_ex badArgument cmd"
  by (auto simp: soundCommand_def badCommand_def badArgument_def list_ex_iff not_less)

lemma checkConfig_sound: "checkConfig columns rows c0 = Inr c \<Longrightarrow> soundConfig c"
  by (auto simp: checkConfig_def soundConfig_def soundCommand_iff Let_def not_less not_le intro!: validateSize_small split: if_splits)

lemma checkConfig_kept:
  assumes "checkConfig columns rows c0 = Inr c"
  shows "rcCommand c = rcCommand c0" "rcHealthCheck c = rcHealthCheck c0" "rcAgentID c = rcAgentID c0"
  using assms by (auto simp: checkConfig_def Let_def split: if_splits)

lemma parseConfig_sound: "parseConfig flagError parseDuration parse getenv args = Inr (Some c) \<Longrightarrow> soundConfig c"
  by (auto simp: parseConfig_def split: option.splits prod.splits if_splits sum.splits intro: checkConfig_sound)

section \<open>The order of the start\<close>

fun trusted :: "runnerConfig \<Rightarrow> authenticator \<Rightarrow> bool" where
  "trusted c (StaticAuth control observe) \<longleftrightarrow> 16 \<le> length control \<and> (observe = [] \<or> 16 \<le> length observe \<and> observe \<noteq> control)"
| "trusted c (CapabilityAuth agent v) \<longleftrightarrow> agent = rcAgentID c \<and> length (publicKey v) = 32 \<and> used v = Map.empty"

fun isStart :: "runnerAct \<Rightarrow> bool" where
  "isStart (Started cmd dir env sz ok) = True"
| "isStart _ = False"

text \<open>What may happen after the history \<open>h\<close>.\<close>

definition agentOf :: "'v runnerEnv \<Rightarrow> runnerConfig \<Rightarrow> int \<Rightarrow> time \<Rightarrow> agentProcess" where
  "agentOf E c pid now = (newAgentProcess (rcCommand c) (rcDirectory c) (reEnviron E))
     \<lparr>cmdPid := Some pid, terminal := Some \<lparr>ttyInput = [], ttySize = rcSize c, ttyClosed = False\<rparr>, startedAt := now\<rparr>"

abbreviation agentStart :: "'v runnerEnv \<Rightarrow> runnerConfig \<Rightarrow> bool \<Rightarrow> runnerAct" where
  "agentStart E c ok \<equiv> Started (rcCommand c) (rcDirectory c) (withTerminalEnvironment (reEnviron E)) (rcSize c) ok"

definition checkedBefore :: "runnerConfig \<Rightarrow> runnerAct list \<Rightarrow> bool" where
  "checkedBefore c h \<longleftrightarrow>
     (\<exists>e. Stated kubernetesServiceAccountToken (Missing e) \<in> set h) \<and>
     HealthChecked (rcHealthCheck c) (rcDirectory c) True \<in> set h \<and> Listened (rcListen c) True \<in> set h"

fun guarded :: "'v runnerEnv \<Rightarrow> runnerConfig \<Rightarrow> runnerAct list \<Rightarrow> runnerAct \<Rightarrow> bool" where
  "guarded E c h (Started cmd dir env sz ok) \<longleftrightarrow>
     Started cmd dir env sz ok = agentStart E c ok \<and> filter isStart h = [] \<and> checkedBefore c h"
| "guarded E c h (Serve api e) \<longleftrightarrow>
     agentStart E c True \<in> set h \<and> asAuth api \<noteq> [] \<and> list_all (trusted c) (asAuth api) \<and>
     (\<exists>rnd pid now. asProcess api = agentOf E c pid now \<and> asHub api = setProcess (agentOf E c pid now) (hubOf c rnd))"
| "guarded E c h (TerminateAgent grace) \<longleftrightarrow> grace = rcStopGrace c \<and> (\<exists>api e. Serve api e \<in> set h)"
| "guarded E c h (ServerShutdown ok) \<longleftrightarrow> TerminateAgent (rcStopGrace c) \<in> set h"
| "guarded E c h _ \<longleftrightarrow> True"

lemma yields_annotate: "yields P (okWith Q) m \<Longrightarrow> yields P (okWith Q) (annotate what m)"
  unfolding annotate_def
  by (erule yields_bind) (auto intro!: yields_return simp: okWith_def split: sum.splits)

section \<open>The phases\<close>

text \<open>Before the agent starts.\<close>

fun early :: "runnerAct \<Rightarrow> bool" where
  "early (Stated p r) = True"
| "early (FileRead p ok) = True"
| "early (HealthChecked cmd dir ok) = True"
| "early (Listened a ok) = True"
| "early _ = False"

lemma early_guarded: "early ev \<Longrightarrow> guarded E c h ev"
  by (cases ev) simp_all

lemma early_no_start: "list_all early as \<Longrightarrow> filter isStart as = []"
proof (induction as)
  case (Cons ev as)
  then show ?case by (cases ev) simp_all
qed simp

definition unstarted :: "(runnerAct list \<Rightarrow> bool) \<Rightarrow> runnerAct list \<Rightarrow> bool" where
  "unstarted H h \<longleftrightarrow> filter isStart h = [] \<and> H h"

lemma ordered_early:
  assumes "yields early (okWith Q) m" "lasting H"
  shows "ordered (unstarted H) (guarded E c) m (okAfter (\<lambda>x h. unstarted (\<lambda>h. H h \<and> Q x) h))"
  by (rule ordered_conseq [OF ordered_invariant [OF assms(1), where H = "unstarted H" and P = "guarded E c"]])
    (use assms(2) in \<open>auto simp: early_guarded unstarted_def early_no_start lasting_def okAfter_def okWith_def split: sum.splits\<close>)

lemma ordered_quiet:
  assumes "does early m" "lasting H"
  shows "ordered (unstarted H) (guarded E c) m (okAfter (\<lambda>_. unstarted H))"
  by (rule ordered_conseq [OF ordered_early [where Q = "\<lambda>_. True"]])
    (use assms in \<open>auto intro: yields_weaken simp: okWith_def okAfter_def split: sum.splits\<close>)

text \<open>Facts that do not depend on the history.\<close>

lemma ordered_facts:
  "(a \<Longrightarrow> b \<Longrightarrow> ordered (unstarted H) P m Q) \<Longrightarrow> ordered (unstarted (\<lambda>h. (H h \<and> a) \<and> b)) P m Q"
  by (cases "a \<and> b") (auto simp: ordered_def unstarted_def)

lemma yields_readFile: "does early (readFile E p)"
  unfolding readFile_def by (rule yields_withOutcome) simp

lemma yields_readTokenFile: "yields early (okWith (\<lambda>t. 16 \<le> length t)) (readTokenFile E p)"
  unfolding readTokenFile_def Let_def
  by (rule yields_attempt [where R = "\<lambda>_. True"], rule yields_weaken [OF yields_readFile])
    (auto intro!: yields_return simp: okWith_def split: sum.splits)

lemma yields_controlToken: "yields early (okWith (\<lambda>t. if rcAuthTokenFile c = [] then t = [] else 16 \<le> length t)) (controlToken E c)"
  by (auto simp: controlToken_def okWith_def intro!: yields_return yields_weaken [OF yields_annotate [OF yields_readTokenFile]] split: sum.splits)

lemma yields_observeToken:
  "yields early (okWith (\<lambda>t. t = [] \<or> 16 \<le> length t \<and> t \<noteq> control)) (observeToken E c control)"
  unfolding observeToken_def
  by (auto intro!: yields_return yields_attempt [OF yields_annotate [OF yields_readTokenFile]] simp: constantTimeEqual_def)

lemma yields_staticAuth:
  "yields early (okWith (\<lambda>as. list_all (trusted c) as \<and> (as = [] \<longrightarrow> rcAuthTokenFile c = []))) (staticAuth E c)"
  unfolding staticAuth_def
  by (rule yields_attempt [OF yields_controlToken], rule yields_attempt [OF yields_observeToken]) (auto intro!: yields_return split: if_splits)

lemma NewVerifier_ok: "NewVerifier key = Inr v \<Longrightarrow> length (publicKey v) = 32 \<and> used v = Map.empty"
  by (auto simp: NewVerifier_def split: if_splits)

lemma yields_capabilityAuth:
  "yields early (okWith (\<lambda>as. list_all (trusted c) as \<and> (as = [] \<longrightarrow> rcCapabilityKey c = []))) (capabilityAuth E c)"
proof (cases "rcCapabilityKey c = []")
  case True
  then show ?thesis by (auto simp: capabilityAuth_def intro: yields_return)
next
  case False
  have "yields early (okWith (\<lambda>_. True)) (annotate ''read capability public key'' (readFile E (cleanPath (rcCapabilityKey c))))"
    by (rule yields_annotate, rule yields_weaken [OF yields_readFile]) (simp add: okWith_def split: sum.splits)
  with False show ?thesis
    unfolding capabilityAuth_def
    by (auto intro!: yields_attempt yields_return split: sum.splits dest: NewVerifier_ok)
qed

lemma does_inspect: "does early (inspectDirectory E c)"
  unfolding inspectDirectory_def by (intro does_bind yields_withOutcome does_return) simp

lemma ordered_refuse:
  "ordered (unstarted (\<lambda>_. True)) (guarded E c) (refuseServiceAccount E)
     (okAfter (\<lambda>_ h. unstarted (\<lambda>h. \<exists>e. Stated kubernetesServiceAccountToken (Missing e) \<in> set h) h))"
  unfolding refuseServiceAccount_def
  by (rule ordered_bind [OF ordered_withOutcome [where Q = "\<lambda>r h. unstarted (\<lambda>h. Stated kubernetesServiceAccountToken r \<in> set h) h"]])
    (auto simp: unstarted_def intro!: ordered_return split: statResult.splits)

lemma ordered_check:
  assumes "lasting H"
  shows "ordered (unstarted H) (guarded E c) (runAdapterHealthCheck E check dir env)
     (okAfter (\<lambda>_ h. unstarted (\<lambda>h. H h \<and> HealthChecked check dir True \<in> set h) h))"
  unfolding runAdapterHealthCheck_def
  by (rule ordered_bind [OF ordered_withOutcome [where Q = "\<lambda>r h. unstarted (\<lambda>h. H h \<and> HealthChecked check dir r \<in> set h) h"]])
    (use assms in \<open>auto simp: unstarted_def lasting_def intro!: ordered_return\<close>)

lemma ordered_listen:
  assumes "lasting H"
  shows "ordered (unstarted H) (guarded E c) (listenOn E a) (okAfter (\<lambda>_ h. unstarted (\<lambda>h. H h \<and> Listened a True \<in> set h) h))"
  unfolding listenOn_def annotate_def
  by (rule ordered_bind [OF ordered_withOutcome [where Q = "\<lambda>r h. unstarted (\<lambda>h. H h \<and> Listened a (isOK r) \<in> set h) h"]])
    (use assms in \<open>auto simp: unstarted_def lasting_def isOK_def intro!: ordered_return split: sum.splits\<close>)

lemma start_ok:
  assumes "start outcome now sz (newAgentProcess cmd dir env) = Inr p"
  obtains pid where "cmd \<noteq> []" "outcome cmd dir (withTerminalEnvironment env) = Inr pid"
    "p = (newAgentProcess cmd dir env)
       \<lparr>cmdPid := Some pid, terminal := Some \<lparr>ttyInput = [], ttySize = sz, ttyClosed = False\<rparr>, startedAt := now\<rparr>"
  using assms by (auto simp: start_def newAgentProcess_def split: if_splits sum.splits)

definition runningAfter :: "'v runnerEnv \<Rightarrow> runnerConfig \<Rightarrow> agentProcess \<Rightarrow> runnerAct list \<Rightarrow> bool" where
  "runningAfter E c p h \<longleftrightarrow> agentStart E c True \<in> set h \<and> (\<exists>pid now. p = agentOf E c pid now)"

lemma ordered_start:
  "ordered (unstarted (checkedBefore c)) (guarded E c) (startAgent E c) (okAfter (runningAfter E c))"
proof (cases "rcCommand c = []")
  case True
  then show ?thesis
    by (auto simp: startAgent_def newAgentProcess_def start_def Let_def intro: ordered_return)
next
  case False
  have "ordered (unstarted (checkedBefore c)) (guarded E c)
      (withOutcome (\<lambda>r. agentStart E c (isOK r)) (reStartPTY E (rcCommand c) (rcDirectory c) (withTerminalEnvironment (reEnviron E)) (rcSize c)))
      (\<lambda>r h. isOK r \<longrightarrow> agentStart E c True \<in> set h)"
    by (rule ordered_withOutcome) (auto simp: unstarted_def)
  moreover have "ordered (\<lambda>h. isOK r \<longrightarrow> agentStart E c True \<in> set h) (guarded E c)
      (State_Monad.bind (ask (reNow E)) (\<lambda>now. ret (start (\<lambda>_ _ _. r) now (rcSize c) (newAgentProcess (rcCommand c) (rcDirectory c) (reEnviron E)))))
      (okAfter (runningAfter E c))" for r
    by (rule ordered_bind [OF ordered_ask], rule ordered_return)
      (auto simp: okAfter_def runningAfter_def agentOf_def isOK_def split: sum.splits elim!: start_ok)
  ultimately show ?thesis
    unfolding startAgent_def Let_def using False by (simp add: newAgentProcess_def) (erule ordered_bind)
qed

text \<open>Serving: the agent is terminated unless the server ended by itself without an error.\<close>

definition endedWell :: "runnerConfig \<Rightarrow> runnerAct list \<Rightarrow> bool" where
  "endedWell c h \<longleftrightarrow> (\<forall>api e. Serve api e \<in> set h \<longrightarrow> e = ServerEnded None \<or> TerminateAgent (rcStopGrace c) \<in> set h)"

fun isServe :: "runnerAct \<Rightarrow> bool" where
  "isServe (Serve api e) = True"
| "isServe _ = False"

definition unserved :: "runnerAct list \<Rightarrow> bool" where
  "unserved h \<longleftrightarrow> filter isServe h = []"

lemma unserved_endedWell: "unserved h \<Longrightarrow> endedWell c h"
  by (force simp: unserved_def endedWell_def filter_empty_conv)

abbreviation endsWell :: "runnerConfig \<Rightarrow> ('v, runnerAct, 'a) prog \<Rightarrow> bool" where
  "endsWell c m \<equiv> ordered unserved (\<lambda>_ _. True) m (\<lambda>_. endedWell c)"

lemma early_not_serve: "early ev \<Longrightarrow> \<not> isServe ev"
  by (cases ev) simp_all

lemma endsWell_attempt:
  assumes "does (\<lambda>ev. \<not> isServe ev) m" "\<And>x. endsWell c (f x)"
  shows "endsWell c (attempt m f)"
  unfolding attempt_def
proof (rule ordered_bind)
  show "ordered unserved (\<lambda>_ _. True) m (\<lambda>r h. unserved h \<and> True)"
    by (rule ordered_invariant [OF assms(1)]) (auto simp: unserved_def filter_empty_conv list_all_iff)
  show "ordered (\<lambda>h. unserved h \<and> True) (\<lambda>_ _. True) (case r of Inl e \<Rightarrow> ret (Inl e) | Inr x \<Rightarrow> f x) (\<lambda>_. endedWell c)" for r
    using assms(2) by (cases r) (auto intro: ordered_return unserved_endedWell)
qed

lemma endsWell_then: "endsWell c m \<Longrightarrow> \<not> isServe ev \<Longrightarrow> endsWell c (State_Monad.bind m (\<lambda>r. State_Monad.bind (noted ev) (\<lambda>_. ret r)))"
  by (rule ordered_bind, assumption, rule ordered_bind [OF ordered_noted [where Q = "endedWell c"]])
    (auto simp: endedWell_def intro!: ordered_return)

lemma does_start: "does (\<lambda>ev. \<not> isServe ev) (startAgent E c)"
  unfolding startAgent_def Let_def by (auto intro!: does_if does_return does_bind yields_withOutcome yields_ask)

lemma endsWell_serve: "endsWell c (serveAPI E c api)"
proof -
  have stop: "ordered (\<lambda>_. True) (\<lambda>_ _. True) (terminateAgent E c) (\<lambda>_ h. TerminateAgent (rcStopGrace c) \<in> set h)"
    unfolding terminateAgent_def by (rule ordered_effect) simp_all
  have down: "ordered (\<lambda>h. TerminateAgent (rcStopGrace c) \<in> set h) (\<lambda>_ _. True)
      (State_Monad.bind (withOutcome (\<lambda>r. ServerShutdown (r = None)) (reShutdown E)) (\<lambda>r. ret (f r))) (\<lambda>_. endedWell c)" for f
    by (rule ordered_bind [OF ordered_withOutcome [where Q = "\<lambda>_ h. TerminateAgent (rcStopGrace c) \<in> set h"]])
      (auto simp: endedWell_def intro!: ordered_return)
  have "ordered unserved (\<lambda>_ _. True) (withOutcome (Serve api) (reServe E api)) (\<lambda>e h. e = ServerEnded None \<longrightarrow> endedWell c h)"
    by (rule ordered_withOutcome) (use unserved_endedWell in \<open>auto simp: endedWell_def\<close>)
  then show ?thesis
    unfolding serveAPI_def
  proof (rule ordered_bind)
    show "ordered (\<lambda>h. e = ServerEnded None \<longrightarrow> endedWell c h) (\<lambda>_ _. True)
        (case e of
           ShutdownAsked \<Rightarrow> State_Monad.bind (terminateAgent E c) (\<lambda>_.
             State_Monad.bind (withOutcome (\<lambda>r. ServerShutdown (r = None)) (reShutdown E)) (\<lambda>r.
               ret (case r of None \<Rightarrow> Inr () | Some t \<Rightarrow> Inl (''shut down runner API: '' @ t))))
         | ServerEnded None \<Rightarrow> ret (Inr ())
         | ServerEnded (Some t) \<Rightarrow> State_Monad.bind (terminateAgent E c) (\<lambda>_. ret (Inl (''serve runner API: '' @ t))))
        (\<lambda>_. endedWell c)" for e
    proof (cases e)
      case ShutdownAsked
      have "ordered (\<lambda>h. e = ServerEnded None \<longrightarrow> endedWell c h) (\<lambda>_ _. True) (terminateAgent E c)
          (\<lambda>_ h. TerminateAgent (rcStopGrace c) \<in> set h)"
        by (rule ordered_conseq [OF stop]) simp_all
      then show ?thesis unfolding ShutdownAsked serveEnd.case by (rule ordered_bind) (rule down)
    next
      case (ServerEnded err)
      have "ordered (\<lambda>_. True) (\<lambda>_ _. True) (State_Monad.bind (terminateAgent E c) (\<lambda>_. ret r)) (\<lambda>_. endedWell c)" for r :: "goerror + unit"
        by (rule ordered_bind [OF stop]) (simp add: endedWell_def ordered_return)
      then show ?thesis
        by (cases err) (auto simp: ServerEnded intro!: ordered_return elim: ordered_conseq)
    qed
  qed
qed

section \<open>The whole command\<close>

lemma guarded_serve:
  assumes "auth \<noteq> []" "list_all (trusted c) auth"
  shows "ordered (runningAfter E c p) (guarded E c) (serveAPI E c (serverOf c auth (hubOf c rnd) p)) (\<lambda>_ _. True)"
proof -
  let ?api = "serverOf c auth (hubOf c rnd) p"
  have serve: "ordered (runningAfter E c p) (guarded E c) (withOutcome (Serve ?api) (reServe E ?api)) (\<lambda>_ h. \<exists>api e. Serve api e \<in> set h)"
    by (rule ordered_withOutcome) (use assms in \<open>auto simp: runningAfter_def serverOf_def\<close>)
  have stop: "ordered (\<lambda>h. \<exists>api e. Serve api e \<in> set h) (guarded E c) (terminateAgent E c) (\<lambda>_ h. TerminateAgent (rcStopGrace c) \<in> set h)"
    unfolding terminateAgent_def by (rule ordered_effect) auto
  have down: "ordered (\<lambda>h. TerminateAgent (rcStopGrace c) \<in> set h) (guarded E c)
      (State_Monad.bind (withOutcome (\<lambda>r. ServerShutdown (r = None)) (reShutdown E)) (\<lambda>r. ret (f r))) (\<lambda>_ _. True)" for f
    by (rule ordered_bind [OF ordered_withOutcome [where Q = "\<lambda>_ _. True"]]) (auto intro!: ordered_return)
  have over: "ordered (\<lambda>h. \<exists>api e. Serve api e \<in> set h) (guarded E c) (ret r) (\<lambda>_ _. True)" for r :: "goerror + unit"
    by (rule ordered_return) simp
  have broken: "ordered (\<lambda>h. \<exists>api e. Serve api e \<in> set h) (guarded E c) (State_Monad.bind (terminateAgent E c) (\<lambda>_. ret r)) (\<lambda>_ _. True)"
    for r :: "goerror + unit"
    by (rule ordered_bind [OF stop]) (rule ordered_return, simp)
  show ?thesis
    unfolding serveAPI_def
    by (rule ordered_bind [OF serve]) (auto split: serveEnd.split option.split intro: over broken ordered_bind [OF stop down])
qed

lemma ordered_trailing:
  "ordered H (guarded E c) m Q \<Longrightarrow> ev \<in> {CloseHub, CloseListener} \<Longrightarrow>
     ordered H (guarded E c) (State_Monad.bind m (\<lambda>r. State_Monad.bind (noted ev) (\<lambda>_. ret r))) (\<lambda>_ _. True)"
  by (rule ordered_bind, assumption, rule ordered_bind [OF ordered_noted [where Q = "\<lambda>_. True"]]) (auto intro: ordered_return)

lemma guarded_run:
  assumes "auth \<noteq> []" "list_all (trusted c) auth"
  shows "ordered (unstarted (checkedBefore c)) (guarded E c) (runAgent E c auth) (\<lambda>_ _. True)"
  unfolding runAgent_def
  by (rule ordered_bind [OF ordered_ask], rule ordered_trailing,
      rule ordered_attempt [OF ordered_start okAfter_any [OF guarded_serve [OF assms]]]) simp

lemma lasting_checked: "lasting (\<lambda>h. \<exists>e. Stated p (Missing e) \<in> set h)"
  by (auto simp: lasting_def)

lemma guarded_execute:
  assumes "soundConfig c"
  shows "ordered (\<lambda>h. h = []) (guarded E c) (executeRunner E c) (\<lambda>_ _. True)"
proof -
  let ?T = "\<lambda>h. \<exists>e. Stated kubernetesServiceAccountToken (Missing e) \<in> set h"
  let ?A = "\<lambda>s k. list_all (trusted c) (s @ k) \<and> s @ k \<noteq> []"
  have auth: "rcAuthTokenFile c \<noteq> [] \<or> rcCapabilityKey c \<noteq> []" using assms by (auto simp: soundConfig_def)
  have listened: "ordered (unstarted (\<lambda>h. (?T h \<and> HealthChecked (rcHealthCheck c) (rcDirectory c) True \<in> set h))) (guarded E c)
      (attempt (listenOn E (rcListen c)) (\<lambda>_. State_Monad.bind (runAgent E c (s @ k)) (\<lambda>r. State_Monad.bind (noted CloseListener) (\<lambda>_. ret r))))
      (okAfter (\<lambda>_ _. True))" if "?A s k" for s k
    by (rule ordered_attempt [OF ordered_listen], (intro lasting_intros lasting_checked)+,
        rule okAfter_any, rule ordered_trailing, rule ordered_conseq [OF guarded_run])
      (use that in \<open>auto simp: unstarted_def checkedBefore_def\<close>)
  have checked: "ordered (unstarted ?T) (guarded E c)
      (attempt (inspectDirectory E c) (\<lambda>_. attempt (runAdapterHealthCheck E (rcHealthCheck c) (rcDirectory c) (reEnviron E)) (\<lambda>_.
       attempt (listenOn E (rcListen c)) (\<lambda>_. State_Monad.bind (runAgent E c (s @ k)) (\<lambda>r. State_Monad.bind (noted CloseListener) (\<lambda>_. ret r))))))
      (okAfter (\<lambda>_ _. True))" if "?A s k" for s k
    by (rule ordered_attempt [OF ordered_quiet [OF does_inspect lasting_checked]],
        rule ordered_attempt [OF ordered_check [OF lasting_checked] listened [OF that]])
  have "ordered (unstarted (\<lambda>_. True)) (guarded E c) (executeRunner E c) (okAfter (\<lambda>_ _. True))"
    unfolding executeRunner_def
    by (rule ordered_attempt [OF ordered_refuse],
        rule ordered_attempt [OF ordered_early [OF yields_staticAuth lasting_checked]],
        rule ordered_attempt [OF ordered_early [OF yields_capabilityAuth]], intro lasting_intros lasting_checked,
        rule ordered_facts, rule checked) (use auth in auto)
  then show ?thesis by (rule ordered_conseq) (auto simp: unstarted_def)
qed

lemma endsWell_execute: "endsWell c (executeRunner E c)"
proof -
  have early: "does (\<lambda>ev. \<not> isServe ev) m" if "does early m" for m :: "('v, 'b) runProg"
    using that early_not_serve unfolding yields_def by (fastforce simp: list_all_iff)
  have quiet: "does (\<lambda>ev. \<not> isServe ev) m" if "yields early Q m" for Q and m :: "('v, 'b) runProg"
    by (rule early, rule yields_weaken [OF that]) simp
  have calls: "does (\<lambda>ev. \<not> isServe ev) (refuseServiceAccount E)" "does (\<lambda>ev. \<not> isServe ev) (listenOn E a)"
    "does (\<lambda>ev. \<not> isServe ev) (runAdapterHealthCheck E check dir env)" for a check dir env
    unfolding refuseServiceAccount_def listenOn_def annotate_def runAdapterHealthCheck_def
    by (intro does_bind yields_withOutcome does_return; simp)+
  have run: "endsWell c (runAgent E c auth)" for auth
    unfolding runAgent_def
    by (rule ordered_bind [OF ordered_ask], rule endsWell_then, intro endsWell_attempt does_start endsWell_serve) simp
  show ?thesis
    unfolding executeRunner_def
    by (intro endsWell_attempt calls quiet [OF yields_staticAuth] quiet [OF yields_capabilityAuth] early [OF does_inspect]
        endsWell_then run) simp
qed

section \<open>A run\<close>

definition deployedArgs :: "string \<Rightarrow> string list" where
  "deployedArgs agent =
     [''--agent-id='' @ agent, ''--listen=:8080'', ''--auth-token-file='',
      ''--capability-public-key-file=/var/run/secrets/sandherd/capability-public-key.pem'',
      ''--working-directory=/workspace/repository'']"

definition sampleRunnerAgent :: string where "sampleRunnerAgent = ''019c1234-1234-7123-8123-123456789abc''"

text \<open>An environment in which everything succeeds until a signal asks for the end.\<close>

definition sampleRunner :: "unit runnerEnv" where
  "sampleRunner =
     \<lparr>reStat = (\<lambda>p w. (if p = kubernetesServiceAccountToken then Missing ''none'' else Present, w)),
      reReadFile = (\<lambda>p w. (Inr ''pem'', w)), reRunCheck = (\<lambda>c d e w. (True, w)), reListen = (\<lambda>a w. (Inr (), w)),
      reStartPTY = (\<lambda>c d e sz w. (Inr 7, w)), reServe = (\<lambda>a w. (ShutdownAsked, w)), reTerminate = (\<lambda>g w. w),
      reShutdown = (\<lambda>w. (None, w)), reRandom = (\<lambda>w. (replicate 16 0, w)), reNow = (\<lambda>w. (0, w)),
      rePEM = Some, reX509 = (\<lambda>_. Inr (Ed25519Key (replicate 32 (CHR ''k'')))), reEnviron = [],
      reGetenv = (\<lambda>_. ''/bin/sh''), reScanner = (\<lambda>s. Some (JArr [JStr s], [])), reParseDuration = (\<lambda>_. None),
      reFlagError = (\<lambda>_. []), reInfo = \<lparr>biVersion = [], biCommit = [], biDate = [], biGo = [], biOS = [], biArch = []\<rparr>\<rparr>"

definition sampleRunnerConfig :: runnerConfig where
  "sampleRunnerConfig = defaultConfig
     \<lparr>rcAgentID := sampleRunnerAgent, rcAuthTokenFile := [],
      rcCapabilityKey := ''/var/run/secrets/sandherd/capability-public-key.pem'', rcDirectory := ''/workspace/repository'',
      rcSize := \<lparr>Columns = 120, Rows = 40, PixelWidth = 0, PixelHeight = 0\<rparr>, rcCommand := [''/bin/sh''], rcHealthCheck := [''/bin/sh'']\<rparr>"

text \<open>The flags of the deployment, whatever the agent.\<close>

lemma parse_deployed:
  "parseFlags (runnerFlagSet parseDuration) defaultRunnerFlags (deployedArgs agent) =
     Some (defaultRunnerFlags\<lparr>rfConfig := defaultConfig
       \<lparr>rcAgentID := agent, rcAuthTokenFile := [],
        rcCapabilityKey := ''/var/run/secrets/sandherd/capability-public-key.pem'', rcDirectory := ''/workspace/repository''\<rparr>\<rparr>, [])"
proof -
  let ?fs = "runnerFlagSet parseDuration"
  have flag: "parseFlags ?fs f ((''--'' @ name @ ''='' @ v) # args) = parseFlags ?fs (f\<lparr>rfConfig := upd v (rfConfig f)\<rparr>) args"
    if "map_of ?fs name = Some (configVar Some upd)" "name \<noteq> []" "CHR ''='' \<notin> set name" "\<not> hasPrefix name ''-''"
    for name v f args and upd :: "string \<Rightarrow> runnerConfig \<Rightarrow> runnerConfig"
    by (rule parseFlags_value [where f = "\<lambda>v f. Some (f\<lparr>rfConfig := upd v (rfConfig f)\<rparr>)"])
      (use that in \<open>simp_all add: configVar_def parsedVar_def\<close>)
  note fs = runnerFlagSet_def hasPrefix_def
  have given:
    "\<And>v f args. parseFlags ?fs f ((''--agent-id='' @ v) # args) = parseFlags ?fs (f\<lparr>rfConfig := (rfConfig f)\<lparr>rcAgentID := v\<rparr>\<rparr>) args"
    "\<And>v f args. parseFlags ?fs f ((''--listen='' @ v) # args) = parseFlags ?fs (f\<lparr>rfConfig := (rfConfig f)\<lparr>rcListen := v\<rparr>\<rparr>) args"
    "\<And>v f args. parseFlags ?fs f ((''--auth-token-file='' @ v) # args) = parseFlags ?fs (f\<lparr>rfConfig := (rfConfig f)\<lparr>rcAuthTokenFile := v\<rparr>\<rparr>) args"
    "\<And>v f args. parseFlags ?fs f ((''--capability-public-key-file='' @ v) # args) = parseFlags ?fs (f\<lparr>rfConfig := (rfConfig f)\<lparr>rcCapabilityKey := v\<rparr>\<rparr>) args"
    "\<And>v f args. parseFlags ?fs f ((''--working-directory='' @ v) # args) = parseFlags ?fs (f\<lparr>rfConfig := (rfConfig f)\<lparr>rcDirectory := v\<rparr>\<rparr>) args"
    using flag [of "''agent-id''" "\<lambda>v c. c\<lparr>rcAgentID := v\<rparr>"]
      flag [of "''listen''" "\<lambda>v c. c\<lparr>rcListen := v\<rparr>"]
      flag [of "''auth-token-file''" "\<lambda>v c. c\<lparr>rcAuthTokenFile := v\<rparr>"]
      flag [of "''capability-public-key-file''" "\<lambda>v c. c\<lparr>rcCapabilityKey := v\<rparr>"]
      flag [of "''working-directory''" "\<lambda>v c. c\<lparr>rcDirectory := v\<rparr>"]
    by (simp_all add: fs)
  note more = given(2) [where v = "'':8080''"] given(3) [where v = "[]"] given(4) [where v = "''/var/run/secrets/sandherd/capability-public-key.pem''"]
    given(5) [where v = "''/workspace/repository''"]
  show ?thesis
    unfolding deployedArgs_def given(1)
    using more by (simp add: defaultRunnerFlags_def defaultConfig_def)
qed

lemma sample_runner_accepted:
  "parseConfig (reFlagError sampleRunner) (reParseDuration sampleRunner) (reScanner sampleRunner) (reGetenv sampleRunner)
     (deployedArgs sampleRunnerAgent) = Inr (Some sampleRunnerConfig)"
proof -
  have "looksLikeUUID sampleRunnerAgent" unfolding sampleRunnerAgent_def by code_simp
  then show ?thesis
    unfolding parseConfig_def parse_deployed
    by (simp add: defaultRunnerFlags_def sampleRunner_def fromJSON_def unmarshalText_def atEOF_def checkConfig_def
        badCommand_def badArgument_def IsAbs_def hasPrefix_def slash_def defaultConfig_def second_def sampleRunnerConfig_def sampleRunnerAgent_def)
qed

lemma run_RunRunner:
  assumes "parseConfig (reFlagError E) (reParseDuration E) (reScanner E) (reGetenv E) args = Inr (Some c)"
  shows "run_state (RunRunner E args) s =
    (let (r, s') = run_state (executeRunner E c) s in (case r of Inl _ \<Rightarrow> 1 | Inr _ \<Rightarrow> 0, s'))"
  using assms by (simp add: RunRunner_def run_bind State_Monad.return_def)

definition sampleRunnerServer :: apiServer where
  "sampleRunnerServer = serverOf sampleRunnerConfig
     [CapabilityAuth sampleRunnerAgent \<lparr>publicKey = replicate 32 (CHR ''k''), used = Map.empty\<rparr>]
     (hubOf sampleRunnerConfig (replicate 16 0)) (agentOf sampleRunner sampleRunnerConfig 7 0)"

lemmas runner_runs = run_bind run_attempt run_withOutcome run_effect run_asked Let_def

lemma sample_runner_run:
  "run_state (RunRunner sampleRunner (deployedArgs sampleRunnerAgent)) \<lparr>world = (), actions = []\<rparr> =
     (0, \<lparr>world = (), actions =
       [Stated kubernetesServiceAccountToken (Missing ''none''),
        FileRead ''/var/run/secrets/sandherd/capability-public-key.pem'' True, Stated ''/workspace/repository'' Present,
        HealthChecked [''/bin/sh''] ''/workspace/repository'' True, Listened '':8080'' True,
        agentStart sampleRunner sampleRunnerConfig True, Serve sampleRunnerServer ShutdownAsked, TerminateAgent (10 * second),
        ServerShutdown True, CloseHub, CloseListener]\<rparr>)"
proof -
  have clean: "cleanPath ''/var/run/secrets/sandherd/capability-public-key.pem'' = ''/var/run/secrets/sandherd/capability-public-key.pem''"
    by code_simp
  have env: "reStat sampleRunner = (\<lambda>p w. (if p = kubernetesServiceAccountToken then Missing ''none'' else Present, w))"
    "reReadFile sampleRunner = (\<lambda>p w. (Inr ''pem'', w))"
    "reRunCheck sampleRunner = (\<lambda>c d e w. (True, w))"
    "reListen sampleRunner = (\<lambda>a w. (Inr (), w))"
    "reStartPTY sampleRunner = (\<lambda>c d e sz w. (Inr 7, w))"
    "reServe sampleRunner = (\<lambda>a w. (ShutdownAsked, w))"
    "reTerminate sampleRunner = (\<lambda>g w. w)"
    "reShutdown sampleRunner = (\<lambda>w. (None, w))"
    "reRandom sampleRunner = (\<lambda>w. (replicate 16 0, w))"
    "reNow sampleRunner = (\<lambda>w. (0, w))"
    "rePEM sampleRunner = Some"
    "reX509 sampleRunner = (\<lambda>_. Inr (Ed25519Key (replicate 32 (CHR ''k''))))"
    "reEnviron sampleRunner = []"
    by (simp_all add: sampleRunner_def)
  have dir: "''/workspace/repository'' \<noteq> kubernetesServiceAccountToken" by (simp add: kubernetesServiceAccountToken_def)
  have config: "rcAgentID sampleRunnerConfig = sampleRunnerAgent" "rcListen sampleRunnerConfig = '':8080''" "rcAuthTokenFile sampleRunnerConfig = []"
    "rcObserveTokenFile sampleRunnerConfig = []" "rcCapabilityKey sampleRunnerConfig = ''/var/run/secrets/sandherd/capability-public-key.pem''"
    "rcDirectory sampleRunnerConfig = ''/workspace/repository''" "rcCommand sampleRunnerConfig = [''/bin/sh'']"
    "rcHealthCheck sampleRunnerConfig = [''/bin/sh'']" "rcStopGrace sampleRunnerConfig = 10 * second"
    by (simp_all add: sampleRunnerConfig_def defaultConfig_def)
  have key: "run_state (capabilityAuth sampleRunner sampleRunnerConfig) s =
      (Inr [CapabilityAuth sampleRunnerAgent \<lparr>publicKey = replicate 32 (CHR ''k''), used = Map.empty\<rparr>],
       s\<lparr>actions := actions s @ [FileRead ''/var/run/secrets/sandherd/capability-public-key.pem'' True]\<rparr>)" for s
    by (simp add: capabilityAuth_def config clean runner_runs annotate_def readFile_def State_Monad.return_def env isOK_def
        ParsePublicKeyPEM_def NewVerifier_def)
  have static: "run_state (staticAuth sampleRunner sampleRunnerConfig) s = (Inr [], s)" for s
    by (simp add: staticAuth_def controlToken_def observeToken_def config runner_runs State_Monad.return_def)
  have agent: "run_state (startAgent sampleRunner sampleRunnerConfig) s =
      (Inr (agentOf sampleRunner sampleRunnerConfig 7 0), s\<lparr>actions := actions s @ [agentStart sampleRunner sampleRunnerConfig True]\<rparr>)" for s
    by (simp add: startAgent_def runner_runs State_Monad.return_def newAgentProcess_def start_def agentOf_def config isOK_def env)
  show ?thesis
    unfolding run_RunRunner [OF sample_runner_accepted] executeRunner_def
    by (simp add: runner_runs refuseServiceAccount_def static key inspectDirectory_def runAdapterHealthCheck_def listenOn_def annotate_def
        runAgent_def agent serveAPI_def terminateAgent_def noted_def State_Monad.return_def config isOK_def sampleRunnerServer_def env dir)
qed

section \<open>Properties\<close>

text \<open>
  C8. Whatever the operating system answers: the runner starts at most one agent, with the configured
  command, directory and size, and only once no service-account token was found, the health check
  has passed and the listener is bound. The API is served only for that agent, with at least one
  authenticator; static tokens have 16 bytes or more and differ, a capability verifier is bound to this
  agent and has seen no capability. The agent is terminated, with the configured grace, before the server
  is shut down and in every run that served, unless the server ended by itself without an error.
\<close>

theorem runner_starts_guarded:
  assumes "parseConfig (reFlagError E) (reParseDuration E) (reScanner E) (reGetenv E) args = Inr (Some c)"
    "actions s = []" "run_state (RunRunner E args) s = (code, s')"
  shows "(\<forall>pre ev post. actions s' = pre @ ev # post \<longrightarrow> guarded E c pre ev) \<and>
    (\<forall>api e. Serve api e \<in> set (actions s') \<longrightarrow> e = ServerEnded None \<or> TerminateAgent (rcStopGrace c) \<in> set (actions s'))"
proof -
  obtain r where run: "run_state (executeRunner E c) s = (r, s')"
    using assms(3) unfolding run_RunRunner [OF assms(1)] by (auto simp: Let_def split: prod.splits)
  have "endedWell c (actions s')"
    using endsWell_execute [of E c] assms(2) run unfolding ordered_def unserved_def by (metis filter.simps(1) snd_conv)
  then show ?thesis
    using ordered_from_start [OF guarded_execute [OF parseConfig_sound [OF assms(1)], of E] assms(2) run]
    unfolding endedWell_def by blast
qed

theorem runner_starts_guarded_witness:
  "guarded sampleRunner sampleRunnerConfig
     [Stated kubernetesServiceAccountToken (Missing ''none''),
      FileRead ''/var/run/secrets/sandherd/capability-public-key.pem'' True, Stated ''/workspace/repository'' Present,
      HealthChecked [''/bin/sh''] ''/workspace/repository'' True, Listened '':8080'' True]
     (agentStart sampleRunner sampleRunnerConfig True)"
proof -
  note g = runner_starts_guarded [OF sample_runner_accepted _ sample_runner_run]
  show ?thesis by (rule g [THEN conjunct1, rule_format]) simp_all
qed

lemma hubOf_reachable:
  assumes "soundConfig c"
  shows "reachable fmt ((sysInit (hubOf c rnd) (agentOf E c pid now))\<lparr>sHub := setProcess (agentOf E c pid now) (hubOf c rnd)\<rparr>)"
proof -
  let ?p = "agentOf E c pid now"
  let ?y = "sysInit (hubOf c rnd) ?p"
  have "started ?y"
    unfolding started_def hubOf_def
    by (intro exI conjI) (use assms in \<open>auto simp: soundConfig_def agentOf_def newAgentProcess_def\<close>)
  then have "reachable fmt ?y" by (rule reachable_init)
  moreover have "step fmt ?y (?y\<lparr>sHub := setProcess (sProc ?y) (sHub ?y)\<rparr>)"
    by (rule SetProcess) (simp add: sysInit_def hubOf_def newHub_def)
  ultimately show ?thesis by (auto simp: sysInit_def intro: reachable_step)
qed

text \<open>
  C9. What the command hands to the server is a state of the transition system that describes the
  interleavings of the runner's goroutines: it is reachable, its process is the agent that was started,
  and it runs. So every invariant of the reachable states holds of a runner started from accepted
  arguments, whatever the clients and the agent do afterwards.
\<close>

theorem served_runner_reachable:
  assumes "parseConfig (reFlagError E) (reParseDuration E) (reScanner E) (reGetenv E) args = Inr (Some c)"
    "actions s = []" "run_state (RunRunner E args) s = (code, s')" "Serve api e \<in> set (actions s')"
  shows "\<exists>y. reachable fmt y \<and> sHub y = asHub api \<and> theProc y = asProcess api \<and> serving y \<and>
    hState (asHub api) = ''running'' \<and> hAgentID (asHub api) = rcAgentID c"
proof -
  obtain r where run: "run_state (executeRunner E c) s = (r, s')"
    using assms(3) unfolding run_RunRunner [OF assms(1)] by (auto simp: Let_def split: prod.splits)
  obtain pre post where "actions s' = pre @ Serve api e # post" using split_list [OF assms(4)] by blast
  then have "guarded E c pre (Serve api e)"
    by (rule ordered_from_start [OF guarded_execute [OF parseConfig_sound [OF assms(1)]] assms(2) run])
  then obtain rnd pid now where api: "asProcess api = agentOf E c pid now" "asHub api = setProcess (agentOf E c pid now) (hubOf c rnd)"
    by auto
  let ?y = "(sysInit (hubOf c rnd) (agentOf E c pid now))\<lparr>sHub := setProcess (agentOf E c pid now) (hubOf c rnd)\<rparr>"
  have "reachable fmt ?y" by (rule hubOf_reachable [OF parseConfig_sound [OF assms(1)]])
  then show ?thesis
    by (intro exI [of _ ?y]) (simp add: api theProc_def setProcess_def hubOf_def newHub_def)
qed

theorem served_runner_reachable_witness:
  "\<exists>y. reachable (\<lambda>_. []) y \<and> sHub y = asHub sampleRunnerServer \<and> theProc y = asProcess sampleRunnerServer \<and> serving y \<and>
     hState (asHub sampleRunnerServer) = ''running'' \<and> hAgentID (asHub sampleRunnerServer) = rcAgentID sampleRunnerConfig"
  using served_runner_reachable [OF sample_runner_accepted _ sample_runner_run, of sampleRunnerServer ShutdownAsked "\<lambda>_. []"] by simp

text \<open>The generation of a runner is a UUID.\<close>

lemma newID_uuid:
  assumes "length rnd = 16"
  shows "looksLikeUUID (newID rnd)"
  unfolding newID_def Let_def dashed_def by (rule looksLikeUUID_groups) (use assms in simp_all)

end
