(* ===== verification/Runner_Deploy.thy ===== *)
theory Runner_Deploy
  imports Runner_Start Reconciler
begin

text \<open>
  The control plane and the runner agree on launch decisions: what the adapter registry accepts and the
  reconciler writes into a claim, the runner's command accepts and starts.
\<close>

section \<open>Commands of the registry\<close>

lemma validateCommand_sound: "validateCommand cmd = None \<longleftrightarrow> soundCommand cmd"
  by (auto simp: validCommand soundCommand_def IsAbs_def slash_def)

lemma resolved_sound:
  assumes "NewRegistry pr cfg = Inr reg" "Resolve reg adapter sandbox credential = Inr rt"
  shows "soundCommand (rnCommand rt)" "soundCommand (rnHealthCheck rt)"
proof -
  obtain d p where reg: "reg adapter = Some d" "p \<in> set (dfProfiles d)" and rt: "rt = runtimeOf d p"
    using assms(2) by (auto simp: Resolve_def split: option.splits dest: find_SomeD)
  have add: "addDefinitions pr 0 (cfAdapters cfg) Map.empty = Inr reg"
    using assms(1) by (simp add: NewRegistry_def split: if_splits)
  have "d \<in> set (cfAdapters cfg)"
    using reg(1) addDefinitions_ok(3) [OF add] by (auto split: option.splits dest: find_SomeD)
  then have "validateDefinition pr d = None" using addDefinitions_ok(1) [OF add] by blast
  then have "validateProfile p = None" using validateDefinition_None(2) reg(2) by blast
  then show "soundCommand (rnCommand rt)" "soundCommand (rnHealthCheck rt)"
    using validProfile(4,5) by (simp_all add: rt runtimeOf_def validateCommand_sound)
qed

section \<open>The environment of the claim\<close>

text \<open>
  The environment a claim gives to a container, as Agent Sandbox documents it: every entry of
  \<^verbatim>\<open>spec.env\<close> for the container is a variable of its processes.
\<close>

definition injects :: "json \<Rightarrow> string \<Rightarrow> (string \<Rightarrow> string) \<Rightarrow> bool" where
  "injects claim container getenv \<longleftrightarrow>
     (\<forall>name value. envEntry name value container \<in> set (nestedSlice [''spec'', ''env''] claim) \<longrightarrow> getenv name = value)"

lemma injected_commands:
  assumes "injects (sandboxClaimForRuntime cd a ns pool storageClass rt) ''runner'' getenv"
  shows "getenv ''SANDHERD_AGENT_COMMAND_JSON'' = CommandJSON cd rt"
    "getenv ''SANDHERD_AGENT_HEALTH_CHECK_JSON'' = HealthCheckJSON cd rt"
proof -
  have "envEntry n v ''runner'' \<in> set (nestedSlice [''spec'', ''env''] (sandboxClaimForRuntime cd a ns pool storageClass rt))"
    if "(n, v) \<in> {(''SANDHERD_AGENT_COMMAND_JSON'', CommandJSON cd rt), (''SANDHERD_AGENT_HEALTH_CHECK_JSON'', HealthCheckJSON cd rt)}" for n v
    using that by (auto simp: sandboxClaimForRuntime_def Let_def nestedSlice_def)
  then show "getenv ''SANDHERD_AGENT_COMMAND_JSON'' = CommandJSON cd rt"
    "getenv ''SANDHERD_AGENT_HEALTH_CHECK_JSON'' = HealthCheckJSON cd rt"
    using assms unfolding injects_def by blast+
qed

text \<open>What the runner relies on of the JSON encoder for a command: it reads back as the array it encodes.\<close>

definition readsBack :: "codec \<Rightarrow> scanner \<Rightarrow> string list \<Rightarrow> bool" where
  "readsBack cd parse cmd \<longleftrightarrow> cdPrint cd (stringsJson cmd) \<noteq> [] \<and>
     unmarshalText parse (cdPrint cd (stringsJson cmd)) = Some (stringsJson cmd)"

lemma those_map_Some: "those (map Some xs) = Some xs"
  by (induction xs) simp_all

lemma fromJSON_readsBack: "readsBack cd parse cmd \<Longrightarrow> fromJSON parse (cdPrint cd (stringsJson cmd)) unset = Some cmd"
  by (simp add: readsBack_def fromJSON_def stringsJson_def comp_def those_map_Some)

section \<open>Launch decisions are accepted\<close>

text \<open>
  C10. Every launch decision of the control plane is one the runner accepts. For any adapter the registry
  loaded, any profile it resolves and any agent with a UUID, the runner started with the arguments of the
  deployment in the environment of the claim accepts them, with the identifier of the agent and exactly the
  command and the health check of the profile.
\<close>

theorem launch_decision_accepted:
  assumes "NewRegistry pr cfg = Inr reg" "Resolve reg adapter sandbox credential = Inr rt"
    "looksLikeUUID (agID a)" "injects (sandboxClaimForRuntime cd a ns pool storageClass rt) ''runner'' getenv"
    "readsBack cd parse (rnCommand rt)" "readsBack cd parse (rnHealthCheck rt)"
  shows "\<exists>c. parseConfig flagError parseDuration parse getenv (deployedArgs (agID a)) = Inr (Some c) \<and>
    rcAgentID c = agID a \<and> rcCommand c = rnCommand rt \<and> rcHealthCheck c = rnHealthCheck rt"
proof -
  note commands = resolved_sound [OF assms(1,2)]
  have read: "fromJSON parse (getenv ''SANDHERD_AGENT_COMMAND_JSON'') [] = Some (rnCommand rt)"
    "fromJSON parse (getenv ''SANDHERD_AGENT_HEALTH_CHECK_JSON'') [] = Some (rnHealthCheck rt)"
    by (simp_all add: injected_commands [OF assms(4)] CommandJSON_def HealthCheckJSON_def fromJSON_readsBack assms(5,6))
  have "agID a \<noteq> []" using assms(3) by (auto simp: looksLikeUUID_def)
  with commands assms(3) show ?thesis
    unfolding parseConfig_def parse_deployed
    by (auto simp: defaultRunnerFlags_def read checkConfig_def soundCommand_iff defaultConfig_def second_def)
qed

definition deployAgent :: Agent where
  "deployAgent = (sampleAgent sampleRunnerAgent)"

text \<open>A printer and a reader that know the two commands of the sample registry.\<close>

definition deployCodec :: codec where
  "deployCodec = sampleCodec\<lparr>cdPrint := (\<lambda>j. if j = JArr [JStr ''/bin/sh''] then ''1'' else ''2'')\<rparr>"

definition deployScanner :: scanner where
  "deployScanner s = Some (JArr [JStr (if s = ''1'' then ''/bin/sh'' else ''/bin/true'')], [])"

definition deployEnv :: "string \<Rightarrow> string" where
  "deployEnv name =
     (if name = ''SANDHERD_AGENT_COMMAND_JSON'' then ''1'' else if name = ''SANDHERD_AGENT_HEALTH_CHECK_JSON'' then ''2''
      else if name = ''SANDHERD_AGENT_ID'' then sampleRunnerAgent
      else if name = ''SANDHERD_ADAPTER_ID'' then ''shell'' else ''1'')"

theorem launch_decision_accepted_witness:
  "\<exists>c. parseConfig (\<lambda>_. []) (\<lambda>_. None) deployScanner deployEnv (deployedArgs sampleRunnerAgent) = Inr (Some c) \<and>
     rcAgentID c = sampleRunnerAgent \<and> rcCommand c = [''/bin/sh''] \<and> rcHealthCheck c = [''/bin/true'']"
proof -
  obtain r where r: "NewRegistry (\<lambda>_. True) Registry.sampleConfig = Inr r" using sampleConfig_ok by blast
  let ?d = "hd (cfAdapters Registry.sampleConfig)"
  let ?rt = "runtimeOf ?d (hd (dfProfiles ?d))"
  have res: "Resolve r ''shell'' ''small'' [] = Inr ?rt"
  proof -
    have "r ''shell'' = Some ?d"
      using r by (auto simp: NewRegistry_def Registry.sampleConfig_def split: option.splits if_splits)
    then show ?thesis by (simp add: Resolve_def Registry.sampleConfig_def)
  qed
  have id: "agID deployAgent = sampleRunnerAgent" by (simp add: deployAgent_def sampleAgent_def)
  have uuid: "looksLikeUUID (agID deployAgent)" unfolding id sampleRunnerAgent_def by code_simp
  have env: "injects (sandboxClaimForRuntime deployCodec deployAgent ''ns'' ''pool'' [] ?rt) ''runner'' deployEnv"
    by (auto simp: injects_def sandboxClaimForRuntime_def Let_def nestedSlice_def envEntry_def deployEnv_def id runtimeOf_def
        CommandJSON_def HealthCheckJSON_def stringsJson_def deployCodec_def Registry.sampleConfig_def split: option.splits)
  have reads: "readsBack deployCodec deployScanner (rnCommand ?rt)" "readsBack deployCodec deployScanner (rnHealthCheck ?rt)"
    by (simp_all add: readsBack_def deployCodec_def deployScanner_def stringsJson_def runtimeOf_def Registry.sampleConfig_def
        unmarshalText_def atEOF_def)
  show ?thesis
    using launch_decision_accepted [OF r res uuid env reads, of "\<lambda>_. []" "\<lambda>_. None"] by (simp add: id runtimeOf_def Registry.sampleConfig_def)
qed

end
