(* ===== verification/ControlPlane_Start.thy ===== *)
theory ControlPlane_Start
  imports ControlPlane_Main Runner_Deploy
begin

text \<open>
  What the control plane's command guarantees: which configurations it accepts, and that what it serves
  is put together from parts that were checked, which agree on the namespace, the adapters, the client of
  Kubernetes and the gateway: the assumptions of the theorems about the parts hold of the system served.
\<close>

section \<open>Accepted configurations\<close>

definition completeConfig :: "runConfig \<Rightarrow> bool" where
  "completeConfig c \<longleftrightarrow> \<not> incomplete c \<and> (\<forall>p. cxStorageProfiles c p \<noteq> Some ''-'')"

lemma parseRunConfig_complete: "parseRunConfig flagError args = Inr (Some c) \<Longrightarrow> completeConfig c"
  by (auto simp: parseRunConfig_def completeConfig_def clusterDefaults_def Let_def split: option.splits prod.splits if_splits)

section \<open>The system served\<close>

definition wired :: "('v, 'k) controlEnv \<Rightarrow> runConfig \<Rightarrow> 'v system \<Rightarrow> bool" where
  "wired E c y \<longleftrightarrow>
     (\<exists>config. NewRegistry (cdPrintable (cpCodec E)) config = Inr (svAdapters (syServer y))) \<and>
     rcAdapters (syReconciler y) = svAdapters (syServer y) \<and>
     svNamespace (syServer y) = cxNamespace c \<and> rcNamespace (syReconciler y) = cxNamespace c \<and>
     gwResolver (syGateway y) = ResolveRunner (syKube y) (cpCodec E) (cxNamespace c) \<and>
     svTerminal (syServer y) = Some (\<lambda>req owner i rid can. ServeTerminal (cpGateway E) (syGateway y) req owner i rid can) \<and>
     length (privateKey (gwSigner (syGateway y))) = 64 \<and> sgTTL (gwSigner (syGateway y)) = 30 * second \<and>
     gwLimits (syGateway y) = DefaultLimits \<and> 1 \<le> gwRunnerPort (syGateway y) \<and> gwRunnerPort (syGateway y) \<le> 65535 \<and>
     urlScheme (gwRouterURL (syGateway y)) \<in> {''http'', ''https''} \<and>
     (\<forall>p. rcStorageProfiles (syReconciler y) p \<noteq> Some ''-'') \<and> syController y = NewController \<and> syEvents y = NewEventBus 2048"

fun inPlace :: "('v, 'k) controlEnv \<Rightarrow> runConfig \<Rightarrow> 'v controlAct list \<Rightarrow> 'v controlAct \<Rightarrow> bool" where
  "inPlace E c h (ServeSystem y e) \<longleftrightarrow> wired E c y \<and>
     {Loaded (cxAdaptersFile c) True, Loaded (cxPrincipalsFile c) True, Loaded (cxPrivateKey c) True, Connected True,
      ListenedOn (cxListen c) True, ListedAgents True} \<subseteq> set h"
| "inPlace E c h (ShutDown ok) \<longleftrightarrow> (\<exists>y e. ServeSystem y e \<in> set h)"
| "inPlace E c h _ \<longleftrightarrow> True"

lemma described_ok: "described what r = Inr x \<longleftrightarrow> r = Inr x"
  by (auto simp: described_def split: sum.splits)

lemma NewGateway_ok:
  assumes "NewGateway parse cfg = Inr (g, l)"
  shows "cfResolver cfg = Some (gwResolver g) \<and> cfSigner cfg = Some (gwSigner g) \<and> gwLimits g = cfLimits cfg \<and>
    gwRunnerPort g = cfRunnerPort cfg \<and> 1 \<le> gwRunnerPort g \<and> gwRunnerPort g \<le> 65535 \<and>
    urlScheme (gwRouterURL g) \<in> {''http'', ''https''}"
  using assms by (auto simp: NewGateway_def Let_def split: option.splits if_splits)

lemma NewSigner_ok: "NewSigner key ttl = Inr s \<Longrightarrow> length (privateKey s) = 64 \<and> sgTTL s = ttl"
  by (auto simp: NewSigner_def split: if_splits)

lemma LoadRegistry_ok: "LoadRegistry pr parse jsonError clean fs p = Inr r \<Longrightarrow> \<exists>config. NewRegistry pr config = Inr r"
  by (auto simp: LoadRegistry_def Let_def split: if_splits sum.splits option.splits prod.splits)

lemma ordered_loading:
  assumes "lasting H" "\<And>ok h. P h (Loaded p ok)"
  shows "ordered H P (loading E p f) (okAfter (\<lambda>x h. (H h \<and> Loaded p True \<in> set h) \<and> (\<exists>fs. f fs = Inr x)))"
proof -
  have "ordered H P (loading E p f) (\<lambda>r h. \<forall>x. r = Inr x \<longrightarrow> (H h \<and> Loaded p True \<in> set h) \<and> (\<exists>fs. f fs = Inr x))"
    using assms by (fastforce simp: ordered_def loading_def withOutcome_def lasting_def case_prod_beta Cons_eq_append_conv isOK_def)
  then show ?thesis by (rule ordered_conseq) (auto simp: okAfter_def split: sum.splits)
qed

lemma ordered_known:
  assumes "lasting H" "\<And>r h. P h (ev r)"
  shows "ordered H P (withOutcome ev f) (\<lambda>r h. H h \<and> ev r \<in> set h)"
  by (rule ordered_withOutcome) (use assms in \<open>auto simp: lasting_def\<close>)

lemma ordered_fact: "(a \<Longrightarrow> ordered H P m Q) \<Longrightarrow> ordered (\<lambda>h. H h \<and> a) P m Q"
  by (cases a) (auto simp: ordered_def)

section \<open>The order of construction\<close>

lemma ordered_signer:
  assumes "lasting H"
  shows "ordered H (inPlace E c) (loadSigner E c)
    (okAfter (\<lambda>s h. (H h \<and> Loaded (cxPrivateKey c) True \<in> set h) \<and> length (privateKey s) = 64 \<and> sgTTL s = 30 * second))"
  unfolding loadSigner_def
  by (rule ordered_attempt [OF ordered_loading [OF assms]], simp, rule ordered_return)
    (auto simp: okAfter_def dest: NewSigner_ok split: sum.splits)

lemma ordered_kubeConfig: "ordered H (inPlace E c) (loadKubeConfig E c) (okAfter (\<lambda>_. H))"
proof -
  have inside: "ordered H (inPlace E c) (if cxKubeconfig c = [] then ask (cpInCluster E) else ret None) (\<lambda>_. H)"
    by (auto intro: ordered_ask ordered_return)
  show ?thesis
    unfolding loadKubeConfig_def
    by (rule ordered_bind [OF inside], rule ordered_option, rule ordered_bind [OF ordered_ask])
      (auto intro!: ordered_return simp: okAfter_def split: sum.splits)
qed

lemma ordered_connect:
  assumes "lasting H"
  shows "ordered H (inPlace E c) (connect E c) (okAfter (\<lambda>_ h. H h \<and> Connected True \<in> set h))"
  unfolding connect_def Let_def
  by (rule ordered_attempt [OF ordered_kubeConfig], rule ordered_conseq [OF ordered_known [OF assms]])
    (auto simp: okAfter_def isOK_def split: sum.splits)

lemma ordered_listening:
  assumes "lasting H"
  shows "ordered H (inPlace E c) (listening E a) (okAfter (\<lambda>_ h. H h \<and> ListenedOn a True \<in> set h))"
  unfolding listening_def
  by (rule ordered_bind [OF ordered_known [OF assms]]) (auto intro!: ordered_return simp: okAfter_def isOK_def described_def split: sum.splits)

lemma ordered_verify:
  assumes "lasting H"
  shows "ordered H (inPlace E c) (verifyAccess E K) (okAfter (\<lambda>_ h. H h \<and> ListedAgents True \<in> set h))"
  unfolding verifyAccess_def embedded_def
  by (rule ordered_bind [OF ordered_known [OF assms]]) (auto intro!: ordered_return simp: okAfter_def isOK_def split: sum.splits)

lemma ordered_gateway:
  assumes "length (privateKey signer) = 64" "sgTTL signer = 30 * second"
  shows "ordered H (inPlace E c) (buildGateway E c signer K)
    (okAfter (\<lambda>g h. H h \<and> (gwResolver g = ResolveRunner K (cpCodec E) (cxNamespace c) \<and> gwSigner g = signer \<and> gwLimits g = DefaultLimits \<and>
       1 \<le> gwRunnerPort g \<and> gwRunnerPort g \<le> 65535 \<and> urlScheme (gwRouterURL g) \<in> {''http'', ''https''})))"
  unfolding buildGateway_def
  by (rule ordered_sum, rule ordered_return, simp, split prod.split, intro allI impI, rule ordered_bind [OF ordered_ask], rule ordered_return)
    (auto simp: described_ok dest!: NewGateway_ok)

lemma ordered_serve:
  assumes "wired E c y"
    "\<And>h. H h \<Longrightarrow> {Loaded (cxAdaptersFile c) True, Loaded (cxPrincipalsFile c) True, Loaded (cxPrivateKey c) True, Connected True,
      ListenedOn (cxListen c) True, ListedAgents True} \<subseteq> set h"
  shows "ordered H (inPlace E c) (serveSystem E y) (okAfter (\<lambda>_ _. True))"
proof -
  have down: "ordered (\<lambda>h. \<exists>y e. ServeSystem y e \<in> set h) (inPlace E c) (shutDown E) (okAfter (\<lambda>_ _. True))"
    unfolding shutDown_def
    by (rule ordered_bind [OF ordered_withOutcome [where Q = "\<lambda>_ _. True"]]) (auto intro!: ordered_return simp: okAfter_def split: sum.splits)
  have serve: "ordered H (inPlace E c) (withOutcome (ServeSystem y) (cpServe E y)) (\<lambda>_ h. \<exists>y e. ServeSystem y e \<in> set h)"
    by (rule ordered_withOutcome) (use assms in auto)
  show ?thesis
    unfolding serveSystem_def
    by (rule ordered_bind [OF serve]) (auto split: systemEnd.split option.split intro: down ordered_return)
qed

lemma wired_system:
  assumes "completeConfig c" "NewRegistry (cdPrintable (cpCodec E)) config = Inr adapters"
    "gwResolver g = ResolveRunner K (cpCodec E) (cxNamespace c) \<and> gwSigner g = signer \<and> gwLimits g = DefaultLimits \<and>
       1 \<le> gwRunnerPort g \<and> gwRunnerPort g \<le> 65535 \<and> urlScheme (gwRouterURL g) \<in> {''http'', ''https''}"
    "length (privateKey signer) = 64" "sgTTL signer = 30 * second"
  shows "wired E c (buildSystem E c adapters principals K g)"
  using assms
  by (auto simp: wired_def buildSystem_def buildServer_def buildReconciler_def ConfigureWorkspaceProfiles_def NewReconciler_def completeConfig_def)

abbreviation filesRead :: "runConfig \<Rightarrow> 'v controlAct list \<Rightarrow> bool" where
  "filesRead c h \<equiv> (Loaded (cxAdaptersFile c) True \<in> set h \<and> Loaded (cxPrincipalsFile c) True \<in> set h) \<and> Loaded (cxPrivateKey c) True \<in> set h"

abbreviation opened :: "runConfig \<Rightarrow> 'v controlAct list \<Rightarrow> bool" where
  "opened c h \<equiv> (filesRead c h \<and> Connected True \<in> set h) \<and> ListenedOn (cxListen c) True \<in> set h"

lemma ordered_assemble:
  assumes "completeConfig c" "NewRegistry (cdPrintable (cpCodec E)) config = Inr adapters"
    "length (privateKey signer) = 64" "sgTTL signer = 30 * second"
  shows "ordered (opened c) (inPlace E c) (assemble E c adapters principals signer K) (okAfter (\<lambda>_ _. True))"
proof -
  have last: "lasting (opened c)" by (intro lasting_intros)
  have served: "ordered (opened c) (inPlace E c)
      (attempt (verifyAccess E K) (\<lambda>_. serveSystem E (buildSystem E c adapters principals K g))) (okAfter (\<lambda>_ _. True))"
    if "wired E c (buildSystem E c adapters principals K g)" for g
    by (rule ordered_attempt [OF ordered_verify [OF last] ordered_serve [OF that]]) simp
  show ?thesis
    unfolding assemble_def
    by (rule ordered_attempt [OF ordered_gateway [OF assms(3,4)]], rule ordered_fact, rule served, rule wired_system [OF assms(1,2) _ assms(3,4)])
qed

lemma ordered_listenerClosed:
  fixes m :: "('v, unit) controlProg"
  assumes "ordered H (inPlace E c) m (okAfter (\<lambda>_ _. True))"
  shows "ordered H (inPlace E c) (State_Monad.bind m (\<lambda>r. State_Monad.bind (noted ListenerClosed) (\<lambda>_. ret r))) (okAfter (\<lambda>_ _. True))"
  by (rule ordered_bind [OF assms], rule ordered_bind [OF ordered_noted [where Q = "\<lambda>_. True"]])
    (auto intro: ordered_return simp: okAfter_def split: sum.splits)

lemma ordered_executeControl:
  assumes "completeConfig c"
  shows "ordered (\<lambda>_. True) (inPlace E c) (executeControl E c) (okAfter (\<lambda>_ _. True))"
proof -
  have last: "lasting (filesRead c)" "lasting (\<lambda>h. filesRead c h \<and> Connected True \<in> set h)"
    "lasting (\<lambda>h. Loaded (cxAdaptersFile c) True \<in> set h \<and> Loaded (cxPrincipalsFile c) True \<in> set h)"
    "lasting (\<lambda>h. Loaded (cxAdaptersFile c) True \<in> set h)"
    by (intro lasting_intros)+
  have connected: "ordered (filesRead c) (inPlace E c) (attempt (connect E c) (\<lambda>K. attempt (listening E (cxListen c)) (\<lambda>_.
      State_Monad.bind (assemble E c adapters principals signer K) (\<lambda>r. State_Monad.bind (noted ListenerClosed) (\<lambda>_. ret r)))))
      (okAfter (\<lambda>_ _. True))"
    if "NewRegistry (cdPrintable (cpCodec E)) config = Inr adapters" "length (privateKey signer) = 64 \<and> sgTTL signer = 30 * second"
    for config adapters principals signer
    by (rule ordered_attempt [OF ordered_connect [OF last(1)] ordered_attempt [OF ordered_listening [OF last(2)]
        ordered_listenerClosed [OF ordered_assemble [OF assms that(1)]]]]) (use that in simp_all)
  have signed: "ordered (\<lambda>h. Loaded (cxAdaptersFile c) True \<in> set h \<and> Loaded (cxPrincipalsFile c) True \<in> set h) (inPlace E c)
      (attempt (loadSigner E c) (\<lambda>signer. attempt (connect E c) (\<lambda>K. attempt (listening E (cxListen c)) (\<lambda>_.
        State_Monad.bind (assemble E c adapters principals signer K) (\<lambda>r. State_Monad.bind (noted ListenerClosed) (\<lambda>_. ret r))))))
      (okAfter (\<lambda>_ _. True))"
    if "NewRegistry (cdPrintable (cpCodec E)) config = Inr adapters" for config adapters principals
    by (rule ordered_attempt [OF ordered_signer [OF last(3)]], rule ordered_fact, rule connected [OF that])
  have principals: "ordered (\<lambda>h. Loaded (cxAdaptersFile c) True \<in> set h) (inPlace E c)
      (attempt (loadPrincipals E c) (\<lambda>principals. attempt (loadSigner E c) (\<lambda>signer. attempt (connect E c) (\<lambda>K.
        attempt (listening E (cxListen c)) (\<lambda>_.
          State_Monad.bind (assemble E c adapters principals signer K) (\<lambda>r. State_Monad.bind (noted ListenerClosed) (\<lambda>_. ret r)))))))
      (okAfter (\<lambda>_ _. True))"
    if "NewRegistry (cdPrintable (cpCodec E)) config = Inr adapters" for config adapters
    unfolding loadPrincipals_def
    by (rule ordered_attempt [OF ordered_loading [OF last(4)]], simp, rule ordered_fact, rule signed [OF that])
  show ?thesis
    unfolding executeControl_def loadAdapters_def
    by (rule ordered_attempt [OF ordered_loading [where H = "\<lambda>_. True"]])
      (auto simp: lasting_known described_ok intro!: ordered_fact dest!: LoadRegistry_ok intro: principals)
qed

section \<open>The parts together\<close>

lemma wired_commands:
  assumes "wired E c y" "Resolve (rcAdapters (syReconciler y)) adapter sandbox credential = Inr rt"
  shows "soundCommand (rnCommand rt) \<and> soundCommand (rnHealthCheck rt)"
  using assms resolved_sound unfolding wired_def by metis

lemma wired_observers:
  assumes "wired E c y" "\<not> CanControl p"
  shows "does readOnly (handleAgent (syKube y) (cpCodec E) (syServer y) req p rid)"
  using observer_terminal_reads [OF _ _ assms(2)] assms(1) unfolding wired_def by metis

lemma run_RunControlPlane:
  assumes "parseRunConfig (cpFlagError E) args = Inr (Some c)"
  shows "run_state (RunControlPlane E args) s =
    (let (r, s') = run_state (executeControl E c) s in (case r of Inl _ \<Rightarrow> 1 | Inr _ \<Rightarrow> 0, s'))"
  using assms by (simp add: RunControlPlane_def run_bind State_Monad.return_def)


section \<open>A run\<close>

definition adaptersText :: json where
  "adaptersText = JObj [(''version'', JNum ''1''), (''adapters'', JArr [JObj
     [(''id'', JStr ''shell''), (''displayName'', JStr ''Shell''), (''version'', JStr ''1''), (''capabilities'', JArr [JStr ''interactive'']),
      (''profiles'', JArr [JObj [(''sandboxProfile'', JStr ''small''), (''credentialMode'', JStr ''none''), (''warmPool'', JStr ''pool''),
        (''command'', JArr [JStr ''/bin/sh'']), (''healthCheck'', JArr [JStr ''/bin/true''])]])]])]"

lemma adaptersText_decodes:
  "decodeStruct True configFields adaptersText \<lparr>cfVersion = 0, cfAdapters = []\<rparr> = Some Registry.sampleConfig"
  by (simp add: adaptersText_def configFields_def definitionFields_def profileFields_def findField_exact setField_def setStrings_def
      setSlice_def parseIntLit_def allDigits_def isDigit_def decimalValue_def zeroDefinition_def zeroProfile_def Registry.sampleConfig_def)

definition controlFiles :: fileSystem where
  "controlFiles p = Inr (Inr (if p = ''/etc/sandherd/adapters.json'' then ''a'' else ''x''))"

text \<open>An environment in which everything succeeds until a signal asks for the end.\<close>

definition sampleControl :: "(unit, unit) controlEnv" where
  "sampleControl =
     \<lparr>cpFiles = (\<lambda>w. (controlFiles, w)), cpInCluster = (\<lambda>w. (Some (), w)), cpClientConfig = (\<lambda>p x w. (Inr (), w)),
      cpNewClient = (\<lambda>_. Inr sampleKube), cpListen = (\<lambda>a w. (Inr (), w)), cpServe = (\<lambda>y w. (SignalEnd, w)), cpShutdown = (\<lambda>w. (None, w)),
      cpGateway = sampleEnv, cpCodec = sampleCodec, cpPEM = Some, cpX509 = (\<lambda>_. Inr (Ed25519Key (replicate 64 (CHR ''k'')))),
      cpScanner = (\<lambda>t. Some (if t = ''a'' then adaptersText else demoFile, [])), cpJsonError = (\<lambda>_. []), cpRouterURL = (\<lambda>_. Some sampleURL),
      cpURLParse = (\<lambda>_. None), cpQuantity = (\<lambda>_. True), cpPathEscape = (\<lambda>x. x), cpAdapterIDs = [''shell''], cpErrorText = (\<lambda>_. []),
      cpFlagError = (\<lambda>_. []), cpInfo = \<lparr>biVersion = [], biCommit = [], biDate = [], biGo = [], biOS = [], biArch = []\<rparr>\<rparr>"

lemma sample_control_accepted: "parseRunConfig (cpFlagError sampleControl) [] = Inr (Some defaultRunConfig)"
proof -
  have "clusterDefaults (cxStorageProfiles defaultRunConfig) = cxStorageProfiles defaultRunConfig"
    by (auto simp: clusterDefaults_def defaultRunConfig_def)
  then have "defaultRunConfig\<lparr>cxStorageProfiles := clusterDefaults (cxStorageProfiles defaultRunConfig)\<rparr> = defaultRunConfig" by simp
  moreover have "\<not> incomplete defaultRunConfig" by (simp add: incomplete_def defaultRunConfig_def)
  ultimately show ?thesis by (simp add: parseRunConfig_def Let_def)
qed

lemma sample_load:
  assumes "q \<noteq> ''/etc/sandherd/adapters.json''"
  shows "load (cpScanner sampleControl) (cpJsonError sampleControl) controlFiles q = Inr \<lparr>pfVersion = 1, pfPrincipals = [demoCredential]\<rparr>"
proof -
  have "load (cpScanner sampleControl) (cpJsonError sampleControl) controlFiles q = load (\<lambda>s. Some (demoFile, [])) (\<lambda>_. []) (\<lambda>_. Inr (Inr ''x'')) ''p''"
    using assms by (simp add: load_def controlFiles_def sampleControl_def maxPrincipalFileBytes_def Let_def)
  then show ?thesis by (simp only: demoFile_load)
qed

lemma sample_control_run:
  "\<exists>y w pre. wired sampleControl defaultRunConfig y \<and> run_state (RunControlPlane sampleControl []) \<lparr>world = w, actions = []\<rparr> =
     (0, \<lparr>world = w\<lparr>gwLimiter := newLimiter DefaultLimits\<rparr>, actions = pre @ ServeSystem y SignalEnd # [ShutDown True, ListenerClosed]\<rparr>)"
proof -
  obtain reg where reg: "NewRegistry (\<lambda>_. True) Registry.sampleConfig = Inr reg" using sampleConfig_ok by blast
  let ?E = sampleControl and ?c = defaultRunConfig
  have clean: "cleanPath ''/var/run/secrets/sandherd/principals.json'' = ''/var/run/secrets/sandherd/principals.json''"
    "cleanPath ''/var/run/secrets/sandherd/capability-private-key.pem'' = ''/var/run/secrets/sandherd/capability-private-key.pem''"
    "cleanPath ''/etc/sandherd/adapters.json'' = ''/etc/sandherd/adapters.json''"
    by code_simp+
  have adapters: "run_state (loadAdapters ?E ?c) s = (Inr reg, s\<lparr>actions := actions s @ [Loaded ''/etc/sandherd/adapters.json'' True]\<rparr>)" for s
    using adaptersText_decodes reg
    by (simp add: loadAdapters_def loading_def run_withOutcome LoadRegistry_def sampleControl_def controlFiles_def clean defaultRunConfig_def
        maxConfigBytes_def atEOF_def sampleCodec_def described_def isOK_def)
  have principals: "run_state (loadPrincipals ?E ?c) s =
      (Inr ''/var/run/secrets/sandherd/principals.json'', s\<lparr>actions := actions s @ [Loaded ''/var/run/secrets/sandherd/principals.json'' True]\<rparr>)" for s
  proof -
    have f: "cpFiles ?E = (\<lambda>w. (controlFiles, w))" by (simp add: sampleControl_def)
    show ?thesis
      by (simp add: loadPrincipals_def loading_def run_withOutcome NewFileAuthenticator_def f sample_load clean defaultRunConfig_def described_def isOK_def)
  qed
  have signer: "run_state (loadSigner ?E ?c) s = (Inr \<lparr>privateKey = replicate 64 (CHR ''k''), sgTTL = 30 * second\<rparr>,
      s\<lparr>actions := actions s @ [Loaded ''/var/run/secrets/sandherd/capability-private-key.pem'' True]\<rparr>)" for s
    by (simp add: loadSigner_def loading_def runner_runs State_Monad.return_def sampleControl_def controlFiles_def clean readWhole_def
        described_def isOK_def ParsePrivateKeyPEM_def NewSigner_def defaultRunConfig_def second_def)
  have connect: "run_state (connect ?E ?c) s = (Inr sampleKube, s\<lparr>actions := actions s @ [Connected True]\<rparr>)" for s
    by (simp add: connect_def loadKubeConfig_def runner_runs State_Monad.return_def sampleControl_def defaultRunConfig_def described_def isOK_def)
  define sg :: Signer where "sg = \<lparr>privateKey = replicate 64 (CHR ''k''), sgTTL = 30 * second\<rparr>"
  define g :: "unit gatewayWorld gateway" where "g = \<lparr>gwResolver = ResolveRunner sampleKube sampleCodec ''sandherd-system'', gwSigner = sg, gwRouterURL = sampleURL,
    gwRouterTokenFile = ''/var/run/secrets/kubernetes.io/serviceaccount/token'', gwRunnerPort = 8080, gwLimits = DefaultLimits\<rparr>"
  have gateway: "run_state (buildGateway ?E ?c sg sampleKube) s = (Inr g, s\<lparr>world := (world s)\<lparr>gwLimiter := newLimiter DefaultLimits\<rparr>\<rparr>)" for s
    by (simp add: buildGateway_def NewGateway_def sampleControl_def defaultRunConfig_def sampleURL_def DefaultLimits_def Let_def described_def
        runner_runs State_Monad.return_def g_def)
  have list: "run_state (verifyAccess ?E sampleKube) s = (Inr (), s\<lparr>actions := actions s @ [ListedAgents True]\<rparr>)" for s
    by (simp add: verifyAccess_def embedded_def runner_runs ListAll_def run_kList run_kNow sampleKube_def State_Monad.return_def isOK_def)
  let ?y = "buildSystem ?E ?c reg ''/var/run/secrets/sandherd/principals.json'' sampleKube g"
  have ends: "cpServe ?E = (\<lambda>y w. (SignalEnd, w))" "cpShutdown ?E = (\<lambda>w. (None, w))" "cpListen ?E = (\<lambda>a w. (Inr (), w))"
    by (simp_all add: sampleControl_def)
  have serve: "run_state (serveSystem ?E ?y) s = (Inr (), s\<lparr>actions := actions s @ [ServeSystem ?y SignalEnd, ShutDown True]\<rparr>)" for s
    by (simp add: serveSystem_def shutDown_def runner_runs State_Monad.return_def ends)
  have "wired ?E ?c ?y"
    by (rule wired_system [OF parseRunConfig_complete [OF sample_control_accepted], where signer = sg])
      (use reg in \<open>auto simp: sampleControl_def sampleCodec_def g_def sg_def defaultRunConfig_def sampleURL_def\<close>)
  moreover have "run_state (RunControlPlane ?E []) \<lparr>world = w, actions = []\<rparr> =
     (0, \<lparr>world = w\<lparr>gwLimiter := newLimiter DefaultLimits\<rparr>, actions =
       [Loaded ''/etc/sandherd/adapters.json'' True, Loaded ''/var/run/secrets/sandherd/principals.json'' True,
        Loaded ''/var/run/secrets/sandherd/capability-private-key.pem'' True, Connected True, ListenedOn '':8080'' True, ListedAgents True] @
       ServeSystem ?y SignalEnd # [ShutDown True, ListenerClosed]\<rparr>)" for w
    unfolding run_RunControlPlane [OF sample_control_accepted] executeControl_def
    by (simp add: runner_runs adapters principals signer [folded sg_def] connect listening_def ends described_def isOK_def assemble_def gateway list
        serve noted_def State_Monad.return_def)
      (simp add: defaultRunConfig_def)
  ultimately show ?thesis by blast
qed


end
