(* ===== verification/Spec2Isabelle.thy ===== *)
theory Spec2Isabelle
  imports Server_Run Gateway_Props Bridge_Store Bridge_Main Controller_Run ControlPlane_Start
begin

text \<open>
  \<^bold>\<open>Sandherd.\<close> This library models the Go program under \<^verbatim>\<open>src/\<close> and proves what makes it correct.
  Sandherd runs coding agents in Kubernetes sandboxes. A \<^emph>\<open>control plane\<close> (\<^verbatim>\<open>internal/controlplane\<close>)
  offers an HTTP API for agents, keeps them as custom objects (\<^verbatim>\<open>internal/kubernetes/repository.go\<close>)
  and reconciles them with sandbox claims (\<^verbatim>\<open>controller.go\<close>, \<^verbatim>\<open>reconciler.go\<close>); a \<^emph>\<open>gateway\<close>
  (\<^verbatim>\<open>internal/gateway\<close>) inside the control plane bridges a client's WebSocket to the agent's
  \<^emph>\<open>runner\<close> (\<^verbatim>\<open>internal/runner\<close>), which owns the agent's process, its terminal output and the lease of
  the controlling client; an init container prepares the agent's workspace (\<^verbatim>\<open>internal/bootstrap\<close>);
  a client-side \<^emph>\<open>bridge\<close> (\<^verbatim>\<open>internal/herdrbridge\<close>) shows an agent in a pane of the Herdr terminal.

  \<^bold>\<open>How the model is built.\<close> Structs are records, machine integers are words, errors are values of a
  sum type. Code that only computes is a function. Code that calls the outside (an API server, a
  file system, git, a network) is a program of the state monad of \<open>Effects\<close>: the outside is a
  record of functions on an arbitrary state \<open>'w\<close> of the world, so that a theorem about all such
  records is one about every behaviour of the outside, answers that contradict each other included; every call
  is logged. \<open>yields\<close> and \<open>does\<close> are contracts over what a program may do, \<open>ordered\<close> over what must
  have happened before. Code with goroutines is a step function or step relation over a schedule,
  and a theorem quantifies over all schedules. Text and time formats, JSON scanners and printers,
  hashes, signatures and URL parsers are arguments; a theorem that needs a law of theirs has it as
  a hypothesis, and its witness gives functions that satisfy it.

  \<^bold>\<open>Theories and code.\<close>

  \<^item> \<open>Prelude\<close>, \<open>GoText\<close>, \<open>GoPath\<close>, \<open>Base64\<close>, \<open>Json\<close>, \<open>Effects\<close>: what the sources use of Go's library
    (UTF-8, \<^verbatim>\<open>strings\<close>, \<^verbatim>\<open>strconv\<close>, \<^verbatim>\<open>path/filepath\<close>, \<^verbatim>\<open>encoding/base64\<close>, \<^verbatim>\<open>encoding/json\<close>), buffered channels, and
    the logic of programs with effects.
  \<^item> \<open>Frame\<close>, \<open>FrameCodec\<close>: \<^verbatim>\<open>runner/frame.go\<close>. A client frame that decodes has exactly the fields of its type.
  \<^item> \<open>Replay\<close>: \<^verbatim>\<open>runner/replay.go\<close>, refined to a log of output of which a suffix within the bounds is kept.
  \<^item> \<open>Process\<close>: \<^verbatim>\<open>runner/process.go\<close>, the process under a pseudo terminal.
  \<^item> \<open>Hub\<close> and \<open>Hub_Inv\<close>, \<open>Hub_Stream\<close>, \<open>Hub_Steps\<close>, \<open>Hub_Safety\<close>, \<open>Hub_Delivery\<close>, \<open>Hub_Control\<close>, \<open>Hub_Props\<close>:
    \<^verbatim>\<open>runner/hub.go\<close>. The hub and its subscriptions live in a store, since subscriptions are shared
    between handlers; operations that take the lock in two sections are two steps. The invariant and the
    lemmas by operation carry the properties: one controller, input only under the lease, a retired
    lease authorises nothing, what is delivered extends what was replayed without gap.
  \<^item> \<open>Capability\<close>, \<open>Principal\<close>: \<^verbatim>\<open>auth/capability.go\<close> (tokens of the gateway, each accepted once)
    and \<^verbatim>\<open>auth/principal.go\<close> (credentials, with constant-time comparison and a cache).
  \<^item> \<open>Server\<close>, \<open>Server_Run\<close>: \<^verbatim>\<open>runner/server.go\<close>; every client message is one of the hub's operations.
  \<^item> \<open>Runner_Main\<close>, \<open>Runner_Start\<close>: \<^verbatim>\<open>runner/run.go\<close> and \<^verbatim>\<open>id.go\<close>, from the arguments to the server and the
    shutdown: what has been checked when the agent starts, who is let in, and that the server starts in a
    state of \<open>Hub_Steps\<close>. \<open>Runner_Deploy\<close>: the runner accepts every launch decision of the control plane.
  \<^item> \<open>GoFlag\<close>, \<open>BuildInfo\<close>: what the commands use of \<^verbatim>\<open>flag\<close> and \<^verbatim>\<open>strconv\<close>; \<^verbatim>\<open>buildinfo\<close> and \<^verbatim>\<open>cliapp\<close>.
  \<^item> \<open>Lifecycle\<close>, \<open>Events\<close>, \<open>Registry\<close>: \<^verbatim>\<open>lifecycle/*.go\<close>, \<^verbatim>\<open>runtimeadapter/registry.go\<close>: agents, validation,
    identifiers, the event bus, and the adapters an agent may run.
  \<^item> \<open>Controller\<close>: the work queue of \<^verbatim>\<open>kubernetes/controller.go\<close> as a transition system; \<open>Controller_Run\<close>: the
    listing at every tick and the watches that feed it.
  \<^item> \<open>Kube\<close>, \<open>Repository\<close>, \<open>Reconciler\<close>: the API server, \<^verbatim>\<open>repository.go\<close> and \<^verbatim>\<open>reconciler.go\<close>.
  \<^item> \<open>ControlPlane\<close>: \<^verbatim>\<open>controlplane/server.go\<close>, every route, the event stream included.
  \<^item> \<open>ControlPlane_Main\<close>, \<open>ControlPlane_Start\<close>: \<^verbatim>\<open>controlplane/run.go\<close>; how the parts are built from the
    configuration, and that the system served meets the assumptions of the theorems about its parts.
  \<^item> \<open>Gateway\<close>, \<open>Gateway_Proxy\<close>, \<open>Gateway_Props\<close>: \<^verbatim>\<open>gateway/*.go\<close>; the two copying goroutines and the
    takeover counter are a step function, and the last theory composes the gateway with the control
    plane's handlers, the capability verifier and the runner's frame decoder.
  \<^item> \<open>Bootstrap\<close>, \<open>Bootstrap_Props\<close>, \<open>Bootstrap_Order\<close>, \<open>Bootstrap_Outcome\<close>, \<open>Bootstrap_Instance\<close>:
    \<^verbatim>\<open>bootstrap/*.go\<close>; what a run may touch, in which order, what it ends with, and a file
    system on which the hypotheses hold and two runs in a row do what one refuses to do.
  \<^item> \<open>Bridge\<close>, \<open>Bridge_Client\<close>, \<open>Bridge_Manager\<close>, \<open>Bridge_Frames\<close>, \<open>Bridge_Terminal\<close>, \<open>Bridge_Main\<close>:
    \<^verbatim>\<open>herdrbridge/*.go\<close>; the state store, the configuration, the commands to Herdr, the client of the API, the
    menu, and the terminal, whose loop, reader, writer and keyboard are a step function over a schedule.
  \<^item> \<open>Bridge_Session\<close>, \<open>Bridge_Wire\<close>, \<open>Bridge_Safety\<close>, \<open>Bridge_Store\<close>, on the runs of \<open>Bridge_Sample\<close>: what a user
    sees over all reconnections, what the runner makes of the frames of a bridge and a bridge of the
    runner's refusals, which request the manager makes and what the control plane takes it for, and what is
    read back of the stored state.

  \<^bold>\<open>Interfaces.\<close> \<open>history_buffer\<close> is the contract of a buffer that keeps the end of what was appended; the
  replay buffer of the runner and the event bus interpret it. \<open>authenticator\<close> is what the API relies on
  in \<^verbatim>\<open>auth.Authenticator\<close>; the credential file interprets it.

  \<^bold>\<open>Bounds and fuel.\<close> Loops over data are structural or have a measure; loops that wait for the outside
  are step functions over a finite schedule of events. Three loops that may run for ever count:
  \<open>waitUntilRunning\<close> its polls, \<open>reconnecting\<close> its connections (the value \<open>None\<close> says that the bridge is
  still running) and \<open>RunController\<close> its ticks; the theorems hold for every count. Lengths (64 KiB of git output,
  1 MiB bodies, replay bounds, queue sizes) are those of the code.

  \<^bold>\<open>Not modelled.\<close> Logging other than audit records and what the \<^verbatim>\<open>flag\<close> package prints; the main functions
  under \<^verbatim>\<open>cmd/\<close>, one call each. \<^verbatim>\<open>time.ParseDuration\<close>, which computes with floating point, is an argument.
\<close>

end
